(* ===== verification/Prelude.thy ===== *)
theory Prelude
  imports Main "HOL-Library.Word" "HOL-Library.AList"
begin

text \<open>
  Shared vocabulary of the development: the widths of the machine integers the C++ sources
  use, the outcome of an operation that the C++ standard leaves undefined, the part of
  \<^verbatim>\<open>std::unordered_map\<close> the sources use, and the generic lemmas the components share.
\<close>

unbundle bit_operations_syntax

section \<open>Machine integers\<close>

type_synonym u8 = "8 word"
type_synonym u16 = "16 word"
type_synonym u32 = "32 word"
type_synonym u64 = "64 word"

text \<open>Facts that move word inequalities to \<^typ>\<open>nat\<close>.\<close>

named_theorems word_nat_simps

lemma unat_add_no_wrap [word_nat_simps]:
  fixes a b :: "'w::len word"
  assumes "unat a + unat b < 2 ^ LENGTH('w)"
  shows "unat (a + b) = unat a + unat b"
  using assms by (simp add: unat_word_ariths)

lemma unat_sub_no_wrap [word_nat_simps]:
  fixes a b :: "'w::len word"
  assumes "b \<le> a"
  shows "unat (a - b) = unat a - unat b"
  using assms by (simp add: unat_sub)

lemma word_le_unat [word_nat_simps]: "a \<le> b \<longleftrightarrow> unat a \<le> unat b"
  for a b :: "'w::len word"
  by (simp add: word_le_nat_alt)

lemma word_less_unat [word_nat_simps]: "a < b \<longleftrightarrow> unat a < unat b"
  for a b :: "'w::len word"
  by (simp add: word_less_nat_alt)

lemma unat_lt_64 [simp]: "unat (a :: u64) < 18446744073709551616"
  using unsigned_less [of a, where ?'a = nat] by simp

lemma unat_lt_32 [simp]: "unat (a :: u32) < 4294967296"
  using unsigned_less [of a, where ?'a = nat] by simp

section \<open>Undefined behaviour\<close>

text \<open>
  \<open>UB\<close> is the outcome of an execution that leaves the C++ abstract machine (a null or
  out-of-bounds access, \<^verbatim>\<open>back()\<close> of an empty string, division by zero).
\<close>

datatype 'a cpp = Val 'a | UB

definition cpp_bind :: "'a cpp \<Rightarrow> ('a \<Rightarrow> 'b cpp) \<Rightarrow> 'b cpp" where
  "cpp_bind m f = (case m of Val x \<Rightarrow> f x | UB \<Rightarrow> UB)"

lemma cpp_bind_Val [simp]: "cpp_bind (Val x) f = f x"
  by (simp add: cpp_bind_def)

lemma cpp_bind_UB [simp]: "cpp_bind UB f = UB"
  by (simp add: cpp_bind_def)

lemma cpp_bind_eq_Val_iff:
  "cpp_bind m f = Val y \<longleftrightarrow> (\<exists>x. m = Val x \<and> f x = Val y)"
  by (cases m) auto

lemma cpp_bind_ValE:
  assumes "cpp_bind m f = Val y"
  obtains x where "m = Val x" and "f x = Val y"
  using assms by (auto simp: cpp_bind_eq_Val_iff)

section \<open>Hash maps\<close>

text \<open>
  \<^verbatim>\<open>std::unordered_map\<close> as an association list with distinct keys. Iteration visits the
  list from the front; no property of the development depends on that order.
\<close>

type_synonym ('k, 'v) umap = "('k \<times> 'v) list"

definition um_ok :: "('k, 'v) umap \<Rightarrow> bool" where
  "um_ok m \<longleftrightarrow> distinct (map fst m)"

definition um_find :: "('k, 'v) umap \<Rightarrow> 'k \<Rightarrow> 'v option" where
  "um_find m k = map_of m k"

definition um_emplace :: "'k \<Rightarrow> 'v \<Rightarrow> ('k, 'v) umap \<Rightarrow> ('k, 'v) umap" where
  "um_emplace k v m = (case map_of m k of None \<Rightarrow> m @ [(k, v)] | Some _ \<Rightarrow> m)"

definition um_assign :: "'k \<Rightarrow> 'v \<Rightarrow> ('k, 'v) umap \<Rightarrow> ('k, 'v) umap" where
  "um_assign k v m = AList.update k v m"

definition um_erase :: "'k \<Rightarrow> ('k, 'v) umap \<Rightarrow> ('k, 'v) umap" where
  "um_erase k m = AList.delete k m"

text \<open>
  The contract the table components rely on: lookups after each update, and that every
  update keeps the representation invariant.
\<close>

locale hash_map =
  fixes ok :: "'m \<Rightarrow> bool"
    and find :: "'m \<Rightarrow> 'k \<Rightarrow> 'v option"
    and emplace :: "'k \<Rightarrow> 'v \<Rightarrow> 'm \<Rightarrow> 'm"
    and assign :: "'k \<Rightarrow> 'v \<Rightarrow> 'm \<Rightarrow> 'm"
    and erase :: "'k \<Rightarrow> 'm \<Rightarrow> 'm"
    and empty :: 'm
  assumes ok_empty: "ok empty"
    and ok_emplace: "ok m \<Longrightarrow> ok (emplace k v m)"
    and ok_assign: "ok m \<Longrightarrow> ok (assign k v m)"
    and ok_erase: "ok m \<Longrightarrow> ok (erase k m)"
    and find_empty: "find empty k = None"
    and find_emplace:
      "find (emplace k v m) j = (if j = k \<and> find m k = None then Some v else find m j)"
    and find_assign: "find (assign k v m) j = (if j = k then Some v else find m j)"
    and find_erase: "find (erase k m) j = (if j = k then None else find m j)"
begin

lemma find_emplace_fresh: "find m k = None \<Longrightarrow> find (emplace k v m) k = Some v"
  by (simp add: find_emplace)

lemma find_emplace_keeps: "find m j = Some w \<Longrightarrow> find (emplace k v m) j = Some w"
  by (auto simp: find_emplace)

lemma erase_emplace_fresh:
  "find m k = None \<Longrightarrow> find (erase k (emplace k v m)) j = find m j"
  by (simp add: find_erase find_emplace)

end

interpretation um: hash_map um_ok um_find um_emplace um_assign um_erase "[]"
proof unfold_locales
  fix m :: "('k, 'v) umap" and k :: 'k and v :: 'v and j :: 'k
  show "um_ok ([] :: ('k, 'v) umap)" by (simp add: um_ok_def)
  show "um_ok m \<Longrightarrow> um_ok (um_emplace k v m)"
    by (auto simp: um_ok_def um_emplace_def map_of_eq_None_iff split: option.splits)
  show "um_ok m \<Longrightarrow> um_ok (um_assign k v m)"
    by (simp add: um_ok_def um_assign_def distinct_update)
  show "um_ok m \<Longrightarrow> um_ok (um_erase k m)"
    by (simp add: um_ok_def um_erase_def distinct_delete)
  show "um_find ([] :: ('k, 'v) umap) k = None" by (simp add: um_find_def)
  show "um_find (um_emplace k v m) j
    = (if j = k \<and> um_find m k = None then Some v else um_find m j)"
    by (auto simp: um_find_def um_emplace_def map_add_def split: option.splits)
  show "um_find (um_assign k v m) j = (if j = k then Some v else um_find m j)"
    by (simp add: um_find_def um_assign_def update_conv')
  show "um_find (um_erase k m) j = (if j = k then None else um_find m j)"
    by (simp add: um_find_def um_erase_def delete_conv')
qed

lemmas um_simps = um.find_empty um.find_emplace um.find_assign um.find_erase
lemmas um_oks = um.ok_empty um.ok_emplace um.ok_assign um.ok_erase

lemma um_find_mem: "um_find m k = Some v \<Longrightarrow> (k, v) \<in> set m"
  by (auto simp: um_find_def dest: map_of_SomeD)

lemma um_mem_find: "um_ok m \<Longrightarrow> (k, v) \<in> set m \<longleftrightarrow> um_find m k = Some v"
  by (simp add: um_ok_def um_find_def map_of_eq_Some_iff)

lemma um_emplace_fresh: "um_find m k = None \<Longrightarrow> um_emplace k v m = m @ [(k, v)]"
  by (simp add: um_find_def um_emplace_def)

lemma um_assign_fresh: "um_find m k = None \<Longrightarrow> um_assign k v m = m @ [(k, v)]"
  by (induction m) (auto simp: um_find_def um_assign_def split: if_splits)

section \<open>Bytes of words\<close>

text \<open>The little-endian image of a word, as the host stores it, and its reading back.\<close>

definition le_bytes :: "nat \<Rightarrow> 'a::len word \<Rightarrow> u8 list" where
  "le_bytes n w = map (\<lambda>i. ucast (drop_bit (8 * i) w)) [0..<n]"

fun le_value :: "u8 list \<Rightarrow> nat" where
  "le_value [] = 0"
| "le_value (b # bs) = unat b + 256 * le_value bs"

lemma length_le_bytes [simp]: "length (le_bytes n w) = n"
  by (simp add: le_bytes_def)

lemma le_value_less: "le_value bs < 256 ^ length bs"
proof (induction bs)
  case (Cons b bs)
  have "unat b < 256" using unsigned_less [of b] by simp
  with Cons show ?case by simp
qed simp

lemma le_bytes_Suc: "le_bytes (Suc n) w = ucast w # le_bytes n (drop_bit 8 w)"
proof -
  have "map (\<lambda>i. ucast (drop_bit (8 * i) w)) [1..<Suc n] =
      map (\<lambda>i. ucast (drop_bit (8 * Suc i) w) :: u8) [0..<n]"
    by (simp add: map_Suc_upt [symmetric] del: upt_Suc)
  moreover have "[0..<Suc n] = 0 # [1..<Suc n]" by (simp add: upt_conv_Cons)
  ultimately show ?thesis
    by (simp add: le_bytes_def drop_bit_drop_bit add.commute del: upt_Suc)
qed

lemma le_value_le_bytes: "le_value (le_bytes n w) = unat w mod 256 ^ n"
proof (induction n arbitrary: w)
  case 0
  then show ?case by (simp add: le_bytes_def)
next
  case (Suc n)
  have b: "unat (ucast w :: u8) = unat w mod 256"
    by (simp add: unsigned_ucast_eq take_bit_eq_mod)
  have d: "unat (drop_bit 8 w) = unat w div 256"
    unfolding unsigned_drop_bit_eq
    by (simp add: drop_bit_eq_div take_bit_nat_eq_self unsigned_less)
  show ?case
    by (simp add: le_bytes_Suc Suc.IH b d mod_mult2_eq)
qed

section \<open>Structures in buffers\<close>

text \<open>A little-endian field of \<open>n\<close> bytes at an offset.\<close>

definition le_field :: "nat \<Rightarrow> nat \<Rightarrow> u8 list \<Rightarrow> 'a::len word" where
  "le_field off n bs = word_of_nat (le_value (take n (drop off bs)))"

text \<open>\<^verbatim>\<open>memcpy\<close> out of a buffer: undefined past its end.\<close>

definition read_buffer :: "u8 list \<Rightarrow> nat \<Rightarrow> nat \<Rightarrow> u8 list cpp" where
  "read_buffer buf off n = (if off + n \<le> length buf then Val (take n (drop off buf)) else UB)"

lemma bit_word_of_nat: "bit (of_nat n :: 'a::len word) i \<longleftrightarrow> i < LENGTH('a) \<and> bit n i"
  using bit_word_of_int_iff [where 'a = 'a, of "int n" i] by (simp add: bit_of_nat_iff_bit)

lemma le_field_le_bytes:
  fixes w :: "'a::len word"
  assumes "take n (drop off bs) = le_bytes n w" and "LENGTH('a) = 8 * n"
  shows "le_field off n bs = w"
proof -
  have "(256 :: nat) ^ n = 2 ^ LENGTH('a)" by (simp add: assms(2) power_mult)
  then have "unat w mod 256 ^ n = unat w" by (metis mod_less unsigned_less)
  then show ?thesis by (simp add: le_field_def assms(1) le_value_le_bytes)
qed

lemma read_buffer_append:
  "length xs = off \<Longrightarrow> length ys = n \<Longrightarrow> read_buffer (xs @ ys @ zs) off n = Val ys"
  by (simp add: read_buffer_def)

section \<open>Bytes of characters\<close>

definition char_byte :: "char \<Rightarrow> u8" where "char_byte c = word_of_nat (of_char c)"
definition byte_char :: "u8 \<Rightarrow> char" where "byte_char b = char_of (unat b)"

lemma byte_char_char_byte: "byte_char (char_byte c) = c"
proof -
  have "of_char c < (256 :: nat)" by simp
  then have "unat (word_of_nat (of_char c) :: u8) = of_char c"
    by (simp add: unat_of_nat take_bit_nat_eq_self)
  then show ?thesis by (simp add: byte_char_def char_byte_def)
qed

lemma char_byte_eq_0: "char_byte c = 0 \<longleftrightarrow> c = char_of (0 :: nat)"
proof
  assume "char_byte c = 0"
  then have "byte_char (char_byte c) = byte_char 0" by simp
  then show "c = char_of (0 :: nat)" by (simp only: byte_char_char_byte) (simp add: byte_char_def)
qed (simp add: char_byte_def)

section \<open>Lists\<close>

lemma takeWhile_append_stop:
  "\<forall>x\<in>set xs. P x \<Longrightarrow> \<not> P y \<Longrightarrow> takeWhile P (xs @ y # ys) = xs"
  by (simp add: takeWhile_append2)

lemma list_all_butlast: "list_all P xs \<Longrightarrow> list_all P (butlast xs)"
  by (auto simp: list_all_iff dest: in_set_butlastD)

lemma find_append:
  "List.find P (xs @ ys) = (case List.find P xs of None \<Rightarrow> List.find P ys | Some x \<Rightarrow> Some x)"
  by (induction xs) auto

end
