(* ===== verification/Resource_Ledger.thy ===== *)
theory Resource_Ledger
  imports Prelude "HOL-Library.Multiset"
begin

text \<open>
  Accounting for resources: multisets over the values of a hash map, logs of acquisitions and
  releases, and the contract of a component whose live resources are what it acquired and has
  not released.
\<close>

lemma mset_um_erase:
  assumes "um_ok m" and "um_find m k = Some v"
  shows "mset (map snd m) = add_mset v (mset (map snd (um_erase k m)))"
  using assms
proof (induction m)
  case (Cons kv m)
  obtain j w where kv: "kv = (j, w)" by (cases kv)
  show ?case
  proof (cases "j = k")
    case True
    have "k \<notin> fst ` set m" using Cons.prems(1) True kv by (simp add: um_ok_def)
    then have "um_erase k m = m"
      by (induction m) (auto simp: um_erase_def)
    then show ?thesis
      using Cons.prems(2) True kv by (simp add: um_find_def um_erase_def)
  next
    case False
    then have "um_find m k = Some v" "um_ok m"
      using Cons.prems kv by (auto simp: um_find_def um_ok_def)
    then show ?thesis using Cons.IH False kv by (simp add: um_erase_def)
  qed
qed (simp add: um_find_def)

definition um_values :: "('k, 'v) umap \<Rightarrow> 'v multiset" where
  "um_values m = mset (map snd m)"

lemma um_values_Nil [simp]: "um_values [] = {#}"
  by (simp add: um_values_def)

lemma um_values_assign:
  "um_find m k = None \<Longrightarrow> um_values (um_assign k v m) = add_mset v (um_values m)"
  by (simp add: um_values_def um_assign_fresh)

lemma um_values_erase:
  "um_ok m \<Longrightarrow> um_find m k = Some v \<Longrightarrow> um_values m = add_mset v (um_values (um_erase k m))"
  unfolding um_values_def by (rule mset_um_erase)

datatype 'r ledger_event = Acquired 'r | Released 'r

text \<open>
  A component that acquires and releases resources, with the log of what it did. \<open>inv n s\<close> says
  that the state is well formed and that \<open>n\<close> more operations fit its id range.
\<close>

definition acquired :: "'r ledger_event list \<Rightarrow> 'r multiset" where
  "acquired es = mset (List.map_filter (\<lambda>e. case e of Acquired x \<Rightarrow> Some x | Released _ \<Rightarrow> None) es)"

definition released :: "'r ledger_event list \<Rightarrow> 'r multiset" where
  "released es = mset (List.map_filter (\<lambda>e. case e of Released x \<Rightarrow> Some x | Acquired _ \<Rightarrow> None) es)"

fun run_ops :: "('s \<Rightarrow> 'q \<Rightarrow> 's \<times> 'r ledger_event list) \<Rightarrow> 's \<Rightarrow> 'q list \<Rightarrow> 's \<times> 'r ledger_event list" where
  "run_ops step s [] = (s, [])"
| "run_ops step s (q # qs) =
     (case step s q of (s', es) \<Rightarrow> case run_ops step s' qs of (s'', es') \<Rightarrow> (s'', es @ es'))"

lemma acquired_simps [simp]:
  "acquired [] = {#}" "acquired (Acquired x # es) = add_mset x (acquired es)"
  "acquired (Released x # es) = acquired es" "acquired (es @ fs) = acquired es + acquired fs"
  by (simp_all add: acquired_def map_filter_simps) (simp add: List.map_filter_def)

lemma released_simps [simp]:
  "released [] = {#}" "released (Released x # es) = add_mset x (released es)"
  "released (Acquired x # es) = released es" "released (es @ fs) = released es + released fs"
  by (simp_all add: released_def map_filter_simps) (simp add: List.map_filter_def)

locale resource_ledger =
  fixes inv :: "nat \<Rightarrow> 's \<Rightarrow> bool"
    and step :: "'s \<Rightarrow> 'q \<Rightarrow> 's \<times> 'r ledger_event list"
    and live :: "'s \<Rightarrow> 'r multiset"
  assumes inv_step: "inv (Suc n) s \<Longrightarrow> step s q = (s', es) \<Longrightarrow> inv n s'"
    and account: "inv (Suc n) s \<Longrightarrow> step s q = (s', es) \<Longrightarrow> live s' + released es = live s + acquired es"
begin

lemma run_account:
  "inv (length qs + n) s \<Longrightarrow> run_ops step s qs = (s', es)
     \<Longrightarrow> inv n s' \<and> live s' + released es = live s + acquired es"
proof (induction qs arbitrary: s es)
  case (Cons q qs)
  obtain s1 es1 where 1: "step s q = (s1, es1)" by fastforce
  obtain es2 where 2: "run_ops step s1 qs = (s', es2)" "es = es1 @ es2"
    using Cons.prems(2) 1 by (auto split: prod.splits)
  have i: "inv (Suc (length qs + n)) s" using Cons.prems(1) by simp
  have h: "inv n s'" "live s' + released es2 = live s1 + acquired es2"
    using Cons.IH [OF inv_step [OF i 1] 2(1)] by blast+
  have "live s' + released es = (live s' + released es2) + released es1"
    by (simp add: 2(2) ac_simps)
  also have "\<dots> = (live s1 + released es1) + acquired es2"
    by (simp only: h(2)) (simp add: ac_simps)
  also have "\<dots> = live s + acquired es" 
    by (simp only: account [OF i 1]) (simp add: 2(2) ac_simps)
  finally show ?case using h(1) by blast
qed simp

end

end
