(* ===== verification/Guest_Memory.thy ===== *)
theory Guest_Memory
  imports Prelude
begin

text \<open>
  The memory both processes see. Guest addresses are host addresses (the arena is mapped at
  the same place in both), so a guest pointer is dereferenced directly; a byte that is not
  mapped has no value and accessing it is undefined.
\<close>

type_synonym memory = "u64 \<Rightarrow> u8 option"

text \<open>A store of bytes: undefined when one of the target bytes is not mapped.\<close>

fun store_bytes :: "u64 \<Rightarrow> u8 list \<Rightarrow> memory \<Rightarrow> memory cpp" where
  "store_bytes a [] m = Val m"
| "store_bytes a (b # bs) m =
     (case m a of None \<Rightarrow> UB | Some _ \<Rightarrow> store_bytes (a + 1) bs (m(a \<mapsto> b)))"

text \<open>A load of \<open>n\<close> bytes, with the same condition.\<close>

fun load_bytes :: "memory \<Rightarrow> u64 \<Rightarrow> nat \<Rightarrow> u8 list cpp" where
  "load_bytes m a 0 = Val []"
| "load_bytes m a (Suc n) =
     (case m a of
        None \<Rightarrow> UB
      | Some b \<Rightarrow> cpp_bind (load_bytes m (a + 1) n) (\<lambda>bs. Val (b # bs)))"

section \<open>Lemmas\<close>

lemma unat_pred:
  fixes x a :: u64
  assumes "x \<noteq> a"
  shows "unat (x - (a + 1)) = unat (x - a) - 1" and "0 < unat (x - a)"
proof -
  have nz: "x - a \<noteq> 0" using assms by simp
  then show pos: "0 < unat (x - a)" by (simp add: unat_gt_0)
  have "(1 :: u64) \<le> x - a" using nz by (simp add: word_le_unat unat_gt_0 Suc_leI)
  then have "unat ((x - a) - 1) = unat (x - a) - unat (1 :: u64)" by (rule unat_sub)
  then show "unat (x - (a + 1)) = unat (x - a) - 1" by (simp add: diff_diff_eq)
qed

lemma store_bytes_reads:
  assumes "store_bytes a bs m = Val m'" and "length bs < 2 ^ 64"
  shows "m' x = (if unat (x - a) < length bs then Some (bs ! unat (x - a)) else m x)"
  using assms
proof (induction a bs m arbitrary: m' rule: store_bytes.induct)
  case (1 a m)
  then show ?case by simp
next
  case (2 a b bs m)
  from 2(2) have s: "store_bytes (a + 1) bs (m(a \<mapsto> b)) = Val m'"
    and ma: "m a \<noteq> None" by (auto split: option.splits)
  have IH: "m' x = (if unat (x - (a + 1)) < length bs then Some (bs ! unat (x - (a + 1)))
      else (m(a \<mapsto> b)) x)"
    using 2(1) [OF _ s] ma 2(3) by force
  show ?case
  proof (cases "x = a")
    case True
    have "unat (- 1 :: u64) = 2 ^ 64 - 1"
      by (simp add: unsigned_minus_1_eq_mask mask_eq_exp_minus_1)
    with True IH 2(3) show ?thesis by simp
  next
    case False
    with IH unat_pred [OF False] show ?thesis by (auto simp: nth_Cons')
  qed
qed

lemma store_bytes_total:
  "\<forall>i < length bs. m (a + of_nat i) \<noteq> None \<Longrightarrow> \<exists>m'. store_bytes a bs m = Val m'"
proof (induction a bs m rule: store_bytes.induct)
  case (2 a b bs m)
  from 2(2) obtain v where v: "m a = Some v" by force
  have "\<forall>i < length bs. (m(a \<mapsto> b)) (a + 1 + of_nat i) \<noteq> None"
    using 2(2) by (auto simp: add.assoc)
  from 2(1) [OF v this] v show ?case by (simp add: fun_upd_def)
qed simp

lemma load_bytes_eq_Val:
  "load_bytes m a n = Val bs \<longleftrightarrow> length bs = n \<and> (\<forall>i<n. m (a + of_nat i) = Some (bs ! i))"
proof (induction n arbitrary: a bs)
  case (Suc n)
  show ?case
  proof (cases bs)
    case Nil
    then show ?thesis by (auto simp: cpp_bind_eq_Val_iff split: option.splits)
  next
    case (Cons b cs)
    then have "load_bytes m a (Suc n) = Val bs \<longleftrightarrow> m a = Some b \<and> load_bytes m (a + 1) n = Val cs"
      by (auto simp: cpp_bind_eq_Val_iff split: option.splits)
    also have "\<dots> \<longleftrightarrow> length bs = Suc n \<and> (\<forall>i<Suc n. m (a + of_nat i) = Some (bs ! i))"
      by (auto simp: Suc.IH Cons All_less_Suc2 add.assoc)
    finally show ?thesis .
  qed
qed auto

lemma store_bytes_dom: "store_bytes a bs m = Val m' \<Longrightarrow> dom m' = dom m"
  by (induction a bs m rule: store_bytes.induct) (auto split: option.splits)

lemma store_bytes_keeps:
  assumes "store_bytes a bs m = Val m'" and "length bs < 2 ^ 64" and "length bs \<le> unat (x - a)"
  shows "m' x = m x"
  using store_bytes_reads [OF assms(1,2)] assms(3) by simp

lemma load_store_bytes:
  assumes "store_bytes a bs m = Val m'" and "length bs < 2 ^ 64"
  shows "load_bytes m' a (length bs) = Val bs"
proof -
  have "unat (of_nat i :: u64) = i" if "i < length bs" for i
    using that assms(2) by (simp add: unat_of_nat take_bit_nat_eq_self)
  then show ?thesis
    unfolding load_bytes_eq_Val using store_bytes_reads [OF assms] by auto
qed

text \<open>The same, for addresses given as offsets from a base, which may wrap around.\<close>

lemma unat_offset_diff:
  assumes "p < 2 ^ 64" and "q \<le> 2 ^ 64"
  shows "unat ((b + of_nat p) - (b + of_nat q) :: u64) = (if q \<le> p then p - q else 2 ^ 64 + p - q)"
proof -
  have small: "unat (of_nat n :: u64) = n" if "n < 2 ^ 64" for n
    using that by (simp add: unat_of_nat take_bit_nat_eq_self)
  show ?thesis
  proof (cases "q \<le> p")
    case True
    then have "(b + of_nat p) - (b + of_nat q) = (of_nat (p - q) :: u64)" by (simp add: of_nat_diff)
    with small [of "p - q"] True assms show ?thesis by (simp only: if_True)
  next
    case False
    have "(of_nat (2 ^ 64) :: u64) = 0" by simp
    then have "(of_nat (2 ^ 64 + p - q) :: u64) = of_nat p - of_nat q"
      using assms by (simp add: of_nat_diff)
    then have "(b + of_nat p) - (b + of_nat q) = (of_nat (2 ^ 64 + p - q) :: u64)" by simp
    with small [of "2 ^ 64 + p - q"] False assms show ?thesis by (simp only: if_False)
  qed
qed

lemma store_bytes_at:
  assumes "store_bytes (b + of_nat q) bs m = Val m'" and "length bs < 2 ^ 64"
    and "q + length bs \<le> 2 ^ 64" and "p < 2 ^ 64"
  shows "m' (b + of_nat p) =
    (if q \<le> p \<and> p < q + length bs then Some (bs ! (p - q)) else m (b + of_nat p))"
  using assms(3,4) store_bytes_reads [OF assms(1,2)] unat_offset_diff [of p q b] by auto

lemma store_bytes_total_at:
  assumes "\<And>p. q \<le> p \<Longrightarrow> p < q + length bs \<Longrightarrow> m (b + of_nat p) \<noteq> None"
  obtains m' where "store_bytes (b + of_nat q) bs m = Val m'"
proof -
  have "\<forall>i < length bs. m (b + of_nat q + of_nat i) \<noteq> None"
    using assms [of "q + _"] by (simp add: add.assoc)
  from store_bytes_total [OF this] that show ?thesis by blast
qed

lemma load_bytes_at:
  assumes "\<And>i. i < length bs \<Longrightarrow> m (b + of_nat (q + i)) = Some (bs ! i)"
  shows "load_bytes m (b + of_nat q) (length bs) = Val bs"
  unfolding load_bytes_eq_Val using assms by (simp add: add.assoc)

lemma load_bytes_cong:
  "(\<And>i. i < n \<Longrightarrow> m' (a + of_nat i) = m (a + of_nat i)) \<Longrightarrow> load_bytes m' a n = load_bytes m a n"
proof (induction n arbitrary: a)
  case (Suc n)
  have "m' a = m a" using Suc.prems [of 0] by simp
  moreover have "load_bytes m' (a + 1) n = load_bytes m (a + 1) n"
    using Suc.prems [of "Suc _"] by (intro Suc.IH) (simp add: add.assoc)
  ultimately show ?case by (simp split: option.split)
qed simp

end
