(* ===== verification/Virtual_Path.thy ===== *)
theory Virtual_Path
  imports Prelude
begin

text \<open>
  \<^verbatim>\<open>filesystem/virtual/VirtualPath.cpp\<close>: lexical normalisation of guest paths and their
  translation to host paths. A path is a byte string; \<open>normalize\<close> and \<open>translate\<close> return
  \<open>None\<close> where the C++ returns \<^verbatim>\<open>false\<close>.
\<close>

section \<open>Model\<close>

definition isPrintablePathChar :: "char \<Rightarrow> bool" where
  "isPrintablePathChar c =
     (let u = (of_char c :: nat) in if u = 0 then False else 0x20 \<le> u \<and> u < 0x7F)"

text \<open>The branch \<^verbatim>\<open>c == '/'\<close> of the scanning loop: the finished component \<open>cur\<close>.\<close>

definition end_component :: "string list \<Rightarrow> string \<Rightarrow> string list option" where
  "end_component stack cur =
     (if cur = [] then Some stack
      else if cur = ''.'' then Some stack
      else if cur = ''..'' then Some (if stack \<noteq> [] then butlast stack else stack)
      else if \<forall>ch\<in>set cur. isPrintablePathChar ch then Some (stack @ [cur])
      else None)"

text \<open>
  The scanning loop; past the last character the C++ sees a virtual \<^verbatim>\<open>'/'\<close>.
\<close>

fun scan_path :: "string list \<Rightarrow> string \<Rightarrow> string \<Rightarrow> string list option" where
  "scan_path stack cur [] = end_component stack cur"
| "scan_path stack cur (c # cs) =
     (if c = CHR ''/''
      then (case end_component stack cur of
              None \<Rightarrow> None
            | Some stack' \<Rightarrow> scan_path stack' [] cs)
      else scan_path stack (cur @ [c]) cs)"

text \<open>The \<^verbatim>\<open>ostringstream\<close> loop that writes the stack back.\<close>

fun join_path :: "string list \<Rightarrow> string" where
  "join_path [] = []"
| "join_path [x] = x"
| "join_path (x # y # zs) = x @ CHR ''/'' # join_path (y # zs)"

definition normalize :: "string \<Rightarrow> string option" where
  "normalize input =
     (if input = [] then None
      else if CHR 0x00 \<in> set input then None
      else (let absolute = (hd input = CHR ''/'');
                rest = (if absolute then tl input else input)
            in case scan_path [] [] rest of
                 None \<Rightarrow> None
               | Some stack \<Rightarrow> Some (CHR ''/'' # join_path stack)))"

text \<open>
  \<^verbatim>\<open>outHostPath.back()\<close> on an empty string is undefined, hence the outer \<^typ>\<open>'a cpp\<close>.
\<close>

definition translate :: "string \<Rightarrow> string \<Rightarrow> string \<Rightarrow> string option cpp" where
  "translate guestPath vfsRoot hostSubdir =
     (case normalize guestPath of
        None \<Rightarrow> Val None
      | Some canonical \<Rightarrow>
          (let suffix = (if canonical = ''/'' then [] else canonical);
               root = (if vfsRoot \<noteq> [] \<and> last vfsRoot \<noteq> CHR ''/''
                       then vfsRoot @ ''/'' else vfsRoot);
               base = root @ hostSubdir
           in if suffix = [] then Val (Some base)
              else if base = [] then UB
              else (let base' = (if last base \<noteq> CHR ''/'' then base @ ''/'' else base);
                        tail = (if hd suffix = CHR ''/'' then tl suffix else suffix)
                    in Val (Some (base' @ tail)))))"

section \<open>Components\<close>

text \<open>A clean component: what may appear between the slashes of a canonical path.\<close>

definition clean_component :: "string \<Rightarrow> bool" where
  "clean_component x \<longleftrightarrow>
     x \<noteq> [] \<and> x \<noteq> ''.'' \<and> x \<noteq> ''..'' \<and> CHR ''/'' \<notin> set x
     \<and> (\<forall>ch\<in>set x. isPrintablePathChar ch)"

lemma end_component_clean:
  assumes "list_all clean_component stack" and "CHR ''/'' \<notin> set cur"
    and "end_component stack cur = Some stack'"
  shows "list_all clean_component stack'"
  using assms
  by (auto simp: end_component_def clean_component_def list_all_butlast split: if_splits)

lemma scan_path_clean:
  assumes "scan_path stack cur cs = Some stack'"
    and "list_all clean_component stack" and "CHR ''/'' \<notin> set cur"
  shows "list_all clean_component stack'"
  using assms
proof (induction stack cur cs arbitrary: stack' rule: scan_path.induct)
  case (1 stack cur)
  then show ?case by (simp add: end_component_clean)
next
  case (2 stack cur c cs)
  show ?case
  proof (cases "c = CHR ''/''")
    case True
    with "2.prems" obtain st where "end_component stack cur = Some st"
      and "scan_path st [] cs = Some stack'"
      by (auto split: option.splits)
    with True "2.IH"(1) "2.prems"(2,3) show ?thesis by (simp add: end_component_clean)
  next
    case False
    with 2 show ?thesis by auto
  qed
qed

lemma normalize_SomeE:
  assumes "normalize p = Some q"
  obtains comps where "list_all clean_component comps" and "q = CHR ''/'' # join_path comps"
proof -
  from assms obtain comps rest where "scan_path [] [] rest = Some comps"
    and q: "q = CHR ''/'' # join_path comps"
    by (auto simp: normalize_def Let_def split: if_splits option.splits)
  then have "list_all clean_component comps" by (auto dest: scan_path_clean)
  with q show thesis by (rule that[rotated])
qed

lemma scan_path_run:
  assumes "CHR ''/'' \<notin> set x"
  shows "scan_path stack cur (x @ cs) = scan_path stack (cur @ x) cs"
  using assms by (induction x arbitrary: cur) auto

lemma end_component_push: "clean_component x \<Longrightarrow> end_component stack x = Some (stack @ [x])"
  by (auto simp: end_component_def clean_component_def)

lemma scan_path_join:
  assumes "list_all clean_component comps"
  shows "scan_path stack [] (join_path comps) = Some (stack @ comps)"
  using assms
proof (induction comps arbitrary: stack rule: join_path.induct)
  case 1
  show ?case by (simp add: end_component_def)
next
  case (2 x)
  then show ?case
    using scan_path_run [of x stack "[]" "[]"]
    by (simp add: end_component_push clean_component_def)
next
  case (3 x y zs)
  then have x: "clean_component x" by simp
  then have "scan_path stack [] (join_path (x # y # zs))
      = scan_path stack x (CHR ''/'' # join_path (y # zs))"
    by (simp add: scan_path_run clean_component_def)
  with x 3 show ?case by (simp add: end_component_push)
qed

lemma join_path_no_nul:
  "list_all clean_component comps \<Longrightarrow> CHR 0x00 \<notin> set (join_path comps)"
  by (induction comps rule: join_path.induct)
    (auto simp: clean_component_def isPrintablePathChar_def)

lemma join_path_eq_Nil_iff:
  "list_all clean_component comps \<Longrightarrow> join_path comps = [] \<longleftrightarrow> comps = []"
  by (cases comps rule: join_path.cases) (auto simp: clean_component_def)

lemma join_path_hd:
  "list_all clean_component comps \<Longrightarrow> comps \<noteq> [] \<Longrightarrow> hd (join_path comps) \<noteq> CHR ''/''"
  by (cases comps rule: join_path.cases; cases "hd comps")
    (auto simp: clean_component_def)

lemma normalize_render:
  assumes "list_all clean_component comps"
  shows "normalize (CHR ''/'' # join_path comps) = Some (CHR ''/'' # join_path comps)"
  using assms by (simp add: normalize_def scan_path_join join_path_no_nul)

text \<open>The suffix a mount leaves of a canonical path is normalised to itself.\<close>

lemma translate_render:
  assumes "list_all clean_component comps" and "vfsRoot \<noteq> [] \<or> hostSubdir \<noteq> []"
  shows "\<exists>base. translate (CHR ''/'' # join_path comps) vfsRoot hostSubdir
           = Val (Some (base @ join_path comps))
         \<and> base \<noteq> []"
  using assms by (auto simp: translate_def normalize_render join_path_eq_Nil_iff Let_def)

section \<open>Properties\<close>

text \<open>
  Normalisation succeeds only with a canonical path: a leading \<^verbatim>\<open>'/'\<close> and a
  \<^verbatim>\<open>'/'\<close>-separated list of components, each non-empty, printable ASCII, without a slash and
  different from \<^verbatim>\<open>"."\<close> and \<^verbatim>\<open>".."\<close>. No normalised guest path can step out of the root.
\<close>

theorem normalize_canonical:
  assumes "normalize input = Some out"
  shows "\<exists>comps. out = CHR ''/'' # join_path comps
           \<and> (\<forall>x\<in>set comps. x \<noteq> [] \<and> x \<noteq> ''.'' \<and> x \<noteq> ''..''
                \<and> (\<forall>ch\<in>set x. ch \<noteq> CHR ''/'' \<and> isPrintablePathChar ch))"
proof -
  from assms obtain comps where "list_all clean_component comps"
    and "out = CHR ''/'' # join_path comps"
    by (rule normalize_SomeE)
  then show ?thesis by (fastforce simp: list_all_iff clean_component_def)
qed

theorem normalize_canonical_witness:
  "normalize ''/app/../../data//./x'' = Some ''/data/x''
   \<and> (\<exists>comps. ''/data/x'' = CHR ''/'' # join_path comps
           \<and> (\<forall>x\<in>set comps. x \<noteq> [] \<and> x \<noteq> ''.'' \<and> x \<noteq> ''..''
                \<and> (\<forall>ch\<in>set x. ch \<noteq> CHR ''/'' \<and> isPrintablePathChar ch)))"
proof -
  have "normalize ''/app/../../data//./x'' = Some ''/data/x''" by code_simp
  with normalize_canonical [OF this] show ?thesis by simp
qed

text \<open>
  Normalisation is idempotent: a canonical path is its own normal form, so the second
  normalisation that \<open>translate\<close> performs never changes what the mount matching saw.
\<close>

theorem normalize_idempotent:
  assumes "normalize input = Some out"
  shows "normalize out = Some out"
proof -
  from assms obtain comps where "list_all clean_component comps"
    and "out = CHR ''/'' # join_path comps"
    by (rule normalize_SomeE)
  then show ?thesis by (simp add: normalize_render)
qed

theorem normalize_idempotent_witness:
  "normalize ''temp/./a/../b/'' = Some ''/temp/b'' \<and> normalize ''/temp/b'' = Some ''/temp/b''"
proof -
  have "normalize ''temp/./a/../b/'' = Some ''/temp/b''" by code_simp
  with normalize_idempotent [OF this] show ?thesis by simp
qed

end
