(* ===== verification/Free_Bsd.thy ===== *)
theory Free_Bsd
  imports Prelude
begin

text \<open>
  \<^verbatim>\<open>syscall/freebsd/FreeBsd.hpp\<close> and \<^verbatim>\<open>FreeBsd.cpp\<close>: the guest ABI constants. Each C++
  enum is a datatype with a function giving the numeric value of its enumerators.
\<close>

section \<open>System call numbers\<close>

datatype SyscallNumber =
    kSysExit | kSysRead | kSysWrite | kSysOpen | kSysClose | kSysChdir | kSysGetPid
  | kSysAccess | kSysDup | kSysPipe | kSysIoctl | kSysReadLink | kSysUmask
  | kSysGetPageSize | kSysMunmap | kSysMprotect | kSysMincore | kSysGetGroups
  | kSysFcntl | kSysFsync | kSysSocket | kSysConnect | kSysBind | kSysListen
  | kSysGetTimeOfDay | kSysReadv | kSysWritev | kSysRename | kSysMkdir | kSysRmdir
  | kSysSetSid | kSysSysctl | kSysMlock | kSysMunlock | kSysPoll | kSysGetDirentries
  | kSysMinherit | kSysRfork | kSysIsSetUgid | kSysLchown | kSysThrSelf | kSysThrExit
  | kSysThrKill | kSysThrSuspend | kSysThrWake | kSysMmap | kSysLseek | kSysTruncate
  | kSysFtruncate | kSysFstat | kSysThrNew | kSysSceBase

primrec syscall_value :: "SyscallNumber \<Rightarrow> int" where
  "syscall_value kSysExit = 1"
| "syscall_value kSysRead = 3"
| "syscall_value kSysWrite = 4"
| "syscall_value kSysOpen = 5"
| "syscall_value kSysClose = 6"
| "syscall_value kSysChdir = 12"
| "syscall_value kSysGetPid = 20"
| "syscall_value kSysAccess = 33"
| "syscall_value kSysDup = 41"
| "syscall_value kSysPipe = 42"
| "syscall_value kSysIoctl = 54"
| "syscall_value kSysReadLink = 58"
| "syscall_value kSysUmask = 60"
| "syscall_value kSysGetPageSize = 64"
| "syscall_value kSysMunmap = 69"
| "syscall_value kSysMprotect = 70"
| "syscall_value kSysMincore = 73"
| "syscall_value kSysGetGroups = 74"
| "syscall_value kSysFcntl = 92"
| "syscall_value kSysFsync = 95"
| "syscall_value kSysSocket = 97"
| "syscall_value kSysConnect = 98"
| "syscall_value kSysBind = 104"
| "syscall_value kSysListen = 106"
| "syscall_value kSysGetTimeOfDay = 116"
| "syscall_value kSysReadv = 120"
| "syscall_value kSysWritev = 121"
| "syscall_value kSysRename = 128"
| "syscall_value kSysMkdir = 136"
| "syscall_value kSysRmdir = 137"
| "syscall_value kSysSetSid = 147"
| "syscall_value kSysSysctl = 202"
| "syscall_value kSysMlock = 203"
| "syscall_value kSysMunlock = 204"
| "syscall_value kSysPoll = 209"
| "syscall_value kSysGetDirentries = 232"
| "syscall_value kSysMinherit = 250"
| "syscall_value kSysRfork = 251"
| "syscall_value kSysIsSetUgid = 253"
| "syscall_value kSysLchown = 254"
| "syscall_value kSysThrSelf = 331"
| "syscall_value kSysThrExit = 332"
| "syscall_value kSysThrKill = 433"
| "syscall_value kSysThrSuspend = 434"
| "syscall_value kSysThrWake = 437"
| "syscall_value kSysMmap = 477"
| "syscall_value kSysLseek = 478"
| "syscall_value kSysTruncate = 479"
| "syscall_value kSysFtruncate = 480"
| "syscall_value kSysFstat = 484"
| "syscall_value kSysThrNew = 487"
| "syscall_value kSysSceBase = 500"

section \<open>Error numbers\<close>

datatype Errno =
    kOk | kEperm | kEnoent | kEsrch | kEintr | kEio | kEnxio | kE2big | kEnoexec | kEbadf
  | kEchild | kEagain | kEnomem | kEacces | kEfault | kEnotblk | kEbusy | kEexists | kExdev
  | kEnodev | kEnotdir | kEisdir | kEinval | kEnfile | kEmfile | kEnotty | kEtxtbsy | kEfbig
  | kEnospc | kEspipe | kErofs | kEmlink | kEpipe | kEdom | kErange | kEdeadlk | kEnolck
  | kEnosys | kEnametoolong | kEnotempty | kElibbad | kEopnotsupp

primrec errno_value :: "Errno \<Rightarrow> int" where
  "errno_value kOk = 0"
| "errno_value kEperm = 1"
| "errno_value kEnoent = 2"
| "errno_value kEsrch = 3"
| "errno_value kEintr = 4"
| "errno_value kEio = 5"
| "errno_value kEnxio = 6"
| "errno_value kE2big = 7"
| "errno_value kEnoexec = 8"
| "errno_value kEbadf = 9"
| "errno_value kEchild = 10"
| "errno_value kEagain = 11"
| "errno_value kEnomem = 12"
| "errno_value kEacces = 13"
| "errno_value kEfault = 14"
| "errno_value kEnotblk = 15"
| "errno_value kEbusy = 16"
| "errno_value kEexists = 17"
| "errno_value kExdev = 18"
| "errno_value kEnodev = 19"
| "errno_value kEnotdir = 20"
| "errno_value kEisdir = 21"
| "errno_value kEinval = 22"
| "errno_value kEnfile = 23"
| "errno_value kEmfile = 24"
| "errno_value kEnotty = 25"
| "errno_value kEtxtbsy = 26"
| "errno_value kEfbig = 27"
| "errno_value kEnospc = 28"
| "errno_value kEspipe = 29"
| "errno_value kErofs = 30"
| "errno_value kEmlink = 31"
| "errno_value kEpipe = 32"
| "errno_value kEdom = 33"
| "errno_value kErange = 34"
| "errno_value kEdeadlk = 35"
| "errno_value kEnolck = 77"
| "errno_value kEnosys = 78"
| "errno_value kEnametoolong = 63"
| "errno_value kEnotempty = 66"
| "errno_value kElibbad = 86"
| "errno_value kEopnotsupp = 45"

definition kErrnoNames :: "(Errno \<times> string) list" where
  "kErrnoNames =
    [(kOk, ''0''), (kEperm, ''EPERM''), (kEnoent, ''ENOENT''),
     (kEsrch, ''ESRCH''), (kEintr, ''EINTR''), (kEio, ''EIO''),
     (kEnxio, ''ENXIO''), (kE2big, ''E2BIG''), (kEnoexec, ''ENOEXEC''),
     (kEbadf, ''EBADF''), (kEchild, ''ECHILD''), (kEagain, ''EAGAIN''),
     (kEnomem, ''ENOMEM''), (kEacces, ''EACCES''), (kEfault, ''EFAULT''),
     (kEnotblk, ''ENOTBLK''), (kEbusy, ''EBUSY''), (kEexists, ''EEXIST''),
     (kExdev, ''EXDEV''), (kEnodev, ''ENODEV''), (kEnotdir, ''ENOTDIR''),
     (kEisdir, ''EISDIR''), (kEinval, ''EINVAL''), (kEnfile, ''ENFILE''),
     (kEmfile, ''EMFILE''), (kEnotty, ''ENOTTY''), (kEtxtbsy, ''ETXTBSY''),
     (kEfbig, ''EFBIG''), (kEnospc, ''ENOSPC''), (kEspipe, ''ESPIPE''),
     (kErofs, ''EROFS''), (kEmlink, ''EMLINK''), (kEpipe, ''EPIPE''),
     (kEdom, ''EDOM''), (kErange, ''ERANGE''), (kEdeadlk, ''EDEADLK''),
     (kEnolck, ''ENOLCK''), (kEnosys, ''ENOSYS''), (kEnametoolong, ''ENAMETOOLONG''),
     (kEnotempty, ''ENOTEMPTY''), (kElibbad, ''ELIBBAD''), (kEopnotsupp, ''EOPNOTSUPP'')]"

fun errno_name_in :: "(Errno \<times> string) list \<Rightarrow> int \<Rightarrow> string" where
  "errno_name_in [] e = ''UNKNOWN''"
| "errno_name_in ((code, str) # rest) e =
     (if errno_value code = e then str else errno_name_in rest e)"

definition ErrnoName_name :: "int \<Rightarrow> string" where
  "ErrnoName_name e = errno_name_in kErrnoNames e"

section \<open>Flag sets\<close>

text \<open>Open flags (\<^verbatim>\<open>kO_*\<close>), protection and mapping flags (\<^verbatim>\<open>kProt*\<close>, \<^verbatim>\<open>kMap*\<close>).\<close>

datatype OpenFlag =
    kO_RdOnly | kO_WrOnly | kO_RdWr | kO_AccMode | kO_NonBlock | kO_Append | kO_ShLock
  | kO_ExLock | kO_Async | kO_Direct | kO_Directory | kO_Excl | kO_Creat | kO_Trunc | kO_CloExec

primrec open_flag :: "OpenFlag \<Rightarrow> u32" where
  "open_flag kO_RdOnly = 0x0000"
| "open_flag kO_WrOnly = 0x0001"
| "open_flag kO_RdWr = 0x0002"
| "open_flag kO_AccMode = 0x0003"
| "open_flag kO_NonBlock = 0x0004"
| "open_flag kO_Append = 0x0008"
| "open_flag kO_ShLock = 0x0010"
| "open_flag kO_ExLock = 0x0020"
| "open_flag kO_Async = 0x0040"
| "open_flag kO_Direct = 0x00010000"
| "open_flag kO_Directory = 0x00020000"
| "open_flag kO_Excl = 0x00000800"
| "open_flag kO_Creat = 0x00000200"
| "open_flag kO_Trunc = 0x00000400"
| "open_flag kO_CloExec = 0x00100000"

datatype MmanFlag =
    kProtNone | kProtRead | kProtWrite | kProtExec | kMapShared | kMapPrivate | kMapFixed | kMapAnon

primrec mman_flag :: "MmanFlag \<Rightarrow> u32" where
  "mman_flag kProtNone = 0x0"
| "mman_flag kProtRead = 0x1"
| "mman_flag kProtWrite = 0x2"
| "mman_flag kProtExec = 0x4"
| "mman_flag kMapShared = 0x0001"
| "mman_flag kMapPrivate = 0x0002"
| "mman_flag kMapFixed = 0x0010"
| "mman_flag kMapAnon = 0x1000"

section \<open>Properties\<close>

lemma errno_value_nonneg: "0 \<le> errno_value e" and errno_value_small: "errno_value e < 128"
  by (cases e; simp)+

lemma errno_value_eq_0_iff: "errno_value e = 0 \<longleftrightarrow> e = kOk"
  by (cases e) simp_all

lemma errno_names_complete: "e \<in> fst ` set kErrnoNames"
  unfolding kErrnoNames_def by (cases e) (simp_all only: list.simps image_insert fst_conv insert_iff HOL.simp_thms)

lemma errno_values_distinct: "distinct (map errno_value (map fst kErrnoNames))"
  by code_simp

lemma inj_errno_value: "inj errno_value"
proof -
  have "set (map fst kErrnoNames) = UNIV" using errno_names_complete by auto
  then show ?thesis using errno_values_distinct unfolding distinct_map by simp
qed

lemma errno_names_distinct: "distinct (map fst kErrnoNames)"
  using errno_values_distinct unfolding distinct_map by simp

lemma errno_name_in_mem:
  assumes "inj errno_value" and "distinct (map fst tab)" and "(e, s) \<in> set tab"
  shows "errno_name_in tab (errno_value e) = s"
  using assms(2,3)
proof (induction tab)
  case Nil
  then show ?case by simp
next
  case (Cons p tab)
  obtain c t where p: "p = (c, t)" by (cases p)
  show ?case
  proof (cases "c = e")
    case True
    with Cons.prems p show ?thesis by (force simp: image_iff)
  next
    case False
    then have "errno_value c \<noteq> errno_value e" using assms(1) by (auto dest: injD)
    with Cons p False show ?thesis by auto
  qed
qed

text \<open>
  The diagnostic table names every error number the runtime can hand to the guest: for
  each enumerator of \<^verbatim>\<open>Errno\<close> the lookup by numeric value finds the entry written for that
  enumerator and not the fallback \<^verbatim>\<open>"UNKNOWN"\<close>, so no two errors are confused in the log.
\<close>

theorem ErrnoName_faithful:
  "(e, ErrnoName_name (errno_value e)) \<in> set kErrnoNames"
proof -
  obtain s where s: "(e, s) \<in> set kErrnoNames" using errno_names_complete [of e] by force
  then have "ErrnoName_name (errno_value e) = s"
    unfolding ErrnoName_name_def
    by (rule errno_name_in_mem [OF inj_errno_value errno_names_distinct])
  with s show ?thesis by simp
qed

end
