(* ===== verification/Virtual_File_System.thy ===== *)
theory Virtual_File_System
  imports Virtual_Path Free_Bsd
begin

text \<open>
  \<^verbatim>\<open>filesystem/policy/FsPolicy.cpp\<close> and \<^verbatim>\<open>filesystem/virtual/VirtualFileSystem.cpp\<close>: the
  mount table, the access policy and the resolution of a guest path to a host path.
\<close>

section \<open>Mount table and policy\<close>

record MountPoint =
  guestPrefix :: string
  hostSubdir :: string
  readOnly :: bool
  allowCreate :: bool
  allowDelete :: bool

datatype FsOp =
    FsRead | FsWrite | FsCreate | FsDelete | FsRename | FsList | FsChmod | FsChown | FsTruncate

record FsPolicy =
  m_mounts :: "MountPoint list"
  m_vfsRoot :: string

definition mount_point :: "string \<Rightarrow> string \<Rightarrow> bool \<Rightarrow> bool \<Rightarrow> bool \<Rightarrow> MountPoint" where
  "mount_point gp hs ro cr del =
     \<lparr>guestPrefix = gp, hostSubdir = hs, readOnly = ro, allowCreate = cr, allowDelete = del\<rparr>"

text \<open>The constructor's default table.\<close>

definition FsPolicy_default :: FsPolicy where
  "FsPolicy_default =
     \<lparr>m_mounts =
        [mount_point ''/app'' ''app'' True False False,
         mount_point ''/data'' ''data'' False True True,
         mount_point ''/system'' ''system'' True False False,
         mount_point ''/temp'' ''temp'' False True True,
         mount_point ''/save'' ''save'' False True True,
         mount_point ''/user'' ''user'' False True True],
      m_vfsRoot = ''virtual_fs''\<rparr>"

definition FsPolicy_configure :: "MountPoint list \<Rightarrow> string \<Rightarrow> FsPolicy \<Rightarrow> FsPolicy" where
  "FsPolicy_configure mounts vfsRoot pol = pol\<lparr>m_mounts := mounts, m_vfsRoot := vfsRoot\<rparr>"

text \<open>The three \<^verbatim>\<open>continue\<close> guards of the matching loop.\<close>

definition mount_matches :: "string \<Rightarrow> MountPoint \<Rightarrow> bool" where
  "mount_matches guestPath mp =
     (if length guestPath < length (guestPrefix mp) then False
      else if take (length (guestPrefix mp)) guestPath \<noteq> guestPrefix mp then False
      else if length guestPath > length (guestPrefix mp)
              \<and> guestPath ! length (guestPrefix mp) \<noteq> CHR ''/'' then False
      else True)"

fun match_loop ::
  "string \<Rightarrow> MountPoint list \<Rightarrow> MountPoint option \<Rightarrow> nat \<Rightarrow> MountPoint option" where
  "match_loop guestPath [] best bestLen = best"
| "match_loop guestPath (mp # mps) best bestLen =
     (if \<not> mount_matches guestPath mp then match_loop guestPath mps best bestLen
      else if length (guestPrefix mp) > bestLen
      then match_loop guestPath mps (Some mp) (length (guestPrefix mp))
      else match_loop guestPath mps best bestLen)"

definition match_mount :: "FsPolicy \<Rightarrow> string \<Rightarrow> MountPoint option" where
  "match_mount pol guestPath = match_loop guestPath (m_mounts pol) None 0"

text \<open>\<open>Inl\<close> carries the reason the C++ writes to \<^verbatim>\<open>outReason\<close> before it returns false.\<close>

definition isAllowed :: "FsPolicy \<Rightarrow> string \<Rightarrow> FsOp \<Rightarrow> string + unit" where
  "isAllowed pol guestPath op =
     (case match_mount pol guestPath of
        None \<Rightarrow> Inl ''no mount matches path''
      | Some mp \<Rightarrow>
          (case op of
             FsRead \<Rightarrow> Inr ()
           | FsList \<Rightarrow> Inr ()
           | FsWrite \<Rightarrow> if readOnly mp then Inl ''mount is read-only'' else Inr ()
           | FsTruncate \<Rightarrow> if readOnly mp then Inl ''mount is read-only'' else Inr ()
           | FsCreate \<Rightarrow>
               if readOnly mp then Inl ''mount is read-only''
               else if \<not> allowCreate mp then Inl ''create not permitted on mount''
               else Inr ()
           | FsDelete \<Rightarrow>
               if readOnly mp then Inl ''mount is read-only''
               else if \<not> allowDelete mp then Inl ''delete not permitted on mount''
               else Inr ()
           | FsRename \<Rightarrow>
               if readOnly mp then Inl ''mount is read-only''
               else if \<not> allowDelete mp then Inl ''delete not permitted on mount''
               else Inr ()
           | FsChmod \<Rightarrow> if readOnly mp then Inl ''mount is read-only'' else Inr ()
           | FsChown \<Rightarrow> if readOnly mp then Inl ''mount is read-only'' else Inr ()))"

section \<open>Resolution\<close>

record Translation =
  tr_ok :: bool
  tr_guestPath :: string
  tr_hostPath :: string
  tr_mount :: "MountPoint option"

text \<open>
  The result of \<open>resolve\<close> is the translation and the value left in \<^verbatim>\<open>outErrno\<close>.
  \<open>resolve_host\<close> is its part from the outcome of \<open>translate\<close> on: the policy check.
\<close>

definition Translation_init :: "string \<Rightarrow> Translation" where
  "Translation_init guestPath =
     \<lparr>tr_ok = False, tr_guestPath = guestPath, tr_hostPath = [], tr_mount = None\<rparr>"

definition resolve_host ::
  "FsPolicy \<Rightarrow> string \<Rightarrow> string \<Rightarrow> MountPoint \<Rightarrow> FsOp \<Rightarrow> string option \<Rightarrow> Translation \<times> int" where
  "resolve_host pol guestPath canonical mp op r =
     (case r of
        None \<Rightarrow> (Translation_init guestPath, errno_value kEinval)
      | Some hostPath \<Rightarrow>
          (case isAllowed pol canonical op of
             Inl reason \<Rightarrow> (Translation_init guestPath, errno_value kEacces)
           | Inr _ \<Rightarrow>
               ((Translation_init guestPath)
                  \<lparr>tr_ok := True, tr_hostPath := hostPath, tr_mount := Some mp\<rparr>, 0)))"

definition mount_suffix :: "MountPoint \<Rightarrow> string \<Rightarrow> string" where
  "mount_suffix mp canonical =
     (let suffix = drop (length (guestPrefix mp)) canonical
      in if suffix = [] then ''/'' else suffix)"

definition resolve :: "FsPolicy \<Rightarrow> string \<Rightarrow> FsOp \<Rightarrow> (Translation \<times> int) cpp" where
  "resolve pol guestPath op =
     (case normalize guestPath of
        None \<Rightarrow> Val (Translation_init guestPath, errno_value kEinval)
      | Some canonical \<Rightarrow>
          (case match_mount pol canonical of
             None \<Rightarrow> Val (Translation_init guestPath, errno_value kEnoent)
           | Some mp \<Rightarrow>
               cpp_bind (translate (mount_suffix mp canonical) (m_vfsRoot pol) (hostSubdir mp))
                 (\<lambda>r. Val (resolve_host pol guestPath canonical mp op r))))"

section \<open>Matching\<close>

lemma mount_matches_iff:
  "mount_matches p mp \<longleftrightarrow>
     (\<exists>rest. p = guestPrefix mp @ rest \<and> (rest = [] \<or> hd rest = CHR ''/''))"
proof
  assume m: "mount_matches p mp"
  let ?n = "length (guestPrefix mp)"
  from m have "take ?n p = guestPrefix mp" by (simp add: mount_matches_def split: if_splits)
  then have "p = guestPrefix mp @ drop ?n p" using append_take_drop_id [of ?n p] by simp
  moreover have "drop ?n p = [] \<or> hd (drop ?n p) = CHR ''/''"
  proof (cases "?n < length p")
    case True
    with m have "p ! ?n = CHR ''/''" by (simp add: mount_matches_def split: if_splits)
    with True show ?thesis by (simp add: hd_drop_conv_nth)
  qed simp
  ultimately show "\<exists>rest. p = guestPrefix mp @ rest \<and> (rest = [] \<or> hd rest = CHR ''/'')"
    by blast
next
  assume "\<exists>rest. p = guestPrefix mp @ rest \<and> (rest = [] \<or> hd rest = CHR ''/'')"
  then show "mount_matches p mp"
    by (auto simp: mount_matches_def nth_append hd_conv_nth)
qed

text \<open>What the loop keeps: \<open>bestLen\<close> is the length of the best prefix so far.\<close>

lemma match_loop_best:
  assumes "\<And>b. best = Some b \<Longrightarrow> mount_matches p b \<and> length (guestPrefix b) = n"
    and "match_loop p mps best n = Some mp"
  shows "mount_matches p mp \<and> n \<le> length (guestPrefix mp) \<and> (best = Some mp \<or> mp \<in> set mps)
    \<and> (\<forall>m\<in>set mps. mount_matches p m \<longrightarrow> length (guestPrefix m) \<le> length (guestPrefix mp))"
  using assms
proof (induction mps arbitrary: best n)
  case Nil
  then show ?case by auto
next
  case (Cons m mps)
  show ?case
  proof (cases "mount_matches p m \<and> n < length (guestPrefix m)")
    case True
    with Cons.prems(2) have "match_loop p mps (Some m) (length (guestPrefix m)) = Some mp"
      by simp
    from Cons.IH [OF _ this] True show ?thesis by auto
  next
    case False
    with Cons.prems(2) have "match_loop p mps best n = Some mp"
      by (auto split: if_splits)
    from Cons.IH [OF Cons.prems(1) this] False show ?thesis by auto
  qed
qed

lemma match_loop_Some: "match_loop p mps (Some b) n \<noteq> None"
  by (induction mps arbitrary: b n) auto

lemma match_loop_None_iff:
  "match_loop p mps None n = None \<longleftrightarrow>
     (\<forall>m\<in>set mps. mount_matches p m \<longrightarrow> length (guestPrefix m) \<le> n)"
  by (induction mps) (auto simp: match_loop_Some not_less)

lemma match_mount_SomeD:
  assumes "match_mount pol p = Some mp"
  shows "mp \<in> set (m_mounts pol)" and "mount_matches p mp"
    and "\<And>m. m \<in> set (m_mounts pol) \<Longrightarrow> mount_matches p m
         \<Longrightarrow> length (guestPrefix m) \<le> length (guestPrefix mp)"
  using match_loop_best [of None p 0 "m_mounts pol" mp] assms
  by (auto simp: match_mount_def)

section \<open>Confinement of host paths\<close>

text \<open>
  The directory a mount stands for, and the host paths that lie in it: the directory itself
  or the directory, a slash and clean components.
\<close>

definition host_dir :: "string \<Rightarrow> string \<Rightarrow> string" where
  "host_dir root sub = (if root \<noteq> [] \<and> last root \<noteq> CHR ''/'' then root @ ''/'' else root) @ sub"

definition host_path :: "string \<Rightarrow> string list \<Rightarrow> string" where
  "host_path dir comps =
     (if comps = [] then dir
      else (if last dir \<noteq> CHR ''/'' then dir @ ''/'' else dir) @ join_path comps)"

lemma translate_SomeD:
  assumes "translate p root sub = Val (Some h)"
  obtains comps where "list_all clean_component comps"
    and "normalize p = Some (CHR ''/'' # join_path comps)"
    and "h = host_path (host_dir root sub) comps"
proof -
  from assms obtain q where q: "normalize p = Some q"
    by (auto simp: translate_def split: option.splits)
  then obtain comps where c: "list_all clean_component comps"
    and qc: "q = CHR ''/'' # join_path comps"
    by (rule normalize_SomeE)
  have "h = host_path (host_dir root sub) comps"
    using assms q qc c
    by (auto simp: translate_def host_path_def host_dir_def Let_def join_path_eq_Nil_iff
        split: if_splits)
  with c q qc show thesis by (intro that) auto
qed

lemma resolve_host_ok:
  assumes "resolve_host pol p canonical mp op r = (tr, e)" and "tr_ok tr"
  shows "\<exists>h. r = Some h \<and> isAllowed pol canonical op = Inr () \<and> e = 0
    \<and> tr = \<lparr>tr_ok = True, tr_guestPath = p, tr_hostPath = h, tr_mount = Some mp\<rparr>"
  using assms
  by (auto simp: resolve_host_def Translation_init_def split: option.splits sum.splits)

lemma resolve_okE:
  assumes "resolve pol p op = Val (tr, e)" and "tr_ok tr"
  obtains canonical mp comps where "normalize p = Some canonical"
    and "match_mount pol canonical = Some mp"
    and "list_all clean_component comps"
    and "isAllowed pol canonical op = Inr ()"
    and "tr = \<lparr>tr_ok = True, tr_guestPath = p,
               tr_hostPath = host_path (host_dir (m_vfsRoot pol) (hostSubdir mp)) comps,
               tr_mount = Some mp\<rparr>"
    and "e = 0"
proof -
  from assms obtain canonical where n: "normalize p = Some canonical"
    by (cases "normalize p") (auto simp: resolve_def Translation_init_def)
  from assms n obtain mp where m: "match_mount pol canonical = Some mp"
    by (cases "match_mount pol canonical") (auto simp: resolve_def Translation_init_def)
  let ?t = "translate (mount_suffix mp canonical) (m_vfsRoot pol) (hostSubdir mp)"
  from assms(1) n m
  have "cpp_bind ?t (\<lambda>r. Val (resolve_host pol p canonical mp op r)) = Val (tr, e)"
    by (simp add: resolve_def)
  then obtain r where r: "?t = Val r" "resolve_host pol p canonical mp op r = (tr, e)"
    by (auto elim: cpp_bind_ValE)
  from resolve_host_ok [OF r(2) assms(2)] obtain h where h: "r = Some h"
    "isAllowed pol canonical op = Inr ()" "e = 0"
    "tr = \<lparr>tr_ok = True, tr_guestPath = p, tr_hostPath = h, tr_mount = Some mp\<rparr>"
    by blast
  from r(1) h(1) have "?t = Val (Some h)" by simp
  then show thesis
    by (rule translate_SomeD) (rule that [OF n m _ h(2) _ h(3)], simp_all add: h(4))
qed

section \<open>Well-formed mount tables\<close>

text \<open>Every guest prefix is itself a canonical path below the root.\<close>

definition mount_prefix :: "MountPoint \<Rightarrow> string list \<Rightarrow> bool" where
  "mount_prefix mp pre \<longleftrightarrow>
     pre \<noteq> [] \<and> list_all clean_component pre \<and> guestPrefix mp = CHR ''/'' # join_path pre"

lemma slash_split_unique:
  assumes "x @ s = y @ t" and "CHR ''/'' \<notin> set x" and "CHR ''/'' \<notin> set y"
    and "s = [] \<or> hd s = CHR ''/''" and "t = [] \<or> hd t = CHR ''/''"
  shows "x = y \<and> s = t"
proof -
  have tw: "takeWhile (\<lambda>c. c \<noteq> CHR ''/'') (x @ s) = x"
    if "CHR ''/'' \<notin> set x" "s = [] \<or> hd s = CHR ''/''" for x s :: string
    using that by (cases s) (auto simp: takeWhile_append)
  from tw [OF assms(2,4)] tw [OF assms(3,5)] assms(1) show ?thesis by auto
qed

lemma join_path_Cons:
  "join_path (x # xs) = x @ (if xs = [] then [] else CHR ''/'' # join_path xs)"
  by (cases xs) auto

lemma join_path_append_Cons:
  "xs \<noteq> [] \<Longrightarrow> join_path (xs @ ys) = join_path xs @ (if ys = [] then [] else CHR ''/'' # join_path ys)"
  by (induction xs) (auto simp: join_path_Cons)

lemma join_path_prefix:
  assumes "list_all clean_component pre" and "list_all clean_component comps" and "pre \<noteq> []"
    and "join_path comps = join_path pre @ rest" and "rest = [] \<or> hd rest = CHR ''/''"
  shows "\<exists>ys. comps = pre @ ys"
  using assms
proof (induction pre arbitrary: comps)
  case Nil
  then show ?case by simp
next
  case (Cons x pre)
  from Cons.prems have "comps \<noteq> []" by (auto simp: join_path_Cons clean_component_def)
  then obtain y ys where comps: "comps = y # ys" by (cases comps) auto
  let ?s = "\<lambda>xs. if xs = [] then [] else CHR ''/'' # join_path xs"
  have "y @ ?s ys = x @ (?s pre @ rest)"
    using Cons.prems(4) comps by (simp add: join_path_Cons)
  then have "y = x \<and> ?s ys = ?s pre @ rest"
    by (rule slash_split_unique) (use Cons.prems comps in \<open>auto simp: clean_component_def\<close>)
  then show ?case
    using Cons comps by (cases "pre = []"; cases "ys = []") auto
qed

lemma match_canonical:
  assumes "mount_matches (CHR ''/'' # join_path comps) mp" and "mount_prefix mp pre"
    and "list_all clean_component comps"
  shows "\<exists>ys. comps = pre @ ys"
proof -
  from assms(1,2) obtain rest where "join_path comps = join_path pre @ rest"
    and "rest = [] \<or> hd rest = CHR ''/''"
    by (auto simp: mount_matches_iff mount_prefix_def)
  with assms(2,3) show ?thesis by (intro join_path_prefix) (auto simp: mount_prefix_def)
qed

lemma mount_prefix_matches:
  assumes "mount_prefix mp pre"
  shows "mount_matches (CHR ''/'' # join_path (pre @ ys)) mp"
  using assms by (auto simp: mount_matches_iff mount_prefix_def join_path_append_Cons)

lemma match_mount_canonical:
  assumes "mp \<in> set (m_mounts pol)" and "mount_prefix mp pre"
    and only: "\<And>m. m \<in> set (m_mounts pol) \<Longrightarrow> m \<noteq> mp
          \<Longrightarrow> \<not> mount_matches (CHR ''/'' # join_path (pre @ ys)) m"
  shows "match_mount pol (CHR ''/'' # join_path (pre @ ys)) = Some mp"
proof -
  let ?p = "CHR ''/'' # join_path (pre @ ys)"
  have m: "mount_matches ?p mp" by (rule mount_prefix_matches [OF assms(2)])
  have "match_mount pol ?p \<noteq> None"
  proof
    assume "match_mount pol ?p = None"
    with m assms(1) have "length (guestPrefix mp) \<le> 0"
      unfolding match_mount_def match_loop_None_iff by blast
    with assms(2) show False by (simp add: mount_prefix_def)
  qed
  then obtain m' where m': "match_mount pol ?p = Some m'" by blast
  with match_mount_SomeD(1,2) [OF m'] only have "m' = mp" by blast
  with m' show ?thesis by simp
qed

section \<open>Properties\<close>

text \<open>
  C3. Confinement. Whatever path the guest writes, a successful resolution names a mount of
  the table and a host path at or below that mount's directory under the VFS root: the directory
  followed by clean components (by none for the mount point itself), so never through \<^verbatim>\<open>".."\<close>. The matched mount allowed the
  operation, and no error number is left.
\<close>

theorem resolve_confined:
  assumes "resolve pol guestPath op = Val (tr, e)" and "tr_ok tr"
  shows "e = 0 \<and> (\<exists>mp\<in>set (m_mounts pol). tr_mount tr = Some mp \<and>
           (\<exists>comps. list_all clean_component comps \<and>
              tr_hostPath tr = host_path (host_dir (m_vfsRoot pol) (hostSubdir mp)) comps)
           \<and> (readOnly mp \<longrightarrow> op = FsRead \<or> op = FsList)
           \<and> (op = FsCreate \<longrightarrow> allowCreate mp)
           \<and> (op = FsDelete \<or> op = FsRename \<longrightarrow> allowDelete mp))"
  using assms
proof (rule resolve_okE)
  fix canonical mp comps
  assume mm: "match_mount pol canonical = Some mp"
    and al: "isAllowed pol canonical op = Inr ()"
    and c: "list_all clean_component comps"
    and tr: "tr = \<lparr>tr_ok = True, tr_guestPath = guestPath,
               tr_hostPath = host_path (host_dir (m_vfsRoot pol) (hostSubdir mp)) comps,
               tr_mount = Some mp\<rparr>"
    and e: "e = 0"
  have "(readOnly mp \<longrightarrow> op = FsRead \<or> op = FsList) \<and> (op = FsCreate \<longrightarrow> allowCreate mp)
      \<and> (op = FsDelete \<or> op = FsRename \<longrightarrow> allowDelete mp)"
    using al mm by (cases op) (auto simp: isAllowed_def split: if_splits)
  with match_mount_SomeD(1) [OF mm] c tr e show ?thesis by auto
qed

theorem resolve_confined_witness:
  "resolve FsPolicy_default ''/save/../data/./a.bin'' FsCreate
     = Val (\<lparr>tr_ok = True, tr_guestPath = ''/save/../data/./a.bin'',
             tr_hostPath = ''virtual_fs/data/a.bin'',
             tr_mount = Some (mount_point ''/data'' ''data'' False True True)\<rparr>, 0)
   \<and> (\<exists>mp\<in>set (m_mounts FsPolicy_default). \<exists>comps. list_all clean_component comps
        \<and> ''virtual_fs/data/a.bin''
            = host_path (host_dir (m_vfsRoot FsPolicy_default) (hostSubdir mp)) comps)"
proof -
  have r: "resolve FsPolicy_default ''/save/../data/./a.bin'' FsCreate
     = Val (\<lparr>tr_ok = True, tr_guestPath = ''/save/../data/./a.bin'',
             tr_hostPath = ''virtual_fs/data/a.bin'',
             tr_mount = Some (mount_point ''/data'' ''data'' False True True)\<rparr>, 0)"
    by code_simp
  with resolve_confined [OF r] show ?thesis by auto
qed

text \<open>
  What resolution computes. For a mount whose prefix is the canonical path of the
  components \<open>pre\<close>, and a guest path that normalises to \<open>pre\<close> followed by \<open>ys\<close>, where no
  other mount matches, an allowed operation resolves to exactly the mount's directory
  followed by \<open>ys\<close>.
\<close>

theorem resolve_maps_mount:
  assumes "normalize guestPath = Some (CHR ''/'' # join_path (pre @ ys))"
    and "mp \<in> set (m_mounts pol)" and "mount_prefix mp pre"
    and "list_all clean_component ys"
    and "\<forall>m\<in>set (m_mounts pol). m \<noteq> mp \<longrightarrow> \<not> mount_matches (CHR ''/'' # join_path (pre @ ys)) m"
    and "isAllowed pol (CHR ''/'' # join_path (pre @ ys)) op = Inr ()"
    and "hostSubdir mp \<noteq> []"
  shows "resolve pol guestPath op =
     Val (\<lparr>tr_ok = True, tr_guestPath = guestPath,
           tr_hostPath = host_path (host_dir (m_vfsRoot pol) (hostSubdir mp)) ys,
           tr_mount = Some mp\<rparr>, 0)"
proof -
  let ?p = "CHR ''/'' # join_path (pre @ ys)"
  have m: "match_mount pol ?p = Some mp"
    using assms(2,3,5) by (intro match_mount_canonical) auto
  have suffix: "mount_suffix mp ?p = CHR ''/'' # join_path ys"
    using assms(3) by (simp add: mount_suffix_def mount_prefix_def join_path_append_Cons)
  have "translate (CHR ''/'' # join_path ys) (m_vfsRoot pol) (hostSubdir mp)
      = Val (Some (host_path (host_dir (m_vfsRoot pol) (hostSubdir mp)) ys))"
    using assms(4,7)
    by (auto simp: translate_def normalize_render host_path_def host_dir_def Let_def
        join_path_eq_Nil_iff)
  with assms(1,6) m suffix show ?thesis
    by (simp add: resolve_def resolve_host_def Translation_init_def)
qed

theorem resolve_maps_mount_witness:
  "resolve FsPolicy_default ''/app//eboot.bin'' FsRead =
     Val (\<lparr>tr_ok = True, tr_guestPath = ''/app//eboot.bin'',
           tr_hostPath = host_path (host_dir ''virtual_fs'' ''app'') [''eboot.bin''],
           tr_mount = Some (mount_point ''/app'' ''app'' True False False)\<rparr>, 0)"
proof -
  let ?mp = "mount_point ''/app'' ''app'' True False False"
  have "normalize ''/app//eboot.bin'' = Some (CHR ''/'' # join_path ([''app''] @ [''eboot.bin'']))"
    by code_simp
  moreover have "?mp \<in> set (m_mounts FsPolicy_default)" by (simp add: FsPolicy_default_def)
  moreover have "mount_prefix ?mp [''app'']" by code_simp
  moreover have "list_all clean_component [''eboot.bin'']" by code_simp
  moreover have "\<forall>m\<in>set (m_mounts FsPolicy_default). m \<noteq> ?mp
      \<longrightarrow> \<not> mount_matches (CHR ''/'' # join_path ([''app''] @ [''eboot.bin''])) m"
    by code_simp
  moreover have "isAllowed FsPolicy_default
      (CHR ''/'' # join_path ([''app''] @ [''eboot.bin''])) FsRead = Inr ()"
    by code_simp
  moreover have "hostSubdir ?mp \<noteq> []" by (simp add: mount_point_def)
  ultimately have "resolve FsPolicy_default ''/app//eboot.bin'' FsRead =
     Val (\<lparr>tr_ok = True, tr_guestPath = ''/app//eboot.bin'',
           tr_hostPath = host_path (host_dir (m_vfsRoot FsPolicy_default) (hostSubdir ?mp))
                           [''eboot.bin''],
           tr_mount = Some ?mp\<rparr>, 0)"
    by (rule resolve_maps_mount)
  then show ?thesis by (simp add: FsPolicy_default_def mount_point_def)
qed

text \<open>
  Mount selection is longest-prefix matching on whole components: the selected mount is
  in the table, its prefix ends at a component boundary of the path, no matching mount has a
  longer prefix, and nothing is selected only if no mount with a non-empty prefix matches.
\<close>

theorem match_mount_longest:
  "(\<forall>mp. match_mount pol p = Some mp \<longrightarrow>
      mp \<in> set (m_mounts pol)
      \<and> (\<exists>rest. p = guestPrefix mp @ rest \<and> (rest = [] \<or> hd rest = CHR ''/''))
      \<and> (\<forall>m\<in>set (m_mounts pol). mount_matches p m
            \<longrightarrow> length (guestPrefix m) \<le> length (guestPrefix mp)))
   \<and> (match_mount pol p = None \<longleftrightarrow>
      (\<forall>m\<in>set (m_mounts pol). mount_matches p m \<longrightarrow> guestPrefix m = []))"
proof -
  have "match_mount pol p = None \<longleftrightarrow>
      (\<forall>m\<in>set (m_mounts pol). mount_matches p m \<longrightarrow> guestPrefix m = [])"
    by (simp add: match_mount_def match_loop_None_iff)
  moreover have "mp \<in> set (m_mounts pol)
      \<and> (\<exists>rest. p = guestPrefix mp @ rest \<and> (rest = [] \<or> hd rest = CHR ''/''))
      \<and> (\<forall>m\<in>set (m_mounts pol). mount_matches p m
            \<longrightarrow> length (guestPrefix m) \<le> length (guestPrefix mp))"
    if "match_mount pol p = Some mp" for mp
    using match_mount_SomeD [OF that] by (auto simp: mount_matches_iff)
  ultimately show ?thesis by blast
qed

theorem match_mount_longest_witness:
  "match_mount FsPolicy_default ''/data/x'' = Some (mount_point ''/data'' ''data'' False True True)
   \<and> match_mount FsPolicy_default ''/database'' = None
   \<and> mount_point ''/data'' ''data'' False True True \<in> set (m_mounts FsPolicy_default)
   \<and> filter (\<lambda>m. mount_matches ''/database'' m \<and> guestPrefix m \<noteq> []) (m_mounts FsPolicy_default) = []"
proof -
  have 1: "match_mount FsPolicy_default ''/data/x''
      = Some (mount_point ''/data'' ''data'' False True True)" by code_simp
  have 2: "match_mount FsPolicy_default ''/database'' = None" by code_simp
  from match_mount_longest [of FsPolicy_default "''/data/x''"] 1
  have "mount_point ''/data'' ''data'' False True True \<in> set (m_mounts FsPolicy_default)" by blast
  moreover from match_mount_longest [of FsPolicy_default "''/database''"] 2
  have "filter (\<lambda>m. mount_matches ''/database'' m \<and> guestPrefix m \<noteq> []) (m_mounts FsPolicy_default) = []"
    by (simp add: filter_empty_conv)
  ultimately show ?thesis using 1 2 by blast
qed

end
