(* ===== verification/Address_Space.thy ===== *)
theory Address_Space
  imports Prelude
begin

text \<open>
  \<^verbatim>\<open>isolation/SharedArena.cpp\<close> and \<^verbatim>\<open>runtime/memory/AddressSpace.cpp\<close>: the shared arena that
  backs the guest's memory and the region allocator over it. What the kernel answers to
  \<^verbatim>\<open>memfd_create\<close>, \<^verbatim>\<open>ftruncate\<close>, \<^verbatim>\<open>mmap\<close> and \<^verbatim>\<open>mprotect\<close> is a parameter of the operation
  that issues the call. \<open>hostMapped\<close> records which addresses the runtime has mapped: set by
  the arena's \<^verbatim>\<open>mmap\<close> and cleared by \<^verbatim>\<open>munmap\<close>.
\<close>

section \<open>The shared arena\<close>

record SharedArena =
  a_fd :: int
  a_base :: u64
  a_size :: u64

definition SharedArena_new :: SharedArena where
  "SharedArena_new = \<lparr>a_fd = -1, a_base = 0, a_size = 0\<rparr>"

text \<open>The kernel's answers to the three calls of \<^verbatim>\<open>SharedArena::init\<close>.\<close>

record arena_os =
  os_memfd :: int
  os_ftruncate :: int
  os_mmap :: "u64 option"

definition SharedArena_init :: "arena_os \<Rightarrow> u64 \<Rightarrow> u64 \<Rightarrow> SharedArena \<Rightarrow> bool \<times> SharedArena" where
  "SharedArena_init os base sz a =
     (if a_base a \<noteq> 0 then (True, a)
      else (let a1 = a\<lparr>a_fd := os_memfd os\<rparr> in
        if a_fd a1 < 0 then (False, a1)
        else if os_ftruncate os \<noteq> 0 then (False, a1\<lparr>a_fd := -1\<rparr>)
        else (case os_mmap os of
                None \<Rightarrow> (False, a1\<lparr>a_fd := -1\<rparr>)
              | Some r \<Rightarrow>
                  if r \<noteq> base then (False, a1\<lparr>a_fd := -1\<rparr>)
                  else (True, a1\<lparr>a_base := base, a_size := sz\<rparr>))))"

definition SharedArena_destroy :: "SharedArena \<Rightarrow> SharedArena" where
  "SharedArena_destroy a =
     (let a1 = (if a_base a \<noteq> 0 then a\<lparr>a_base := 0, a_size := 0\<rparr> else a)
      in if a_fd a1 \<ge> 0 then a1\<lparr>a_fd := -1\<rparr> else a1)"

definition arena_contains :: "SharedArena \<Rightarrow> u64 \<Rightarrow> u64 \<Rightarrow> bool" where
  "arena_contains a addr len =
     (if addr < a_base a then False
      else (let off = addr - a_base a in
        if off > a_size a then False
        else if len > a_size a - off then False
        else True))"

definition arena_hostPointer :: "SharedArena \<Rightarrow> u64 \<Rightarrow> u64 option" where
  "arena_hostPointer a guestAddr =
     (if \<not> arena_contains a guestAddr 1 then None else Some guestAddr)"

definition arena_protect :: "(u64 \<Rightarrow> u64 \<Rightarrow> u32 \<Rightarrow> int) \<Rightarrow> SharedArena \<Rightarrow> u64 \<Rightarrow> u64 \<Rightarrow> u32 \<Rightarrow> bool" where
  "arena_protect os_mprotect a addr len prot =
     (if \<not> arena_contains a addr len then False else os_mprotect addr len prot = 0)"

section \<open>Regions\<close>

type_synonym RegionProt = u32

definition ProtNone :: RegionProt where "ProtNone = 0"
definition ProtRead :: RegionProt where "ProtRead = 1"
definition ProtWrite :: RegionProt where "ProtWrite = 2"
definition ProtExecute :: RegionProt where "ProtExecute = 4"

definition hasProt :: "RegionProt \<Rightarrow> RegionProt \<Rightarrow> bool" where
  "hasProt v f \<longleftrightarrow> v AND f \<noteq> 0"

text \<open>\<^verbatim>\<open>PROT_READ\<close>, \<^verbatim>\<open>PROT_WRITE\<close> and \<^verbatim>\<open>PROT_EXEC\<close> are 1, 2 and 4 on the host.\<close>

definition toHostProt :: "RegionProt \<Rightarrow> u32" where
  "toHostProt p =
     (if hasProt p ProtRead then 1 else 0) OR (if hasProt p ProtWrite then 2 else 0)
     OR (if hasProt p ProtExecute then 4 else 0)"

record MemoryRegion =
  r_base :: u64
  r_size :: u64
  r_prot :: RegionProt
  r_hostPtr :: "u64 option"
  r_name :: string

record AddressSpace =
  m_base :: u64
  m_capacity :: u64
  m_nextHint :: u64
  m_regions :: "MemoryRegion list"
  m_arena :: "SharedArena option"
  hostMapped :: "u64 \<Rightarrow> bool"

definition kGuestBase :: u64 where "kGuestBase = 0x100000000000"
definition kGuestSize :: u64 where "kGuestSize = 0x10000000000"
definition kPageSize :: u64 where "kPageSize = 0x1000"

definition alignUp :: "u64 \<Rightarrow> u64 \<Rightarrow> u64" where
  "alignUp v a = (v + a - 1) AND NOT (a - 1)"

definition AddressSpace_new :: AddressSpace where
  "AddressSpace_new =
     \<lparr>m_base = 0, m_capacity = 0, m_nextHint = 0, m_regions = [], m_arena = None,
      hostMapped = (\<lambda>_. False)\<rparr>"

definition AddressSpace_init :: "arena_os \<Rightarrow> AddressSpace \<Rightarrow> bool \<times> AddressSpace" where
  "AddressSpace_init os s =
     (if m_base s \<noteq> 0 then (True, s)
      else (case SharedArena_init os kGuestBase kGuestSize SharedArena_new of
              (False, _) \<Rightarrow> (False, s\<lparr>m_arena := None\<rparr>)
            | (True, a) \<Rightarrow>
                (True, s\<lparr>m_arena := Some a, m_base := kGuestBase, m_capacity := kGuestSize,
                         m_nextHint := kGuestBase + 0x10000,
                         hostMapped := (\<lambda>x. kGuestBase \<le> x \<and> x < kGuestBase + kGuestSize)\<rparr>)))"

definition AddressSpace_destroy :: "AddressSpace \<Rightarrow> AddressSpace" where
  "AddressSpace_destroy s =
     s\<lparr>m_arena := None, m_base := 0, m_capacity := 0, m_nextHint := 0, m_regions := [],
       hostMapped := (\<lambda>_. False)\<rparr>"

text \<open>The clash test of the hint, and the first-fit scan from \<^verbatim>\<open>m_nextHint\<close>.\<close>

definition hint_clash :: "u64 \<Rightarrow> u64 \<Rightarrow> MemoryRegion list \<Rightarrow> bool" where
  "hint_clash hint sz regions =
     (\<exists>r\<in>set regions. \<not> (hint + sz \<le> r_base r \<or> hint \<ge> r_base r + r_size r))"

fun first_fit :: "u64 \<Rightarrow> u64 \<Rightarrow> u64 \<Rightarrow> MemoryRegion list \<Rightarrow> u64" where
  "first_fit limit sz cur [] = (if cur + sz \<le> limit then cur else 0)"
| "first_fit limit sz cur (r # rs) =
     (if cur + sz \<le> r_base r then cur
      else first_fit limit sz (max cur (r_base r + r_size r)) rs)"

definition findFreeGap :: "AddressSpace \<Rightarrow> u64 \<Rightarrow> u64 \<Rightarrow> u64" where
  "findFreeGap s sz hint =
     (if hint \<noteq> 0 \<and> hint \<ge> m_base s \<and> hint + sz \<le> m_base s + m_capacity s
         \<and> \<not> hint_clash hint sz (m_regions s)
      then hint
      else first_fit (m_base s + m_capacity s) sz (m_nextHint s)
             (sort_key r_base (m_regions s)))"

definition AddressSpace_map ::
  "AddressSpace \<Rightarrow> u64 \<Rightarrow> u64 \<Rightarrow> RegionProt \<Rightarrow> string \<Rightarrow> u64 \<times> AddressSpace" where
  "AddressSpace_map s hint sz prot name =
     (case m_arena s of
        None \<Rightarrow> (0, s)
      | Some a \<Rightarrow>
          if m_base s = 0 then (0, s)
          else (let sz = alignUp sz kPageSize;
                    where' = findFreeGap s sz hint
                in if where' = 0 then (0, s)
                   else (let region = \<lparr>r_base = where', r_size = sz, r_prot = prot,
                                       r_hostPtr = arena_hostPointer a where', r_name = name\<rparr>
                         in (where',
                             s\<lparr>m_regions := m_regions s @ [region],
                               m_nextHint := (if where' = m_nextHint s then where' + sz
                                              else m_nextHint s)\<rparr>))))"

text \<open>
  \<^verbatim>\<open>unmap\<close> removes the first region with that base (the size argument is ignored by the
  C++) and unmaps its bytes from the runtime's address space.
\<close>

fun erase_region :: "u64 \<Rightarrow> MemoryRegion list \<Rightarrow> (MemoryRegion \<times> MemoryRegion list) option" where
  "erase_region addr [] = None"
| "erase_region addr (r # rs) =
     (if r_base r = addr then Some (r, rs)
      else map_option (\<lambda>(x, rs'). (x, r # rs')) (erase_region addr rs))"

definition AddressSpace_unmap :: "AddressSpace \<Rightarrow> u64 \<Rightarrow> u64 \<Rightarrow> bool \<times> AddressSpace" where
  "AddressSpace_unmap s addr sz =
     (case erase_region addr (m_regions s) of
        None \<Rightarrow> (False, s)
      | Some (r, rs) \<Rightarrow>
          (True, s\<lparr>m_regions := rs,
                   hostMapped := (\<lambda>x. hostMapped s x
                      \<and> \<not> (unat (r_base r) \<le> unat x \<and> unat x < unat (r_base r) + unat (r_size r)))\<rparr>))"

definition in_region :: "u64 \<Rightarrow> MemoryRegion \<Rightarrow> bool" where
  "in_region addr r \<longleftrightarrow> addr \<ge> r_base r \<and> addr < r_base r + r_size r"

text \<open>\<^verbatim>\<open>protect\<close> asks the kernel for the first region that holds the address.\<close>

fun protect_regions ::
  "(u64 \<Rightarrow> u64 \<Rightarrow> u32 \<Rightarrow> int) \<Rightarrow> u64 \<Rightarrow> RegionProt \<Rightarrow> MemoryRegion list \<Rightarrow> MemoryRegion list option" where
  "protect_regions os_mprotect addr prot [] = None"
| "protect_regions os_mprotect addr prot (r # rs) =
     (if in_region addr r
      then (if os_mprotect (r_base r) (r_size r) (toHostProt prot) \<noteq> 0 then None
            else Some (r\<lparr>r_prot := prot\<rparr> # rs))
      else map_option (\<lambda>rs'. r # rs') (protect_regions os_mprotect addr prot rs))"

definition AddressSpace_protect ::
  "(u64 \<Rightarrow> u64 \<Rightarrow> u32 \<Rightarrow> int) \<Rightarrow> AddressSpace \<Rightarrow> u64 \<Rightarrow> u64 \<Rightarrow> RegionProt \<Rightarrow> bool \<times> AddressSpace" where
  "AddressSpace_protect os_mprotect s addr sz prot =
     (case protect_regions os_mprotect addr prot (m_regions s) of
        None \<Rightarrow> (False, s)
      | Some rs \<Rightarrow> (True, s\<lparr>m_regions := rs\<rparr>))"

definition AddressSpace_find :: "AddressSpace \<Rightarrow> u64 \<Rightarrow> MemoryRegion option" where
  "AddressSpace_find s addr = List.find (in_region addr) (m_regions s)"

definition AddressSpace_hostPointer :: "AddressSpace \<Rightarrow> u64 \<Rightarrow> u64 option" where
  "AddressSpace_hostPointer s addr =
     (case AddressSpace_find s addr of Some _ \<Rightarrow> Some addr | None \<Rightarrow> None)"

section \<open>Page alignment\<close>

lemma and_not_mask_word: "x AND NOT (mask n) = x - take_bit n x" for x :: "'w::len word"
proof -
  have "x = (x AND NOT (mask n)) + (x AND mask n)"
    by (subst disjunctive_add_eq_or) (auto intro!: bit_word_eqI simp: bit_simps)
  then show ?thesis by (metis add_diff_cancel_right' take_bit_eq_mask)
qed

lemma unat_alignUp_page:
  assumes "unat v + 4095 < 2 ^ 64"
  shows "unat (alignUp v kPageSize) = 4096 * ((unat v + 4095) div 4096)"
proof -
  let ?x = "v + 0xFFF"
  have x: "unat ?x = unat v + 4095"
    using assms by (subst unat_add_no_wrap) simp_all
  have "alignUp v kPageSize = ?x AND NOT (mask 12)"
    by (simp add: alignUp_def kPageSize_def mask_eq_exp_minus_1 add_diff_eq [symmetric])
  also have "\<dots> = ?x - take_bit 12 ?x" by (rule and_not_mask_word)
  finally have al: "alignUp v kPageSize = ?x - take_bit 12 ?x" .
  have t: "unat (take_bit 12 ?x) = unat ?x mod 4096"
    unfolding take_bit_eq_mod by (simp add: unat_mod)
  then have "take_bit 12 ?x \<le> ?x" unfolding word_le_nat_alt t by simp
  then have "unat (alignUp v kPageSize) = unat ?x - unat ?x mod 4096"
    unfolding al using t by (simp only: unat_sub_no_wrap)
  also have "\<dots> = 4096 * (unat ?x div 4096)"
    by (metis minus_mod_eq_mult_div)
  finally show ?thesis by (simp only: x)
qed

lemma alignUp_page_bounds:
  assumes "unat v + 4095 < 2 ^ 64"
  shows "unat v \<le> unat (alignUp v kPageSize)" and "unat (alignUp v kPageSize) < unat v + 4096"
  using div_mult_mod_eq [of "unat v + 4095" 4096] mod_less_divisor [of 4096 "unat v + 4095"]
  unfolding unat_alignUp_page [OF assms] by linarith+

section \<open>Invariant\<close>

abbreviation r_lo :: "MemoryRegion \<Rightarrow> nat" where "r_lo r \<equiv> unat (r_base r)"
abbreviation r_hi :: "MemoryRegion \<Rightarrow> nat" where "r_hi r \<equiv> unat (r_base r) + unat (r_size r)"

definition apart :: "MemoryRegion \<Rightarrow> MemoryRegion \<Rightarrow> bool" where
  "apart r t \<longleftrightarrow> r_hi r \<le> r_lo t \<or> r_hi t \<le> r_lo r"

definition arena_lo :: nat where "arena_lo = 0x100000000000"
definition arena_hi :: nat where "arena_hi = 0x110000000000"

definition inside_arena :: "MemoryRegion \<Rightarrow> bool" where
  "inside_arena r \<longleftrightarrow> arena_lo \<le> r_lo r \<and> r_hi r \<le> arena_hi"

definition space_inv :: "AddressSpace \<Rightarrow> bool" where
  "space_inv s \<longleftrightarrow>
     m_base s = kGuestBase \<and> m_capacity s = kGuestSize \<and> m_arena s \<noteq> None
     \<and> arena_lo \<le> unat (m_nextHint s) \<and> unat (m_nextHint s) \<le> arena_hi
     \<and> list_all inside_arena (m_regions s) \<and> sorted_wrt apart (m_regions s)"

lemma unat_limits:
  "unat kGuestBase = arena_lo" "unat (kGuestBase + kGuestSize) = arena_hi"
  by (simp_all add: kGuestBase_def kGuestSize_def arena_lo_def arena_hi_def)

lemma unat_region_end:
  assumes "inside_arena r"
  shows "unat (r_base r + r_size r) = r_hi r"
  using assms by (intro unat_add_no_wrap) (simp add: inside_arena_def arena_hi_def)

text \<open>A request whose end does not wrap around \<^verbatim>\<open>2^64\<close>.\<close>

definition no_wrap :: "u64 \<Rightarrow> u64 \<Rightarrow> bool" where
  "no_wrap hint sz \<longleftrightarrow> unat hint + unat sz + 4096 \<le> 2 ^ 64 \<and> unat sz \<le> 2 ^ 63"

lemma first_fit_sound:
  assumes "first_fit limit sz cur rs = w" and "w \<noteq> 0"
    and "list_all inside_arena rs" and "sorted (map r_base rs)"
    and "unat limit = arena_hi" and "unat cur \<le> arena_hi" and "unat sz < 2 ^ 63 + 4096"
  shows "unat cur \<le> unat w \<and> unat w + unat sz \<le> arena_hi
    \<and> (\<forall>r\<in>set rs. r_hi r \<le> unat w \<or> unat w + unat sz \<le> r_lo r)"
  using assms
proof (induction rs arbitrary: cur)
  case Nil
  have "unat (cur + sz) = unat cur + unat sz"
    using Nil by (intro unat_add_no_wrap) (simp add: arena_hi_def)
  with Nil show ?case by (auto simp: word_le_unat split: if_splits)
next
  case (Cons r rs)
  have e: "unat (cur + sz) = unat cur + unat sz"
    using Cons.prems(6,7) by (intro unat_add_no_wrap) (simp add: arena_hi_def)
  have re: "unat (r_base r + r_size r) = r_hi r"
    using Cons.prems(3) by (simp add: unat_region_end)
  show ?case
  proof (cases "cur + sz \<le> r_base r")
    case True
    with Cons.prems e have "w = cur" and "unat cur + unat sz \<le> r_lo r"
      by (simp_all add: word_le_unat)
    moreover have "r_lo r \<le> r_lo t" if "t \<in> set rs" for t
      using Cons.prems(4) that by (simp add: word_le_unat)
    ultimately show ?thesis using Cons.prems(3) by (fastforce simp: inside_arena_def)
  next
    case False
    let ?cur = "max cur (r_base r + r_size r)"
    have m: "unat ?cur = max (unat cur) (r_hi r)"
      using re by (simp add: max_def word_le_unat)
    have "unat cur \<le> unat w" "r_hi r \<le> unat w" "unat w + unat sz \<le> arena_hi"
      "\<forall>t\<in>set rs. r_hi t \<le> unat w \<or> unat w + unat sz \<le> r_lo t"
      using Cons.IH [of ?cur] Cons.prems False m by (auto simp: inside_arena_def)
    then show ?thesis by auto
  qed
qed

lemma findFreeGap_sound:
  assumes "space_inv s" and "findFreeGap s sz hint = w" and "w \<noteq> 0"
    and "unat hint + unat sz < 2 ^ 64" and "unat sz < 2 ^ 63 + 4096"
  shows "arena_lo \<le> unat w \<and> unat w + unat sz \<le> arena_hi
    \<and> (\<forall>r\<in>set (m_regions s). r_hi r \<le> unat w \<or> unat w + unat sz \<le> r_lo r)"
proof (cases "hint \<noteq> 0 \<and> hint \<ge> m_base s \<and> hint + sz \<le> m_base s + m_capacity s
    \<and> \<not> hint_clash hint sz (m_regions s)")
  case True
  have e: "unat (hint + sz) = unat hint + unat sz"
    using assms(4) by (intro unat_add_no_wrap) simp
  from True assms(2) have w: "w = hint" by (simp add: findFreeGap_def)
  have "r_hi r \<le> unat w \<or> unat w + unat sz \<le> r_lo r" if r: "r \<in> set (m_regions s)" for r
  proof -
    from r assms(1) have "inside_arena r" by (auto simp: space_inv_def list_all_iff)
    then show ?thesis
      using True r w e by (auto simp: hint_clash_def word_le_unat unat_region_end)
  qed
  moreover have "arena_lo \<le> unat w \<and> unat w + unat sz \<le> arena_hi"
    using True assms(1) w e by (simp add: space_inv_def word_le_unat unat_limits)
  ultimately show ?thesis by blast
next
  case False
  let ?rs = "sort_key r_base (m_regions s)"
  have f: "first_fit (m_base s + m_capacity s) sz (m_nextHint s) ?rs = w"
    using False assms(2) by (auto simp: findFreeGap_def split: if_splits)
  have "list_all inside_arena ?rs" "sorted (map r_base ?rs)"
    using assms(1) by (simp_all add: space_inv_def list_all_iff)
  from first_fit_sound [OF f assms(3) this _ _ assms(5)] assms(1) show ?thesis
    by (auto simp: space_inv_def unat_limits)
qed

lemma map_okE:
  assumes "AddressSpace_map s hint sz prot name = (w, s')" and "w \<noteq> 0"
  obtains a where "m_arena s = Some a" and "m_base s \<noteq> 0"
    and "findFreeGap s (alignUp sz kPageSize) hint = w"
    and "s' = s\<lparr>m_regions := m_regions s @ [\<lparr>r_base = w, r_size = alignUp sz kPageSize,
             r_prot = prot, r_hostPtr = arena_hostPointer a w, r_name = name\<rparr>],
           m_nextHint := (if w = m_nextHint s then w + alignUp sz kPageSize else m_nextHint s)\<rparr>"
  using assms by (auto simp: AddressSpace_map_def Let_def split: option.splits if_splits)

lemma map_zero: "AddressSpace_map s hint sz prot name = (0, s') \<Longrightarrow> s' = s"
  by (auto simp: AddressSpace_map_def Let_def split: option.splits if_splits)

lemma no_wrap_aligned:
  assumes "no_wrap hint sz"
  shows "unat hint + unat (alignUp sz kPageSize) < 2 ^ 64"
    and "unat (alignUp sz kPageSize) < 2 ^ 63 + 4096"
    and "unat sz + 4095 < 2 ^ 64"
proof -
  show a: "unat sz + 4095 < 2 ^ 64" using assms by (simp add: no_wrap_def)
  show "unat hint + unat (alignUp sz kPageSize) < 2 ^ 64"
    "unat (alignUp sz kPageSize) < 2 ^ 63 + 4096"
    using alignUp_page_bounds(2) [OF a] assms unfolding no_wrap_def by linarith+
qed

lemma map_region_sound:
  assumes "space_inv s" and "no_wrap hint sz"
    and "AddressSpace_map s hint sz prot name = (w, s')" and "w \<noteq> 0"
  shows "arena_lo \<le> unat w \<and> unat w + unat (alignUp sz kPageSize) \<le> arena_hi
    \<and> (\<forall>r\<in>set (m_regions s).
        r_hi r \<le> unat w \<or> unat w + unat (alignUp sz kPageSize) \<le> r_lo r)"
  using assms(3,4)
  by (rule map_okE)
    (rule findFreeGap_sound [OF assms(1) _ assms(4) no_wrap_aligned(1,2) [OF assms(2)]])

lemma map_keeps_inv:
  assumes "space_inv s" and "no_wrap hint sz"
    and "AddressSpace_map s hint sz prot name = (w, s')"
  shows "space_inv s'"
proof (cases "w = 0")
  case True
  with assms show ?thesis by (auto dest: map_zero)
next
  case False
  let ?z = "alignUp sz kPageSize"
  note snd = map_region_sound [OF assms False]
  from assms(3) False obtain a where s': "s' = s\<lparr>m_regions := m_regions s @ [\<lparr>r_base = w,
      r_size = ?z, r_prot = prot, r_hostPtr = arena_hostPointer a w, r_name = name\<rparr>],
      m_nextHint := (if w = m_nextHint s then w + ?z else m_nextHint s)\<rparr>"
    by (rule map_okE)
  have "unat (w + ?z) = unat w + unat ?z"
    using snd by (intro unat_add_no_wrap) (simp add: arena_hi_def)
  with snd assms(1) show ?thesis
    unfolding s' by (auto simp: space_inv_def inside_arena_def apart_def sorted_wrt_append)
qed

lemma erase_region_SomeD:
  assumes "erase_region addr rs = Some (r, rs')"
  shows "\<exists>xs ys. rs = xs @ r # ys \<and> rs' = xs @ ys \<and> r_base r = addr
    \<and> (\<forall>x\<in>set xs. r_base x \<noteq> addr)"
  using assms
proof (induction rs arbitrary: rs')
  case Nil
  then show ?case by simp
next
  case (Cons t rs)
  show ?case
  proof (cases "r_base t = addr")
    case True
    with Cons.prems show ?thesis by (intro exI [of _ "[]"] exI [of _ rs]) auto
  next
    case False
    with Cons.prems obtain rs1 where r1: "erase_region addr rs = Some (r, rs1)"
      and rs': "rs' = t # rs1" by auto
    from Cons.IH [OF r1] obtain xs ys where "rs = xs @ r # ys" "rs1 = xs @ ys"
      "r_base r = addr" "\<forall>x\<in>set xs. r_base x \<noteq> addr" by blast
    with False rs' show ?thesis by (intro exI [of _ "t # xs"] exI [of _ ys]) auto
  qed
qed

lemma unmap_keeps_inv: "space_inv s \<Longrightarrow> space_inv (snd (AddressSpace_unmap s addr sz))"
  by (auto simp: AddressSpace_unmap_def space_inv_def sorted_wrt_append
      split: option.splits dest!: erase_region_SomeD)

lemma protect_regions_shape:
  assumes "protect_regions os addr prot rs = Some rs'"
  shows "map (\<lambda>r. (r_base r, r_size r)) rs' = map (\<lambda>r. (r_base r, r_size r)) rs"
  using assms by (induction rs arbitrary: rs') (auto split: if_splits)

lemma shape_keeps_inv:
  assumes "map (\<lambda>r. (r_base r, r_size r)) rs' = map (\<lambda>r. (r_base r, r_size r)) rs"
  shows "list_all inside_arena rs' = list_all inside_arena rs"
    and "sorted_wrt apart rs' = sorted_wrt apart rs"
proof -
  have l: "length rs' = length rs" using assms by (rule map_eq_imp_length_eq)
  have n: "r_base (rs' ! i) = r_base (rs ! i) \<and> r_size (rs' ! i) = r_size (rs ! i)"
    if "i < length rs" for i
    using arg_cong [OF assms, of "\<lambda>xs. xs ! i"] that l by simp
  show "list_all inside_arena rs' = list_all inside_arena rs"
    using l n by (simp add: list_all_length inside_arena_def)
  show "sorted_wrt apart rs' = sorted_wrt apart rs"
    using l n by (auto simp: sorted_wrt_iff_nth_less apart_def)
qed

lemma protect_keeps_inv: "space_inv s \<Longrightarrow> space_inv (snd (AddressSpace_protect os s addr sz prot))"
proof (cases "protect_regions os addr prot (m_regions s)")
  case None
  then show "space_inv s \<Longrightarrow> ?thesis" by (simp add: AddressSpace_protect_def)
next
  case (Some rs)
  note shape_keeps_inv [OF protect_regions_shape [OF Some]]
  with Some show "space_inv s \<Longrightarrow> ?thesis" by (simp add: AddressSpace_protect_def space_inv_def)
qed

lemma init_inv:
  assumes "AddressSpace_init os AddressSpace_new = (True, s)"
  shows "space_inv s"
  using assms
  by (auto simp: AddressSpace_init_def AddressSpace_new_def space_inv_def kGuestBase_def
      kGuestSize_def arena_lo_def arena_hi_def split: prod.splits bool.splits)

section \<open>Sequences of requests\<close>

datatype space_request =
    ReqMap u64 u64 RegionProt string
  | ReqUnmap u64 u64
  | ReqProtect u64 u64 RegionProt

fun space_step :: "(u64 \<Rightarrow> u64 \<Rightarrow> u32 \<Rightarrow> int) \<Rightarrow> AddressSpace \<Rightarrow> space_request \<Rightarrow> AddressSpace" where
  "space_step os s (ReqMap hint sz prot name) = snd (AddressSpace_map s hint sz prot name)"
| "space_step os s (ReqUnmap addr sz) = snd (AddressSpace_unmap s addr sz)"
| "space_step os s (ReqProtect addr sz prot) = snd (AddressSpace_protect os s addr sz prot)"

fun request_no_wrap :: "space_request \<Rightarrow> bool" where
  "request_no_wrap (ReqMap hint sz prot name) = no_wrap hint sz"
| "request_no_wrap _ = True"

lemma space_step_inv:
  assumes "space_inv s" and "request_no_wrap q"
  shows "space_inv (space_step os s q)"
  using assms
  by (cases q) (auto simp: unmap_keeps_inv protect_keeps_inv intro: map_keeps_inv surjective_pairing)

lemma space_run_inv:
  assumes "space_inv s" and "list_all request_no_wrap qs"
  shows "space_inv (foldl (space_step os) s qs)"
  using assms by (induction qs arbitrary: s) (auto intro: space_step_inv)

text \<open>Sizes are rounded up to pages.\<close>

definition page_sized :: "MemoryRegion \<Rightarrow> bool" where
  "page_sized r \<longleftrightarrow> 4096 dvd unat (r_size r)"

lemma map_page_sized:
  assumes "list_all page_sized (m_regions s)" and "no_wrap hint sz"
  shows "list_all page_sized (m_regions (snd (AddressSpace_map s hint sz prot name)))"
  using assms unat_alignUp_page [OF no_wrap_aligned(3) [OF assms(2)]]
  by (auto simp: AddressSpace_map_def page_sized_def Let_def split: option.splits)

lemma space_step_page_sized:
  assumes "list_all page_sized (m_regions s)" and "request_no_wrap q"
  shows "list_all page_sized (m_regions (space_step os s q))"
proof (cases q)
  case (ReqMap hint sz prot name)
  then show ?thesis using map_page_sized [OF assms(1)] assms(2) by simp
next
  case (ReqUnmap addr sz)
  then show ?thesis using assms(1)
    by (auto simp: AddressSpace_unmap_def split: option.splits dest!: erase_region_SomeD)
next
  case (ReqProtect addr sz prot)
  have "list_all page_sized rs' = list_all page_sized rs" if "protect_regions os addr prot rs = Some rs'" for rs rs'
    using that by (induction rs arbitrary: rs') (auto simp: page_sized_def split: if_splits)
  then show ?thesis using assms(1) ReqProtect by (auto simp: AddressSpace_protect_def split: option.splits)
qed

lemma space_run_page_sized:
  assumes "list_all page_sized (m_regions s)" and "list_all request_no_wrap qs"
  shows "list_all page_sized (m_regions (foldl (space_step os) s qs))"
  using assms by (induction qs arbitrary: s) (auto intro: space_step_page_sized)

section \<open>Properties\<close>

definition os_good :: arena_os where
  "os_good = \<lparr>os_memfd = 3, os_ftruncate = 0, os_mmap = Some kGuestBase\<rparr>"

text \<open>
  C8. Memory isolation invariant. From a successful initialisation, whatever sequence of
  \<^verbatim>\<open>map\<close>, \<^verbatim>\<open>unmap\<close> and \<^verbatim>\<open>protect\<close> requests follows (with mapping requests whose end does
  not wrap around \<^verbatim>\<open>2^64\<close>), every region lies in the 1 TiB arena and has a size that is a multiple of the page
  size, no two regions overlap and the allocation hint stays in the arena.
\<close>

theorem address_space_invariant:
  assumes "AddressSpace_init os AddressSpace_new = (True, s0)"
    and "list_all request_no_wrap qs"
    and "s = foldl (space_step os_mprotect) s0 qs"
  shows "list_all inside_arena (m_regions s) \<and> sorted_wrt apart (m_regions s)
    \<and> list_all (\<lambda>r. 4096 dvd unat (r_size r)) (m_regions s)
    \<and> arena_lo \<le> unat (m_nextHint s) \<and> unat (m_nextHint s) \<le> arena_hi"
proof -
  have "m_regions s0 = []"
    using assms(1) by (auto simp: AddressSpace_init_def AddressSpace_new_def split: prod.splits bool.splits)
  then have "list_all page_sized (m_regions s)"
    using space_run_page_sized [OF _ assms(2), of s0 os_mprotect] by (simp add: assms(3))
  then show ?thesis
    using space_run_inv [OF init_inv [OF assms(1)] assms(2), of os_mprotect]
    by (simp add: assms(3) space_inv_def page_sized_def [abs_def])
qed

theorem address_space_invariant_witness:
  "list_all inside_arena (m_regions (foldl (space_step (\<lambda>_ _ _. 0))
      (snd (AddressSpace_init os_good AddressSpace_new))
      [ReqMap 0 8388608 3 ''main-stack'', ReqMap 0x100000020000 100 1 ''x'',
       ReqUnmap 0x100000010000 0, ReqProtect 0x100000020001 1 0]))"
  by (rule address_space_invariant [THEN conjunct1, OF _ _ refl, of os_good])
    (simp_all add: AddressSpace_init_def SharedArena_init_def SharedArena_new_def os_good_def
      AddressSpace_new_def no_wrap_def)

text \<open>
  A mapping is fresh memory: the address returned is in the arena, the region has the
  page-rounded size asked for, overlaps nothing that was mapped, and from then on \<^verbatim>\<open>find\<close> at
  any of its addresses returns it and no older region is lost.
\<close>

theorem map_returns_fresh_region:
  assumes "space_inv s" and "no_wrap hint sz"
    and "AddressSpace_map s hint sz prot name = (w, s')" and "w \<noteq> 0"
    and "unat w \<le> unat addr" and "unat addr < unat w + unat (alignUp sz kPageSize)"
  shows "(\<exists>r. m_regions s' = m_regions s @ [r] \<and> r_base r = w \<and> r_prot r = prot
            \<and> r_name r = name \<and> unat (r_size r) = 4096 * ((unat sz + 4095) div 4096)
            \<and> (\<forall>t\<in>set (m_regions s). apart t r)
            \<and> AddressSpace_find s' addr = Some r)
         \<and> AddressSpace_hostPointer s' addr = Some addr"
proof -
  note snd = map_region_sound [OF assms(1-4)]
  from assms(3,4) obtain a where s': "s' = s\<lparr>m_regions := m_regions s @ [\<lparr>r_base = w,
      r_size = alignUp sz kPageSize, r_prot = prot, r_hostPtr = arena_hostPointer a w, r_name = name\<rparr>],
      m_nextHint := (if w = m_nextHint s then w + alignUp sz kPageSize else m_nextHint s)\<rparr>"
    by (rule map_okE)
  define r where "r = \<lparr>r_base = w, r_size = alignUp sz kPageSize, r_prot = prot,
      r_hostPtr = arena_hostPointer a w, r_name = name\<rparr>"
  have e: "unat (w + alignUp sz kPageSize) = unat w + unat (alignUp sz kPageSize)"
    using snd by (intro unat_add_no_wrap) (simp add: arena_hi_def)
  have old: "\<not> in_region addr t" if t: "t \<in> set (m_regions s)" for t
  proof -
    from t assms(1) have "inside_arena t" by (auto simp: space_inv_def list_all_iff)
    then show ?thesis
      using snd t assms(5,6) by (force simp: in_region_def word_le_unat word_less_unat unat_region_end)
  qed
  have "in_region addr r"
    using assms(5,6) e by (simp add: in_region_def r_def word_le_unat word_less_unat)
  then have "AddressSpace_find s' addr = Some r"
  proof -
    have "List.find (in_region addr) (m_regions s) = None"
      using old by (auto simp: find_None_iff)
    with \<open>in_region addr r\<close> show ?thesis
      by (simp add: AddressSpace_find_def s' r_def [symmetric] find_append)
  qed
  moreover have "\<forall>t\<in>set (m_regions s). apart t r"
    using snd by (auto simp: apart_def r_def)
  moreover have "unat (r_size r) = 4096 * ((unat sz + 4095) div 4096)"
    using unat_alignUp_page [OF no_wrap_aligned(3) [OF assms(2)]] by (simp add: r_def)
  ultimately show ?thesis
    by (auto simp: AddressSpace_hostPointer_def s' r_def)
qed

theorem map_returns_fresh_region_witness:
  "AddressSpace_hostPointer
     (snd (AddressSpace_map (snd (AddressSpace_init os_good AddressSpace_new)) 0 5000 3 ''heap''))
     0x100000011234 = Some 0x100000011234"
proof -
  let ?s0 = "snd (AddressSpace_init os_good AddressSpace_new)"
  have i: "AddressSpace_init os_good AddressSpace_new = (True, ?s0)"
    by (simp add: AddressSpace_init_def SharedArena_init_def SharedArena_new_def os_good_def
        AddressSpace_new_def)
  have m: "AddressSpace_map ?s0 0 5000 3 ''heap''
      = (0x100000010000, snd (AddressSpace_map ?s0 0 5000 3 ''heap''))"
    by (simp add: AddressSpace_init_def SharedArena_init_def SharedArena_new_def os_good_def
        AddressSpace_new_def AddressSpace_map_def Let_def findFreeGap_def kGuestBase_def
        kGuestSize_def alignUp_def kPageSize_def)
  have al: "alignUp 5000 kPageSize = 8192" by (simp add: alignUp_def kPageSize_def)
  show ?thesis
    by (rule map_returns_fresh_region [THEN conjunct2, OF init_inv [OF i] _ m])
      (simp_all add: no_wrap_def al)
qed

lemma first_fit_complete:
  assumes "list_all inside_arena rs" and "unat limit = arena_hi" and "unat sz < 2 ^ 63 + 4096"
    and "unat cur \<le> g" and "g + unat sz \<le> arena_hi" and "cur \<noteq> 0"
    and "\<forall>r\<in>set rs. r_hi r \<le> g \<or> g + unat sz \<le> r_lo r"
  shows "first_fit limit sz cur rs \<noteq> 0"
  using assms
proof (induction rs arbitrary: cur)
  case Nil
  have "unat (cur + sz) = unat cur + unat sz"
    using Nil by (intro unat_add_no_wrap) (simp add: arena_hi_def)
  with Nil show ?case by (simp add: word_le_unat)
next
  case (Cons r rs)
  have e: "unat (cur + sz) = unat cur + unat sz"
    using Cons.prems by (intro unat_add_no_wrap) (simp add: arena_hi_def)
  have re: "unat (r_base r + r_size r) = r_hi r"
    using Cons.prems(1) by (simp add: unat_region_end)
  show ?case
  proof (cases "cur + sz \<le> r_base r")
    case True
    with Cons.prems(6) show ?thesis by simp
  next
    case False
    then have "r_hi r \<le> g" using Cons.prems(4,7) e by (auto simp: word_le_unat)
    then have "unat (max cur (r_base r + r_size r)) \<le> g"
      using Cons.prems(4) re by (simp add: max_def)
    moreover have "max cur (r_base r + r_size r) \<noteq> 0"
      using Cons.prems(6) by (auto simp: max_def)
    ultimately show ?thesis using False Cons by simp
  qed
qed

text \<open>
  The allocator is complete above its hint: a mapping request fails only if the arena
  holds no gap of the page-rounded size at or above \<^verbatim>\<open>m_nextHint\<close>. Gaps below the hint
  (left by \<^verbatim>\<open>unmap\<close>) are not searched.
\<close>

theorem map_succeeds_if_gap:
  assumes "space_inv s" and "no_wrap hint sz"
    and "unat (m_nextHint s) \<le> g" and "g + unat (alignUp sz kPageSize) \<le> arena_hi"
    and "\<forall>r\<in>set (m_regions s). r_hi r \<le> g \<or> g + unat (alignUp sz kPageSize) \<le> r_lo r"
  shows "fst (AddressSpace_map s hint sz prot name) \<noteq> 0"
proof -
  let ?z = "alignUp sz kPageSize"
  have n: "m_nextHint s \<noteq> 0" using assms(1) by (auto simp: space_inv_def arena_lo_def)
  have "first_fit (m_base s + m_capacity s) ?z (m_nextHint s) (sort_key r_base (m_regions s)) \<noteq> 0"
    using assms no_wrap_aligned(2) [OF assms(2)] n
    by (intro first_fit_complete [of _ _ _ _ g]) (auto simp: space_inv_def unat_limits list_all_iff)
  then have "findFreeGap s ?z hint \<noteq> 0" by (simp add: findFreeGap_def)
  moreover have "m_base s \<noteq> 0" using assms(1) by (auto simp: space_inv_def kGuestBase_def)
  ultimately show ?thesis
    using assms(1) by (auto simp: AddressSpace_map_def Let_def space_inv_def)
qed

theorem map_succeeds_if_gap_witness:
  "fst (AddressSpace_map (snd (AddressSpace_init os_good AddressSpace_new)) 0 0x1000000 3 ''a'') \<noteq> 0"
proof -
  let ?s0 = "snd (AddressSpace_init os_good AddressSpace_new)"
  have i: "AddressSpace_init os_good AddressSpace_new = (True, ?s0)"
    and r: "m_regions ?s0 = []" and h: "m_nextHint ?s0 = 0x100000010000"
    by (simp_all add: AddressSpace_init_def SharedArena_init_def SharedArena_new_def os_good_def
        AddressSpace_new_def kGuestBase_def)
  show ?thesis
    by (rule map_succeeds_if_gap [OF init_inv [OF i], of _ _ "0x100000010000"])
      (simp_all add: no_wrap_def r h alignUp_def kPageSize_def arena_hi_def)
qed

text \<open>
  A hint near the top of the address space defeats the bounds check. The test
  \<^verbatim>\<open>hint + size <= m_base + m_capacity\<close> is evaluated modulo \<^verbatim>\<open>2^64\<close>, so on a freshly
  initialised space the guest's \<^verbatim>\<open>mmap(0xFFFFFFFFFFFFF000, 0x2000)\<close> is accepted and the
  region recorded lies outside the arena.
\<close>

theorem map_hint_wraps_out_of_arena:
  "\<exists>s'. AddressSpace_map (snd (AddressSpace_init os_good AddressSpace_new))
          0xFFFFFFFFFFFFF000 0x2000 ProtRead ''mmap'' = (0xFFFFFFFFFFFFF000, s')
     \<and> \<not> list_all inside_arena (m_regions s')"
  by (simp add: AddressSpace_init_def SharedArena_init_def SharedArena_new_def os_good_def
      AddressSpace_new_def AddressSpace_map_def Let_def findFreeGap_def hint_clash_def
      kGuestBase_def kGuestSize_def alignUp_def kPageSize_def inside_arena_def arena_hi_def)

text \<open>
  Unmapping punches a hole that mapping does not repair. After \<^verbatim>\<open>unmap\<close> releases a
  page, a later \<^verbatim>\<open>map\<close> with that address as hint hands the same address out again and
  \<^verbatim>\<open>hostPointer\<close> answers for it, but the runtime no longer has it mapped: \<^verbatim>\<open>map\<close> only
  records the region and never maps the arena again.
\<close>

theorem remapped_page_not_backed:
  "\<exists>s1 s2 s3 w.
     AddressSpace_map (snd (AddressSpace_init os_good AddressSpace_new)) 0 0x1000 ProtRead ''a''
       = (w, s1)
     \<and> AddressSpace_unmap s1 w 0x1000 = (True, s2)
     \<and> AddressSpace_map s2 w 0x1000 ProtRead ''b'' = (w, s3)
     \<and> AddressSpace_hostPointer s3 w = Some w \<and> hostMapped s1 w \<and> \<not> hostMapped s3 w"
  by (simp add: AddressSpace_init_def SharedArena_init_def SharedArena_new_def os_good_def
      AddressSpace_new_def AddressSpace_map_def AddressSpace_unmap_def Let_def findFreeGap_def
      hint_clash_def AddressSpace_hostPointer_def AddressSpace_find_def in_region_def
      kGuestBase_def kGuestSize_def alignUp_def kPageSize_def)

end
