(* ===== verification/Handles.thy ===== *)
theory Handles
  imports Free_Bsd
begin

text \<open>
  \<^verbatim>\<open>runtime/handles\<close>: the table of opaque PS4 handles and the objects behind them.
  A \<^verbatim>\<open>Handle\<close> is an \<^verbatim>\<open>int32_t\<close>, kept as its 32-bit pattern; the table is
  polymorphic in the object type, as \<^verbatim>\<open>std::shared_ptr<HandleObject>\<close> is.
\<close>

section \<open>Objects\<close>

datatype HandleType =
    TypeUnknown | TypeFile | TypeDirectory | TypeSocket | TypeEvent | TypeSemaphore | TypeMutex
  | TypeThread | TypeProcess | TypeSharedMemory | TypeDevice

record FileHandle =
  fh_hostFd :: int
  fh_guestPath :: string
  fh_hostPath :: string
  fh_openFlags :: u32

record DirectoryHandle =
  dh_hostFd :: int
  dh_guestPath :: string
  dh_hostPath :: string

record SocketHandle =
  sh_hostFd :: int
  sh_domain :: int
  sh_type :: int
  sh_protocol :: int

definition isReadable :: "FileHandle \<Rightarrow> bool" where
  "isReadable f =
     (let m = fh_openFlags f AND open_flag kO_AccMode
      in m = open_flag kO_RdOnly \<or> m = open_flag kO_RdWr)"

definition isWritable :: "FileHandle \<Rightarrow> bool" where
  "isWritable f =
     (let m = fh_openFlags f AND open_flag kO_AccMode
      in m = open_flag kO_WrOnly \<or> m = open_flag kO_RdWr)"

section \<open>The handle table\<close>

type_synonym Handle = u32

definition kInvalidHandle :: Handle where "kInvalidHandle = -1"

record 'o HandleTable =
  h_next :: Handle
  h_objects :: "(Handle, 'o) umap"

definition HandleTable_new :: "'o HandleTable" where
  "HandleTable_new = \<lparr>h_next = 3, h_objects = []\<rparr>"

definition registerObject :: "'o option \<Rightarrow> 'o HandleTable \<Rightarrow> Handle \<times> 'o HandleTable" where
  "registerObject obj t =
     (case obj of
        None \<Rightarrow> (kInvalidHandle, t)
      | Some x \<Rightarrow> (h_next t, t\<lparr>h_next := h_next t + 1,
                              h_objects := um_emplace (h_next t) x (h_objects t)\<rparr>))"

definition HandleTable_get :: "'o HandleTable \<Rightarrow> Handle \<Rightarrow> 'o option" where
  "HandleTable_get t h = um_find (h_objects t) h"

definition HandleTable_close :: "Handle \<Rightarrow> 'o HandleTable \<Rightarrow> bool \<times> 'o HandleTable" where
  "HandleTable_close h t =
     (case um_find (h_objects t) h of
        None \<Rightarrow> (False, t)
      | Some _ \<Rightarrow> (True, t\<lparr>h_objects := um_erase h (h_objects t)\<rparr>))"

definition HandleTable_closeAll :: "'o HandleTable \<Rightarrow> 'o HandleTable" where
  "HandleTable_closeAll t = t\<lparr>h_objects := [], h_next := 3\<rparr>"

definition HandleTable_snapshot :: "'o HandleTable \<Rightarrow> (Handle \<times> 'o) list" where
  "HandleTable_snapshot t = h_objects t"

definition HandleTable_size :: "'o HandleTable \<Rightarrow> nat" where
  "HandleTable_size t = length (h_objects t)"

section \<open>Event objects\<close>

record EventHandle =
  ev_signaled :: u64
  ev_hasAny :: bool

definition EventHandle_new :: EventHandle where
  "EventHandle_new = \<lparr>ev_signaled = 0, ev_hasAny = False\<rparr>"

definition event_bit :: "u64 \<Rightarrow> u64" where
  "event_bit ident = push_bit (unat (ident AND 63)) 1"

definition EventHandle_signal :: "u64 \<Rightarrow> EventHandle \<Rightarrow> EventHandle" where
  "EventHandle_signal ident e =
     e\<lparr>ev_signaled := ev_signaled e OR event_bit ident, ev_hasAny := True\<rparr>"

definition event_pred :: "u64 \<Rightarrow> EventHandle \<Rightarrow> bool" where
  "event_pred ident e \<longleftrightarrow> ev_hasAny e \<and> ev_signaled e AND event_bit ident \<noteq> 0"

text \<open>
  \<^verbatim>\<open>wait\<close> as a function of the state in which the condition variable last evaluates the
  predicate; \<open>None\<close> is a wait that goes on (only without a timeout).
\<close>

definition EventHandle_wait :: "u64 \<Rightarrow> int \<Rightarrow> EventHandle \<Rightarrow> bool option" where
  "EventHandle_wait ident timeoutNs e =
     (if timeoutNs < 0 then (if event_pred ident e then Some True else None)
      else Some (event_pred ident e))"

definition EventHandle_clear :: "u64 \<Rightarrow> EventHandle \<Rightarrow> EventHandle" where
  "EventHandle_clear ident e =
     (let s = ev_signaled e AND NOT (event_bit ident)
      in e\<lparr>ev_signaled := s, ev_hasAny := (if s = 0 then False else ev_hasAny e)\<rparr>)"

section \<open>The contract of a handle registry\<close>

text \<open>
  What the clients of the table (the system call handlers, the SCE kernel objects) rely on.
  \<open>room\<close> says that the handle counter has not reached the end of its range.
\<close>

locale handle_registry =
  fixes inv :: "'t \<Rightarrow> bool"
    and room :: "'t \<Rightarrow> bool"
    and register :: "'o option \<Rightarrow> 't \<Rightarrow> Handle \<times> 't"
    and lookup :: "'t \<Rightarrow> Handle \<Rightarrow> 'o option"
    and close :: "Handle \<Rightarrow> 't \<Rightarrow> bool \<times> 't"
  assumes register_inv: "inv t \<Longrightarrow> room t \<Longrightarrow> register (Some x) t = (h, t') \<Longrightarrow> inv t'"
    and register_fresh: "inv t \<Longrightarrow> room t \<Longrightarrow> register (Some x) t = (h, t') \<Longrightarrow> lookup t h = None"
    and register_range: "inv t \<Longrightarrow> room t \<Longrightarrow> register (Some x) t = (h, t')
          \<Longrightarrow> h \<notin> {0, 1, 2, kInvalidHandle}"
    and lookup_register: "inv t \<Longrightarrow> room t \<Longrightarrow> register (Some x) t = (h, t')
          \<Longrightarrow> lookup t' j = (if j = h then Some x else lookup t j)"
    and close_inv: "inv t \<Longrightarrow> inv (snd (close h t))"
    and close_result: "inv t \<Longrightarrow> fst (close h t) \<longleftrightarrow> lookup t h \<noteq> None"
    and lookup_close: "inv t \<Longrightarrow> lookup (snd (close h t)) j = (if j = h then None else lookup t j)"
begin

lemma register_then_close:
  assumes "inv t" and "room t" and "register (Some x) t = (h, t')"
  shows "fst (close h t')" and "lookup (snd (close h t')) j = lookup t j"
proof -
  have i: "inv t'" using assms by (rule register_inv)
  show "fst (close h t')" using assms i by (simp add: close_result lookup_register)
  show "lookup (snd (close h t')) j = lookup t j"
    using assms i by (simp add: lookup_close lookup_register register_fresh)
qed

lemma close_twice_fails:
  assumes "inv t"
  shows "\<not> fst (close h (snd (close h t)))"
  using assms by (simp add: close_result close_inv lookup_close)

lemma register_keeps:
  assumes "inv t" and "room t" and "register (Some x) t = (h, t')" and "lookup t j = Some y"
  shows "lookup t' j = Some y"
proof -
  from register_fresh [OF assms(1-3)] assms(4) have "j \<noteq> h" by auto
  with assms show ?thesis by (simp add: lookup_register)
qed

end

definition handle_inv :: "'o HandleTable \<Rightarrow> bool" where
  "handle_inv t \<longleftrightarrow> um_ok (h_objects t) \<and> 3 \<le> unat (h_next t) \<and> unat (h_next t) < 2 ^ 31
     \<and> (\<forall>k. um_find (h_objects t) k \<noteq> None \<longrightarrow> 3 \<le> unat k \<and> unat k < unat (h_next t))"

definition handle_room :: "'o HandleTable \<Rightarrow> bool" where
  "handle_room t \<longleftrightarrow> unat (h_next t) + 1 < 2 ^ 31"

lemma unat_next_handle:
  assumes "handle_room t"
  shows "unat (h_next t + 1) = unat (h_next t) + 1"
  using assms by (subst unat_add_no_wrap) (simp_all add: handle_room_def)

lemma registerObject_fresh:
  assumes "handle_inv t" shows "um_find (h_objects t) (h_next t) = None"
  using assms by (force simp: handle_inv_def)

lemma registerObject_inv:
  assumes "handle_inv t" and "handle_room t" and "registerObject (Some x) t = (h, t')"
  shows "handle_inv t'"
proof -
  have t': "t' = t\<lparr>h_next := h_next t + 1, h_objects := um_emplace (h_next t) x (h_objects t)\<rparr>"
    using assms(3) by (auto simp: registerObject_def)
  have n: "unat (h_next t + 1) = Suc (unat (h_next t))"
    using unat_next_handle [OF assms(2)] by simp
  show ?thesis
    using assms(1,2)
    by (auto simp: t' handle_inv_def um_simps um_oks n handle_room_def less_Suc_eq split: if_splits)
qed

interpretation handles: handle_registry handle_inv handle_room
  registerObject HandleTable_get HandleTable_close
proof unfold_locales
  fix t t' :: "'o HandleTable" and x :: 'o and h j :: Handle
  show "handle_inv t \<Longrightarrow> handle_room t \<Longrightarrow> registerObject (Some x) t = (h, t') \<Longrightarrow> handle_inv t'"
    by (rule registerObject_inv)
  show "handle_inv t \<Longrightarrow> handle_room t \<Longrightarrow> registerObject (Some x) t = (h, t')
      \<Longrightarrow> HandleTable_get t h = None"
    by (auto simp: registerObject_def HandleTable_get_def registerObject_fresh)
  show "handle_inv t \<Longrightarrow> handle_room t \<Longrightarrow> registerObject (Some x) t = (h, t')
      \<Longrightarrow> h \<notin> {0, 1, 2, kInvalidHandle}"
    by (auto simp: registerObject_def handle_inv_def handle_room_def kInvalidHandle_def
        unsigned_minus_1_eq_mask mask_eq_exp_minus_1)
  show "handle_inv t \<Longrightarrow> handle_room t \<Longrightarrow> registerObject (Some x) t = (h, t')
      \<Longrightarrow> HandleTable_get t' j = (if j = h then Some x else HandleTable_get t j)"
    by (auto simp: registerObject_def HandleTable_get_def um_simps registerObject_fresh)
  show "handle_inv t \<Longrightarrow> handle_inv (snd (HandleTable_close h t))"
    by (auto simp: HandleTable_close_def handle_inv_def um_simps um_oks split: option.splits)
  show "handle_inv t \<Longrightarrow> fst (HandleTable_close h t) \<longleftrightarrow> HandleTable_get t h \<noteq> None"
    by (auto simp: HandleTable_close_def HandleTable_get_def split: option.splits)
  show "handle_inv t \<Longrightarrow> HandleTable_get (snd (HandleTable_close h t)) j
      = (if j = h then None else HandleTable_get t j)"
    by (auto simp: HandleTable_close_def HandleTable_get_def um_simps split: option.splits)
qed

lemma handle_inv_new: "handle_inv HandleTable_new"
  by (simp add: handle_inv_def HandleTable_new_def um_oks um_simps)

lemma handle_inv_closeAll: "handle_inv (HandleTable_closeAll t)"
  by (simp add: handle_inv_def HandleTable_closeAll_def um_oks um_simps)

section \<open>Sequences of table operations\<close>

datatype 'o handle_op = OpRegister "'o option" | OpClose Handle | OpCloseAll

fun handle_step :: "'o HandleTable \<Rightarrow> 'o handle_op \<Rightarrow> 'o HandleTable" where
  "handle_step t (OpRegister x) = snd (registerObject x t)"
| "handle_step t (OpClose h) = snd (HandleTable_close h t)"
| "handle_step t OpCloseAll = HandleTable_closeAll t"

lemma handle_step_next:
  "handle_inv t \<Longrightarrow> handle_room t \<Longrightarrow> unat (h_next (handle_step t q)) \<le> unat (h_next t) + 1"
proof (cases q)
  case (OpRegister x)
  then show "handle_inv t \<Longrightarrow> handle_room t \<Longrightarrow> ?thesis"
    by (cases x) (simp_all add: registerObject_def unat_next_handle)
qed (auto simp: HandleTable_close_def HandleTable_closeAll_def handle_inv_def split: option.splits)

lemma handle_step_inv:
  assumes "handle_inv t" and "handle_room t" shows "handle_inv (handle_step t q)"
proof (cases q)
  case (OpRegister x)
  with assms show ?thesis
  proof (cases x)
    case (Some y)
    have "registerObject (Some y) t
        = (fst (registerObject (Some y) t), snd (registerObject (Some y) t))" by simp
    with assms have "handle_inv (snd (registerObject (Some y) t))" by (rule registerObject_inv)
    with OpRegister Some show ?thesis by simp
  qed (simp add: registerObject_def)
qed (simp_all add: assms handles.close_inv handle_inv_closeAll)

lemma handle_run_inv:
  assumes "handle_inv t" and "unat (h_next t) + length qs < 2 ^ 31"
  shows "handle_inv (foldl handle_step t qs)
    \<and> unat (h_next (foldl handle_step t qs)) \<le> unat (h_next t) + length qs"
  using assms
proof (induction qs arbitrary: t)
  case (Cons q qs)
  then have r: "handle_room t" by (simp add: handle_room_def)
  from handle_step_next [OF Cons.prems(1) r, of q] Cons.prems
  have "unat (h_next (handle_step t q)) + length qs < 2 ^ 31" by simp
  with Cons.IH [OF handle_step_inv [OF Cons.prems(1) r]]
    handle_step_next [OF Cons.prems(1) r, of q]
  show ?case by fastforce
qed simp

section \<open>Properties\<close>

text \<open>
  Handle discipline. After any sequence of fewer than \<open>2^31 - 4\<close> registrations, closes
  and close-alls, registering an object yields a handle that is neither a standard stream
  (0, 1, 2) nor the invalid handle and that named nothing before; looking it up gives that
  object, every other handle still gives what it gave, and closing it restores every lookup
  and cannot succeed twice.
\<close>

theorem handle_lifecycle:
  assumes "t = foldl handle_step HandleTable_new qs" and "length qs < 2 ^ 31 - 4"
    and "registerObject (Some x) t = (h, t')"
  shows "h \<notin> {0, 1, 2, kInvalidHandle} \<and> HandleTable_get t h = None
    \<and> (\<forall>j. HandleTable_get t' j = (if j = h then Some x else HandleTable_get t j))
    \<and> fst (HandleTable_close h t')
    \<and> (\<forall>j. HandleTable_get (snd (HandleTable_close h t')) j = HandleTable_get t j)
    \<and> \<not> fst (HandleTable_close h (snd (HandleTable_close h t')))"
proof -
  have run: "handle_inv t \<and> unat (h_next t) \<le> 3 + length qs"
    using handle_run_inv [OF handle_inv_new, of qs] assms(1,2)
    by (simp add: HandleTable_new_def)
  then have i: "handle_inv t" and r: "handle_room t"
    using assms(2) by (simp_all add: handle_room_def)
  have i': "handle_inv t'" using i r assms(3) by (rule registerObject_inv)
  show ?thesis
    using handles.register_range [OF i r assms(3)] handles.register_fresh [OF i r assms(3)]
      handles.lookup_register [OF i r assms(3)] handles.register_then_close [OF i r assms(3)]
      handles.close_twice_fails [OF i']
    by blast
qed

theorem handle_lifecycle_witness:
  "HandleTable_get (snd (registerObject (Some ''b'') (foldl handle_step HandleTable_new
      [OpRegister (Some ''a''), OpClose 3, OpRegister None]))) 4 = Some ''b''
   \<and> (4 :: Handle) \<notin> {0, 1, 2, kInvalidHandle}"
proof -
  let ?qs = "[OpRegister (Some ''a''), OpClose 3, OpRegister None]"
  let ?t = "foldl handle_step HandleTable_new ?qs"
  have r: "registerObject (Some ''b'') ?t = (4, snd (registerObject (Some ''b'') ?t))"
    by (simp add: registerObject_def HandleTable_new_def HandleTable_close_def um_find_def
        um_emplace_def um_erase_def)
  show ?thesis using handle_lifecycle [OF refl _ r] by simp
qed

section \<open>Event objects refine a set of pending identifiers\<close>

datatype event_op = OpSignal u64 | OpClear u64

fun event_step :: "EventHandle \<Rightarrow> event_op \<Rightarrow> EventHandle" where
  "event_step e (OpSignal i) = EventHandle_signal i e"
| "event_step e (OpClear i) = EventHandle_clear i e"

text \<open>The abstract object: the set of signalled identifiers, which the code keeps modulo 64.\<close>

fun pending_step :: "nat set \<Rightarrow> event_op \<Rightarrow> nat set" where
  "pending_step P (OpSignal i) = insert (unat i mod 64) P"
| "pending_step P (OpClear i) = P - {unat i mod 64}"

definition event_abs :: "EventHandle \<Rightarrow> nat set" where
  "event_abs e = {n. bit (ev_signaled e) n}"

definition event_inv :: "EventHandle \<Rightarrow> bool" where
  "event_inv e \<longleftrightarrow> (ev_hasAny e \<longleftrightarrow> ev_signaled e \<noteq> 0)"

lemma unat_and_63: "unat (i AND 63) = unat i mod 64" for i :: u64
proof -
  have "i AND 63 = take_bit 6 i" by (simp add: take_bit_eq_mask mask_eq_exp_minus_1)
  then show ?thesis by (simp only: take_bit_eq_mod) (simp add: unat_mod)
qed

lemma bit_event_bit: "bit (event_bit i) n \<longleftrightarrow> n = unat i mod 64"
  by (auto simp: event_bit_def unat_and_63 bit_exp_iff possible_bit_def)

lemma event_step_abs: "event_abs (event_step e q) = pending_step (event_abs e) q"
  by (cases q) (auto simp: event_abs_def EventHandle_signal_def EventHandle_clear_def Let_def
      bit_or_iff bit_and_iff bit_not_iff bit_event_bit dest: bit_imp_le_length)

lemma event_bit_nonzero: "x OR event_bit i \<noteq> 0"
proof
  assume "x OR event_bit i = 0"
  then have "\<not> bit (x OR event_bit i) (unat i mod 64)" by simp
  then show False by (simp add: bit_or_iff bit_event_bit)
qed

lemma event_step_inv: "event_inv e \<Longrightarrow> event_inv (event_step e q)"
  by (cases q) (auto simp: event_inv_def EventHandle_signal_def EventHandle_clear_def Let_def
      event_bit_nonzero)

lemma word_eq_0_iff_bits: "x = 0 \<longleftrightarrow> (\<forall>n. \<not> bit x n)" for x :: "'w::len word"
  by (auto intro: bit_word_eqI)

lemma event_pred_abs:
  assumes "event_inv e"
  shows "event_pred j e \<longleftrightarrow> unat j mod 64 \<in> event_abs e"
proof -
  have "ev_signaled e AND event_bit j \<noteq> 0 \<longleftrightarrow> bit (ev_signaled e) (unat j mod 64)"
    by (auto simp: word_eq_0_iff_bits bit_and_iff bit_event_bit)
  then show ?thesis
    using assms by (auto simp: event_pred_def event_abs_def event_inv_def)
qed

lemma event_run:
  "event_inv e \<Longrightarrow> event_inv (foldl event_step e qs)
     \<and> event_abs (foldl event_step e qs) = foldl pending_step (event_abs e) qs"
  by (induction qs arbitrary: e) (simp_all add: event_step_inv event_step_abs)

text \<open>
  An event object is a set of pending identifiers modulo 64. For every sequence of
  signals and clears from a new object, a wait without blocking on an identifier succeeds
  exactly if that identifier, modulo 64, is in the set those operations leave; a wait without
  a timeout returns under the same condition and otherwise goes on. Identifiers that differ by
  a multiple of 64 share one bit.
\<close>

theorem event_wait_refines_set:
  "EventHandle_wait j 0 (foldl event_step EventHandle_new qs)
     = Some (unat j mod 64 \<in> foldl pending_step {} qs)
   \<and> EventHandle_wait j (-1) (foldl event_step EventHandle_new qs)
     = (if unat j mod 64 \<in> foldl pending_step {} qs then Some True else None)"
proof -
  have i: "event_inv EventHandle_new" and a: "event_abs EventHandle_new = {}"
    by (simp_all add: event_inv_def event_abs_def EventHandle_new_def)
  show ?thesis using event_run [OF i, of qs] a by (simp add: EventHandle_wait_def event_pred_abs)
qed

end
