(* ===== verification/Threads.thy ===== *)
theory Threads
  imports Prelude
begin

text \<open>
  \<^verbatim>\<open>runtime/thread/ThreadObject.cpp\<close> and \<^verbatim>\<open>ThreadManager.cpp\<close>. \<open>t_pthread\<close> is the native
  thread behind the object: not created, held at the suspension gate of \<^verbatim>\<open>runEntry\<close>, inside
  the entry function, or ended. \<open>t_starting\<close> marks a \<^verbatim>\<open>start()\<close> between \<^verbatim>\<open>pthread_create\<close> and
  its store to \<^verbatim>\<open>m_state\<close>.
\<close>

section \<open>Thread objects\<close>

type_synonym ThreadId = u32

datatype ThreadState = ThCreated | ThRunning | ThSuspended | ThExited

datatype Pthread = NoPthread | AtGate | InEntry | Ended

record ThreadObject =
  t_id :: ThreadId
  t_name :: string
  t_state :: ThreadState
  t_exitRequested :: bool
  t_suspended :: bool
  t_pthread :: Pthread
  t_starting :: bool

definition ThreadObject_new :: "ThreadId \<Rightarrow> string \<Rightarrow> ThreadObject" where
  "ThreadObject_new tid name =
     \<lparr>t_id = tid, t_name = name, t_state = ThCreated, t_exitRequested = False,
      t_suspended = False, t_pthread = NoPthread, t_starting = False\<rparr>"

text \<open>
  \<^verbatim>\<open>start()\<close> in its two atomic parts: the guard and \<^verbatim>\<open>pthread_create\<close> (whose return code is
  the argument), then the store that publishes \<^verbatim>\<open>Running\<close>.
\<close>

definition start_create :: "int \<Rightarrow> ThreadObject \<Rightarrow> bool \<times> ThreadObject" where
  "start_create rc t =
     (if t_state t \<noteq> ThCreated then (False, t)
      else if rc \<noteq> 0 then (False, t)
      else (True, t\<lparr>t_pthread := AtGate, t_starting := True\<rparr>))"

definition start_publish :: "ThreadObject \<Rightarrow> ThreadObject" where
  "start_publish t = t\<lparr>t_starting := False, t_state := ThRunning\<rparr>"

definition ThreadObject_start :: "int \<Rightarrow> ThreadObject \<Rightarrow> bool \<times> ThreadObject" where
  "ThreadObject_start rc t =
     (case start_create rc t of
        (True, t') \<Rightarrow> (True, start_publish t')
      | (False, t') \<Rightarrow> (False, t'))"

definition ThreadObject_suspend :: "ThreadObject \<Rightarrow> ThreadObject" where
  "ThreadObject_suspend t = t\<lparr>t_suspended := True, t_state := ThSuspended\<rparr>"

definition ThreadObject_resume :: "ThreadObject \<Rightarrow> ThreadObject" where
  "ThreadObject_resume t =
     (let t1 = t\<lparr>t_suspended := False\<rparr>
      in if t_state t1 = ThSuspended then t1\<lparr>t_state := ThRunning\<rparr> else t1)"

definition ThreadObject_requestExit :: "ThreadObject \<Rightarrow> ThreadObject" where
  "ThreadObject_requestExit t = ThreadObject_resume (t\<lparr>t_exitRequested := True\<rparr>)"

text \<open>
  \<^verbatim>\<open>runEntry\<close> on the native thread: \<open>None\<close> while \<^verbatim>\<open>waitWhileSuspended\<close> blocks; past the gate
  the entry runs unless an exit was requested; at the end the state becomes \<^verbatim>\<open>Exited\<close>
  (exceptions of the entry are caught, so it always gets there).
\<close>

definition runEntry_gate :: "ThreadObject \<Rightarrow> ThreadObject option" where
  "runEntry_gate t =
     (if t_suspended t then None
      else if \<not> t_exitRequested t then Some (t\<lparr>t_pthread := InEntry\<rparr>)
      else Some (t\<lparr>t_pthread := Ended, t_state := ThExited\<rparr>))"

definition runEntry_finish :: "ThreadObject \<Rightarrow> ThreadObject" where
  "runEntry_finish t = t\<lparr>t_pthread := Ended, t_state := ThExited\<rparr>"

text \<open>
  \<^verbatim>\<open>join()\<close>: \<open>UB\<close> when the guard passes although no native thread exists, as
  \<^verbatim>\<open>pthread_join\<close> then gets an uninitialised handle; \<open>Val False\<close> while it blocks.
\<close>

definition ThreadObject_join :: "ThreadObject \<Rightarrow> bool cpp" where
  "ThreadObject_join t =
     (if t_state t = ThCreated then Val True
      else if t_pthread t = NoPthread then UB
      else Val (t_pthread t = Ended))"

section \<open>The thread manager\<close>

record ThreadManager =
  tm_next :: ThreadId
  tm_threads :: "(ThreadId, ThreadObject) umap"

definition ThreadManager_new :: ThreadManager where
  "ThreadManager_new = \<lparr>tm_next = 1, tm_threads = []\<rparr>"

definition ThreadManager_create :: "string \<Rightarrow> ThreadManager \<Rightarrow> ThreadId \<times> ThreadManager" where
  "ThreadManager_create name m =
     (tm_next m, m\<lparr>tm_next := tm_next m + 1,
                   tm_threads := um_emplace (tm_next m) (ThreadObject_new (tm_next m) name)
                                   (tm_threads m)\<rparr>)"

definition ThreadManager_get :: "ThreadManager \<Rightarrow> ThreadId \<Rightarrow> ThreadObject option" where
  "ThreadManager_get m tid = um_find (tm_threads m) tid"

text \<open>Objects are shared by reference: an update of one is an assignment in the map.\<close>

definition thread_update ::
  "ThreadId \<Rightarrow> (ThreadObject \<Rightarrow> ThreadObject) \<Rightarrow> ThreadManager \<Rightarrow> ThreadManager" where
  "thread_update tid f m =
     (case ThreadManager_get m tid of
        None \<Rightarrow> m
      | Some t \<Rightarrow> m\<lparr>tm_threads := um_assign tid (f t) (tm_threads m)\<rparr>)"

definition ThreadManager_start :: "int \<Rightarrow> ThreadId \<Rightarrow> ThreadManager \<Rightarrow> bool \<times> ThreadManager" where
  "ThreadManager_start rc tid m =
     (case ThreadManager_get m tid of
        None \<Rightarrow> (False, m)
      | Some t \<Rightarrow> (fst (ThreadObject_start rc t),
                   thread_update tid (\<lambda>t. snd (ThreadObject_start rc t)) m))"

definition ThreadManager_requestExit :: "ThreadId \<Rightarrow> ThreadManager \<Rightarrow> ThreadManager" where
  "ThreadManager_requestExit tid m = thread_update tid ThreadObject_requestExit m"

definition ThreadManager_suspend :: "ThreadId \<Rightarrow> ThreadManager \<Rightarrow> ThreadManager" where
  "ThreadManager_suspend tid m = thread_update tid ThreadObject_suspend m"

definition ThreadManager_resume :: "ThreadId \<Rightarrow> ThreadManager \<Rightarrow> ThreadManager" where
  "ThreadManager_resume tid m = thread_update tid ThreadObject_resume m"

definition ThreadManager_snapshot :: "ThreadManager \<Rightarrow> ThreadObject list" where
  "ThreadManager_snapshot m = map snd (tm_threads m)"

text \<open>
  \<^verbatim>\<open>shutdownAll\<close>: request exit everywhere, then join in turn. \<open>finish\<close> is the object as the
  native thread leaves it once nothing suspends it; the join of a thread that was never
  created is \<open>UB\<close>.
\<close>

fun join_all :: "ThreadObject list \<Rightarrow> unit cpp" where
  "join_all [] = Val ()"
| "join_all (t # ts) =
     (if t_state t \<noteq> ThCreated \<and> t_pthread t = NoPthread then UB else join_all ts)"

definition ThreadManager_shutdownAll :: "ThreadManager \<Rightarrow> ThreadManager cpp" where
  "ThreadManager_shutdownAll m =
     (let threads = map ThreadObject_requestExit (ThreadManager_snapshot m)
      in cpp_bind (join_all threads) (\<lambda>_. Val (m\<lparr>tm_threads := []\<rparr>)))"

definition ThreadManager_aliveCount :: "ThreadManager \<Rightarrow> nat" where
  "ThreadManager_aliveCount m =
     length (filter (\<lambda>t. t_state t \<noteq> ThExited) (ThreadManager_snapshot m))"

section \<open>Interleavings\<close>

text \<open>
  One step of the runtime's callers or of the native thread; any order of the atomic parts
  is possible.
\<close>

inductive thread_step :: "ThreadObject \<Rightarrow> ThreadObject \<Rightarrow> bool" where
  create: "start_create 0 t = (True, t') \<Longrightarrow> \<not> t_starting t \<Longrightarrow> thread_step t t'"
| publish: "t_starting t \<Longrightarrow> thread_step t (start_publish t)"
| suspend: "thread_step t (ThreadObject_suspend t)"
| resume: "thread_step t (ThreadObject_resume t)"
| request_exit: "thread_step t (ThreadObject_requestExit t)"
| gate: "t_pthread t = AtGate \<Longrightarrow> runEntry_gate t = Some t' \<Longrightarrow> thread_step t t'"
| finish: "t_pthread t = InEntry \<Longrightarrow> thread_step t (runEntry_finish t)"

inductive thread_steps :: "ThreadObject \<Rightarrow> ThreadObject \<Rightarrow> bool" where
  refl: "thread_steps t t"
| step: "thread_steps t u \<Longrightarrow> thread_step u v \<Longrightarrow> thread_steps t v"

lemmas thread_ops = start_create_def start_publish_def ThreadObject_suspend_def
  ThreadObject_resume_def ThreadObject_requestExit_def runEntry_gate_def runEntry_finish_def Let_def

lemma no_entry_step:
  assumes "thread_step t u" and "t_exitRequested t" and "t_pthread t \<noteq> InEntry"
  shows "t_exitRequested u \<and> t_pthread u \<noteq> InEntry"
  using assms by (cases rule: thread_step.cases) (auto simp: thread_ops split: if_splits)

section \<open>Properties\<close>

text \<open>
  A thread asked to exit before it entered guest code never enters it: in every
  interleaving of starts, suspensions, resumptions, exit requests and native progress that
  follows the request, the native thread is never inside the entry function.
\<close>

theorem exit_requested_never_enters:
  assumes "t_pthread t \<noteq> InEntry" and "thread_steps (ThreadObject_requestExit t) u"
  shows "t_pthread u \<noteq> InEntry"
proof -
  have "t_exitRequested u \<and> t_pthread u \<noteq> InEntry"
    using assms(2)
  proof (induction "ThreadObject_requestExit t" u rule: thread_steps.induct)
    case refl
    then show ?case using assms(1) by (auto simp: thread_ops)
  next
    case (step u v)
    then show ?case using no_entry_step by blast
  qed
  then show ?thesis by simp
qed

theorem exit_requested_never_enters_witness:
  "t_pthread (snd (start_create 0 (ThreadObject_requestExit (ThreadObject_new 1 ''main'')))) \<noteq> InEntry"
  by (rule exit_requested_never_enters [of "ThreadObject_new 1 ''main''"])
    (auto simp: thread_ops ThreadObject_new_def
      intro!: thread_steps.step [OF thread_steps.refl] thread_step.create)

text \<open>
  Progress of the exit request: in whatever state, a request leaves the suspension gate
  open, so a native thread held there takes its next step to the end and the object reports
  \<^verbatim>\<open>Exited\<close>; the join then returns.
\<close>

theorem exit_request_releases_gate:
  assumes "t_pthread t = AtGate"
  shows "\<exists>u. runEntry_gate (ThreadObject_requestExit t) = Some u \<and> t_state u = ThExited
    \<and> ThreadObject_join u = Val True"
  using assms by (auto simp: thread_ops ThreadObject_join_def)

theorem exit_request_releases_gate_witness:
  "\<exists>u. runEntry_gate (ThreadObject_requestExit
         (ThreadObject_suspend (snd (ThreadObject_start 0 (ThreadObject_new 1 ''main''))))) = Some u
       \<and> t_state u = ThExited \<and> ThreadObject_join u = Val True"
  by (rule exit_request_releases_gate)
    (simp add: ThreadObject_start_def thread_ops ThreadObject_new_def)

text \<open>
  Suspending a thread that was not started yet loses it: \<^verbatim>\<open>suspend\<close> overwrites the state
  \<^verbatim>\<open>Created\<close>, so every later start fails, whatever resumptions come first, and after a
  resumption a join is undefined because it waits for a native thread that never existed.
\<close>

theorem suspend_before_start_loses_thread:
  "\<not> fst (ThreadObject_start rc (ThreadObject_suspend (ThreadObject_new tid name)))
   \<and> \<not> fst (ThreadObject_start rc (ThreadObject_resume
          (ThreadObject_suspend (ThreadObject_new tid name))))
   \<and> ThreadObject_join (ThreadObject_resume (ThreadObject_suspend (ThreadObject_new tid name))) = UB"
  by (simp add: ThreadObject_start_def ThreadObject_join_def thread_ops ThreadObject_new_def)

text \<open>
  \<^verbatim>\<open>start\<close> can overwrite \<^verbatim>\<open>Exited\<close>: there is an interleaving from a new thread in which
  the native thread has ended while the object reports \<^verbatim>\<open>Running\<close>, because the store of
  \<^verbatim>\<open>Running\<close> happens after \<^verbatim>\<open>pthread_create\<close> already let the thread run. From there
  no further progress of the native thread corrects the report.
\<close>

theorem start_race_reports_running:
  "\<exists>u. thread_steps (ThreadObject_new 1 ''main'') u \<and> t_pthread u = Ended \<and> t_state u = ThRunning
     \<and> \<not> t_starting u"
proof -
  let ?t0 = "ThreadObject_new 1 ''main''"
  let ?t1 = "?t0\<lparr>t_pthread := AtGate, t_starting := True\<rparr>"
  let ?t2 = "?t1\<lparr>t_pthread := InEntry\<rparr>"
  let ?t3 = "runEntry_finish ?t2"
  have "thread_step ?t0 ?t1"
    by (rule thread_step.create) (simp_all add: thread_ops ThreadObject_new_def)
  moreover have "thread_step ?t1 ?t2"
    by (rule thread_step.gate) (simp_all add: thread_ops ThreadObject_new_def)
  moreover have "thread_step ?t2 ?t3" by (rule thread_step.finish) simp
  moreover have "thread_step ?t3 (start_publish ?t3)"
    by (rule thread_step.publish) (simp add: runEntry_finish_def)
  ultimately have "thread_steps ?t0 (start_publish ?t3)"
    by (meson thread_steps.intros)
  then show ?thesis by (intro exI conjI) (assumption, simp_all add: thread_ops)
qed

end
