(* ===== verification/Dispatcher.thy ===== *)
theory Dispatcher
  imports Free_Bsd
begin

text \<open>
  \<^verbatim>\<open>syscall/SyscallContext.hpp\<close> and \<^verbatim>\<open>syscall/SyscallDispatcher.cpp\<close>: the register snapshot a
  handler works on, the table of handlers, and one dispatch. A handler maps a context and the
  state \<open>'p\<close> it works on to the updated context and state, or to an exception, or to
  undefined behaviour.
\<close>

section \<open>The context\<close>

record SyscallContext =
  ctx_number :: int
  ctx_args :: "u64 list"
  ctx_retval :: int
  ctx_isError :: bool
  ctx_process :: bool
  ctx_thread :: "u32 option"
  ctx_name :: string

definition SyscallContext_new :: "int \<Rightarrow> u64 list \<Rightarrow> SyscallContext" where
  "SyscallContext_new n as =
     \<lparr>ctx_number = n, ctx_args = as, ctx_retval = 0, ctx_isError = False,
      ctx_process = False, ctx_thread = None, ctx_name = ''unknown''\<rparr>"

definition ctx_arg :: "SyscallContext \<Rightarrow> int \<Rightarrow> u64" where
  "ctx_arg ctx i = (if 0 \<le> i \<and> i < 6 then ctx_args ctx ! nat i else 0)"

definition ctx_ok :: "int \<Rightarrow> SyscallContext \<Rightarrow> SyscallContext" where
  "ctx_ok v ctx = ctx\<lparr>ctx_retval := v, ctx_isError := False\<rparr>"

definition ctx_fail :: "int \<Rightarrow> SyscallContext \<Rightarrow> SyscallContext" where
  "ctx_fail e ctx = ctx\<lparr>ctx_retval := e, ctx_isError := True\<rparr>"

section \<open>The dispatcher\<close>

datatype 'p handler_result = Returned SyscallContext 'p | Threw SyscallContext 'p

type_synonym 'p SyscallHandler = "SyscallContext \<Rightarrow> 'p \<Rightarrow> 'p handler_result cpp"

record 'p Entry =
  entry_name :: string
  entry_handler :: "'p SyscallHandler"

record 'p SyscallDispatcher =
  m_handlers :: "(int, 'p Entry) umap"
  m_callCounts :: "(int, u64) umap"

definition SyscallDispatcher_new :: "'p SyscallDispatcher" where
  "SyscallDispatcher_new = \<lparr>m_handlers = [], m_callCounts = []\<rparr>"

definition registerHandler ::
  "int \<Rightarrow> string \<Rightarrow> 'p SyscallHandler option \<Rightarrow> 'p SyscallDispatcher \<Rightarrow> 'p SyscallDispatcher" where
  "registerHandler n name handler d =
     (case handler of
        None \<Rightarrow> d
      | Some h \<Rightarrow> d\<lparr>m_handlers := um_assign n \<lparr>entry_name = name, entry_handler = h\<rparr> (m_handlers d)\<rparr>)"

definition hasHandler :: "'p SyscallDispatcher \<Rightarrow> int \<Rightarrow> bool" where
  "hasHandler d n \<longleftrightarrow> um_find (m_handlers d) n \<noteq> None"

definition call_count :: "'p SyscallDispatcher \<Rightarrow> int \<Rightarrow> u64" where
  "call_count d n = (case um_find (m_callCounts d) n of None \<Rightarrow> 0 | Some c \<Rightarrow> c)"

definition count_call :: "int \<Rightarrow> 'p SyscallDispatcher \<Rightarrow> 'p SyscallDispatcher" where
  "count_call n d = d\<lparr>m_callCounts := um_assign n (call_count d n + 1) (m_callCounts d)\<rparr>"

definition catch_handler :: "'p handler_result \<Rightarrow> SyscallContext \<times> 'p" where
  "catch_handler r =
     (case r of
        Returned ctx p \<Rightarrow> (ctx, p)
      | Threw ctx p \<Rightarrow> (ctx_fail (errno_value kEinval) ctx, p))"

definition dispatch ::
  "'p SyscallDispatcher \<Rightarrow> SyscallContext \<Rightarrow> 'p
     \<Rightarrow> (SyscallContext \<times> 'p \<times> 'p SyscallDispatcher) cpp" where
  "dispatch d ctx p =
     (case um_find (m_handlers d) (ctx_number ctx) of
        None \<Rightarrow>
          Val ((ctx_fail (errno_value kEnosys) ctx)\<lparr>ctx_name := ''unimplemented''\<rparr>, p, d)
      | Some entry \<Rightarrow>
          (let d' = count_call (ctx_number ctx) d;
               ctx' = ctx\<lparr>ctx_name := entry_name entry\<rparr>
           in cpp_bind (entry_handler entry ctx' p)
                (\<lambda>r. case catch_handler r of (ctx'', p') \<Rightarrow> Val (ctx'', p', d'))))"

definition handlerCount :: "'p SyscallDispatcher \<Rightarrow> nat" where
  "handlerCount d = length (m_handlers d)"

definition registeredNumbers :: "'p SyscallDispatcher \<Rightarrow> int list" where
  "registeredNumbers d = map fst (m_handlers d)"

text \<open>A run of the dispatcher: the contexts served in turn, and their results.\<close>

fun dispatch_all ::
  "'p SyscallDispatcher \<Rightarrow> SyscallContext list \<Rightarrow> 'p
     \<Rightarrow> (SyscallContext list \<times> 'p \<times> 'p SyscallDispatcher) cpp" where
  "dispatch_all d [] p = Val ([], p, d)"
| "dispatch_all d (ctx # ctxs) p =
     cpp_bind (dispatch d ctx p) (\<lambda>(ctx', p', d').
       cpp_bind (dispatch_all d' ctxs p') (\<lambda>(ctxs', p'', d''). Val (ctx' # ctxs', p'', d'')))"

section \<open>Lemmas\<close>

lemma ctx_fail_simps [simp]:
  "ctx_retval (ctx_fail e ctx) = e" "ctx_isError (ctx_fail e ctx)"
  "ctx_retval (ctx_ok v ctx) = v" "\<not> ctx_isError (ctx_ok v ctx)"
  "ctx_number (ctx_fail e ctx) = ctx_number ctx" "ctx_number (ctx_ok v ctx) = ctx_number ctx"
  by (simp_all add: ctx_fail_def ctx_ok_def)

lemma m_handlers_count_call [simp]: "m_handlers (count_call n d) = m_handlers d"
  by (simp add: count_call_def)

lemma call_count_count_call:
  "call_count (count_call n d) m = (if m = n then call_count d n + 1 else call_count d m)"
  by (simp add: count_call_def call_count_def um_simps)

lemma dispatch_ValE:
  assumes "dispatch d ctx p = Val (ctx', p', d')"
  obtains (unknown) "um_find (m_handlers d) (ctx_number ctx) = None"
      "ctx' = (ctx_fail (errno_value kEnosys) ctx)\<lparr>ctx_name := ''unimplemented''\<rparr>" "p' = p" "d' = d"
  | (known) e r where "um_find (m_handlers d) (ctx_number ctx) = Some e"
      "entry_handler e (ctx\<lparr>ctx_name := entry_name e\<rparr>) p = Val r"
      "catch_handler r = (ctx', p')" "d' = count_call (ctx_number ctx) d"
  using assms
  by (auto simp: dispatch_def Let_def cpp_bind_eq_Val_iff prod.case_eq_if prod_eq_iff
      split: option.splits)

lemma dispatch_keeps_handlers:
  "dispatch d ctx p = Val (ctx', p', d') \<Longrightarrow> m_handlers d' = m_handlers d"
  by (auto elim!: dispatch_ValE)

lemma dispatch_call_count:
  assumes "dispatch d ctx p = Val (ctx', p', d')"
  shows "call_count d' n =
           (if ctx_number ctx = n \<and> hasHandler d n then call_count d n + 1 else call_count d n)"
  using assms by (rule dispatch_ValE) (auto simp: hasHandler_def call_count_count_call)

lemma registerHandler_find:
  "um_find (m_handlers (registerHandler n name h d)) m =
     (case h of
        None \<Rightarrow> um_find (m_handlers d) m
      | Some f \<Rightarrow> if m = n then Some \<lparr>entry_name = name, entry_handler = f\<rparr>
                  else um_find (m_handlers d) m)"
  by (simp add: registerHandler_def um_simps split: option.splits)

text \<open>The registration that a sequence of calls leaves in force for a number.\<close>

type_synonym 'p registration = "int \<times> string \<times> 'p SyscallHandler option"

definition register_one :: "'p registration \<Rightarrow> 'p SyscallDispatcher \<Rightarrow> 'p SyscallDispatcher" where
  "register_one r d = (case r of (n, name, h) \<Rightarrow> registerHandler n name h d)"

definition effective :: "'p registration list \<Rightarrow> int \<Rightarrow> ('p registration) list" where
  "effective rs n = filter (\<lambda>(m, name, h). m = n \<and> h \<noteq> None) rs"

lemma fold_register_find:
  "um_find (m_handlers (fold register_one rs d)) n =
     (if effective rs n = [] then um_find (m_handlers d) n
      else (case last (effective rs n) of
              (m, name, h) \<Rightarrow> Some \<lparr>entry_name = name, entry_handler = the h\<rparr>))"
proof (induction rs rule: rev_induct)
  case Nil
  then show ?case by (simp add: effective_def)
next
  case (snoc r rs)
  obtain m name h where r: "r = (m, name, h)" by (cases r) auto
  show ?case
    using snoc
    by (auto simp: r register_one_def registerHandler_find effective_def split: option.splits)
qed

section \<open>Properties\<close>

text \<open>
  Which handler runs: after any sequence of \<^verbatim>\<open>registerHandler\<close> calls on a fresh dispatcher,
  a dispatch of a number runs the handler of the last non-null registration of that number
  under its name, an exception of that handler becomes EINVAL, and a number with no non-null
  registration is answered with ENOSYS without touching the state.
\<close>

theorem dispatch_runs_last_registration:
  fixes rs :: "'p registration list" and ctx :: SyscallContext and p :: 'p
  defines "d \<equiv> fold register_one rs SyscallDispatcher_new"
  shows "if effective rs (ctx_number ctx) = []
         then \<exists>ctx'. dispatch d ctx p = Val (ctx', p, d)
                \<and> ctx_isError ctx' \<and> ctx_retval ctx' = errno_value kEnosys
         else \<exists>name h. last (effective rs (ctx_number ctx)) = (ctx_number ctx, name, Some h)
                \<and> dispatch d ctx p =
                    cpp_bind (h (ctx\<lparr>ctx_name := name\<rparr>) p)
                      (\<lambda>r. case r of
                         Returned ctx' p' \<Rightarrow> Val (ctx', p', count_call (ctx_number ctx) d)
                       | Threw ctx' p' \<Rightarrow>
                           Val (ctx_fail (errno_value kEinval) ctx', p', count_call (ctx_number ctx) d))"
proof (cases "effective rs (ctx_number ctx) = []")
  case True
  then have "um_find (m_handlers d) (ctx_number ctx) = None"
    by (simp add: d_def fold_register_find SyscallDispatcher_new_def um_simps)
  with True show ?thesis by (simp add: dispatch_def)
next
  case False
  obtain n name h where l: "last (effective rs (ctx_number ctx)) = (n, name, h)"
    by (cases "last (effective rs (ctx_number ctx))") auto
  have "last (effective rs (ctx_number ctx)) \<in> set (effective rs (ctx_number ctx))"
    using False by simp
  then have n: "n = ctx_number ctx" and "h \<noteq> None"
    unfolding l by (auto simp: effective_def)
  then obtain f where f: "h = Some f" by blast
  have "um_find (m_handlers d) (ctx_number ctx) = Some \<lparr>entry_name = name, entry_handler = f\<rparr>"
    using False by (simp add: d_def fold_register_find l f)
  then have "dispatch d ctx p =
      cpp_bind (f (ctx\<lparr>ctx_name := name\<rparr>) p)
        (\<lambda>r. case r of
           Returned ctx' p' \<Rightarrow> Val (ctx', p', count_call (ctx_number ctx) d)
         | Threw ctx' p' \<Rightarrow>
             Val (ctx_fail (errno_value kEinval) ctx', p', count_call (ctx_number ctx) d))"
    by (simp add: dispatch_def catch_handler_def Let_def handler_result.case_distrib
        cong: handler_result.case_cong)
  with False show ?thesis by (simp add: l n f)
qed

text \<open>
  Call accounting: over any run of dispatches that returns, the counter of a number with a
  handler grows by the number of contexts with that number (modulo \<^verbatim>\<open>2^64\<close>), the counter of
  every other number stays, and the handler table is unchanged.
\<close>

theorem dispatch_all_counts:
  assumes "dispatch_all d ctxs p = Val (ctxs', p', d')"
  shows "m_handlers d' = m_handlers d \<and> length ctxs' = length ctxs
         \<and> call_count d' n =
             (if hasHandler d n
              then call_count d n + of_nat (length (filter (\<lambda>c. ctx_number c = n) ctxs))
              else call_count d n)"
  using assms
proof (induction ctxs arbitrary: d p ctxs' p' d')
  case Nil
  then show ?case by simp
next
  case (Cons ctx ctxs)
  from Cons.prems obtain c1 p1 d1 cs2 p2 d2 where
    1: "dispatch d ctx p = Val (c1, p1, d1)" and
    2: "dispatch_all d1 ctxs p1 = Val (cs2, p2, d2)" and
    eq: "ctxs' = c1 # cs2" "p' = p2" "d' = d2"
    by (auto simp: cpp_bind_eq_Val_iff)
  have h: "m_handlers d1 = m_handlers d" by (rule dispatch_keeps_handlers [OF 1])
  show ?case
    using Cons.IH [OF 2] dispatch_call_count [OF 1, of n] h
    by (auto simp: eq hasHandler_def)
qed

theorem dispatch_all_counts_witness:
  "\<exists>ctxs' p' d'.
     dispatch_all (registerHandler 20 ''getpid'' (Some (\<lambda>c p. Val (Returned (ctx_ok 7 c) p)))
                     SyscallDispatcher_new)
       [SyscallContext_new 20 [], SyscallContext_new 21 [], SyscallContext_new 20 []] ()
       = Val (ctxs', p', d')
     \<and> call_count d' 20 = 2 \<and> call_count d' 21 = 0"
proof -
  let ?d = "registerHandler 20 ''getpid'' (Some (\<lambda>c p. Val (Returned (ctx_ok 7 c) p)))
              SyscallDispatcher_new :: unit SyscallDispatcher"
  let ?cs = "[SyscallContext_new 20 [], SyscallContext_new 21 [], SyscallContext_new 20 []]"
  obtain ctxs' p' d' where r: "dispatch_all ?d ?cs () = Val (ctxs', p', d')"
    by (simp add: dispatch_def registerHandler_def SyscallDispatcher_new_def SyscallContext_new_def
        um_simps catch_handler_def cpp_bind_def Let_def)
  have h: "hasHandler ?d 20" "\<not> hasHandler ?d 21" "call_count ?d 20 = 0" "call_count ?d 21 = 0"
    by (simp_all add: hasHandler_def registerHandler_def SyscallDispatcher_new_def call_count_def
        um_simps)
  have "call_count d' 20 = 2"
    using dispatch_all_counts [OF r, of 20] h by (simp add: SyscallContext_new_def)
  moreover have "call_count d' 21 = 0"
    using dispatch_all_counts [OF r, of 21] h by simp
  ultimately show ?thesis using r by blast
qed

end
