(* ===== verification/Handlers.thy ===== *)
theory Handlers
  imports Guest_Memory Dispatcher Virtual_File_System Address_Space Handles Threads
begin

text \<open>
  \<^verbatim>\<open>syscall/handlers/Handlers.cpp\<close>: the system call handlers of the runtime, on a model of the
  guest process they serve (\<^verbatim>\<open>runtime/process/PS4Process\<close>: handle table, address space, mounts,
  threads). The Linux kernel underneath is a parameter \<open>host\<close> that answers one call at a time
  and may change the memory of the runtime process; every call made is kept in a trace.
\<close>

unbundle bit_operations_syntax

section \<open>The host kernel\<close>

record LinuxStat =
  ls_dev :: u64
  ls_ino :: u64
  ls_nlink :: u64
  ls_mode :: u32
  ls_uid :: u32
  ls_gid :: u32
  ls_rdev :: u64
  ls_atim :: "u64 \<times> u64"
  ls_mtim :: "u64 \<times> u64"
  ls_ctim :: "u64 \<times> u64"
  ls_size :: u64
  ls_blocks :: u64
  ls_blksize :: u64

datatype HostCall =
    HOpen string u32 u32
  | HClose int
  | HRead int u64 u64
  | HWrite int u64 u64
  | HLseek int u64 u32
  | HFstat int
  | HStat string
  | HMkdir string u32
  | HRmdir string
  | HUnlink string
  | HRename string string
  | HFsync int
  | HFtruncate int u64
  | HMunmap u64 u64
  | HMprotect u64 u64 u32
  | HSysconfPagesize
  | HGettimeofday
  | HSocket u32 u32 u32

record HostReply =
  hr_ret :: int
  hr_errno :: int
  hr_stat :: LinuxStat
  hr_time :: "u64 \<times> u64"

type_synonym 'w host = "'w \<Rightarrow> memory \<Rightarrow> HostCall \<Rightarrow> HostReply \<times> memory \<times> 'w"

section \<open>The process\<close>

datatype HandleObject =
    ObjFile FileHandle
  | ObjDirectory DirectoryHandle
  | ObjSocket SocketHandle
  | ObjEvent EventHandle

record 'w PS4Process =
  p_id :: u32
  p_handles :: "HandleObject HandleTable"
  p_space :: AddressSpace
  p_vfs :: FsPolicy
  p_threads :: ThreadManager
  p_mem :: memory
  p_world :: 'w
  p_trace :: "(HostCall \<times> HostReply) list"

definition host_call :: "'w host \<Rightarrow> HostCall \<Rightarrow> 'w PS4Process \<Rightarrow> HostReply \<times> 'w PS4Process" where
  "host_call host c p =
     (case host (p_world p) (p_mem p) c of
        (r, m, w) \<Rightarrow> (r, p\<lparr>p_mem := m, p_world := w, p_trace := p_trace p @ [(c, r)]\<rparr>))"

text \<open>
  The destructor of a handle object closes its descriptor. \<open>register_object\<close> is
  \<^verbatim>\<open>registerObject\<close> with the two cases that matter for the object: the signed counter must not
  overflow, and an object that \<^verbatim>\<open>emplace\<close> does not take is destroyed.
\<close>

definition object_hostFd :: "HandleObject \<Rightarrow> int option" where
  "object_hostFd obj =
     (case obj of
        ObjFile f \<Rightarrow> Some (fh_hostFd f)
      | ObjDirectory d \<Rightarrow> Some (dh_hostFd d)
      | ObjSocket s \<Rightarrow> Some (sh_hostFd s)
      | ObjEvent e \<Rightarrow> None)"

definition destroy_object :: "'w host \<Rightarrow> HandleObject \<Rightarrow> 'w PS4Process \<Rightarrow> 'w PS4Process" where
  "destroy_object host obj p =
     (case object_hostFd obj of
        None \<Rightarrow> p
      | Some fd \<Rightarrow> if 0 \<le> fd then snd (host_call host (HClose fd) p) else p)"

definition register_object ::
  "'w host \<Rightarrow> HandleObject \<Rightarrow> 'w PS4Process \<Rightarrow> (Handle \<times> 'w PS4Process) cpp" where
  "register_object host obj p =
     (let t = p_handles p; (h, t') = registerObject (Some obj) t; p' = p\<lparr>p_handles := t'\<rparr>
      in if h_next t = 0x7FFFFFFF then UB
         else if um_find (h_objects t) h = None then Val (h, p')
         else Val (h, destroy_object host obj p'))"

section \<open>Helpers\<close>

definition linux_errnos :: "(int \<times> Errno) list" where
  "linux_errnos =
     [(0, kOk), (1, kEperm), (2, kEnoent), (3, kEsrch), (4, kEintr), (5, kEio), (6, kEnxio),
      (9, kEbadf), (11, kEagain), (12, kEnomem), (13, kEacces), (14, kEfault), (16, kEbusy),
      (17, kEexists), (18, kExdev), (19, kEnodev), (20, kEnotdir), (21, kEisdir), (22, kEinval),
      (23, kEnfile), (24, kEmfile), (28, kEnospc), (29, kEspipe), (30, kErofs), (32, kEpipe),
      (34, kErange), (38, kEnosys), (36, kEnametoolong), (95, kEopnotsupp), (39, kEnotempty)]"

definition translateHostErrnoToFreeBsd :: "int \<Rightarrow> int" where
  "translateHostErrnoToFreeBsd e =
     (case map_of linux_errnos e of None \<Rightarrow> errno_value kEinval | Some x \<Rightarrow> errno_value x)"

fun read_string :: "memory \<Rightarrow> u64 \<Rightarrow> nat \<Rightarrow> string option cpp" where
  "read_string m a 0 = Val None"
| "read_string m a (Suc n) =
     (case m a of
        None \<Rightarrow> UB
      | Some b \<Rightarrow>
          if b = 0 then Val (Some [])
          else cpp_bind (read_string m (a + 1) n)
                 (\<lambda>r. Val (map_option (\<lambda>s. char_of (unat b) # s) r)))"

definition readGuestString :: "memory \<Rightarrow> u64 \<Rightarrow> string option cpp" where
  "readGuestString m guestAddr = (if guestAddr = 0 then Val None else read_string m guestAddr 4096)"

definition has_flag :: "u32 \<Rightarrow> u32 \<Rightarrow> bool" where
  "has_flag f x \<longleftrightarrow> f AND x \<noteq> 0"

definition convertOpenFlags :: "u32 \<Rightarrow> u32" where
  "convertOpenFlags f =
     (if f AND open_flag kO_AccMode = open_flag kO_WrOnly then 1
      else if f AND open_flag kO_AccMode = open_flag kO_RdWr then 2 else 0)
     OR (if has_flag f (open_flag kO_NonBlock) then 0x800 else 0)
     OR (if has_flag f (open_flag kO_Append) then 0x400 else 0)
     OR (if has_flag f (open_flag kO_Creat) then 0x40 else 0)
     OR (if has_flag f (open_flag kO_Trunc) then 0x200 else 0)
     OR (if has_flag f (open_flag kO_Excl) then 0x80 else 0)
     OR (if has_flag f (open_flag kO_CloExec) then 0x80000 else 0)
     OR (if has_flag f (open_flag kO_Directory) then 0x10000 else 0)"

text \<open>The guest's \<^verbatim>\<open>struct stat\<close>, 144 packed bytes, and its image in memory.\<close>

record Stat =
  st_dev :: u64
  st_ino :: u64
  st_nlink :: u64
  st_mode :: u16
  st_padding0 :: u16
  st_uid :: u32
  st_gid :: u32
  st_padding1 :: u32
  st_rdev :: u64
  st_atim :: "u64 \<times> u64"
  st_mtim :: "u64 \<times> u64"
  st_ctim :: "u64 \<times> u64"
  st_size :: u64
  st_blocks :: u64
  st_blksize :: u32
  st_flags :: u32
  st_gen :: u32
  st_lspare :: u32
  st_qspare :: "u64 \<times> u64"

definition fillStatFromLinux :: "LinuxStat \<Rightarrow> Stat" where
  "fillStatFromLinux src =
     \<lparr>st_dev = ls_dev src, st_ino = ls_ino src, st_nlink = ls_nlink src,
      st_mode = ucast (ls_mode src), st_padding0 = 0, st_uid = ls_uid src, st_gid = ls_gid src,
      st_padding1 = 0, st_rdev = ls_rdev src, st_atim = ls_atim src, st_mtim = ls_mtim src,
      st_ctim = ls_ctim src, st_size = ls_size src, st_blocks = ls_blocks src,
      st_blksize = ucast (ls_blksize src), st_flags = 0, st_gen = 0, st_lspare = 0,
      st_qspare = (0, 0)\<rparr>"

definition Stat_bytes :: "Stat \<Rightarrow> u8 list" where
  "Stat_bytes s =
     le_bytes 8 (st_dev s) @ le_bytes 8 (st_ino s) @ le_bytes 8 (st_nlink s)
     @ le_bytes 2 (st_mode s) @ le_bytes 2 (st_padding0 s)
     @ le_bytes 4 (st_uid s) @ le_bytes 4 (st_gid s) @ le_bytes 4 (st_padding1 s)
     @ le_bytes 8 (st_rdev s)
     @ le_bytes 8 (fst (st_atim s)) @ le_bytes 8 (snd (st_atim s))
     @ le_bytes 8 (fst (st_mtim s)) @ le_bytes 8 (snd (st_mtim s))
     @ le_bytes 8 (fst (st_ctim s)) @ le_bytes 8 (snd (st_ctim s))
     @ le_bytes 8 (st_size s) @ le_bytes 8 (st_blocks s)
     @ le_bytes 4 (st_blksize s) @ le_bytes 4 (st_flags s) @ le_bytes 4 (st_gen s)
     @ le_bytes 4 (st_lspare s)
     @ le_bytes 8 (fst (st_qspare s)) @ le_bytes 8 (snd (st_qspare s))"

definition put_bytes :: "u64 \<Rightarrow> u8 list \<Rightarrow> 'w PS4Process \<Rightarrow> 'w PS4Process cpp" where
  "put_bytes a bs p = cpp_bind (store_bytes a bs (p_mem p)) (\<lambda>m. Val (p\<lparr>p_mem := m\<rparr>))"

type_synonym 'w result = "(SyscallContext \<times> 'w PS4Process) cpp"

text \<open>The dereference of \<^verbatim>\<open>ctx.process\<close>, and the two shared shapes of error return.\<close>

definition deref :: "SyscallContext \<Rightarrow> 'w result \<Rightarrow> 'w result" where
  "deref ctx r = (if ctx_process ctx then r else UB)"

definition ok_result :: "int \<Rightarrow> SyscallContext \<Rightarrow> 'w PS4Process \<Rightarrow> 'w result" where
  "ok_result v ctx p = Val (ctx_ok v ctx, p)"

definition fail_result :: "Errno \<Rightarrow> SyscallContext \<Rightarrow> 'w PS4Process \<Rightarrow> 'w result" where
  "fail_result e ctx p = Val (ctx_fail (errno_value e) ctx, p)"

definition host_fail :: "HostReply \<Rightarrow> SyscallContext \<Rightarrow> 'w PS4Process \<Rightarrow> 'w result" where
  "host_fail r ctx p = Val (ctx_fail (translateHostErrnoToFreeBsd (hr_errno r)) ctx, p)"

text \<open>
  \<open>with_path\<close> is the prologue the path handlers share: read the string argument (EFAULT), then
  resolve it under the operation (the errno of \<^verbatim>\<open>resolve\<close>, or ENOENT).
\<close>

definition resolve_path ::
  "string \<Rightarrow> FsOp \<Rightarrow> SyscallContext \<Rightarrow> 'w PS4Process \<Rightarrow> (Translation \<Rightarrow> 'w result) \<Rightarrow> 'w result" where
  "resolve_path guestPath op ctx p k =
     cpp_bind (resolve (p_vfs p) guestPath op) (\<lambda>(tr, perr).
       if \<not> tr_ok tr
       then Val (ctx_fail (if perr \<noteq> 0 then perr else errno_value kEnoent) ctx, p)
       else k tr)"

definition with_path ::
  "FsOp \<Rightarrow> SyscallContext \<Rightarrow> 'w PS4Process \<Rightarrow> (Translation \<Rightarrow> 'w result) \<Rightarrow> 'w result" where
  "with_path op ctx p k =
     cpp_bind (readGuestString (p_mem p) (ctx_arg ctx 0)) (\<lambda>s.
       case s of
         None \<Rightarrow> fail_result kEfault ctx p
       | Some guestPath \<Rightarrow> resolve_path guestPath op ctx p k)"

definition arg_handle :: "SyscallContext \<Rightarrow> Handle" where
  "arg_handle ctx = ucast (ctx_arg ctx 0)"

definition file_of :: "HandleObject option \<Rightarrow> FileHandle option" where
  "file_of obj = (case obj of Some (ObjFile f) \<Rightarrow> Some f | _ \<Rightarrow> None)"

definition with_file ::
  "SyscallContext \<Rightarrow> 'w PS4Process \<Rightarrow> (FileHandle \<Rightarrow> 'w result) \<Rightarrow> 'w result" where
  "with_file ctx p k =
     (case file_of (HandleTable_get (p_handles p) (arg_handle ctx)) of
        None \<Rightarrow> fail_result kEbadf ctx p
      | Some fh \<Rightarrow> k fh)"

text \<open>A host call whose failure is a non-zero return, answered with 0 otherwise.\<close>

definition status_call ::
  "'w host \<Rightarrow> HostCall \<Rightarrow> SyscallContext \<Rightarrow> 'w PS4Process \<Rightarrow> 'w result" where
  "status_call host c ctx p =
     (case host_call host c p of
        (r, p') \<Rightarrow> if hr_ret r \<noteq> 0 then host_fail r ctx p' else ok_result 0 ctx p')"

text \<open>A host call whose failure is a negative return, answered with the return otherwise.\<close>

definition value_call ::
  "'w host \<Rightarrow> HostCall \<Rightarrow> SyscallContext \<Rightarrow> 'w PS4Process \<Rightarrow> 'w result" where
  "value_call host c ctx p =
     (case host_call host c p of
        (r, p') \<Rightarrow> if hr_ret r < 0 then host_fail r ctx p' else ok_result (hr_ret r) ctx p')"

section \<open>File system handlers\<close>

definition open_op :: "u32 \<Rightarrow> FsOp" where
  "open_op flags =
     (if has_flag flags (open_flag kO_Directory) then FsList
      else if has_flag flags (open_flag kO_Creat) then FsCreate
      else if flags AND open_flag kO_AccMode = open_flag kO_RdOnly then FsRead
      else FsWrite)"

definition open_object :: "u32 \<Rightarrow> int \<Rightarrow> Translation \<Rightarrow> HandleObject" where
  "open_object flags fd tr =
     (if has_flag flags (open_flag kO_Directory)
      then ObjDirectory \<lparr>dh_hostFd = fd, dh_guestPath = tr_guestPath tr, dh_hostPath = tr_hostPath tr\<rparr>
      else ObjFile \<lparr>fh_hostFd = fd, fh_guestPath = tr_guestPath tr, fh_hostPath = tr_hostPath tr,
                    fh_openFlags = flags\<rparr>)"

text \<open>The common tail of \<^verbatim>\<open>open\<close> and \<^verbatim>\<open>socket\<close>: make the call and register an object for its fd.\<close>

definition acquire ::
  "'w host \<Rightarrow> HostCall \<Rightarrow> (int \<Rightarrow> HandleObject) \<Rightarrow> SyscallContext \<Rightarrow> 'w PS4Process \<Rightarrow> 'w result" where
  "acquire host c mk ctx p =
     (case host_call host c p of
        (r, p1) \<Rightarrow>
          if hr_ret r < 0 then host_fail r ctx p1
          else cpp_bind (register_object host (mk (hr_ret r)) p1)
                 (\<lambda>(h, p2). ok_result (sint h) ctx p2))"

definition h_open :: "'w host \<Rightarrow> SyscallContext \<Rightarrow> 'w PS4Process \<Rightarrow> 'w result" where
  "h_open host ctx p = deref ctx
     (let flags = ucast (ctx_arg ctx 1) :: u32
      in with_path (open_op flags) ctx p (\<lambda>tr.
           acquire host
             (HOpen (tr_hostPath tr) (convertOpenFlags flags) (ucast (ctx_arg ctx 2) AND 0xFFF))
             (\<lambda>fd. open_object flags fd tr) ctx p))"

definition h_close :: "'w host \<Rightarrow> SyscallContext \<Rightarrow> 'w PS4Process \<Rightarrow> 'w result" where
  "h_close host ctx p = deref ctx
     (let h = arg_handle ctx
      in case HandleTable_get (p_handles p) h of
           None \<Rightarrow> fail_result kEbadf ctx p
         | Some obj \<Rightarrow>
             (case HandleTable_close h (p_handles p) of
                (closed, t) \<Rightarrow>
                  if \<not> closed then fail_result kEbadf ctx p
                  else ok_result 0 ctx (destroy_object host obj (p\<lparr>p_handles := t\<rparr>))))"

definition h_read :: "'w host \<Rightarrow> SyscallContext \<Rightarrow> 'w PS4Process \<Rightarrow> 'w result" where
  "h_read host ctx p = deref ctx
     (with_file ctx p (\<lambda>fh.
        if \<not> isReadable fh then fail_result kEbadf ctx p
        else value_call host (HRead (fh_hostFd fh) (ctx_arg ctx 1) (ctx_arg ctx 2)) ctx p))"

definition h_write :: "'w host \<Rightarrow> SyscallContext \<Rightarrow> 'w PS4Process \<Rightarrow> 'w result" where
  "h_write host ctx p = deref ctx
     (with_file ctx p (\<lambda>fh.
        if \<not> isWritable fh then fail_result kEbadf ctx p
        else value_call host (HWrite (fh_hostFd fh) (ctx_arg ctx 1) (ctx_arg ctx 2)) ctx p))"

definition h_lseek :: "'w host \<Rightarrow> SyscallContext \<Rightarrow> 'w PS4Process \<Rightarrow> 'w result" where
  "h_lseek host ctx p = deref ctx
     (with_file ctx p (\<lambda>fh.
        value_call host (HLseek (fh_hostFd fh) (ctx_arg ctx 1) (ucast (ctx_arg ctx 2))) ctx p))"

definition h_fstat :: "'w host \<Rightarrow> SyscallContext \<Rightarrow> 'w PS4Process \<Rightarrow> 'w result" where
  "h_fstat host ctx p = deref ctx
     (case HandleTable_get (p_handles p) (arg_handle ctx) of
        None \<Rightarrow> fail_result kEbadf ctx p
      | Some obj \<Rightarrow>
          (case object_hostFd obj of
             None \<Rightarrow> fail_result kEinval ctx p
           | Some fd \<Rightarrow>
               (case host_call host (HFstat fd) p of
                  (r, p1) \<Rightarrow>
                    if hr_ret r \<noteq> 0 then host_fail r ctx p1
                    else if ctx_arg ctx 1 = 0 then fail_result kEfault ctx p1
                    else cpp_bind (put_bytes (ctx_arg ctx 1)
                                     (Stat_bytes (fillStatFromLinux (hr_stat r))) p1)
                           (\<lambda>p2. ok_result 0 ctx p2))))"

definition h_stat :: "'w host \<Rightarrow> SyscallContext \<Rightarrow> 'w PS4Process \<Rightarrow> 'w result" where
  "h_stat host ctx p = deref ctx
     (with_path FsRead ctx p (\<lambda>tr.
        case host_call host (HStat (tr_hostPath tr)) p of
          (r, p1) \<Rightarrow>
            if hr_ret r \<noteq> 0 then host_fail r ctx p1
            else cpp_bind (put_bytes (ctx_arg ctx 1)
                             (Stat_bytes (fillStatFromLinux (hr_stat r))) p1)
                   (\<lambda>p2. ok_result 0 ctx p2)))"

definition h_mkdir :: "'w host \<Rightarrow> SyscallContext \<Rightarrow> 'w PS4Process \<Rightarrow> 'w result" where
  "h_mkdir host ctx p = deref ctx
     (with_path FsCreate ctx p (\<lambda>tr.
        status_call host (HMkdir (tr_hostPath tr) (ucast (ctx_arg ctx 1) AND 0xFFF)) ctx p))"

definition h_rmdir :: "'w host \<Rightarrow> SyscallContext \<Rightarrow> 'w PS4Process \<Rightarrow> 'w result" where
  "h_rmdir host ctx p = deref ctx
     (with_path FsDelete ctx p (\<lambda>tr. status_call host (HRmdir (tr_hostPath tr)) ctx p))"

definition h_unlink :: "'w host \<Rightarrow> SyscallContext \<Rightarrow> 'w PS4Process \<Rightarrow> 'w result" where
  "h_unlink host ctx p = deref ctx
     (with_path FsDelete ctx p (\<lambda>tr. status_call host (HUnlink (tr_hostPath tr)) ctx p))"

definition h_rename :: "'w host \<Rightarrow> SyscallContext \<Rightarrow> 'w PS4Process \<Rightarrow> 'w result" where
  "h_rename host ctx p = deref ctx
     (cpp_bind (readGuestString (p_mem p) (ctx_arg ctx 0)) (\<lambda>from.
        case from of
          None \<Rightarrow> fail_result kEfault ctx p
        | Some fromGuest \<Rightarrow>
            cpp_bind (readGuestString (p_mem p) (ctx_arg ctx 1)) (\<lambda>to.
              case to of
                None \<Rightarrow> fail_result kEfault ctx p
              | Some toGuest \<Rightarrow>
                  resolve_path fromGuest FsRename ctx p (\<lambda>trFrom.
                    resolve_path toGuest FsRename ctx p (\<lambda>trTo.
                      status_call host (HRename (tr_hostPath trFrom) (tr_hostPath trTo)) ctx p)))))"

definition h_fsync :: "'w host \<Rightarrow> SyscallContext \<Rightarrow> 'w PS4Process \<Rightarrow> 'w result" where
  "h_fsync host ctx p = deref ctx
     (with_file ctx p (\<lambda>fh. status_call host (HFsync (fh_hostFd fh)) ctx p))"

definition h_ftruncate :: "'w host \<Rightarrow> SyscallContext \<Rightarrow> 'w PS4Process \<Rightarrow> 'w result" where
  "h_ftruncate host ctx p = deref ctx
     (with_file ctx p (\<lambda>fh.
        status_call host (HFtruncate (fh_hostFd fh) (ctx_arg ctx 1)) ctx p))"

section \<open>Memory handlers\<close>

definition region_prot :: "u32 \<Rightarrow> RegionProt" where
  "region_prot prot =
     ProtNone OR (if has_flag prot (mman_flag kProtRead) then ProtRead else 0)
     OR (if has_flag prot (mman_flag kProtWrite) then ProtWrite else 0)
     OR (if has_flag prot (mman_flag kProtExec) then ProtExecute else 0)"

definition h_mmap :: "'w host \<Rightarrow> SyscallContext \<Rightarrow> 'w PS4Process \<Rightarrow> 'w result" where
  "h_mmap host ctx p = deref ctx
     (if \<not> has_flag (ucast (ctx_arg ctx 3)) (mman_flag kMapAnon) then fail_result kEnosys ctx p
      else (case AddressSpace_map (p_space p) (ctx_arg ctx 0) (ctx_arg ctx 1)
                   (region_prot (ucast (ctx_arg ctx 2))) ''mmap'' of
              (mapped, sp) \<Rightarrow>
                if mapped = 0 then fail_result kEnomem ctx (p\<lparr>p_space := sp\<rparr>)
                else ok_result (sint mapped) ctx (p\<lparr>p_space := sp\<rparr>)))"

definition h_munmap :: "'w host \<Rightarrow> SyscallContext \<Rightarrow> 'w PS4Process \<Rightarrow> 'w result" where
  "h_munmap host ctx p = deref ctx
     (case erase_region (ctx_arg ctx 0) (m_regions (p_space p)) of
        None \<Rightarrow> fail_result kEinval ctx p
      | Some (reg, _) \<Rightarrow>
          (case host_call host (HMunmap (r_base reg) (r_size reg)) p of
             (_, p1) \<Rightarrow>
               (case AddressSpace_unmap (p_space p1) (ctx_arg ctx 0) (ctx_arg ctx 1) of
                  (done_ok, sp) \<Rightarrow>
                    if \<not> done_ok then fail_result kEinval ctx (p1\<lparr>p_space := sp\<rparr>)
                    else ok_result 0 ctx (p1\<lparr>p_space := sp\<rparr>))))"

definition h_mprotect :: "'w host \<Rightarrow> SyscallContext \<Rightarrow> 'w PS4Process \<Rightarrow> 'w result" where
  "h_mprotect host ctx p = deref ctx
     (let rp = region_prot (ucast (ctx_arg ctx 2))
      in case AddressSpace_find (p_space p) (ctx_arg ctx 0) of
           None \<Rightarrow> fail_result kEinval ctx p
         | Some reg \<Rightarrow>
             (case host_call host (HMprotect (r_base reg) (r_size reg) (toHostProt rp)) p of
                (r, p1) \<Rightarrow>
                  (case AddressSpace_protect (\<lambda>_ _ _. hr_ret r) (p_space p1)
                          (ctx_arg ctx 0) (ctx_arg ctx 1) rp of
                     (done_ok, sp) \<Rightarrow>
                       if \<not> done_ok then fail_result kEinval ctx (p1\<lparr>p_space := sp\<rparr>)
                       else ok_result 0 ctx (p1\<lparr>p_space := sp\<rparr>))))"

section \<open>Thread handlers\<close>

definition h_thr_self :: "SyscallContext \<Rightarrow> 'w PS4Process \<Rightarrow> 'w result" where
  "h_thr_self ctx p =
     (case ctx_thread ctx of
        None \<Rightarrow> fail_result kEinval ctx p
      | Some tid \<Rightarrow> ok_result (uint tid) ctx p)"

definition exit_thread :: "SyscallContext \<Rightarrow> 'w PS4Process \<Rightarrow> 'w PS4Process" where
  "exit_thread ctx p =
     (case ctx_thread ctx of
        None \<Rightarrow> p
      | Some tid \<Rightarrow> p\<lparr>p_threads := ThreadManager_requestExit tid (p_threads p)\<rparr>)"

definition h_thr_exit :: "SyscallContext \<Rightarrow> 'w PS4Process \<Rightarrow> 'w result" where
  "h_thr_exit ctx p = ok_result 0 ctx (exit_thread ctx p)"

definition h_thr_suspend :: "SyscallContext \<Rightarrow> 'w PS4Process \<Rightarrow> 'w result" where
  "h_thr_suspend ctx p = deref ctx
     (let tid = ucast (ctx_arg ctx 0)
      in case ThreadManager_get (p_threads p) tid of
           None \<Rightarrow> fail_result kEsrch ctx p
         | Some t \<Rightarrow> ok_result 0 ctx (p\<lparr>p_threads := ThreadManager_suspend tid (p_threads p)\<rparr>))"

definition h_thr_wake :: "SyscallContext \<Rightarrow> 'w PS4Process \<Rightarrow> 'w result" where
  "h_thr_wake ctx p = deref ctx
     (let tid = ucast (ctx_arg ctx 0)
      in case ThreadManager_get (p_threads p) tid of
           None \<Rightarrow> fail_result kEsrch ctx p
         | Some t \<Rightarrow> ok_result 0 ctx (p\<lparr>p_threads := ThreadManager_resume tid (p_threads p)\<rparr>))"

section \<open>Miscellaneous handlers\<close>

definition h_getpid :: "SyscallContext \<Rightarrow> 'w PS4Process \<Rightarrow> 'w result" where
  "h_getpid ctx p = ok_result (if ctx_process ctx then uint (p_id p) else 0) ctx p"

definition h_getpagesize :: "'w host \<Rightarrow> SyscallContext \<Rightarrow> 'w PS4Process \<Rightarrow> 'w result" where
  "h_getpagesize host ctx p =
     (case host_call host HSysconfPagesize p of (r, p1) \<Rightarrow> ok_result (hr_ret r) ctx p1)"

definition h_gettimeofday :: "'w host \<Rightarrow> SyscallContext \<Rightarrow> 'w PS4Process \<Rightarrow> 'w result" where
  "h_gettimeofday host ctx p =
     (case host_call host HGettimeofday p of
        (r, p1) \<Rightarrow>
          if hr_ret r \<noteq> 0 then host_fail r ctx p1
          else if ctx_arg ctx 0 = 0 then ok_result 0 ctx p1
          else cpp_bind (put_bytes (ctx_arg ctx 0)
                           (le_bytes 8 (fst (hr_time r)) @ le_bytes 8 (snd (hr_time r))) p1)
                 (\<lambda>p2. ok_result 0 ctx p2))"

definition h_socket :: "'w host \<Rightarrow> SyscallContext \<Rightarrow> 'w PS4Process \<Rightarrow> 'w result" where
  "h_socket host ctx p = deref ctx
     (let domain = ucast (ctx_arg ctx 0) :: u32; type = ucast (ctx_arg ctx 1) :: u32;
          protocol = ucast (ctx_arg ctx 2) :: u32
      in acquire host (HSocket domain type protocol)
           (\<lambda>fd. ObjSocket \<lparr>sh_hostFd = fd, sh_domain = sint domain, sh_type = sint type,
                           sh_protocol = sint protocol\<rparr>) ctx p)"

definition h_exit :: "SyscallContext \<Rightarrow> 'w PS4Process \<Rightarrow> 'w result" where
  "h_exit ctx p = ok_result 0 ctx (exit_thread ctx p)"

section \<open>Registration\<close>

text \<open>None of the handlers throws: each is installed as one that returns.\<close>

definition install ::
  "int \<Rightarrow> string \<Rightarrow> (SyscallContext \<Rightarrow> 'w PS4Process \<Rightarrow> 'w result)
     \<Rightarrow> 'w PS4Process SyscallDispatcher \<Rightarrow> 'w PS4Process SyscallDispatcher" where
  "install n name h d =
     registerHandler n name
       (Some (\<lambda>ctx p. cpp_bind (h ctx p) (\<lambda>(ctx', p'). Val (Returned ctx' p')))) d"

definition registerFilesystemHandlers ::
  "'w host \<Rightarrow> 'w PS4Process SyscallDispatcher \<Rightarrow> 'w PS4Process SyscallDispatcher" where
  "registerFilesystemHandlers host d =
     (let d = install (syscall_value kSysOpen) ''open'' (h_open host) d;
          d = install (syscall_value kSysClose) ''close'' (h_close host) d;
          d = install (syscall_value kSysRead) ''read'' (h_read host) d;
          d = install (syscall_value kSysWrite) ''write'' (h_write host) d;
          d = install (syscall_value kSysLseek) ''lseek'' (h_lseek host) d;
          d = install (syscall_value kSysFstat) ''fstat'' (h_fstat host) d;
          d = install 188 ''stat'' (h_stat host) d;
          d = install (syscall_value kSysMkdir) ''mkdir'' (h_mkdir host) d;
          d = install (syscall_value kSysRmdir) ''rmdir'' (h_rmdir host) d;
          d = install 10 ''unlink'' (h_unlink host) d;
          d = install (syscall_value kSysRename) ''rename'' (h_rename host) d;
          d = install (syscall_value kSysFsync) ''fsync'' (h_fsync host) d
      in install (syscall_value kSysFtruncate) ''ftruncate'' (h_ftruncate host) d)"

definition registerMemoryHandlers ::
  "'w host \<Rightarrow> 'w PS4Process SyscallDispatcher \<Rightarrow> 'w PS4Process SyscallDispatcher" where
  "registerMemoryHandlers host d =
     (let d = install (syscall_value kSysMmap) ''mmap'' (h_mmap host) d;
          d = install (syscall_value kSysMunmap) ''munmap'' (h_munmap host) d
      in install (syscall_value kSysMprotect) ''mprotect'' (h_mprotect host) d)"

definition registerThreadHandlers ::
  "'w PS4Process SyscallDispatcher \<Rightarrow> 'w PS4Process SyscallDispatcher" where
  "registerThreadHandlers d =
     (let d = install (syscall_value kSysThrSelf) ''thr_self'' h_thr_self d;
          d = install (syscall_value kSysThrExit) ''thr_exit'' h_thr_exit d;
          d = install (syscall_value kSysThrSuspend) ''thr_suspend'' h_thr_suspend d
      in install (syscall_value kSysThrWake) ''thr_wake'' h_thr_wake d)"

definition registerMiscHandlers ::
  "'w host \<Rightarrow> 'w PS4Process SyscallDispatcher \<Rightarrow> 'w PS4Process SyscallDispatcher" where
  "registerMiscHandlers host d =
     (let d = install (syscall_value kSysGetPid) ''getpid'' h_getpid d;
          d = install (syscall_value kSysGetPageSize) ''getpagesize'' (h_getpagesize host) d;
          d = install (syscall_value kSysGetTimeOfDay) ''gettimeofday'' (h_gettimeofday host) d;
          d = install (syscall_value kSysSocket) ''socket'' (h_socket host) d
      in install (syscall_value kSysExit) ''exit'' h_exit d)"

definition registerAll ::
  "'w host \<Rightarrow> 'w PS4Process SyscallDispatcher \<Rightarrow> 'w PS4Process SyscallDispatcher" where
  "registerAll host d =
     registerMiscHandlers host
       (registerThreadHandlers
          (registerMemoryHandlers host (registerFilesystemHandlers host d)))"

end
