(* ===== verification/Handler_Safety.thy ===== *)
theory Handler_Safety
  imports Handlers Resource_Ledger
begin

text \<open>
  What the guest can make the runtime do on the host. Every handler is shown to be a sequence
  of disciplined effects (\<open>proc_eff\<close>); confinement of paths and accounting of descriptors are
  invariants of these effects, and hold for every run of the dispatcher.
\<close>

unbundle bit_operations_syntax

section \<open>Disciplined effects\<close>

definition in_mount :: "FsPolicy \<Rightarrow> MountPoint \<Rightarrow> string \<Rightarrow> bool" where
  "in_mount pol mp path \<longleftrightarrow> mp \<in> set (m_mounts pol) \<and>
     (\<exists>comps. list_all clean_component comps
        \<and> path = host_path (host_dir (m_vfsRoot pol) (hostSubdir mp)) comps)"

text \<open>
  What the policy is asked about an open: without \<^verbatim>\<open>O_DIRECTORY\<close>, an access mode other than reading and \<^verbatim>\<open>O_CREAT\<close> need a
  mount that is not read-only, and \<^verbatim>\<open>O_CREAT\<close> one that allows creation. An open with \<^verbatim>\<open>O_DIRECTORY\<close> is tested for
  listing only and \<^verbatim>\<open>O_TRUNC\<close> is not looked at, see \<open>open_truncates_read_only_mount\<close>.
\<close>

definition may_modify :: "u32 \<Rightarrow> bool" where
  "may_modify lf \<longleftrightarrow> \<not> has_flag lf 0x10000 \<and> (has_flag lf 3 \<or> has_flag lf 0x40)"

fun call_allowed :: "FsPolicy \<Rightarrow> HostCall \<Rightarrow> bool" where
  "call_allowed pol (HOpen path lf mode) \<longleftrightarrow>
     (\<exists>mp. in_mount pol mp path \<and> (may_modify lf \<longrightarrow> \<not> readOnly mp)
        \<and> (has_flag lf 0x40 \<and> \<not> has_flag lf 0x10000 \<longrightarrow> allowCreate mp))"
| "call_allowed pol (HStat path) \<longleftrightarrow> (\<exists>mp. in_mount pol mp path)"
| "call_allowed pol (HMkdir path mode) \<longleftrightarrow>
     (\<exists>mp. in_mount pol mp path \<and> \<not> readOnly mp \<and> allowCreate mp)"
| "call_allowed pol (HRmdir path) \<longleftrightarrow>
     (\<exists>mp. in_mount pol mp path \<and> \<not> readOnly mp \<and> allowDelete mp)"
| "call_allowed pol (HUnlink path) \<longleftrightarrow>
     (\<exists>mp. in_mount pol mp path \<and> \<not> readOnly mp \<and> allowDelete mp)"
| "call_allowed pol (HRename path path') \<longleftrightarrow>
     (\<exists>mp. in_mount pol mp path \<and> \<not> readOnly mp \<and> allowDelete mp)
     \<and> (\<exists>mp. in_mount pol mp path' \<and> \<not> readOnly mp \<and> allowDelete mp)"
| "call_allowed pol _ \<longleftrightarrow> True"

fun call_fd :: "HostCall \<Rightarrow> int option" where
  "call_fd (HClose fd) = Some fd"
| "call_fd (HRead fd a n) = Some fd"
| "call_fd (HWrite fd a n) = Some fd"
| "call_fd (HLseek fd off wh) = Some fd"
| "call_fd (HFstat fd) = Some fd"
| "call_fd (HFsync fd) = Some fd"
| "call_fd (HFtruncate fd n) = Some fd"
| "call_fd _ = None"

fun opens_fd :: "HostCall \<Rightarrow> bool" where
  "opens_fd (HOpen path lf mode) = True"
| "opens_fd (HSocket d t pr) = True"
| "opens_fd _ = False"

definition table_has_fd :: "'w PS4Process \<Rightarrow> int \<Rightarrow> bool" where
  "table_has_fd p fd \<longleftrightarrow>
     (\<exists>h obj. HandleTable_get (p_handles p) h = Some obj \<and> object_hostFd obj = Some fd)"

text \<open>
  The effects: a host call that opens and closes nothing, on an allowed path and on a
  descriptor of the table; an acquisition, which registers an object for the descriptor it
  got; the release of one object; and any change of guest memory, regions and threads.
\<close>

inductive proc_eff :: "'w host \<Rightarrow> 'w PS4Process \<Rightarrow> 'w PS4Process \<Rightarrow> bool" for host where
  nothing: "proc_eff host p p"
| call: "proc_eff host p q \<Longrightarrow> call_allowed (p_vfs q) c \<Longrightarrow> \<not> opens_fd c
    \<Longrightarrow> \<forall>fd. c \<noteq> HClose fd \<Longrightarrow> \<forall>fd. call_fd c = Some fd \<longrightarrow> table_has_fd q fd
    \<Longrightarrow> proc_eff host p (snd (host_call host c q))"
| acquire_fails: "proc_eff host p q \<Longrightarrow> call_allowed (p_vfs q) c \<Longrightarrow> opens_fd c
    \<Longrightarrow> host_call host c q = (r, q1) \<Longrightarrow> hr_ret r < 0 \<Longrightarrow> proc_eff host p q1"
| acquires: "proc_eff host p q \<Longrightarrow> call_allowed (p_vfs q) c \<Longrightarrow> opens_fd c
    \<Longrightarrow> host_call host c q = (r, q1) \<Longrightarrow> 0 \<le> hr_ret r \<Longrightarrow> object_hostFd obj = Some (hr_ret r)
    \<Longrightarrow> register_object host obj q1 = Val (h, q2) \<Longrightarrow> proc_eff host p q2"
| release: "proc_eff host p q \<Longrightarrow> HandleTable_get (p_handles q) h = Some obj
    \<Longrightarrow> HandleTable_close h (p_handles q) = (True, t)
    \<Longrightarrow> proc_eff host p (destroy_object host obj (q\<lparr>p_handles := t\<rparr>))"
| local: "proc_eff host p q
    \<Longrightarrow> proc_eff host p (q\<lparr>p_mem := m, p_space := sp, p_threads := th\<rparr>)"

lemma proc_eff_trans:
  assumes "proc_eff host q r" and "proc_eff host p q"
  shows "proc_eff host p r"
  using assms by (induction rule: proc_eff.induct) (auto intro: proc_eff.intros)

lemma proc_eff_mem: "proc_eff host p q \<Longrightarrow> proc_eff host p (q\<lparr>p_mem := m\<rparr>)"
  using proc_eff.local [where m = m and sp = "p_space q" and th = "p_threads q" and q = q] by simp

lemma proc_eff_space: "proc_eff host p q \<Longrightarrow> proc_eff host p (q\<lparr>p_space := sp\<rparr>)"
  using proc_eff.local [where m = "p_mem q" and sp = sp and th = "p_threads q" and q = q] by simp

lemma proc_eff_threads: "proc_eff host p q \<Longrightarrow> proc_eff host p (q\<lparr>p_threads := th\<rparr>)"
  using proc_eff.local [where m = "p_mem q" and sp = "p_space q" and th = th and q = q] by simp

section \<open>Every handler is disciplined\<close>

lemmas result_defs = deref_def ok_result_def fail_result_def host_fail_def

lemma convertOpenFlags_bits:
  "has_flag (convertOpenFlags f) 0x10000 = has_flag f (open_flag kO_Directory)"
  "has_flag (convertOpenFlags f) 0x40 = has_flag f (open_flag kO_Creat)"
  "has_flag (convertOpenFlags f) 0x200 = has_flag f (open_flag kO_Trunc)"
  "has_flag (convertOpenFlags f) 3 \<Longrightarrow> f AND open_flag kO_AccMode \<noteq> open_flag kO_RdOnly"
  by (auto simp: convertOpenFlags_def has_flag_def bit.conj_disj_distrib2 split: if_splits)

lemma convertOpenFlags_rdonly: "f AND 3 = 0 \<Longrightarrow> \<not> has_flag (convertOpenFlags f) 3"
  using convertOpenFlags_bits(4) [of f] by auto

lemma resolve_in_mount:
  assumes "resolve pol g op = Val (tr, e)" and "tr_ok tr"
  obtains mp where "in_mount pol mp (tr_hostPath tr)"
    and "readOnly mp \<longrightarrow> op = FsRead \<or> op = FsList"
    and "op = FsCreate \<longrightarrow> allowCreate mp"
    and "op = FsDelete \<or> op = FsRename \<longrightarrow> allowDelete mp"
  using assms
proof (rule resolve_okE)
  fix canonical mp comps
  assume mm: "match_mount pol canonical = Some mp"
    and al: "isAllowed pol canonical op = Inr ()"
    and c: "list_all clean_component comps"
    and tr: "tr = \<lparr>tr_ok = True, tr_guestPath = g,
               tr_hostPath = host_path (host_dir (m_vfsRoot pol) (hostSubdir mp)) comps,
               tr_mount = Some mp\<rparr>"
  have "in_mount pol mp (tr_hostPath tr)"
    using match_mount_SomeD(1) [OF mm] c by (auto simp: in_mount_def tr)
  moreover have "readOnly mp \<longrightarrow> op = FsRead \<or> op = FsList" "op = FsCreate \<longrightarrow> allowCreate mp"
      "op = FsDelete \<or> op = FsRename \<longrightarrow> allowDelete mp"
    using al mm by (cases op; auto simp: isAllowed_def split: if_splits)+
  ultimately show ?thesis by (rule that)
qed

lemma resolve_pathE:
  assumes "resolve_path g op ctx p k = Val (ctx', p')"
  obtains "p' = p"
  | tr mp where "k tr = Val (ctx', p')" and "in_mount (p_vfs p) mp (tr_hostPath tr)"
    and "readOnly mp \<longrightarrow> op = FsRead \<or> op = FsList"
    and "op = FsCreate \<longrightarrow> allowCreate mp"
    and "op = FsDelete \<or> op = FsRename \<longrightarrow> allowDelete mp"
proof -
  from assms obtain tr e where r: "resolve (p_vfs p) g op = Val (tr, e)"
    and k: "(if \<not> tr_ok tr then Val (ctx_fail (if e \<noteq> 0 then e else errno_value kEnoent) ctx, p)
         else k tr) = Val (ctx', p')"
    unfolding resolve_path_def by (elim cpp_bind_ValE) (auto split: prod.splits)
  show ?thesis
  proof (cases "tr_ok tr")
    case True
    with r obtain mp where "in_mount (p_vfs p) mp (tr_hostPath tr)"
      and "readOnly mp \<longrightarrow> op = FsRead \<or> op = FsList" and "op = FsCreate \<longrightarrow> allowCreate mp"
      and "op = FsDelete \<or> op = FsRename \<longrightarrow> allowDelete mp"
      by (rule resolve_in_mount)
    moreover from True k have "k tr = Val (ctx', p')" by simp
    ultimately show ?thesis using that(2) by blast
  next
    case False
    with k that(1) show ?thesis by simp
  qed
qed

lemma with_pathE:
  assumes "with_path op ctx p k = Val (ctx', p')"
  obtains "p' = p"
  | tr mp where "k tr = Val (ctx', p')" and "in_mount (p_vfs p) mp (tr_hostPath tr)"
    and "readOnly mp \<longrightarrow> op = FsRead \<or> op = FsList"
    and "op = FsCreate \<longrightarrow> allowCreate mp"
    and "op = FsDelete \<or> op = FsRename \<longrightarrow> allowDelete mp"
proof -
  from assms obtain s where s: "(case s of None \<Rightarrow> fail_result kEfault ctx p
      | Some guestPath \<Rightarrow> resolve_path guestPath op ctx p k) = Val (ctx', p')"
    unfolding with_path_def by (rule cpp_bind_ValE)
  show ?thesis
  proof (cases s)
    case None
    with s that(1) show ?thesis by (simp add: fail_result_def)
  next
    case (Some g)
    with s have "resolve_path g op ctx p k = Val (ctx', p')" by simp
    then show ?thesis by (rule resolve_pathE) (use that in blast)+
  qed
qed

lemma with_fileE:
  assumes "with_file ctx p k = Val (ctx', p')"
  obtains "p' = p"
  | fh where "k fh = Val (ctx', p')" and "table_has_fd p (fh_hostFd fh)"
proof (cases "file_of (HandleTable_get (p_handles p) (arg_handle ctx))")
  case None
  with assms that(1) show ?thesis by (simp add: with_file_def fail_result_def)
next
  case (Some fh)
  then have "HandleTable_get (p_handles p) (arg_handle ctx) = Some (ObjFile fh)"
    by (auto simp: file_of_def split: option.splits HandleObject.splits)
  then have "table_has_fd p (fh_hostFd fh)"
    unfolding table_has_fd_def by (intro exI conjI) (auto simp: object_hostFd_def)
  moreover from assms Some have "k fh = Val (ctx', p')" by (simp add: with_file_def)
  ultimately show ?thesis using that(2) by blast
qed

lemma status_call_snd:
  "status_call host c ctx p = Val (ctx', p') \<Longrightarrow> p' = snd (host_call host c p)"
  by (auto simp: status_call_def result_defs split: prod.splits if_splits)

lemma value_call_snd:
  "value_call host c ctx p = Val (ctx', p') \<Longrightarrow> p' = snd (host_call host c p)"
  by (auto simp: value_call_def result_defs split: prod.splits if_splits)

lemmas proc_eff_call = proc_eff.call [OF proc_eff.nothing]

lemma path_status_call_eff:
  assumes "status_call host c ctx p = Val (ctx', p')"
    and "call_allowed (p_vfs p) c" and "\<not> opens_fd c" and "call_fd c = None"
  shows "proc_eff host p p'"
  unfolding status_call_snd [OF assms(1)]
  using assms(2-4) by (intro proc_eff_call) auto

lemma put_bytes_eff:
  assumes "put_bytes a bs q = Val q'" and "proc_eff host p q"
  shows "proc_eff host p q'"
  using assms by (auto simp: put_bytes_def cpp_bind_eq_Val_iff intro: proc_eff_mem)

lemma acquire_eff:
  assumes "acquire host c mk ctx p = Val (ctx', p')"
    and "call_allowed (p_vfs p) c" and "opens_fd c" and "\<And>fd. object_hostFd (mk fd) = Some fd"
  shows "proc_eff host p p'"
proof -
  obtain r p1 where hc: "host_call host c p = (r, p1)" by (cases "host_call host c p")
  show ?thesis
  proof (cases "hr_ret r < 0")
    case True
    with assms(1) hc have "p' = p1" by (simp add: acquire_def host_fail_def)
    with proc_eff.acquire_fails [OF proc_eff.nothing assms(2,3) hc True] show ?thesis by simp
  next
    case False
    with assms(1) hc obtain h where ro: "register_object host (mk (hr_ret r)) p1 = Val (h, p')"
      by (auto simp: acquire_def ok_result_def cpp_bind_eq_Val_iff)
    from False have "0 \<le> hr_ret r" by simp
    from proc_eff.acquires [OF proc_eff.nothing assms(2,3) hc this assms(4) ro] show ?thesis .
  qed
qed

lemma h_open_eff: "h_open host ctx p = Val (ctx', p') \<Longrightarrow> proc_eff host p p'"
  unfolding h_open_def deref_def Let_def
  apply (simp split: if_splits)
  apply (erule with_pathE)
   apply (simp add: proc_eff.nothing)
  apply (erule acquire_eff)
    apply (auto simp: open_op_def open_object_def may_modify_def convertOpenFlags_bits(1,2)
      convertOpenFlags_rdonly object_hostFd_def split: if_splits)
  done

lemma h_close_eff: "h_close host ctx p = Val (ctx', p') \<Longrightarrow> proc_eff host p p'"
  by (auto simp: h_close_def Let_def result_defs split: option.splits prod.splits if_splits
      intro: proc_eff.nothing proc_eff.release)

lemma fd_call_eff:
  assumes "call_fd c = Some fd" and "table_has_fd p fd" and "call_allowed (p_vfs p) c"
    and "\<not> opens_fd c" and "\<And>fd. c \<noteq> HClose fd"
  shows "proc_eff host p (snd (host_call host c p))"
  using assms by (intro proc_eff_call) auto

lemma file_handler_eff:
  assumes "deref ctx (with_file ctx p k) = Val (ctx', p')"
    and "\<And>fh. k fh = Val (ctx', p') \<Longrightarrow>
           p' = p \<or> (\<exists>c. p' = snd (host_call host c p) \<and> call_fd c = Some (fh_hostFd fh)
                        \<and> call_allowed (p_vfs p) c \<and> \<not> opens_fd c \<and> (\<forall>fd. c \<noteq> HClose fd))"
  shows "proc_eff host p p'"
proof -
  from assms(1) have "with_file ctx p k = Val (ctx', p')" by (simp add: deref_def split: if_splits)
  then show ?thesis
  proof (rule with_fileE)
    fix fh assume "k fh = Val (ctx', p')" and t: "table_has_fd p (fh_hostFd fh)"
    then show ?thesis using assms(2) [of fh] fd_call_eff [OF _ t] proc_eff.nothing by metis
  qed (simp add: proc_eff.nothing)
qed

lemma h_read_eff: "h_read host ctx p = Val (ctx', p') \<Longrightarrow> proc_eff host p p'"
  unfolding h_read_def
  by (erule file_handler_eff) (force simp: fail_result_def split: if_splits dest!: value_call_snd)

lemma h_write_eff: "h_write host ctx p = Val (ctx', p') \<Longrightarrow> proc_eff host p p'"
  unfolding h_write_def
  by (erule file_handler_eff) (force simp: fail_result_def split: if_splits dest!: value_call_snd)

lemma h_lseek_eff: "h_lseek host ctx p = Val (ctx', p') \<Longrightarrow> proc_eff host p p'"
  unfolding h_lseek_def by (erule file_handler_eff) (force dest!: value_call_snd)

lemma h_fsync_eff: "h_fsync host ctx p = Val (ctx', p') \<Longrightarrow> proc_eff host p p'"
  unfolding h_fsync_def by (erule file_handler_eff) (force dest!: status_call_snd)

lemma h_ftruncate_eff: "h_ftruncate host ctx p = Val (ctx', p') \<Longrightarrow> proc_eff host p p'"
  unfolding h_ftruncate_def by (erule file_handler_eff) (force dest!: status_call_snd)

lemma h_fstat_eff:
  assumes "h_fstat host ctx p = Val (ctx', p')"
  shows "proc_eff host p p'"
proof (cases "HandleTable_get (p_handles p) (arg_handle ctx)")
  case None
  with assms show ?thesis by (auto simp: h_fstat_def result_defs proc_eff.nothing split: if_splits)
next
  case (Some obj)
  show ?thesis
  proof (cases "object_hostFd obj")
    case None
    with assms Some show ?thesis by (auto simp: h_fstat_def result_defs proc_eff.nothing split: if_splits)
  next
    case fd: (Some fd)
    obtain r p1 where hc: "host_call host (HFstat fd) p = (r, p1)"
      by (cases "host_call host (HFstat fd) p")
    have "table_has_fd p fd" using Some fd by (auto simp: table_has_fd_def)
    then have "proc_eff host p p1" using fd_call_eff [of "HFstat fd" fd p host] hc by simp
    then show ?thesis
      using assms Some fd hc
      by (auto simp: h_fstat_def result_defs cpp_bind_eq_Val_iff split: if_splits intro: put_bytes_eff)
  qed
qed

lemma h_stat_eff:
  assumes "h_stat host ctx p = Val (ctx', p')"
  shows "proc_eff host p p'"
proof -
  from assms obtain k where k: "with_path FsRead ctx p k = Val (ctx', p')"
    and kd: "k = (\<lambda>tr. case host_call host (HStat (tr_hostPath tr)) p of
          (r, p1) \<Rightarrow>
            if hr_ret r \<noteq> 0 then host_fail r ctx p1
            else cpp_bind (put_bytes (ctx_arg ctx 1)
                             (Stat_bytes (fillStatFromLinux (hr_stat r))) p1)
                   (\<lambda>p2. ok_result 0 ctx p2))"
    by (auto simp: h_stat_def deref_def split: if_splits)
  from k show ?thesis
  proof (rule with_pathE)
    fix tr mp
    assume kt: "k tr = Val (ctx', p')" and im: "in_mount (p_vfs p) mp (tr_hostPath tr)"
    obtain r p1 where hc: "host_call host (HStat (tr_hostPath tr)) p = (r, p1)"
      by (cases "host_call host (HStat (tr_hostPath tr)) p")
    have "proc_eff host p (snd (host_call host (HStat (tr_hostPath tr)) p))"
      using im by (intro proc_eff_call) auto
    with hc have "proc_eff host p p1" by simp
    with kt show ?thesis
      by (auto simp: kd hc host_fail_def ok_result_def cpp_bind_eq_Val_iff
          split: if_splits intro: put_bytes_eff)
  qed (simp add: proc_eff.nothing)
qed

lemma path_handler_eff:
  assumes "deref ctx (with_path op ctx p (\<lambda>tr. status_call host (c tr) ctx p)) = Val (ctx', p')"
    and "\<And>tr mp. in_mount (p_vfs p) mp (tr_hostPath tr) \<Longrightarrow> \<not> readOnly mp
          \<Longrightarrow> (op = FsCreate \<longrightarrow> allowCreate mp) \<Longrightarrow> (op = FsDelete \<longrightarrow> allowDelete mp)
          \<Longrightarrow> call_allowed (p_vfs p) (c tr)"
    and "\<And>tr. \<not> opens_fd (c tr)" and "\<And>tr. call_fd (c tr) = None"
    and "op \<noteq> FsRead" and "op \<noteq> FsList"
  shows "proc_eff host p p'"
proof -
  from assms(1) have "with_path op ctx p (\<lambda>tr. status_call host (c tr) ctx p) = Val (ctx', p')"
    by (simp add: deref_def split: if_splits)
  then show ?thesis
  proof (rule with_pathE)
    fix tr mp
    assume s: "status_call host (c tr) ctx p = Val (ctx', p')"
      and im: "in_mount (p_vfs p) mp (tr_hostPath tr)"
      and "readOnly mp \<longrightarrow> op = FsRead \<or> op = FsList" "op = FsCreate \<longrightarrow> allowCreate mp"
        "op = FsDelete \<or> op = FsRename \<longrightarrow> allowDelete mp"
    then have "call_allowed (p_vfs p) (c tr)" using assms(2,5,6) by blast
    then show ?thesis by (rule path_status_call_eff [OF s _ assms(3,4)])
  qed (simp add: proc_eff.nothing)
qed

lemma h_mkdir_eff: "h_mkdir host ctx p = Val (ctx', p') \<Longrightarrow> proc_eff host p p'"
  unfolding h_mkdir_def by (erule path_handler_eff) auto

lemma h_rmdir_eff: "h_rmdir host ctx p = Val (ctx', p') \<Longrightarrow> proc_eff host p p'"
  unfolding h_rmdir_def by (erule path_handler_eff) auto

lemma h_unlink_eff: "h_unlink host ctx p = Val (ctx', p') \<Longrightarrow> proc_eff host p p'"
  unfolding h_unlink_def by (erule path_handler_eff) auto

lemma rename_resolved_eff:
  assumes "resolve_path f FsRename ctx p (\<lambda>trFrom. resolve_path g FsRename ctx p (\<lambda>trTo.
             status_call host (HRename (tr_hostPath trFrom) (tr_hostPath trTo)) ctx p)) = Val (ctx', p')"
  shows "proc_eff host p p'"
  using assms
proof (rule resolve_pathE)
  fix tr mp
  assume k: "resolve_path g FsRename ctx p (\<lambda>trTo.
      status_call host (HRename (tr_hostPath tr) (tr_hostPath trTo)) ctx p) = Val (ctx', p')"
    and m: "in_mount (p_vfs p) mp (tr_hostPath tr)" "readOnly mp \<longrightarrow> FsRename = FsRead \<or> FsRename = FsList"
      "FsRename = FsDelete \<or> FsRename = FsRename \<longrightarrow> allowDelete mp"
  from k show ?thesis
  proof (rule resolve_pathE)
    fix tr' mp'
    assume s: "status_call host (HRename (tr_hostPath tr) (tr_hostPath tr')) ctx p = Val (ctx', p')"
      and m': "in_mount (p_vfs p) mp' (tr_hostPath tr')" "readOnly mp' \<longrightarrow> FsRename = FsRead \<or> FsRename = FsList"
        "FsRename = FsDelete \<or> FsRename = FsRename \<longrightarrow> allowDelete mp'"
    have "call_allowed (p_vfs p) (HRename (tr_hostPath tr) (tr_hostPath tr'))" using m m' by auto
    then show ?thesis by (rule path_status_call_eff [OF s]) simp_all
  qed (simp add: proc_eff.nothing)
qed (simp add: proc_eff.nothing)

lemma h_rename_eff: "h_rename host ctx p = Val (ctx', p') \<Longrightarrow> proc_eff host p p'"
  by (auto simp: h_rename_def deref_def fail_result_def cpp_bind_eq_Val_iff proc_eff.nothing
      split: if_splits option.splits)
    (erule rename_resolved_eff)

lemma plain_call_eff:
  assumes "host_call host c p = (r, p1)" and "\<not> opens_fd c" and "call_fd c = None"
    and "call_allowed (p_vfs p) c"
  shows "proc_eff host p p1"
proof -
  have "proc_eff host p (snd (host_call host c p))" using assms by (intro proc_eff_call) auto
  with assms(1) show ?thesis by simp
qed

lemma memory_call_eff:
  "host_call host (HMunmap a n) p = (r, p1) \<Longrightarrow> proc_eff host p p1"
  "host_call host (HMprotect a n pr) p = (r, p1) \<Longrightarrow> proc_eff host p p1"
  by (erule plain_call_eff; simp)+

lemma h_mmap_eff: "h_mmap host ctx p = Val (ctx', p') \<Longrightarrow> proc_eff host p p'"
  by (auto simp: h_mmap_def result_defs split: if_splits prod.splits
      intro: proc_eff.nothing proc_eff_space)

lemma h_munmap_eff: "h_munmap host ctx p = Val (ctx', p') \<Longrightarrow> proc_eff host p p'"
  by (auto simp: h_munmap_def result_defs split: if_splits prod.splits option.splits
      intro: proc_eff.nothing proc_eff_space dest: memory_call_eff)

lemma h_mprotect_eff: "h_mprotect host ctx p = Val (ctx', p') \<Longrightarrow> proc_eff host p p'"
  by (auto simp: h_mprotect_def Let_def result_defs split: if_splits prod.splits option.splits
      intro: proc_eff.nothing proc_eff_space dest: memory_call_eff)

lemma h_thread_eff:
  "h_thr_self ctx p = Val (ctx', p') \<Longrightarrow> proc_eff host p p'"
  "h_thr_exit ctx p = Val (ctx', p') \<Longrightarrow> proc_eff host p p'"
  "h_thr_suspend ctx p = Val (ctx', p') \<Longrightarrow> proc_eff host p p'"
  "h_thr_wake ctx p = Val (ctx', p') \<Longrightarrow> proc_eff host p p'"
  "h_exit ctx p = Val (ctx', p') \<Longrightarrow> proc_eff host p p'"
  "h_getpid ctx p = Val (ctx', p') \<Longrightarrow> proc_eff host p p'"
  by (auto simp: h_thr_self_def h_thr_exit_def h_thr_suspend_def h_thr_wake_def h_exit_def
      h_getpid_def exit_thread_def Let_def result_defs split: if_splits option.splits
      intro: proc_eff.nothing proc_eff_threads)

lemma h_getpagesize_eff: "h_getpagesize host ctx p = Val (ctx', p') \<Longrightarrow> proc_eff host p p'"
  by (auto simp: h_getpagesize_def result_defs split: prod.splits intro: plain_call_eff)

lemma h_gettimeofday_eff: "h_gettimeofday host ctx p = Val (ctx', p') \<Longrightarrow> proc_eff host p p'"
  by (auto simp: h_gettimeofday_def result_defs cpp_bind_eq_Val_iff split: prod.splits if_splits
      intro: plain_call_eff elim!: put_bytes_eff)

lemma h_socket_eff: "h_socket host ctx p = Val (ctx', p') \<Longrightarrow> proc_eff host p p'"
  by (auto simp: h_socket_def Let_def deref_def object_hostFd_def split: if_splits
      elim!: acquire_eff)

section \<open>Runs of the dispatcher\<close>

text \<open>
  The contract between the dispatcher and a property of the served state: every installed
  handler keeps the property. A run of dispatches then keeps it.
\<close>

locale dispatch_invariant =
  fixes d :: "'p SyscallDispatcher" and inv :: "'p \<Rightarrow> bool"
  assumes handler_keeps:
    "um_find (m_handlers d) n = Some e \<Longrightarrow> entry_handler e ctx p = Val r
       \<Longrightarrow> catch_handler r = (ctx', p') \<Longrightarrow> inv p \<Longrightarrow> inv p'"
begin

lemma dispatch_inv:
  assumes "m_handlers d1 = m_handlers d" and "dispatch d1 ctx p = Val (ctx', p', d')" and "inv p"
  shows "inv p'"
  using assms(2)
proof (rule dispatch_ValE)
  fix e r
  assume "um_find (m_handlers d1) (ctx_number ctx) = Some e"
    "entry_handler e (ctx\<lparr>ctx_name := entry_name e\<rparr>) p = Val r" "catch_handler r = (ctx', p')"
  then show ?thesis using handler_keeps assms(1,3) by metis
qed (use assms(3) in simp)

lemma run_inv:
  "m_handlers d1 = m_handlers d \<Longrightarrow> dispatch_all d1 ctxs p = Val (ctxs', p', d') \<Longrightarrow> inv p
     \<Longrightarrow> inv p'"
proof (induction ctxs arbitrary: d1 p ctxs' p' d')
  case (Cons ctx ctxs)
  from Cons.prems(2) obtain c1 p1 d2 cs2 where
    1: "dispatch d1 ctx p = Val (c1, p1, d2)" and
    2: "dispatch_all d2 ctxs p1 = Val (cs2, p', d')"
    by (auto simp: cpp_bind_eq_Val_iff)
  have "m_handlers d2 = m_handlers d" using dispatch_keeps_handlers [OF 1] Cons.prems(1) by simp
  moreover have "inv p1" by (rule dispatch_inv [OF Cons.prems(1) 1 Cons.prems(3)])
  ultimately show ?case using Cons.IH 2 by blast
qed simp

end

text \<open>The table that \<^verbatim>\<open>registerAll\<close> builds on a fresh dispatcher.\<close>

definition runtime_dispatcher :: "'w host \<Rightarrow> 'w PS4Process SyscallDispatcher" where
  "runtime_dispatcher host = registerAll host SyscallDispatcher_new"

lemmas register_defs = registerAll_def registerMiscHandlers_def registerThreadHandlers_def
  registerMemoryHandlers_def registerFilesystemHandlers_def Let_def

lemma install_find:
  "um_find (m_handlers (install n name h d)) m =
     (if m = n then Some \<lparr>entry_name = name,
          entry_handler = \<lambda>ctx p. cpp_bind (h ctx p) (\<lambda>(ctx', p'). Val (Returned ctx' p'))\<rparr>
      else um_find (m_handlers d) m)"
  by (simp add: install_def registerHandler_find)

definition eff_handler :: "'w host \<Rightarrow> (SyscallContext \<Rightarrow> 'w PS4Process \<Rightarrow> 'w result) \<Rightarrow> bool" where
  "eff_handler host h \<longleftrightarrow> (\<forall>ctx p ctx' p'. h ctx p = Val (ctx', p') \<longrightarrow> proc_eff host p p')"

definition eff_dispatcher :: "'w host \<Rightarrow> 'w PS4Process SyscallDispatcher \<Rightarrow> bool" where
  "eff_dispatcher host d \<longleftrightarrow>
     (\<forall>n e ctx p r ctx' p'. um_find (m_handlers d) n = Some e \<longrightarrow> entry_handler e ctx p = Val r
        \<longrightarrow> catch_handler r = (ctx', p') \<longrightarrow> proc_eff host p p')"

lemma eff_dispatcher_install:
  assumes "eff_handler host h" and "eff_dispatcher host d"
  shows "eff_dispatcher host (install n name h d)"
  unfolding eff_dispatcher_def
proof (intro allI impI)
  fix m e ctx p r ctx' p'
  assume f: "um_find (m_handlers (install n name h d)) m = Some e"
    and e: "entry_handler e ctx p = Val r" and c: "catch_handler r = (ctx', p')"
  show "proc_eff host p p'"
  proof (cases "m = n")
    case True
    with f e have "cpp_bind (h ctx p) (\<lambda>(ctx', p'). Val (Returned ctx' p')) = Val r"
      by (auto simp: install_find)
    then obtain c1 p1 where "h ctx p = Val (c1, p1)" "r = Returned c1 p1"
      by (auto simp: cpp_bind_eq_Val_iff)
    with c assms(1) show ?thesis by (auto simp: catch_handler_def eff_handler_def)
  next
    case False
    with f have "um_find (m_handlers d) m = Some e" by (simp add: install_find)
    with assms(2) e c show ?thesis unfolding eff_dispatcher_def by blast
  qed
qed

lemma eff_handlers:
  "eff_handler host (h_open host)" "eff_handler host (h_close host)"
  "eff_handler host (h_read host)" "eff_handler host (h_write host)"
  "eff_handler host (h_lseek host)" "eff_handler host (h_fstat host)"
  "eff_handler host (h_stat host)" "eff_handler host (h_mkdir host)"
  "eff_handler host (h_rmdir host)" "eff_handler host (h_unlink host)"
  "eff_handler host (h_rename host)" "eff_handler host (h_fsync host)"
  "eff_handler host (h_ftruncate host)" "eff_handler host (h_mmap host)"
  "eff_handler host (h_munmap host)" "eff_handler host (h_mprotect host)"
  "eff_handler host h_thr_self" "eff_handler host h_thr_exit" "eff_handler host h_thr_suspend"
  "eff_handler host h_thr_wake" "eff_handler host h_getpid" "eff_handler host h_exit"
  "eff_handler host (h_getpagesize host)" "eff_handler host (h_gettimeofday host)"
  "eff_handler host (h_socket host)"
  unfolding eff_handler_def
  by (blast intro: h_open_eff h_close_eff h_read_eff h_write_eff h_lseek_eff h_fstat_eff h_stat_eff
      h_mkdir_eff h_rmdir_eff h_unlink_eff h_rename_eff h_fsync_eff h_ftruncate_eff h_mmap_eff
      h_munmap_eff h_mprotect_eff h_thread_eff h_getpagesize_eff h_gettimeofday_eff h_socket_eff)+

lemma eff_runtime_dispatcher: "eff_dispatcher host (runtime_dispatcher host)"
  unfolding runtime_dispatcher_def register_defs
  by (intro eff_dispatcher_install eff_handlers)
     (simp add: eff_dispatcher_def SyscallDispatcher_new_def um_simps)

interpretation served: dispatch_invariant "runtime_dispatcher host" "proc_eff host p0" for host p0
proof unfold_locales
  fix n e ctx p r ctx' p'
  assume "um_find (m_handlers (runtime_dispatcher host)) n = Some e"
    "entry_handler e ctx p = Val r" "catch_handler r = (ctx', p')"
  then have "proc_eff host p p'"
    using eff_runtime_dispatcher [of host] unfolding eff_dispatcher_def by blast
  then show "proc_eff host p0 p \<Longrightarrow> proc_eff host p0 p'" by (rule proc_eff_trans)
qed

lemma run_eff:
  "dispatch_all (runtime_dispatcher host) ctxs p = Val (ctxs', p', d') \<Longrightarrow> proc_eff host p p'"
  by (rule served.run_inv [OF HOL.refl]) (auto intro: proc_eff.nothing)

section \<open>Paths and descriptors\<close>

definition trace_allowed :: "FsPolicy \<Rightarrow> 'w PS4Process \<Rightarrow> bool" where
  "trace_allowed pol p \<longleftrightarrow> p_vfs p = pol \<and> (\<forall>(c, r) \<in> set (p_trace p). call_allowed pol c)"

lemma host_call_fields:
  assumes "host_call host c p = (r, q)"
  shows "p_vfs q = p_vfs p" "p_handles q = p_handles p" "p_trace q = p_trace p @ [(c, r)]"
  using assms by (auto simp: host_call_def split: prod.splits)

lemma snd_host_call_fields [simp]:
  "p_vfs (snd (host_call host c p)) = p_vfs p"
  "p_handles (snd (host_call host c p)) = p_handles p"
  "p_trace (snd (host_call host c p)) = p_trace p @ [(c, fst (host_call host c p))]"
  by (auto simp: host_call_def split: prod.splits)

lemma destroy_object_fields [simp]:
  "p_vfs (destroy_object host obj p) = p_vfs p"
  "p_handles (destroy_object host obj p) = p_handles p"
  by (auto simp: destroy_object_def split: option.splits)

lemma trace_allowed_destroy: "trace_allowed pol p \<Longrightarrow> trace_allowed pol (destroy_object host obj p)"
  by (auto simp: trace_allowed_def destroy_object_def split: option.splits)

lemma register_object_trace_allowed:
  assumes "register_object host obj p = Val (h, p')" and "trace_allowed pol p"
  shows "trace_allowed pol p'"
proof -
  have "trace_allowed pol (p\<lparr>p_handles := t\<rparr>)" for t
    using assms(2) by (simp add: trace_allowed_def)
  with assms(1) show ?thesis
    by (auto simp: register_object_def Let_def split: prod.splits if_splits
        intro: trace_allowed_destroy)
qed

lemma proc_eff_trace_allowed:
  assumes "proc_eff host p q" and "trace_allowed pol p"
  shows "trace_allowed pol q"
  using assms
proof (induction rule: proc_eff.induct)
  case (acquires p q c r q1 obj h q2)
  then have "trace_allowed pol q1"
    by (auto simp: trace_allowed_def host_call_fields [OF acquires.hyps(4)])
  then show ?case by (rule register_object_trace_allowed [OF acquires.hyps(7)])
next
  case (acquire_fails p q c r q1)
  then show ?case by (auto simp: trace_allowed_def host_call_fields [OF acquire_fails.hyps(4)])
next
  case (release p q h obj t)
  then show ?case by (intro trace_allowed_destroy) (simp add: trace_allowed_def)
qed (auto simp: trace_allowed_def)

text \<open>Descriptors opened and closed along a trace, and those the handle table holds.\<close>

fun opened_fds :: "(HostCall \<times> HostReply) list \<Rightarrow> int multiset" where
  "opened_fds [] = {#}"
| "opened_fds ((c, r) # tr) =
     (if opens_fd c \<and> 0 \<le> hr_ret r then {#hr_ret r#} else {#}) + opened_fds tr"

fun closed_fds :: "(HostCall \<times> HostReply) list \<Rightarrow> int multiset" where
  "closed_fds [] = {#}"
| "closed_fds ((HClose fd, r) # tr) = {#fd#} + closed_fds tr"
| "closed_fds ((c, r) # tr) = closed_fds tr"

definition live_fds :: "(HostCall \<times> HostReply) list \<Rightarrow> int multiset" where
  "live_fds tr = opened_fds tr - closed_fds tr"

definition table_fds :: "HandleObject HandleTable \<Rightarrow> int multiset" where
  "table_fds t = mset (List.map_filter object_hostFd (map snd (h_objects t)))"

definition uses_live_fds :: "(HostCall \<times> HostReply) list \<Rightarrow> bool" where
  "uses_live_fds tr \<longleftrightarrow>
     (\<forall>i fd. i < length tr \<longrightarrow> call_fd (fst (tr ! i)) = Some fd \<longrightarrow> fd \<in># live_fds (take i tr))"

lemma opened_fds_append: "opened_fds (xs @ ys) = opened_fds xs + opened_fds ys"
  by (induction xs rule: opened_fds.induct) (auto simp: ac_simps)

lemma closed_fds_append: "closed_fds (xs @ ys) = closed_fds xs + closed_fds ys"
  by (induction xs rule: closed_fds.induct) (auto simp: ac_simps)

lemma closed_fds_single:
  "(\<And>fd. c \<noteq> HClose fd) \<Longrightarrow> closed_fds [(c, r)] = {#}"
  by (cases c) auto

lemma uses_live_fds_snoc:
  "uses_live_fds (tr @ [(c, r)]) \<longleftrightarrow>
     uses_live_fds tr \<and> (\<forall>fd. call_fd c = Some fd \<longrightarrow> fd \<in># live_fds tr)"
  by (auto simp: uses_live_fds_def nth_append less_Suc_eq)

definition fds_accounted :: "'w PS4Process \<Rightarrow> bool" where
  "fds_accounted p \<longleftrightarrow>
     opened_fds (p_trace p) = closed_fds (p_trace p) + table_fds (p_handles p)
     \<and> uses_live_fds (p_trace p)
     \<and> um_ok (h_objects (p_handles p))
     \<and> (\<forall>fd \<in># table_fds (p_handles p). 0 \<le> fd)"

lemma table_fds_mset:
  "table_fds t = image_mset (the \<circ> object_hostFd)
     (filter_mset (\<lambda>x. object_hostFd x \<noteq> None) (mset (map snd (h_objects t))))"
  by (simp add: table_fds_def List.map_filter_def)

lemma table_has_fd_mem: "table_has_fd p fd \<Longrightarrow> fd \<in># table_fds (p_handles p)"
  by (force simp: table_has_fd_def table_fds_def HandleTable_get_def List.map_filter_def
      image_iff dest: um_find_mem)

lemma table_fds_register:
  assumes "registerObject (Some obj) t = (h, t')" and "object_hostFd obj = Some fd"
  shows "table_fds t' =
    (if um_find (h_objects t) h = None then add_mset fd (table_fds t) else table_fds t)"
  using assms
  by (auto simp: registerObject_def table_fds_mset um_find_def um_emplace_def split: option.splits)

lemma table_fds_close:
  assumes "um_ok (h_objects t)" and "HandleTable_get t h = Some obj"
    and "HandleTable_close h t = (True, t')"
  shows "table_fds t = table_fds t' +
    (case object_hostFd obj of None \<Rightarrow> {#} | Some fd \<Rightarrow> {#fd#})"
proof -
  have "h_objects t' = um_erase h (h_objects t)"
    using assms(2,3) by (auto simp: HandleTable_close_def HandleTable_get_def)
  with mset_um_erase [OF assms(1)] assms(2) show ?thesis
    by (auto simp: table_fds_mset HandleTable_get_def split: option.splits)
qed

lemma um_ok_register:
  "registerObject (Some obj) t = (h, t') \<Longrightarrow> um_ok (h_objects t) \<Longrightarrow> um_ok (h_objects t')"
  by (auto simp: registerObject_def um_oks)

lemma um_ok_close:
  "HandleTable_close h t = (b, t') \<Longrightarrow> um_ok (h_objects t) \<Longrightarrow> um_ok (h_objects t')"
  by (auto simp: HandleTable_close_def um_oks split: option.splits)

lemma live_fds_accounted:
  "fds_accounted p \<Longrightarrow> live_fds (p_trace p) = table_fds (p_handles p)"
  by (simp add: fds_accounted_def live_fds_def)

text \<open>
  Between the host's answer and the registration one descriptor is in flight; between the
  removal from the table and the destructor, too. \<open>in_flight\<close> is the invariant at those points.
\<close>

definition in_flight :: "int multiset \<Rightarrow> 'w PS4Process \<Rightarrow> bool" where
  "in_flight X p \<longleftrightarrow>
     opened_fds (p_trace p) = closed_fds (p_trace p) + table_fds (p_handles p) + X
     \<and> uses_live_fds (p_trace p) \<and> um_ok (h_objects (p_handles p))
     \<and> (\<forall>fd \<in># table_fds (p_handles p) + X. 0 \<le> fd)"

lemma in_flight_empty: "in_flight {#} p \<longleftrightarrow> fds_accounted p"
  by (simp add: in_flight_def fds_accounted_def)

lemma in_flight_destroy:
  assumes "in_flight {#fd#} p" and "object_hostFd obj = Some fd"
  shows "fds_accounted (destroy_object host obj p)"
proof -
  from assms have "0 \<le> fd" by (simp add: in_flight_def)
  moreover have "fd \<in># live_fds (p_trace p)"
    using assms(1) by (simp add: in_flight_def live_fds_def)
  ultimately show ?thesis
    using assms
    by (auto simp: destroy_object_def fds_accounted_def in_flight_def opened_fds_append
        closed_fds_append uses_live_fds_snoc)
qed

lemma in_flight_register:
  assumes "in_flight {#fd#} p" and "object_hostFd obj = Some fd"
    and "register_object host obj p = Val (h, p')"
  shows "fds_accounted p'"
proof -
  obtain h' t' where r: "registerObject (Some obj) (p_handles p) = (h', t')"
    by (cases "registerObject (Some obj) (p_handles p)")
  note t' = table_fds_register [OF r assms(2)] and ok = um_ok_register [OF r]
  show ?thesis
  proof (cases "um_find (h_objects (p_handles p)) h' = None")
    case True
    then show ?thesis
      using assms r t' ok
      by (auto simp: register_object_def Let_def fds_accounted_def in_flight_def split: if_splits)
  next
    case False
    have "in_flight {#fd#} (p\<lparr>p_handles := t'\<rparr>)"
      using assms(1) t' ok False by (simp add: in_flight_def)
    with False show ?thesis
      using assms r in_flight_destroy [OF _ assms(2)]
      by (auto simp: register_object_def Let_def split: if_splits)
  qed
qed

lemma fds_accounted_call:
  assumes "fds_accounted q" and "\<not> opens_fd c" and "\<forall>fd. c \<noteq> HClose fd"
    and "\<forall>fd. call_fd c = Some fd \<longrightarrow> table_has_fd q fd"
  shows "fds_accounted (snd (host_call host c q))"
  using assms live_fds_accounted [OF assms(1)]
  by (auto simp: fds_accounted_def opened_fds_append closed_fds_append closed_fds_single
      uses_live_fds_snoc dest: table_has_fd_mem)

lemma opens_fd_props: "opens_fd c \<Longrightarrow> call_fd c = None \<and> closed_fds [(c, r)] = {#}"
  by (cases c) auto

lemma proc_eff_fds_accounted:
  assumes "proc_eff host p q" and "fds_accounted p"
  shows "fds_accounted q"
  using assms
proof (induction rule: proc_eff.induct)
  case (call p q c)
  then show ?case by (intro fds_accounted_call) auto
next
  case (acquire_fails p q c r q1)
  then show ?case
    using opens_fd_props [OF acquire_fails.hyps(3), of r]
    by (auto simp: fds_accounted_def host_call_fields [OF acquire_fails.hyps(4)]
        opened_fds_append closed_fds_append uses_live_fds_snoc)
next
  case (acquires p q c r q1 obj h q2)
  have "in_flight {#hr_ret r#} q1"
    using acquires opens_fd_props [OF acquires.hyps(3), of r]
    by (auto simp: in_flight_def fds_accounted_def host_call_fields [OF acquires.hyps(4)]
        opened_fds_append closed_fds_append uses_live_fds_snoc)
  then show ?case by (rule in_flight_register [OF _ acquires.hyps(6,7)])
next
  case (release p q h obj t)
  have ok: "um_ok (h_objects (p_handles q))" using release by (simp add: fds_accounted_def)
  note tf = table_fds_close [OF ok release.hyps(2,3)]
  show ?case
  proof (cases "object_hostFd obj")
    case None
    then show ?thesis
      using release tf um_ok_close [OF release.hyps(3)]
      by (simp add: destroy_object_def fds_accounted_def)
  next
    case (Some fd)
    have "in_flight {#fd#} (q\<lparr>p_handles := t\<rparr>)"
      using release tf um_ok_close [OF release.hyps(3)] Some
      by (simp add: in_flight_def fds_accounted_def)
    then show ?thesis by (rule in_flight_destroy [OF _ Some])
  qed
qed (auto simp: fds_accounted_def)

section \<open>Stores to guest memory\<close>

lemma length_Stat_bytes: "length (Stat_bytes s) = 144"
  by (simp add: Stat_bytes_def)

lemma le_value_slice:
  assumes "length xs = n" and "n + k \<le> length (xs @ le_bytes k w @ ys)"
  shows "le_value (take k (drop n (xs @ le_bytes k w @ ys))) = unat w mod 256 ^ k"
  using assms by (simp add: le_value_le_bytes)

section \<open>Properties\<close>

text \<open>A process before its first system call: no handle, nothing done on the host.\<close>

definition fresh_process :: "'w PS4Process \<Rightarrow> bool" where
  "fresh_process p \<longleftrightarrow> h_objects (p_handles p) = [] \<and> p_trace p = []"

text \<open>
  A concrete host and a concrete process for the examples below: the host opens descriptor 7,
  every other call succeeds with 0; the process has the default mounts and one page of
  guest memory that begins with the given bytes.
\<close>

definition zero_stat :: LinuxStat where
  "zero_stat = \<lparr>ls_dev = 0, ls_ino = 0, ls_nlink = 1, ls_mode = 0, ls_uid = 0, ls_gid = 0,
     ls_rdev = 0, ls_atim = (0, 0), ls_mtim = (0, 0), ls_ctim = (0, 0), ls_size = 0,
     ls_blocks = 0, ls_blksize = 4096\<rparr>"

definition host_reply :: "int \<Rightarrow> HostReply" where
  "host_reply v = \<lparr>hr_ret = v, hr_errno = 0, hr_stat = zero_stat, hr_time = (0, 0)\<rparr>"

definition calm_host :: "unit host" where
  "calm_host w m c =
     (host_reply (case c of HOpen path lf mode \<Rightarrow> 7 | HRead fd a n \<Rightarrow> uint n | _ \<Rightarrow> 0),
      (case c of HRead fd a n \<Rightarrow> m(a \<mapsto> 65) | _ \<Rightarrow> m), w)"

definition page_mem :: "u64 \<Rightarrow> string \<Rightarrow> memory" where
  "page_mem a s x =
     (if a \<le> x \<and> x < a + 0x1000
      then (let i = unat (x - a) in Some (if i < length s then of_char (s ! i) else 0))
      else None)"

definition guest_process :: "memory \<Rightarrow> unit PS4Process" where
  "guest_process m =
     \<lparr>p_id = 1, p_handles = HandleTable_new, p_space = AddressSpace_new, p_vfs = FsPolicy_default,
      p_threads = ThreadManager_new, p_mem = m, p_world = (), p_trace = []\<rparr>"

definition guest_call :: "int \<Rightarrow> u64 list \<Rightarrow> SyscallContext" where
  "guest_call n as = (SyscallContext_new n as)\<lparr>ctx_process := True\<rparr>"

definition run_trace :: "SyscallContext list \<Rightarrow> unit PS4Process \<Rightarrow> (HostCall list \<times> int list) option" where
  "run_trace ctxs p =
     (case dispatch_all (runtime_dispatcher calm_host) ctxs p of
        UB \<Rightarrow> None
      | Val (ctxs', p', d') \<Rightarrow> Some (map fst (p_trace p'), map ctx_retval ctxs'))"

lemma run_traceE:
  assumes "run_trace ctxs p = Some (cs, vs)"
  obtains ctxs' p' d' where "dispatch_all (runtime_dispatcher calm_host) ctxs p = Val (ctxs', p', d')"
    and "map fst (p_trace p') = cs" and "map ctx_retval ctxs' = vs"
  using assms by (auto simp: run_trace_def split: cpp.splits)

lemma fresh_guest_process: "fresh_process (guest_process m)"
  by (simp add: fresh_process_def guest_process_def HandleTable_new_def)

text \<open>An open for writing in \<^verbatim>\<open>/data\<close>, a write, and a close.\<close>

definition demo_calls :: "SyscallContext list" where
  "demo_calls =
     [guest_call 5 [0x100000010000, 0x202, 0x1B6, 0, 0, 0],
      guest_call 4 [3, 0x100000010000, 4, 0, 0, 0],
      guest_call 6 [3, 0, 0, 0, 0, 0]]"

lemma demo_run:
  "run_trace demo_calls (guest_process (page_mem 0x100000010000 ''/data/../data/a.bin''))
     = Some ([HOpen ''virtual_fs/data/a.bin'' 0x42 0x1B6, HWrite 7 0x100000010000 4, HClose 7],
             [3, 0, 0])"
  by code_simp

text \<open>
  C1. Confinement of the guest's file accesses. Whatever system calls the guest makes, in any
  order and with any arguments and memory contents, and however the host answers, every path
  the runtime hands to the host lies in a mount of the process's table (at the mount's directory or below it,
  by clean components). Directories are created only in mounts that are not read-only and allow creation, names removed or
  renamed only in mounts that are not read-only and allow deletion. A file opened without \<^verbatim>\<open>O_DIRECTORY\<close> for writing, or with
  \<^verbatim>\<open>O_CREAT\<close>, lies in a mount that is not read-only, and with \<^verbatim>\<open>O_CREAT\<close> in one that allows creation. The code
  asks no more of an open: neither \<^verbatim>\<open>O_TRUNC\<close> nor what accompanies \<^verbatim>\<open>O_DIRECTORY\<close> is tested, as
  \<open>open_truncates_read_only_mount\<close> shows.
\<close>

theorem guest_paths_confined:
  assumes "dispatch_all (runtime_dispatcher host) ctxs p = Val (ctxs', p', d')"
    and "fresh_process p" and "(c, r) \<in> set (p_trace p')"
  shows "call_allowed (p_vfs p) c"
proof -
  have "trace_allowed (p_vfs p) p" using assms(2) by (simp add: fresh_process_def trace_allowed_def)
  with run_eff [OF assms(1)] have "trace_allowed (p_vfs p) p'" by (rule proc_eff_trace_allowed)
  with assms(3) show ?thesis by (auto simp: trace_allowed_def)
qed

theorem guest_paths_confined_witness:
  "run_trace demo_calls (guest_process (page_mem 0x100000010000 ''/data/../data/a.bin''))
     = Some ([HOpen ''virtual_fs/data/a.bin'' 0x42 0x1B6, HWrite 7 0x100000010000 4, HClose 7],
             [3, 0, 0])
   \<and> call_allowed FsPolicy_default (HOpen ''virtual_fs/data/a.bin'' 0x42 0x1B6)"
proof -
  let ?p = "guest_process (page_mem 0x100000010000 ''/data/../data/a.bin'')"
  obtain ctxs' p' d' where
    r: "dispatch_all (runtime_dispatcher calm_host) demo_calls ?p = Val (ctxs', p', d')" and
    t: "map fst (p_trace p') =
      [HOpen ''virtual_fs/data/a.bin'' 0x42 0x1B6, HWrite 7 0x100000010000 4, HClose 7]"
    using demo_run by (rule run_traceE)
  have "HOpen ''virtual_fs/data/a.bin'' 0x42 0x1B6 \<in> set (map fst (p_trace p'))" by (simp add: t)
  then obtain rep where "(HOpen ''virtual_fs/data/a.bin'' 0x42 0x1B6, rep) \<in> set (p_trace p')"
    by auto
  from guest_paths_confined [OF r fresh_guest_process this] demo_run show ?thesis
    by (simp add: guest_process_def)
qed

text \<open>
  C2. Descriptor accounting. Over any run of system calls from a fresh process, the host
  descriptors the runtime opened are, as a multiset, exactly those it closed together with
  those the handle table holds: none leaks and none is closed twice. Every call on a
  descriptor names one that was open at that moment on behalf of the guest.
\<close>

theorem guest_fds_accounted:
  assumes "dispatch_all (runtime_dispatcher host) ctxs p = Val (ctxs', p', d')"
    and "fresh_process p"
  shows "opened_fds (p_trace p') = closed_fds (p_trace p') + table_fds (p_handles p')
         \<and> uses_live_fds (p_trace p')"
proof -
  have "fds_accounted p"
    using assms(2)
    by (simp add: fresh_process_def fds_accounted_def table_fds_def uses_live_fds_def um_oks
        List.map_filter_def)
  with run_eff [OF assms(1)] have "fds_accounted p'" by (rule proc_eff_fds_accounted)
  then show ?thesis by (simp add: fds_accounted_def)
qed

theorem guest_fds_accounted_witness:
  "\<exists>ctxs' p' d'.
     dispatch_all (runtime_dispatcher calm_host) demo_calls
       (guest_process (page_mem 0x100000010000 ''/data/../data/a.bin'')) = Val (ctxs', p', d')
     \<and> map fst (p_trace p')
         = [HOpen ''virtual_fs/data/a.bin'' 0x42 0x1B6, HWrite 7 0x100000010000 4, HClose 7]
     \<and> opened_fds (p_trace p') = closed_fds (p_trace p') + table_fds (p_handles p')"
proof -
  let ?p = "guest_process (page_mem 0x100000010000 ''/data/../data/a.bin'')"
  obtain ctxs' p' d' where
    r: "dispatch_all (runtime_dispatcher calm_host) demo_calls ?p = Val (ctxs', p', d')" and
    t: "map fst (p_trace p') =
      [HOpen ''virtual_fs/data/a.bin'' 0x42 0x1B6, HWrite 7 0x100000010000 4, HClose 7]"
    using demo_run by (rule run_traceE)
  from guest_fds_accounted [OF r fresh_guest_process] r t show ?thesis
    by (intro exI [of _ ctxs'] exI [of _ p'] exI [of _ d']) simp
qed

text \<open>
  C37. The system calls the runtime serves: \<^verbatim>\<open>registerAll\<close> installs 25 handlers, and exactly the other
  numbers are answered with ENOSYS under the name \<^verbatim>\<open>unimplemented\<close>, with the process and the dispatcher (its call
  counters too) left as they are. \<^verbatim>\<open>dispatch\<close> only logs such a call: it does not count it in the
  \<^verbatim>\<open>UnimplementedRegistry\<close>, which the comment of \<^verbatim>\<open>tests/syscall_dispatch_test.cpp\<close> and
  \<^verbatim>\<open>docs/unimplemented-report.md\<close> promise; nothing in the program reports to that registry.
\<close>

theorem unserved_calls_fail:
  "handlerCount (runtime_dispatcher host) = 25
   \<and> (ctx_number ctx \<notin> {1, 3, 4, 5, 6, 10, 20, 64, 69, 70, 95, 97, 116, 128, 136, 137, 188,
                       331, 332, 434, 437, 477, 478, 480, 484}
      \<longleftrightarrow> dispatch (runtime_dispatcher host) ctx p
          = Val ((ctx_fail 78 ctx)\<lparr>ctx_name := ''unimplemented''\<rparr>, p, runtime_dispatcher host)
          \<and> \<not> hasHandler (runtime_dispatcher host) (ctx_number ctx))"
proof -
  have 1: "handlerCount (runtime_dispatcher host) = 25"
    by (simp add: handlerCount_def runtime_dispatcher_def register_defs install_def
        registerHandler_def SyscallDispatcher_new_def um_assign_def)
  have 2: "hasHandler (runtime_dispatcher host) n \<longleftrightarrow>
      n \<in> {1, 3, 4, 5, 6, 10, 20, 64, 69, 70, 95, 97, 116, 128, 136, 137, 188,
           331, 332, 434, 437, 477, 478, 480, 484}" for n
    by (auto simp: hasHandler_def runtime_dispatcher_def register_defs install_find
        SyscallDispatcher_new_def um_simps split: if_splits)
  show ?thesis
    using 1 2 [of "ctx_number ctx"] by (auto simp: dispatch_def hasHandler_def)
qed

text \<open>
  A successful \<^verbatim>\<open>fstat\<close>: the host was asked about the descriptor of the handle, the guest's
  144-byte structure is written at the given address and nothing else in memory changes, the
  host's inode, owner, size and block count stand at the guest's offsets, and the mode is cut
  to 16 bits.
\<close>

theorem fstat_fills_guest_struct:
  assumes "h_fstat host ctx p = Val (ctx', p')" and "\<not> ctx_isError ctx'"
  shows "\<exists>obj fd r m w bs.
      HandleTable_get (p_handles p) (arg_handle ctx) = Some obj \<and> object_hostFd obj = Some fd
    \<and> host (p_world p) (p_mem p) (HFstat fd) = (r, m, w) \<and> hr_ret r = 0 \<and> ctx_retval ctx' = 0
    \<and> length bs = 144
    \<and> (\<forall>x. p_mem p' x = (if unat (x - ctx_arg ctx 1) < 144 then Some (bs ! unat (x - ctx_arg ctx 1))
                         else m x))
    \<and> le_value (take 8 (drop 8 bs)) = unat (ls_ino (hr_stat r))
    \<and> le_value (take 2 (drop 24 bs)) = unat (ls_mode (hr_stat r)) mod 2 ^ 16
    \<and> le_value (take 4 (drop 28 bs)) = unat (ls_uid (hr_stat r))
    \<and> le_value (take 8 (drop 96 bs)) = unat (ls_size (hr_stat r))
    \<and> le_value (take 8 (drop 104 bs)) = unat (ls_blocks (hr_stat r))"
proof -
  from assms obtain obj fd where o: "HandleTable_get (p_handles p) (arg_handle ctx) = Some obj"
    and fd: "object_hostFd obj = Some fd"
    by (auto simp: h_fstat_def result_defs split: if_splits option.splits)
  obtain r m w where h: "host (p_world p) (p_mem p) (HFstat fd) = (r, m, w)"
    by (cases "host (p_world p) (p_mem p) (HFstat fd)") auto
  let ?bs = "Stat_bytes (fillStatFromLinux (hr_stat r))"
  from assms o fd h have ret: "hr_ret r = 0" and v: "ctx_retval ctx' = 0"
    and s: "store_bytes (ctx_arg ctx 1) ?bs m = Val (p_mem p')"
    by (auto simp: h_fstat_def result_defs host_call_def put_bytes_def cpp_bind_eq_Val_iff
        split: if_splits)
  have mem: "p_mem p' x = (if unat (x - ctx_arg ctx 1) < 144
      then Some (?bs ! unat (x - ctx_arg ctx 1)) else m x)" for x
    using store_bytes_reads [OF s, of x] by (simp add: length_Stat_bytes)
  have f: "le_value (take 8 (drop 8 ?bs)) = unat (ls_ino (hr_stat r))"
      "le_value (take 2 (drop 24 ?bs)) = unat (ls_mode (hr_stat r)) mod 2 ^ 16"
      "le_value (take 4 (drop 28 ?bs)) = unat (ls_uid (hr_stat r))"
      "le_value (take 8 (drop 96 ?bs)) = unat (ls_size (hr_stat r))"
      "le_value (take 8 (drop 104 ?bs)) = unat (ls_blocks (hr_stat r))"
    using unsigned_less [of "ls_ino (hr_stat r)"] unsigned_less [of "ls_uid (hr_stat r)"]
      unsigned_less [of "ls_size (hr_stat r)"] unsigned_less [of "ls_blocks (hr_stat r)"]
    by (simp_all add: Stat_bytes_def fillStatFromLinux_def le_value_le_bytes unsigned_ucast_eq
        take_bit_eq_mod)
  show ?thesis
    using o fd h ret v length_Stat_bytes mem f by blast
qed

theorem fstat_fills_guest_struct_witness:
  "\<exists>ctx' p' bs.
     h_fstat calm_host (guest_call 484 [3, 0x100000010000, 0, 0, 0, 0])
       ((guest_process (page_mem 0x100000010000 []))
          \<lparr>p_handles := \<lparr>h_next = 4, h_objects = [(3, open_object 0 7 (Translation_init []))]\<rparr>\<rparr>)
       = Val (ctx', p')
     \<and> ctx_retval ctx' = 0 \<and> length bs = 144 \<and> le_value (take 8 (drop 96 bs)) = 0
     \<and> p_mem p' 0x100000010008 = Some (bs ! 8) \<and> p_mem p' 0x100000010800 = Some 0"
proof -
  let ?c = "guest_call 484 [3, 0x100000010000, 0, 0, 0, 0]"
  let ?p = "(guest_process (page_mem 0x100000010000 []))
          \<lparr>p_handles := \<lparr>h_next = 4, h_objects = [(3, open_object 0 7 (Translation_init []))]\<rparr>\<rparr>"
  have "list_all (\<lambda>i. page_mem 0x100000010000 [] (0x100000010000 + of_nat i) \<noteq> None) [0..<144]"
    by code_simp
  then obtain m' where "store_bytes 0x100000010000 (Stat_bytes (fillStatFromLinux zero_stat))
      (page_mem 0x100000010000 []) = Val m'"
    using store_bytes_total [of "Stat_bytes (fillStatFromLinux zero_stat)"
        "page_mem 0x100000010000 []" "0x100000010000"]
    by (auto simp: list_all_iff length_Stat_bytes)
  then obtain ctx' p' where 1: "h_fstat calm_host ?c ?p = Val (ctx', p')" and 2: "\<not> ctx_isError ctx'"
    by (simp add: h_fstat_def result_defs guest_call_def SyscallContext_new_def arg_handle_def
        ctx_arg_def HandleTable_get_def um_find_def open_object_def has_flag_def object_hostFd_def
        host_call_def guest_process_def calm_host_def host_reply_def put_bytes_def)
  have a: "ctx_arg ?c 1 = 0x100000010000" by code_simp
  have pm: "page_mem 0x100000010000 [] 0x100000010800 = Some 0" by code_simp
  from fstat_fills_guest_struct [OF 1 2] obtain fd r m w bs where
    h: "calm_host (p_world ?p) (p_mem ?p) (HFstat fd) = (r, m, w)" and v: "ctx_retval ctx' = 0"
    and l: "length bs = 144"
    and m: "\<And>x. p_mem p' x = (if unat (x - ctx_arg ?c 1) < 144
        then Some (bs ! unat (x - ctx_arg ?c 1)) else m x)"
    and sz: "le_value (take 8 (drop 96 bs)) = unat (ls_size (hr_stat r))"
    by blast
  have "p_mem p' 0x100000010008 = Some (bs ! 8)" "p_mem p' 0x100000010800 = m 0x100000010800"
    using m [of "0x100000010008"] m [of "0x100000010800"] by (simp_all add: a)
  moreover have "m = page_mem 0x100000010000 []" "hr_stat r = zero_stat"
    using h by (auto simp: calm_host_def host_reply_def guest_process_def)
  ultimately show ?thesis using 1 v l sz pm
    by (intro exI [of _ ctx'] exI [of _ p'] exI [of _ bs]) (simp add: zero_stat_def)
qed

text \<open>
  An open that truncates is checked as a read: on the read-only mount \<^verbatim>\<open>/app\<close> the flags
  \<^verbatim>\<open>O_RDONLY | O_TRUNC\<close> pass the policy and the host is asked to open the file with its own
  \<^verbatim>\<open>O_TRUNC\<close>, which empties it, while the same open for writing is refused with EACCES. With
  \<^verbatim>\<open>O_DIRECTORY\<close> beside them, \<^verbatim>\<open>O_CREAT\<close> and write access pass as a listing and reach the host.
\<close>

theorem open_truncates_read_only_mount:
  "run_trace [guest_call 5 [0x100000010000, 0x400, 0, 0, 0, 0]]
     (guest_process (page_mem 0x100000010000 ''/app/eboot.bin''))
     = Some ([HOpen ''virtual_fs/app/eboot.bin'' 0x200 0], [3])
   \<and> run_trace [guest_call 5 [0x100000010000, 0x1, 0, 0, 0, 0]]
     (guest_process (page_mem 0x100000010000 ''/app/eboot.bin''))
     = Some ([], [13])
   \<and> run_trace [guest_call 5 [0x100000010000, 0x20202, 0x1B6, 0, 0, 0]]
     (guest_process (page_mem 0x100000010000 ''/app/eboot.bin''))
     = Some ([HOpen ''virtual_fs/app/eboot.bin'' 0x10042 0x1B6], [3])
   \<and> map_option readOnly (match_mount FsPolicy_default ''/app/eboot.bin'') = Some True"
  by (intro conjI; code_simp)

text \<open>
  The buffer address of a read is not checked: the guest can name any address of the
  runtime process, here one outside the guest arena, and the host is told to store the
  file's bytes there.
\<close>

theorem read_outside_arena:
  "run_trace [guest_call 5 [0x100000010000, 0, 0, 0, 0, 0],
              guest_call 3 [3, 0x7FFF00000000, 8, 0, 0, 0]]
     (guest_process (page_mem 0x100000010000 ''/app/eboot.bin''))
     = Some ([HOpen ''virtual_fs/app/eboot.bin'' 0 0, HRead 7 0x7FFF00000000 8], [3, 8])
   \<and> \<not> arena_contains \<lparr>a_fd = 3, a_base = kGuestBase, a_size = kGuestSize\<rparr> 0x7FFF00000000 8"
  by (intro conjI; code_simp)

text \<open>
  \<^verbatim>\<open>stat\<close> copies its result to the address the guest gave without the test for null that
  \<^verbatim>\<open>fstat\<close> makes: a null pointer is answered with EFAULT by the one and is undefined behaviour
  (a store to an unmapped page of the runtime) in the other.
\<close>

theorem stat_null_destination:
  "run_trace [guest_call 188 [0x100000010000, 0, 0, 0, 0, 0]]
     (guest_process (page_mem 0x100000010000 ''/app/eboot.bin'')) = None
   \<and> run_trace [guest_call 5 [0x100000010000, 0, 0, 0, 0, 0], guest_call 484 [3, 0, 0, 0, 0, 0]]
     (guest_process (page_mem 0x100000010000 ''/app/eboot.bin''))
     = Some ([HOpen ''virtual_fs/app/eboot.bin'' 0 0, HFstat 7], [3, 14])"
  by (intro conjI; code_simp)

end
