(* ===== verification/Trap_Ring.thy ===== *)
theory Trap_Ring
  imports Prelude
begin

text \<open>
  \<^verbatim>\<open>syscall/trap/TrapRing.cpp\<close>: the ring of request slots between the guest threads and the
  server thread of the runtime. The operations are given as functions on the header, and
  their interleavings as a step relation whose steps are the single accesses to shared
  memory that \<^verbatim>\<open>submit\<close>, \<^verbatim>\<open>tryConsume\<close> and \<^verbatim>\<open>complete\<close> make, in program order.
\<close>

section \<open>Data\<close>

record TrapRequest =
  rq_number :: u64
  rq_args :: "u64 list"
  rq_threadId :: u32
  rq_kind :: u32

definition TrapRequest_new :: TrapRequest where
  "TrapRequest_new = \<lparr>rq_number = 0, rq_args = replicate 6 0, rq_threadId = 0, rq_kind = 0\<rparr>"

record TrapResponse =
  rs_retval :: u64
  rs_isError :: u32

definition TrapResponse_new :: TrapResponse where
  "TrapResponse_new = \<lparr>rs_retval = 0, rs_isError = 0\<rparr>"

datatype SlotState = SlotFree | SlotPending | SlotDone

record TrapSlot =
  sl_state :: SlotState
  sl_req :: TrapRequest
  sl_resp :: TrapResponse
  sl_guestWaitFutex :: u32

definition kTrapSlotCount :: nat where "kTrapSlotCount = 256"

record TrapRingHeader =
  hd_serverFutex :: u32
  hd_shutdown :: u32
  hd_slots :: "TrapSlot list"

definition TrapSlot_new :: TrapSlot where
  "TrapSlot_new = \<lparr>sl_state = SlotFree, sl_req = TrapRequest_new, sl_resp = TrapResponse_new,
     sl_guestWaitFutex = 0\<rparr>"

definition TrapRing_new :: TrapRingHeader where
  "TrapRing_new = \<lparr>hd_serverFutex = 0, hd_shutdown = 0,
     hd_slots = replicate kTrapSlotCount TrapSlot_new\<rparr>"

section \<open>Operations\<close>

definition TrapRing_initialize :: "TrapRingHeader \<Rightarrow> TrapRingHeader" where
  "TrapRing_initialize h =
     h\<lparr>hd_slots := map (\<lambda>s. s\<lparr>sl_state := SlotFree, sl_guestWaitFutex := 0\<rparr>) (hd_slots h),
       hd_serverFutex := 0, hd_shutdown := 0\<rparr>"

definition update_slot :: "nat \<Rightarrow> (TrapSlot \<Rightarrow> TrapSlot) \<Rightarrow> TrapRingHeader \<Rightarrow> TrapRingHeader" where
  "update_slot i f h = h\<lparr>hd_slots := (hd_slots h)[i := f (hd_slots h ! i)]\<rparr>"

text \<open>\<open>None\<close> stands for the result \<^verbatim>\<open>UINT32_MAX\<close>: no slot is free.\<close>

fun claim_from :: "nat \<Rightarrow> TrapSlot list \<Rightarrow> nat option" where
  "claim_from i [] = None"
| "claim_from i (s # ss) = (if sl_state s = SlotFree then Some i else claim_from (Suc i) ss)"

definition claimSlot :: "TrapRingHeader \<Rightarrow> nat option \<times> TrapRingHeader" where
  "claimSlot h =
     (case claim_from 0 (hd_slots h) of
        None \<Rightarrow> (None, h)
      | Some i \<Rightarrow> (Some i, update_slot i (\<lambda>s. s\<lparr>sl_state := SlotPending\<rparr>) h))"

definition releaseSlot :: "nat \<Rightarrow> TrapRingHeader \<Rightarrow> TrapRingHeader" where
  "releaseSlot i h =
     (if i \<ge> kTrapSlotCount then h else update_slot i (\<lambda>s. s\<lparr>sl_state := SlotFree\<rparr>) h)"

fun consume_from :: "nat \<Rightarrow> TrapSlot list \<Rightarrow> (TrapRequest \<times> nat) option" where
  "consume_from i [] = None"
| "consume_from i (s # ss) =
     (if sl_state s = SlotPending then Some (sl_req s, i) else consume_from (Suc i) ss)"

definition tryConsume :: "TrapRingHeader \<Rightarrow> (TrapRequest \<times> nat) option" where
  "tryConsume h = consume_from 0 (hd_slots h)"

definition complete_slot :: "nat \<Rightarrow> TrapResponse \<Rightarrow> TrapRingHeader \<Rightarrow> TrapRingHeader" where
  "complete_slot i r h =
     (if i \<ge> kTrapSlotCount then h
      else update_slot i (\<lambda>s. s\<lparr>sl_resp := r, sl_state := SlotDone,
                               sl_guestWaitFutex := sl_guestWaitFutex s + 1\<rparr>) h)"

definition wakeServer :: "TrapRingHeader \<Rightarrow> TrapRingHeader" where
  "wakeServer h = h\<lparr>hd_serverFutex := hd_serverFutex h + 1\<rparr>"

definition requestShutdown :: "TrapRingHeader \<Rightarrow> TrapRingHeader" where
  "requestShutdown h = h\<lparr>hd_shutdown := 1\<rparr>"

text \<open>\<^verbatim>\<open>waitForWork\<close> returns whether shutdown is still unset, tested before and after the wait.\<close>

definition waitForWork :: "TrapRingHeader \<Rightarrow> TrapRingHeader \<Rightarrow> bool" where
  "waitForWork before after = (if hd_shutdown before \<noteq> 0 then False else hd_shutdown after = 0)"

text \<open>The part of \<^verbatim>\<open>submit\<close> between the claim and the wait, and its end.\<close>

definition submit_publish :: "nat \<Rightarrow> TrapRequest \<Rightarrow> TrapRingHeader \<Rightarrow> TrapRingHeader" where
  "submit_publish i rq h =
     wakeServer (update_slot i (\<lambda>s. s\<lparr>sl_req := rq, sl_resp := TrapResponse_new,
                                      sl_guestWaitFutex := 0\<rparr>) h)"

definition submit_finish :: "nat \<Rightarrow> TrapRingHeader \<Rightarrow> TrapResponse \<times> TrapRingHeader" where
  "submit_finish i h = (sl_resp (hd_slots h ! i), releaseSlot i h)"

text \<open>One trap served with no other thread around, for a server that answers with \<open>serve\<close>.\<close>

definition submit_alone ::
  "(TrapRequest \<Rightarrow> TrapResponse) \<Rightarrow> TrapRequest \<Rightarrow> TrapRingHeader
     \<Rightarrow> (TrapResponse \<times> TrapRingHeader) option" where
  "submit_alone serve rq h =
     (case claimSlot h of
        (None, _) \<Rightarrow> None
      | (Some i, h1) \<Rightarrow>
          (case tryConsume (submit_publish i rq h1) of
             None \<Rightarrow> None
           | Some (rq', j) \<Rightarrow>
               Some (submit_finish i (complete_slot j (serve rq') (submit_publish i rq h1)))))"

section \<open>Interleavings\<close>

text \<open>
  Program counters. A guest thread in \<^verbatim>\<open>submit\<close>: it claimed a slot, wrote the request, cleared
  the response, reset the futex, notified the server, then loops: it loads the state, and
  if that is not \<^verbatim>\<open>Done\<close> enters the futex wait. The server thread: it read a pending request,
  computed the answer, wrote it, stored \<^verbatim>\<open>Done\<close>, bumped the futex, and wakes the waiter.
\<close>

datatype guest_pc =
    GIdle
  | GClaimed TrapRequest nat
  | GWrote TrapRequest nat
  | GCleared TrapRequest nat
  | GArmed TrapRequest nat
  | GLoop TrapRequest nat
  | GChecked TrapRequest nat
  | GBlocked TrapRequest nat
  | GTook TrapRequest nat TrapResponse
  | GReturned TrapRequest TrapResponse

datatype server_pc =
    SIdle
  | SHas nat TrapRequest
  | SAnswered nat TrapResponse
  | SStored nat
  | SDone nat
  | SWake nat

record ring_state =
  g_pc :: "nat \<Rightarrow> guest_pc"
  s_pc :: server_pc
  slot :: "nat \<Rightarrow> TrapSlot"

fun holds :: "guest_pc \<Rightarrow> nat option" where
  "holds GIdle = None"
| "holds (GClaimed rq i) = Some i"
| "holds (GWrote rq i) = Some i"
| "holds (GCleared rq i) = Some i"
| "holds (GArmed rq i) = Some i"
| "holds (GLoop rq i) = Some i"
| "holds (GChecked rq i) = Some i"
| "holds (GBlocked rq i) = Some i"
| "holds (GTook rq i r) = Some i"
| "holds (GReturned rq r) = None"

fun published :: "guest_pc \<Rightarrow> bool" where
  "published (GArmed rq i) = True"
| "published (GLoop rq i) = True"
| "published (GChecked rq i) = True"
| "published (GBlocked rq i) = True"
| "published (GTook rq i r) = True"
| "published _ = False"

fun wakened :: "nat \<Rightarrow> guest_pc \<Rightarrow> guest_pc" where
  "wakened i (GBlocked rq j) = (if i = j then GLoop rq j else GBlocked rq j)"
| "wakened i pc = pc"

text \<open>An access to one slot; the shared memory is the map from slot numbers to slots.\<close>

definition touch :: "nat \<Rightarrow> (TrapSlot \<Rightarrow> TrapSlot) \<Rightarrow> (nat \<Rightarrow> TrapSlot) \<Rightarrow> nat \<Rightarrow> TrapSlot" where
  "touch i f m = m(i := f (m i))"

lemma touch_apply [simp]: "touch i f m j = (if j = i then f (m i) else m j)"
  by (simp add: touch_def)

text \<open>
  The parameters of the relation: \<open>serve\<close> answers requests; \<open>same\<close> says whether the guest threads are threads
  of the server's process, for the futex calls carry \<^verbatim>\<open>FUTEX_PRIVATE_FLAG\<close> and a wake reaches only waiters of the
  process that makes it (a guest that \<^verbatim>\<open>GuestProcess::spawn\<close> forked is in another process); \<open>spurious\<close> says
  whether a futex wait may also return by itself, as it may for a signal; \<open>ordered\<close> restricts the
  schedules to those in which the server reads a slot only after its owner has written the payload.
\<close>

inductive ring_step ::
  "(TrapRequest \<Rightarrow> TrapResponse) \<Rightarrow> bool \<Rightarrow> bool \<Rightarrow> bool \<Rightarrow> ring_state \<Rightarrow> ring_state \<Rightarrow> bool"
  for serve same spurious ordered where
  claim: "g_pc s t = GIdle \<Longrightarrow> i < kTrapSlotCount \<Longrightarrow> sl_state (slot s i) = SlotFree
    \<Longrightarrow> ring_step serve same spurious ordered s
         (s\<lparr>g_pc := (g_pc s)(t := GClaimed rq i),
            slot := touch i (\<lambda>x. x\<lparr>sl_state := SlotPending\<rparr>) (slot s)\<rparr>)"
| put: "g_pc s t = GClaimed rq i
    \<Longrightarrow> ring_step serve same spurious ordered s
         (s\<lparr>g_pc := (g_pc s)(t := GWrote rq i), slot := touch i (\<lambda>x. x\<lparr>sl_req := rq\<rparr>) (slot s)\<rparr>)"
| clear: "g_pc s t = GWrote rq i
    \<Longrightarrow> ring_step serve same spurious ordered s
         (s\<lparr>g_pc := (g_pc s)(t := GCleared rq i),
            slot := touch i (\<lambda>x. x\<lparr>sl_resp := TrapResponse_new\<rparr>) (slot s)\<rparr>)"
| arm: "g_pc s t = GCleared rq i
    \<Longrightarrow> ring_step serve same spurious ordered s
         (s\<lparr>g_pc := (g_pc s)(t := GArmed rq i),
            slot := touch i (\<lambda>x. x\<lparr>sl_guestWaitFutex := 0\<rparr>) (slot s)\<rparr>)"
| notify: "g_pc s t = GArmed rq i
    \<Longrightarrow> ring_step serve same spurious ordered s
         (s\<lparr>g_pc := (g_pc s)(t := GLoop rq i)\<rparr>)"
| load_done: "g_pc s t = GLoop rq i \<Longrightarrow> sl_state (slot s i) = SlotDone
    \<Longrightarrow> ring_step serve same spurious ordered s
         (s\<lparr>g_pc := (g_pc s)(t := GTook rq i (sl_resp (slot s i)))\<rparr>)"
| load_other: "g_pc s t = GLoop rq i \<Longrightarrow> sl_state (slot s i) \<noteq> SlotDone
    \<Longrightarrow> ring_step serve same spurious ordered s (s\<lparr>g_pc := (g_pc s)(t := GChecked rq i)\<rparr>)"
| wait_now: "g_pc s t = GChecked rq i \<Longrightarrow> sl_guestWaitFutex (slot s i) = 0
    \<Longrightarrow> ring_step serve same spurious ordered s (s\<lparr>g_pc := (g_pc s)(t := GBlocked rq i)\<rparr>)"
| wait_again: "g_pc s t = GChecked rq i \<Longrightarrow> sl_guestWaitFutex (slot s i) \<noteq> 0
    \<Longrightarrow> ring_step serve same spurious ordered s (s\<lparr>g_pc := (g_pc s)(t := GLoop rq i)\<rparr>)"
| wait_returns: "g_pc s t = GBlocked rq i \<Longrightarrow> spurious
    \<Longrightarrow> ring_step serve same spurious ordered s (s\<lparr>g_pc := (g_pc s)(t := GLoop rq i)\<rparr>)"
| release: "g_pc s t = GTook rq i r
    \<Longrightarrow> ring_step serve same spurious ordered s
         (s\<lparr>g_pc := (g_pc s)(t := GReturned rq r), slot := touch i (\<lambda>x. x\<lparr>sl_state := SlotFree\<rparr>) (slot s)\<rparr>)"
| return: "g_pc s t = GReturned rq r
    \<Longrightarrow> ring_step serve same spurious ordered s (s\<lparr>g_pc := (g_pc s)(t := GIdle)\<rparr>)"
| consume: "s_pc s = SIdle \<Longrightarrow> i < kTrapSlotCount \<Longrightarrow> sl_state (slot s i) = SlotPending
    \<Longrightarrow> ordered \<longrightarrow> (\<exists>t. holds (g_pc s t) = Some i \<and> published (g_pc s t))
    \<Longrightarrow> ring_step serve same spurious ordered s (s\<lparr>s_pc := SHas i (sl_req (slot s i))\<rparr>)"
| answer: "s_pc s = SHas i rq
    \<Longrightarrow> ring_step serve same spurious ordered s (s\<lparr>s_pc := SAnswered i (serve rq)\<rparr>)"
| store: "s_pc s = SAnswered i r
    \<Longrightarrow> ring_step serve same spurious ordered s
         (s\<lparr>s_pc := SStored i, slot := touch i (\<lambda>x. x\<lparr>sl_resp := r\<rparr>) (slot s)\<rparr>)"
| finish: "s_pc s = SStored i
    \<Longrightarrow> ring_step serve same spurious ordered s
         (s\<lparr>s_pc := SDone i, slot := touch i (\<lambda>x. x\<lparr>sl_state := SlotDone\<rparr>) (slot s)\<rparr>)"
| bump: "s_pc s = SDone i
    \<Longrightarrow> ring_step serve same spurious ordered s
         (s\<lparr>s_pc := SWake i,
            slot := touch i (\<lambda>x. x\<lparr>sl_guestWaitFutex := sl_guestWaitFutex x + 1\<rparr>) (slot s)\<rparr>)"
| wake: "s_pc s = SWake i
    \<Longrightarrow> ring_step serve same spurious ordered s
         (s\<lparr>s_pc := SIdle, g_pc := if same then (\<lambda>t. wakened i (g_pc s t)) else g_pc s\<rparr>)"

definition ring_start :: ring_state where
  "ring_start = \<lparr>g_pc = (\<lambda>t. GIdle), s_pc = SIdle, slot = (\<lambda>i. TrapSlot_new)\<rparr>"

inductive ring_steps ::
  "(TrapRequest \<Rightarrow> TrapResponse) \<Rightarrow> bool \<Rightarrow> bool \<Rightarrow> bool \<Rightarrow> ring_state \<Rightarrow> ring_state \<Rightarrow> bool"
  for serve same spurious ordered where
  stop: "ring_steps serve same spurious ordered s s"
| more: "ring_steps serve same spurious ordered s s' \<Longrightarrow> ring_step serve same spurious ordered s' s''
    \<Longrightarrow> ring_steps serve same spurious ordered s s''"

lemma ring_reach_induct [consumes 1, case_names start step]:
  assumes "ring_steps serve same spurious ordered ring_start s"
    and "P ring_start"
    and "\<And>s s'. P s \<Longrightarrow> ring_step serve same spurious ordered s s' \<Longrightarrow> P s'"
  shows "P s"
  using assms by (induction ring_start s rule: ring_steps.induct) blast+

section \<open>Slot ownership\<close>

lemma holds_wakened [simp]: "holds (wakened i pc) = holds pc"
  by (cases "(i, pc)" rule: wakened.cases) auto

lemma published_wakened [simp]: "published (wakened i pc) = published pc"
  by (cases "(i, pc)" rule: wakened.cases) auto

lemma wakened_GTook [simp]: "wakened i pc = GTook rq j r \<longleftrightarrow> pc = GTook rq j r"
  by (cases "(i, pc)" rule: wakened.cases) auto

fun serving :: "server_pc \<Rightarrow> nat option" where
  "serving (SHas i rq) = Some i"
| "serving (SAnswered i r) = Some i"
| "serving (SStored i) = Some i"
| "serving _ = None"

definition inv_holds :: "ring_state \<Rightarrow> bool" where
  "inv_holds s \<longleftrightarrow> (\<forall>t i. holds (g_pc s t) = Some i \<longrightarrow>
     i < kTrapSlotCount \<and> sl_state (slot s i) \<noteq> SlotFree)"

definition inv_excl :: "ring_state \<Rightarrow> bool" where
  "inv_excl s \<longleftrightarrow> (\<forall>t u i. holds (g_pc s t) = Some i \<longrightarrow> holds (g_pc s u) = Some i \<longrightarrow> t = u)"

definition inv_owned :: "ring_state \<Rightarrow> bool" where
  "inv_owned s \<longleftrightarrow> (\<forall>i. sl_state (slot s i) \<noteq> SlotFree \<longrightarrow> (\<exists>t. holds (g_pc s t) = Some i))"

definition inv_server :: "ring_state \<Rightarrow> bool" where
  "inv_server s \<longleftrightarrow> (\<forall>i. serving (s_pc s) = Some i \<longrightarrow> sl_state (slot s i) = SlotPending)"

definition inv_took :: "ring_state \<Rightarrow> bool" where
  "inv_took s \<longleftrightarrow> (\<forall>t rq i r. g_pc s t = GTook rq i r \<longrightarrow> sl_state (slot s i) = SlotDone)"

lemmas inv_defs = inv_holds_def inv_excl_def inv_owned_def inv_server_def inv_took_def

definition ring_inv :: "ring_state \<Rightarrow> bool" where
  "ring_inv s \<longleftrightarrow> inv_holds s \<and> inv_excl s \<and> inv_owned s \<and> inv_server s \<and> inv_took s"

lemma ring_invD:
  assumes "ring_inv s"
  shows "holds (g_pc s t) = Some i \<Longrightarrow> i < kTrapSlotCount"
    and "holds (g_pc s t) = Some i \<Longrightarrow> sl_state (slot s i) \<noteq> SlotFree"
    and "holds (g_pc s t) = Some i \<Longrightarrow> holds (g_pc s u) = Some i \<Longrightarrow> t = u"
    and "sl_state (slot s i) \<noteq> SlotFree \<Longrightarrow> \<exists>t. holds (g_pc s t) = Some i"
    and "serving (s_pc s) = Some i \<Longrightarrow> sl_state (slot s i) = SlotPending"
    and "g_pc s t = GTook rq i r \<Longrightarrow> sl_state (slot s i) = SlotDone"
  using assms unfolding ring_inv_def inv_defs by blast+

lemma inv_holds_step:
  assumes "ring_step serve same spurious ordered s s'" and I: "ring_inv s"
  shows "inv_holds s'"
  using assms(1)
  by cases (auto simp: inv_holds_def dest: ring_invD(1-3) [OF I],
      (metis ring_invD(1-3) [OF I] holds.simps)+)

lemma inv_excl_step:
  assumes "ring_step serve same spurious ordered s s'" and I: "ring_inv s"
  shows "inv_excl s'"
  using assms(1)
  by cases (auto simp: inv_excl_def dest: ring_invD(2,3) [OF I],
      (metis ring_invD(2,3) [OF I] holds.simps)+)

lemma holds_upd:
  "holds (f t) = holds pc \<Longrightarrow> holds ((f(t := pc)) u) = holds (f u)"
  by simp

lemma inv_owned_step:
  assumes "ring_step serve same spurious ordered s s'" and I: "ring_inv s"
  shows "inv_owned s'"
  using assms(1)
proof cases
  case (claim t i rq)
  then show ?thesis
    using ring_invD(4) [OF I] by (auto simp: inv_owned_def) (metis holds.simps(1) option.distinct(1))
next
  case (release t rq i r)
  then have t: "holds (g_pc s t) = Some i" by simp
  have "\<exists>u. u \<noteq> t \<and> holds (g_pc s u) = Some j" if "j \<noteq> i" "sl_state (slot s j) \<noteq> SlotFree" for j
    using ring_invD(4) [OF I that(2)] t that(1) by (metis option.inject)
  with release show ?thesis by (auto simp: inv_owned_def)
next
  case (return t rq r)
  then show ?thesis
    using ring_invD(4) [OF I] by (auto simp: inv_owned_def holds_upd simp del: fun_upd_apply)
next
  case (finish i)
  then have "sl_state (slot s i) = SlotPending" using ring_invD(5) [OF I] by simp
  with finish show ?thesis
    using ring_invD(4) [OF I] by (auto simp: inv_owned_def split: if_splits)
qed (use ring_invD(4) [OF I] in
    \<open>auto simp: inv_owned_def holds_upd split: if_splits simp del: fun_upd_apply\<close>)

lemma inv_server_step:
  assumes "ring_step serve same spurious ordered s s'" and I: "ring_inv s"
  shows "inv_server s'"
  using assms(1)
  by cases (auto simp: inv_server_def dest: ring_invD(5) [OF I],
      (metis ring_invD(5,6) [OF I] serving.simps SlotState.distinct)+)

lemma inv_took_step:
  assumes "ring_step serve same spurious ordered s s'" and I: "ring_inv s"
  shows "inv_took s'"
  using assms(1)
  by cases (auto simp: inv_took_def dest: ring_invD(6) [OF I],
      (metis ring_invD(3,6) [OF I] holds.simps SlotState.distinct guest_pc.distinct)+)

lemma ring_inv_step:
  "ring_step serve same spurious ordered s s' \<Longrightarrow> ring_inv s \<Longrightarrow> ring_inv s'"
  unfolding ring_inv_def [of s']
  by (intro conjI; elim inv_holds_step inv_excl_step inv_owned_step inv_server_step inv_took_step)

lemma ring_inv_reach: "ring_steps serve same spurious ordered ring_start s \<Longrightarrow> ring_inv s"
proof (induction rule: ring_reach_induct)
  case start
  show ?case by (simp add: ring_inv_def inv_defs ring_start_def TrapSlot_new_def)
next
  case (step s s')
  then show ?case by (blast intro: ring_inv_step)
qed

section \<open>Answers under ordered schedules\<close>

fun guest_req :: "guest_pc \<Rightarrow> TrapRequest option" where
  "guest_req GIdle = None"
| "guest_req (GClaimed rq i) = Some rq"
| "guest_req (GWrote rq i) = Some rq"
| "guest_req (GCleared rq i) = Some rq"
| "guest_req (GArmed rq i) = Some rq"
| "guest_req (GLoop rq i) = Some rq"
| "guest_req (GChecked rq i) = Some rq"
| "guest_req (GBlocked rq i) = Some rq"
| "guest_req (GTook rq i r) = Some rq"
| "guest_req (GReturned rq r) = None"

lemma guest_req_wakened [simp]: "guest_req (wakened i pc) = guest_req pc"
  by (cases "(i, pc)" rule: wakened.cases) auto

lemma wakened_GReturned [simp]: "wakened i pc = GReturned rq r \<longleftrightarrow> pc = GReturned rq r"
  by (cases "(i, pc)" rule: wakened.cases) auto

definition wrote :: "guest_pc \<Rightarrow> bool" where
  "wrote pc \<longleftrightarrow> (case pc of GClaimed rq i \<Rightarrow> False | _ \<Rightarrow> True)"

lemma wrote_wakened [simp]: "wrote (wakened i pc) = wrote pc"
  by (cases "(i, pc)" rule: wakened.cases) (auto simp: wrote_def)

lemma wrote_simps [simp]:
  "\<not> wrote (GClaimed rq i)" "wrote (GWrote rq i)" "wrote (GCleared rq i)" "wrote (GArmed rq i)"
  "wrote (GLoop rq i)" "wrote (GChecked rq i)" "wrote (GBlocked rq i)" "wrote (GTook rq i r)"
  by (simp_all add: wrote_def)

definition ord_unpublished :: "ring_state \<Rightarrow> bool" where
  "ord_unpublished s \<longleftrightarrow> (\<forall>t i. holds (g_pc s t) = Some i \<longrightarrow> \<not> published (g_pc s t) \<longrightarrow>
     sl_state (slot s i) = SlotPending \<and> serving (s_pc s) \<noteq> Some i)"

definition ord_request :: "ring_state \<Rightarrow> bool" where
  "ord_request s \<longleftrightarrow> (\<forall>t i rq. holds (g_pc s t) = Some i \<longrightarrow> guest_req (g_pc s t) = Some rq \<longrightarrow>
     wrote (g_pc s t) \<longrightarrow> sl_req (slot s i) = rq)"

definition ord_server :: "(TrapRequest \<Rightarrow> TrapResponse) \<Rightarrow> ring_state \<Rightarrow> bool" where
  "ord_server serve s \<longleftrightarrow>
     (\<forall>i rq. s_pc s = SHas i rq \<longrightarrow> sl_req (slot s i) = rq)
     \<and> (\<forall>i r. s_pc s = SAnswered i r \<longrightarrow> r = serve (sl_req (slot s i)))
     \<and> (\<forall>i. s_pc s = SStored i \<longrightarrow> sl_resp (slot s i) = serve (sl_req (slot s i)))"

definition ord_done :: "(TrapRequest \<Rightarrow> TrapResponse) \<Rightarrow> ring_state \<Rightarrow> bool" where
  "ord_done serve s \<longleftrightarrow>
     (\<forall>i. sl_state (slot s i) = SlotDone \<longrightarrow> sl_resp (slot s i) = serve (sl_req (slot s i)))"

definition ord_result :: "(TrapRequest \<Rightarrow> TrapResponse) \<Rightarrow> ring_state \<Rightarrow> bool" where
  "ord_result serve s \<longleftrightarrow>
     (\<forall>t rq i r. g_pc s t = GTook rq i r \<longrightarrow> r = serve rq)
     \<and> (\<forall>t rq r. g_pc s t = GReturned rq r \<longrightarrow> r = serve rq)"

definition ord_inv :: "(TrapRequest \<Rightarrow> TrapResponse) \<Rightarrow> ring_state \<Rightarrow> bool" where
  "ord_inv serve s \<longleftrightarrow> ring_inv s \<and> ord_unpublished s \<and> ord_request s \<and> ord_server serve s
     \<and> ord_done serve s \<and> ord_result serve s"

lemmas ord_defs = ord_unpublished_def ord_request_def ord_server_def ord_done_def ord_result_def

lemma ord_invD:
  assumes "ord_inv serve s"
  shows "ring_inv s"
    and "holds (g_pc s t) = Some i \<Longrightarrow> \<not> published (g_pc s t) \<Longrightarrow> sl_state (slot s i) = SlotPending"
    and "holds (g_pc s t) = Some i \<Longrightarrow> \<not> published (g_pc s t) \<Longrightarrow> serving (s_pc s) \<noteq> Some i"
    and "holds (g_pc s t) = Some i \<Longrightarrow> guest_req (g_pc s t) = Some rq \<Longrightarrow> wrote (g_pc s t)
          \<Longrightarrow> sl_req (slot s i) = rq"
    and "s_pc s = SHas i rq \<Longrightarrow> sl_req (slot s i) = rq"
    and "s_pc s = SAnswered i r \<Longrightarrow> r = serve (sl_req (slot s i))"
    and "s_pc s = SStored i \<Longrightarrow> sl_resp (slot s i) = serve (sl_req (slot s i))"
    and "sl_state (slot s i) = SlotDone \<Longrightarrow> sl_resp (slot s i) = serve (sl_req (slot s i))"
    and "g_pc s t = GTook rq i r \<Longrightarrow> r = serve rq"
    and "g_pc s t = GReturned rq r \<Longrightarrow> r = serve rq"
  using assms unfolding ord_inv_def ord_defs by blast+

lemma ord_unpublished_step:
  assumes "ring_step serve same spurious True s s'" and I: "ord_inv serve s"
  shows "ord_unpublished s'"
  using assms(1)
  by cases (auto simp: ord_unpublished_def dest: ord_invD(2,3) [OF I] ring_invD(5) [OF ord_invD(1) [OF I]],
      (metis ord_invD(2,3) [OF I] holds.simps published.simps
       | metis ring_invD(3) [OF ord_invD(1) [OF I]] holds.simps)+)

lemma ord_request_step:
  assumes "ring_step serve same spurious True s s'" and I: "ord_inv serve s"
  shows "ord_request s'"
  using assms(1)
  by cases (auto simp: ord_request_def dest: ord_invD(4) [OF I],
      (metis ord_invD(4) [OF I] ring_invD(3) [OF ord_invD(1) [OF I]] holds.simps guest_req.simps wrote_simps)+)

lemma ord_server_step:
  assumes "ring_step serve same spurious True s s'" and I: "ord_inv serve s"
  shows "ord_server serve s'"
  using assms(1)
  by cases (auto simp: ord_server_def dest: ord_invD(5-7) [OF I],
      (metis ord_invD(3) [OF I] holds.simps published.simps serving.simps)+)

lemma ord_done_step:
  assumes "ring_step serve same spurious True s s'" and I: "ord_inv serve s"
  shows "ord_done serve s'"
  using assms(1)
  by cases (auto simp: ord_done_def dest: ord_invD(6-8) [OF I],
      (metis ord_invD(2) [OF I] holds.simps published.simps SlotState.distinct)+)

lemma ord_result_step:
  assumes "ring_step serve same spurious True s s'" and I: "ord_inv serve s"
  shows "ord_result serve s'"
  using assms(1)
  by cases (auto simp: ord_result_def dest: ord_invD(9,10) [OF I],
      (metis ord_invD(4,8) [OF I] holds.simps guest_req.simps wrote_simps)+)

lemma ord_inv_reach:
  assumes "ring_steps serve same spurious True ring_start s"
  shows "ord_inv serve s"
  using assms
proof (induction rule: ring_reach_induct)
  case start
  show ?case
    by (simp add: ord_inv_def ord_defs ring_inv_def inv_defs ring_start_def TrapSlot_new_def)
next
  case (step s s')
  then show ?case
    unfolding ord_inv_def [of serve s']
    by (blast intro: ring_inv_step ord_invD(1) ord_unpublished_step ord_request_step
        ord_server_step ord_done_step ord_result_step)
qed

section \<open>Wake-ups\<close>

fun unarmed :: "guest_pc \<Rightarrow> bool" where
  "unarmed (GClaimed rq i) = True"
| "unarmed (GWrote rq i) = True"
| "unarmed (GCleared rq i) = True"
| "unarmed _ = False"

lemma unarmed_wakened [simp]: "unarmed (wakened i pc) = unarmed pc"
  by (cases "(i, pc)" rule: wakened.cases) auto

text \<open>
  The futex word of a slot counts completions since it was reset; together with a completion
  whose bump is still to come it stays at most 3, so the bump never wraps it to 0.
\<close>

definition bumps :: "ring_state \<Rightarrow> nat \<Rightarrow> nat" where
  "bumps s i = unat (sl_guestWaitFutex (slot s i)) + (if s_pc s = SDone i then 1 else 0)"

definition inv_bumps :: "ring_state \<Rightarrow> bool" where
  "inv_bumps s \<longleftrightarrow> (\<forall>i. bumps s i \<le> 3
     \<and> ((\<forall>t. holds (g_pc s t) = Some i \<longrightarrow> \<not> unarmed (g_pc s t)) \<longrightarrow> bumps s i \<le> 2)
     \<and> (sl_state (slot s i) = SlotPending \<longrightarrow> bumps s i \<le> 2)
     \<and> (sl_state (slot s i) = SlotPending
         \<longrightarrow> (\<exists>t. holds (g_pc s t) = Some i \<and> \<not> unarmed (g_pc s t)) \<longrightarrow> bumps s i \<le> 1))"

definition inv_wake :: "ring_state \<Rightarrow> bool" where
  "inv_wake s \<longleftrightarrow>
     (\<forall>t rq i. g_pc s t = GChecked rq i \<longrightarrow> sl_state (slot s i) = SlotPending
        \<or> s_pc s = SDone i \<or> sl_guestWaitFutex (slot s i) \<noteq> 0)
     \<and> (\<forall>t rq i. g_pc s t = GBlocked rq i \<longrightarrow> sl_state (slot s i) = SlotPending
        \<or> s_pc s = SDone i \<or> s_pc s = SWake i)"

lemma unat_bump: "unat (w :: u32) \<le> 2 \<Longrightarrow> unat (w + 1) = unat w + 1"
  by (subst unat_add_no_wrap) auto

lemma bump_nonzero: "unat (w :: u32) \<le> 2 \<Longrightarrow> w + 1 \<noteq> 0"
  using unat_bump [of w] by (metis add_is_0 unat_0 zero_neq_one)

lemma inv_bumpsD:
  assumes "inv_bumps s"
  shows "bumps s i \<le> 3"
    and "\<forall>t. holds (g_pc s t) = Some i \<longrightarrow> \<not> unarmed (g_pc s t) \<Longrightarrow> bumps s i \<le> 2"
    and "sl_state (slot s i) = SlotPending \<Longrightarrow> bumps s i \<le> 2"
    and "sl_state (slot s i) = SlotPending \<Longrightarrow> holds (g_pc s t) = Some i
          \<Longrightarrow> \<not> unarmed (g_pc s t) \<Longrightarrow> bumps s i \<le> 1"
  using assms unfolding inv_bumps_def by blast+

lemma inv_bumps_same:
  assumes "inv_bumps s" and "\<And>i. bumps s' i = bumps s i"
    and "\<And>i. sl_state (slot s' i) = sl_state (slot s i)"
    and "\<And>t. holds (g_pc s' t) = holds (g_pc s t)" and "\<And>t. unarmed (g_pc s' t) = unarmed (g_pc s t)"
  shows "inv_bumps s'"
  using assms unfolding inv_bumps_def by simp

lemma inv_bumps_step:
  assumes "ring_step serve same spurious ordered s s'" and I: "ring_inv s" and B: "inv_bumps s"
  shows "inv_bumps s'"
  using assms(1)
proof cases
  case (claim t i rq)
  have free: "holds (g_pc s u) \<noteq> Some i" for u using ring_invD(2) [OF I] claim by blast
  then have le: "bumps s i \<le> 2" by (intro inv_bumpsD(2) [OF B]) simp
  have "bumps s' j = bumps s j" for j using claim by (simp add: bumps_def)
  with claim free le inv_bumpsD [OF B] show ?thesis
    by (auto simp: inv_bumps_def) (metis holds.simps(1) option.distinct(1))+
next
  case (arm t rq i)
  have other: "bumps s' j = bumps s j" if "j \<noteq> i" for j using arm that by (simp add: bumps_def)
  have here: "bumps s' i \<le> 1" using arm by (simp add: bumps_def)
  have own: "holds (g_pc s u) = Some i \<Longrightarrow> u = t" for u
    using ring_invD(3) [OF I, of u i t] arm by simp
  have st: "sl_state (slot s' j) = sl_state (slot s j)" for j using arm by simp
  have pc: "holds (g_pc s' u) = holds (g_pc s u)" for u using arm by simp
  have ua: "holds (g_pc s u) = Some j \<Longrightarrow> j \<noteq> i \<Longrightarrow> unarmed (g_pc s' u) = unarmed (g_pc s u)" for u j
    using arm by auto
  show ?thesis
    unfolding inv_bumps_def st pc
  proof (intro allI)
    fix j
    show "bumps s' j \<le> 3 \<and>
        ((\<forall>t. holds (g_pc s t) = Some j \<longrightarrow> \<not> unarmed (g_pc s' t)) \<longrightarrow> bumps s' j \<le> 2) \<and>
        (sl_state (slot s j) = SlotPending \<longrightarrow> bumps s' j \<le> 2) \<and>
        (sl_state (slot s j) = SlotPending \<longrightarrow>
          (\<exists>t. holds (g_pc s t) = Some j \<and> \<not> unarmed (g_pc s' t)) \<longrightarrow> bumps s' j \<le> 1)"
      using here other [of j] inv_bumpsD [OF B, of j] ua [of _ j] by (cases "j = i") auto
  qed
next
  case (release t rq i r)
  then have t: "holds (g_pc s t) = Some i" "\<not> unarmed (g_pc s t)" by simp_all
  have own: "holds (g_pc s u) = Some i \<Longrightarrow> u = t" for u using ring_invD(3) [OF I _ t(1)] .
  have le: "bumps s i \<le> 2" using own t(2) by (intro inv_bumpsD(2) [OF B]) auto
  have eq: "bumps s' j = bumps s j" for j using release by (simp add: bumps_def)
  show ?thesis
    unfolding inv_bumps_def eq
  proof (intro allI)
    fix j
    show "bumps s j \<le> 3 \<and>
        ((\<forall>t. holds (g_pc s' t) = Some j \<longrightarrow> \<not> unarmed (g_pc s' t)) \<longrightarrow> bumps s j \<le> 2) \<and>
        (sl_state (slot s' j) = SlotPending \<longrightarrow> bumps s j \<le> 2) \<and>
        (sl_state (slot s' j) = SlotPending \<longrightarrow>
          (\<exists>t. holds (g_pc s' t) = Some j \<and> \<not> unarmed (g_pc s' t)) \<longrightarrow> bumps s j \<le> 1)"
    proof (cases "j = i")
      case True
      with release le show ?thesis by auto
    next
      case False
      then have "holds (g_pc s' u) = Some j \<longleftrightarrow> holds (g_pc s u) = Some j"
          "holds (g_pc s u) = Some j \<Longrightarrow> unarmed (g_pc s' u) = unarmed (g_pc s u)" for u
        using release t by auto
      moreover have "sl_state (slot s' j) = sl_state (slot s j)" using release False by simp
      ultimately show ?thesis using inv_bumpsD [OF B, of j] by auto
    qed
  qed
next
  case (finish i)
  have p: "sl_state (slot s i) = SlotPending" using ring_invD(5) [OF I] finish by simp
  have own: "\<exists>u. holds (g_pc s u) = Some i" using ring_invD(4) [OF I, of i] p by auto
  have here: "bumps s' i = bumps s i + 1" and other: "j \<noteq> i \<Longrightarrow> bumps s' j = bumps s j" for j
    using finish by (auto simp: bumps_def)
  show ?thesis
    unfolding inv_bumps_def
  proof (intro allI)
    fix j
    show "bumps s' j \<le> 3 \<and>
        ((\<forall>t. holds (g_pc s' t) = Some j \<longrightarrow> \<not> unarmed (g_pc s' t)) \<longrightarrow> bumps s' j \<le> 2) \<and>
        (sl_state (slot s' j) = SlotPending \<longrightarrow> bumps s' j \<le> 2) \<and>
        (sl_state (slot s' j) = SlotPending \<longrightarrow>
          (\<exists>t. holds (g_pc s' t) = Some j \<and> \<not> unarmed (g_pc s' t)) \<longrightarrow> bumps s' j \<le> 1)"
      using finish p own here other [of j] inv_bumpsD [OF B, of j] inv_bumpsD(4) [OF B p]
      by (cases "j = i") auto
  qed
next
  case (bump i)
  have "unat (sl_guestWaitFutex (slot s i)) \<le> 2"
    using inv_bumpsD(1) [OF B, of i] bump by (simp add: bumps_def)
  then have "bumps s' j = bumps s j" for j using bump unat_bump by (auto simp: bumps_def)
  with B show ?thesis by (rule inv_bumps_same) (use bump in auto)
qed (auto intro!: inv_bumps_same [OF B] simp: bumps_def split: if_splits)

lemma wakened_eq [simp]:
  "wakened i pc = GChecked rq j \<longleftrightarrow> pc = GChecked rq j"
  "wakened i pc = GBlocked rq j \<longleftrightarrow> pc = GBlocked rq j \<and> i \<noteq> j"
  by (cases "(i, pc)" rule: wakened.cases; auto)+

lemma inv_wakeD:
  assumes "inv_wake s"
  shows "g_pc s t = GChecked rq i \<Longrightarrow> sl_state (slot s i) = SlotPending
        \<or> s_pc s = SDone i \<or> sl_guestWaitFutex (slot s i) \<noteq> 0"
    and "g_pc s t = GBlocked rq i \<Longrightarrow> sl_state (slot s i) = SlotPending
        \<or> s_pc s = SDone i \<or> s_pc s = SWake i"
  using assms unfolding inv_wake_def by blast+

text \<open>What the waiting part of the invariant depends on, and the steps that leave it alone.\<close>

lemma inv_wake_step:
  assumes "ring_step serve True spurious ordered s s'" and I: "ring_inv s" and B: "inv_bumps s"
    and W: "inv_wake s"
  shows "inv_wake s'"
  using assms(1)
proof cases
  case (claim t i rq)
  then show ?thesis using inv_wakeD [OF W] by (auto simp: inv_wake_def)
next
  case (arm t rq i)
  have "holds (g_pc s u) = Some i \<Longrightarrow> u = t" for u
    using ring_invD(3) [OF I, of u i t] arm by simp
  then have "g_pc s u \<noteq> GChecked rq' i" if "u \<noteq> t" for u rq' using that by (metis holds.simps(7))
  with arm inv_wakeD [OF W] show ?thesis by (auto simp: inv_wake_def)
next
  case (release t rq i r)
  have "holds (g_pc s u) = Some i \<Longrightarrow> u = t" for u
    using ring_invD(3) [OF I, of u i t] release by simp
  then have "g_pc s u \<noteq> GChecked rq' i" "g_pc s u \<noteq> GBlocked rq' i" if "u \<noteq> t" for u rq'
    using that by (metis holds.simps(7)) (metis holds.simps(8) that \<open>\<And>u. holds (g_pc s u) = Some i \<Longrightarrow> u = t\<close>)
  with release inv_wakeD [OF W] show ?thesis by (auto simp: inv_wake_def)
next
  case (load_other t rq i)
  have "sl_state (slot s i) \<noteq> SlotFree" using ring_invD(2) [OF I, of t i] load_other by simp
  then have "sl_state (slot s i) = SlotPending"
    using load_other by (cases "sl_state (slot s i)") auto
  with load_other inv_wakeD [OF W] show ?thesis by (auto simp: inv_wake_def)
next
  case (wait_now t rq i)
  with inv_wakeD(1) [OF W, of t rq i] inv_wakeD [OF W] show ?thesis by (auto simp: inv_wake_def)
next
  case (bump i)
  have "unat (sl_guestWaitFutex (slot s i)) \<le> 2"
    using inv_bumpsD(1) [OF B, of i] bump by (simp add: bumps_def)
  then have "sl_guestWaitFutex (slot s i) + 1 \<noteq> 0" by (rule bump_nonzero)
  with bump inv_wakeD [OF W] show ?thesis by (auto simp: inv_wake_def) force+
next
  case (consume i)
  then show ?thesis using inv_wakeD [OF W] by (auto simp: inv_wake_def)
next
  case (wake i)
  then show ?thesis using inv_wakeD [OF W] by (auto simp: inv_wake_def) force+
next
  case (finish i)
  then show ?thesis using inv_wakeD [OF W] by (auto simp: inv_wake_def)
qed (use inv_wakeD [OF W] in \<open>auto simp: inv_wake_def\<close>)

lemma wake_inv_reach:
  assumes "ring_steps serve True spurious ordered ring_start s"
  shows "ring_inv s \<and> inv_bumps s \<and> inv_wake s"
  using assms
proof (induction rule: ring_reach_induct)
  case start
  show ?case
    by (simp add: ring_inv_def inv_defs inv_bumps_def bumps_def inv_wake_def ring_start_def TrapSlot_new_def)
next
  case (step s s')
  then show ?case by (blast intro: ring_inv_step inv_bumps_step inv_wake_step)
qed

section \<open>A run of the protocol\<close>

text \<open>A run of the whole protocol on slot 0, step by step.\<close>

lemma ring_round:
  "\<exists>s. ring_steps serve same spurious True ring_start s \<and> g_pc s t = GBlocked rq 0
       \<and> s_pc s = SIdle \<and> sl_state (slot s 0) = SlotPending \<and> sl_req (slot s 0) = rq"
proof -
  let ?R = "ring_steps serve same spurious True ring_start"
  let ?s0 = ring_start
  let ?s1 = "?s0\<lparr>g_pc := (g_pc ?s0)(t := GClaimed rq 0),
       slot := touch 0 (\<lambda>x. x\<lparr>sl_state := SlotPending\<rparr>) (slot ?s0)\<rparr>"
  have 1: "?R ?s1"
    by (rule ring_steps.more [OF ring_steps.stop], rule ring_step.claim)
       (simp_all add: ring_start_def TrapSlot_new_def kTrapSlotCount_def)
  let ?s2 = "?s1\<lparr>g_pc := (g_pc ?s1)(t := GWrote rq 0),
       slot := touch 0 (\<lambda>x. x\<lparr>sl_req := rq\<rparr>) (slot ?s1)\<rparr>"
  have 2: "?R ?s2" by (rule ring_steps.more [OF 1], rule ring_step.put) simp
  let ?s3 = "?s2\<lparr>g_pc := (g_pc ?s2)(t := GCleared rq 0),
       slot := touch 0 (\<lambda>x. x\<lparr>sl_resp := TrapResponse_new\<rparr>) (slot ?s2)\<rparr>"
  have 3: "?R ?s3" by (rule ring_steps.more [OF 2], rule ring_step.clear) simp
  let ?s4 = "?s3\<lparr>g_pc := (g_pc ?s3)(t := GArmed rq 0),
       slot := touch 0 (\<lambda>x. x\<lparr>sl_guestWaitFutex := 0\<rparr>) (slot ?s3)\<rparr>"
  have 4: "?R ?s4" by (rule ring_steps.more [OF 3], rule ring_step.arm) simp
  let ?s5 = "?s4\<lparr>g_pc := (g_pc ?s4)(t := GLoop rq 0)\<rparr>"
  have 5: "?R ?s5" by (rule ring_steps.more [OF 4], rule ring_step.notify) simp
  let ?s6 = "?s5\<lparr>g_pc := (g_pc ?s5)(t := GChecked rq 0)\<rparr>"
  have 6: "?R ?s6" by (rule ring_steps.more [OF 5], rule ring_step.load_other) simp_all
  let ?s7 = "?s6\<lparr>g_pc := (g_pc ?s6)(t := GBlocked rq 0)\<rparr>"
  have 7: "?R ?s7" by (rule ring_steps.more [OF 6], rule ring_step.wait_now) simp_all
  show ?thesis by (rule exI [of _ ?s7]) (use 7 in \<open>simp add: ring_start_def\<close>)
qed

text \<open>The server's side of one request, from a state in which the owner sleeps.\<close>

lemma ring_serve:
  assumes "ring_steps serve same spurious True ring_start s" and "g_pc s t = GBlocked rq 0"
    and "s_pc s = SIdle" and "sl_state (slot s 0) = SlotPending" and "sl_req (slot s 0) = rq"
  shows "\<exists>s'. ring_steps serve same spurious True ring_start s'
     \<and> g_pc s' t = (if same then GLoop rq 0 else GBlocked rq 0)
     \<and> s_pc s' = SIdle \<and> sl_state (slot s' 0) = SlotDone \<and> sl_resp (slot s' 0) = serve rq"
proof -
  let ?R = "ring_steps serve same spurious True ring_start"
  let ?s1 = "s\<lparr>s_pc := SHas 0 (sl_req (slot s 0))\<rparr>"
  have 1: "?R ?s1"
    by (rule ring_steps.more [OF assms(1)], rule ring_step.consume)
       (use assms in \<open>auto simp: kTrapSlotCount_def intro!: exI [of _ t]\<close>)
  let ?s2 = "?s1\<lparr>s_pc := SAnswered 0 (serve rq)\<rparr>"
  have 2: "?R ?s2" by (rule ring_steps.more [OF 1], rule ring_step.answer) (simp add: assms(5))
  let ?s3 = "?s2\<lparr>s_pc := SStored 0, slot := touch 0 (\<lambda>x. x\<lparr>sl_resp := serve rq\<rparr>) (slot ?s2)\<rparr>"
  have 3: "?R ?s3" by (rule ring_steps.more [OF 2], rule ring_step.store) simp
  let ?s4 = "?s3\<lparr>s_pc := SDone 0, slot := touch 0 (\<lambda>x. x\<lparr>sl_state := SlotDone\<rparr>) (slot ?s3)\<rparr>"
  have 4: "?R ?s4" by (rule ring_steps.more [OF 3], rule ring_step.finish) simp
  let ?s5 = "?s4\<lparr>s_pc := SWake 0,
      slot := touch 0 (\<lambda>x. x\<lparr>sl_guestWaitFutex := sl_guestWaitFutex x + 1\<rparr>) (slot ?s4)\<rparr>"
  have 5: "?R ?s5" by (rule ring_steps.more [OF 4], rule ring_step.bump) simp
  let ?s6 = "?s5\<lparr>s_pc := SIdle,
      g_pc := if same then (\<lambda>t. wakened 0 (g_pc ?s5 t)) else g_pc ?s5\<rparr>"
  have 6: "?R ?s6" by (rule ring_steps.more [OF 5], rule ring_step.wake) simp
  show ?thesis by (rule exI [of _ ?s6]) (use 6 assms(2) in simp)
qed

lemma ring_return:
  assumes "ring_steps serve True spurious True ring_start s" and "g_pc s t = GLoop rq 0"
    and "sl_state (slot s 0) = SlotDone" and "sl_resp (slot s 0) = r"
  shows "\<exists>s'. ring_steps serve True spurious True ring_start s' \<and> g_pc s' t = GReturned rq r"
proof -
  let ?R = "ring_steps serve True spurious True ring_start"
  let ?s1 = "s\<lparr>g_pc := (g_pc s)(t := GTook rq 0 (sl_resp (slot s 0)))\<rparr>"
  have 1: "?R ?s1" by (rule ring_steps.more [OF assms(1)], rule ring_step.load_done) (use assms in simp_all)
  let ?s2 = "?s1\<lparr>g_pc := (g_pc ?s1)(t := GReturned rq r),
      slot := touch 0 (\<lambda>x. x\<lparr>sl_state := SlotFree\<rparr>) (slot ?s1)\<rparr>"
  have 2: "?R ?s2" by (rule ring_steps.more [OF 1], rule ring_step.release) (simp add: assms(4))
  show ?thesis by (rule exI [of _ ?s2]) (use 2 in simp)
qed

lemma ring_round_trip:
  "\<exists>s. ring_steps serve True spurious True ring_start s \<and> g_pc s t = GReturned rq (serve rq)"
proof -
  obtain s where s: "ring_steps serve True spurious True ring_start s" "g_pc s t = GBlocked rq 0"
      "s_pc s = SIdle" "sl_state (slot s 0) = SlotPending" "sl_req (slot s 0) = rq"
    using ring_round [of serve True spurious t rq] by blast
  obtain s' where s': "ring_steps serve True spurious True ring_start s'" "g_pc s' t = GLoop rq 0"
      "sl_state (slot s' 0) = SlotDone" "sl_resp (slot s' 0) = serve rq"
    using ring_serve [OF s] by auto
  show ?thesis using ring_return [OF s'] .
qed

text \<open>In another process than the server, without spurious returns, nothing wakes a sleeper.\<close>

lemma blocked_step:
  "ring_step serve False False ordered s s' \<Longrightarrow> g_pc s t = GBlocked rq i \<Longrightarrow> g_pc s' t = GBlocked rq i"
  by (cases rule: ring_step.cases, assumption) auto

lemma blocked_steps:
  "ring_steps serve False False ordered s s' \<Longrightarrow> g_pc s t = GBlocked rq i \<Longrightarrow> g_pc s' t = GBlocked rq i"
  by (induction rule: ring_steps.induct) (auto intro: blocked_step)

section \<open>Properties\<close>

text \<open>
  C6. Slot ownership. In every interleaving of any number of guest threads with the server, a
  slot belongs to at most one guest thread, a slot that is not free belongs to exactly one,
  and while the server works on a slot it stays pending, so that no guest can release or
  reuse it under the server.
\<close>

theorem ring_slots_exclusive:
  assumes "ring_steps serve same spurious ordered ring_start s"
  shows "(holds (g_pc s t) = Some i \<and> holds (g_pc s u) = Some i \<longrightarrow> t = u)
    \<and> (sl_state (slot s i) \<noteq> SlotFree \<longleftrightarrow> (\<exists>v. holds (g_pc s v) = Some i))
    \<and> (serving (s_pc s) = Some i \<longrightarrow> sl_state (slot s i) = SlotPending)"
  using ring_invD(2-5) [OF ring_inv_reach [OF assms]] by blast

theorem ring_slots_exclusive_witness:
  "\<exists>s. ring_steps (\<lambda>rq. TrapResponse_new) True True True ring_start s
       \<and> holds (g_pc s 4) = Some 0 \<and> sl_state (slot s 0) \<noteq> SlotFree"
proof -
  obtain s where s: "ring_steps (\<lambda>rq. TrapResponse_new) True True True ring_start s"
      "g_pc s 4 = GBlocked TrapRequest_new 0"
    using ring_round [of "\<lambda>rq. TrapResponse_new" True True 4 TrapRequest_new] by blast
  then have "holds (g_pc s 4) = Some 0" by simp
  with ring_slots_exclusive [OF s(1), of 4 0 4] s(1) show ?thesis by blast
qed

text \<open>
  C5. Answers. In the schedules in which the server reads a slot only after the owner has
  written its payload, every guest thread that returns from \<^verbatim>\<open>submit\<close> returns the server's
  answer to its own request, whatever the other threads do.
\<close>

theorem ring_answers_own_request:
  assumes "ring_steps serve same spurious True ring_start s" and "g_pc s t = GReturned rq r"
  shows "r = serve rq"
  using ord_invD(10) [OF ord_inv_reach [OF assms(1)] assms(2)] .

theorem ring_answers_own_request_witness:
  "\<exists>s r. ring_steps (\<lambda>rq. \<lparr>rs_retval = rq_number rq + 1, rs_isError = 0\<rparr>) True True True ring_start s
         \<and> g_pc s 0 = GReturned (TrapRequest_new\<lparr>rq_number := 20\<rparr>) r
         \<and> r = \<lparr>rs_retval = 21, rs_isError = 0\<rparr>"
proof -
  let ?f = "\<lambda>rq. \<lparr>rs_retval = rq_number rq + 1, rs_isError = 0\<rparr>"
  obtain s r where s: "ring_steps ?f True True True ring_start s"
      "g_pc s 0 = GReturned (TrapRequest_new\<lparr>rq_number := 20\<rparr>) r"
    using ring_round_trip [of ?f True 0 "TrapRequest_new\<lparr>rq_number := 20\<rparr>"] by blast
  with ring_answers_own_request [OF s] show ?thesis by auto
qed

text \<open>
  No wake-up is lost within one process: there, a guest thread asleep in the futex wait
  sleeps on a slot that is still pending, or the server is between storing \<^verbatim>\<open>Done\<close> and its wake
  of that slot. The futex word cannot wrap around in between. Across processes it is otherwise, below.
\<close>

theorem ring_no_lost_wakeup:
  assumes "ring_steps serve True spurious ordered ring_start s" and "g_pc s t = GBlocked rq i"
  shows "(sl_state (slot s i) = SlotPending \<or> s_pc s = SDone i \<or> s_pc s = SWake i)
         \<and> unat (sl_guestWaitFutex (slot s i)) \<le> 3"
proof -
  have "inv_wake s" "inv_bumps s" using wake_inv_reach [OF assms(1)] by auto
  with inv_wakeD(2) [OF _ assms(2)] inv_bumpsD(1) [of s i] show ?thesis by (auto simp: bumps_def)
qed

theorem ring_no_lost_wakeup_witness:
  "\<exists>s. ring_steps (\<lambda>rq. TrapResponse_new) True True True ring_start s
       \<and> g_pc s 0 = GBlocked TrapRequest_new 0 \<and> unat (sl_guestWaitFutex (slot s 0)) \<le> 3"
proof -
  obtain s where s: "ring_steps (\<lambda>rq. TrapResponse_new) True True True ring_start s"
      "g_pc s 0 = GBlocked TrapRequest_new 0"
    using ring_round [of "\<lambda>rq. TrapResponse_new" True True 0 TrapRequest_new] by blast
  with ring_no_lost_wakeup [OF s] show ?thesis by blast
qed

text \<open>
  The claim publishes too early. \<^verbatim>\<open>claimSlot\<close> stores \<^verbatim>\<open>Pending\<close> before \<^verbatim>\<open>submit\<close> has written the
  request, so the server may serve what the slot held before (on a fresh ring, the request
  with number 0), and \<^verbatim>\<open>submit\<close> then clears that answer and returns success with value 0,
  whatever the request was and whatever the server would have answered.
\<close>

theorem ring_early_consume:
  "\<exists>s. ring_steps serve same spurious False ring_start s \<and> g_pc s t = GReturned rq TrapResponse_new
       \<and> (\<exists>s1. ring_steps serve same spurious False ring_start s1 \<and> g_pc s1 t = GClaimed rq 0
                \<and> s_pc s1 = SHas 0 TrapRequest_new)"
proof -
  let ?R = "ring_steps serve same spurious False ring_start"
  let ?s0 = ring_start
  let ?s1 = "?s0\<lparr>g_pc := (g_pc ?s0)(t := GClaimed rq 0),
       slot := touch 0 (\<lambda>x. x\<lparr>sl_state := SlotPending\<rparr>) (slot ?s0)\<rparr>"
  have 1: "?R ?s1"
    by (rule ring_steps.more [OF ring_steps.stop], rule ring_step.claim)
       (simp_all add: ring_start_def TrapSlot_new_def kTrapSlotCount_def)
  let ?s2 = "?s1\<lparr>s_pc := SHas 0 (sl_req (slot ?s1 0))\<rparr>"
  have 2: "?R ?s2"
    by (rule ring_steps.more [OF 1], rule ring_step.consume)
       (simp_all add: ring_start_def kTrapSlotCount_def)
  let ?s3 = "?s2\<lparr>s_pc := SAnswered 0 (serve (sl_req (slot ?s1 0)))\<rparr>"
  have 3: "?R ?s3" by (rule ring_steps.more [OF 2], rule ring_step.answer) simp
  let ?s4 = "?s3\<lparr>s_pc := SStored 0,
      slot := touch 0 (\<lambda>x. x\<lparr>sl_resp := serve (sl_req (slot ?s1 0))\<rparr>) (slot ?s3)\<rparr>"
  have 4: "?R ?s4" by (rule ring_steps.more [OF 3], rule ring_step.store) simp
  let ?s5 = "?s4\<lparr>s_pc := SDone 0, slot := touch 0 (\<lambda>x. x\<lparr>sl_state := SlotDone\<rparr>) (slot ?s4)\<rparr>"
  have 5: "?R ?s5" by (rule ring_steps.more [OF 4], rule ring_step.finish) simp
  let ?s6 = "?s5\<lparr>g_pc := (g_pc ?s5)(t := GWrote rq 0),
       slot := touch 0 (\<lambda>x. x\<lparr>sl_req := rq\<rparr>) (slot ?s5)\<rparr>"
  have 6: "?R ?s6" by (rule ring_steps.more [OF 5], rule ring_step.put) simp
  let ?s7 = "?s6\<lparr>g_pc := (g_pc ?s6)(t := GCleared rq 0),
       slot := touch 0 (\<lambda>x. x\<lparr>sl_resp := TrapResponse_new\<rparr>) (slot ?s6)\<rparr>"
  have 7: "?R ?s7" by (rule ring_steps.more [OF 6], rule ring_step.clear) simp
  let ?s8 = "?s7\<lparr>g_pc := (g_pc ?s7)(t := GArmed rq 0),
       slot := touch 0 (\<lambda>x. x\<lparr>sl_guestWaitFutex := 0\<rparr>) (slot ?s7)\<rparr>"
  have 8: "?R ?s8" by (rule ring_steps.more [OF 7], rule ring_step.arm) simp
  let ?s9 = "?s8\<lparr>g_pc := (g_pc ?s8)(t := GLoop rq 0)\<rparr>"
  have 9: "?R ?s9" by (rule ring_steps.more [OF 8], rule ring_step.notify) simp
  let ?s10 = "?s9\<lparr>g_pc := (g_pc ?s9)(t := GTook rq 0 (sl_resp (slot ?s9 0)))\<rparr>"
  have 10: "?R ?s10" by (rule ring_steps.more [OF 9], rule ring_step.load_done) simp_all
  let ?s11 = "?s10\<lparr>g_pc := (g_pc ?s10)(t := GReturned rq TrapResponse_new),
      slot := touch 0 (\<lambda>x. x\<lparr>sl_state := SlotFree\<rparr>) (slot ?s10)\<rparr>"
  have 11: "?R ?s11" by (rule ring_steps.more [OF 10], rule ring_step.release) simp
  have c: "g_pc ?s2 t = GClaimed rq 0" "s_pc ?s2 = SHas 0 TrapRequest_new"
    by (simp_all add: ring_start_def TrapSlot_new_def)
  have r: "g_pc ?s11 t = GReturned rq TrapResponse_new" by simp
  have "\<exists>s1. ?R s1 \<and> g_pc s1 t = GClaimed rq 0 \<and> s_pc s1 = SHas 0 TrapRequest_new"
  proof
    show "?R ?s2 \<and> g_pc ?s2 t = GClaimed rq 0 \<and> s_pc ?s2 = SHas 0 TrapRequest_new"
      by (intro conjI 2 c)
  qed
  moreover have "\<exists>s. ?R s \<and> g_pc s t = GReturned rq TrapResponse_new"
  proof
    show "?R ?s11 \<and> g_pc ?s11 t = GReturned rq TrapResponse_new" by (intro conjI 11 r)
  qed
  ultimately show ?thesis by blast
qed

text \<open>
  Private futexes across processes. The futex calls carry \<^verbatim>\<open>FUTEX_PRIVATE_FLAG\<close>, which the
  kernel matches within one address space only, while the guest is a forked child: a wake of
  the server reaches no guest thread. A guest can then sleep on a slot whose answer is
  stored, with the server idle, and no later step of the guests or of the server wakes it (only a
  return of the wait for another reason, such as a signal, would).
\<close>

theorem ring_private_futex_hangs:
  "\<exists>s. ring_steps serve False False True ring_start s \<and> g_pc s t = GBlocked rq 0
       \<and> s_pc s = SIdle \<and> sl_state (slot s 0) = SlotDone \<and> sl_resp (slot s 0) = serve rq
       \<and> {s'. ring_steps serve False False True s s' \<and> g_pc s' t \<noteq> GBlocked rq 0} = {}"
proof -
  obtain s where s: "ring_steps serve False False True ring_start s" "g_pc s t = GBlocked rq 0"
      "s_pc s = SIdle" "sl_state (slot s 0) = SlotPending" "sl_req (slot s 0) = rq"
    using ring_round [of serve False False t rq] by blast
  obtain s' where s': "ring_steps serve False False True ring_start s'" "g_pc s' t = GBlocked rq 0"
      "s_pc s' = SIdle" "sl_state (slot s' 0) = SlotDone" "sl_resp (slot s' 0) = serve rq"
    using ring_serve [OF s] by auto
  then show ?thesis using blocked_steps [OF _ s'(2)] by blast
qed

end
