(* ===== verification/Sce_Stub_Table.thy ===== *)
theory Sce_Stub_Table
  imports Prelude
begin

text \<open>
  \<^verbatim>\<open>sce/SceStubTable.cpp\<close>: the registry of SCE functions by qualified name and by numeric id.
  Addresses of stubs are 64-bit words; 0 is the null pointer.
\<close>

record SceStubTable =
  m_stubs :: "(string, u64) umap"
  m_byId :: "(u32, u64) umap"
  m_nextId :: u32

definition SceStubTable_new :: SceStubTable where
  "SceStubTable_new = \<lparr>m_stubs = [], m_byId = [], m_nextId = 1\<rparr>"

definition stub_key :: "string \<Rightarrow> string \<Rightarrow> string" where
  "stub_key lib fn = lib @ ''::'' @ fn"

definition registerStub :: "string \<Rightarrow> string \<Rightarrow> u64 \<Rightarrow> SceStubTable \<Rightarrow> SceStubTable" where
  "registerStub library function addr t =
     (if addr = 0 then t
      else (let t1 = t\<lparr>m_stubs := um_assign (stub_key library function) addr (m_stubs t)\<rparr>
            in if length (m_byId t1) < 0x0FFFFFFF
               then t1\<lparr>m_byId := um_assign (m_nextId t1) addr (m_byId t1), m_nextId := m_nextId t1 + 1\<rparr>
               else t1))"

text \<open>Lookups; \<open>None\<close> is \<^verbatim>\<open>nullptr\<close>.\<close>

definition stub_resolve :: "SceStubTable \<Rightarrow> string \<Rightarrow> string \<Rightarrow> u64 option" where
  "stub_resolve t library function = um_find (m_stubs t) (stub_key library function)"

definition resolveSymbol :: "SceStubTable \<Rightarrow> string \<Rightarrow> u64 option" where
  "resolveSymbol t qualified = um_find (m_stubs t) qualified"

definition stub_size :: "SceStubTable \<Rightarrow> nat" where
  "stub_size t = length (m_stubs t)"

definition stub_snapshot :: "SceStubTable \<Rightarrow> (string \<times> u64) list" where
  "stub_snapshot t = m_stubs t"

text \<open>
  The order in which a \<^verbatim>\<open>std::unordered_map\<close> is iterated is not specified: \<open>order\<close> lists its entries in any order.
\<close>

type_synonym iteration = "(u32, u64) umap \<Rightarrow> (u32 \<times> u64) list"

definition iterates :: "iteration \<Rightarrow> bool" where
  "iterates order \<longleftrightarrow> (\<forall>m. set (order m) = set m)"

definition getOrAssignId :: "iteration \<Rightarrow> SceStubTable \<Rightarrow> string \<Rightarrow> u32" where
  "getOrAssignId order t qualified =
     (case um_find (m_stubs t) qualified of
        None \<Rightarrow> 0
      | Some p \<Rightarrow> (case List.find (\<lambda>(i, q). q = p) (order (m_byId t)) of None \<Rightarrow> 0 | Some (i, _) \<Rightarrow> i))"

definition resolveById :: "SceStubTable \<Rightarrow> u32 \<Rightarrow> u64 option" where
  "resolveById t i = um_find (m_byId t) i"

section \<open>The numbering\<close>

text \<open>
  Ids are handed out in order from 1, never 0, and never above the limit of the 28-bit
  field that carries them in a system call number.
\<close>

definition stub_inv :: "SceStubTable \<Rightarrow> bool" where
  "stub_inv t \<longleftrightarrow> um_ok (m_stubs t) \<and> um_ok (m_byId t)
     \<and> length (m_byId t) \<le> 0x0FFFFFFF
     \<and> unat (m_nextId t) = length (m_byId t) + 1
     \<and> (\<forall>i a. um_find (m_byId t) i = Some a \<longrightarrow> 1 \<le> unat i \<and> unat i \<le> length (m_byId t) \<and> a \<noteq> 0)
     \<and> (\<forall>q a. um_find (m_stubs t) q = Some a \<longrightarrow> a \<noteq> 0
          \<and> (length (m_byId t) < 0x0FFFFFFF \<longrightarrow> a \<in> snd ` set (m_byId t)))"

lemma stub_inv_new: "stub_inv SceStubTable_new"
  by (simp add: stub_inv_def SceStubTable_new_def um_oks um_simps)

lemma length_um_assign: "length (um_assign k v m) \<le> length m + 1"
  by (induction m) (auto simp: um_assign_def)

lemma stub_inv_register:
  assumes "stub_inv t"
  shows "stub_inv (registerStub lib fn addr t)"
proof (cases "addr = 0 \<or> length (m_byId t) \<ge> 0x0FFFFFFF")
  case True
  with assms show ?thesis
    by (auto simp: registerStub_def Let_def stub_inv_def um_oks um_simps split: if_splits)
next
  case False
  have fresh: "um_find (m_byId t) (m_nextId t) = None"
  proof (rule ccontr)
    assume "um_find (m_byId t) (m_nextId t) \<noteq> None"
    then obtain a where "um_find (m_byId t) (m_nextId t) = Some a" by blast
    with assms show False unfolding stub_inv_def by fastforce
  qed
  have n: "unat (m_nextId t + 1) = length (m_byId t) + 2"
    using assms False by (subst unat_add_no_wrap) (auto simp: stub_inv_def)
  let ?m = "um_assign (m_nextId t) addr (m_byId t)"
  have m: "?m = m_byId t @ [(m_nextId t, addr)]" by (rule um_assign_fresh [OF fresh])
  have ok: "um_ok ?m" using assms by (simp add: stub_inv_def um_oks)
  have l: "length ?m = length (m_byId t) + 1" and v: "snd ` set ?m = insert addr (snd ` set (m_byId t))"
    by (auto simp: m)
  show ?thesis
    using assms False n ok l v
    by (auto simp: registerStub_def Let_def stub_inv_def um_oks um_simps le_Suc_eq Suc_le_eq split: if_splits)
qed

type_synonym stub_registration = "string \<times> string \<times> u64"

definition register_stubs :: "stub_registration list \<Rightarrow> SceStubTable" where
  "register_stubs rs = fold (\<lambda>(lib, fn, a) t. registerStub lib fn a t) rs SceStubTable_new"

lemma stub_inv_register_stubs: "stub_inv (register_stubs rs)"
proof -
  have "stub_inv t \<Longrightarrow> stub_inv (fold (\<lambda>(lib, fn, a) t. registerStub lib fn a t) rs t)" for t
    by (induction rs arbitrary: t) (auto intro: stub_inv_register)
  then show ?thesis by (simp add: register_stubs_def stub_inv_new)
qed

lemma stub_id_bound:
  assumes "stub_inv t" and "resolveById t i = Some a"
  shows "1 \<le> unat i \<and> unat i \<le> 0x0FFFFFFF"
  using assms unfolding stub_inv_def resolveById_def by force

lemma length_byId_register: "length (m_byId (registerStub lib fn a t)) \<le> length (m_byId t) + 1"
  using length_um_assign [of "m_nextId t" a "m_byId t"] by (auto simp: registerStub_def Let_def)

lemma length_byId_bound: "length (m_byId (register_stubs rs)) \<le> length rs"
proof -
  have "length (m_byId (fold (\<lambda>(lib, fn, a) t. registerStub lib fn a t) rs t))
      \<le> length (m_byId t) + length rs" for t
  proof (induction rs arbitrary: t)
    case (Cons r rs)
    obtain lib fn a where r: "r = (lib, fn, a)" by (cases r) auto
    from Cons [of "registerStub lib fn a t"] length_byId_register [of lib fn a t]
    show ?case by (simp add: r)
  qed simp
  from this [of SceStubTable_new] show ?thesis by (simp add: register_stubs_def SceStubTable_new_def)
qed

lemma registered_id:
  assumes "length rs < 0x0FFFFFFF" and "resolveSymbol (register_stubs rs) q = Some a" and "iterates order"
  shows "a \<noteq> 0" and "getOrAssignId order (register_stubs rs) q \<noteq> 0"
    and "unat (getOrAssignId order (register_stubs rs) q) < 2 ^ 28"
    and "resolveById (register_stubs rs) (getOrAssignId order (register_stubs rs) q) = Some a"
proof -
  let ?t = "register_stubs rs"
  have inv: "stub_inv ?t" by (rule stub_inv_register_stubs)
  have "length (m_byId ?t) < 0x0FFFFFFF" using length_byId_bound [of rs] assms(1) by simp
  then have a: "a \<noteq> 0" "a \<in> snd ` set (m_byId ?t)"
    using inv assms(2) unfolding stub_inv_def resolveSymbol_def by blast+
  from a(1) show "a \<noteq> 0" .
  have same: "set (order (m_byId ?t)) = set (m_byId ?t)" using assms(3) by (simp add: iterates_def)
  with a(2) have "List.find (\<lambda>(i, q). q = a) (order (m_byId ?t)) \<noteq> None"
    by (auto simp: find_None_iff)
  then obtain i b where f: "List.find (\<lambda>(i, q). q = a) (order (m_byId ?t)) = Some (i, b)" by auto
  then have mem: "(i, a) \<in> set (m_byId ?t)"
    unfolding same [symmetric] by (auto simp: find_Some_iff) (metis nth_mem)
  have g: "getOrAssignId order ?t q = i"
    using assms(2) f by (simp add: getOrAssignId_def resolveSymbol_def)
  have "um_find (m_byId ?t) i = Some a"
    using mem um_mem_find inv unfolding stub_inv_def by metis
  then have r: "resolveById ?t i = Some a" by (simp add: resolveById_def)
  with g show "resolveById ?t (getOrAssignId order ?t q) = Some a" by simp
  from stub_id_bound [OF inv r] g show "getOrAssignId order ?t q \<noteq> 0" "unat (getOrAssignId order ?t q) < 2 ^ 28"
    by auto
qed

section \<open>Properties\<close>

text \<open>
  Ids and names agree: after any sequence of registrations (fewer than the 28-bit limit), a
  qualified name that resolves has a non-zero id of at most 28 bits, and that id resolves to
  the address of the name, in whatever order the table is iterated; a name that does not resolve has the id 0.
\<close>

theorem stub_id_resolves:
  assumes "length rs < 0x0FFFFFFF" and "iterates order"
  shows "case resolveSymbol (register_stubs rs) q of
           None \<Rightarrow> getOrAssignId order (register_stubs rs) q = 0
         | Some a \<Rightarrow> a \<noteq> 0 \<and> (let i = getOrAssignId order (register_stubs rs) q
                     in i \<noteq> 0 \<and> unat i < 2 ^ 28 \<and> resolveById (register_stubs rs) i = Some a)"
proof (cases "resolveSymbol (register_stubs rs) q")
  case None
  then show ?thesis by (simp add: resolveSymbol_def getOrAssignId_def)
next
  case (Some a)
  then show ?thesis using registered_id [OF assms(1) Some assms(2)] by (simp add: Let_def)
qed

theorem stub_id_resolves_witness:
  "resolveById (register_stubs [(''libSceRtc'', ''sceRtcTick'', 0x1000), (''libSceNet'', ''sceNetInit'', 0x2000)])
     (getOrAssignId rev (register_stubs [(''libSceRtc'', ''sceRtcTick'', 0x1000), (''libSceNet'', ''sceNetInit'', 0x2000)])
        ''libSceNet::sceNetInit'') = Some 0x2000"
proof -
  let ?rs = "[(''libSceRtc'', ''sceRtcTick'', 0x1000), (''libSceNet'', ''sceNetInit'', 0x2000)] :: stub_registration list"
  have r: "resolveSymbol (register_stubs ?rs) ''libSceNet::sceNetInit'' = Some 0x2000"
    by (simp add: register_stubs_def registerStub_def SceStubTable_new_def resolveSymbol_def
        stub_key_def um_assign_def um_find_def)
  have "length ?rs < 0x0FFFFFFF" by simp
  from stub_id_resolves [OF this, of rev "''libSceNet::sceNetInit''", unfolded r option.case Let_def]
  show ?thesis by (simp add: iterates_def)
qed

end
