(* ===== verification/Trap_Gate.thy ===== *)
theory Trap_Gate
  imports Trap_Ring Sce_Stub_Table Handler_Safety
begin

text \<open>
  The two ends of a trap: \<^verbatim>\<open>syscall/trap/SceCallIds.hpp\<close>, the signal handler of
  \<^verbatim>\<open>syscall/trap/TrapGate.cpp\<close> with its register accessors (\<^verbatim>\<open>TrapTriggers.hpp\<close>), the server
  loop of \<^verbatim>\<open>syscall/trap/TrapServer.cpp\<close>, and the SCE invoker of \<^verbatim>\<open>PS4Process::start\<close>.
\<close>

unbundle bit_operations_syntax

section \<open>Call numbers\<close>

definition kSceCallBase :: u32 where "kSceCallBase = 0x50000000"
definition kSceCallMask :: u32 where "kSceCallMask = 0x0FFFFFFF"

definition isSceCall :: "u64 \<Rightarrow> bool" where
  "isSceCall number \<longleftrightarrow> (ucast number :: u32) AND 0xF0000000 = kSceCallBase"

definition sceCallId :: "u64 \<Rightarrow> u32" where
  "sceCallId number = ucast number AND kSceCallMask"

definition makeSceCall :: "u32 \<Rightarrow> u64" where
  "makeSceCall i = ucast (kSceCallBase OR (i AND kSceCallMask))"

section \<open>The guest's side\<close>

record TrapRegisters =
  REG_RAX :: u64
  REG_RDI :: u64
  REG_RSI :: u64
  REG_RDX :: u64
  REG_R10 :: u64
  REG_R8 :: u64
  REG_R9 :: u64
  REG_EFL :: u64

definition regs_arg :: "TrapRegisters \<Rightarrow> int \<Rightarrow> u64" where
  "regs_arg r i =
     (if i = 0 then REG_RDI r else if i = 1 then REG_RSI r else if i = 2 then REG_RDX r
      else if i = 3 then REG_R10 r else if i = 4 then REG_R8 r else if i = 5 then REG_R9 r else 0)"



definition sigsys_request :: "u32 \<Rightarrow> TrapRegisters \<Rightarrow> TrapRequest" where
  "sigsys_request currentTid regs =
     \<lparr>rq_number = REG_RAX regs, rq_args = map (regs_arg regs) [0, 1, 2, 3, 4, 5],
      rq_threadId = currentTid, rq_kind = (if isSceCall (REG_RAX regs) then 1 else 0)\<rparr>"


section \<open>The server's side\<close>

text \<open>
  The invoker looks the id up in the stub table and calls the stub; \<open>call_stub\<close> stands for the
  code at that address. The result is the value and \<^verbatim>\<open>*outIsError\<close>.
\<close>

definition sce_invoker ::
  "(u64 \<Rightarrow> u64 list \<Rightarrow> u64) \<Rightarrow> SceStubTable \<Rightarrow> u32 \<Rightarrow> u64 list \<Rightarrow> u64 \<times> bool" where
  "sce_invoker call_stub table i args =
     (case resolveById table i of
        None \<Rightarrow> (-1, True)
      | Some fn \<Rightarrow> (call_stub fn args, False))"

definition server_context :: "bool \<Rightarrow> ThreadManager \<Rightarrow> TrapRequest \<Rightarrow> SyscallContext" where
  "server_context has_process tm rq =
     (SyscallContext_new (sint (rq_number rq)) (rq_args rq))
       \<lparr>ctx_process := has_process,
        ctx_thread := (if has_process \<and> rq_threadId rq \<noteq> 0
                       then (case ThreadManager_get tm (rq_threadId rq) of
                               None \<Rightarrow> None | Some _ \<Rightarrow> Some (rq_threadId rq))
                       else None)\<rparr>"

definition serve_request ::
  "(u32 \<Rightarrow> u64 list \<Rightarrow> u64 \<times> bool) \<Rightarrow> TrapRequest \<Rightarrow> 'w PS4Process
     \<Rightarrow> 'w PS4Process SyscallDispatcher
     \<Rightarrow> (TrapResponse \<times> 'w PS4Process \<times> 'w PS4Process SyscallDispatcher) cpp" where
  "serve_request sceInvoker rq p d =
     (if rq_kind rq = 1
      then (case sceInvoker (ucast (rq_number rq)) (rq_args rq) of
              (v, isError) \<Rightarrow> Val (\<lparr>rs_retval = v, rs_isError = (if isError then 1 else 0)\<rparr>, p, d))
      else cpp_bind (dispatch d (server_context True (p_threads p) rq) p) (\<lambda>(ctx, p', d').
             Val (\<lparr>rs_retval = word_of_int (ctx_retval ctx),
                   rs_isError = (if ctx_isError ctx then 1 else 0)\<rparr>, p', d')))"

text \<open>
  What guests do to the ring while the server works: a thread publishes a request in a free slot (when none is
  free it sleeps and tries again), or takes the answer out of its slot and frees it.
\<close>

datatype guest_act = GaSubmit TrapRequest | GaFinish nat

fun guest_acts :: "guest_act list \<Rightarrow> TrapRingHeader \<Rightarrow> TrapRingHeader" where
  "guest_acts [] h = h"
| "guest_acts (GaSubmit rq # gs) h =
     guest_acts gs (case claimSlot h of (None, _) \<Rightarrow> h | (Some i, h) \<Rightarrow> submit_publish i rq h)"
| "guest_acts (GaFinish i # gs) h =
     guest_acts gs (if i < kTrapSlotCount \<and> sl_state (hd_slots h ! i) = SlotDone then snd (submit_finish i h) else h)"

text \<open>
  \<^verbatim>\<open>tryConsume\<close> among running guests: before the server loads the state of a slot, the guests
  have done the next element of \<open>gs\<close> (nothing more when it is empty). The result has the acts not yet done.
\<close>

fun scan_slots :: "nat \<Rightarrow> nat \<Rightarrow> guest_act list list \<Rightarrow> TrapRingHeader
    \<Rightarrow> (TrapRequest \<times> nat) option \<times> TrapRingHeader \<times> guest_act list list" where
  "scan_slots 0 i gs h = (None, h, gs)"
| "scan_slots (Suc k) i gs h =
     (let h = guest_acts (concat (take 1 gs)) h
      in if sl_state (hd_slots h ! i) = SlotPending then (Some (sl_req (hd_slots h ! i), i), h, drop 1 gs)
         else scan_slots k (Suc i) (drop 1 gs) h)"

text \<open>
  One pass of \<^verbatim>\<open>run\<close>: requests are consumed until a scan finds none pending. \<open>n\<close> bounds the rounds; the result
  has the acts that the guests did during the last scan.
\<close>

fun server_drain ::
  "(u32 \<Rightarrow> u64 list \<Rightarrow> u64 \<times> bool) \<Rightarrow> nat \<Rightarrow> guest_act list list \<Rightarrow> TrapRingHeader \<Rightarrow> 'w PS4Process
     \<Rightarrow> 'w PS4Process SyscallDispatcher
     \<Rightarrow> (guest_act list list \<times> TrapRingHeader \<times> 'w PS4Process \<times> 'w PS4Process SyscallDispatcher) option cpp" where
  "server_drain sceInvoker n gs h p d =
     (case scan_slots kTrapSlotCount 0 gs h of
        (None, h', _) \<Rightarrow> Val (Some (take kTrapSlotCount gs, h', p, d))
      | (Some (rq, i), h', gs') \<Rightarrow>
          (case n of
             0 \<Rightarrow> Val None
           | Suc m \<Rightarrow>
               cpp_bind (serve_request sceInvoker rq p d) (\<lambda>(resp, p', d').
                 server_drain sceInvoker m gs' (complete_slot i resp h') p' d')))"

declare server_drain.simps [simp del]

section \<open>The server\<close>

record TrapServer =
  ts_ring :: bool
  ts_running :: bool
  ts_thread :: bool

definition TrapServer_bindRing :: "TrapServer \<Rightarrow> TrapServer" where
  "TrapServer_bindRing s = s\<lparr>ts_ring := True\<rparr>"

definition TrapServer_start :: "TrapServer \<Rightarrow> bool \<times> TrapServer" where
  "TrapServer_start s =
     (if ts_thread s then (True, s)
      else if \<not> ts_ring s then (False, s)
      else (True, s\<lparr>ts_running := True, ts_thread := True\<rparr>))"

definition TrapServer_stop :: "TrapServer \<Rightarrow> TrapRingHeader \<Rightarrow> TrapServer \<times> TrapRingHeader" where
  "TrapServer_stop s h =
     (if \<not> ts_running s then (s\<lparr>ts_thread := False\<rparr>, h)
      else (s\<lparr>ts_running := False, ts_thread := False\<rparr>, if ts_ring s then requestShutdown h else h))"

section \<open>Lemmas\<close>

lemma ucast_u32_u64: "ucast (ucast (w :: u32) :: u64) = w"
  by (rule bit_word_eqI) (simp add: bit_ucast_iff)

lemma sce_call_masks:
  "isSceCall (makeSceCall i)" "sceCallId (makeSceCall i) = i AND kSceCallMask"
proof -
  have u: "ucast (makeSceCall i) = kSceCallBase OR (i AND kSceCallMask)"
    unfolding makeSceCall_def by (rule ucast_u32_u64)
  show "isSceCall (makeSceCall i)"
    unfolding isSceCall_def u kSceCallBase_def kSceCallMask_def
    by (simp add: bit.conj_disj_distrib2 and.assoc)
  show "sceCallId (makeSceCall i) = i AND kSceCallMask"
    unfolding sceCallId_def u kSceCallBase_def kSceCallMask_def
    by (simp add: bit.conj_disj_distrib2 and.assoc)
qed

lemma and_sce_mask: "unat i < 2 ^ 28 \<Longrightarrow> i AND kSceCallMask = i"
proof -
  assume "unat i < 2 ^ 28"
  then have "unat (take_bit 28 i) = unat i"
    by (simp add: unsigned_take_bit_eq take_bit_nat_eq_self)
  then have "take_bit 28 i = i" by (simp only: word_unat_eq_iff)
  then show ?thesis by (simp add: kSceCallMask_def take_bit_eq_mask mask_eq_exp_minus_1)
qed

lemma sce_number_large:
  "0x0FFFFFFF < unat (ucast (makeSceCall i) :: u32)"
proof -
  have "ucast (makeSceCall i) = kSceCallBase OR (i AND kSceCallMask)"
    unfolding makeSceCall_def by (rule ucast_u32_u64)
  moreover have "kSceCallBase \<le> kSceCallBase OR (i AND kSceCallMask)"
    by (rule le_word_or2)
  ultimately have "unat kSceCallBase \<le> unat (ucast (makeSceCall i) :: u32)"
    by (simp add: word_le_nat_alt)
  then show ?thesis by (simp add: kSceCallBase_def)
qed

section \<open>Draining the ring\<close>

text \<open>The pending slots below an index, and the requests among the acts of the guests.\<close>

definition pending_below :: "nat \<Rightarrow> TrapRingHeader \<Rightarrow> nat" where
  "pending_below k h = card {i. i < k \<and> sl_state (hd_slots h ! i) = SlotPending}"

abbreviation pending_slots :: "TrapRingHeader \<Rightarrow> nat" where
  "pending_slots \<equiv> pending_below kTrapSlotCount"

definition submits :: "guest_act list list \<Rightarrow> nat" where
  "submits gs = length (filter (\<lambda>g. case g of GaSubmit _ \<Rightarrow> True | GaFinish _ \<Rightarrow> False) (concat gs))"

lemma submits_simps [simp]:
  "submits [] = 0" "submits ((GaSubmit rq # g) # gs) = Suc (submits (g # gs))"
  "submits ((GaFinish i # g) # gs) = submits (g # gs)" "submits ([] # gs) = submits gs"
  by (simp_all add: submits_def)

lemma submits_take_drop: "submits (take 1 gs) + submits (drop 1 gs) = submits gs"
  by (cases gs) (simp_all add: submits_def)

lemma pending_below_le: "pending_below k h \<le> k"
  using card_mono [of "{..<k}" "{i. i < k \<and> sl_state (hd_slots h ! i) = SlotPending}"]
  by (auto simp: pending_below_def)

lemma pending_below_mono:
  assumes "\<And>j. j < k \<Longrightarrow> j \<noteq> i \<Longrightarrow> sl_state (hd_slots h' ! j) = SlotPending \<Longrightarrow> sl_state (hd_slots h ! j) = SlotPending"
  shows "pending_below k h' \<le> Suc (pending_below k h)"
proof -
  have "{j. j < k \<and> sl_state (hd_slots h' ! j) = SlotPending}
      \<subseteq> insert i {j. j < k \<and> sl_state (hd_slots h ! j) = SlotPending}" using assms by auto
  then have "pending_below k h' \<le> card (insert i {j. j < k \<and> sl_state (hd_slots h ! j) = SlotPending})"
    unfolding pending_below_def by (intro card_mono) auto
  also have "\<dots> \<le> Suc (pending_below k h)" unfolding pending_below_def by (intro card_insert_le_m1) auto
  finally show ?thesis .
qed

lemma pending_below_subset:
  assumes "\<And>j. j < k \<Longrightarrow> sl_state (hd_slots h' ! j) = SlotPending \<Longrightarrow> sl_state (hd_slots h ! j) = SlotPending"
  shows "pending_below k h' \<le> pending_below k h"
  unfolding pending_below_def using assms by (intro card_mono) auto

lemma pending_below_Suc:
  "pending_below (Suc k) h = pending_below k h + (if sl_state (hd_slots h ! k) = SlotPending then 1 else 0)"
proof -
  have "{i. i < Suc k \<and> sl_state (hd_slots h ! i) = SlotPending}
      = {i. i < k \<and> sl_state (hd_slots h ! i) = SlotPending} \<union> (if sl_state (hd_slots h ! k) = SlotPending then {k} else {})"
    by (auto simp: less_Suc_eq)
  then show ?thesis by (simp add: pending_below_def)
qed

lemma guest_act_slots:
  "length (hd_slots (update_slot i f h)) = length (hd_slots h)"
  "j \<noteq> i \<Longrightarrow> hd_slots (update_slot i f h) ! j = hd_slots h ! j"
  "length (hd_slots (submit_publish i rq h)) = length (hd_slots h)"
  "j \<noteq> i \<Longrightarrow> hd_slots (submit_publish i rq h) ! j = hd_slots h ! j"
  by (simp_all add: update_slot_def submit_publish_def wakeServer_def)

lemma guest_acts_pending:
  "pending_below k (guest_acts g h) \<le> pending_below k h + submits [g]
   \<and> length (hd_slots (guest_acts g h)) = length (hd_slots h)"
proof (induction g arbitrary: h)
  case (Cons a g)
  show ?case
  proof (cases a)
    case (GaSubmit rq)
    show ?thesis
    proof (cases "claim_from 0 (hd_slots h)")
      case None
      then show ?thesis using Cons.IH [of h] GaSubmit by (simp add: claimSlot_def)
    next
      case (Some i)
      let ?h = "submit_publish i rq (update_slot i (\<lambda>s. s\<lparr>sl_state := SlotPending\<rparr>) h)"
      have "pending_below k ?h \<le> Suc (pending_below k h)"
        by (rule pending_below_mono [of _ i]) (simp add: guest_act_slots)
      then show ?thesis using Cons.IH [of ?h] GaSubmit Some by (simp add: claimSlot_def guest_act_slots)
    qed
  next
    case (GaFinish i)
    have "pending_below k (releaseSlot i h) \<le> pending_below k h"
    proof (rule pending_below_subset)
      fix j
      assume "sl_state (hd_slots (releaseSlot i h) ! j) = SlotPending"
      then show "sl_state (hd_slots h ! j) = SlotPending"
        by (cases "j = i \<and> i < length (hd_slots h)")
           (auto simp: releaseSlot_def update_slot_def list_update_beyond nth_list_update split: if_splits)
    qed
    then show ?thesis
      using Cons.IH [of h] Cons.IH [of "releaseSlot i h"] GaFinish
      by (auto simp: submit_finish_def releaseSlot_def guest_act_slots)
  qed
qed simp

lemma guests_before_look:
  "pending_below k (guest_acts (concat (take 1 gs)) h) \<le> pending_below k h + submits (take 1 gs)
   \<and> length (hd_slots (guest_acts (concat (take 1 gs)) h)) = length (hd_slots h)"
  using guest_acts_pending [of k "concat (take 1 gs)" h] by (cases gs) (simp_all add: submits_def)

lemma scan_measure:
  "scan_slots k i gs h = (r, h', gs') \<Longrightarrow>
     pending_slots h' + submits gs' \<le> pending_slots h + submits gs \<and> length (hd_slots h') = length (hd_slots h)
     \<and> (\<forall>rq j. r = Some (rq, j) \<longrightarrow> j < i + k \<and> sl_state (hd_slots h' ! j) = SlotPending)"
proof (induction k arbitrary: i gs h)
  case (Suc k)
  let ?h = "guest_acts (concat (take 1 gs)) h"
  note g = guests_before_look [of kTrapSlotCount gs h] submits_take_drop [of gs]
  show ?case
  proof (cases "sl_state (hd_slots ?h ! i) = SlotPending")
    case True
    with Suc.prems g show ?thesis by (auto simp: Let_def)
  next
    case False
    with Suc.prems have "scan_slots k (Suc i) (drop 1 gs) ?h = (r, h', gs')" by (simp add: Let_def)
    from Suc.IH [OF this] g show ?thesis by auto
  qed
qed simp

lemma scan_none:
  "scan_slots k i gs h = (None, h', gs') \<Longrightarrow> pending_below (i + k) h' \<le> pending_below i h + submits (take k gs)"
proof (induction k arbitrary: i gs h)
  case (Suc k)
  let ?h = "guest_acts (concat (take 1 gs)) h"
  have np: "sl_state (hd_slots ?h ! i) \<noteq> SlotPending"
    and "scan_slots k (Suc i) (drop 1 gs) ?h = (None, h', gs')"
    using Suc.prems by (auto simp: Let_def split: if_splits)
  from Suc.IH [OF this(2)] have "pending_below (i + Suc k) h' \<le> pending_below i ?h + submits (take k (drop 1 gs))"
    using np by (simp add: pending_below_Suc)
  also have "\<dots> \<le> pending_below i h + submits (take 1 gs) + submits (take k (drop 1 gs))"
    using guests_before_look [of i gs h] by simp
  also have "\<dots> = pending_below i h + submits (take (Suc k) gs)" by (cases gs) (simp_all add: submits_def)
  finally show ?case .
qed simp

lemma complete_pending:
  assumes "length (hd_slots h) = kTrapSlotCount" and "i < kTrapSlotCount" and "sl_state (hd_slots h ! i) = SlotPending"
  shows "pending_slots h = Suc (pending_slots (complete_slot i r h))"
    and "length (hd_slots (complete_slot i r h)) = kTrapSlotCount"
proof -
  let ?P = "\<lambda>h. {j. j < kTrapSlotCount \<and> sl_state (hd_slots h ! j) = SlotPending}"
  have "?P h = insert i (?P (complete_slot i r h))" "i \<notin> ?P (complete_slot i r h)"
    using assms by (auto simp: complete_slot_def update_slot_def nth_list_update split: if_splits)
  then show "pending_slots h = Suc (pending_slots (complete_slot i r h))" by (simp add: pending_below_def)
  show "length (hd_slots (complete_slot i r h)) = kTrapSlotCount"
    using assms(1) by (simp add: complete_slot_def guest_act_slots)
qed

lemma server_drain_returns:
  assumes "length (hd_slots h) = kTrapSlotCount" and "pending_slots h + submits gs \<le> n"
  shows "server_drain sceInvoker n gs h p d = UB \<or>
    (\<exists>last h' p' d'. server_drain sceInvoker n gs h p d = Val (Some (last, h', p', d'))
        \<and> pending_slots h' \<le> submits last)"
  using assms
proof (induction n arbitrary: gs h p d)
  case 0
  obtain r h' gs' where s: "scan_slots kTrapSlotCount 0 gs h = (r, h', gs')" by (metis prod_cases3)
  note m = scan_measure [OF s]
  have "r = None"
  proof (rule ccontr)
    assume "r \<noteq> None"
    then obtain rq i where "r = Some (rq, i)" by auto
    with m have "i < kTrapSlotCount" "sl_state (hd_slots h' ! i) = SlotPending" by auto
    then have "0 < pending_slots h'" by (auto simp: pending_below_def card_gt_0_iff)
    with m 0(2) show False by simp
  qed
  with s scan_none [of kTrapSlotCount 0 gs h h' gs'] show ?case
    by (simp add: server_drain.simps pending_below_def)
next
  case (Suc n)
  obtain r h' gs' where s: "scan_slots kTrapSlotCount 0 gs h = (r, h', gs')" by (metis prod_cases3)
  note m = scan_measure [OF s]
  show ?case
  proof (cases r)
    case None
    with s scan_none [of kTrapSlotCount 0 gs h h' gs'] show ?thesis
      by (simp add: server_drain.simps pending_below_def)
  next
    case (Some x)
    obtain rq i where x: "x = (rq, i)" by (cases x)
    have l: "length (hd_slots h') = kTrapSlotCount" "i < kTrapSlotCount" "sl_state (hd_slots h' ! i) = SlotPending"
      using m Some x Suc.prems(1) by auto
    note cp = complete_pending [OF l]
    show ?thesis
    proof (cases "serve_request sceInvoker rq p d")
      case (Val y)
      obtain r' p' d' where y: "y = (r', p', d')" by (cases y) auto
      have "pending_slots (complete_slot i r' h') + submits gs' \<le> n" using cp(1) [of r'] m Suc.prems(2) by simp
      from Suc.IH [OF cp(2) this, of p' d'] Some x s Val y show ?thesis
        by (simp add: server_drain.simps [of _ "Suc n"])
    qed (use Some x s in \<open>simp add: server_drain.simps [of _ "Suc n"]\<close>)
  qed
qed

section \<open>One trap through the ring\<close>






section \<open>Properties\<close>

text \<open>
  Call numbers: every SCE call number is recognised as one and gives back the id it was
  made from (its low 28 bits); no system call number below \<^verbatim>\<open>2^28\<close> is taken for an SCE call.
\<close>

theorem sce_call_number_roundtrip:
  "isSceCall (makeSceCall i) \<and> sceCallId (makeSceCall i) = i AND kSceCallMask
   \<and> (unat i < 2 ^ 28 \<longrightarrow> sceCallId (makeSceCall i) = i)
   \<and> (unat n < 2 ^ 28 \<longrightarrow> \<not> isSceCall n)"
proof -
  have "\<not> isSceCall n" if n: "unat n < 2 ^ 28"
  proof
    assume "isSceCall n"
    then have "kSceCallBase \<le> ucast n" unfolding isSceCall_def by (metis word_and_le2)
    then have "unat kSceCallBase \<le> unat (ucast n :: u32)" by (simp add: word_le_nat_alt)
    moreover have "unat (ucast n :: u32) \<le> unat n"
      by (simp add: unsigned_ucast_eq take_bit_eq_mod)
    ultimately show False using n by (simp add: kSceCallBase_def)
  qed
  then show ?thesis using sce_call_masks [of i] and_sce_mask [of i] by auto
qed

theorem sce_call_number_roundtrip_witness:
  "sceCallId (makeSceCall 0x123) = 0x123 \<and> \<not> isSceCall 5"
proof -
  have "unat (0x123 :: u32) < 2 ^ 28" "unat (5 :: u64) < 2 ^ 28" by simp_all
  with sce_call_number_roundtrip [of "0x123" 5] show ?thesis by blast
qed




text \<open>
  C35. A pass of the server ends. While the server drains the ring, guests go on submitting requests and taking
  answers between any two of its loads. A pass that begins with any ring and during which
  guests submit \<open>k\<close> requests returns after at most 256 (the slots) and \<open>k\<close> rounds, unless a handler's execution is undefined,
  and what it leaves pending was submitted during its last scan of the slots.
\<close>

theorem server_drains_ring:
  assumes "length (hd_slots h) = kTrapSlotCount"
  shows "server_drain sceInvoker (kTrapSlotCount + submits gs) gs h p d = UB \<or>
    (\<exists>last h' p' d'. server_drain sceInvoker (kTrapSlotCount + submits gs) gs h p d = Val (Some (last, h', p', d'))
        \<and> pending_slots h' \<le> submits last)"
  using pending_below_le [of kTrapSlotCount h] by (intro server_drain_returns [OF assms]) simp

theorem server_drains_ring_witness:
  "\<exists>last h' p' d'. server_drain (\<lambda>_ _. (0, False)) (kTrapSlotCount + submits [[GaSubmit TrapRequest_new]])
        [[GaSubmit TrapRequest_new]] TrapRing_new
        (guest_process (page_mem 0 [])) SyscallDispatcher_new = Val (Some (last, h', p', d'))
      \<and> pending_slots h' \<le> submits last"
proof -
  let ?gs = "[[GaSubmit TrapRequest_new]]"
  have l: "length (hd_slots TrapRing_new) = kTrapSlotCount" by (simp add: TrapRing_new_def)
  have "case server_drain (\<lambda>_ _. (0, False)) (kTrapSlotCount + submits ?gs) ?gs TrapRing_new
      (guest_process (page_mem 0 [])) SyscallDispatcher_new of UB \<Rightarrow> False | Val _ \<Rightarrow> True"
    by code_simp
  with server_drains_ring [OF l, of "\<lambda>_ _. (0, False)" ?gs "guest_process (page_mem 0 [])" SyscallDispatcher_new]
  show ?thesis by (auto split: cpp.splits)
qed

text \<open>
  SCE calls never reach their stub. The server passes the whole call number to the
  invoker, where the ids are only the low 28 bits: whatever stubs are registered and whatever
  id a trampoline asks for, the answer is -1 with the error flag.
\<close>

theorem sce_traps_always_fail:
  "serve_request (sce_invoker call_stub (register_stubs rs))
     (sigsys_request tid (regs\<lparr>REG_RAX := makeSceCall i\<rparr>)) p d
   = Val (\<lparr>rs_retval = -1, rs_isError = 1\<rparr>, p, d)"
proof -
  let ?rq = "sigsys_request tid (regs\<lparr>REG_RAX := makeSceCall i\<rparr>)"
  have "resolveById (register_stubs rs) (ucast (makeSceCall i)) = None"
    using stub_id_bound [OF stub_inv_register_stubs] sce_number_large [of i] not_less by fastforce
  moreover have "rq_kind ?rq = 1" "rq_number ?rq = makeSceCall i"
    using sce_call_masks [of i] by (simp_all add: sigsys_request_def)
  ultimately show ?thesis by (simp add: serve_request_def sce_invoker_def)
qed

end
