(* ===== verification/Isolation.thy ===== *)
theory Isolation
  imports Trap_Gate
begin

text \<open>
  \<^verbatim>\<open>isolation/IsolationConfig\<close>, \<^verbatim>\<open>isolation/SeccompFilter.cpp\<close> and the child side of
  \<^verbatim>\<open>runtime/GuestProcess.cpp\<close>: the configuration, the filter program, and the order in which
  the forked child locks itself in before it jumps to the guest. The kernel's filter machine
  and the outcomes of the privileged calls are parameters.
\<close>

unbundle bit_operations_syntax

section \<open>Configuration\<close>

record IsolationConfig =
  use_user_ns :: bool
  use_pid_ns :: bool
  use_mount_ns :: bool
  use_net_ns :: bool
  use_ipc_ns :: bool
  use_uts_ns :: bool
  guest_hostname :: string
  jail_root :: string
  drop_capabilities :: bool
  no_new_privs :: bool
  trap_all_syscalls :: bool
  syscall_allowlist :: "int list"
  trace_syscalls :: bool
  trace_sce_calls :: bool
  abort_on_isolation_failure :: bool

definition IsolationConfig_default :: IsolationConfig where
  "IsolationConfig_default =
     \<lparr>use_user_ns = True, use_pid_ns = True, use_mount_ns = True, use_net_ns = True,
      use_ipc_ns = True, use_uts_ns = True, guest_hostname = ''PS4'', jail_root = [],
      drop_capabilities = True, no_new_privs = True, trap_all_syscalls = True,
      syscall_allowlist = [202, 15, 131, 219, 334, 9, 10, 11, 60, 231],
      trace_syscalls = False, trace_sce_calls = False, abort_on_isolation_failure = True\<rparr>"

definition envBool :: "(string \<Rightarrow> string option) \<Rightarrow> string \<Rightarrow> bool \<Rightarrow> bool" where
  "envBool getenv name fallback =
     (case getenv name of
        None \<Rightarrow> fallback
      | Some v \<Rightarrow> v \<noteq> ''0'' \<and> v \<noteq> ''false'' \<and> v \<noteq> ''no'')"

definition envStr :: "(string \<Rightarrow> string option) \<Rightarrow> string \<Rightarrow> string \<Rightarrow> string" where
  "envStr getenv name fallback = (case getenv name of None \<Rightarrow> fallback | Some v \<Rightarrow> v)"

definition loadIsolationConfigFromEnvironment :: "(string \<Rightarrow> string option) \<Rightarrow> IsolationConfig" where
  "loadIsolationConfigFromEnvironment getenv =
     (let c = IsolationConfig_default
      in \<lparr>use_user_ns = envBool getenv ''FUSIONPS4_ISO_USER_NS'' (use_user_ns c),
          use_pid_ns = envBool getenv ''FUSIONPS4_ISO_PID_NS'' (use_pid_ns c),
          use_mount_ns = envBool getenv ''FUSIONPS4_ISO_MOUNT_NS'' (use_mount_ns c),
          use_net_ns = envBool getenv ''FUSIONPS4_ISO_NET_NS'' (use_net_ns c),
          use_ipc_ns = envBool getenv ''FUSIONPS4_ISO_IPC_NS'' (use_ipc_ns c),
          use_uts_ns = envBool getenv ''FUSIONPS4_ISO_UTS_NS'' (use_uts_ns c),
          guest_hostname = envStr getenv ''FUSIONPS4_ISO_HOSTNAME'' (guest_hostname c),
          jail_root = envStr getenv ''FUSIONPS4_ISO_JAIL'' (jail_root c),
          drop_capabilities = envBool getenv ''FUSIONPS4_ISO_DROP_CAPS'' (drop_capabilities c),
          no_new_privs = envBool getenv ''FUSIONPS4_ISO_NO_NEW_PRIVS'' (no_new_privs c),
          trap_all_syscalls = envBool getenv ''FUSIONPS4_ISO_TRAP_ALL'' (trap_all_syscalls c),
          syscall_allowlist = syscall_allowlist c,
          trace_syscalls = envBool getenv ''FUSIONPS4_ISO_TRACE_SYSCALLS'' False,
          trace_sce_calls = envBool getenv ''FUSIONPS4_ISO_TRACE_SCE'' False,
          abort_on_isolation_failure = envBool getenv ''FUSIONPS4_ISO_STRICT'' True\<rparr>)"

section \<open>The filter program\<close>

record sock_filter =
  sf_code :: u16
  sf_jt :: u8
  sf_jf :: u8
  sf_k :: u32

text \<open>\<^verbatim>\<open>BPF_LD | BPF_W | BPF_ABS\<close>, \<^verbatim>\<open>BPF_JMP | BPF_JEQ | BPF_K\<close>, \<^verbatim>\<open>BPF_RET | BPF_K\<close> and the actions.\<close>

definition BPF_LD_W_ABS :: u16 where "BPF_LD_W_ABS = 0x20"
definition BPF_JEQ_K :: u16 where "BPF_JEQ_K = 0x15"
definition BPF_RET_K :: u16 where "BPF_RET_K = 0x06"
definition SECCOMP_RET_ALLOW :: u32 where "SECCOMP_RET_ALLOW = 0x7FFF0000"
definition SECCOMP_RET_TRAP :: u32 where "SECCOMP_RET_TRAP = 0x00030000"

definition bpf_emit :: "u16 \<Rightarrow> u32 \<Rightarrow> sock_filter list \<Rightarrow> sock_filter list" where
  "bpf_emit code k ops = ops @ [\<lparr>sf_code = code, sf_jt = 0, sf_jf = 0, sf_k = k\<rparr>]"

definition bpf_loadSyscallNumber :: "sock_filter list \<Rightarrow> sock_filter list" where
  "bpf_loadSyscallNumber ops = bpf_emit BPF_LD_W_ABS 0 ops"

definition bpf_jumpIfEqual :: "u32 \<Rightarrow> u8 \<Rightarrow> u8 \<Rightarrow> sock_filter list \<Rightarrow> sock_filter list" where
  "bpf_jumpIfEqual k jt jf ops = ops @ [\<lparr>sf_code = BPF_JEQ_K, sf_jt = jt, sf_jf = jf, sf_k = k\<rparr>]"

definition bpf_ret :: "u32 \<Rightarrow> sock_filter list \<Rightarrow> sock_filter list" where
  "bpf_ret action ops = bpf_emit BPF_RET_K action ops"

definition seccomp_program :: "IsolationConfig \<Rightarrow> sock_filter list" where
  "seccomp_program cfg =
     bpf_ret SECCOMP_RET_TRAP
       (fold (\<lambda>nr ops. bpf_ret SECCOMP_RET_ALLOW (bpf_jumpIfEqual (word_of_int nr) 0 1 ops))
          (syscall_allowlist cfg) (bpf_loadSyscallNumber []))"

text \<open>
  \<^verbatim>\<open>installImpl\<close> hands the program and its length, cut to 16 bits, to \<^verbatim>\<open>seccomp(2)\<close>, with the
  TSYNC flag and, for auditing, the LOG flag; \<open>sys\<close> answers that call.
\<close>

definition seccomp_install ::
  "(u64 \<Rightarrow> u16 \<Rightarrow> sock_filter list \<Rightarrow> int) \<Rightarrow> IsolationConfig \<Rightarrow> bool \<Rightarrow> bool" where
  "seccomp_install sys cfg audit =
     (let ops = seccomp_program cfg; flags = (if audit then 1 OR 2 else 1)
      in sys flags (of_nat (length ops)) ops = 0)"

text \<open>
  What the filter relies on of the kernel's machine: \<open>exec\<close> runs the rest of a program on an
  accumulator and the number of the system call.
\<close>

definition bpf_semantics :: "(sock_filter list \<Rightarrow> u32 \<Rightarrow> u32 \<Rightarrow> u32 option) \<Rightarrow> bool" where
  "bpf_semantics exec \<longleftrightarrow>
     (\<forall>i ops a nr. sf_code i = BPF_LD_W_ABS \<and> sf_k i = 0 \<longrightarrow> exec (i # ops) a nr = exec ops nr nr)
   \<and> (\<forall>i ops a nr. sf_code i = BPF_JEQ_K \<longrightarrow>
        exec (i # ops) a nr = exec (drop (unat (if a = sf_k i then sf_jt i else sf_jf i)) ops) a nr)
   \<and> (\<forall>i ops a nr. sf_code i = BPF_RET_K \<longrightarrow> exec (i # ops) a nr = Some (sf_k i))"

text \<open>A machine that has these properties.\<close>

function bpf_exec :: "sock_filter list \<Rightarrow> u32 \<Rightarrow> u32 \<Rightarrow> u32 option" where
  "bpf_exec [] a nr = None"
| "bpf_exec (i # ops) a nr =
     (if sf_code i = BPF_LD_W_ABS then bpf_exec ops nr nr
      else if sf_code i = BPF_JEQ_K
      then bpf_exec (drop (unat (if a = sf_k i then sf_jt i else sf_jf i)) ops) a nr
      else if sf_code i = BPF_RET_K then Some (sf_k i) else None)"
  by pat_completeness auto
termination by (relation "measure (\<lambda>(ops, a, nr). length ops)") auto

lemma bpf_semantics_bpf_exec: "bpf_semantics bpf_exec"
  by (simp add: bpf_semantics_def BPF_LD_W_ABS_def BPF_JEQ_K_def BPF_RET_K_def)

section \<open>The child's setup\<close>

text \<open>
  The calls the child makes, and \<open>os\<close>, which answers each with its return value and errno.
  No call is made twice. Every setup function gives its result and the calls made.
\<close>

datatype SetupCall =
    CUnshare u32
  | CSethostname string
  | CMountPrivate
  | CMkdir string
  | CMountTmpfs string
  | COpenCreat string
  | CBindMount string string
  | CMountProc string
  | CChdir string
  | CPivotRoot
  | CChroot
  | CSigaltstack
  | CSigactionSigsys
  | CNoNewPrivs
  | CCapbsetDrop nat
  | CCapset
  | CSeccomp "sock_filter list"
  | CGuestEntry

type_synonym setup_os = "SetupCall \<Rightarrow> int \<times> int"

definition call_ok :: "setup_os \<Rightarrow> SetupCall \<Rightarrow> bool" where
  "call_ok os c \<longleftrightarrow> fst (os c) = 0"

definition unshare_flags :: "IsolationConfig \<Rightarrow> u32" where
  "unshare_flags cfg =
     (if use_user_ns cfg then 0x10000000 else 0) OR (if use_pid_ns cfg then 0x20000000 else 0)
     OR (if use_mount_ns cfg then 0x00020000 else 0) OR (if use_net_ns cfg then 0x40000000 else 0)
     OR (if use_ipc_ns cfg then 0x08000000 else 0) OR (if use_uts_ns cfg then 0x04000000 else 0)"

definition unshareAll :: "setup_os \<Rightarrow> IsolationConfig \<Rightarrow> bool \<times> SetupCall list" where
  "unshareAll os cfg =
     (let flags = unshare_flags cfg
      in if flags = 0 then (True, []) else (call_ok os (CUnshare flags), [CUnshare flags]))"

definition setHostname :: "setup_os \<Rightarrow> IsolationConfig \<Rightarrow> bool \<times> SetupCall list" where
  "setHostname os cfg =
     (if \<not> use_uts_ns cfg then (True, [])
      else (call_ok os (CSethostname (guest_hostname cfg)), [CSethostname (guest_hostname cfg)]))"

definition jail_dirs :: "string list" where
  "jail_dirs = [''/app'', ''/data'', ''/system'', ''/temp'', ''/save'', ''/user'', ''/dev'', ''/proc'', ''/tmp'']"

definition safe_devs :: "(string \<times> string) list" where
  "safe_devs = [(''/dev/null'', ''dev/null''), (''/dev/zero'', ''dev/zero''),
     (''/dev/random'', ''dev/random''), (''/dev/urandom'', ''dev/urandom'')]"

definition jail_skeleton :: "string \<Rightarrow> SetupCall list" where
  "jail_skeleton newRoot =
     map (\<lambda>d. CMkdir (newRoot @ d)) jail_dirs
     @ concat (map (\<lambda>(src, dst). let p = newRoot @ ''/'' @ dst in [COpenCreat p, CBindMount src p]) safe_devs)
     @ [CMountProc (newRoot @ ''/proc'')]"

definition enter_root :: "setup_os \<Rightarrow> SetupCall list \<Rightarrow> bool \<times> SetupCall list" where
  "enter_root os acc =
     (if \<not> call_ok os CPivotRoot \<and> \<not> call_ok os CChroot then (False, acc @ [CPivotRoot, CChroot])
      else (let acc = acc @ (if call_ok os CPivotRoot then [CPivotRoot] else [CPivotRoot, CChroot])
            in (call_ok os (CChdir ''/''), acc @ [CChdir ''/''])))"

definition pivotIntoJail :: "setup_os \<Rightarrow> IsolationConfig \<Rightarrow> bool \<times> SetupCall list" where
  "pivotIntoJail os cfg =
     (if \<not> use_mount_ns cfg then (True, [])
      else if \<not> call_ok os CMountPrivate then (False, [CMountPrivate])
      else
        (let newRoot = (if jail_root cfg = [] then ''/tmp/fusionps4-jail'' else jail_root cfg);
             acc = [CMountPrivate, CMkdir newRoot]
         in if \<not> call_ok os (CMkdir newRoot) \<and> snd (os (CMkdir newRoot)) \<noteq> 17 then (False, acc)
            else
              (let acc = acc @ [CMountTmpfs newRoot]
               in if \<not> call_ok os (CMountTmpfs newRoot) then (False, acc)
                  else
                    (let acc = acc @ jail_skeleton newRoot @ [CChdir newRoot]
                     in if \<not> call_ok os (CChdir newRoot) then (False, acc) else enter_root os acc))))"

definition TrapGate_install :: "setup_os \<Rightarrow> bool \<times> SetupCall list" where
  "TrapGate_install os =
     (if \<not> call_ok os CSigaltstack then (False, [CSigaltstack])
      else (call_ok os CSigactionSigsys, [CSigaltstack, CSigactionSigsys]))"

definition setNoNewPrivs :: "setup_os \<Rightarrow> bool \<times> SetupCall list" where
  "setNoNewPrivs os = (call_ok os CNoNewPrivs, [CNoNewPrivs])"

text \<open>\<open>lastCap\<close> is the number read from \<^verbatim>\<open>/proc/sys/kernel/cap_last_cap\<close>, or 63.\<close>

definition dropAll :: "setup_os \<Rightarrow> nat \<Rightarrow> bool \<times> SetupCall list" where
  "dropAll os lastCap = (call_ok os CCapset, map CCapbsetDrop [0..<Suc lastCap] @ [CCapset])"

definition SeccompFilter_install :: "setup_os \<Rightarrow> IsolationConfig \<Rightarrow> bool \<times> SetupCall list" where
  "SeccompFilter_install os cfg =
     (seccomp_install (\<lambda>flags len ops. fst (os (CSeccomp (take (unat len) ops)))) cfg False,
      [CSeccomp (seccomp_program cfg)])"

text \<open>
  One stage of \<^verbatim>\<open>childMain\<close>: a failure that counts ends the child with exit code 1, otherwise
  the child goes on with the calls recorded so far.
\<close>

definition stage :: "bool \<Rightarrow> bool \<times> SetupCall list \<Rightarrow> (SetupCall list \<Rightarrow> int \<times> SetupCall list)
    \<Rightarrow> SetupCall list \<Rightarrow> int \<times> SetupCall list" where
  "stage fatal r k acc =
     (case r of (ok, calls) \<Rightarrow> if \<not> ok \<and> fatal then (1, acc @ calls) else k (acc @ calls))"

definition childMain :: "setup_os \<Rightarrow> nat \<Rightarrow> IsolationConfig \<Rightarrow> int \<times> SetupCall list" where
  "childMain os lastCap cfg =
     (let strict = abort_on_isolation_failure cfg
      in stage strict (unshareAll os cfg) (
         stage strict (setHostname os cfg) (
         stage strict (pivotIntoJail os cfg) (
         stage True (TrapGate_install os) (
         stage strict (if no_new_privs cfg then setNoNewPrivs os else (True, [])) (
         stage strict (if drop_capabilities cfg then dropAll os lastCap else (True, [])) (
         stage True (if trap_all_syscalls cfg then SeccompFilter_install os cfg else (True, [])) (
         \<lambda>acc. (0, acc @ [CGuestEntry])))))))) [])"

section \<open>Lemmas\<close>

definition allow_block :: "int \<Rightarrow> sock_filter list" where
  "allow_block nr = bpf_ret SECCOMP_RET_ALLOW (bpf_jumpIfEqual (word_of_int nr) 0 1 [])"

lemma seccomp_program_blocks:
  "seccomp_program cfg =
     bpf_loadSyscallNumber [] @ concat (map allow_block (syscall_allowlist cfg))
     @ bpf_ret SECCOMP_RET_TRAP []"
proof -
  have "fold (\<lambda>nr ops. bpf_ret SECCOMP_RET_ALLOW (bpf_jumpIfEqual (word_of_int nr) 0 1 ops)) xs ops
      = ops @ concat (map allow_block xs)" for xs ops
    by (induction xs arbitrary: ops)
       (auto simp: allow_block_def bpf_ret_def bpf_emit_def bpf_jumpIfEqual_def)
  then show ?thesis by (simp add: seccomp_program_def bpf_ret_def bpf_emit_def)
qed

lemma exec_allow_block:
  assumes "bpf_semantics exec"
  shows "exec (allow_block nr @ ops) a m =
    (if a = word_of_int nr then Some SECCOMP_RET_ALLOW else exec ops a m)"
  using assms
  by (simp add: bpf_semantics_def allow_block_def bpf_ret_def bpf_emit_def bpf_jumpIfEqual_def)

lemma exec_allow_blocks:
  assumes "bpf_semantics exec"
  shows "exec (concat (map allow_block xs) @ ops) a m =
    (if a \<in> set (map word_of_int xs) then Some SECCOMP_RET_ALLOW else exec ops a m)"
  by (induction xs) (auto simp: exec_allow_block [OF assms])

lemma seccomp_verdict:
  assumes "bpf_semantics exec"
  shows "exec (seccomp_program cfg) a nr =
    Some (if nr \<in> set (map word_of_int (syscall_allowlist cfg)) then SECCOMP_RET_ALLOW
          else SECCOMP_RET_TRAP)"
proof -
  have "exec (bpf_loadSyscallNumber [] @ ops) a nr = exec ops nr nr" for ops
    using assms by (simp add: bpf_semantics_def bpf_loadSyscallNumber_def bpf_emit_def)
  moreover have "exec (bpf_ret SECCOMP_RET_TRAP []) nr nr = Some SECCOMP_RET_TRAP"
    using assms by (simp add: bpf_semantics_def bpf_ret_def bpf_emit_def)
  ultimately show ?thesis
    by (simp add: seccomp_program_blocks exec_allow_blocks [OF assms])
qed

lemma length_seccomp_program: "length (seccomp_program cfg) = 2 * length (syscall_allowlist cfg) + 2"
  by (simp add: seccomp_program_blocks bpf_loadSyscallNumber_def bpf_ret_def bpf_emit_def length_concat
      allow_block_def bpf_jumpIfEqual_def comp_def sum_list_triv)

lemma seccomp_install_full:
  assumes "length (syscall_allowlist cfg) \<le> 32766"
  shows "fst (SeccompFilter_install os cfg) \<longleftrightarrow> call_ok os (CSeccomp (seccomp_program cfg))"
proof -
  have "unat (of_nat (length (seccomp_program cfg)) :: u16) = length (seccomp_program cfg)"
    using assms unfolding unsigned_of_nat of_nat_id
    by (intro take_bit_nat_eq_self) (simp add: length_seccomp_program)
  then show ?thesis
    by (simp add: SeccompFilter_install_def seccomp_install_def call_ok_def Let_def)
qed

lemma stage_0E:
  assumes "stage fatal r k acc = (0, calls)"
  obtains "k (acc @ snd r) = (0, calls)" and "fatal \<longrightarrow> fst r"
  using assms by (cases r) (auto simp: stage_def split: if_splits)

section \<open>Properties\<close>

text \<open>
  C36. The filter, run on a machine with the documented meaning of its three instructions, lets a
  system call pass to the kernel exactly if its number is in the allow list and traps every
  other one, and the program fits the 16-bit length of \<^verbatim>\<open>sock_fprog\<close> for any list of up to
  32766 numbers.
\<close>

theorem seccomp_traps_unlisted:
  assumes "bpf_semantics exec"
  shows "exec (seccomp_program cfg) a nr =
      Some (if nr \<in> set (map word_of_int (syscall_allowlist cfg)) then SECCOMP_RET_ALLOW
            else SECCOMP_RET_TRAP)
    \<and> length (seccomp_program cfg) = 2 * length (syscall_allowlist cfg) + 2"
  using seccomp_verdict [OF assms] length_seccomp_program by blast

theorem seccomp_traps_unlisted_witness:
  "bpf_exec (seccomp_program IsolationConfig_default) 0 202 = Some SECCOMP_RET_ALLOW
   \<and> bpf_exec (seccomp_program IsolationConfig_default) 0 5 = Some SECCOMP_RET_TRAP"
  using seccomp_traps_unlisted [OF bpf_semantics_bpf_exec, of IsolationConfig_default 0 202]
    seccomp_traps_unlisted [OF bpf_semantics_bpf_exec, of IsolationConfig_default 0 5]
  by (simp add: IsolationConfig_default_def)

text \<open>
  The allow list holds Linux numbers, but the guest uses FreeBSD numbers, and the ranges
  overlap: the guest's \<^verbatim>\<open>unlink\<close> (10), for which the runtime has a handler, as well as its
  \<^verbatim>\<open>umask\<close> (60) and \<^verbatim>\<open>sysctl\<close> (202), pass the default filter and run in the kernel as
  \<^verbatim>\<open>mprotect\<close>, \<^verbatim>\<open>exit\<close> and \<^verbatim>\<open>futex\<close>; they are never forwarded. Every other system call the runtime
  serves is trapped, and so is every SCE call.
\<close>

theorem seccomp_passes_guest_numbers:
  assumes "bpf_semantics exec"
  shows "map (exec (seccomp_program IsolationConfig_default) 0)
           [10, word_of_int (syscall_value kSysUmask), word_of_int (syscall_value kSysSysctl)]
           = replicate 3 (Some SECCOMP_RET_ALLOW)
    \<and> filter (\<lambda>n. exec (seccomp_program IsolationConfig_default) 0 (word_of_int n)
                    \<noteq> Some SECCOMP_RET_TRAP)
        (registeredNumbers (runtime_dispatcher host)) = [10]
    \<and> exec (seccomp_program IsolationConfig_default) 0 (ucast (makeSceCall i)) = Some SECCOMP_RET_TRAP"
proof -
  have v: "exec (seccomp_program IsolationConfig_default) 0 nr =
      Some (if nr \<in> {202, 15, 131, 219, 334, 9, 10, 11, 60, 231} then SECCOMP_RET_ALLOW
            else SECCOMP_RET_TRAP)" for nr
    by (simp add: seccomp_verdict [OF assms] IsolationConfig_default_def)
  have "registeredNumbers (runtime_dispatcher host) =
      [5, 6, 3, 4, 478, 484, 188, 136, 137, 10, 128, 95, 480, 477, 69, 70, 331, 332, 434, 437,
       20, 64, 116, 97, 1]"
    by (simp add: registeredNumbers_def runtime_dispatcher_def register_defs install_def
        registerHandler_def SyscallDispatcher_new_def um_assign_def)
  then have "filter (\<lambda>n. exec (seccomp_program IsolationConfig_default) 0 (word_of_int n)
        \<noteq> Some SECCOMP_RET_TRAP) (registeredNumbers (runtime_dispatcher host)) = [10]"
    by (simp add: v SECCOMP_RET_ALLOW_def SECCOMP_RET_TRAP_def)
  moreover have "(ucast (makeSceCall i) :: u32) \<notin> {202, 15, 131, 219, 334, 9, 10, 11, 60, 231}"
    using sce_number_large [of i] by auto
  then have "exec (seccomp_program IsolationConfig_default) 0 (ucast (makeSceCall i))
      = Some SECCOMP_RET_TRAP" by (simp add: v)
  ultimately show ?thesis by (simp add: v numeral_3_eq_3)
qed

theorem seccomp_passes_guest_numbers_witness:
  "bpf_exec (seccomp_program IsolationConfig_default) 0 10 = Some SECCOMP_RET_ALLOW"
  using seccomp_passes_guest_numbers [OF bpf_semantics_bpf_exec, of calm_host 0] by (simp add: numeral_3_eq_3)

text \<open>
  C4. The child's order. Under a strict configuration (whose allow list has at most 32766
  entries, so that the filter fits) the child jumps to the guest's code only
  after every step it was configured for and whose failure the code looks at has succeeded: the namespaces, the host
  name, the jail (a private mount tree, its directory made or there already, the file system mounted on it, the
  working directory moved to it, the new root entered by pivot or chroot and the
  working directory moved to it), the signal stack and handler, the privilege bit, the capability sets; the
  filter, with the whole program, is the last step before the jump, after the handler is in
  place, and every capability was asked to leave the bounding set before. (The code goes on when a directory or device of the jail cannot be made
  and when the bounding set refuses a capability.)
\<close>

theorem child_enters_isolated:
  assumes "childMain os lastCap cfg = (0, calls)" and "abort_on_isolation_failure cfg"
    and "length (syscall_allowlist cfg) \<le> 32766"
  shows "(unshare_flags cfg \<noteq> 0 \<longrightarrow> call_ok os (CUnshare (unshare_flags cfg)))
    \<and> (use_uts_ns cfg \<longrightarrow> call_ok os (CSethostname (guest_hostname cfg)))
    \<and> (use_mount_ns cfg \<longrightarrow>
         (let dir = (if jail_root cfg = [] then ''/tmp/fusionps4-jail'' else jail_root cfg)
          in call_ok os CMountPrivate \<and> (call_ok os (CMkdir dir) \<or> snd (os (CMkdir dir)) = 17)
             \<and> call_ok os (CMountTmpfs dir) \<and> call_ok os (CChdir dir)
             \<and> (call_ok os CPivotRoot \<or> call_ok os CChroot) \<and> call_ok os (CChdir ''/'')))
    \<and> call_ok os CSigaltstack \<and> call_ok os CSigactionSigsys
    \<and> (no_new_privs cfg \<longrightarrow> call_ok os CNoNewPrivs)
    \<and> (drop_capabilities cfg \<longrightarrow> call_ok os CCapset \<and> CCapbsetDrop ` {0..lastCap} \<subseteq> set calls)
    \<and> (trap_all_syscalls cfg \<longrightarrow> call_ok os (CSeccomp (seccomp_program cfg))
         \<and> (\<exists>pre. calls = pre @ [CSeccomp (seccomp_program cfg), CGuestEntry]
              \<and> CSigactionSigsys \<in> set pre))"
proof -
  from assms(1) obtain acc where
    u: "fst (unshareAll os cfg)" and h: "fst (setHostname os cfg)" and p: "fst (pivotIntoJail os cfg)"
    and g: "fst (TrapGate_install os)"
    and n: "fst (if no_new_privs cfg then setNoNewPrivs os else (True, []))"
    and d: "fst (if drop_capabilities cfg then dropAll os lastCap else (True, []))"
    and s: "fst (if trap_all_syscalls cfg then SeccompFilter_install os cfg else (True, []))"
    and calls: "calls = acc @ snd (TrapGate_install os)
        @ snd (if no_new_privs cfg then setNoNewPrivs os else (True, []))
        @ snd (if drop_capabilities cfg then dropAll os lastCap else (True, []))
        @ snd (if trap_all_syscalls cfg then SeccompFilter_install os cfg else (True, [])) @ [CGuestEntry]"
    unfolding childMain_def Let_def using assms(2) by (elim stage_0E) auto
  have "use_mount_ns cfg \<longrightarrow>
         (let dir = (if jail_root cfg = [] then ''/tmp/fusionps4-jail'' else jail_root cfg)
          in call_ok os CMountPrivate \<and> (call_ok os (CMkdir dir) \<or> snd (os (CMkdir dir)) = 17)
             \<and> call_ok os (CMountTmpfs dir) \<and> call_ok os (CChdir dir)
             \<and> (call_ok os CPivotRoot \<or> call_ok os CChroot) \<and> call_ok os (CChdir ''/''))"
    using p unfolding pivotIntoJail_def enter_root_def Let_def by (simp split: if_splits)
  moreover have "call_ok os CSigaltstack" "call_ok os CSigactionSigsys" "CSigactionSigsys \<in> set (snd (TrapGate_install os))"
    using g by (auto simp: TrapGate_install_def split: if_splits)
  moreover have "drop_capabilities cfg \<longrightarrow> CCapbsetDrop ` {0..lastCap} \<subseteq> set calls"
    by (auto simp: calls dropAll_def less_Suc_eq_le)
  ultimately show ?thesis
    using u h n d s calls seccomp_install_full [OF assms(3), of os]
    by (auto simp: unshareAll_def setHostname_def setNoNewPrivs_def dropAll_def Let_def
        SeccompFilter_install_def split: if_splits)
qed

theorem child_enters_isolated_witness:
  "\<exists>calls. childMain (\<lambda>_. (0, 0)) 40 IsolationConfig_default = (0, calls)
     \<and> (\<exists>pre. calls = pre @ [CSeccomp (seccomp_program IsolationConfig_default), CGuestEntry]
          \<and> CSigactionSigsys \<in> set pre)"
proof -
  have "fst (childMain (\<lambda>_. (0, 0)) 40 IsolationConfig_default) = 0" by code_simp
  then obtain calls where 1: "childMain (\<lambda>_. (0, 0)) 40 IsolationConfig_default = (0, calls)"
    by (metis prod.collapse)
  have 2: "abort_on_isolation_failure IsolationConfig_default"
    "length (syscall_allowlist IsolationConfig_default) \<le> 32766"
    "trap_all_syscalls IsolationConfig_default"
    by (simp_all add: IsolationConfig_default_def)
  from child_enters_isolated [OF 1 2(1,2)] 1 2(3) show ?thesis by blast
qed

text \<open>
  The environment relaxes isolation only explicitly: a flag of the loaded configuration is
  off only if its variable is set to one of the three spellings of "no", and the allow list
  cannot be changed at all.
\<close>

theorem environment_relaxes_explicitly:
  assumes "\<And>v. getenv v \<notin> {Some ''0'', Some ''false'', Some ''no''}"
  shows "let c = loadIsolationConfigFromEnvironment getenv
         in unshare_flags c = 0x7C020000 \<and> drop_capabilities c \<and> no_new_privs c
            \<and> trap_all_syscalls c \<and> abort_on_isolation_failure c
            \<and> syscall_allowlist c = syscall_allowlist IsolationConfig_default"
proof -
  have "envBool getenv v True" for v
    using assms [of v] by (auto simp: envBool_def split: option.splits)
  then show ?thesis
    by (simp add: loadIsolationConfigFromEnvironment_def IsolationConfig_default_def
        unshare_flags_def Let_def)
qed

theorem environment_relaxes_explicitly_witness:
  "drop_capabilities (loadIsolationConfigFromEnvironment (\<lambda>_. None))"
  using environment_relaxes_explicitly [of "\<lambda>_. None"] by (simp add: Let_def)

end
