(* ===== verification/Process.thy ===== *)
theory Process
  imports Isolation
begin

text \<open>
  \<^verbatim>\<open>runtime/process/PS4Process.cpp\<close> and the parent side of \<^verbatim>\<open>runtime/GuestProcess.cpp\<close>: the life
  cycle of the guest process, from its first mappings to its shutdown.
\<close>

unbundle bit_operations_syntax

section \<open>The forked guest\<close>

record GuestProcess =
  gp_iso :: IsolationConfig
  gp_arena :: SharedArena
  gp_ring :: TrapRingHeader
  gp_server :: bool
  gp_pid :: int
  gp_exited :: bool

definition GuestProcess_new :: GuestProcess where
  "GuestProcess_new =
     \<lparr>gp_iso = IsolationConfig_default, gp_arena = SharedArena_new, gp_ring = TrapRing_new,
      gp_server = False, gp_pid = -1, gp_exited = False\<rparr>"

definition GuestProcess_configure ::
  "arena_os \<Rightarrow> IsolationConfig \<Rightarrow> u64 \<Rightarrow> u64 \<Rightarrow> GuestProcess \<Rightarrow> bool \<times> GuestProcess" where
  "GuestProcess_configure os cfg arenaBase arenaSize g =
     (let g1 = g\<lparr>gp_iso := cfg\<rparr>
      in case SharedArena_init os arenaBase arenaSize (gp_arena g1) of
           (ok, a) \<Rightarrow>
             if \<not> ok then (False, g1\<lparr>gp_arena := a\<rparr>)
             else (True, g1\<lparr>gp_arena := a, gp_ring := TrapRing_initialize (gp_ring g1)\<rparr>))"

text \<open>The server pointer, as whether one is bound.\<close>

definition GuestProcess_bindServer :: "bool \<Rightarrow> GuestProcess \<Rightarrow> GuestProcess" where
  "GuestProcess_bindServer server g = g\<lparr>gp_server := server\<rparr>"

text \<open>\<^verbatim>\<open>spawn\<close> as the parent sees it, with the result of \<^verbatim>\<open>fork()\<close>; the child runs \<open>childMain\<close>.\<close>

definition GuestProcess_spawn :: "int \<Rightarrow> GuestProcess \<Rightarrow> bool \<times> GuestProcess" where
  "GuestProcess_spawn fork_pid g =
     (if gp_pid g > 0 then (False, g)
      else if fork_pid < 0 then (False, g)
      else (True, g\<lparr>gp_pid := fork_pid\<rparr>))"

text \<open>
  \<^verbatim>\<open>wait\<close> for the answers \<open>(result, errno, status)\<close> of \<^verbatim>\<open>waitpid\<close> in turn; \<open>None\<close> while every
  answer so far was an interruption.
\<close>

fun GuestProcess_wait :: "(int \<times> int \<times> int) list \<Rightarrow> GuestProcess \<Rightarrow> (int \<times> GuestProcess) option" where
  "GuestProcess_wait [] g = (if gp_pid g \<le> 0 then Some (0, g) else None)"
| "GuestProcess_wait ((r, e, status) # answers) g =
     (if gp_pid g \<le> 0 then Some (0, g)
      else if r < 0 then (if e = 4 then GuestProcess_wait answers g else Some (-1, g))
      else Some (status, g\<lparr>gp_exited := True, gp_pid := -1\<rparr>))"

definition GuestProcess_kill :: "GuestProcess \<Rightarrow> GuestProcess" where
  "GuestProcess_kill g = (if gp_pid g \<le> 0 then g else g\<lparr>gp_exited := True, gp_pid := -1\<rparr>)"

definition GuestProcess_running :: "GuestProcess \<Rightarrow> bool" where
  "GuestProcess_running g \<longleftrightarrow> gp_pid g > 0 \<and> \<not> gp_exited g"

section \<open>The process\<close>

datatype ProcessState = PsCreated | PsLoading | PsReady | PsRunning | PsSuspended | PsExited

record 'w ManagedProcess =
  mp_core :: "'w PS4Process"
  mp_state :: ProcessState
  mp_mainThread :: ThreadId
  mp_mainModule :: bool
  mp_guest :: "GuestProcess option"
  mp_server :: "TrapServer option"

definition ManagedProcess_new :: "'w PS4Process \<Rightarrow> 'w ManagedProcess" where
  "ManagedProcess_new core =
     \<lparr>mp_core = core, mp_state = PsCreated, mp_mainThread = 0, mp_mainModule = False,
      mp_guest = None, mp_server = None\<rparr>"

definition set_space :: "AddressSpace \<Rightarrow> 'w ManagedProcess \<Rightarrow> 'w ManagedProcess" where
  "set_space sp m = m\<lparr>mp_core := (mp_core m)\<lparr>p_space := sp\<rparr>\<rparr>"

definition set_threads :: "ThreadManager \<Rightarrow> 'w ManagedProcess \<Rightarrow> 'w ManagedProcess" where
  "set_threads th m = m\<lparr>mp_core := (mp_core m)\<lparr>p_threads := th\<rparr>\<rparr>"

abbreviation mp_space :: "'w ManagedProcess \<Rightarrow> AddressSpace" where
  "mp_space m \<equiv> p_space (mp_core m)"

abbreviation mp_threads :: "'w ManagedProcess \<Rightarrow> ThreadManager" where
  "mp_threads m \<equiv> p_threads (mp_core m)"

definition kStackSize :: u64 where "kStackSize = 8 * 1024 * 1024"
definition kHeapSize :: u64 where "kHeapSize = 64 * 1024 * 1024"

definition process_init :: "arena_os \<Rightarrow> 'w ManagedProcess \<Rightarrow> bool \<times> 'w ManagedProcess" where
  "process_init os m =
     (if mp_state m \<noteq> PsCreated then (False, m)
      else (case AddressSpace_init os (mp_space m) of
        (ok, sp) \<Rightarrow>
          if \<not> ok then (False, set_space sp m)
          else (case AddressSpace_map sp 0 kStackSize (ProtRead OR ProtWrite) ''main-stack'' of
            (stack, sp1) \<Rightarrow>
              if stack = 0 then (False, set_space sp1 m)
              else (case AddressSpace_map sp1 0 kHeapSize (ProtRead OR ProtWrite) ''main-heap'' of
                (heap, sp2) \<Rightarrow>
                  if heap = 0 then (False, set_space sp2 m)
                  else (True, (set_space sp2 m)\<lparr>mp_state := PsReady\<rparr>)))))"

text \<open>\<^verbatim>\<open>closeAll\<close> drops every object of the table, whose destructor closes its descriptor.\<close>

definition close_all_handles :: "'w host \<Rightarrow> 'w PS4Process \<Rightarrow> 'w PS4Process" where
  "close_all_handles host p =
     fold (destroy_object host) (map snd (h_objects (p_handles p)))
       (p\<lparr>p_handles := HandleTable_closeAll (p_handles p)\<rparr>)"

definition process_shutdown :: "'w host \<Rightarrow> 'w ManagedProcess \<Rightarrow> 'w ManagedProcess cpp" where
  "process_shutdown host m =
     (if mp_state m = PsExited then Val m
      else cpp_bind (ThreadManager_shutdownAll (mp_threads m)) (\<lambda>th.
        let core = close_all_handles host ((mp_core m)\<lparr>p_threads := th\<rparr>);
            core = core\<lparr>p_space := AddressSpace_destroy (p_space core)\<rparr>
        in Val (m\<lparr>mp_core := core, mp_state := PsExited\<rparr>)))"

definition process_loadExecutable :: "'w ManagedProcess \<Rightarrow> bool \<times> 'w ManagedProcess" where
  "process_loadExecutable m = (False, m\<lparr>mp_state := PsLoading\<rparr>)"

definition process_startMainThread :: "int \<Rightarrow> 'w ManagedProcess \<Rightarrow> bool \<times> 'w ManagedProcess" where
  "process_startMainThread rc m =
     (if mp_state m \<noteq> PsReady \<and> mp_state m \<noteq> PsSuspended then (False, m)
      else (case ThreadManager_create ''main'' (mp_threads m) of
        (tid, th) \<Rightarrow>
          (case ThreadManager_start rc tid th of
             (ok, th1) \<Rightarrow>
               (let m1 = (set_threads th1 m)\<lparr>mp_mainThread := tid\<rparr>
                in if \<not> ok then (False, m1) else (True, m1\<lparr>mp_state := PsRunning\<rparr>)))))"

definition update_all_threads :: "(ThreadObject \<Rightarrow> ThreadObject) \<Rightarrow> ThreadManager \<Rightarrow> ThreadManager" where
  "update_all_threads f tm = tm\<lparr>tm_threads := map (\<lambda>(k, t). (k, f t)) (tm_threads tm)\<rparr>"

definition process_suspend :: "'w ManagedProcess \<Rightarrow> 'w ManagedProcess" where
  "process_suspend m =
     (if mp_state m \<noteq> PsRunning then m
      else (set_threads (update_all_threads ThreadObject_suspend (mp_threads m)) m)
             \<lparr>mp_state := PsSuspended\<rparr>)"

definition process_resume :: "'w ManagedProcess \<Rightarrow> 'w ManagedProcess" where
  "process_resume m =
     (if mp_state m \<noteq> PsSuspended then m
      else (set_threads (update_all_threads ThreadObject_resume (mp_threads m)) m)
             \<lparr>mp_state := PsRunning\<rparr>)"

definition process_start ::
  "arena_os \<Rightarrow> int \<Rightarrow> IsolationConfig \<Rightarrow> 'w ManagedProcess \<Rightarrow> bool \<times> 'w ManagedProcess" where
  "process_start os fork_pid cfg m =
     (if mp_state m \<noteq> PsReady then (False, m)
      else if \<not> mp_mainModule m then (False, m)
      else (case GuestProcess_configure os cfg (m_base (mp_space m)) (m_capacity (mp_space m))
                   GuestProcess_new of
        (ok, g) \<Rightarrow>
          if \<not> ok then (False, m\<lparr>mp_guest := None, mp_server := None\<rparr>)
          else (case TrapServer_start
                       (TrapServer_bindRing \<lparr>ts_ring = False, ts_running = False, ts_thread = False\<rparr>) of
            (started, srv) \<Rightarrow>
              if \<not> started then (False, m\<lparr>mp_guest := None, mp_server := None\<rparr>)
              else (case GuestProcess_spawn fork_pid g of
                (spawned, g1) \<Rightarrow>
                  if \<not> spawned then (False, m\<lparr>mp_guest := None, mp_server := None\<rparr>)
                  else (True, m\<lparr>mp_guest := Some g1, mp_server := Some srv, mp_state := PsRunning\<rparr>)))))"

definition process_waitForGuest ::
  "(int \<times> int \<times> int) list \<Rightarrow> 'w ManagedProcess \<Rightarrow> (int \<times> 'w ManagedProcess) option" where
  "process_waitForGuest answers m =
     (case mp_guest m of
        None \<Rightarrow> Some (0, m)
      | Some g \<Rightarrow>
          (case GuestProcess_wait answers g of
             None \<Rightarrow> None
           | Some (status, g1) \<Rightarrow>
               (case mp_server m of
                  None \<Rightarrow> Some (status, m\<lparr>mp_guest := Some g1, mp_state := PsExited\<rparr>)
                | Some srv \<Rightarrow>
                    (case TrapServer_stop srv (gp_ring g1) of
                       (srv1, ring1) \<Rightarrow>
                         Some (status, m\<lparr>mp_guest := Some (g1\<lparr>gp_ring := ring1\<rparr>),
                                        mp_server := Some srv1, mp_state := PsExited\<rparr>)))))"

section \<open>Lemmas\<close>

definition fds_of :: "HandleObject list \<Rightarrow> int multiset" where
  "fds_of objs = mset (List.map_filter object_hostFd objs)"

lemma fds_of_simps:
  "fds_of [] = {#}"
  "fds_of (obj # objs) = (case object_hostFd obj of None \<Rightarrow> {#} | Some fd \<Rightarrow> {#fd#}) + fds_of objs"
  by (auto simp: fds_of_def List.map_filter_def split: option.splits)

lemma in_flight_destroy_one:
  assumes "in_flight (fds_of (obj # objs)) p"
  shows "in_flight (fds_of objs) (destroy_object host obj p)"
proof (cases "object_hostFd obj")
  case None
  with assms show ?thesis by (simp add: fds_of_simps destroy_object_def)
next
  case (Some fd)
  have fd: "0 \<le> fd" and live: "fd \<in># live_fds (p_trace p)"
    using assms Some by (auto simp: in_flight_def fds_of_simps live_fds_def)
  then show ?thesis
    using assms Some
    by (auto simp: in_flight_def fds_of_simps destroy_object_def opened_fds_append
        closed_fds_append uses_live_fds_snoc)
qed

lemma in_flight_destroy_all:
  "in_flight (fds_of objs) p \<Longrightarrow> fds_accounted (fold (destroy_object host) objs p)"
  by (induction objs arbitrary: p)
     (auto simp: fds_of_simps(1) in_flight_empty intro: in_flight_destroy_one)

lemma fold_destroy_fields:
  "p_handles (fold (destroy_object host) objs p) = p_handles p"
  by (induction objs arbitrary: p) auto

lemma close_all_handles_accounted:
  assumes "fds_accounted p"
  shows "fds_accounted (close_all_handles host p)"
    and "h_objects (p_handles (close_all_handles host p)) = []"
proof -
  let ?p = "p\<lparr>p_handles := HandleTable_closeAll (p_handles p)\<rparr>"
  have "table_fds (HandleTable_closeAll (p_handles p)) = {#}"
    by (simp add: table_fds_def HandleTable_closeAll_def List.map_filter_def)
  then have "in_flight (fds_of (map snd (h_objects (p_handles p)))) ?p"
    using assms
    by (simp add: in_flight_def fds_accounted_def fds_of_def table_fds_def um_oks
        HandleTable_closeAll_def)
  then show "fds_accounted (close_all_handles host p)"
    unfolding close_all_handles_def by (rule in_flight_destroy_all)
  show "h_objects (p_handles (close_all_handles host p)) = []"
    by (simp add: close_all_handles_def fold_destroy_fields HandleTable_closeAll_def)
qed

section \<open>Properties\<close>

text \<open>
  A fresh process whose arena the kernel provides becomes ready with exactly two regions, the
  8 MiB stack and behind it the 64 MiB heap, both readable and writable and not executable,
  inside the arena. If the kernel refuses the arena the process stays as created.
\<close>

theorem init_maps_stack_and_heap:
  assumes "p_space core = AddressSpace_new"
  shows "if os_memfd os \<ge> 0 \<and> os_ftruncate os = 0 \<and> os_mmap os = Some kGuestBase
         then \<exists>m'. process_init os (ManagedProcess_new core) = (True, m') \<and> mp_state m' = PsReady
               \<and> map (\<lambda>r. (r_base r, r_size r, r_prot r, r_name r)) (m_regions (mp_space m'))
                   = [(0x100000010000, 0x800000, 3, ''main-stack''),
                      (0x100000810000, 0x4000000, 3, ''main-heap'')]
               \<and> fst (process_init os m') = False
         else fst (process_init os (ManagedProcess_new core)) = False
               \<and> mp_state (snd (process_init os (ManagedProcess_new core))) = PsCreated"
proof (cases "os_memfd os \<ge> 0 \<and> os_ftruncate os = 0 \<and> os_mmap os = Some kGuestBase")
  case True
  then show ?thesis
    using assms
    by (simp add: process_init_def ManagedProcess_new_def AddressSpace_init_def SharedArena_init_def
        SharedArena_new_def AddressSpace_new_def AddressSpace_map_def findFreeGap_def alignUp_def
        kPageSize_def kStackSize_def kHeapSize_def kGuestBase_def kGuestSize_def ProtRead_def
        ProtWrite_def set_space_def Let_def)
next
  case False
  then show ?thesis
    using assms
    by (auto simp: process_init_def ManagedProcess_new_def AddressSpace_init_def SharedArena_init_def
        SharedArena_new_def AddressSpace_new_def set_space_def Let_def split: option.splits if_splits)
qed

theorem init_maps_stack_and_heap_witness:
  "\<exists>m'. process_init os_good (ManagedProcess_new (guest_process (page_mem 0 []))) = (True, m')
     \<and> mp_state m' = PsReady"
proof -
  have 1: "p_space (guest_process (page_mem 0 [])) = AddressSpace_new" by (simp add: guest_process_def)
  have 2: "os_memfd os_good \<ge> 0 \<and> os_ftruncate os_good = 0 \<and> os_mmap os_good = Some kGuestBase"
    by (simp add: os_good_def)
  from init_maps_stack_and_heap [OF 1, of os_good] 2 show ?thesis by auto
qed

text \<open>
  Shutdown gives everything back. Whatever system calls the guest made before, a shutdown that
  returns leaves the process exited with no handle, region or thread, and every host
  descriptor that was ever opened for the guest is closed, each exactly once.
\<close>

theorem shutdown_closes_all_fds:
  assumes "dispatch_all (runtime_dispatcher host) ctxs p = Val (ctxs', p', d')"
    and "fresh_process p" and "mp_core m = p'" and "mp_state m \<noteq> PsExited"
    and "process_shutdown host m = Val m'"
  shows "mp_state m' = PsExited \<and> opened_fds (p_trace (mp_core m')) = closed_fds (p_trace (mp_core m'))
    \<and> h_objects (p_handles (mp_core m')) = [] \<and> m_regions (mp_space m') = []
    \<and> tm_threads (mp_threads m') = []"
proof -
  have "fds_accounted p"
    using assms(2)
    by (simp add: fresh_process_def fds_accounted_def table_fds_def uses_live_fds_def um_oks
        List.map_filter_def)
  with run_eff [OF assms(1)] have acc: "fds_accounted p'" by (rule proc_eff_fds_accounted)
  from assms(3,4,5) obtain th where th: "ThreadManager_shutdownAll (p_threads p') = Val th"
    and m': "m' = m\<lparr>mp_core := (close_all_handles host (p'\<lparr>p_threads := th\<rparr>))
        \<lparr>p_space := AddressSpace_destroy (p_space (close_all_handles host (p'\<lparr>p_threads := th\<rparr>)))\<rparr>,
        mp_state := PsExited\<rparr>"
    by (auto simp: process_shutdown_def Let_def cpp_bind_eq_Val_iff)
  let ?q = "close_all_handles host (p'\<lparr>p_threads := th\<rparr>)"
  have "fds_accounted (p'\<lparr>p_threads := th\<rparr>)" using acc by (simp add: fds_accounted_def)
  note q = close_all_handles_accounted [OF this, of host]
  then have "table_fds (p_handles ?q) = {#}" by (simp add: table_fds_def List.map_filter_def)
  with q(1) have "opened_fds (p_trace ?q) = closed_fds (p_trace ?q)" by (simp add: fds_accounted_def)
  moreover have "tm_threads th = []"
    using th by (auto simp: ThreadManager_shutdownAll_def Let_def cpp_bind_eq_Val_iff)
  moreover have "p_threads (fold (destroy_object host) objs x) = p_threads x" for objs x
    by (induction objs arbitrary: x)
       (auto simp: destroy_object_def host_call_def split: option.splits prod.splits)
  ultimately show ?thesis
    using q(2) by (simp add: m' AddressSpace_destroy_def close_all_handles_def)
qed

theorem shutdown_closes_all_fds_witness:
  "\<exists>ctxs' p' d' m'.
     dispatch_all (runtime_dispatcher calm_host) [guest_call 20 [0, 0, 0, 0, 0, 0]]
       (guest_process (page_mem 0 [])) = Val (ctxs', p', d')
     \<and> process_shutdown calm_host (ManagedProcess_new p') = Val m'
     \<and> opened_fds (p_trace (mp_core m')) = closed_fds (p_trace (mp_core m'))"
proof -
  let ?p = "guest_process (page_mem 0 [])"
  let ?cs = "[guest_call 20 [0, 0, 0, 0, 0, 0]]"
  have "case dispatch_all (runtime_dispatcher calm_host) ?cs ?p of
      UB \<Rightarrow> False | Val (ctxs', p', d') \<Rightarrow> tm_threads (p_threads p') = []" by code_simp
  then obtain ctxs' p' d' where
    r: "dispatch_all (runtime_dispatcher calm_host) ?cs ?p = Val (ctxs', p', d')"
    and "tm_threads (p_threads p') = []"
    by (auto split: cpp.splits)
  then obtain m' where s: "process_shutdown calm_host (ManagedProcess_new p') = Val m'"
    by (simp add: process_shutdown_def ManagedProcess_new_def ThreadManager_shutdownAll_def
        ThreadManager_snapshot_def Let_def)
  have "mp_core (ManagedProcess_new p') = p'" "mp_state (ManagedProcess_new p') \<noteq> PsExited"
    by (simp_all add: ManagedProcess_new_def)
  from shutdown_closes_all_fds [OF r fresh_guest_process this s] r s show ?thesis by blast
qed

text \<open>
  The isolated guest cannot start. The address space has mapped the arena at its fixed base;
  \<^verbatim>\<open>start\<close> configures the guest with a second arena at the same base, and \<^verbatim>\<open>MAP_FIXED_NOREPLACE\<close>
  fails on a range that is mapped. With a kernel that behaves so, \<^verbatim>\<open>start\<close> on a process that
  was initialised returns false for every configuration, with or without a module.
\<close>

theorem isolated_start_fails:
  assumes "process_init os (ManagedProcess_new core) = (True, m)"
    and "p_space core = AddressSpace_new"
    and "hostMapped (mp_space m) (m_base (mp_space m)) \<longrightarrow> os_mmap os' = None"
  shows "fst (process_start os' fork_pid cfg (m\<lparr>mp_mainModule := b\<rparr>)) = False"
proof -
  have ok: "os_memfd os \<ge> 0 \<and> os_ftruncate os = 0 \<and> os_mmap os = Some kGuestBase"
    using assms(1,2)
    by (auto simp: process_init_def ManagedProcess_new_def AddressSpace_init_def SharedArena_init_def
        SharedArena_new_def AddressSpace_new_def Let_def split: option.splits if_splits)
  then have "m_base (mp_space m) = kGuestBase" "hostMapped (mp_space m) kGuestBase"
    using assms(1,2)
    by (auto simp: process_init_def ManagedProcess_new_def AddressSpace_init_def SharedArena_init_def
        SharedArena_new_def AddressSpace_new_def AddressSpace_map_def findFreeGap_def alignUp_def
        kPageSize_def kStackSize_def kHeapSize_def kGuestBase_def kGuestSize_def set_space_def Let_def)
  then have "os_mmap os' = None" using assms(3) by simp
  then show ?thesis
    by (auto simp: process_start_def GuestProcess_configure_def GuestProcess_new_def
        SharedArena_init_def SharedArena_new_def Let_def split: prod.splits if_splits)
qed

theorem isolated_start_fails_witness:
  "\<exists>m. process_init os_good (ManagedProcess_new (guest_process (page_mem 0 []))) = (True, m)
     \<and> fst (process_start (os_good\<lparr>os_mmap := None\<rparr>) 77 IsolationConfig_default
              (m\<lparr>mp_mainModule := True\<rparr>)) = False"
proof -
  have "fst (process_init os_good (ManagedProcess_new (guest_process (page_mem 0 [])))) = True"
    by code_simp
  then obtain m where 1: "process_init os_good (ManagedProcess_new (guest_process (page_mem 0 [])))
      = (True, m)" by (metis prod.collapse)
  have 2: "p_space (guest_process (page_mem 0 [])) = AddressSpace_new" by (simp add: guest_process_def)
  have 3: "hostMapped (mp_space m) (m_base (mp_space m)) \<longrightarrow> os_mmap (os_good\<lparr>os_mmap := None\<rparr>) = None"
    by simp
  from isolated_start_fails [OF 1 2 3] 1 show ?thesis by blast
qed

end
