(* ===== verification/Elf_Reader.thy ===== *)
theory Elf_Reader
  imports Prelude
begin

text \<open>
  \<^verbatim>\<open>loader/elf/ElfTypes.hpp\<close>, \<^verbatim>\<open>ElfReader.hpp\<close> and \<^verbatim>\<open>ElfReader.cpp\<close>: the on-disk structures of a
  PS4 executable, their decoding from the bytes of the file, and the validation of the header.
  The packed structures are read byte by byte, little-endian, as \<^verbatim>\<open>memcpy\<close> reads them on the host.
\<close>

section \<open>On-disk structures\<close>

definition kElfMagic :: "u8 list" where "kElfMagic = [0x7F, 0x45, 0x4C, 0x46]"
definition kElfClass64 :: u8 where "kElfClass64 = 2"
definition kElfDataLsb :: u8 where "kElfDataLsb = 1"
definition kElfVersionCur :: u8 where "kElfVersionCur = 1"
definition kElfOsAbiFreeBsd :: u8 where "kElfOsAbiFreeBsd = 9"
definition kEmX86_64 :: u16 where "kEmX86_64 = 62"

definition kEtExec :: u16 where "kEtExec = 2"
definition kEtDyn :: u16 where "kEtDyn = 3"
definition kEtSceExec :: u16 where "kEtSceExec = 0xFE00"
definition kEtSceRelExec :: u16 where "kEtSceRelExec = 0xFE04"
definition kEtSceStubLib :: u16 where "kEtSceStubLib = 0xFE0C"
definition kEtSceDynExec :: u16 where "kEtSceDynExec = 0xFE10"
definition kEtSceDynamic :: u16 where "kEtSceDynamic = 0xFE18"

definition kPtNull :: u32 where "kPtNull = 0"
definition kPtLoad :: u32 where "kPtLoad = 1"
definition kPtDynamic :: u32 where "kPtDynamic = 2"
definition kPtInterp :: u32 where "kPtInterp = 3"
definition kPtNote :: u32 where "kPtNote = 4"
definition kPtTls :: u32 where "kPtTls = 7"
definition kPtSceRel :: u32 where "kPtSceRel = 0x61000000"
definition kPtSceProcParam :: u32 where "kPtSceProcParam = 0x61000001"
definition kPtSceDynlibData :: u32 where "kPtSceDynlibData = 0x61000010"
definition kPtSceComment :: u32 where "kPtSceComment = 0x6FFFFF00"
definition kPtSceLibVer :: u32 where "kPtSceLibVer = 0x6FFFFF01"

definition kPfX :: u32 where "kPfX = 1"
definition kPfW :: u32 where "kPfW = 2"
definition kPfR :: u32 where "kPfR = 4"

record Elf64_Ehdr =
  e_ident :: "u8 list"
  e_type :: u16
  e_machine :: u16
  e_version :: u32
  e_entry :: u64
  e_phoff :: u64
  e_shoff :: u64
  e_flags :: u32
  e_ehsize :: u16
  e_phentsize :: u16
  e_phnum :: u16
  e_shentsize :: u16
  e_shnum :: u16
  e_shstrndx :: u16

record Elf64_Phdr =
  p_type :: u32
  p_flags :: u32
  p_offset :: u64
  p_vaddr :: u64
  p_paddr :: u64
  p_filesz :: u64
  p_memsz :: u64
  p_align :: u64

definition sizeof_Ehdr :: nat where "sizeof_Ehdr = 64"
definition sizeof_Phdr :: nat where "sizeof_Phdr = 56"

definition Ehdr_zero :: Elf64_Ehdr where
  "Ehdr_zero = \<lparr>e_ident = replicate 16 0, e_type = 0, e_machine = 0, e_version = 0, e_entry = 0,
     e_phoff = 0, e_shoff = 0, e_flags = 0, e_ehsize = 0, e_phentsize = 0, e_phnum = 0,
     e_shentsize = 0, e_shnum = 0, e_shstrndx = 0\<rparr>"

definition decode_Ehdr :: "u8 list \<Rightarrow> Elf64_Ehdr" where
  "decode_Ehdr bs =
     \<lparr>e_ident = take 16 bs, e_type = le_field 16 2 bs, e_machine = le_field 18 2 bs,
      e_version = le_field 20 4 bs, e_entry = le_field 24 8 bs, e_phoff = le_field 32 8 bs,
      e_shoff = le_field 40 8 bs, e_flags = le_field 48 4 bs, e_ehsize = le_field 52 2 bs,
      e_phentsize = le_field 54 2 bs, e_phnum = le_field 56 2 bs, e_shentsize = le_field 58 2 bs,
      e_shnum = le_field 60 2 bs, e_shstrndx = le_field 62 2 bs\<rparr>"

definition decode_Phdr :: "u8 list \<Rightarrow> Elf64_Phdr" where
  "decode_Phdr bs =
     \<lparr>p_type = le_field 0 4 bs, p_flags = le_field 4 4 bs, p_offset = le_field 8 8 bs,
      p_vaddr = le_field 16 8 bs, p_paddr = le_field 24 8 bs, p_filesz = le_field 32 8 bs,
      p_memsz = le_field 40 8 bs, p_align = le_field 48 8 bs\<rparr>"

section \<open>The parsed image\<close>

record SegmentInfo =
  sg_type :: u32
  sg_flags :: u32
  sg_offset :: u64
  sg_vaddr :: u64
  sg_filesz :: u64
  sg_memsz :: u64
  sg_align :: u64

record ElfImage =
  img_data :: "u8 list option"
  img_ehdr :: Elf64_Ehdr
  img_phdrs :: "SegmentInfo list"

definition ElfImage_empty :: ElfImage where
  "ElfImage_empty = \<lparr>img_data = None, img_ehdr = Ehdr_zero, img_phdrs = []\<rparr>"

definition img_size :: "ElfImage \<Rightarrow> u64" where
  "img_size img = (case img_data img of None \<Rightarrow> 0 | Some bs \<Rightarrow> of_nat (length bs))"

definition ElfImage_findFirst :: "u32 \<Rightarrow> ElfImage \<Rightarrow> SegmentInfo option" where
  "ElfImage_findFirst ty img = List.find (\<lambda>s. sg_type s = ty) (img_phdrs img)"

text \<open>Pointers into the file are offsets; \<open>None\<close> is the null pointer.\<close>

definition ElfImage_at :: "u64 \<Rightarrow> ElfImage \<Rightarrow> u64 option" where
  "ElfImage_at fileOffset img = (if img_size img \<le> fileOffset then None else Some fileOffset)"

definition ElfImage_as :: "u64 \<Rightarrow> u64 \<Rightarrow> ElfImage \<Rightarrow> u64 option" where
  "ElfImage_as sizeof_T fileOffset img =
     (if img_size img < fileOffset + sizeof_T then None else Some fileOffset)"

definition segment_of :: "Elf64_Phdr \<Rightarrow> SegmentInfo" where
  "segment_of ph =
     \<lparr>sg_type = p_type ph, sg_flags = p_flags ph, sg_offset = p_offset ph, sg_vaddr = p_vaddr ph,
      sg_filesz = p_filesz ph, sg_memsz = p_memsz ph, sg_align = p_align ph\<rparr>"

definition isSceType :: "u16 \<Rightarrow> bool" where
  "isSceType t \<longleftrightarrow> t = kEtSceExec \<or> t = kEtSceRelExec \<or> t = kEtSceDynExec
     \<or> t = kEtSceDynamic \<or> t = kEtSceStubLib"

text \<open>\<^verbatim>\<open>readFile\<close> for the bytes the host delivers, \<open>None\<close> if it cannot open or read the file.\<close>

definition ElfReader_readFile :: "u8 list option \<Rightarrow> u8 list option" where
  "ElfReader_readFile file =
     (case file of None \<Rightarrow> None | Some bs \<Rightarrow> if length bs < sizeof_Ehdr then None else Some bs)"

text \<open>
  The copy loop over the program headers. The source address is the buffer's begin plus
  \<open>phoff\<close> plus the index times the entry size; the sum must stay inside the buffer.
\<close>

fun read_phdrs :: "u8 list \<Rightarrow> u64 \<Rightarrow> nat list \<Rightarrow> SegmentInfo list cpp" where
  "read_phdrs buf phoff [] = Val []"
| "read_phdrs buf phoff (i # is) =
     cpp_bind (read_buffer buf (unat phoff + i * sizeof_Phdr) sizeof_Phdr) (\<lambda>bs.
       cpp_bind (read_phdrs buf phoff is) (\<lambda>segs. Val (segment_of (decode_Phdr bs) # segs)))"

definition ElfReader_parse :: "u8 list \<Rightarrow> (bool \<times> ElfImage) cpp" where
  "ElfReader_parse buf =
     (if length buf < sizeof_Ehdr then Val (False, ElfImage_empty)
      else
        (let e = decode_Ehdr (take sizeof_Ehdr buf);
             out = ElfImage_empty\<lparr>img_ehdr := e, img_data := Some buf\<rparr>
         in if take 4 (e_ident e) \<noteq> kElfMagic then Val (False, out)
            else if e_ident e ! 4 \<noteq> kElfClass64 then Val (False, out)
            else if e_ident e ! 5 \<noteq> kElfDataLsb then Val (False, out)
            else if e_ident e ! 6 \<noteq> kElfVersionCur then Val (False, out)
            else if e_machine e \<noteq> kEmX86_64 then Val (False, out)
            else if e_ident e ! 7 \<noteq> kElfOsAbiFreeBsd \<and> \<not> isSceType (e_type e) then Val (False, out)
            else if e_phentsize e \<noteq> of_nat sizeof_Phdr \<or> e_phnum e = 0 then Val (False, out)
            else if of_nat (length buf) < e_phoff e + ucast (e_phnum e) * of_nat sizeof_Phdr
              then Val (False, out)
            else cpp_bind (read_phdrs buf (e_phoff e) [0..<unat (e_phnum e)]) (\<lambda>segs.
              Val (True, out\<lparr>img_phdrs := segs\<rparr>))))"

definition ElfReader_typeName :: "u16 \<Rightarrow> string" where
  "ElfReader_typeName t =
     (if t = kEtExec then ''ET_EXEC''
      else if t = kEtDyn then ''ET_DYN''
      else if t = kEtSceExec then ''ET_SCE_EXEC''
      else if t = kEtSceRelExec then ''ET_SCE_RELEXEC''
      else if t = kEtSceStubLib then ''ET_SCE_STUBLIB''
      else if t = kEtSceDynExec then ''ET_SCE_DYNEXEC''
      else if t = kEtSceDynamic then ''ET_SCE_DYNAMIC''
      else ''ET_UNKNOWN'')"

definition ElfReader_machineName :: "u16 \<Rightarrow> string" where
  "ElfReader_machineName m = (if m = kEmX86_64 then ''x86_64'' else ''unknown'')"

definition ElfReader_phdrTypeName :: "u32 \<Rightarrow> string" where
  "ElfReader_phdrTypeName p =
     (if p = kPtNull then ''PT_NULL''
      else if p = kPtLoad then ''PT_LOAD''
      else if p = kPtDynamic then ''PT_DYNAMIC''
      else if p = kPtInterp then ''PT_INTERP''
      else if p = kPtNote then ''PT_NOTE''
      else if p = kPtTls then ''PT_TLS''
      else if p = kPtSceRel then ''PT_SCE_RELA''
      else if p = kPtSceProcParam then ''PT_SCE_PROCPARAM''
      else if p = kPtSceDynlibData then ''PT_SCE_DYNLIBDATA''
      else if p = kPtSceComment then ''PT_SCE_COMMENT''
      else if p = kPtSceLibVer then ''PT_SCE_LIBVERSION''
      else ''PT_?'')"

section \<open>Reading what was written\<close>

text \<open>The images of the two structures, for stating that decoding inverts them.\<close>

definition encode_Ehdr :: "Elf64_Ehdr \<Rightarrow> u8 list" where
  "encode_Ehdr e =
     e_ident e @ le_bytes 2 (e_type e) @ le_bytes 2 (e_machine e) @ le_bytes 4 (e_version e)
     @ le_bytes 8 (e_entry e) @ le_bytes 8 (e_phoff e) @ le_bytes 8 (e_shoff e)
     @ le_bytes 4 (e_flags e) @ le_bytes 2 (e_ehsize e) @ le_bytes 2 (e_phentsize e)
     @ le_bytes 2 (e_phnum e) @ le_bytes 2 (e_shentsize e) @ le_bytes 2 (e_shnum e)
     @ le_bytes 2 (e_shstrndx e)"

definition encode_Phdr :: "Elf64_Phdr \<Rightarrow> u8 list" where
  "encode_Phdr p =
     le_bytes 4 (p_type p) @ le_bytes 4 (p_flags p) @ le_bytes 8 (p_offset p)
     @ le_bytes 8 (p_vaddr p) @ le_bytes 8 (p_paddr p) @ le_bytes 8 (p_filesz p)
     @ le_bytes 8 (p_memsz p) @ le_bytes 8 (p_align p)"

lemma length_encode_Phdr [simp]: "length (encode_Phdr p) = sizeof_Phdr"
  by (simp add: encode_Phdr_def sizeof_Phdr_def)

lemma length_encode_Ehdr [simp]: "length (e_ident e) = 16 \<Longrightarrow> length (encode_Ehdr e) = sizeof_Ehdr"
  by (simp add: encode_Ehdr_def sizeof_Ehdr_def)

lemma decode_encode_Phdr: "decode_Phdr (encode_Phdr p) = p"
  unfolding decode_Phdr_def
  by (rule Elf64_Phdr.equality; simp; rule le_field_le_bytes; simp add: encode_Phdr_def)

lemma decode_encode_Ehdr: "length (e_ident e) = 16 \<Longrightarrow> decode_Ehdr (encode_Ehdr e) = e"
  unfolding decode_Ehdr_def
  by (rule Elf64_Ehdr.equality; simp?; (rule le_field_le_bytes)?; simp add: encode_Ehdr_def)

section \<open>The program header table\<close>

lemma read_phdrs_defined:
  "read_phdrs buf phoff is \<noteq> UB \<longleftrightarrow>
     (\<forall>i\<in>set is. unat phoff + i * sizeof_Phdr + sizeof_Phdr \<le> length buf)"
  by (induction "is") (auto simp: cpp_bind_def read_buffer_def split: cpp.splits)

lemma read_phdrs_in_file:
  "read_phdrs buf phoff [0..<n] \<noteq> UB \<longleftrightarrow> n = 0 \<or> unat phoff + n * sizeof_Phdr \<le> length buf"
proof (cases n)
  case (Suc k)
  have mono: "unat phoff + i * sizeof_Phdr + sizeof_Phdr \<le> unat phoff + n * sizeof_Phdr"
    if "i \<in> set [0..<n]" for i
  proof -
    have "Suc i * sizeof_Phdr \<le> n * sizeof_Phdr" using that by (intro mult_le_mono1) simp
    then show ?thesis by simp
  qed
  have last: "k \<in> set [0..<n]" "unat phoff + k * sizeof_Phdr + sizeof_Phdr = unat phoff + n * sizeof_Phdr"
    by (simp_all add: Suc)
  show ?thesis
    unfolding read_phdrs_defined
  proof
    assume "\<forall>i\<in>set [0..<n]. unat phoff + i * sizeof_Phdr + sizeof_Phdr \<le> length buf"
    from bspec [OF this last(1)] show "n = 0 \<or> unat phoff + n * sizeof_Phdr \<le> length buf"
      unfolding last(2) ..
  next
    assume "n = 0 \<or> unat phoff + n * sizeof_Phdr \<le> length buf"
    then have "unat phoff + n * sizeof_Phdr \<le> length buf" by (simp add: Suc)
    with mono show "\<forall>i\<in>set [0..<n]. unat phoff + i * sizeof_Phdr + sizeof_Phdr \<le> length buf"
      by (blast intro: order_trans)
  qed
qed simp

lemma read_phdrs_encoded:
  assumes "length pre = unat phoff"
  shows "read_phdrs (pre @ concat (map encode_Phdr (done @ phs)) @ rest) phoff
           [length done..<length done + length phs] = Val (map segment_of phs)"
proof (induction phs arbitrary: "done")
  case (Cons p phs)
  let ?buf = "pre @ concat (map encode_Phdr (done @ p # phs)) @ rest"
  have len: "length (concat (map encode_Phdr done)) = length done * sizeof_Phdr"
    by (induction "done") auto
  have "read_buffer ?buf (unat phoff + length done * sizeof_Phdr) sizeof_Phdr = Val (encode_Phdr p)"
    using read_buffer_append [of "pre @ concat (map encode_Phdr done)" _ "encode_Phdr p"]
    by (simp add: assms len)
  moreover have "read_phdrs ?buf phoff [Suc (length done)..<length done + Suc (length phs)]
      = Val (map segment_of phs)"
    using Cons.IH [of "done @ [p]"] by simp
  moreover have "[length done..<length done + Suc (length phs)]
      = length done # [Suc (length done)..<length done + Suc (length phs)]"
    by (simp add: upt_conv_Cons del: upt_Suc)
  ultimately show ?case by (simp add: decode_encode_Phdr del: upt_Suc)
qed simp

text \<open>The conditions on the header that do not concern the size of the file.\<close>

definition header_accepted :: "Elf64_Ehdr \<Rightarrow> bool" where
  "header_accepted e \<longleftrightarrow>
     take 4 (e_ident e) = kElfMagic \<and> e_ident e ! 4 = kElfClass64 \<and> e_ident e ! 5 = kElfDataLsb
     \<and> e_ident e ! 6 = kElfVersionCur \<and> e_machine e = kEmX86_64
     \<and> (e_ident e ! 7 = kElfOsAbiFreeBsd \<or> isSceType (e_type e))
     \<and> e_phentsize e = 56 \<and> e_phnum e \<noteq> 0"

definition table_end :: "Elf64_Ehdr \<Rightarrow> nat" where
  "table_end e = unat (e_phoff e) + unat (e_phnum e) * sizeof_Phdr"

lemma parse_cases:
  assumes "sizeof_Ehdr \<le> length buf"
  defines "e \<equiv> decode_Ehdr (take sizeof_Ehdr buf)"
  defines "out \<equiv> ElfImage_empty\<lparr>img_ehdr := e, img_data := Some buf\<rparr>"
  shows "ElfReader_parse buf =
     (if header_accepted e
         \<and> e_phoff e + ucast (e_phnum e) * of_nat sizeof_Phdr \<le> of_nat (length buf)
      then cpp_bind (read_phdrs buf (e_phoff e) [0..<unat (e_phnum e)])
             (\<lambda>segs. Val (True, out\<lparr>img_phdrs := segs\<rparr>))
      else Val (False, out))"
  using assms(1)
  by (auto simp: ElfReader_parse_def header_accepted_def sizeof_Phdr_def Let_def not_le not_less
      simp flip: e_def out_def)

lemma table_check_word:
  assumes "length buf < 2 ^ 64"
  shows "e_phoff e + ucast (e_phnum e) * of_nat sizeof_Phdr \<le> (of_nat (length buf) :: u64)
    \<longleftrightarrow> table_end e mod 2 ^ 64 \<le> length buf"
proof -
  have "e_phoff e + ucast (e_phnum e) * of_nat sizeof_Phdr = (of_nat (table_end e) :: u64)"
    by (simp add: table_end_def unsigned_ucast_eq)
  then show ?thesis
    using assms by (simp add: word_le_nat_alt unat_of_nat take_bit_eq_mod)
qed

section \<open>Properties\<close>

definition tiny_ehdr :: Elf64_Ehdr where
  "tiny_ehdr = \<lparr>e_ident = [0x7F, 0x45, 0x4C, 0x46, 2, 1, 1, 9, 0, 0, 0, 0, 0, 0, 0, 0],
     e_type = 2, e_machine = 62, e_version = 1, e_entry = 0x400000, e_phoff = 64, e_shoff = 0,
     e_flags = 0, e_ehsize = 64, e_phentsize = 56, e_phnum = 1, e_shentsize = 0, e_shnum = 0,
     e_shstrndx = 0\<rparr>"

definition tiny_phdr :: Elf64_Phdr where
  "tiny_phdr = \<lparr>p_type = 1, p_flags = 5, p_offset = 0, p_vaddr = 0x400000, p_paddr = 0,
     p_filesz = 120, p_memsz = 0x1000, p_align = 0x4000\<rparr>"

text \<open>
  C32. Reading inverts writing. A file that starts with an acceptable header, and that holds the
  program headers back to back where the header says, parses successfully to that header and
  to one segment per program header, in order, with the seven fields the loader keeps;
  whatever lies before and behind the table does not matter.
\<close>

theorem parse_reads_headers:
  assumes "length (e_ident e) = 16" and "header_accepted e"
    and "unat (e_phoff e) = sizeof_Ehdr + length gap" and "unat (e_phnum e) = length phs"
    and "length (encode_Ehdr e @ gap @ concat (map encode_Phdr phs) @ rest) < 2 ^ 64"
  shows "ElfReader_parse (encode_Ehdr e @ gap @ concat (map encode_Phdr phs) @ rest) =
     Val (True, \<lparr>img_data = Some (encode_Ehdr e @ gap @ concat (map encode_Phdr phs) @ rest),
                 img_ehdr = e, img_phdrs = map segment_of phs\<rparr>)"
proof -
  let ?buf = "encode_Ehdr e @ gap @ concat (map encode_Phdr phs) @ rest"
  have tbl: "length (concat (map encode_Phdr phs)) = length phs * sizeof_Phdr"
    by (induction phs) auto
  have e: "decode_Ehdr (take sizeof_Ehdr ?buf) = e"
    by (simp add: assms(1) decode_encode_Ehdr)
  have "table_end e \<le> length ?buf" by (simp add: table_end_def assms tbl)
  then have "e_phoff e + ucast (e_phnum e) * of_nat sizeof_Phdr \<le> (of_nat (length ?buf) :: u64)"
    unfolding table_check_word [OF assms(5)] by (rule order_trans [OF mod_less_eq_dividend])
  moreover have "read_phdrs ?buf (e_phoff e) [0..<unat (e_phnum e)] = Val (map segment_of phs)"
    using read_phdrs_encoded [of "encode_Ehdr e @ gap" "e_phoff e" "[]" phs rest]
    by (simp add: assms(1,3,4))
  ultimately show ?thesis
    using assms(1,2) e parse_cases [of ?buf] by (simp add: ElfImage_empty_def)
qed

theorem parse_reads_headers_witness:
  "ElfReader_parse (encode_Ehdr tiny_ehdr @ encode_Phdr tiny_phdr @ [0xC3]) =
     Val (True, \<lparr>img_data = Some (encode_Ehdr tiny_ehdr @ encode_Phdr tiny_phdr @ [0xC3]),
                 img_ehdr = tiny_ehdr, img_phdrs = [segment_of tiny_phdr]\<rparr>)"
proof -
  have "length (e_ident tiny_ehdr) = 16" "header_accepted tiny_ehdr"
    "unat (e_phoff tiny_ehdr) = sizeof_Ehdr + length ([] :: u8 list)"
    "unat (e_phnum tiny_ehdr) = length [tiny_phdr]"
    by (simp_all add: tiny_ehdr_def header_accepted_def kElfMagic_def kElfClass64_def
        kElfDataLsb_def kElfVersionCur_def kEmX86_64_def kElfOsAbiFreeBsd_def sizeof_Ehdr_def)
  moreover from this have
    "length (encode_Ehdr tiny_ehdr @ [] @ concat (map encode_Phdr [tiny_phdr]) @ [0xC3]) < 2 ^ 64"
    by (simp add: sizeof_Ehdr_def sizeof_Phdr_def)
  ultimately show ?thesis using parse_reads_headers [of tiny_ehdr "[]" "[tiny_phdr]" "[0xC3]"] by simp
qed

text \<open>
  When parsing an untrusted file goes wrong. On a file that fits in memory the parser reads
  outside the buffer exactly when the header is otherwise acceptable and the end of the
  program header table, \<^verbatim>\<open>e_phoff + e_phnum * 56\<close>, exceeds 64 bits and wraps to a value within the
  file: the bounds check is made on the wrapped sum. In every other case the parser returns,
  and it returns success exactly when the header is acceptable and the table lies in the file.
\<close>

theorem parse_undefined_iff:
  assumes "sizeof_Ehdr \<le> length buf" and "length buf < 2 ^ 64"
  defines "e \<equiv> decode_Ehdr (take sizeof_Ehdr buf)"
  shows "(ElfReader_parse buf = UB
            \<longleftrightarrow> header_accepted e \<and> 2 ^ 64 \<le> table_end e \<and> table_end e mod 2 ^ 64 \<le> length buf)
       \<and> ((\<exists>img. ElfReader_parse buf = Val (True, img) \<and> length (img_phdrs img) = unat (e_phnum e))
            \<longleftrightarrow> header_accepted e \<and> table_end e \<le> length buf)"
proof -
  let ?read = "read_phdrs buf (e_phoff e) [0..<unat (e_phnum e)]"
  have len: "read_phdrs buf x is = Val segs \<Longrightarrow> length segs = length is" for x "is" segs
    by (induction "is" arbitrary: segs) (auto simp: cpp_bind_eq_Val_iff)
  have defd: "?read \<noteq> UB \<longleftrightarrow> table_end e \<le> length buf" if "header_accepted e"
    using that unfolding read_phdrs_in_file
    by (simp add: table_end_def header_accepted_def unat_eq_0)
  have wrap: "table_end e \<le> length buf \<Longrightarrow> table_end e mod 2 ^ 64 = table_end e"
    "2 ^ 64 \<le> table_end e \<Longrightarrow> \<not> table_end e \<le> length buf"
    "table_end e mod 2 ^ 64 \<le> length buf \<Longrightarrow> \<not> 2 ^ 64 \<le> table_end e \<Longrightarrow> table_end e \<le> length buf"
    using assms(2) by simp_all
  note p = parse_cases [OF assms(1), folded e_def, unfolded table_check_word [OF assms(2)]]
  show ?thesis
  proof (cases "header_accepted e \<and> table_end e mod 2 ^ 64 \<le> length buf")
    case True
    show ?thesis
    proof (cases ?read)
      case (Val segs)
      then show ?thesis using True p defd wrap len [OF Val] by auto
    next
      case UB
      then show ?thesis using True p defd wrap by auto
    qed
  next
    case False
    then show ?thesis using p wrap by auto
  qed
qed

theorem parse_undefined_iff_witness:
  "ElfReader_parse (encode_Ehdr (tiny_ehdr\<lparr>e_phoff := 0xFFFFFFFFFFFFFFC8\<rparr>)) = UB"
proof -
  let ?e = "tiny_ehdr\<lparr>e_phoff := 0xFFFFFFFFFFFFFFC8\<rparr>"
  have l: "length (encode_Ehdr ?e) = 64" by (simp add: tiny_ehdr_def sizeof_Ehdr_def)
  have d: "decode_Ehdr (take sizeof_Ehdr (encode_Ehdr ?e)) = ?e"
    using decode_encode_Ehdr [of ?e] l by (simp add: sizeof_Ehdr_def tiny_ehdr_def)
  have "header_accepted ?e"
    by (simp add: tiny_ehdr_def header_accepted_def kElfMagic_def kElfClass64_def
        kElfDataLsb_def kElfVersionCur_def kEmX86_64_def kElfOsAbiFreeBsd_def)
  moreover have "table_end ?e = 2 ^ 64"
    by (simp add: table_end_def tiny_ehdr_def sizeof_Phdr_def)
  ultimately show ?thesis
    using parse_undefined_iff [of "encode_Ehdr ?e"] l d by (simp add: sizeof_Ehdr_def)
qed

end
