(* ===== verification/Tls_Block.thy ===== *)
theory Tls_Block
  imports Guest_Memory
begin

text \<open>
  \<^verbatim>\<open>loader/elf/TlsBlock.cpp\<close>: the thread-local storage template of a module and the image that
  each thread gets, with its thread control block behind it. The answers of \<^verbatim>\<open>mmap\<close> and
  \<^verbatim>\<open>arch_prctl\<close> are arguments; the stores behave as on x86, where they need no alignment.
\<close>

unbundle bit_operations_syntax

section \<open>The template\<close>

record TlsBlock =
  tls_configured :: bool
  tls_memsz :: u64
  tls_align :: u64
  tls_blockSize :: u64
  tls_bytes :: "u8 list"

definition TlsBlock_new :: TlsBlock where
  "TlsBlock_new =
     \<lparr>tls_configured = False, tls_memsz = 0, tls_align = 1, tls_blockSize = 0, tls_bytes = []\<rparr>"

definition kTlsPageSize :: u64 where "kTlsPageSize = 0x1000"
definition kTcbSize :: u64 where "kTcbSize = 64"

definition tls_alignUp :: "u64 \<Rightarrow> u64 \<Rightarrow> u64" where
  "tls_alignUp v a = (v + (a - 1)) AND NOT (a - 1)"

definition TlsBlock_reset :: "TlsBlock \<Rightarrow> TlsBlock" where
  "TlsBlock_reset t =
     t\<lparr>tls_configured := False, tls_memsz := 0, tls_align := 1, tls_blockSize := 0, tls_bytes := []\<rparr>"

text \<open>
  The template pointer is the rest of the file behind it, or null. \<^verbatim>\<open>memcpy\<close> copies
  \<open>filesz\<close> bytes whatever the size of the vector that receives them.
\<close>

definition TlsBlock_configure ::
  "u8 list option \<Rightarrow> u64 \<Rightarrow> u64 \<Rightarrow> u64 \<Rightarrow> TlsBlock \<Rightarrow> TlsBlock cpp" where
  "TlsBlock_configure templateBytes filesz memsz align t =
     (let t = TlsBlock_reset t
      in if memsz = 0 then Val (t\<lparr>tls_configured := True\<rparr>)
         else
           (let align = (if align = 0 then 1 else align);
                t = t\<lparr>tls_memsz := memsz, tls_align := align, tls_bytes := replicate (unat memsz) 0\<rparr>;
                finish = (\<lambda>t. t\<lparr>tls_blockSize :=
                    tls_alignUp (tls_alignUp memsz (tls_align t) + kTcbSize) kTlsPageSize,
                  tls_configured := True\<rparr>)
            in if filesz = 0 then Val (finish t)
               else (case templateBytes of
                       None \<Rightarrow> Val t
                     | Some bs \<Rightarrow>
                         if length bs < unat filesz \<or> memsz < filesz then UB
                         else Val (finish (t\<lparr>tls_bytes :=
                                take (unat filesz) bs @ drop (unat filesz) (tls_bytes t)\<rparr>)))))"

section \<open>The image of a thread\<close>

definition map_zero :: "u64 \<Rightarrow> u64 \<Rightarrow> memory \<Rightarrow> memory" where
  "map_zero base sz m = (\<lambda>x. if x - base < sz then Some 0 else m x)"

definition unmap_range :: "u64 \<Rightarrow> u64 \<Rightarrow> memory \<Rightarrow> memory" where
  "unmap_range base sz m = (\<lambda>x. if x - base < sz then None else m x)"

text \<open>The result, the value installed in the FS register (if any) and the memory.\<close>

definition TlsBlock_allocateAndInstall ::
  "u64 option \<Rightarrow> int \<Rightarrow> memory \<Rightarrow> TlsBlock \<Rightarrow> (u64 \<times> u64 option \<times> memory) cpp" where
  "TlsBlock_allocateAndInstall mmap_result prctl_rc m t =
     (if \<not> tls_configured t \<or> tls_blockSize t = 0 then Val (0, None, m)
      else (case mmap_result of
              None \<Rightarrow> Val (0, None, m)
            | Some base \<Rightarrow>
                (let m = map_zero base (tls_blockSize t) m;
                     tailAligned = tls_alignUp (tls_memsz t) (tls_align t);
                     tlsBase = base + (tailAligned - tls_memsz t);
                     tcb = base + tailAligned
                 in cpp_bind (store_bytes tlsBase (tls_bytes t) m) (\<lambda>m.
                    cpp_bind (store_bytes tcb (le_bytes 8 tcb) m) (\<lambda>m.
                    cpp_bind (store_bytes (tcb + 8) (le_bytes 8 (0 :: u64)) m) (\<lambda>m.
                      if prctl_rc \<noteq> 0 then Val (0, None, unmap_range base (tls_blockSize t) m)
                      else Val (tcb, Some tcb, m)))))))"

definition TlsBlock_freeThreadTls :: "u64 \<Rightarrow> memory \<Rightarrow> memory" where
  "TlsBlock_freeThreadTls tcbAddress m = m"

section \<open>Lemmas\<close>

lemma unat_tls_alignUp:
  assumes "a = 2 ^ k" and "k < 64" and "unat v + 2 ^ k \<le> 2 ^ 64"
  shows "unat (tls_alignUp v a) = 2 ^ k * ((unat v + (2 ^ k - 1)) div 2 ^ k)"
proof -
  let ?x = "v + (a - 1)"
  have m: "a - 1 = mask k" using assms(1) by (simp add: mask_eq_exp_minus_1)
  have "unat (take_bit k (- 1 :: u64)) = take_bit k (mask 64)"
    by (simp only: unsigned_take_bit_eq unsigned_minus_1_eq_mask) simp
  then have um: "unat (mask k :: u64) = 2 ^ k - 1"
    using assms(2) unfolding take_bit_minus_one_eq_mask take_bit_of_mask
    by (simp add: mask_eq_exp_minus_1)
  have pos: "(1 :: nat) \<le> 2 ^ k" by simp
  have "unat v + unat (mask k :: u64) < 2 ^ LENGTH(64)" using assms(3) pos unfolding um by simp
  then have x: "unat ?x = unat v + (2 ^ k - 1)" unfolding m by (simp add: unat_add_no_wrap um)
  have t: "unat (take_bit k ?x) = unat ?x mod 2 ^ k"
    by (simp only: unsigned_take_bit_eq) (rule take_bit_eq_mod)
  then have le: "take_bit k ?x \<le> ?x" unfolding word_le_nat_alt by simp
  have "?x = (?x AND NOT (mask k)) + (?x AND mask k)"
    by (subst disjunctive_add_eq_or) (auto intro!: bit_word_eqI simp: bit_simps)
  then have "tls_alignUp v a = ?x - take_bit k ?x"
    unfolding tls_alignUp_def m by (metis add_diff_cancel_right' take_bit_eq_mask)
  then have "unat (tls_alignUp v a) = unat ?x - unat ?x mod 2 ^ k"
    using t le by (simp only: unat_sub_no_wrap)
  then show ?thesis unfolding x by (simp only: minus_mod_eq_mult_div)
qed

lemma tls_alignUp_bounds:
  assumes "a = 2 ^ k" and "k < 64" and "unat v + 2 ^ k \<le> 2 ^ 64"
  shows "unat v \<le> unat (tls_alignUp v a)" and "unat (tls_alignUp v a) < unat v + 2 ^ k"
    and "2 ^ k dvd unat (tls_alignUp v a)"
proof -
  have "unat v + (2 ^ k - 1) = 2 ^ k * ((unat v + (2 ^ k - 1)) div 2 ^ k) + (unat v + (2 ^ k - 1)) mod 2 ^ k"
    by simp
  moreover have "(unat v + (2 ^ k - 1)) mod 2 ^ k < 2 ^ k" by simp
  moreover have "(0 :: nat) < 2 ^ k" by simp
  ultimately show "unat v \<le> unat (tls_alignUp v a)" "unat (tls_alignUp v a) < unat v + 2 ^ k"
    unfolding unat_tls_alignUp [OF assms] by linarith+
  show "2 ^ k dvd unat (tls_alignUp v a)" unfolding unat_tls_alignUp [OF assms] by simp
qed

lemma TlsBlock_configure_Val:
  assumes "TlsBlock_configure (Some bs) filesz memsz align t = Val t'" and "memsz \<noteq> 0"
  shows "unat filesz \<le> unat memsz \<and> tls_configured t' \<and> tls_memsz t' = memsz
    \<and> tls_align t' = (if align = 0 then 1 else align)
    \<and> tls_blockSize t' = tls_alignUp (tls_alignUp memsz (tls_align t') + kTcbSize) kTlsPageSize
    \<and> tls_bytes t' = take (unat filesz) bs @ replicate (unat memsz - unat filesz) 0
    \<and> length (tls_bytes t') = unat memsz"
proof (cases "filesz = 0")
  case True
  with assms show ?thesis by (auto simp: TlsBlock_configure_def Let_def)
next
  case False
  with assms show ?thesis
    by (auto simp: TlsBlock_configure_def Let_def not_less word_le_nat_alt split: if_splits)
qed

text \<open>When copying the template is undefined: it overruns the file or the vector.\<close>

lemma TlsBlock_configure_UB_iff:
  "TlsBlock_configure (Some bs) filesz memsz align t = UB
     \<longleftrightarrow> memsz \<noteq> 0 \<and> filesz \<noteq> 0 \<and> (length bs < unat filesz \<or> memsz < filesz)"
  by (simp add: TlsBlock_configure_def Let_def)

lemma of_nat_unat [simp]: "of_nat (unat (x :: u64)) = x"
  by simp

lemma unat_small: "n < 2 ^ 64 \<Longrightarrow> unat (of_nat n :: u64) = n"
  by (simp add: unat_of_nat take_bit_nat_eq_self)

text \<open>The arithmetic of the block: image, padding in front of it, control block, page.\<close>

lemma tls_block_fits:
  assumes "a = 2 ^ k" and "k < 64" and "unat memsz + 2 ^ k + 4160 \<le> 2 ^ 64"
  defines "tail \<equiv> unat (tls_alignUp memsz a)"
    and "block \<equiv> unat (tls_alignUp (tls_alignUp memsz a + kTcbSize) kTlsPageSize)"
  shows "unat memsz \<le> tail" and "tail + 64 \<le> block" and "block < 2 ^ 64" and "4096 dvd block"
    and "0 < block"
proof -
  have 1: "unat memsz + 2 ^ k \<le> 2 ^ 64" using assms(3) by simp
  note t = tls_alignUp_bounds [OF assms(1,2) 1, folded tail_def]
  from t(1) show "unat memsz \<le> tail" .
  have s: "unat (tls_alignUp memsz a + kTcbSize) = tail + 64"
    using t(2) assms(3) by (simp add: unat_add_no_wrap kTcbSize_def tail_def)
  have p: "kTlsPageSize = 2 ^ 12" by (simp add: kTlsPageSize_def)
  have 2: "unat (tls_alignUp memsz a + kTcbSize) + 2 ^ 12 \<le> 2 ^ 64"
    using t(2) assms(3) unfolding s by simp
  note b = tls_alignUp_bounds [OF p _ 2, folded block_def, unfolded s]
  from b(1) show "tail + 64 \<le> block" by simp
  then show "0 < block" by simp
  from b(2) 2 show "block < 2 ^ 64" unfolding s by simp
  from b(3) show "4096 dvd block" by simp
qed

text \<open>The three stores, in offsets from the base of the block.\<close>

lemma tls_stores:
  assumes len: "length img = n" and fits: "n \<le> T" "T + 64 \<le> B" "B < 2 ^ 64"
    and zero: "\<And>p. p < B \<Longrightarrow> m0 (base + of_nat p) = Some 0"
  obtains m1 m2 m3 where "store_bytes (base + of_nat (T - n)) img m0 = Val m1"
    and "store_bytes (base + of_nat T) (le_bytes 8 w) m1 = Val m2"
    and "store_bytes (base + of_nat (T + 8)) (le_bytes 8 (0 :: u64)) m2 = Val m3"
    and "\<And>p. T - n \<le> p \<Longrightarrow> p < T \<Longrightarrow> m3 (base + of_nat p) = Some (img ! (p - (T - n)))"
    and "\<And>p. T \<le> p \<Longrightarrow> p < T + 8 \<Longrightarrow> m3 (base + of_nat p) = Some (le_bytes 8 w ! (p - T))"
    and "\<And>p. B \<le> p \<Longrightarrow> p < 2 ^ 64 \<Longrightarrow> m3 (base + of_nat p) = m0 (base + of_nat p)"
proof -
  obtain m1 where m1: "store_bytes (base + of_nat (T - n)) img m0 = Val m1"
    using store_bytes_total_at [of "T - n" img m0 base] zero fits len by force
  have r1: "m1 (base + of_nat p) =
      (if T - n \<le> p \<and> p < T then Some (img ! (p - (T - n))) else m0 (base + of_nat p))"
    if "p < 2 ^ 64" for p
    using store_bytes_at [OF m1 _ _ that] fits len by simp
  obtain m2 where m2: "store_bytes (base + of_nat T) (le_bytes 8 w) m1 = Val m2"
    using store_bytes_total_at [of T "le_bytes 8 w" m1 base] r1 zero fits by force
  have r2: "m2 (base + of_nat p) =
      (if T \<le> p \<and> p < T + 8 then Some (le_bytes 8 w ! (p - T)) else m1 (base + of_nat p))"
    if "p < 2 ^ 64" for p
    using store_bytes_at [OF m2 _ _ that] fits by simp
  obtain m3 where m3: "store_bytes (base + of_nat (T + 8)) (le_bytes 8 (0 :: u64)) m2 = Val m3"
    using store_bytes_total_at [of "T + 8" "le_bytes 8 (0 :: u64)" m2 base] r1 r2 zero fits by force
  have r3: "m3 (base + of_nat p) = (if T + 8 \<le> p \<and> p < T + 16
      then Some (le_bytes 8 (0 :: u64) ! (p - (T + 8))) else m2 (base + of_nat p))"
    if "p < 2 ^ 64" for p
    using store_bytes_at [OF m3 _ _ that] fits by simp
  show ?thesis
    by (rule that [OF m1 m2 m3]) (use fits in \<open>simp_all add: r1 r2 r3\<close>)
qed

section \<open>Properties\<close>

text \<open>
  C33. A thread's storage is laid out as the loader intends. For a template that was configured
  from a segment whose alignment is a power of two and whose size leaves room in 64 bits, when
  the kernel provides the block and accepts the FS base: the installed address is that of
  the control block, whose first word points to itself; the initialised bytes of the template
  followed by zeros stand immediately before it; both lie in the block; and no byte outside the
  block has changed.
\<close>

theorem tls_install_layout:
  assumes "TlsBlock_configure (Some tmpl) filesz memsz a t0 = Val t"
    and "memsz \<noteq> 0" and "a = 2 ^ k" and "k < 64" and "unat memsz + 2 ^ k + 4160 \<le> 2 ^ 64"
  shows "\<exists>tcb m'. TlsBlock_allocateAndInstall (Some base) 0 m t = Val (tcb, Some tcb, m')
     \<and> load_bytes m' (tcb - memsz) (unat memsz)
         = Val (take (unat filesz) tmpl @ replicate (unat memsz - unat filesz) 0)
     \<and> load_bytes m' tcb 8 = Val (le_bytes 8 tcb)
     \<and> unat memsz \<le> unat (tcb - base) \<and> unat (tcb - base) + 64 \<le> unat (tls_blockSize t)
     \<and> (\<forall>x. tls_blockSize t \<le> x - base \<longrightarrow> m' x = m x)"
proof -
  have a0: "a \<noteq> 0" using assms(3,4) by simp
  note c = TlsBlock_configure_Val [OF assms(1,2)]
  let ?tail = "tls_alignUp memsz a"
  define T B where "T = unat ?tail" and "B = unat (tls_blockSize t)"
  have al: "tls_align t = a" using c a0 by simp
  note fit = tls_block_fits [OF assms(3-5)]
  have fits: "unat memsz \<le> T" "T + 64 \<le> B" "B < 2 ^ 64" "0 < B"
    using fit c al by (simp_all add: T_def B_def)
  have tcb: "base + ?tail = base + of_nat T" "base + ?tail + 8 = base + of_nat (T + 8)"
    "base + (?tail - memsz) = base + of_nat (T - unat memsz)"
    "base + ?tail - memsz = base + of_nat (T - unat memsz)"
    using fits(1) by (simp_all add: T_def of_nat_diff)
  define m0 where "m0 = map_zero base (tls_blockSize t) m"
  have m0: "m0 (base + of_nat p) = Some 0" if "p < B" for p
    using that unat_small [of p] fits(3) by (simp add: m0_def map_zero_def word_less_nat_alt flip: B_def)
  have len: "length (tls_bytes t) = unat memsz" using c by blast
  obtain m1 m2 m3 where st: "store_bytes (base + of_nat (T - unat memsz)) (tls_bytes t) m0 = Val m1"
      "store_bytes (base + of_nat T) (le_bytes 8 (base + ?tail)) m1 = Val m2"
      "store_bytes (base + of_nat (T + 8)) (le_bytes 8 (0 :: u64)) m2 = Val m3"
    and rd: "\<And>p. T - unat memsz \<le> p \<Longrightarrow> p < T \<Longrightarrow>
          m3 (base + of_nat p) = Some (tls_bytes t ! (p - (T - unat memsz)))"
      "\<And>p. T \<le> p \<Longrightarrow> p < T + 8 \<Longrightarrow>
          m3 (base + of_nat p) = Some (le_bytes 8 (base + ?tail) ! (p - T))"
      "\<And>p. B \<le> p \<Longrightarrow> p < 2 ^ 64 \<Longrightarrow> m3 (base + of_nat p) = m0 (base + of_nat p)"
    using tls_stores [where ?m0.0 = m0 and base = base and w = "base + ?tail", OF len fits(1-3) m0]
    by blast
  have conf: "tls_configured t" "tls_memsz t = memsz" "tls_blockSize t \<noteq> 0"
    using c fits(4) by (auto simp: B_def)
  have run: "TlsBlock_allocateAndInstall (Some base) 0 m t = Val (base + ?tail, Some (base + ?tail), m3)"
    using conf al st
    by (simp add: TlsBlock_allocateAndInstall_def Let_def tcb(2,3) T_def flip: m0_def)
  have img: "load_bytes m3 (base + ?tail - memsz) (unat memsz) = Val (tls_bytes t)"
    using load_bytes_at [of "tls_bytes t" m3 base "T - unat memsz"] rd(1) [of "T - unat memsz + _"] len fits(1)
    unfolding tcb(4) by simp
  have bytes: "tls_bytes t = take (unat filesz) tmpl @ replicate (unat memsz - unat filesz) 0"
    using c by blast
  note img [unfolded bytes]
  moreover have "load_bytes m3 (base + of_nat T) 8 = Val (le_bytes 8 (base + ?tail))"
    using load_bytes_at [of "le_bytes 8 (base + ?tail)" m3 base T] rd(2) [of "T + _"] by simp
  moreover have "m3 x = m x" if "tls_blockSize t \<le> x - base" for x
    using rd(3) [of "unat (x - base)"] that
    by (simp add: m0_def map_zero_def B_def word_le_nat_alt word_less_nat_alt)
  ultimately show ?thesis
    using run fits by (intro exI [of _ "base + ?tail"] exI [of _ m3]) (simp add: T_def B_def)
qed

theorem tls_install_layout_witness:
  "\<exists>t tcb m'. TlsBlock_configure (Some [0xAA, 0xBB]) 2 12 8 TlsBlock_new = Val t
     \<and> TlsBlock_allocateAndInstall (Some 0x7F0000000000) 0 (\<lambda>_. None) t = Val (tcb, Some tcb, m')
     \<and> load_bytes m' (tcb - 12) 12 = Val [0xAA, 0xBB, 0, 0, 0, 0, 0, 0, 0, 0, 0, 0]"
proof -
  have "TlsBlock_configure (Some [0xAA, 0xBB]) 2 12 8 TlsBlock_new \<noteq> UB"
    by (simp add: TlsBlock_configure_UB_iff)
  then obtain t where t: "TlsBlock_configure (Some [0xAA, 0xBB]) 2 12 8 TlsBlock_new = Val t"
    by (metis cpp.exhaust)
  have "(12 :: u64) \<noteq> 0" "(8 :: u64) = 2 ^ 3" "(3 :: nat) < 64" "unat (12 :: u64) + 2 ^ 3 + 4160 \<le> 2 ^ 64"
    by simp_all
  note r = tls_install_layout [OF t this, of "0x7F0000000000" "\<lambda>_. None"]
  have e: "take (unat (2 :: u64)) [0xAA, 0xBB] @ replicate (unat (12 :: u64) - unat (2 :: u64)) 0
      = [0xAA, 0xBB, 0, 0, 0, 0, 0, 0, 0, 0, 0, 0 :: u8]" and u: "unat (12 :: u64) = 12"
    by code_simp+
  from r [unfolded e, unfolded u] t show ?thesis by blast
qed

text \<open>
  The image is not where variant II of the TLS ABI puts it. There the image starts at the
  control block minus the size rounded up to the alignment, and the linker computes the
  offsets of the variables from that; the code places it at the control block minus the
  unrounded size. For a 12-byte image aligned to 8 the first variable is at offset -16 for the
  compiled code, which reads a zero, while its value is at offset -12.
\<close>

theorem tls_image_misplaced:
  "case TlsBlock_configure (Some [0xAA, 0xBB, 0xCC, 0xDD]) 4 12 8 TlsBlock_new of
     UB \<Rightarrow> False
   | Val t \<Rightarrow>
       (case TlsBlock_allocateAndInstall (Some 0x7F0000000000) 0 (\<lambda>_. None) t of
          UB \<Rightarrow> False
        | Val (tcb, fs, m) \<Rightarrow>
            load_bytes m (tcb - tls_alignUp 12 8) 4 = Val [0, 0, 0, 0]
            \<and> load_bytes m (tcb - 12) 4 = Val [0xAA, 0xBB, 0xCC, 0xDD])"
  by code_simp

end
