(* ===== verification/Module_Registry.thy ===== *)
theory Module_Registry
  imports Elf_Reader Tls_Block
begin

text \<open>
  \<^verbatim>\<open>loader/modules\<close> and \<^verbatim>\<open>loader/symbols/SymbolResolver.cpp\<close>: a loaded module with its segments and
  its dynamic symbol table, the registry of modules, and the resolution of symbols. The symbol and
  string tables are read from guest memory, where the loader has mapped them.
\<close>

unbundle bit_operations_syntax

section \<open>Dynamic entries, symbols, relocations\<close>

definition kDtPltRelSz :: u64 where "kDtPltRelSz = 2"
definition kDtStrtab :: u64 where "kDtStrtab = 5"
definition kDtSymtab :: u64 where "kDtSymtab = 6"
definition kDtRela :: u64 where "kDtRela = 7"
definition kDtRelaSz :: u64 where "kDtRelaSz = 8"
definition kDtRelaEnt :: u64 where "kDtRelaEnt = 9"
definition kDtStrtabSz :: u64 where "kDtStrtabSz = 10"
definition kDtSymtabSz :: u64 where "kDtSymtabSz = 11"
definition kDtJmpRel :: u64 where "kDtJmpRel = 23"
definition kDtSceSymtab :: u64 where "kDtSceSymtab = 0x6100000D"
definition kDtSceStrtab :: u64 where "kDtSceStrtab = 0x6100000F"
definition kDtSceSymtabSz :: u64 where "kDtSceSymtabSz = 0x61000011"
definition kDtSceStrtabSz :: u64 where "kDtSceStrtabSz = 0x61000013"
definition kDtSceRela :: u64 where "kDtSceRela = 0x61000019"
definition kDtSceRelaSz :: u64 where "kDtSceRelaSz = 0x6100001B"
definition kDtSceRelaEnt :: u64 where "kDtSceRelaEnt = 0x6100001D"
definition kShnUndef :: u16 where "kShnUndef = 0"

record Elf64_Dyn =
  d_tag :: u64
  d_val :: u64

record Elf64_Sym =
  sym_name :: u32
  sym_info :: u8
  sym_other :: u8
  sym_shndx :: u16
  sym_value :: u64
  sym_size :: u64

record Elf64_Rela =
  rela_offset :: u64
  rela_info :: u64
  rela_addend :: u64

definition sizeof_Sym :: u64 where "sizeof_Sym = 24"
definition sizeof_Rela :: u64 where "sizeof_Rela = 24"
definition sizeof_Dyn :: u64 where "sizeof_Dyn = 16"

definition decode_Dyn :: "u8 list \<Rightarrow> Elf64_Dyn" where
  "decode_Dyn bs = \<lparr>d_tag = le_field 0 8 bs, d_val = le_field 8 8 bs\<rparr>"

definition decode_Sym :: "u8 list \<Rightarrow> Elf64_Sym" where
  "decode_Sym bs =
     \<lparr>sym_name = le_field 0 4 bs, sym_info = le_field 4 1 bs, sym_other = le_field 5 1 bs,
      sym_shndx = le_field 6 2 bs, sym_value = le_field 8 8 bs, sym_size = le_field 16 8 bs\<rparr>"

definition decode_Rela :: "u8 list \<Rightarrow> Elf64_Rela" where
  "decode_Rela bs =
     \<lparr>rela_offset = le_field 0 8 bs, rela_info = le_field 8 8 bs, rela_addend = le_field 16 8 bs\<rparr>"

definition elfRelSym :: "u64 \<Rightarrow> u32" where "elfRelSym info = ucast (drop_bit 32 info)"
definition elfRelType :: "u64 \<Rightarrow> u32" where "elfRelType info = ucast (info AND 0xFFFFFFFF)"

section \<open>C strings\<close>

text \<open>
  The string at an address, up to its terminator. No object has \<open>2 ^ 64 - 1\<close> bytes, so a scan
  that gets there is undefined as well.
\<close>

function c_string_from :: "memory \<Rightarrow> u64 \<Rightarrow> u64 \<Rightarrow> string cpp" where
  "c_string_from m a n =
     (if n = - 1 then UB
      else (case m (a + n) of
              None \<Rightarrow> UB
            | Some b \<Rightarrow>
                if b = 0 then Val []
                else cpp_bind (c_string_from m a (n + 1)) (\<lambda>s. Val (char_of (unat b) # s))))"
  by pat_completeness auto
termination
proof (relation "measure (\<lambda>(m, a, n). unat (- 1 - n :: u64))")
  fix n :: u64
  assume "n \<noteq> - 1"
  then have "- 1 - n \<noteq> 0" by simp
  then have "unat (- 1 - n - 1) < unat (- 1 - n)"
    by (metis measure_unat)
  then show "\<And>m a x. ((m, a, n + 1), m, a, n) \<in> measure (\<lambda>(m, a, n). unat (- 1 - n :: u64))"
    by (simp add: algebra_simps)
qed simp

declare c_string_from.simps [simp del]

definition c_string :: "memory \<Rightarrow> u64 \<Rightarrow> string cpp" where
  "c_string m a = c_string_from m a 0"

section \<open>Module\<close>

record LoadedSegment =
  ls_vaddr :: u64
  ls_filesz :: u64
  ls_memsz :: u64
  ls_prot :: u32

text \<open>The two table pointers are addresses; 0 is the null pointer.\<close>

record Module =
  md_name :: string
  md_image :: ElfImage
  md_segments :: "LoadedSegment list"
  md_dynamics :: "Elf64_Dyn list"
  md_preferredBase :: u64
  md_actualBase :: u64
  md_delta :: u64
  md_entry :: u64
  md_tls :: TlsBlock
  md_dynsym :: u64
  md_dynstr :: u64
  md_dynsymCount :: u64

definition Module_new :: Module where
  "Module_new =
     \<lparr>md_name = [], md_image = ElfImage_empty, md_segments = [], md_dynamics = [],
      md_preferredBase = 0, md_actualBase = 0, md_delta = 0, md_entry = 0, md_tls = TlsBlock_new,
      md_dynsym = 0, md_dynstr = 0, md_dynsymCount = 0\<rparr>"

definition Module_setup :: "string \<Rightarrow> ElfImage \<Rightarrow> u64 \<Rightarrow> u64 \<Rightarrow> Module \<Rightarrow> bool \<times> Module" where
  "Module_setup name img preferredBase actualBase m =
     (True, m\<lparr>md_name := name, md_image := img, md_preferredBase := preferredBase,
              md_actualBase := actualBase, md_delta := actualBase - preferredBase\<rparr>)"

definition Module_relocate :: "Module \<Rightarrow> u64 \<Rightarrow> u64" where
  "Module_relocate m preferredVaddr = preferredVaddr + md_delta m"

text \<open>The last entry with one of the tags wins, as in the loop over the dynamic entries.\<close>

definition last_dyn :: "u64 list \<Rightarrow> Elf64_Dyn list \<Rightarrow> u64 option" where
  "last_dyn tags dyns = fold (\<lambda>d acc. if d_tag d \<in> set tags then Some (d_val d) else acc) dyns None"

definition load_sym :: "memory \<Rightarrow> u64 \<Rightarrow> Elf64_Sym cpp" where
  "load_sym mem a = cpp_bind (load_bytes mem a 24) (\<lambda>bs. Val (decode_Sym bs))"

text \<open>
  The fallback without a table size counts symbols until the string table begins, an all-zero
  entry is found or the count exceeds \<open>2 ^ 20\<close>.
\<close>

function scan_symbols :: "memory \<Rightarrow> u64 \<Rightarrow> u64 \<Rightarrow> nat \<Rightarrow> nat cpp" where
  "scan_symbols mem symAddr strAddr count =
     (let s = symAddr + of_nat count * sizeof_Sym
      in if s + sizeof_Sym > strAddr then Val count
         else cpp_bind (load_sym mem s) (\<lambda>y.
           if sym_name y = 0 \<and> sym_info y = 0 \<and> sym_shndx y = 0 \<and> sym_value y = 0 then Val count
           else if count + 1 > 2 ^ 20 then Val (count + 1)
           else scan_symbols mem symAddr strAddr (count + 1)))"
  by pat_completeness auto
termination by (relation "measure (\<lambda>(_, _, _, count). Suc (2 ^ 20) - count)") auto

declare scan_symbols.simps [simp del]

definition Module_populateSymbolTable :: "memory \<Rightarrow> Module \<Rightarrow> Module cpp" where
  "Module_populateSymbolTable mem m =
     (let m = m\<lparr>md_dynsym := 0, md_dynstr := 0, md_dynsymCount := 0\<rparr>;
          dyns = md_dynamics m
      in case (last_dyn [kDtSymtab, kDtSceSymtab] dyns, last_dyn [kDtStrtab, kDtSceStrtab] dyns) of
           (Some symtab, Some strtab) \<Rightarrow>
             (let symAddr = Module_relocate m symtab; strAddr = Module_relocate m strtab;
                  m = m\<lparr>md_dynsym := symAddr, md_dynstr := strAddr\<rparr>
              in case last_dyn [kDtSymtabSz, kDtSceSymtabSz] dyns of
                   Some sz \<Rightarrow> Val (m\<lparr>md_dynsymCount := sz div sizeof_Sym\<rparr>)
                 | None \<Rightarrow> cpp_bind (scan_symbols mem symAddr strAddr 0) (\<lambda>n.
                     Val (m\<lparr>md_dynsymCount := of_nat n\<rparr>)))
         | _ \<Rightarrow> Val m)"

definition Module_configureTls ::
  "u8 list option \<Rightarrow> u64 \<Rightarrow> u64 \<Rightarrow> u64 \<Rightarrow> Module \<Rightarrow> Module cpp" where
  "Module_configureTls templateBytes filesz memsz align m =
     cpp_bind (TlsBlock_configure templateBytes filesz memsz align (md_tls m)) (\<lambda>t.
       Val (m\<lparr>md_tls := t\<rparr>))"

definition Module_appendSegment :: "LoadedSegment \<Rightarrow> Module \<Rightarrow> Module" where
  "Module_appendSegment s m = m\<lparr>md_segments := md_segments m @ [s]\<rparr>"

definition Module_setEntryPoint :: "u64 \<Rightarrow> Module \<Rightarrow> Module" where
  "Module_setEntryPoint e m = m\<lparr>md_entry := e\<rparr>"

text \<open>The search over the symbol table, from the symbol at \<open>a\<close> with \<open>n\<close> symbols to go.\<close>

fun lookup_symbols :: "memory \<Rightarrow> Module \<Rightarrow> string \<Rightarrow> u64 \<Rightarrow> nat \<Rightarrow> u64 cpp" where
  "lookup_symbols mem m name a 0 = Val 0"
| "lookup_symbols mem m name a (Suc n) =
     cpp_bind (load_sym mem a) (\<lambda>s.
       if sym_shndx s = kShnUndef then lookup_symbols mem m name (a + sizeof_Sym) n
       else if sym_name s = 0 then lookup_symbols mem m name (a + sizeof_Sym) n
       else cpp_bind (c_string mem (md_dynstr m + ucast (sym_name s))) (\<lambda>symName.
         if name = symName then Val (sym_value s + md_delta m)
         else lookup_symbols mem m name (a + sizeof_Sym) n))"

definition Module_lookupExport :: "memory \<Rightarrow> Module \<Rightarrow> string \<Rightarrow> u64 cpp" where
  "Module_lookupExport mem m name =
     (if md_dynsym m = 0 \<or> md_dynstr m = 0 \<or> md_dynsymCount m = 0 then Val 0
      else lookup_symbols mem m name (md_dynsym m) (unat (md_dynsymCount m)))"

section \<open>Registry\<close>

type_synonym ModuleRegistry = "(string, Module) umap"

definition ModuleRegistry_add :: "string \<Rightarrow> Module option \<Rightarrow> ModuleRegistry \<Rightarrow> ModuleRegistry" where
  "ModuleRegistry_add name module r =
     (case module of None \<Rightarrow> r | Some m \<Rightarrow> um_assign name m r)"

definition ModuleRegistry_find :: "string \<Rightarrow> ModuleRegistry \<Rightarrow> Module option" where
  "ModuleRegistry_find name r = um_find r name"

fun ModuleRegistry_resolveExport :: "memory \<Rightarrow> string \<Rightarrow> ModuleRegistry \<Rightarrow> (u64 \<times> string) cpp" where
  "ModuleRegistry_resolveExport mem symbolName [] = Val (0, [])"
| "ModuleRegistry_resolveExport mem symbolName ((name, m) # ms) =
     cpp_bind (Module_lookupExport mem m symbolName) (\<lambda>addr.
       if addr \<noteq> 0 then Val (addr, name)
       else ModuleRegistry_resolveExport mem symbolName ms)"

definition ModuleRegistry_all :: "ModuleRegistry \<Rightarrow> Module list" where
  "ModuleRegistry_all r = map snd r"

definition ModuleRegistry_size :: "ModuleRegistry \<Rightarrow> nat" where
  "ModuleRegistry_size r = length r"

definition ModuleRegistry_clear :: "ModuleRegistry \<Rightarrow> ModuleRegistry" where
  "ModuleRegistry_clear r = []"

section \<open>Symbol resolution\<close>

text \<open>The address, or 0, and the source that \<^verbatim>\<open>resolve\<close> reports.\<close>

definition SymbolResolver_resolve ::
  "memory \<Rightarrow> ModuleRegistry \<Rightarrow> Module \<Rightarrow> string \<Rightarrow> (u64 \<times> string) cpp" where
  "SymbolResolver_resolve mem registry requester symbolName =
     cpp_bind (Module_lookupExport mem requester symbolName) (\<lambda>self.
       if self \<noteq> 0 then Val (self, ''self'')
       else cpp_bind (ModuleRegistry_resolveExport mem symbolName registry) (\<lambda>(addr, src).
         if addr \<noteq> 0 then Val (addr, ''module:'' @ src)
         else Val (0, ''unresolved'')))"

section \<open>The export table\<close>

text \<open>
  The abstract view of a module: its defined symbols with their names and loaded addresses,
  in table order. It exists when the whole table and all names are readable.
\<close>

fun read_exports :: "memory \<Rightarrow> Module \<Rightarrow> u64 \<Rightarrow> nat \<Rightarrow> (string \<times> u64) list cpp" where
  "read_exports mem m a 0 = Val []"
| "read_exports mem m a (Suc n) =
     cpp_bind (load_sym mem a) (\<lambda>s.
       if sym_shndx s = kShnUndef \<or> sym_name s = 0 then read_exports mem m (a + sizeof_Sym) n
       else cpp_bind (c_string mem (md_dynstr m + ucast (sym_name s))) (\<lambda>nm.
         cpp_bind (read_exports mem m (a + sizeof_Sym) n) (\<lambda>es.
           Val ((nm, sym_value s + md_delta m) # es))))"

definition export_table :: "memory \<Rightarrow> Module \<Rightarrow> (string \<times> u64) list cpp" where
  "export_table mem m =
     (if md_dynsym m = 0 \<or> md_dynstr m = 0 then Val []
      else read_exports mem m (md_dynsym m) (unat (md_dynsymCount m)))"

definition export_value :: "(string \<times> u64) list \<Rightarrow> string \<Rightarrow> u64" where
  "export_value tbl name = (case map_of tbl name of None \<Rightarrow> 0 | Some v \<Rightarrow> v)"

lemma lookup_symbols_eq:
  "read_exports mem m a n = Val tbl \<Longrightarrow> lookup_symbols mem m name a n = Val (export_value tbl name)"
proof (induction n arbitrary: a tbl)
  case 0
  then show ?case by (simp add: export_value_def)
next
  case (Suc n)
  from Suc.prems obtain s where s: "load_sym mem a = Val s"
    by (auto simp: cpp_bind_eq_Val_iff)
  show ?case
  proof (cases "sym_shndx s = kShnUndef \<or> sym_name s = 0")
    case True
    with Suc.prems s have "read_exports mem m (a + sizeof_Sym) n = Val tbl" by simp
    from Suc.IH [OF this] True s show ?thesis by auto
  next
    case False
    with Suc.prems s obtain nm es where "c_string mem (md_dynstr m + ucast (sym_name s)) = Val nm"
      and es: "read_exports mem m (a + sizeof_Sym) n = Val es"
      and "tbl = (nm, sym_value s + md_delta m) # es"
      by (auto simp: cpp_bind_eq_Val_iff)
    with Suc.IH [OF es] False s show ?thesis by (simp add: export_value_def)
  qed
qed

lemma Module_lookupExport_eq:
  "export_table mem m = Val tbl \<Longrightarrow> Module_lookupExport mem m name = Val (export_value tbl name)"
proof (cases "md_dynsym m = 0 \<or> md_dynstr m = 0 \<or> md_dynsymCount m = 0")
  case True
  moreover assume "export_table mem m = Val tbl"
  ultimately have "tbl = []" by (auto simp: export_table_def split: if_splits)
  with True show ?thesis by (simp add: Module_lookupExport_def export_value_def)
qed (simp add: export_table_def Module_lookupExport_def lookup_symbols_eq)

text \<open>The registry as a list of export tables: the first non-zero value and its module.\<close>

fun first_export :: "string \<Rightarrow> (string \<times> (string \<times> u64) list) list \<Rightarrow> u64 \<times> string" where
  "first_export name [] = (0, [])"
| "first_export name ((mname, tbl) # tbls) =
     (if export_value tbl name \<noteq> 0 then (export_value tbl name, mname) else first_export name tbls)"

definition registry_tables ::
  "memory \<Rightarrow> ModuleRegistry \<Rightarrow> (string \<times> (string \<times> u64) list) list \<Rightarrow> bool" where
  "registry_tables mem r tbls \<longleftrightarrow>
     list_all2 (\<lambda>(name, m) (name', tbl). name' = name \<and> export_table mem m = Val tbl) r tbls"

lemma ModuleRegistry_resolveExport_eq:
  "registry_tables mem r tbls \<Longrightarrow>
     ModuleRegistry_resolveExport mem name r = Val (first_export name tbls)"
  unfolding registry_tables_def
  by (induction r tbls rule: list_all2_induct) (auto simp: Module_lookupExport_eq)

lemma first_export_nonzero:
  "fst (first_export name tbls) \<noteq> 0 \<longleftrightarrow> (\<exists>(mn, tbl)\<in>set tbls. export_value tbl name \<noteq> 0)"
  by (induction name tbls rule: first_export.induct) auto

section \<open>Properties\<close>

text \<open>
  C12. Symbol resolution implements lookup in export tables. When the tables of the requesting
  module and of the registered modules are readable, a name resolves to the requester's own
  export if that is not 0, otherwise to the first non-zero export of a registered module, and it
  is unresolved exactly when no module exports it with a non-zero address.
\<close>

theorem resolve_refines_export_tables:
  assumes "export_table mem req = Val own" and "registry_tables mem reg tbls"
  shows "SymbolResolver_resolve mem reg req name =
       (if export_value own name \<noteq> 0 then Val (export_value own name, ''self'')
        else if fst (first_export name tbls) \<noteq> 0
        then Val (fst (first_export name tbls), ''module:'' @ snd (first_export name tbls))
        else Val (0, ''unresolved''))
     \<and> (SymbolResolver_resolve mem reg req name = Val (0, ''unresolved'')
          \<longleftrightarrow> export_value own name = 0 \<and> list_all (\<lambda>(mn, tbl). export_value tbl name = 0) tbls)"
proof -
  have eq: "SymbolResolver_resolve mem reg req name =
      (if export_value own name \<noteq> 0 then Val (export_value own name, ''self'')
       else if fst (first_export name tbls) \<noteq> 0
       then Val (fst (first_export name tbls), ''module:'' @ snd (first_export name tbls))
       else Val (0, ''unresolved''))"
    using Module_lookupExport_eq [OF assms(1)] ModuleRegistry_resolveExport_eq [OF assms(2)]
    by (simp add: SymbolResolver_resolve_def split: prod.splits)
  with first_export_nonzero [of name tbls] show ?thesis
    by (auto simp: list_all_iff)
qed

text \<open>A table of one undefined and one defined symbol (\<^verbatim>\<open>f\<close> at 0x40), and its names.\<close>

definition sample_tables :: "u8 list" where
  "sample_tables =
     le_bytes 4 (1 :: u32) @ [0x12, 0] @ le_bytes 2 (0 :: u16) @ le_bytes 8 (0 :: u64) @ le_bytes 8 (0 :: u64)
     @ le_bytes 4 (1 :: u32) @ [0x12, 0] @ le_bytes 2 (1 :: u16) @ le_bytes 8 (0x40 :: u64) @ le_bytes 8 (0 :: u64)
     @ [0, 0x66, 0]"

definition mem_at :: "u64 \<Rightarrow> u8 list \<Rightarrow> memory" where
  "mem_at base bs = (\<lambda>x. let i = unat (x - base) in if i < length bs then Some (bs ! i) else None)"

definition sample_module :: Module where
  "sample_module = Module_new\<lparr>md_delta := 0x1000, md_dynsym := 0x1000, md_dynstr := 0x1030,
     md_dynsymCount := 2\<rparr>"

theorem resolve_refines_export_tables_witness:
  "SymbolResolver_resolve (mem_at 0x1000 sample_tables) [(''libf'', sample_module)] Module_new ''f''
     = Val (0x1040, ''module:libf'')"
proof -
  let ?mem = "mem_at 0x1000 sample_tables"
  have 1: "export_table ?mem Module_new = Val []" by (simp add: export_table_def Module_new_def)
  have "export_table ?mem sample_module = Val [(''f'', 0x1040)]" by code_simp
  then have 2: "registry_tables ?mem [(''libf'', sample_module)] [(''libf'', [(''f'', 0x1040)])]"
    by (simp add: registry_tables_def)
  from resolve_refines_export_tables [OF 1 2, of "''f''"] show ?thesis
    by (simp add: export_value_def)
qed

end
