(* ===== verification/Relocations.thy ===== *)
theory Relocations
  imports Module_Registry
begin

text \<open>
  \<^verbatim>\<open>loader/symbols/RelocationProcessor.cpp\<close> and \<^verbatim>\<open>loader/elf/RelocationTypes.hpp\<close>: the relocations of a
  module, read from its memory and applied to it. The table is read entry by entry while the
  entries are applied, so an entry may be changed by an earlier one.
\<close>

unbundle bit_operations_syntax

section \<open>Relocation types\<close>

definition kRX86_64None :: u32 where "kRX86_64None = 0"
definition kRX86_64_64 :: u32 where "kRX86_64_64 = 1"
definition kRX86_64GlobDat :: u32 where "kRX86_64GlobDat = 6"
definition kRX86_64JumpSlot :: u32 where "kRX86_64JumpSlot = 7"
definition kRX86_64Relative :: u32 where "kRX86_64Relative = 8"

definition relocation_names :: "(u32 \<times> string) list" where
  "relocation_names =
     [(kRX86_64None, ''R_X86_64_NONE''), (kRX86_64_64, ''R_X86_64_64''), (2, ''R_X86_64_PC32''),
      (3, ''R_X86_64_GOT32''), (4, ''R_X86_64_PLT32''), (5, ''R_X86_64_COPY''),
      (kRX86_64GlobDat, ''R_X86_64_GLOB_DAT''), (kRX86_64JumpSlot, ''R_X86_64_JUMP_SLOT''),
      (kRX86_64Relative, ''R_X86_64_RELATIVE''), (9, ''R_X86_64_GOTPCREL''), (10, ''R_X86_64_32''),
      (11, ''R_X86_64_32S''), (12, ''R_X86_64_16''), (13, ''R_X86_64_PC16''), (14, ''R_X86_64_8''),
      (15, ''R_X86_64_PC8''), (24, ''R_X86_64_PC64'')]"

definition relocationName :: "u32 \<Rightarrow> string" where
  "relocationName ty =
     (case map_of relocation_names ty of None \<Rightarrow> ''R_X86_64_UNKNOWN'' | Some n \<Rightarrow> n)"

record RelocationStats =
  rs_total :: u64
  rs_relative :: u64
  rs_globDat :: u64
  rs_jumpSlot :: u64
  rs_abs64 :: u64
  rs_skipped :: u64
  rs_failed :: u64

definition RelocationStats_zero :: RelocationStats where
  "RelocationStats_zero =
     \<lparr>rs_total = 0, rs_relative = 0, rs_globDat = 0, rs_jumpSlot = 0, rs_abs64 = 0,
      rs_skipped = 0, rs_failed = 0\<rparr>"

section \<open>One relocation\<close>

text \<open>The first segment that contains the address decides.\<close>

fun writable_in :: "u64 \<Rightarrow> LoadedSegment list \<Rightarrow> bool" where
  "writable_in addr [] = False"
| "writable_in addr (s # ss) =
     (if ls_vaddr s \<le> addr \<and> addr < ls_vaddr s + ls_memsz s then ls_prot s AND kPfW \<noteq> 0
      else writable_in addr ss)"

definition isWritableAddress :: "Module \<Rightarrow> u64 \<Rightarrow> bool" where
  "isWritableAddress m addr = writable_in addr (md_segments m)"

definition writeU64 :: "u64 \<Rightarrow> u64 \<Rightarrow> memory \<Rightarrow> memory cpp" where
  "writeU64 addr v mem = store_bytes addr (le_bytes 8 v) mem"

definition fail_stat :: "RelocationStats \<Rightarrow> RelocationStats" where
  "fail_stat st = st\<lparr>rs_failed := rs_failed st + 1\<rparr>"

text \<open>
  The symbol of a relocation, for the types that need one: \<open>None\<close> if the index is invalid or the
  name does not resolve.
\<close>

definition relocation_symbol ::
  "memory \<Rightarrow> ModuleRegistry \<Rightarrow> Module \<Rightarrow> u32 \<Rightarrow> u64 option cpp" where
  "relocation_symbol mem reg m i =
     (if md_dynsym m = 0 \<or> md_dynstr m = 0 \<or> md_dynsymCount m \<le> ucast i then Val None
      else cpp_bind (load_sym mem (md_dynsym m + ucast i * sizeof_Sym)) (\<lambda>s.
        cpp_bind (c_string mem (md_dynstr m + ucast (sym_name s))) (\<lambda>name.
        cpp_bind (SymbolResolver_resolve mem reg m name) (\<lambda>(symAddr, src).
          Val (if symAddr = 0 then None else Some symAddr)))))"

definition applyOne ::
  "ModuleRegistry \<Rightarrow> Module \<Rightarrow> Elf64_Rela \<Rightarrow> RelocationStats \<times> memory
     \<Rightarrow> (bool \<times> RelocationStats \<times> memory) cpp" where
  "applyOne reg m r = (\<lambda>(st, mem).
     let ty = elfRelType (rela_info r); i = elfRelSym (rela_info r);
         target = Module_relocate m (rela_offset r);
         st = st\<lparr>rs_total := rs_total st + 1\<rparr>
     in if \<not> isWritableAddress m target then Val (False, fail_stat st, mem)
        else if ty = kRX86_64None then Val (True, st, mem)
        else if ty = kRX86_64Relative then
          cpp_bind (writeU64 target (md_delta m + rela_addend r) mem) (\<lambda>mem.
            Val (True, st\<lparr>rs_relative := rs_relative st + 1\<rparr>, mem))
        else if ty = kRX86_64_64 then
          cpp_bind (relocation_symbol mem reg m i) (\<lambda>s.
            case s of
              None \<Rightarrow> Val (False, fail_stat st, mem)
            | Some symAddr \<Rightarrow>
                cpp_bind (writeU64 target (symAddr + rela_addend r) mem) (\<lambda>mem.
                  Val (True, st\<lparr>rs_abs64 := rs_abs64 st + 1\<rparr>, mem)))
        else if ty = kRX86_64GlobDat \<or> ty = kRX86_64JumpSlot then
          cpp_bind (relocation_symbol mem reg m i) (\<lambda>s.
            case s of
              None \<Rightarrow> Val (False, fail_stat st, mem)
            | Some symAddr \<Rightarrow>
                cpp_bind (writeU64 target symAddr mem) (\<lambda>mem.
                  Val (True, (if ty = kRX86_64GlobDat then st\<lparr>rs_globDat := rs_globDat st + 1\<rparr>
                              else st\<lparr>rs_jumpSlot := rs_jumpSlot st + 1\<rparr>), mem)))
        else Val (False, fail_stat (st\<lparr>rs_skipped := rs_skipped st + 1\<rparr>), mem))"

section \<open>Tables of relocations\<close>

fun apply_entries ::
  "ModuleRegistry \<Rightarrow> Module \<Rightarrow> u64 \<Rightarrow> nat \<Rightarrow> bool \<Rightarrow> RelocationStats \<times> memory
     \<Rightarrow> (bool \<times> RelocationStats \<times> memory) cpp" where
  "apply_entries reg m a 0 allOk (st, mem) = Val (allOk, st, mem)"
| "apply_entries reg m a (Suc n) allOk (st, mem) =
     cpp_bind (load_bytes mem a 24) (\<lambda>bs.
     cpp_bind (applyOne reg m (decode_Rela bs) (st, mem)) (\<lambda>(ok, st, mem).
       apply_entries reg m (a + sizeof_Rela) n (allOk \<and> ok) (st, mem)))"

definition applyRelaRange ::
  "ModuleRegistry \<Rightarrow> Module \<Rightarrow> u64 \<Rightarrow> u64 \<Rightarrow> RelocationStats \<times> memory
     \<Rightarrow> (bool \<times> RelocationStats \<times> memory) cpp" where
  "applyRelaRange reg m relas count sm =
     (if relas = 0 \<or> count = 0 then Val (True, fst sm, snd sm)
      else apply_entries reg m relas (unat count) True sm)"

definition applyAll ::
  "ModuleRegistry \<Rightarrow> Module \<Rightarrow> memory \<Rightarrow> (bool \<times> RelocationStats \<times> memory) cpp" where
  "applyAll reg m mem =
     (let dyns = md_dynamics m;
          rela = last_dyn [kDtRela, kDtSceRela] dyns;
          relaSize = (case last_dyn [kDtRelaSz, kDtSceRelaSz] dyns of None \<Rightarrow> 0 | Some v \<Rightarrow> v);
          relaEnt = (case last_dyn [kDtRelaEnt, kDtSceRelaEnt] dyns of None \<Rightarrow> sizeof_Rela | Some v \<Rightarrow> v);
          jmprel = last_dyn [kDtJmpRel] dyns;
          pltrelsz = (case last_dyn [kDtPltRelSz] dyns of None \<Rightarrow> 0 | Some v \<Rightarrow> v);
          sm = (RelocationStats_zero, mem)
      in if rela \<noteq> None \<and> relaSize \<noteq> 0 \<and> relaEnt \<noteq> sizeof_Rela then Val (False, sm)
         else
           cpp_bind (case rela of
                       Some relaAddr \<Rightarrow>
                         if relaSize = 0 then Val (True, sm)
                         else applyRelaRange reg m (Module_relocate m relaAddr) (relaSize div relaEnt) sm
                     | None \<Rightarrow> Val (True, sm)) (\<lambda>(ok1, sm).
           cpp_bind (case jmprel of
                       Some jmp \<Rightarrow>
                         if pltrelsz = 0 then Val (True, sm)
                         else applyRelaRange reg m (Module_relocate m jmp) (pltrelsz div sizeof_Rela) sm
                     | None \<Rightarrow> Val (True, sm)) (\<lambda>(ok2, sm).
             Val (ok1 \<and> ok2, sm))))"

section \<open>The effect of one relocation\<close>

definition rs_done :: "RelocationStats \<Rightarrow> u64" where
  "rs_done st = rs_relative st + rs_globDat st + rs_jumpSlot st + rs_abs64 st"

text \<open>The eight bytes at an address.\<close>

definition window :: "u64 \<Rightarrow> u64 set" where
  "window t = {x. unat (x - t) < 8}"

inductive reloc_effect ::
  "Module \<Rightarrow> RelocationStats \<times> memory \<Rightarrow> bool \<Rightarrow> RelocationStats \<times> memory \<Rightarrow> bool" for m where
  skip: "\<lbrakk>rs_total st' = rs_total st + 1; rs_done st' = rs_done st; rs_failed st' = rs_failed st\<rbrakk>
     \<Longrightarrow> reloc_effect m (st, mem) True (st', mem)"
| fail: "\<lbrakk>rs_total st' = rs_total st + 1; rs_done st' = rs_done st; rs_failed st' = rs_failed st + 1\<rbrakk>
     \<Longrightarrow> reloc_effect m (st, mem) False (st', mem)"
| patch: "\<lbrakk>rs_total st' = rs_total st + 1; rs_done st' = rs_done st + 1; rs_failed st' = rs_failed st;
      isWritableAddress m t; writeU64 t v mem = Val mem'\<rbrakk>
     \<Longrightarrow> reloc_effect m (st, mem) True (st', mem')"

lemma applyOne_effect:
  assumes "applyOne reg m r (st, mem) = Val (ok, st', mem')"
  shows "reloc_effect m (st, mem) ok (st', mem')"
  using assms
  by (auto simp: applyOne_def Let_def fail_stat_def rs_done_def cpp_bind_eq_Val_iff
      reloc_effect.simps split: if_splits option.splits)

lemma writeU64_frame:
  assumes "writeU64 t v mem = Val mem'"
  shows "dom mem' = dom mem" and "x \<notin> window t \<Longrightarrow> mem' x = mem x"
    and "load_bytes mem' t 8 = Val (le_bytes 8 v)"
proof -
  have s: "store_bytes t (le_bytes 8 v) mem = Val mem'" using assms by (simp add: writeU64_def)
  then show "dom mem' = dom mem" by (rule store_bytes_dom)
  show "mem' x = mem x" if "x \<notin> window t"
    using store_bytes_keeps [OF s] that by (simp add: window_def)
  show "load_bytes mem' t 8 = Val (le_bytes 8 v)" using load_store_bytes [OF s] by simp
qed

lemma reloc_effect_frame:
  assumes "reloc_effect m (st, mem) ok (st', mem')"
  shows "dom mem' = dom mem" and "mem' x \<noteq> mem x \<Longrightarrow> \<exists>t. isWritableAddress m t \<and> x \<in> window t"
  using assms by (cases; use writeU64_frame(1,2) in blast)+

lemma reloc_effect_counts:
  assumes "reloc_effect m (st, mem) ok (st', mem')"
  shows "\<exists>d. rs_total st' = rs_total st + 1 \<and> rs_done st' = rs_done st + of_nat d
    \<and> rs_failed st' = rs_failed st + of_nat (if ok then 0 else 1) \<and> d + (if ok then 0 else 1) \<le> 1"
  using assms by cases (auto intro: exI [of _ 0] exI [of _ 1])

section \<open>The effect of a table\<close>

lemma apply_entries_step:
  assumes "apply_entries reg m a (Suc n) b (st, mem) = Val (b', st', mem')"
  obtains ok st1 mem1 where "reloc_effect m (st, mem) ok (st1, mem1)"
    and "apply_entries reg m (a + sizeof_Rela) n (b \<and> ok) (st1, mem1) = Val (b', st', mem')"
  using assms by (auto simp: cpp_bind_eq_Val_iff dest: applyOne_effect)

lemma apply_entries_frame:
  assumes "apply_entries reg m a n b (st, mem) = Val (b', st', mem')"
  shows "dom mem' = dom mem" and "mem' x \<noteq> mem x \<Longrightarrow> \<exists>t. isWritableAddress m t \<and> x \<in> window t"
proof -
  have "dom mem' = dom mem \<and> (mem' x \<noteq> mem x \<longrightarrow> (\<exists>t. isWritableAddress m t \<and> x \<in> window t))"
    using assms
  proof (induction n arbitrary: a b st mem)
    case (Suc n)
    from Suc.prems obtain ok st1 mem1 where e: "reloc_effect m (st, mem) ok (st1, mem1)"
      and r: "apply_entries reg m (a + sizeof_Rela) n (b \<and> ok) (st1, mem1) = Val (b', st', mem')"
      by (rule apply_entries_step)
    from Suc.IH [OF r] reloc_effect_frame [OF e] show ?case by metis
  qed simp
  then show "dom mem' = dom mem" and "mem' x \<noteq> mem x \<Longrightarrow> \<exists>t. isWritableAddress m t \<and> x \<in> window t"
    by auto
qed

lemma apply_entries_counts:
  assumes "apply_entries reg m a n b (st, mem) = Val (b', st', mem')"
  shows "\<exists>f d. rs_total st' = rs_total st + of_nat n \<and> rs_done st' = rs_done st + of_nat d
    \<and> rs_failed st' = rs_failed st + of_nat f \<and> f + d \<le> n \<and> (b' \<longleftrightarrow> b \<and> f = 0)"
  using assms
proof (induction n arbitrary: a b st mem)
  case 0
  then show ?case by (auto intro: exI [of _ 0])
next
  case (Suc n)
  from Suc.prems obtain ok st1 mem1 where e: "reloc_effect m (st, mem) ok (st1, mem1)"
    and r: "apply_entries reg m (a + sizeof_Rela) n (b \<and> ok) (st1, mem1) = Val (b', st', mem')"
    by (rule apply_entries_step)
  from Suc.IH [OF r] obtain f d where 1: "rs_total st' = rs_total st1 + of_nat n"
    "rs_done st' = rs_done st1 + of_nat d" "rs_failed st' = rs_failed st1 + of_nat f"
    "f + d \<le> n" "b' \<longleftrightarrow> (b \<and> ok) \<and> f = 0" by blast
  from reloc_effect_counts [OF e] obtain d1 where "rs_total st1 = rs_total st + 1"
    "rs_done st1 = rs_done st + of_nat d1"
    "rs_failed st1 = rs_failed st + of_nat (if ok then 0 else 1)" "d1 + (if ok then 0 else 1) \<le> 1"
    by blast
  with 1 show ?case
    by (intro exI [of _ "(if ok then 0 else 1) + f"] exI [of _ "d1 + d"]) (auto split: if_splits)
qed

lemma applyRelaRange_effect:
  assumes "applyRelaRange reg m a c (st, mem) = Val (b', st', mem')"
  shows "dom mem' = dom mem"
    and "mem' x \<noteq> mem x \<Longrightarrow> \<exists>t. isWritableAddress m t \<and> x \<in> window t"
    and "\<exists>n f d. n \<le> unat c \<and> rs_total st' = rs_total st + of_nat n
      \<and> rs_done st' = rs_done st + of_nat d
      \<and> rs_failed st' = rs_failed st + of_nat f \<and> f + d \<le> n \<and> (b' \<longleftrightarrow> f = 0)"
proof -
  consider (none) "b' = True" "st' = st" "mem' = mem"
    | (some) "apply_entries reg m a (unat c) True (st, mem) = Val (b', st', mem')"
    using assms by (auto simp: applyRelaRange_def split: if_splits)
  then have "dom mem' = dom mem \<and> (mem' x \<noteq> mem x \<longrightarrow> (\<exists>t. isWritableAddress m t \<and> x \<in> window t))
    \<and> (\<exists>n f d. n \<le> unat c \<and> rs_total st' = rs_total st + of_nat n \<and> rs_done st' = rs_done st + of_nat d
      \<and> rs_failed st' = rs_failed st + of_nat f \<and> f + d \<le> n \<and> (b' \<longleftrightarrow> f = 0))"
  proof cases
    case none
    then show ?thesis by (auto intro: exI [of _ 0])
  next
    case some
    from apply_entries_frame [OF some] apply_entries_counts [OF some] show ?thesis
      using order_refl [of "unat c"] by blast
  qed
  then show "dom mem' = dom mem" "mem' x \<noteq> mem x \<Longrightarrow> \<exists>t. isWritableAddress m t \<and> x \<in> window t"
    "\<exists>n f d. n \<le> unat c \<and> rs_total st' = rs_total st + of_nat n \<and> rs_done st' = rs_done st + of_nat d
      \<and> rs_failed st' = rs_failed st + of_nat f \<and> f + d \<le> n \<and> (b' \<longleftrightarrow> f = 0)"
    by blast+
qed

section \<open>All relocations of a module\<close>

text \<open>The table size is rejected before any entry is read.\<close>

definition bad_entsize :: "Module \<Rightarrow> bool" where
  "bad_entsize m \<longleftrightarrow>
     last_dyn [kDtRela, kDtSceRela] (md_dynamics m) \<noteq> None
     \<and> (case last_dyn [kDtRelaSz, kDtSceRelaSz] (md_dynamics m) of None \<Rightarrow> 0 | Some v \<Rightarrow> v) \<noteq> 0
     \<and> (case last_dyn [kDtRelaEnt, kDtSceRelaEnt] (md_dynamics m) of
          None \<Rightarrow> sizeof_Rela | Some v \<Rightarrow> v) \<noteq> sizeof_Rela"

text \<open>Otherwise \<^verbatim>\<open>applyAll\<close> is two ranges, possibly empty, one after the other.\<close>

lemma applyAll_ranges:
  assumes "applyAll reg m mem = Val (ok, st, mem')" and "\<not> bad_entsize m"
  obtains a1 c1 a2 c2 ok1 st1 mem1 ok2
  where "applyRelaRange reg m a1 (c1 div sizeof_Rela) (RelocationStats_zero, mem) = Val (ok1, st1, mem1)"
    and "applyRelaRange reg m a2 (c2 div sizeof_Rela) (st1, mem1) = Val (ok2, st, mem')"
    and "ok \<longleftrightarrow> ok1 \<and> ok2"
proof -
  have none: "applyRelaRange reg m a (0 div sizeof_Rela) (s, mm) = Val (True, s, mm)" for a s mm
    by (simp add: applyRelaRange_def)
  define rela where "rela = last_dyn [kDtRela, kDtSceRela] (md_dynamics m)"
  define sz where "sz = (case last_dyn [kDtRelaSz, kDtSceRelaSz] (md_dynamics m) of None \<Rightarrow> 0 | Some v \<Rightarrow> v)"
  define jmp where "jmp = last_dyn [kDtJmpRel] (md_dynamics m)"
  define psz where "psz = (case last_dyn [kDtPltRelSz] (md_dynamics m) of None \<Rightarrow> 0 | Some v \<Rightarrow> v)"
  define rng where "rng = (\<lambda>t s (sm :: RelocationStats \<times> memory). case t of
      Some a \<Rightarrow> if s = 0 then Val (True, sm)
                else applyRelaRange reg m (Module_relocate m a) (s div sizeof_Rela) sm
    | None \<Rightarrow> Val (True, sm))"
  have rng: "\<exists>a c. applyRelaRange reg m a (c div sizeof_Rela) (s, mm) = Val (b, s', mm')"
    if "rng t n (s, mm) = Val (b, s', mm')" for t n s mm b s' mm'
    using that none [of _ s mm] unfolding rng_def
    by (cases t; cases "n = 0"; simp; blast)
  have "applyAll reg m mem = cpp_bind (rng rela sz (RelocationStats_zero, mem)) (\<lambda>(ok1, sm).
      cpp_bind (rng jmp psz sm) (\<lambda>(ok2, sm). Val (ok1 \<and> ok2, sm)))"
    using assms(2)
    by (auto simp: applyAll_def bad_entsize_def rng_def rela_def sz_def jmp_def psz_def Let_def
        split: option.splits)
  with assms(1) have "cpp_bind (rng rela sz (RelocationStats_zero, mem)) (\<lambda>(ok1, sm).
      cpp_bind (rng jmp psz sm) (\<lambda>(ok2, sm). Val (ok1 \<and> ok2, sm))) = Val (ok, st, mem')" by simp
  then obtain ok1 st1 mem1 ok2 where 1: "rng rela sz (RelocationStats_zero, mem) = Val (ok1, st1, mem1)"
    and 2: "rng jmp psz (st1, mem1) = Val (ok2, st, mem')" and ok: "ok \<longleftrightarrow> ok1 \<and> ok2"
    by (auto simp: cpp_bind_eq_Val_iff)
  from rng [OF 1] obtain a1 c1 where
    "applyRelaRange reg m a1 (c1 div sizeof_Rela) (RelocationStats_zero, mem) = Val (ok1, st1, mem1)"
    by blast
  moreover from rng [OF 2] obtain a2 c2 where
    "applyRelaRange reg m a2 (c2 div sizeof_Rela) (st1, mem1) = Val (ok2, st, mem')" by blast
  ultimately show ?thesis using ok by (rule that)
qed

lemma applyAll_dom_frame:
  assumes "applyAll reg m mem = Val (ok, st, mem')"
  shows "dom mem' = dom mem \<and> (mem' x \<noteq> mem x \<longrightarrow> (\<exists>t. isWritableAddress m t \<and> x \<in> window t))"
proof (cases "bad_entsize m")
  case True
  then have "mem' = mem" using assms by (auto simp: applyAll_def bad_entsize_def Let_def)
  then show ?thesis by simp
next
  case False
  obtain a1 c1 a2 c2 ok1 st1 mem1 ok2
    where 1: "applyRelaRange reg m a1 (c1 div sizeof_Rela) (RelocationStats_zero, mem) = Val (ok1, st1, mem1)"
      and 2: "applyRelaRange reg m a2 (c2 div sizeof_Rela) (st1, mem1) = Val (ok2, st, mem')"
    by (rule applyAll_ranges [OF assms False])
  have "\<exists>t. isWritableAddress m t \<and> x \<in> window t" if "mem' x \<noteq> mem x"
    using that applyRelaRange_effect(2) [OF 1, of x] applyRelaRange_effect(2) [OF 2, of x] by metis
  with applyRelaRange_effect(1) [OF 1] applyRelaRange_effect(1) [OF 2] show ?thesis by blast
qed

lemmas applyAll_dom = applyAll_dom_frame [THEN conjunct1]
lemmas applyAll_frame = applyAll_dom_frame [THEN conjunct2, rule_format]

section \<open>A table of relative relocations\<close>

abbreviation rela_target :: "Module \<Rightarrow> Elf64_Rela \<Rightarrow> u64" where
  "rela_target m r \<equiv> Module_relocate m (rela_offset r)"

text \<open>The entries that memory holds from an address on, and the bytes they occupy.\<close>

fun table_at :: "memory \<Rightarrow> u64 \<Rightarrow> Elf64_Rela list \<Rightarrow> bool" where
  "table_at mem a [] = True"
| "table_at mem a (r # rs) =
     ((case load_bytes mem a 24 of UB \<Rightarrow> False | Val bs \<Rightarrow> decode_Rela bs = r)
      \<and> table_at mem (a + sizeof_Rela) rs)"

fun table_bytes :: "u64 \<Rightarrow> nat \<Rightarrow> u64 set" where
  "table_bytes a 0 = {}"
| "table_bytes a (Suc n) = {x. unat (x - a) < 24} \<union> table_bytes (a + sizeof_Rela) n"

lemma table_at_cong:
  assumes "table_at mem a rs" and "\<And>x. x \<in> table_bytes a (length rs) \<Longrightarrow> mem' x = mem x"
  shows "table_at mem' a rs"
  using assms
proof (induction rs arbitrary: a)
  case (Cons r rs)
  have "load_bytes mem' a 24 = load_bytes mem a 24"
    by (rule load_bytes_cong) (simp add: Cons.prems(2) unat_of_nat take_bit_nat_eq_self)
  with Cons show ?case by simp
qed simp

lemma writeU64_total:
  assumes "window t \<subseteq> dom mem"
  obtains mem' where "writeU64 t v mem = Val mem'"
proof -
  have "\<forall>i < length (le_bytes 8 v). mem (t + of_nat i) \<noteq> None"
    using assms by (auto simp: window_def unat_of_nat take_bit_nat_eq_self subset_iff dom_def)
  from store_bytes_total [OF this] that show ?thesis by (auto simp: writeU64_def)
qed

lemma apply_relative_entries:
  assumes "table_at mem a rs"
    and "\<forall>r\<in>set rs. elfRelType (rela_info r) = kRX86_64Relative \<and> isWritableAddress m (rela_target m r)
           \<and> window (rela_target m r) \<subseteq> dom mem
           \<and> window (rela_target m r) \<inter> table_bytes a (length rs) = {}"
    and "sorted_wrt (\<lambda>r s. window (rela_target m r) \<inter> window (rela_target m s) = {}) rs"
  shows "\<exists>st' mem'. apply_entries reg m a (length rs) True (st, mem) = Val (True, st', mem')
     \<and> (\<forall>r\<in>set rs. load_bytes mem' (rela_target m r) 8 = Val (le_bytes 8 (md_delta m + rela_addend r)))
     \<and> (\<forall>x. (\<forall>r\<in>set rs. x \<notin> window (rela_target m r)) \<longrightarrow> mem' x = mem x)"
  using assms
proof (induction rs arbitrary: a st mem)
  case (Cons r rs)
  let ?t = "rela_target m r" and ?v = "md_delta m + rela_addend r"
  obtain bs where bs: "load_bytes mem a 24 = Val bs" "decode_Rela bs = r"
    using Cons.prems(1) by (auto split: cpp.splits)
  obtain mem1 where w: "writeU64 ?t ?v mem = Val mem1"
    using writeU64_total [of ?t mem] Cons.prems(2) by auto
  note fr = writeU64_frame [OF w]
  have one: "applyOne reg m r (st, mem) =
      Val (True, st\<lparr>rs_total := rs_total st + 1, rs_relative := rs_relative st + 1\<rparr>, mem1)"
    using Cons.prems(2) w
    by (simp add: applyOne_def Let_def kRX86_64Relative_def kRX86_64None_def)
  have "window ?t \<inter> table_bytes (a + sizeof_Rela) (length rs) = {}" using Cons.prems(2) by auto
  then have "x \<in> table_bytes (a + sizeof_Rela) (length rs) \<Longrightarrow> mem1 x = mem x" for x
    using fr(2) by blast
  with Cons.prems(1) have tbl: "table_at mem1 (a + sizeof_Rela) rs"
    using table_at_cong [of mem "a + sizeof_Rela" rs mem1] by simp
  have others: "\<forall>s\<in>set rs. elfRelType (rela_info s) = kRX86_64Relative
      \<and> isWritableAddress m (rela_target m s) \<and> window (rela_target m s) \<subseteq> dom mem1
      \<and> window (rela_target m s) \<inter> table_bytes (a + sizeof_Rela) (length rs) = {}"
    using Cons.prems(2) fr(1) by auto
  have sep: "sorted_wrt (\<lambda>r s. window (rela_target m r) \<inter> window (rela_target m s) = {}) rs"
    and apart: "\<forall>s\<in>set rs. window ?t \<inter> window (rela_target m s) = {}"
    using Cons.prems(3) by auto
  from Cons.IH [OF tbl others sep] obtain st' mem' where
    run: "apply_entries reg m (a + sizeof_Rela) (length rs) True
        (st\<lparr>rs_total := rs_total st + 1, rs_relative := rs_relative st + 1\<rparr>, mem1) = Val (True, st', mem')"
    and rest: "\<forall>s\<in>set rs. load_bytes mem' (rela_target m s) 8 = Val (le_bytes 8 (md_delta m + rela_addend s))"
    and keep: "\<forall>x. (\<forall>s\<in>set rs. x \<notin> window (rela_target m s)) \<longrightarrow> mem' x = mem1 x"
    by blast
  have "mem' x = mem1 x" if "x \<in> window ?t" for x using keep apart that by blast
  then have "load_bytes mem' ?t 8 = load_bytes mem1 ?t 8"
    by (intro load_bytes_cong) (simp add: window_def unat_of_nat take_bit_nat_eq_self)
  with fr(3) have "load_bytes mem' ?t 8 = Val (le_bytes 8 ?v)" by simp
  with run rest keep fr(2) bs one show ?case by auto
qed simp

section \<open>Properties\<close>

text \<open>
  A module of two adjacent segments: eight writable bytes at 0x1000 and a read-only table at
  0x1008 with one RELATIVE relocation of the address \<open>off\<close>.
\<close>

definition patch_module :: Module where
  "patch_module = Module_new\<lparr>
     md_segments := [\<lparr>ls_vaddr = 0x1000, ls_filesz = 8, ls_memsz = 8, ls_prot = 6\<rparr>,
                     \<lparr>ls_vaddr = 0x1008, ls_filesz = 24, ls_memsz = 24, ls_prot = 4\<rparr>],
     md_dynamics := [\<lparr>d_tag = 7, d_val = 0x1008\<rparr>, \<lparr>d_tag = 8, d_val = 24\<rparr>]\<rparr>"

definition patch_memory :: "u64 \<Rightarrow> memory" where
  "patch_memory off = mem_at 0x1000
     (replicate 8 0 @ le_bytes 8 off @ le_bytes 8 (8 :: u64) @ le_bytes 8 (0x20 :: u64))"

text \<open>
  Relocation reports every failure. When \<^verbatim>\<open>applyAll\<close> returns, every relocation processed was either
  applied, failed or of type NONE, and never counted twice: applied and failed ones add up to at
  most the total, without wrap-around; and the result is true exactly when no relocation failed
  and the entry size of the table is the supported one.
\<close>

theorem relocations_accounted:
  assumes "applyAll reg m mem = Val (ok, st, mem')"
  shows "unat (rs_done st) + unat (rs_failed st) \<le> unat (rs_total st)
    \<and> (ok \<longleftrightarrow> rs_failed st = 0 \<and> \<not> bad_entsize m)"
proof (cases "bad_entsize m")
  case True
  then have "\<not> ok" "st = RelocationStats_zero"
    using assms by (auto simp: applyAll_def bad_entsize_def Let_def)
  with True show ?thesis by (simp add: RelocationStats_zero_def rs_done_def)
next
  case False
  obtain a1 c1 a2 c2 ok1 st1 mem1 ok2
    where 1: "applyRelaRange reg m a1 (c1 div sizeof_Rela) (RelocationStats_zero, mem) = Val (ok1, st1, mem1)"
      and 2: "applyRelaRange reg m a2 (c2 div sizeof_Rela) (st1, mem1) = Val (ok2, st, mem')"
      and ok: "ok \<longleftrightarrow> ok1 \<and> ok2"
    by (rule applyAll_ranges [OF assms False])
  obtain n1 f1 d1 where c1: "n1 \<le> unat (c1 div sizeof_Rela)" "rs_total st1 = of_nat n1"
    "rs_done st1 = of_nat d1" "rs_failed st1 = of_nat f1" "f1 + d1 \<le> n1" "ok1 \<longleftrightarrow> f1 = 0"
    using applyRelaRange_effect(3) [OF 1] by (auto simp: RelocationStats_zero_def rs_done_def)
  obtain n2 f2 d2 where c2: "n2 \<le> unat (c2 div sizeof_Rela)" "rs_total st = of_nat (n1 + n2)"
    "rs_done st = of_nat (d1 + d2)" "rs_failed st = of_nat (f1 + f2)" "f2 + d2 \<le> n2" "ok2 \<longleftrightarrow> f2 = 0"
    using applyRelaRange_effect(3) [OF 2] c1 by auto
  have bound: "unat (c div sizeof_Rela) < 2 ^ 63" for c
  proof -
    have "unat (c div sizeof_Rela) = unat c div 24" by (simp add: unat_div sizeof_Rela_def)
    also have "\<dots> \<le> (2 ^ 64 - 1) div 24"
      by (intro div_le_mono, simp) (use unat_lt_64 [of c] in linarith)
    also have "\<dots> < 2 ^ 63" by simp
    finally show ?thesis .
  qed
  have small: "n1 + n2 < 2 ^ 64" using c1(1) c2(1) bound [of c1] bound [of c2] by simp
  with c1(5) c2(5) have "d1 + d2 < 2 ^ 64" "f1 + f2 < 2 ^ 64" by simp_all
  then have "unat (rs_done st) = d1 + d2" "unat (rs_failed st) = f1 + f2" "unat (rs_total st) = n1 + n2"
    using c2 small by (simp_all only: unat_small)
  moreover from this have "rs_failed st = 0 \<longleftrightarrow> f1 = 0 \<and> f2 = 0" by (metis add_is_0 unat_eq_0)
  ultimately show ?thesis using c1 c2 ok False by simp
qed

theorem relocations_accounted_witness:
  "\<exists>st mem'. applyAll [] patch_module (patch_memory 0x1000) = Val (True, st, mem') \<and> rs_failed st = 0"
proof -
  have "case applyAll [] patch_module (patch_memory 0x1000) of UB \<Rightarrow> False | Val (ok, _) \<Rightarrow> ok"
    by code_simp
  then obtain st mem' where "applyAll [] patch_module (patch_memory 0x1000) = Val (True, st, mem')"
    by (auto split: cpp.splits)
  with relocations_accounted [OF this] show ?thesis by auto
qed

lemma writable_segment:
  "writable_in a segs \<Longrightarrow> \<exists>g\<in>set segs. ls_vaddr g \<le> a \<and> a < ls_vaddr g + ls_memsz g \<and> ls_prot g AND kPfW \<noteq> 0"
  by (induction segs) (auto split: if_splits)

text \<open>
  C11. Relocation only patches writable segments. The memory after \<^verbatim>\<open>applyAll\<close> differs from the memory
  before only in eight-byte windows that start at an address inside a writable segment of the
  module, and no page is mapped or unmapped.
\<close>

theorem relocations_stay_in_segments:
  assumes "applyAll reg m mem = Val (ok, st, mem')"
  shows "dom mem' = dom mem
    \<and> (\<forall>x. mem' x \<noteq> mem x \<longrightarrow> (\<exists>t. unat (x - t) < 8
         \<and> (\<exists>g\<in>set (md_segments m). ls_vaddr g \<le> t \<and> t < ls_vaddr g + ls_memsz g
              \<and> ls_prot g AND kPfW \<noteq> 0)))"
proof -
  have "\<exists>t. unat (x - t) < 8 \<and> isWritableAddress m t" if "mem' x \<noteq> mem x" for x
    using that applyAll_frame [OF assms] by (auto simp: window_def)
  with applyAll_dom [OF assms] show ?thesis
    unfolding isWritableAddress_def using writable_segment by blast
qed

theorem relocations_stay_in_segments_witness:
  "\<exists>st mem'. applyAll [] patch_module (patch_memory 0x1000) = Val (True, st, mem')
     \<and> dom mem' = dom (patch_memory 0x1000)"
proof -
  have "case applyAll [] patch_module (patch_memory 0x1000) of UB \<Rightarrow> False | Val (ok, _) \<Rightarrow> ok"
    by code_simp
  then obtain st mem' where "applyAll [] patch_module (patch_memory 0x1000) = Val (True, st, mem')"
    by (auto split: cpp.splits)
  with relocations_stay_in_segments [OF this] show ?thesis by blast
qed

text \<open>
  Relative relocations are applied. For a table of RELATIVE relocations whose targets are
  writable, mapped, apart from one another and apart from the table, the range is processed
  successfully, afterwards each target holds the load delta plus the addend, and no
  other byte has changed.
\<close>

theorem relative_relocations_applied:
  assumes "table_at mem a rs" and "a \<noteq> 0" and "length rs < 2 ^ 64"
    and "\<forall>r\<in>set rs. elfRelType (rela_info r) = kRX86_64Relative \<and> isWritableAddress m (rela_target m r)
           \<and> window (rela_target m r) \<subseteq> dom mem
           \<and> window (rela_target m r) \<inter> table_bytes a (length rs) = {}"
    and "sorted_wrt (\<lambda>r s. window (rela_target m r) \<inter> window (rela_target m s) = {}) rs"
  shows "\<exists>st' mem'. applyRelaRange reg m a (of_nat (length rs)) (st, mem) = Val (True, st', mem')
     \<and> (\<forall>r\<in>set rs. load_bytes mem' (rela_target m r) 8 = Val (le_bytes 8 (md_delta m + rela_addend r)))
     \<and> (\<forall>x. (\<forall>r\<in>set rs. x \<notin> window (rela_target m r)) \<longrightarrow> mem' x = mem x)"
proof (cases rs)
  case Nil
  then show ?thesis by (simp add: applyRelaRange_def)
next
  case (Cons r rs')
  have "unat (of_nat (length rs) :: u64) = length rs" using assms(3) by (rule unat_small)
  moreover from this have "(of_nat (length rs) :: u64) \<noteq> 0" by (metis Cons length_0_conv list.distinct(1) unat_0)
  ultimately show ?thesis
    using apply_relative_entries [OF assms(1,4,5), of reg st] assms(2) by (simp add: applyRelaRange_def)
qed

theorem relative_relocations_applied_witness:
  "\<exists>st' mem'. applyRelaRange [] patch_module 0x1008 1 (RelocationStats_zero, patch_memory 0x1000)
       = Val (True, st', mem')
     \<and> load_bytes mem' 0x1000 8 = Val (le_bytes 8 (0x20 :: u64))"
proof -
  let ?r = "\<lparr>rela_offset = 0x1000, rela_info = 8, rela_addend = 0x20\<rparr>"
  have 1: "table_at (patch_memory 0x1000) 0x1008 [?r]" by code_simp
  have t: "rela_target patch_module ?r = 0x1000" by code_simp
  have "unat (x - 0x1008) = 2 ^ 64 + unat (x - 0x1000) - 8" if "unat (x - 0x1000) < 8" for x :: u64
    using unat_offset_diff [of "unat (x - 0x1000)" 8 "0x1000"] that by simp
  then have 2: "window 0x1000 \<inter> table_bytes 0x1008 1 = {}" by (fastforce simp: window_def)
  have 3: "window 0x1000 \<subseteq> dom (patch_memory 0x1000)"
    by (auto simp: window_def patch_memory_def mem_at_def Let_def)
  have 4: "elfRelType (rela_info ?r) = kRX86_64Relative" "isWritableAddress patch_module 0x1000"
    by code_simp+
  have d: "md_delta patch_module = 0" by (simp add: patch_module_def Module_new_def)
  have "(0x1008 :: u64) \<noteq> 0" "length [?r] < 2 ^ 64"
    "\<forall>r\<in>set [?r]. elfRelType (rela_info r) = kRX86_64Relative
       \<and> isWritableAddress patch_module (rela_target patch_module r)
       \<and> window (rela_target patch_module r) \<subseteq> dom (patch_memory 0x1000)
       \<and> window (rela_target patch_module r) \<inter> table_bytes 0x1008 (length [?r]) = {}"
    "sorted_wrt (\<lambda>r s. window (rela_target patch_module r) \<inter> window (rela_target patch_module s) = {}) [?r]"
    using 2 3 4 t by simp_all
  from relative_relocations_applied [OF 1 this, of "[]" RelocationStats_zero] t d show ?thesis
    by (metis One_nat_def add_0 length_Cons list.size(3) list.set_intros(1) of_nat_1
        Elf64_Rela.select_convs(3))
qed

text \<open>
  The check covers only the first byte. A relocation of the last bytes of a writable segment is
  accepted, and its eight-byte store runs into the read-only segment behind it: here it
  overwrites the first bytes of the relocation table itself, and \<^verbatim>\<open>applyAll\<close> reports success.
\<close>

theorem relocation_straddles_segments:
  "\<not> isWritableAddress patch_module 0x1008
   \<and> (case applyAll [] patch_module (patch_memory 0x1004) of
        UB \<Rightarrow> False
      | Val (ok, st, mem') \<Rightarrow>
          ok \<and> patch_memory 0x1004 0x1008 = Some 0x04 \<and> mem' 0x1008 = Some 0)"
  by code_simp

end
