(* ===== verification/Elf_Loader.thy ===== *)
theory Elf_Loader
  imports Relocations Address_Space
begin

text \<open>
  \<^verbatim>\<open>loader/ElfLoader.cpp\<close>: loading an executable into the guest address space. The arena is mapped
  readable and writable as a whole, so reserving a region leaves the memory as it is.
  \<^verbatim>\<open>AddressSpace::findFreeRange\<close> and \<^verbatim>\<open>Module::setDynamics\<close> are called by the loader but are not part of
  the sources; they are arguments.
\<close>

unbundle bit_operations_syntax

section \<open>Layout\<close>

definition kMaxAlign :: u64 where "kMaxAlign = 0x200000"

definition loader_alignUp :: "u64 \<Rightarrow> u64 \<Rightarrow> u64" where
  "loader_alignUp v a = (let a = (if a = 0 then 1 else a) in (v + (a - 1)) AND NOT (a - 1))"

definition fromFlags :: "u32 \<Rightarrow> RegionProt" where
  "fromFlags pf =
     (let p = ProtNone;
          p = (if pf AND kPfR \<noteq> 0 then p OR ProtRead else p);
          p = (if pf AND kPfW \<noteq> 0 then p OR ProtWrite else p)
      in if pf AND kPfX \<noteq> 0 then p OR ProtExecute else p)"

definition load_segments_of :: "ElfImage \<Rightarrow> SegmentInfo list" where
  "load_segments_of img = filter (\<lambda>s. sg_type s = kPtLoad) (img_phdrs img)"

definition preferred_base :: "SegmentInfo list \<Rightarrow> u64" where
  "preferred_base segs = fold (\<lambda>s b. min b (sg_vaddr s AND NOT (kPageSize - 1))) segs (- 1)"

definition image_align :: "SegmentInfo list \<Rightarrow> u64" where
  "image_align segs =
     min (fold (\<lambda>s a. max a (if sg_align s \<noteq> 0 then sg_align s else kPageSize)) segs kPageSize) kMaxAlign"

definition image_size :: "u64 \<Rightarrow> SegmentInfo list \<Rightarrow> u64" where
  "image_size preferredBase segs =
     loader_alignUp
       (fold (\<lambda>s n. max n ((sg_vaddr s - preferredBase) + loader_alignUp (sg_memsz s) kPageSize)) segs 0)
       kPageSize"

section \<open>Segments\<close>

text \<open>
  The copy of a segment's file range and the zeroing of its tail. \<open>None\<close> is the error return; the
  range check is made on a 64-bit sum, the copy on the real range.
\<close>

definition copy_segment :: "ElfImage \<Rightarrow> SegmentInfo \<Rightarrow> u64 \<Rightarrow> memory \<Rightarrow> memory option cpp" where
  "copy_segment img s segActual mem =
     (if sg_filesz s = 0 then Val (Some mem)
      else (case (ElfImage_at (sg_offset s) img, img_data img) of
        (Some off, Some bytes) \<Rightarrow>
          if sg_offset s + sg_filesz s > img_size img then Val None
          else
            cpp_bind (read_buffer bytes (unat off) (unat (sg_filesz s))) (\<lambda>src.
            cpp_bind (store_bytes segActual src mem) (\<lambda>mem.
              if sg_memsz s > sg_filesz s
              then cpp_bind (store_bytes (segActual + sg_filesz s)
                               (replicate (unat (sg_memsz s - sg_filesz s)) 0) mem) (\<lambda>mem. Val (Some mem))
              else Val (Some mem)))
      | _ \<Rightarrow> Val None))"

definition loaded_segment :: "u64 \<Rightarrow> SegmentInfo \<Rightarrow> LoadedSegment" where
  "loaded_segment delta s =
     \<lparr>ls_vaddr = sg_vaddr s + delta, ls_filesz = sg_filesz s, ls_memsz = sg_memsz s, ls_prot = sg_flags s\<rparr>"

text \<open>The loop over the PT_LOAD segments; on an error what was done so far stays done.\<close>

fun map_segments ::
  "string \<Rightarrow> ElfImage \<Rightarrow> u64 \<Rightarrow> SegmentInfo list \<Rightarrow> AddressSpace \<times> memory \<times> Module
     \<Rightarrow> (bool \<times> AddressSpace \<times> memory \<times> Module) cpp" where
  "map_segments path img delta [] st = Val (True, st)"
| "map_segments path img delta (s # ss) (sp, mem, md) =
     (let segActual = sg_vaddr s + delta;
          segMem = loader_alignUp (sg_memsz s) kPageSize;
          (mapped, sp') = AddressSpace_map sp segActual segMem (fromFlags (sg_flags s)) (''seg:'' @ path)
      in if mapped \<noteq> segActual then Val (False, sp', mem, md)
         else cpp_bind (copy_segment img s segActual mem) (\<lambda>r.
           case r of
             None \<Rightarrow> Val (False, sp', mem, md)
           | Some mem' \<Rightarrow>
               map_segments path img delta ss
                 (sp', mem', Module_appendSegment (loaded_segment delta s) md)))"

section \<open>Dynamic section and TLS\<close>

fun read_dyns :: "u8 list \<Rightarrow> nat \<Rightarrow> nat \<Rightarrow> Elf64_Dyn list cpp" where
  "read_dyns bytes off 0 = Val []"
| "read_dyns bytes off (Suc n) =
     cpp_bind (read_buffer bytes off 16) (\<lambda>bs.
     cpp_bind (read_dyns bytes (off + 16) n) (\<lambda>ds. Val (decode_Dyn bs # ds)))"

text \<open>\<open>None\<close>: no PT_DYNAMIC; \<open>Some None\<close>: the error return; only the first entry is checked.\<close>

definition dynamic_entries :: "ElfImage \<Rightarrow> Elf64_Dyn list option option cpp" where
  "dynamic_entries img =
     (case ElfImage_findFirst kPtDynamic img of
        None \<Rightarrow> Val None
      | Some seg \<Rightarrow>
          if sg_filesz seg mod sizeof_Dyn \<noteq> 0 then Val (Some None)
          else (case (ElfImage_as sizeof_Dyn (sg_offset seg) img, img_data img) of
            (Some off, Some bytes) \<Rightarrow>
              cpp_bind (read_dyns bytes (unat off) (unat (sg_filesz seg div sizeof_Dyn))) (\<lambda>ds.
                Val (Some (Some ds)))
          | _ \<Rightarrow> Val (Some None)))"

definition configure_tls :: "ElfImage \<Rightarrow> Module \<Rightarrow> Module cpp" where
  "configure_tls img md =
     (case ElfImage_findFirst kPtTls img of
        None \<Rightarrow> Val md
      | Some seg \<Rightarrow>
          Module_configureTls
            (case (ElfImage_at (sg_offset seg) img, img_data img) of
               (Some off, Some bytes) \<Rightarrow> Some (drop (unat off) bytes)
             | _ \<Rightarrow> None)
            (sg_filesz seg) (sg_memsz seg) (sg_align seg) md)"

section \<open>Loading\<close>

record ElfLoader =
  el_space :: AddressSpace
  el_registry :: ModuleRegistry
  el_buffers :: "u8 list list"
  el_mem :: memory

text \<open>
  The module and the registry share one object, so the entry point set at the end is visible in
  the registry.
\<close>

definition finish_load :: "string \<Rightarrow> u8 list \<Rightarrow> Module \<Rightarrow> ElfLoader \<Rightarrow> (Module option \<times> ElfLoader) cpp" where
  "finish_load path buffer md l =
     (let l = l\<lparr>el_registry := ModuleRegistry_add path (Some md) (el_registry l)\<rparr>
      in cpp_bind (applyAll (el_registry l) md (el_mem l)) (\<lambda>(ok, stats, mem).
           let l = l\<lparr>el_mem := mem\<rparr>
           in if \<not> ok then Val (None, l)
              else (let md = Module_setEntryPoint (e_entry (img_ehdr (md_image md)) + md_delta md) md
                    in Val (Some md,
                            l\<lparr>el_registry := um_assign path md (el_registry l),
                              el_buffers := el_buffers l @ [buffer]\<rparr>))))"

text \<open>Steps 6 to 10, for a module whose segments are mapped; then the whole operation.\<close>

definition link_module ::
  "(Elf64_Dyn list \<Rightarrow> Module \<Rightarrow> Module) \<Rightarrow> string \<Rightarrow> u8 list \<Rightarrow> ElfImage \<Rightarrow> Module \<Rightarrow> ElfLoader
     \<Rightarrow> (Module option \<times> ElfLoader) cpp" where
  "link_module setDynamics path buffer img md l =
     cpp_bind (dynamic_entries img) (\<lambda>dyns.
       if dyns = Some None then Val (None, l)
       else
         cpp_bind (Module_populateSymbolTable (el_mem l)
           (case dyns of Some (Some ds) \<Rightarrow> setDynamics ds md | _ \<Rightarrow> md)) (\<lambda>md.
         cpp_bind (configure_tls img md) (\<lambda>md. finish_load path buffer md l)))"

definition ElfLoader_load ::
  "(AddressSpace \<Rightarrow> u64 \<Rightarrow> u64 \<Rightarrow> u64) \<Rightarrow> (Elf64_Dyn list \<Rightarrow> Module \<Rightarrow> Module)
     \<Rightarrow> string \<Rightarrow> u8 list option \<Rightarrow> ElfLoader \<Rightarrow> (Module option \<times> ElfLoader) cpp" where
  "ElfLoader_load findFreeRange setDynamics path file l =
     (case ElfReader_readFile file of
        None \<Rightarrow> Val (None, l)
      | Some buffer \<Rightarrow>
          cpp_bind (ElfReader_parse buffer) (\<lambda>(parsed, img).
            let segs = load_segments_of img;
                preferredBase = preferred_base segs;
                actualBase = findFreeRange (el_space l) (image_size preferredBase segs) (image_align segs);
                md = snd (Module_setup path img preferredBase actualBase Module_new)
            in if \<not> parsed \<or> preferredBase = - 1 \<or> actualBase = 0 then Val (None, l)
               else cpp_bind (map_segments path img (actualBase - preferredBase) segs
                                (el_space l, el_mem l, md)) (\<lambda>(mapped, sp, mem, md).
                 let l = l\<lparr>el_space := sp, el_mem := mem\<rparr>
                 in if \<not> mapped then Val (None, l)
                    else link_module setDynamics path buffer img md l)))"

section \<open>Lemmas\<close>

text \<open>What a segment's copy leaves in memory.\<close>

definition segment_bytes :: "u8 list \<Rightarrow> SegmentInfo \<Rightarrow> u8 list" where
  "segment_bytes bytes s =
     take (unat (sg_filesz s)) (drop (unat (sg_offset s)) bytes)
     @ replicate (unat (sg_memsz s) - unat (sg_filesz s)) 0"

lemma copy_segment_Some:
  assumes "copy_segment img s a mem = Val (Some mem')" and "sg_filesz s \<noteq> 0"
  obtains bytes mem1 where "img_data img = Some bytes"
    and "unat (sg_offset s) + unat (sg_filesz s) \<le> length bytes"
    and "store_bytes a (take (unat (sg_filesz s)) (drop (unat (sg_offset s)) bytes)) mem = Val mem1"
    and "store_bytes (a + sg_filesz s) (replicate (unat (sg_memsz s) - unat (sg_filesz s)) 0) mem1 = Val mem'"
proof -
  have tail: "replicate (unat (sg_memsz s) - unat (sg_filesz s)) (0 :: u8) = []"
    if "\<not> sg_filesz s < sg_memsz s" using that by (simp add: word_less_nat_alt)
  have diff: "unat (sg_memsz s - sg_filesz s) = unat (sg_memsz s) - unat (sg_filesz s)"
    if "sg_filesz s < sg_memsz s" using that by (intro unat_sub_no_wrap) simp
  show ?thesis
    using assms that tail diff
    by (auto simp: copy_segment_def ElfImage_at_def read_buffer_def cpp_bind_eq_Val_iff
        split: if_splits option.splits prod.splits)
qed

lemma tail_fits:
  "unat (n :: u64) - unat (f :: u64) < 2 ^ 64" "unat f + (unat n - unat f) \<le> 2 ^ 64"
proof -
  have "unat n < 2 ^ 64" "unat f < 2 ^ 64" using unat_lt_64 [of n] unat_lt_64 [of f] by simp_all
  then show "unat n - unat f < 2 ^ 64" "unat f + (unat n - unat f) \<le> 2 ^ 64" by linarith+
qed

lemma copy_segment_frame:
  assumes "copy_segment img s a mem = Val (Some mem')"
    and "max (unat (sg_filesz s)) (unat (sg_memsz s)) \<le> unat (x - a)"
  shows "mem' x = mem x"
proof (cases "sg_filesz s = 0")
  case True
  with assms show ?thesis by (simp add: copy_segment_def)
next
  case False
  let ?f = "unat (sg_filesz s)" and ?n = "unat (sg_memsz s)"
  obtain bytes mem1 where b: "unat (sg_offset s) + ?f \<le> length bytes"
    and 1: "store_bytes a (take ?f (drop (unat (sg_offset s)) bytes)) mem = Val mem1"
    and 2: "store_bytes (a + sg_filesz s) (replicate (?n - ?f) 0) mem1 = Val mem'"
    by (rule copy_segment_Some [OF assms(1) False])
  have p: "unat (x - a) < 2 ^ 64" using unat_lt_64 [of "x - a"] by simp
  have "mem1 x = mem x"
    by (rule store_bytes_keeps [OF 1]) (use assms(2) b p in \<open>simp_all\<close>)
  moreover have "mem' x = mem1 x"
    using store_bytes_at [of a ?f "replicate (?n - ?f) 0" mem1 mem' "unat (x - a)"] 2 p assms(2)
      tail_fits [of "sg_memsz s" "sg_filesz s"]
    by (auto split: if_splits)
  ultimately show ?thesis by simp
qed

lemma copy_segment_contents:
  assumes "copy_segment img s a mem = Val (Some mem')" and "sg_filesz s \<noteq> 0"
    and "img_data img = Some bytes"
  shows "load_bytes mem' a (length (segment_bytes bytes s)) = Val (segment_bytes bytes s)"
proof -
  let ?f = "unat (sg_filesz s)" and ?n = "unat (sg_memsz s)"
  let ?src = "take ?f (drop (unat (sg_offset s)) bytes)"
  obtain mem1 where b: "unat (sg_offset s) + ?f \<le> length bytes"
    and 1: "store_bytes a ?src mem = Val mem1"
    and 2: "store_bytes (a + sg_filesz s) (replicate (?n - ?f) 0) mem1 = Val mem'"
    using copy_segment_Some [OF assms(1,2)] assms(3) by (metis option.inject)
  have f: "?f < 2 ^ 64" using unat_lt_64 [of "sg_filesz s"] by simp
  have len: "length ?src = ?f" using b by simp
  have r1: "mem1 (a + of_nat p) = Some (?src ! p)" if "p < ?f" for p
  proof -
    have "length ?src < 2 ^ 64" "0 + length ?src \<le> 2 ^ 64" "p < 2 ^ 64"
      unfolding len using f that by linarith+
    from store_bytes_at [OF _ this, of a mem mem1] 1 show ?thesis unfolding len using that by simp
  qed
  have r2: "mem' (a + of_nat p) = (if ?f \<le> p \<and> p < ?f + (?n - ?f) then Some 0 else mem1 (a + of_nat p))"
    if "p < 2 ^ 64" for p
    using store_bytes_at [of a ?f "replicate (?n - ?f) 0" mem1 mem' p] 2 that
      tail_fits [of "sg_memsz s" "sg_filesz s"]
    by (auto split: if_splits)
  have "mem' (a + of_nat p) = Some (segment_bytes bytes s ! p)" if "p < length (segment_bytes bytes s)" for p
  proof -
    have "p < ?f + (?n - ?f)" using that len by (simp add: segment_bytes_def)
    moreover from this tail_fits(2) [where f = "sg_filesz s" and n = "sg_memsz s"]
    have "p < 2 ^ 64" by linarith
    ultimately show ?thesis
      using r1 [of p] r2 [of p] len by (auto simp: segment_bytes_def nth_append)
  qed
  then show ?thesis using load_bytes_at [of "segment_bytes bytes s" mem' a 0] by simp
qed

lemma map_segments_step:
  assumes "map_segments path img delta (s # ss) (sp, mem, md) = Val (True, sp', mem', md')"
  obtains sp1 mem1 where
    "AddressSpace_map sp (sg_vaddr s + delta) (loader_alignUp (sg_memsz s) kPageSize)
       (fromFlags (sg_flags s)) (''seg:'' @ path) = (sg_vaddr s + delta, sp1)"
    and "copy_segment img s (sg_vaddr s + delta) mem = Val (Some mem1)"
    and "map_segments path img delta ss (sp1, mem1, Module_appendSegment (loaded_segment delta s) md)
      = Val (True, sp', mem', md')"
  using assms
  by (auto simp: Let_def cpp_bind_eq_Val_iff split: prod.splits if_splits option.splits)

lemma map_segments_module:
  "map_segments path img delta ss (sp, mem, md) = Val (True, sp', mem', md') \<Longrightarrow>
     md' = md\<lparr>md_segments := md_segments md @ map (loaded_segment delta) ss\<rparr>"
proof (induction ss arbitrary: sp mem md)
  case (Cons s ss)
  show ?case
    by (rule map_segments_step [OF Cons.prems]) (drule Cons.IH, simp add: Module_appendSegment_def)
qed simp

lemma AddressSpace_map_region:
  assumes "AddressSpace_map sp hint n prot name = (w, sp')" and "w \<noteq> 0"
  shows "map (\<lambda>r. (r_base r, r_size r, r_prot r)) (m_regions sp')
    = map (\<lambda>r. (r_base r, r_size r, r_prot r)) (m_regions sp) @ [(w, alignUp n kPageSize, prot)]"
  using assms by (auto simp: AddressSpace_map_def Let_def split: option.splits if_splits)

definition segment_region :: "u64 \<Rightarrow> SegmentInfo \<Rightarrow> u64 \<times> u64 \<times> RegionProt" where
  "segment_region delta s =
     (sg_vaddr s + delta, alignUp (loader_alignUp (sg_memsz s) kPageSize) kPageSize, fromFlags (sg_flags s))"

lemma map_segments_regions:
  "\<lbrakk>map_segments path img delta ss (sp, mem, md) = Val (True, sp', mem', md');
    \<forall>s\<in>set ss. sg_vaddr s + delta \<noteq> 0\<rbrakk> \<Longrightarrow>
   map (\<lambda>r. (r_base r, r_size r, r_prot r)) (m_regions sp')
     = map (\<lambda>r. (r_base r, r_size r, r_prot r)) (m_regions sp) @ map (segment_region delta) ss"
proof (induction ss arbitrary: sp mem md)
  case (Cons s ss)
  obtain sp1 mem1 where 1: "AddressSpace_map sp (sg_vaddr s + delta)
      (loader_alignUp (sg_memsz s) kPageSize) (fromFlags (sg_flags s)) (''seg:'' @ path)
      = (sg_vaddr s + delta, sp1)"
    and 2: "map_segments path img delta ss (sp1, mem1, Module_appendSegment (loaded_segment delta s) md)
      = Val (True, sp', mem', md')"
    by (rule map_segments_step [OF Cons.prems(1)])
  from Cons.IH [OF 2] AddressSpace_map_region [OF 1] Cons.prems(2)
  show ?case by (simp add: segment_region_def)
qed simp

lemma map_segments_frame:
  "\<lbrakk>map_segments path img delta ss (sp, mem, md) = Val (True, sp', mem', md'); mem' x \<noteq> mem x\<rbrakk> \<Longrightarrow>
   \<exists>s\<in>set ss. unat (x - (sg_vaddr s + delta)) < max (unat (sg_filesz s)) (unat (sg_memsz s))"
proof (induction ss arbitrary: sp mem md)
  case (Cons s ss)
  obtain sp1 mem1 where 1: "copy_segment img s (sg_vaddr s + delta) mem = Val (Some mem1)"
    and 2: "map_segments path img delta ss (sp1, mem1, Module_appendSegment (loaded_segment delta s) md)
      = Val (True, sp', mem', md')"
    by (rule map_segments_step [OF Cons.prems(1)])
  show ?case
  proof (cases "mem' x = mem1 x")
    case True
    with Cons.prems(2) copy_segment_frame [OF 1, of x] show ?thesis by (metis list.set_intros(1) not_le)
  next
    case False
    with Cons.IH [OF 2] show ?thesis by auto
  qed
qed simp

text \<open>The stages of a successful load.\<close>

lemma load_mapped:
  assumes "ElfLoader_load ffr sd path file l = Val (Some md, l')"
  obtains buf img base sp mem md1 where "file = Some buf"
    and "ElfReader_parse buf = Val (True, img)"
    and "map_segments path img (base - preferred_base (load_segments_of img)) (load_segments_of img)
           (el_space l, el_mem l, snd (Module_setup path img (preferred_base (load_segments_of img)) base Module_new))
         = Val (True, sp, mem, md1)"
    and "link_module sd path buf img md1 (l\<lparr>el_space := sp, el_mem := mem\<rparr>) = Val (Some md, l')"
proof -
  obtain buf where buf: "ElfReader_readFile file = Some buf"
    using assms by (auto simp: ElfLoader_load_def split: option.splits)
  then have fl: "file = Some buf"
    by (auto simp: ElfReader_readFile_def split: option.splits if_splits)
  obtain ok img where p: "ElfReader_parse buf = Val (ok, img)"
    using assms buf by (cases "ElfReader_parse buf") (auto simp: ElfLoader_load_def)
  let ?segs = "load_segments_of img"
  let ?pb = "preferred_base ?segs"
  let ?base = "ffr (el_space l) (image_size ?pb ?segs) (image_align ?segs)"
  let ?st = "(el_space l, el_mem l, snd (Module_setup path img ?pb ?base Module_new))"
  obtain mapped sp mem md1 where m: "map_segments path img (?base - ?pb) ?segs ?st = Val (mapped, sp, mem, md1)"
    using assms buf p
    by (cases "map_segments path img (?base - ?pb) ?segs ?st")
       (auto simp: ElfLoader_load_def Let_def split: if_splits)
  have r: "ok \<and> mapped \<and> link_module sd path buf img md1 (l\<lparr>el_space := sp, el_mem := mem\<rparr>) = Val (Some md, l')"
    using assms buf p m by (simp add: ElfLoader_load_def Let_def split: if_splits)
  then have "ok" "mapped" and link: "link_module sd path buf img md1 (l\<lparr>el_space := sp, el_mem := mem\<rparr>)
      = Val (Some md, l')" by blast+
  then show ?thesis using that [where base = ?base, OF fl _ _ link] p m by simp
qed

lemma link_module_Some:
  assumes "link_module sd path buf img md1 l = Val (Some md, l')"
  obtains md2 md3 md4 stats where "md2 = md1 \<or> (\<exists>ds. md2 = sd ds md1)"
    and "Module_populateSymbolTable (el_mem l) md2 = Val md3" and "configure_tls img md3 = Val md4"
    and "applyAll (ModuleRegistry_add path (Some md4) (el_registry l)) md4 (el_mem l)
           = Val (True, stats, el_mem l')"
    and "md = md4\<lparr>md_entry := e_entry (img_ehdr (md_image md4)) + md_delta md4\<rparr>"
    and "um_find (el_registry l') path = Some md"
    and "el_space l' = el_space l" and "el_buffers l' = el_buffers l @ [buf]"
proof -
  from assms obtain dyns where d: "dynamic_entries img = Val dyns" "dyns \<noteq> Some None"
    by (auto simp: link_module_def cpp_bind_eq_Val_iff split: if_splits)
  define md2 where "md2 = (case dyns of Some (Some ds) \<Rightarrow> sd ds md1 | _ \<Rightarrow> md1)"
  have md2: "md2 = md1 \<or> (\<exists>ds. md2 = sd ds md1)" by (auto simp: md2_def split: option.splits)
  from assms d obtain md3 md4 where 3: "Module_populateSymbolTable (el_mem l) md2 = Val md3"
    and 4: "configure_tls img md3 = Val md4" and fin: "finish_load path buf md4 l = Val (Some md, l')"
    by (auto simp: link_module_def md2_def cpp_bind_eq_Val_iff)
  from fin obtain ok stats mem where
    5: "applyAll (ModuleRegistry_add path (Some md4) (el_registry l)) md4 (el_mem l) = Val (ok, stats, mem)"
    by (auto simp: finish_load_def Let_def cpp_bind_eq_Val_iff)
  show ?thesis
    by (rule that [OF md2 3 4])
       (use fin 5 in \<open>auto simp: finish_load_def Let_def Module_setEntryPoint_def um_simps split: if_splits\<close>)
qed

lemma populate_fields:
  assumes "Module_populateSymbolTable mem m = Val m'"
  shows "md_segments m' = md_segments m" "md_delta m' = md_delta m" "md_image m' = md_image m"
    "md_actualBase m' = md_actualBase m" "md_preferredBase m' = md_preferredBase m"
  using assms
  by (auto simp: Module_populateSymbolTable_def Let_def cpp_bind_eq_Val_iff split: option.splits)

lemma configure_tls_fields:
  assumes "configure_tls img m = Val m'"
  shows "md_segments m' = md_segments m" "md_delta m' = md_delta m" "md_image m' = md_image m"
    "md_actualBase m' = md_actualBase m" "md_preferredBase m' = md_preferredBase m"
  using assms
  by (auto simp: configure_tls_def Module_configureTls_def cpp_bind_eq_Val_iff split: option.splits)

section \<open>Properties\<close>

text \<open>
  A two-page image (header, program header, one writable segment of the first bytes of the file),
  an arena that is mapped and empty, and an allocator that answers with a fixed range.
\<close>

definition small_ehdr :: Elf64_Ehdr where
  "small_ehdr = tiny_ehdr\<lparr>e_entry := 0x10\<rparr>"

definition small_phdr :: Elf64_Phdr where
  "small_phdr = \<lparr>p_type = 1, p_flags = 6, p_offset = 0, p_vaddr = 0, p_paddr = 0, p_filesz = 4,
     p_memsz = 8, p_align = 0x1000\<rparr>"

definition small_file :: "u8 list" where
  "small_file = encode_Ehdr small_ehdr @ encode_Phdr small_phdr"

definition fresh_loader :: ElfLoader where
  "fresh_loader = \<lparr>el_space = snd (AddressSpace_init os_good AddressSpace_new), el_registry = [],
     el_buffers = [],
     el_mem = (\<lambda>x. if kGuestBase \<le> x \<and> x < kGuestBase + kGuestSize then Some 0 else None)\<rparr>"

definition failing_file :: "u8 list" where
  "failing_file =
     encode_Ehdr (small_ehdr\<lparr>e_phnum := 2\<rparr>)
     @ encode_Phdr (small_phdr\<lparr>p_flags := 4, p_offset := 208, p_filesz := 24, p_memsz := 24\<rparr>)
     @ encode_Phdr (small_phdr\<lparr>p_type := 2, p_offset := 176, p_filesz := 32, p_memsz := 32\<rparr>)
     @ le_bytes 8 (7 :: u64) @ le_bytes 8 (0 :: u64) @ le_bytes 8 (8 :: u64) @ le_bytes 8 (24 :: u64)
     @ le_bytes 8 (0 :: u64) @ le_bytes 8 (8 :: u64) @ le_bytes 8 (0 :: u64)"

definition set_dynamics :: "Elf64_Dyn list \<Rightarrow> Module \<Rightarrow> Module" where
  "set_dynamics ds m = m\<lparr>md_dynamics := ds\<rparr>"

lemma small_file_loads:
  "\<exists>md l'. ElfLoader_load (\<lambda>_ _ _. 0x100000010000) set_dynamics ''eboot'' (Some small_file) fresh_loader
     = Val (Some md, l')"
proof -
  have "case ElfLoader_load (\<lambda>_ _ _. 0x100000010000) set_dynamics ''eboot'' (Some small_file) fresh_loader of
      UB \<Rightarrow> False | Val (r, l') \<Rightarrow> r \<noteq> None" by code_simp
  then show ?thesis by (auto split: cpp.splits)
qed

text \<open>
  C9. What a successful load promises. The returned module is registered under its path and its file
  buffer is kept; its segments are the PT_LOAD segments of the file, shifted by the load delta,
  which is the distance of the actual from the preferred base; its entry point is shifted by the
  same delta; and the address space has gained exactly one region per segment, at the segment's
  address, with its page-rounded size and its protection (unless a segment lands at address 0).
\<close>

theorem load_places_module:
  assumes "ElfLoader_load ffr sd path file l = Val (Some md, l')"
    and "\<forall>ds m. sd ds m = m\<lparr>md_dynamics := ds\<rparr>"
  shows "\<exists>buf img. file = Some buf \<and> ElfReader_parse buf = Val (True, img)
     \<and> md_segments md = map (loaded_segment (md_delta md)) (load_segments_of img)
     \<and> md_delta md = md_actualBase md - md_preferredBase md
     \<and> md_preferredBase md = preferred_base (load_segments_of img)
     \<and> md_entry md = e_entry (img_ehdr img) + md_delta md
     \<and> um_find (el_registry l') path = Some md \<and> el_buffers l' = el_buffers l @ [buf]
     \<and> ((\<forall>s\<in>set (load_segments_of img). sg_vaddr s + md_delta md \<noteq> 0) \<longrightarrow>
          map (\<lambda>r. (r_base r, r_size r, r_prot r)) (m_regions (el_space l'))
            = map (\<lambda>r. (r_base r, r_size r, r_prot r)) (m_regions (el_space l))
              @ map (segment_region (md_delta md)) (load_segments_of img))"
proof -
  obtain buf img base sp mem md1 where b: "file = Some buf" "ElfReader_parse buf = Val (True, img)"
    and m: "map_segments path img (base - preferred_base (load_segments_of img)) (load_segments_of img)
           (el_space l, el_mem l, snd (Module_setup path img (preferred_base (load_segments_of img)) base Module_new))
         = Val (True, sp, mem, md1)"
    and k: "link_module sd path buf img md1 (l\<lparr>el_space := sp, el_mem := mem\<rparr>) = Val (Some md, l')"
    by (rule load_mapped [OF assms(1)])
  obtain md2 md3 md4 where 2: "md2 = md1 \<or> (\<exists>ds. md2 = sd ds md1)"
    and 3: "Module_populateSymbolTable (el_mem (l\<lparr>el_space := sp, el_mem := mem\<rparr>)) md2 = Val md3"
    and 4: "configure_tls img md3 = Val md4"
    and md: "md = md4\<lparr>md_entry := e_entry (img_ehdr (md_image md4)) + md_delta md4\<rparr>"
    and reg: "um_find (el_registry l') path = Some md"
    and l': "el_space l' = el_space (l\<lparr>el_space := sp, el_mem := mem\<rparr>)"
      "el_buffers l' = el_buffers (l\<lparr>el_space := sp, el_mem := mem\<rparr>) @ [buf]"
    by (rule link_module_Some [OF k])
  have fields: "md_segments md2 = md_segments md1" "md_delta md2 = md_delta md1"
    "md_image md2 = md_image md1" "md_actualBase md2 = md_actualBase md1"
    "md_preferredBase md2 = md_preferredBase md1"
    using 2 assms(2) by auto
  note f = map_segments_module [OF m] fields populate_fields [OF 3] configure_tls_fields [OF 4]
  have d: "md_delta md = base - preferred_base (load_segments_of img)" using f md by (simp add: Module_setup_def)
  have "\<forall>s\<in>set (load_segments_of img). sg_vaddr s + (base - preferred_base (load_segments_of img)) \<noteq> 0 \<Longrightarrow>
      map (\<lambda>r. (r_base r, r_size r, r_prot r)) (m_regions sp)
        = map (\<lambda>r. (r_base r, r_size r, r_prot r)) (m_regions (el_space l))
          @ map (segment_region (md_delta md)) (load_segments_of img)"
    unfolding d by (rule map_segments_regions [OF m])
  then show ?thesis using b f md reg l' d by (simp add: Module_setup_def Module_new_def)
qed

theorem load_places_module_witness:
  "\<exists>md l'. ElfLoader_load (\<lambda>_ _ _. 0x100000010000) set_dynamics ''eboot'' (Some small_file) fresh_loader
       = Val (Some md, l')
     \<and> um_find (el_registry l') ''eboot'' = Some md"
proof -
  obtain md l' where l: "ElfLoader_load (\<lambda>_ _ _. 0x100000010000) set_dynamics ''eboot''
      (Some small_file) fresh_loader = Val (Some md, l')"
    using small_file_loads by blast
  have "\<forall>ds m. set_dynamics ds m = m\<lparr>md_dynamics := ds\<rparr>" by (simp add: set_dynamics_def)
  from load_places_module [OF l this] l show ?thesis by blast
qed

text \<open>
  C10. Loading writes only where it should. After a successful load a byte of memory has changed only
  if it lies in the file or memory range of a PT_LOAD segment at its loaded address, or in the
  eight bytes from a writable address of the module on, where a relocation was applied.
\<close>

theorem load_writes_only_segments:
  assumes "ElfLoader_load ffr sd path file l = Val (Some md, l')"
    and "\<forall>ds m. sd ds m = m\<lparr>md_dynamics := ds\<rparr>" and "el_mem l' x \<noteq> el_mem l x"
  shows "(\<exists>s\<in>set (md_segments md). unat (x - ls_vaddr s) < max (unat (ls_filesz s)) (unat (ls_memsz s)))
     \<or> (\<exists>t. isWritableAddress md t \<and> unat (x - t) < 8)"
proof -
  obtain buf img base sp mem md1 where
    m: "map_segments path img (base - preferred_base (load_segments_of img)) (load_segments_of img)
           (el_space l, el_mem l, snd (Module_setup path img (preferred_base (load_segments_of img)) base Module_new))
         = Val (True, sp, mem, md1)"
    and k: "link_module sd path buf img md1 (l\<lparr>el_space := sp, el_mem := mem\<rparr>) = Val (Some md, l')"
    by (rule load_mapped [OF assms(1)])
  obtain md2 md3 md4 stats where 2: "md2 = md1 \<or> (\<exists>ds. md2 = sd ds md1)"
    and 3: "Module_populateSymbolTable (el_mem (l\<lparr>el_space := sp, el_mem := mem\<rparr>)) md2 = Val md3"
    and 4: "configure_tls img md3 = Val md4"
    and a: "applyAll (ModuleRegistry_add path (Some md4) (el_registry (l\<lparr>el_space := sp, el_mem := mem\<rparr>))) md4
        (el_mem (l\<lparr>el_space := sp, el_mem := mem\<rparr>)) = Val (True, stats, el_mem l')"
    and md: "md = md4\<lparr>md_entry := e_entry (img_ehdr (md_image md4)) + md_delta md4\<rparr>"
    by (rule link_module_Some [OF k])
  have segs: "md_segments md = map (loaded_segment (base - preferred_base (load_segments_of img))) (load_segments_of img)"
    using 2 assms(2) map_segments_module [OF m] populate_fields [OF 3] configure_tls_fields [OF 4] md
    by (auto simp: Module_setup_def Module_new_def)
  show ?thesis
  proof (cases "el_mem l' x = mem x")
    case True
    with assms(3) map_segments_frame [OF m, of x] show ?thesis
      by (auto simp: segs loaded_segment_def)
  next
    case False
    with applyAll_frame [OF a, of x] md show ?thesis by (auto simp: isWritableAddress_def window_def)
  qed
qed

theorem load_writes_only_segments_witness:
  "\<exists>md l'. ElfLoader_load (\<lambda>_ _ _. 0x100000010000) set_dynamics ''eboot'' (Some small_file) fresh_loader
       = Val (Some md, l')
     \<and> ((\<exists>s\<in>set (md_segments md).
           unat (0x100000010001 - ls_vaddr s) < max (unat (ls_filesz s)) (unat (ls_memsz s)))
        \<or> (\<exists>t. isWritableAddress md t \<and> unat (0x100000010001 - t) < 8))"
proof -
  let ?run = "ElfLoader_load (\<lambda>_ _ _. 0x100000010000) set_dynamics ''eboot'' (Some small_file) fresh_loader"
  have "case ?run of UB \<Rightarrow> False | Val (r, l') \<Rightarrow>
      r \<noteq> None \<and> el_mem l' 0x100000010001 = Some 0x45 \<and> el_mem fresh_loader 0x100000010001 = Some 0"
    by code_simp
  then obtain md l' where l: "?run = Val (Some md, l')"
    and x: "el_mem l' 0x100000010001 = Some 0x45" "el_mem fresh_loader 0x100000010001 = Some 0"
    by (auto split: cpp.splits)
  have "\<forall>ds m. set_dynamics ds m = m\<lparr>md_dynamics := ds\<rparr>" by (simp add: set_dynamics_def)
  from load_writes_only_segments [OF l this, of "0x100000010001"] x l show ?thesis by simp
qed

text \<open>
  A segment's memory image. Copying a segment with file contents leaves at its address the
  bytes of its file range followed by zeros up to its memory size, and changes nothing else. The
  number of bytes is the file size when that is the larger one: the size that was reserved,
  the memory size, does not limit the copy.
\<close>

theorem segment_contents:
  assumes "copy_segment img s a mem = Val (Some mem')" and "sg_filesz s \<noteq> 0"
    and "img_data img = Some bytes"
  shows "load_bytes mem' a (length (segment_bytes bytes s)) = Val (segment_bytes bytes s)
     \<and> length (segment_bytes bytes s) = max (unat (sg_filesz s)) (unat (sg_memsz s))
     \<and> (\<forall>x. length (segment_bytes bytes s) \<le> unat (x - a) \<longrightarrow> mem' x = mem x)"
proof -
  obtain bytes' where "img_data img = Some bytes'"
    "unat (sg_offset s) + unat (sg_filesz s) \<le> length bytes'"
    using copy_segment_Some [OF assms(1,2)] by metis
  then have len: "length (segment_bytes bytes s) = max (unat (sg_filesz s)) (unat (sg_memsz s))"
    using assms(3) by (simp add: segment_bytes_def)
  with copy_segment_contents [OF assms] copy_segment_frame [OF assms(1)] show ?thesis by simp
qed

theorem segment_contents_witness:
  "\<exists>mem'. copy_segment (ElfImage_empty\<lparr>img_data := Some small_file\<rparr>) (segment_of small_phdr)
       0x100000010000 (el_mem fresh_loader) = Val (Some mem')
     \<and> load_bytes mem' 0x100000010000 8 = Val [0x7F, 0x45, 0x4C, 0x46, 0, 0, 0, 0]"
proof -
  let ?img = "ElfImage_empty\<lparr>img_data := Some small_file\<rparr>" and ?s = "segment_of small_phdr"
  have "case copy_segment ?img ?s 0x100000010000 (el_mem fresh_loader) of
      UB \<Rightarrow> False | Val r \<Rightarrow> r \<noteq> None" by code_simp
  then obtain mem' where c: "copy_segment ?img ?s 0x100000010000 (el_mem fresh_loader) = Val (Some mem')"
    by (auto split: cpp.splits)
  have f: "sg_filesz ?s \<noteq> 0" by (simp add: segment_of_def small_phdr_def)
  have d: "img_data ?img = Some small_file" by simp
  have e: "segment_bytes small_file ?s = [0x7F, 0x45, 0x4C, 0x46, 0, 0, 0, 0]" by code_simp
  have n: "length (segment_bytes small_file ?s) = 8" unfolding e by simp
  from segment_contents [OF c f d, unfolded n, unfolded e] c show ?thesis by blast
qed

text \<open>
  A failed load is not undone. The image below has a relocation table in a read-only segment,
  and its only relocation targets that segment, so \<^verbatim>\<open>load\<close> returns null. Its region stays
  reserved and the module stays registered, so that later loads resolve symbols against it,
  while the file buffer that its image points into is freed.
\<close>

theorem failed_load_leaves_module:
  "case ElfLoader_load (\<lambda>_ _ _. 0x100000010000) set_dynamics ''bad'' (Some failing_file) fresh_loader of
     UB \<Rightarrow> False
   | Val (r, l') \<Rightarrow>
       r = None \<and> um_find (el_registry l') ''bad'' \<noteq> None
       \<and> map r_base (m_regions (el_space l')) = [0x100000010000]
       \<and> m_regions (el_space fresh_loader) = [] \<and> el_buffers l' = []"
  by code_simp

end
