(* ===== verification/Sce_Imports.thy ===== *)
theory Sce_Imports
  imports Module_Registry
begin

text \<open>
  \<^verbatim>\<open>loader/sce/SceImportTable.cpp\<close>: the SCE import chain of a module. Names come from the dynamic
  string table, import tables from the loaded image; both are read from memory.
\<close>

section \<open>Data\<close>

record SceImportsEntry =
  ie_type :: u16
  ie_reserved0 :: u16
  ie_reserved1 :: u32
  ie_nid :: u64
  ie_address :: u64
  ie_reserved2 :: u64

record ImportLibrary =
  il_name :: string
  il_funcImports :: "SceImportsEntry list"
  il_varImports :: "SceImportsEntry list"
  il_tlsImports :: "SceImportsEntry list"

type_synonym ImportSet = "ImportLibrary list"

definition totalFuncs :: "ImportSet \<Rightarrow> nat" where
  "totalFuncs libs = sum_list (map (\<lambda>l. length (il_funcImports l)) libs)"

definition kDtSceImportLib :: u64 where "kDtSceImportLib = 0x61000009"
definition kDtSceImportLibAttr :: u64 where "kDtSceImportLibAttr = 0x6100000B"

definition sizeof_SceImportsEntry :: nat where "sizeof_SceImportsEntry = 32"
definition sizeof_SceImportsTable :: nat where "sizeof_SceImportsTable = 16"

definition decode_import :: "u8 list \<Rightarrow> SceImportsEntry" where
  "decode_import bs =
     \<lparr>ie_type = le_field 0 2 bs, ie_reserved0 = le_field 2 2 bs, ie_reserved1 = le_field 4 4 bs,
      ie_nid = le_field 8 8 bs, ie_address = le_field 16 8 bs, ie_reserved2 = le_field 24 8 bs\<rparr>"

section \<open>Parser\<close>

text \<open>The bounded scan for the terminator, \<open>n\<close> bytes at most.\<close>

fun scan_name :: "memory \<Rightarrow> u64 \<Rightarrow> nat \<Rightarrow> string cpp" where
  "scan_name m a 0 = Val []"
| "scan_name m a (Suc n) =
     (case m a of
        None \<Rightarrow> UB
      | Some b \<Rightarrow> if b = 0 then Val []
                  else cpp_bind (scan_name m (a + 1) n) (\<lambda>s. Val (byte_char b # s)))"

definition read_name :: "memory \<Rightarrow> u64 \<Rightarrow> u64 \<Rightarrow> u64 \<Rightarrow> string cpp" where
  "read_name m strtab strtabSize offset =
     (if strtab = 0 \<or> offset \<ge> strtabSize then Val []
      else scan_name m (strtab + offset) (unat (strtabSize - offset)))"

fun locate_loop :: "u64 \<Rightarrow> Elf64_Dyn list \<Rightarrow> u64 \<times> u64 \<Rightarrow> u64 \<times> u64" where
  "locate_loop delta [] (strtab, strsz) = (strtab, strsz)"
| "locate_loop delta (d # ds) (strtab, strsz) =
     (if d_tag d = kDtStrtab \<or> d_tag d = kDtSceStrtab then locate_loop delta ds (d_val d + delta, strsz)
      else if d_tag d = kDtStrtabSz \<or> d_tag d = kDtSceStrtabSz then locate_loop delta ds (strtab, d_val d)
      else locate_loop delta ds (strtab, strsz))"

definition locateStrtab :: "Elf64_Dyn list \<Rightarrow> u64 \<Rightarrow> u64 \<times> u64" where
  "locateStrtab dynamics delta =
     (case locate_loop delta dynamics (0, 0) of
        (strtab, strsz) \<Rightarrow>
          if strtab \<noteq> 0 then (strtab, if strsz \<noteq> 0 then strsz else 64 * 1024) else (0, 0))"

text \<open>The first loop: names are read as they are met, table addresses are relocated.\<close>

fun collect_imports ::
  "memory \<Rightarrow> u64 \<Rightarrow> u64 \<Rightarrow> u64 \<Rightarrow> Elf64_Dyn list \<Rightarrow> (string list \<times> u64 list) cpp" where
  "collect_imports m strtab strsz delta [] = Val ([], [])"
| "collect_imports m strtab strsz delta (d # ds) =
     (if d_tag d = kDtSceImportLib
      then cpp_bind (read_name m strtab strsz (d_val d)) (\<lambda>n.
             cpp_bind (collect_imports m strtab strsz delta ds) (\<lambda>(ns, ts). Val (n # ns, ts)))
      else if d_tag d = kDtSceImportLibAttr
      then cpp_bind (collect_imports m strtab strsz delta ds) (\<lambda>(ns, ts). Val (ns, (d_val d + delta) # ts))
      else collect_imports m strtab strsz delta ds)"

definition reloc_import :: "u64 \<Rightarrow> SceImportsEntry \<Rightarrow> SceImportsEntry" where
  "reloc_import delta e = e\<lparr>ie_address := ie_address e + delta\<rparr>"

fun read_imports :: "memory \<Rightarrow> u64 \<Rightarrow> u64 \<Rightarrow> nat \<Rightarrow> SceImportsEntry list cpp" where
  "read_imports m delta a 0 = Val []"
| "read_imports m delta a (Suc n) =
     cpp_bind (load_bytes m a sizeof_SceImportsEntry) (\<lambda>bs.
       cpp_bind (read_imports m delta (a + of_nat sizeof_SceImportsEntry) n) (\<lambda>es.
         Val (reloc_import delta (decode_import bs) # es)))"

definition read_library :: "memory \<Rightarrow> u64 \<Rightarrow> string \<Rightarrow> u64 \<Rightarrow> ImportLibrary cpp" where
  "read_library m delta name tbl =
     cpp_bind (load_bytes m tbl 6) (\<lambda>hdr.
       let nf = unat (le_field 0 2 hdr :: u16); nv = unat (le_field 2 2 hdr :: u16);
           nt = unat (le_field 4 2 hdr :: u16);
           entries = (\<lambda>idx. tbl + of_nat (sizeof_SceImportsTable + idx * sizeof_SceImportsEntry))
       in cpp_bind (read_imports m delta (entries 0) nf) (\<lambda>fs.
            cpp_bind (read_imports m delta (entries nf) nv) (\<lambda>vs.
              cpp_bind (read_imports m delta (entries (nf + nv)) nt) (\<lambda>ts.
                Val \<lparr>il_name = name, il_funcImports = fs, il_varImports = vs, il_tlsImports = ts\<rparr>))))"

text \<open>The second loop; a null table is skipped with a warning.\<close>

fun read_libraries :: "memory \<Rightarrow> u64 \<Rightarrow> (string \<times> u64) list \<Rightarrow> ImportSet cpp" where
  "read_libraries m delta [] = Val []"
| "read_libraries m delta ((name, tbl) # ps) =
     (if tbl = 0 then read_libraries m delta ps
      else cpp_bind (read_library m delta name tbl) (\<lambda>l.
             cpp_bind (read_libraries m delta ps) (\<lambda>ls. Val (l # ls))))"

definition SceImportParser_parse ::
  "memory \<Rightarrow> u64 \<Rightarrow> Elf64_Dyn list \<Rightarrow> (bool \<times> ImportSet) cpp" where
  "SceImportParser_parse m delta dynamics =
     (case locateStrtab dynamics delta of
        (strtab, strsz) \<Rightarrow>
          if strtab = 0 then Val (True, [])
          else cpp_bind (collect_imports m strtab strsz delta dynamics) (\<lambda>(names, tables).
            if length names \<noteq> length tables then Val (False, [])
            else cpp_bind (read_libraries m delta (zip names tables)) (\<lambda>libs. Val (True, libs))))"

section \<open>The format\<close>

definition encode_import :: "SceImportsEntry \<Rightarrow> u8 list" where
  "encode_import e =
     le_bytes 2 (ie_type e) @ le_bytes 2 (ie_reserved0 e) @ le_bytes 4 (ie_reserved1 e)
     @ le_bytes 8 (ie_nid e) @ le_bytes 8 (ie_address e) @ le_bytes 8 (ie_reserved2 e)"

text \<open>A table: the three counts, the two reserved fields, the entries of the three kinds in order.\<close>

definition encode_library :: "ImportLibrary \<Rightarrow> u8 list" where
  "encode_library l =
     le_bytes 2 (of_nat (length (il_funcImports l)) :: u16)
     @ le_bytes 2 (of_nat (length (il_varImports l)) :: u16)
     @ le_bytes 2 (of_nat (length (il_tlsImports l)) :: u16)
     @ replicate 10 0
     @ concat (map encode_import (il_funcImports l @ il_varImports l @ il_tlsImports l))"

definition library_ok :: "ImportLibrary \<Rightarrow> bool" where
  "library_ok l \<longleftrightarrow>
     length (il_funcImports l) < 2 ^ 16 \<and> length (il_varImports l) < 2 ^ 16
     \<and> length (il_tlsImports l) < 2 ^ 16"

text \<open>
  The image of one library in memory: its terminated name inside the string table, and its
  table at a non-null address.
\<close>

definition name_in_memory :: "memory \<Rightarrow> u64 \<Rightarrow> u64 \<Rightarrow> u64 \<Rightarrow> string \<Rightarrow> bool" where
  "name_in_memory m strtab strsz off s \<longleftrightarrow>
     0 \<notin> set (map char_byte s) \<and> unat off + length s < unat strsz
     \<and> load_bytes m (strtab + off) (length s + 1) = Val (map char_byte s @ [0])"

definition table_in_memory :: "memory \<Rightarrow> u64 \<Rightarrow> u64 \<Rightarrow> ImportLibrary \<Rightarrow> bool" where
  "table_in_memory m delta tbl l \<longleftrightarrow>
     library_ok l \<and> tbl + delta \<noteq> 0
     \<and> load_bytes m (tbl + delta) (length (encode_library l)) = Val (encode_library l)"

definition relocate_library :: "u64 \<Rightarrow> ImportLibrary \<Rightarrow> ImportLibrary" where
  "relocate_library delta l =
     l\<lparr>il_funcImports := map (reloc_import delta) (il_funcImports l),
       il_varImports := map (reloc_import delta) (il_varImports l),
       il_tlsImports := map (reloc_import delta) (il_tlsImports l)\<rparr>"

definition dyn_values :: "u64 \<Rightarrow> Elf64_Dyn list \<Rightarrow> u64 list" where
  "dyn_values tag ds = map d_val (filter (\<lambda>d. d_tag d = tag) ds)"

section \<open>Lemmas\<close>

lemma length_encode_import [simp]: "length (encode_import e) = 32"
  by (simp add: encode_import_def)

lemma decode_encode_import: "decode_import (encode_import e) = e"
proof -
  have "le_field 0 2 (encode_import e) = ie_type e" "le_field 2 2 (encode_import e) = ie_reserved0 e"
    "le_field 4 4 (encode_import e) = ie_reserved1 e" "le_field 8 8 (encode_import e) = ie_nid e"
    "le_field 16 8 (encode_import e) = ie_address e" "le_field 24 8 (encode_import e) = ie_reserved2 e"
    by (rule le_field_le_bytes; simp add: encode_import_def)+
  then show ?thesis by (simp add: decode_import_def)
qed

lemma scan_name_bytes:
  "load_bytes m a (length s + 1) = Val (map char_byte s @ [0]) \<Longrightarrow> 0 \<notin> set (map char_byte s)
     \<Longrightarrow> length s < n \<Longrightarrow> scan_name m a n = Val s"
proof (induction s arbitrary: a n)
  case Nil
  then show ?case by (cases n) (auto split: option.splits)
next
  case (Cons c s)
  from Cons.prems obtain k where n: "n = Suc k" "length s < k" by (cases n) auto
  from Cons.prems(1) have "m a = Some (char_byte c)"
    "load_bytes m (a + 1) (length s + 1) = Val (map char_byte s @ [0])"
    by (auto simp: cpp_bind_eq_Val_iff split: option.splits)
  with Cons n show ?case by (simp add: byte_char_char_byte)
qed

lemma load_bytes_append:
  "load_bytes m a (k + n) = Val (xs @ ys) \<Longrightarrow> length xs = k
     \<Longrightarrow> load_bytes m a k = Val xs \<and> load_bytes m (a + of_nat k) n = Val ys"
proof (induction k arbitrary: a xs)
  case (Suc k)
  then obtain x xs' where "xs = x # xs'" by (cases xs) auto
  with Suc show ?case
    by (auto simp: cpp_bind_eq_Val_iff simp flip: add.assoc split: option.splits)
qed simp

lemma read_imports_encoded:
  "load_bytes m a (32 * length es) = Val (concat (map encode_import es))
     \<Longrightarrow> read_imports m delta a (length es) = Val (map (reloc_import delta) es)"
proof (induction es arbitrary: a)
  case (Cons e es)
  have "load_bytes m a 32 = Val (encode_import e)
      \<and> load_bytes m (a + 32) (32 * length es) = Val (concat (map encode_import es))"
    using load_bytes_append [of m a 32 "32 * length es" "encode_import e"] Cons.prems by simp
  with Cons.IH show ?case by (simp add: sizeof_SceImportsEntry_def decode_encode_import)
qed simp

lemma length_encoded [simp]: "length (concat (map encode_import es)) = 32 * length es"
  by (induction es) simp_all

lemma count_field:
  "n < 2 ^ 16 \<Longrightarrow> take 2 (drop off bs) = le_bytes 2 (of_nat n :: u16) \<Longrightarrow> unat (le_field off 2 bs :: u16) = n"
  by (subst le_field_le_bytes [of 2 off bs "of_nat n"])
    (simp_all add: unat_of_nat take_bit_nat_eq_self)

lemma read_library_encoded:
  assumes "library_ok l" and "load_bytes m tbl (length (encode_library l)) = Val (encode_library l)"
  shows "read_library m delta (il_name l) tbl = Val (relocate_library delta l)"
proof -
  let ?f = "il_funcImports l" and ?v = "il_varImports l" and ?t = "il_tlsImports l"
  define hdr where "hdr = le_bytes 2 (of_nat (length ?f) :: u16) @ le_bytes 2 (of_nat (length ?v) :: u16)
      @ le_bytes 2 (of_nat (length ?t) :: u16)"
  let ?es = "\<lambda>es. concat (map encode_import es)"
  have enc: "encode_library l = hdr @ replicate 10 0 @ ?es ?f @ ?es ?v @ ?es ?t"
    by (simp add: encode_library_def hdr_def)
  have len: "length hdr = 6" by (simp add: hdr_def)
  have h: "load_bytes m tbl 6 = Val hdr"
    and r1: "load_bytes m (tbl + 6) (10 + 32 * (length ?f + length ?v + length ?t))
        = Val (replicate 10 0 @ ?es ?f @ ?es ?v @ ?es ?t)"
    using load_bytes_append [of m tbl 6 "10 + 32 * (length ?f + length ?v + length ?t)" hdr] assms(2) len
    by (simp_all add: enc algebra_simps)
  have r2: "load_bytes m (tbl + 16) (32 * length ?f + (32 * length ?v + 32 * length ?t))
        = Val (?es ?f @ ?es ?v @ ?es ?t)"
    using load_bytes_append [of m "tbl + 6" 10, OF _ length_replicate, of _ "0"] r1
    by (simp add: algebra_simps)
  have f: "load_bytes m (tbl + 16) (32 * length ?f) = Val (?es ?f)"
    and r3: "load_bytes m (tbl + of_nat (16 + length ?f * 32)) (32 * length ?v + 32 * length ?t)
        = Val (?es ?v @ ?es ?t)"
    using load_bytes_append [OF r2] by (simp_all add: algebra_simps)
  have v: "load_bytes m (tbl + of_nat (16 + length ?f * 32)) (32 * length ?v) = Val (?es ?v)"
    and t: "load_bytes m (tbl + of_nat (16 + (length ?f + length ?v) * 32)) (32 * length ?t) = Val (?es ?t)"
    using load_bytes_append [OF r3] by (simp_all add: algebra_simps)
  have n: "unat (le_field 0 2 hdr :: u16) = length ?f" "unat (le_field 2 2 hdr :: u16) = length ?v"
    "unat (le_field 4 2 hdr :: u16) = length ?t"
    using assms(1) by (auto simp: library_ok_def hdr_def intro!: count_field)
  show ?thesis
    using read_imports_encoded [OF f, of delta] read_imports_encoded [OF v, of delta]
      read_imports_encoded [OF t, of delta]
    unfolding read_library_def h cpp_bind_Val Let_def n sizeof_SceImportsTable_def
      sizeof_SceImportsEntry_def
    by (simp add: relocate_library_def)
qed

lemma collect_imports_names:
  assumes "list_all2 (\<lambda>off n. read_name m strtab strsz off = Val n) (dyn_values kDtSceImportLib ds) ns"
  shows "collect_imports m strtab strsz delta ds
    = Val (ns, map (\<lambda>t. t + delta) (dyn_values kDtSceImportLibAttr ds))"
  using assms
proof (induction ds arbitrary: ns)
  case (Cons d ds)
  then show ?case
    by (cases "d_tag d = kDtSceImportLib"; cases "d_tag d = kDtSceImportLibAttr")
      (auto simp: dyn_values_def list_all2_Cons1 kDtSceImportLib_def kDtSceImportLibAttr_def)
qed (simp add: dyn_values_def)

lemma read_libraries_encoded:
  "list_all2 (table_in_memory m delta) tbls libs
     \<Longrightarrow> read_libraries m delta (zip (map il_name libs) (map (\<lambda>t. t + delta) tbls))
         = Val (map (relocate_library delta) libs)"
proof (induction libs arbitrary: tbls)
  case (Cons l libs)
  then obtain tbl tbls' where t: "tbls = tbl # tbls'" by (cases tbls) auto
  with Cons.prems have "table_in_memory m delta tbl l" "list_all2 (table_in_memory m delta) tbls' libs"
    by simp_all
  then have "read_library m delta (il_name l) (tbl + delta) = Val (relocate_library delta l)"
    "tbl + delta \<noteq> 0"
    "read_libraries m delta (zip (map il_name libs) (map (\<lambda>t. t + delta) tbls'))
       = Val (map (relocate_library delta) libs)"
    using Cons.IH [of tbls'] read_library_encoded unfolding table_in_memory_def by blast+
  then show ?case by (simp add: t)
qed simp

lemma read_name_in_memory:
  assumes "name_in_memory m strtab strsz off s" and "strtab \<noteq> 0"
  shows "read_name m strtab strsz off = Val s"
proof -
  from assms(1) have o: "unat off + length s < unat strsz"
    and b: "load_bytes m (strtab + off) (length s + 1) = Val (map char_byte s @ [0])"
    and z: "0 \<notin> set (map char_byte s)"
    unfolding name_in_memory_def by blast+
  have "unat (strsz - off) = unat strsz - unat off" using o by (intro unat_sub_no_wrap) (simp add: word_le_unat)
  then have "length s < unat (strsz - off)" using o by linarith
  from scan_name_bytes [OF b z this] have "scan_name m (strtab + off) (unat (strsz - off)) = Val s" .
  moreover have "\<not> off \<ge> strsz" using o by (simp add: word_le_unat)
  ultimately show ?thesis using assms(2) by (simp add: read_name_def)
qed

lemma collect_imports_in_memory:
  assumes "list_all2 (name_in_memory m strtab strsz) (dyn_values kDtSceImportLib ds) ns" and "strtab \<noteq> 0"
  shows "collect_imports m strtab strsz delta ds
    = Val (ns, map (\<lambda>t. t + delta) (dyn_values kDtSceImportLibAttr ds))"
  by (rule collect_imports_names, rule list_all2_mono [OF assms(1)])
    (rule read_name_in_memory [OF _ assms(2)])

text \<open>A chain whose names and tables do not pair up is refused.\<close>

lemma imports_refused:
  assumes "locateStrtab ds delta = (strtab, strsz)" and "strtab \<noteq> 0"
    and "list_all2 (name_in_memory m strtab strsz) (dyn_values kDtSceImportLib ds) ns"
    and "length (dyn_values kDtSceImportLib ds) \<noteq> length (dyn_values kDtSceImportLibAttr ds)"
  shows "SceImportParser_parse m delta ds = Val (False, [])"
  using collect_imports_in_memory [OF assms(3,2)] assms list_all2_lengthD [OF assms(3)]
  by (simp add: SceImportParser_parse_def)

section \<open>Properties\<close>

text \<open>
  The import chain is read as it was written: when memory holds the names and the import tables
  that the module's dynamic entries point to, the parser returns one library for each pair, in order,
  with its name and all its function, variable and TLS imports, each slot address moved by the load
  delta. The result depends on nothing else in memory, and the parse stays defined.
\<close>

theorem imports_parsed:
  assumes "locateStrtab ds delta = (strtab, strsz)" and "strtab \<noteq> 0"
    and "list_all2 (name_in_memory m strtab strsz) (dyn_values kDtSceImportLib ds) (map il_name libs)"
    and "list_all2 (table_in_memory m delta) (dyn_values kDtSceImportLibAttr ds) libs"
  shows "SceImportParser_parse m delta ds = Val (True, map (relocate_library delta) libs)"
  using collect_imports_in_memory [OF assms(3,2)] read_libraries_encoded [OF assms(4)] assms(1,2)
    list_all2_lengthD [OF assms(4)]
  by (simp add: SceImportParser_parse_def)

definition sample_import :: ImportLibrary where
  "sample_import =
     \<lparr>il_name = ''c'',
      il_funcImports = [\<lparr>ie_type = 1, ie_reserved0 = 0, ie_reserved1 = 0, ie_nid = 0x77,
                         ie_address = 0x40, ie_reserved2 = 0\<rparr>],
      il_varImports = [], il_tlsImports = []\<rparr>"

definition sample_image :: "u8 list" where
  "sample_image = [0, 0, 0x63, 0] @ encode_library sample_import"

definition sample_dynamics :: "Elf64_Dyn list" where
  "sample_dynamics =
     [\<lparr>d_tag = kDtStrtab, d_val = 0\<rparr>, \<lparr>d_tag = kDtStrtabSz, d_val = 4\<rparr>,
      \<lparr>d_tag = kDtSceImportLib, d_val = 2\<rparr>, \<lparr>d_tag = kDtSceImportLibAttr, d_val = 4\<rparr>]"

definition sample_memory :: memory where
  "sample_memory a =
     (if unat (a - 0x1000) < length sample_image then Some (sample_image ! unat (a - 0x1000)) else None)"

lemma sample_load:
  assumes "k + n \<le> length sample_image"
  shows "load_bytes sample_memory (0x1000 + of_nat k) n = Val (take n (drop k sample_image))"
proof -
  have l: "length sample_image = 52" by (simp add: sample_image_def encode_library_def sample_import_def)
  have "sample_memory (0x1000 + of_nat k + of_nat i) = Some (sample_image ! (k + i))" if "i < n" for i
  proof -
    have "unat (of_nat (k + i) :: u64) = k + i"
      using that assms l by (simp add: unat_of_nat take_bit_nat_eq_self del: of_nat_add)
    then show ?thesis using that assms by (simp add: sample_memory_def)
  qed
  with assms show ?thesis unfolding load_bytes_eq_Val by simp
qed

theorem imports_parsed_witness:
  "SceImportParser_parse sample_memory 0x1000 sample_dynamics = Val (True, [relocate_library 0x1000 sample_import])"
proof -
  have d: "dyn_values kDtSceImportLib sample_dynamics = [2]" "dyn_values kDtSceImportLibAttr sample_dynamics = [4]"
    "locateStrtab sample_dynamics 0x1000 = (0x1000, 4)"
    by (simp_all add: dyn_values_def sample_dynamics_def locateStrtab_def kDtStrtab_def kDtStrtabSz_def
        kDtSceStrtab_def kDtSceStrtabSz_def kDtSceImportLib_def kDtSceImportLibAttr_def)
  have l: "length sample_image = 52" "length (encode_library sample_import) = 48"
    by (simp_all add: sample_image_def encode_library_def sample_import_def)
  have n: "name_in_memory sample_memory 0x1000 4 2 ''c''"
    using sample_load [of 2 2] l
    by (simp add: name_in_memory_def sample_image_def char_byte_def numeral_2_eq_2 [symmetric]
        del: load_bytes.simps)
  have t: "table_in_memory sample_memory 0x1000 4 sample_import"
  proof -
    have "library_ok sample_import" by (simp add: library_ok_def sample_import_def)
    moreover have "(4 :: u64) + 0x1000 \<noteq> 0" by simp
    moreover have "load_bytes sample_memory (4 + 0x1000) 48 = Val (encode_library sample_import)"
      using sample_load [of 4 48] l by (simp add: sample_image_def)
    ultimately show ?thesis unfolding table_in_memory_def l by blast
  qed
  show ?thesis
    using imports_parsed [OF d(3), of sample_memory "[sample_import]"] d n t
    by (simp add: sample_import_def)
qed

end
