(* ===== verification/Trampolines.thy ===== *)
theory Trampolines
  imports Trap_Gate
begin

text \<open>
  \<^verbatim>\<open>loader/trampolines/SceTrampolineEmitter.cpp\<close>: the code stubs the loader writes into a page of the
  guest for imported SCE functions, and what the processor does when the guest runs one of
  them up to its \<^verbatim>\<open>syscall\<close> instruction.
\<close>

unbundle bit_operations_syntax

section \<open>The emitter\<close>

definition kSlotStride :: nat where "kSlotStride = 16"
definition kSlotsPerPage :: nat where "kSlotsPerPage = 4096 div kSlotStride"

text \<open>The page is filled with \<^verbatim>\<open>int3\<close> once it is mapped; address 0 is the failure.\<close>

definition reservePage :: "AddressSpace \<Rightarrow> memory \<Rightarrow> (u64 \<times> AddressSpace \<times> memory) cpp" where
  "reservePage as m =
     (case AddressSpace_map as 0 4096 (ProtRead OR ProtExecute) ''sce-trampolines'' of
        (base, as') \<Rightarrow>
          if base = 0 then Val (0, as', m)
          else cpp_bind (store_bytes base (replicate 4096 0xCC) m) (\<lambda>m'. Val (base, as', m')))"

definition trampoline_code :: "u32 \<Rightarrow> u8 list" where
  "trampoline_code sceId =
     [0x49, 0x89, 0xCA] @ [0xB8] @ le_bytes 4 (kSceCallBase OR (sceId AND kSceCallMask))
     @ [0x0F, 0x05] @ [0xC3]"

definition emit :: "u64 \<Rightarrow> nat \<Rightarrow> u32 \<Rightarrow> memory \<Rightarrow> (u64 \<times> memory) cpp" where
  "emit pageBase idx sceId m =
     (if pageBase = 0 \<or> idx \<ge> kSlotsPerPage then Val (0, m)
      else (let p = pageBase + of_nat (idx * kSlotStride)
            in cpp_bind (store_bytes p (trampoline_code sceId) m) (\<lambda>m'. Val (p, m'))))"

definition emitVariable :: "u64 \<Rightarrow> nat \<Rightarrow> u32 \<Rightarrow> memory \<Rightarrow> (u64 \<times> memory) cpp" where
  "emitVariable pageBase idx sceVarId m =
     (if pageBase = 0 \<or> idx \<ge> kSlotsPerPage then Val (0, m)
      else (let p = pageBase + of_nat (idx * kSlotStride)
            in cpp_bind (store_bytes p ([0xB8] @ le_bytes 4 sceVarId @ [0xC3]
                           @ replicate (kSlotStride - 6) 0xCC) m)
                 (\<lambda>m'. Val (p, m'))))"

section \<open>The processor\<close>

text \<open>
  The four instructions of a trampoline, as the AMD64 manual encodes them. \<^verbatim>\<open>mov eax, imm32\<close> clears
  the upper half of RAX. \<open>run_to_syscall\<close> runs until a \<^verbatim>\<open>syscall\<close> instruction is about to trap;
  \<open>None\<close> is a fault, another instruction, or the end of the fuel.
\<close>

record cpu =
  cpu_rip :: u64
  cpu_rcx :: u64
  cpu_regs :: TrapRegisters

fun run_to_syscall :: "nat \<Rightarrow> memory \<Rightarrow> cpu \<Rightarrow> cpu option" where
  "run_to_syscall 0 m c = None"
| "run_to_syscall (Suc n) m c =
     (if load_bytes m (cpu_rip c) 3 = Val [0x49, 0x89, 0xCA]
      then run_to_syscall n m (c\<lparr>cpu_rip := cpu_rip c + 3,
                                 cpu_regs := (cpu_regs c)\<lparr>REG_R10 := cpu_rcx c\<rparr>\<rparr>)
      else if load_bytes m (cpu_rip c) 2 = Val [0x0F, 0x05] then Some c
      else (case load_bytes m (cpu_rip c) 5 of
              Val (b # imm) \<Rightarrow>
                if b = 0xB8
                then run_to_syscall n m (c\<lparr>cpu_rip := cpu_rip c + 5,
                       cpu_regs := (cpu_regs c)\<lparr>REG_RAX := le_field 0 4 imm\<rparr>\<rparr>)
                else None
            | _ \<Rightarrow> None))"

section \<open>Lemmas\<close>

lemma length_trampoline_code [simp]: "length (trampoline_code i) = 11"
  by (simp add: trampoline_code_def)

lemma le_field_u64: "le_field 0 4 (le_bytes 4 (w :: u32)) = (ucast w :: u64)"
proof -
  have "unat w mod 256 ^ 4 = unat w" by simp
  then show ?thesis by (simp add: le_field_def le_value_le_bytes)
qed

lemma load_code:
  assumes "load_bytes m a 11 = Val (trampoline_code i)" and "k + n \<le> 11"
  shows "load_bytes m (a + of_nat k) n = Val (take n (drop k (trampoline_code i)))"
proof -
  have "m (a + of_nat (k + j)) = Some (trampoline_code i ! (k + j))" if "j < n" for j
  proof -
    from that assms(2) have "k + j < 11" by simp
    with assms(1) show ?thesis unfolding load_bytes_eq_Val by blast
  qed
  then show ?thesis using assms(2) unfolding load_bytes_eq_Val by (simp add: add.assoc)
qed

lemma run_trampoline:
  assumes "load_bytes m a 11 = Val (trampoline_code i)"
  shows "run_to_syscall 3 m \<lparr>cpu_rip = a, cpu_rcx = rcx, cpu_regs = r\<rparr>
    = Some \<lparr>cpu_rip = a + 8, cpu_rcx = rcx, cpu_regs = r\<lparr>REG_R10 := rcx, REG_RAX := makeSceCall i\<rparr>\<rparr>"
proof -
  let ?imm = "le_bytes 4 (kSceCallBase OR (i AND kSceCallMask))"
  have len: "length ?imm = 4" by simp
  then obtain i0 i1 i2 i3 where imm: "?imm = [i0, i1, i2, i3]"
    by (auto simp: length_Suc_conv numeral_eq_Suc simp del: length_le_bytes)
  have code: "trampoline_code i = [0x49, 0x89, 0xCA, 0xB8, i0, i1, i2, i3, 0x0F, 0x05, 0xC3]"
    unfolding trampoline_code_def imm by simp
  note at = load_code [OF assms, unfolded code]
  have 0: "load_bytes m a 3 = Val [0x49, 0x89, 0xCA]" using at [of 0 3] by simp
  have 1: "load_bytes m (a + 3) 3 = Val [0xB8, i0, i1]" "load_bytes m (a + 3) 2 = Val [0xB8, i0]"
    "load_bytes m (a + 3) 5 = Val (0xB8 # ?imm)"
    unfolding imm using at [of 3 3] at [of 3 2] at [of 3 5] by simp_all
  have 2: "load_bytes m (a + 8) 3 = Val [0x0F, 0x05, 0xC3]" "load_bytes m (a + 8) 2 = Val [0x0F, 0x05]"
    using at [of 8 3] at [of 8 2] by simp_all
  have "run_to_syscall (Suc (Suc (Suc 0))) m \<lparr>cpu_rip = a, cpu_rcx = rcx, cpu_regs = r\<rparr>
    = Some \<lparr>cpu_rip = a + 8, cpu_rcx = rcx, cpu_regs = r\<lparr>REG_R10 := rcx, REG_RAX := makeSceCall i\<rparr>\<rparr>"
    by (simp add: 0 1 2 add.assoc le_field_u64 makeSceCall_def)
  then show ?thesis by (simp only: numeral_3_eq_3)
qed

lemma emit_ok:
  assumes "base \<noteq> 0" and "idx < kSlotsPerPage" and "\<And>k. k < 4096 \<Longrightarrow> m (base + of_nat k) \<noteq> None"
  obtains m' where "emit base idx i m = Val (base + of_nat (16 * idx), m')"
    and "load_bytes m' (base + of_nat (16 * idx)) 11 = Val (trampoline_code i)"
    and "\<And>k. k < 4096 \<Longrightarrow> m' (base + of_nat k)
          = (if 16 * idx \<le> k \<and> k < 16 * idx + 11 then Some (trampoline_code i ! (k - 16 * idx))
             else m (base + of_nat k))"
proof -
  have s: "idx < 256" using assms(2) by (simp add: kSlotsPerPage_def kSlotStride_def)
  obtain m' where m': "store_bytes (base + of_nat (16 * idx)) (trampoline_code i) m = Val m'"
    by (rule store_bytes_total_at [of "16 * idx" "trampoline_code i" m base]) (use assms(3) s in auto)
  show ?thesis
  proof (rule that)
    show "emit base idx i m = Val (base + of_nat (16 * idx), m')"
      using assms(1,2) m' by (simp add: emit_def Let_def kSlotStride_def ac_simps)
    show "load_bytes m' (base + of_nat (16 * idx)) 11 = Val (trampoline_code i)"
      using load_store_bytes [OF m'] by simp
    show "m' (base + of_nat k) = (if 16 * idx \<le> k \<and> k < 16 * idx + 11
        then Some (trampoline_code i ! (k - 16 * idx)) else m (base + of_nat k))" if "k < 4096" for k
      using store_bytes_at [OF m', of k] that s by simp
  qed
qed

section \<open>Properties\<close>

text \<open>
  C28. The whole path of an imported function: a trampoline written for the id of a registered
  SCE function (whatever order the table of ids is iterated in to find it), when the guest calls it, traps with a request that is recognised as an SCE call, whose id
  resolves to the address of that function, and whose arguments are the six registers of the C calling convention
  (RCX, which \<^verbatim>\<open>syscall\<close> destroys, travels in R10). Writing it changes no byte of
  another trampoline of the page.
\<close>

theorem trampoline_names_stub:
  assumes "length rs < 0x0FFFFFFF" and "resolveSymbol (register_stubs rs) q = Some fn"
    and "base \<noteq> 0" and "idx < kSlotsPerPage" and "\<And>k. k < 4096 \<Longrightarrow> m (base + of_nat k) \<noteq> None"
    and "iterates order"
  shows "\<exists>addr m' c. emit base idx (getOrAssignId order (register_stubs rs) q) m = Val (addr, m')
     \<and> addr = base + of_nat (16 * idx)
     \<and> run_to_syscall 3 m' \<lparr>cpu_rip = addr, cpu_rcx = rcx, cpu_regs = r\<rparr> = Some c
     \<and> (let rq = sigsys_request tid (cpu_regs c)
        in rq_kind rq = 1
           \<and> resolveById (register_stubs rs) (sceCallId (rq_number rq)) = Some fn
           \<and> rq_args rq = [REG_RDI r, REG_RSI r, REG_RDX r, rcx, REG_R8 r, REG_R9 r])
     \<and> (\<forall>j k. j \<noteq> idx \<longrightarrow> k < 16 \<longrightarrow> 16 * j + k < 4096 \<longrightarrow>
          m' (base + of_nat (16 * j + k)) = m (base + of_nat (16 * j + k)))"
proof -
  let ?i = "getOrAssignId order (register_stubs rs) q"
  obtain m' where m': "emit base idx ?i m = Val (base + of_nat (16 * idx), m')"
    "load_bytes m' (base + of_nat (16 * idx)) 11 = Val (trampoline_code ?i)"
    "\<And>k. k < 4096 \<Longrightarrow> m' (base + of_nat k)
       = (if 16 * idx \<le> k \<and> k < 16 * idx + 11 then Some (trampoline_code ?i ! (k - 16 * idx))
          else m (base + of_nat k))"
    by (rule emit_ok [of base idx m ?i]) (use assms(3-5) in auto)
  let ?regs = "r\<lparr>REG_R10 := rcx, REG_RAX := makeSceCall ?i\<rparr>"
  have i: "unat ?i < 2 ^ 28" "resolveById (register_stubs rs) ?i = Some fn"
    using registered_id [OF assms(1,2,6)] by blast+
  have "rq_kind (sigsys_request tid ?regs) = 1"
    "resolveById (register_stubs rs) (sceCallId (rq_number (sigsys_request tid ?regs))) = Some fn"
    "rq_args (sigsys_request tid ?regs) = [REG_RDI r, REG_RSI r, REG_RDX r, rcx, REG_R8 r, REG_R9 r]"
    using sce_call_masks [of ?i] and_sce_mask [OF i(1)] i(2)
    by (simp_all add: sigsys_request_def regs_arg_def)
  moreover have "m' (base + of_nat (16 * j + k)) = m (base + of_nat (16 * j + k))"
    if "j \<noteq> idx" "k < 16" "16 * j + k < 4096" for j k
  proof -
    have "\<not> (16 * idx \<le> 16 * j + k \<and> 16 * j + k < 16 * idx + 11)" using that(1,2) by presburger
    with m'(3) [OF that(3)] show ?thesis by (simp only: if_False)
  qed
  ultimately show ?thesis
    using m'(1) run_trampoline [OF m'(2)] by (simp add: Let_def)
qed

theorem trampoline_names_stub_witness:
  "\<exists>addr m' c. emit 0x100000010000 3
       (getOrAssignId rev (register_stubs [(''libSceNet'', ''sceNetInit'', 0x2000)]) ''libSceNet::sceNetInit'')
       (\<lambda>_. Some 0xCC) = Val (addr, m')
     \<and> addr = 0x100000010030
     \<and> run_to_syscall 3 m' \<lparr>cpu_rip = addr, cpu_rcx = 7,
          cpu_regs = \<lparr>REG_RAX = 0, REG_RDI = 1, REG_RSI = 2, REG_RDX = 3, REG_R10 = 4, REG_R8 = 5,
                      REG_R9 = 6, REG_EFL = 0x246\<rparr>\<rparr> = Some c
     \<and> rq_args (sigsys_request 1 (cpu_regs c)) = [1, 2, 3, 7, 5, 6]"
proof -
  let ?rs = "[(''libSceNet'', ''sceNetInit'', 0x2000)] :: stub_registration list"
  have r: "resolveSymbol (register_stubs ?rs) ''libSceNet::sceNetInit'' = Some 0x2000"
    by (simp add: register_stubs_def registerStub_def SceStubTable_new_def resolveSymbol_def
        stub_key_def um_assign_def um_find_def)
  show ?thesis
    using trampoline_names_stub [OF _ r, of "0x100000010000" 3 "\<lambda>_. Some 0xCC" rev 7
        "\<lparr>REG_RAX = 0, REG_RDI = 1, REG_RSI = 2, REG_RDX = 3, REG_R10 = 4, REG_R8 = 5,
          REG_R9 = 6, REG_EFL = 0x246\<rparr>" 1]
    by (auto simp: kSlotsPerPage_def kSlotStride_def Let_def iterates_def)
qed

end
