(* ===== verification/Sce_Nid.thy ===== *)
theory Sce_Nid
  imports Prelude
begin

text \<open>
  \<^verbatim>\<open>loader/sce/SceNid.cpp\<close> and \<^verbatim>\<open>loader/sce/NidDatabase.cpp\<close>: numeric identifiers of imported functions,
  the first eight bytes of the SHA-256 of a name, their hexadecimal form and the database that
  maps them back to names.
\<close>

unbundle bit_operations_syntax

section \<open>SHA-256 as the code computes it\<close>

text \<open>The data buffer is not initialised; its first contents are an argument.\<close>

record Sha256Ctx =
  sha_data :: "u8 list"
  sha_datalen :: nat
  sha_bitlen :: u64
  sha_state :: "u32 list"

definition kSha256Init :: "u32 list" where
  "kSha256Init =
     [0x6a09e667, 0xbb67ae85, 0x3c6ef372, 0xa54ff53a, 0x510e527f, 0x9b05688c, 0x1f83d9ab, 0x5be0cd19]"

definition Sha256Ctx_new :: "u8 list \<Rightarrow> Sha256Ctx" where
  "Sha256Ctx_new garbage =
     \<lparr>sha_data = garbage, sha_datalen = 0, sha_bitlen = 0, sha_state = kSha256Init\<rparr>"

definition kSha256K :: "u32 list" where
  "kSha256K =
     [0x428a2f98, 0x71374491, 0xb5c0fbcf, 0xe9b5dba5] @ [0x3956c25b, 0x59f111f1, 0x923f82a4, 0xab1c5ed5]
     @ [0xd807aa98, 0x12835b01, 0x243185be, 0x550c7dc3] @ [0x72be5d74, 0x80deb1fe, 0x9bdc06a7, 0xc19bf174]
     @ [0xe49b69c1, 0xefbe4786, 0x0fc19dc6, 0x240ca1cc] @ [0x2de92c6f, 0x4a7484aa, 0x5cb0a9dc, 0x76f988da]
     @ [0x983e5152, 0xa831c66d, 0xb00327c8, 0xbf597fc7] @ [0xc6e00bf3, 0xd5a79147, 0x06ca6351, 0x14292967]
     @ [0x27b70a85, 0x2e1b2138, 0x4d2c6dfc, 0x53380d13] @ [0x650a7354, 0x766a0abb, 0x81c2c92e, 0x92722c85]
     @ [0xa2bfe8a1, 0xa81a664b, 0xc24b8b70, 0xc76c51a3] @ [0xd192e819, 0xd6990624, 0xf40e3585, 0x106aa070]
     @ [0x19a4c116, 0x1e376c08, 0x2748774c, 0x34b0bcb5] @ [0x391c0cb3, 0x4ed8aa4a, 0x5b9cca4f, 0x682e6ff3]
     @ [0x748f82ee, 0x78a5636f, 0x84c87814, 0x8cc70208] @ [0x90befffa, 0xa4506ceb, 0xbef9a3f7, 0xc67178f2]"

definition rotr :: "u32 \<Rightarrow> nat \<Rightarrow> u32" where
  "rotr x n = drop_bit n x OR push_bit (32 - n) x"

definition chunk_word :: "u8 list \<Rightarrow> nat \<Rightarrow> u32" where
  "chunk_word chunk i =
     push_bit 24 (ucast (chunk ! (i * 4))) OR push_bit 16 (ucast (chunk ! (i * 4 + 1)))
     OR push_bit 8 (ucast (chunk ! (i * 4 + 2))) OR ucast (chunk ! (i * 4 + 3))"

text \<open>The array \<^verbatim>\<open>w\<close> of the transform, filled from the front.\<close>

definition extend_schedule :: "u32 list \<Rightarrow> nat \<Rightarrow> u32 list" where
  "extend_schedule w i =
     (let s0 = rotr (w ! (i - 15)) 7 XOR rotr (w ! (i - 15)) 18 XOR drop_bit 3 (w ! (i - 15));
          s1 = rotr (w ! (i - 2)) 17 XOR rotr (w ! (i - 2)) 19 XOR drop_bit 10 (w ! (i - 2))
      in w @ [w ! (i - 16) + s0 + w ! (i - 7) + s1])"

definition message_schedule :: "u8 list \<Rightarrow> u32 list" where
  "message_schedule chunk = foldl extend_schedule (map (chunk_word chunk) [0..<16]) [16..<64]"

type_synonym sha_vars = "u32 \<times> u32 \<times> u32 \<times> u32 \<times> u32 \<times> u32 \<times> u32 \<times> u32"

definition sha_round :: "u32 list \<Rightarrow> sha_vars \<Rightarrow> nat \<Rightarrow> sha_vars" where
  "sha_round w v i =
     (case v of (a, b, c, d, e, f, g, h) \<Rightarrow>
        (let S1 = rotr e 6 XOR rotr e 11 XOR rotr e 25;
             ch = (e AND f) XOR (NOT e AND g);
             t1 = h + S1 + ch + kSha256K ! i + w ! i;
             S0 = rotr a 2 XOR rotr a 13 XOR rotr a 22;
             maj = (a AND b) XOR (a AND c) XOR (b AND c);
             t2 = S0 + maj
         in (t1 + t2, a, b, c, d + t1, e, f, g)))"

definition sha256Transform :: "u32 list \<Rightarrow> u8 list \<Rightarrow> u32 list" where
  "sha256Transform st chunk =
     (let w = message_schedule chunk
      in case foldl (sha_round w)
               (st ! 0, st ! 1, st ! 2, st ! 3, st ! 4, st ! 5, st ! 6, st ! 7) [0..<64] of
           (a, b, c, d, e, f, g, h) \<Rightarrow>
             [st ! 0 + a, st ! 1 + b, st ! 2 + c, st ! 3 + d,
              st ! 4 + e, st ! 5 + f, st ! 6 + g, st ! 7 + h])"

definition sha256_byte :: "Sha256Ctx \<Rightarrow> u8 \<Rightarrow> Sha256Ctx" where
  "sha256_byte ctx b =
     (let ctx = ctx\<lparr>sha_data := (sha_data ctx)[sha_datalen ctx := b],
                    sha_datalen := sha_datalen ctx + 1\<rparr>
      in if sha_datalen ctx = 64
         then ctx\<lparr>sha_state := sha256Transform (sha_state ctx) (sha_data ctx),
                  sha_bitlen := sha_bitlen ctx + 512, sha_datalen := 0\<rparr>
         else ctx)"

definition sha256Update :: "Sha256Ctx \<Rightarrow> u8 list \<Rightarrow> Sha256Ctx" where
  "sha256Update ctx bytes = foldl sha256_byte ctx bytes"

text \<open>\<open>fill data i j\<close> is the loop that zeroes positions \<open>i\<close> up to \<open>j\<close>.\<close>

definition fill :: "u8 list \<Rightarrow> nat \<Rightarrow> nat \<Rightarrow> u8 list" where
  "fill bytes i j = foldl (\<lambda>d k. d[k := 0]) bytes [i..<j]"

definition be_bytes :: "u64 \<Rightarrow> u8 list" where
  "be_bytes n = map (\<lambda>j. ucast (drop_bit ((7 - j) * 8) n AND 0xFF)) [0..<8]"

definition sha256Final :: "Sha256Ctx \<Rightarrow> u8 list" where
  "sha256Final ctx =
     (let i = sha_datalen ctx;
          d = (sha_data ctx)[i := 0x80];
          (st, d) =
            (if i < 56 then (sha_state ctx, fill d (i + 1) 56)
             else (sha256Transform (sha_state ctx) (fill d (i + 1) 64), fill (fill d (i + 1) 64) 0 56));
          bits = sha_bitlen ctx + of_nat i * 8;
          d = foldl (\<lambda>d j. d[56 + j := be_bytes bits ! j]) d [0..<8];
          st = sha256Transform st d
      in concat (map (\<lambda>s. [ucast (drop_bit 24 s AND 0xFF), ucast (drop_bit 16 s AND 0xFF),
                           ucast (drop_bit 8 s AND 0xFF), ucast (s AND 0xFF)]) (take 8 st)))"

definition sha256 :: "u8 list \<Rightarrow> u8 list \<Rightarrow> u8 list" where
  "sha256 garbage bytes = sha256Final (sha256Update (Sha256Ctx_new garbage) bytes)"

section \<open>Identifiers\<close>

definition SceNid_computeLegacy :: "u8 list \<Rightarrow> string \<Rightarrow> u64" where
  "SceNid_computeLegacy garbage functionName =
     (let digest = sha256 garbage (map char_byte functionName)
      in foldl (\<lambda>v i. v OR push_bit (i * 8) (ucast (digest ! i))) 0 [0..<8])"

definition hex_digit :: "nat \<Rightarrow> char" where
  "hex_digit n = ''0123456789abcdef'' ! n"

definition SceNid_toHex :: "u64 \<Rightarrow> string" where
  "SceNid_toHex nid = map (\<lambda>i. hex_digit (unat (drop_bit (60 - 4 * i) nid AND 0xF))) [0..<16]"

definition hex_value :: "char \<Rightarrow> u64 option" where
  "hex_value c =
     (let n = of_char c :: nat
      in if 48 \<le> n \<and> n \<le> 57 then Some (of_nat (n - 48))
         else if 97 \<le> n \<and> n \<le> 102 then Some (of_nat (n - 97 + 10))
         else if 65 \<le> n \<and> n \<le> 70 then Some (of_nat (n - 65 + 10))
         else None)"

fun hex_loop :: "string \<Rightarrow> u64 \<Rightarrow> u64 option" where
  "hex_loop [] v = Some v"
| "hex_loop (c # cs) v =
     (case hex_value c of None \<Rightarrow> None | Some d \<Rightarrow> hex_loop cs (push_bit 4 v OR d))"

definition SceNid_fromHex :: "string \<Rightarrow> u64 option" where
  "SceNid_fromHex hex = (if length hex \<noteq> 16 then None else hex_loop hex 0)"

section \<open>SHA-256 as the standard defines it\<close>

text \<open>
  The standard's own reading of a message: the big-endian value of the bytes of a word, the
  length as a number of eight big-endian bytes, and the words of the digest written so.
\<close>

definition fips_word :: "u8 list \<Rightarrow> nat \<Rightarrow> u32" where
  "fips_word block t =
     of_nat (foldl (\<lambda>n b. 256 * n + unat b) 0 [block ! (4 * t), block ! (4 * t + 1), block ! (4 * t + 2), block ! (4 * t + 3)])"

definition fips_bytes :: "nat \<Rightarrow> nat \<Rightarrow> u8 list" where
  "fips_bytes k n = map (\<lambda>j. of_nat (n div 256 ^ (k - 1 - j) mod 256)) [0..<k]"

definition fips_sigma0 :: "u32 \<Rightarrow> u32" where
  "fips_sigma0 x = word_rotr 7 x XOR word_rotr 18 x XOR drop_bit 3 x"

definition fips_sigma1 :: "u32 \<Rightarrow> u32" where
  "fips_sigma1 x = word_rotr 17 x XOR word_rotr 19 x XOR drop_bit 10 x"

fun fips_W :: "u8 list \<Rightarrow> nat \<Rightarrow> u32" where
  "fips_W block t =
     (if t < 16 then fips_word block t
      else fips_sigma1 (fips_W block (t - 2)) + fips_W block (t - 7)
           + fips_sigma0 (fips_W block (t - 15)) + fips_W block (t - 16))"

declare fips_W.simps [simp del]

definition fips_round :: "u8 list \<Rightarrow> sha_vars \<Rightarrow> nat \<Rightarrow> sha_vars" where
  "fips_round block v t =
     (case v of (a, b, c, d, e, f, g, h) \<Rightarrow>
        (let T1 = h + (word_rotr 6 e XOR word_rotr 11 e XOR word_rotr 25 e)
                    + ((e AND f) XOR (NOT e AND g)) + kSha256K ! t + fips_W block t;
             T2 = (word_rotr 2 a XOR word_rotr 13 a XOR word_rotr 22 a)
                    + ((a AND b) XOR (a AND c) XOR (b AND c))
         in (T1 + T2, a, b, c, d + T1, e, f, g)))"

definition fips_compress :: "u32 list \<Rightarrow> u8 list \<Rightarrow> u32 list" where
  "fips_compress H block =
     (case foldl (fips_round block)
             (H ! 0, H ! 1, H ! 2, H ! 3, H ! 4, H ! 5, H ! 6, H ! 7) [0..<64] of
        (a, b, c, d, e, f, g, h) \<Rightarrow>
          [H ! 0 + a, H ! 1 + b, H ! 2 + c, H ! 3 + d, H ! 4 + e, H ! 5 + f, H ! 6 + g, H ! 7 + h])"

definition fips_pad :: "u8 list \<Rightarrow> u8 list" where
  "fips_pad msg =
     msg @ [0x80] @ replicate ((119 - length msg mod 64) mod 64) 0 @ fips_bytes 8 (8 * length msg)"

function blocks :: "u8 list \<Rightarrow> u8 list list" where
  "blocks bs = (if bs = [] then [] else take 64 bs # blocks (drop 64 bs))"
  by pat_completeness auto
termination by (relation "measure length") auto

declare blocks.simps [simp del]

definition fips_sha256 :: "u8 list \<Rightarrow> u8 list" where
  "fips_sha256 msg =
     concat (map (\<lambda>h. fips_bytes 4 (unat h)) (foldl fips_compress kSha256Init (blocks (fips_pad msg))))"

section \<open>The compression function\<close>

lemma rotr_word_rotr: "n \<le> 32 \<Longrightarrow> rotr x n = word_rotr n x"
proof (rule bit_word_eqI)
  fix i assume n: "n \<le> 32" and i: "i < LENGTH(32)"
  show "bit (rotr x n) i = bit (word_rotr n x) i"
  proof (cases "i + n < 32")
    case True
    with n i show ?thesis
      by (auto simp: rotr_def bit_or_iff bit_drop_bit_eq bit_push_bit_iff bit_word_rotr_iff ac_simps)
  next
    case False
    then have "(i + n) mod 32 = i + n - 32" using n i by (simp add: mod_if)
    moreover have "\<not> bit x (n + i)" using False by (auto dest: bit_imp_le_length)
    ultimately show ?thesis using n i False
      by (auto simp: rotr_def bit_or_iff bit_drop_bit_eq bit_push_bit_iff bit_word_rotr_iff)
  qed
qed

lemma horner_bits: "push_bit 8 x OR ucast b = 256 * x + ucast b" for x :: u32 and b :: u8
proof -
  have "push_bit 8 x AND ucast b = 0"
    by (rule bit_word_eqI) (auto simp: bit_and_iff bit_push_bit_iff bit_ucast_iff dest: bit_imp_le_length)
  then have "push_bit 8 x OR ucast b = push_bit 8 x + ucast b" by (simp add: disjunctive_add_eq_or)
  then show ?thesis by (simp add: push_bit_eq_mult)
qed

lemma chunk_word_eq: "chunk_word block t = fips_word block t"
proof -
  have nest: "push_bit 24 a OR push_bit 16 b OR push_bit 8 c OR d
      = push_bit 8 (push_bit 8 (push_bit 8 a OR b) OR c) OR d" for a b c d :: u32
    by (simp add: push_bit_or or.assoc)
  show ?thesis
    by (subst chunk_word_def, subst nest) (simp add: horner_bits fips_word_def mult.commute [of 4])
qed

lemma byte_of_nat: "(of_nat (n div 256 ^ k mod 256) :: u8) = ucast (drop_bit (8 * k) (of_nat n :: 'a::len word) AND 0xFF)"
  if "8 * k + 8 \<le> LENGTH('a)"
proof (rule bit_word_eqI)
  fix i assume i: "i < LENGTH(8)"
  have "bit (mask 8 :: 'a word) i" using that i by (simp only: bit_mask_iff) simp
  then have "bit (0xFF :: 'a word) i" by (simp add: mask_eq_exp_minus_1)
  then have r: "bit (ucast (drop_bit (8 * k) (of_nat n :: 'a word) AND 0xFF) :: u8) i = bit n (8 * k + i)"
    using that i by (simp add: bit_ucast_iff bit_and_iff bit_drop_bit_eq bit_mask_iff bit_word_of_nat)
  have "n div 256 ^ k mod 256 = take_bit 8 (drop_bit (8 * k) n)"
    by (simp add: take_bit_eq_mod drop_bit_eq_div power_mult)
  then show "bit (of_nat (n div 256 ^ k mod 256) :: u8) i
      = bit (ucast (drop_bit (8 * k) (of_nat n :: 'a word) AND 0xFF) :: u8) i"
    unfolding r using i by (simp add: bit_word_of_nat bit_take_bit_iff bit_drop_bit_eq)
qed

lemma be_bytes_eq: "be_bytes (of_nat n) = fips_bytes 8 n"
  unfolding be_bytes_def fips_bytes_def
  by (rule map_cong [OF refl]) (simp add: byte_of_nat [where 'a = 64] mult.commute)

lemma digest_word_eq:
  "[ucast (drop_bit 24 s AND 0xFF), ucast (drop_bit 16 s AND 0xFF), ucast (drop_bit 8 s AND 0xFF), ucast (s AND 0xFF)]
     = fips_bytes 4 (unat s)" for s :: u32
proof -
  have "[0..<4] = [0, 1, 2, 3 :: nat]" by (simp add: upt_rec)
  then show ?thesis
    using byte_of_nat [where 'a = 32, of 3 "unat s"] byte_of_nat [where 'a = 32, of 2 "unat s"]
      byte_of_nat [where 'a = 32, of 1 "unat s"] byte_of_nat [where 'a = 32, of 0 "unat s"]
    by (simp add: fips_bytes_def)
qed

lemma schedule_prefix:
  "n \<le> 48 \<Longrightarrow> foldl extend_schedule (map (chunk_word chunk) [0..<16]) [16..<16 + n]
     = map (fips_W chunk) [0..<16 + n]"
proof (induction n)
  case 0
  show ?case by (simp add: fips_W.simps chunk_word_eq)
next
  case (Suc n)
  let ?w = "map (fips_W chunk) [0..<16 + n]"
  have nth: "?w ! k = fips_W chunk k" if "k < 16 + n" for k using that by simp
  have "extend_schedule ?w (16 + n) = ?w @ [fips_W chunk (16 + n)]"
    unfolding fips_W.simps [of chunk "16 + n"] extend_schedule_def Let_def
    by (simp add: nth rotr_word_rotr fips_sigma0_def fips_sigma1_def del: nth_map map_append upt_Suc)
  moreover have "[16..<16 + Suc n] = [16..<16 + n] @ [16 + n]" "[0..<16 + Suc n] = [0..<16 + n] @ [16 + n]"
    by (subst add_Suc_right, subst upt_Suc, simp)+
  ultimately show ?case using Suc by (simp only: foldl_append foldl.simps map_append list.map)
qed

lemma message_schedule_nth: "i < 64 \<Longrightarrow> message_schedule chunk ! i = fips_W chunk i"
  using schedule_prefix [of 48 chunk] by (simp add: message_schedule_def)

lemma sha256Transform_eq: "sha256Transform H block = fips_compress H block"
proof -
  have "foldl (sha_round (message_schedule block)) v [0..<n] = foldl (fips_round block) v [0..<n]"
    if "n \<le> 64" for n v
    using that
    by (induction n) (simp_all add: sha_round_def fips_round_def message_schedule_nth rotr_word_rotr Let_def
        split: prod.splits)
  then show ?thesis by (simp add: sha256Transform_def fips_compress_def Let_def)
qed

section \<open>Buffering and padding\<close>

lemma blocks_Nil [simp]: "blocks [] = []"
  by (simp add: blocks.simps)

lemma blocks_append_block: "length b = 64 \<Longrightarrow> blocks (b @ bs) = b # blocks bs"
  by (subst blocks.simps) auto

lemma blocks_append: "length xs = 64 * q \<Longrightarrow> blocks (xs @ ys) = blocks xs @ blocks ys"
proof (induction q arbitrary: xs)
  case (Suc q)
  have b: "length (take 64 xs) = 64" "length (drop 64 xs) = 64 * q" using Suc.prems by simp_all
  have "blocks (xs @ ys) = blocks (take 64 xs @ drop 64 xs @ ys)"
    by (metis append.assoc append_take_drop_id)
  also have "\<dots> = take 64 xs # blocks (drop 64 xs) @ blocks ys"
    by (simp only: blocks_append_block [OF b(1)] Suc.IH [OF b(2)])
  also have "\<dots> = blocks (take 64 xs @ drop 64 xs) @ blocks ys"
    by (simp only: blocks_append_block [OF b(1)] append_Cons)
  finally show ?case by simp
qed simp

definition ctx_inv :: "u8 list \<Rightarrow> Sha256Ctx \<Rightarrow> bool" where
  "ctx_inv msg ctx \<longleftrightarrow>
     (let q = length msg div 64; r = length msg mod 64
      in sha_state ctx = foldl fips_compress kSha256Init (blocks (take (64 * q) msg))
         \<and> sha_datalen ctx = r \<and> sha_bitlen ctx = of_nat (512 * q)
         \<and> length (sha_data ctx) = 64 \<and> take r (sha_data ctx) = drop (64 * q) msg)"

lemma ctx_inv_byte:
  assumes "ctx_inv msg ctx"
  shows "ctx_inv (msg @ [b]) (sha256_byte ctx b)"
proof -
  define q r where "q = length msg div 64" and "r = length msg mod 64"
  have len: "length msg = 64 * q + r" and r: "r < 64" by (simp_all add: q_def r_def)
  have i: "sha_state ctx = foldl fips_compress kSha256Init (blocks (take (64 * q) msg))"
    "sha_datalen ctx = r" "sha_bitlen ctx = of_nat (512 * q)" "length (sha_data ctx) = 64"
    "take r (sha_data ctx) = drop (64 * q) msg"
    using assms by (simp_all add: ctx_inv_def Let_def q_def r_def)
  let ?d = "(sha_data ctx)[r := b]"
  have d: "take (Suc r) ?d = drop (64 * q) msg @ [b]"
    using r i(4,5) by (simp add: take_Suc_conv_app_nth)
  show ?thesis
  proof (cases "r = 63")
    case True
    then have q': "length (msg @ [b]) div 64 = Suc q" "length (msg @ [b]) mod 64 = 0" by (simp_all add: len)
    have blk: "?d = drop (64 * q) msg @ [b]" using d True i(4) by simp
    have "take (64 * q) msg @ ?d = msg @ [b]" by (simp add: blk)
    moreover have "length (take (64 * q) msg) = 64 * q" by (simp add: len)
    ultimately have "blocks (msg @ [b]) = blocks (take (64 * q) msg) @ [?d]"
      using blocks_append [of "take (64 * q) msg" q ?d] blocks_append_block [of ?d "[]"] i(4) by simp
    then show ?thesis
      using True i q' len
      by (simp add: ctx_inv_def sha256_byte_def Let_def sha256Transform_eq algebra_simps)
  next
    case False
    with r have q': "length (msg @ [b]) div 64 = q" "length (msg @ [b]) mod 64 = Suc r" by (simp_all add: len)
    then show ?thesis
      using False i d len by (simp add: ctx_inv_def sha256_byte_def Let_def)
  qed
qed

lemma ctx_inv_update:
  "length garbage = 64 \<Longrightarrow> ctx_inv msg (sha256Update (Sha256Ctx_new garbage) msg)"
  by (induction msg rule: rev_induct)
     (simp_all add: sha256Update_def ctx_inv_byte,
      simp add: ctx_inv_def Sha256Ctx_new_def)

lemma fill_eq:
  "i \<le> j \<Longrightarrow> j \<le> length d \<Longrightarrow> fill d i j = take i d @ replicate (j - i) 0 @ drop j d"
proof (induction "j - i" arbitrary: j)
  case 0
  then show ?case by (simp add: fill_def)
next
  case (Suc k)
  then obtain j' where j: "j = Suc j'" "i \<le> j'" by (cases j) auto
  have "fill d i j = (fill d i j')[j' := 0]" using j by (simp add: fill_def)
  also have "\<dots> = (take i d @ replicate (j' - i) 0 @ drop j' d)[j' := 0]"
    using Suc j by simp
  also have "\<dots> = take i d @ replicate (j - i) 0 @ drop j d"
    using Suc.prems j
    by (simp add: list_update_append Cons_nth_drop_Suc [symmetric] replicate_append_same Suc_diff_le)
  finally show ?case .
qed

lemma length_be_bytes [simp]: "length (be_bytes n) = 8"
  by (simp add: be_bytes_def)

lemma store_length:
  assumes "length d = 64"
  shows "foldl (\<lambda>d j. d[56 + j := be_bytes n ! j]) d [0..<8] = take 56 d @ be_bytes n"
proof -
  have "k \<le> 8 \<Longrightarrow> foldl (\<lambda>d j. d[56 + j := be_bytes n ! j]) d [0..<k]
      = take 56 d @ take k (be_bytes n) @ drop (56 + k) d" for k
  proof (induction k)
    case (Suc k)
    with assms show ?case
      by (simp add: list_update_append Cons_nth_drop_Suc [symmetric] take_Suc_conv_app_nth)
  qed simp
  from this [of 8] assms show ?thesis by simp
qed

text \<open>The last block or blocks that the padding makes out of the buffered bytes.\<close>

lemma fips_pad_blocks:
  assumes "length msg = 64 * q + r" and "r < 64"
  defines "rest \<equiv> drop (64 * q) msg" and "n \<equiv> be_bytes (of_nat (8 * length msg))"
  shows "blocks (fips_pad msg) = blocks (take (64 * q) msg) @
     (if r < 56 then [rest @ 0x80 # replicate (55 - r) 0 @ n]
      else [rest @ 0x80 # replicate (63 - r) 0, replicate 56 0 @ n])"
proof -
  have len: "length (take (64 * q) msg) = 64 * q" "length rest = r" using assms(1) by (simp_all add: rest_def)
  have "fips_pad msg = take (64 * q) msg @ rest @ 0x80 # replicate ((119 - r) mod 64) 0 @ n"
    using assms(1,2) by (simp add: fips_pad_def rest_def n_def be_bytes_eq del: of_nat_mult of_nat_add)
  then have b: "blocks (fips_pad msg)
      = blocks (take (64 * q) msg) @ blocks (rest @ 0x80 # replicate ((119 - r) mod 64) 0 @ n)"
    using blocks_append [OF len(1)] by simp
  have "blocks (rest @ 0x80 # replicate ((119 - r) mod 64) 0 @ n) =
      (if r < 56 then [rest @ 0x80 # replicate (55 - r) 0 @ n]
       else [rest @ 0x80 # replicate (63 - r) 0, replicate 56 0 @ n])"
  proof (cases "r < 56")
    case True
    then have "(119 - r) mod 64 = 55 - r" by (simp add: mod_if)
    moreover have "length (rest @ 0x80 # replicate (55 - r) 0 @ n) = 64" using True len by (simp add: n_def)
    ultimately show ?thesis using True blocks_append_block [of _ "[]"] by simp
  next
    case False
    then have k: "(119 - r) mod 64 = (63 - r) + 56" using assms(2) by (simp add: mod_if)
    have 1: "length (rest @ 0x80 # replicate (63 - r) 0) = 64" using False assms(2) len by simp
    have 2: "length (replicate 56 0 @ n) = 64" by (simp add: n_def)
    have "rest @ 0x80 # replicate ((119 - r) mod 64) 0 @ n
        = (rest @ 0x80 # replicate (63 - r) 0) @ replicate 56 0 @ n"
      unfolding k replicate_add by simp
    then show ?thesis
      using False blocks_append_block [OF 1] blocks_append_block [OF 2, of "[]"] by simp
  qed
  with b show ?thesis by simp
qed

lemma length_fips_compress [simp]: "length (fips_compress H b) = 8"
  by (simp add: fips_compress_def split: prod.splits)

lemma sha256Final_eq:
  assumes "ctx_inv msg ctx"
  shows "sha256Final ctx = fips_sha256 msg"
proof -
  define q r where "q = length msg div 64" and "r = length msg mod 64"
  have len: "length msg = 64 * q + r" and r: "r < 64" by (simp_all add: q_def r_def)
  have i: "sha_state ctx = foldl fips_compress kSha256Init (blocks (take (64 * q) msg))"
    "sha_datalen ctx = r" "sha_bitlen ctx = of_nat (512 * q)" "length (sha_data ctx) = 64"
    "take r (sha_data ctx) = drop (64 * q) msg"
    using assms by (simp_all add: ctx_inv_def Let_def q_def r_def)
  have bits: "sha_bitlen ctx + of_nat r * 8 = of_nat (8 * length msg)" by (simp add: i(3) len)
  let ?rest = "drop (64 * q) msg" and ?n = "be_bytes (of_nat (8 * length msg))"
  let ?d = "(sha_data ctx)[r := 0x80]"
  have pre: "take (Suc r) ?d = ?rest @ [0x80]" using r i(4,5) by (simp add: take_Suc_conv_app_nth)
  have fin: "sha256Final ctx = concat (map (\<lambda>h. fips_bytes 4 (unat h)) (take 8 (fips_compress
      (if r < 56 then sha_state ctx else fips_compress (sha_state ctx) (fill ?d (Suc r) 64))
      (take 56 (if r < 56 then fill ?d (Suc r) 56 else fill (fill ?d (Suc r) 64) 0 56) @ ?n))))"
    using i(2,4) r bits
    by (simp add: sha256Final_def Let_def sha256Transform_eq digest_word_eq store_length fill_eq)
  show ?thesis
  proof (cases "r < 56")
    case True
    have "fill ?d (Suc r) 56 = (?rest @ 0x80 # replicate (55 - r) 0) @ drop 56 ?d"
      using True i(4) pre by (simp add: fill_eq)
    moreover have "length (?rest @ 0x80 # replicate (55 - r) (0 :: u8)) = 56" using True len by simp
    ultimately have "take 56 (fill ?d (Suc r) 56) = ?rest @ 0x80 # replicate (55 - r) 0"
      by (metis append_eq_conv_conj)
    then show ?thesis
      using True fin fips_pad_blocks [OF len r] by (simp add: fips_sha256_def i(1))
  next
    case False
    have "fill ?d (Suc r) 64 = ?rest @ 0x80 # replicate (63 - r) 0"
      using r i(4) pre by (simp add: fill_eq)
    moreover have "take 56 (fill (fill ?d (Suc r) 64) 0 56) = replicate 56 0"
      using r i(4) by (simp add: fill_eq)
    ultimately show ?thesis
      using False fin fips_pad_blocks [OF len r] by (simp add: fips_sha256_def i(1))
  qed
qed

section \<open>Hexadecimal form\<close>

lemma hex_value_digit: "n < 16 \<Longrightarrow> hex_value (hex_digit n) = Some (of_nat n)"
proof -
  have "list_all (\<lambda>n. hex_value (hex_digit n) = Some (of_nat n)) [0..<16]" by code_simp
  moreover assume "n < 16"
  ultimately show ?thesis by (simp add: list_all_iff)
qed

lemma hex_loop_digits:
  "k \<le> 16 \<Longrightarrow> hex_loop (map (\<lambda>i. hex_digit (unat (drop_bit (60 - 4 * i) nid AND 0xF))) [16 - k..<16])
       (drop_bit (4 * k) nid) = Some nid"
proof (induction k)
  case (Suc k)
  let ?d = "\<lambda>i. hex_digit (unat (drop_bit (60 - 4 * i) nid AND 0xF))"
  have up: "[16 - Suc k..<16] = (15 - k) # [16 - k..<16]"
  proof -
    have "16 - Suc k = 15 - k" "Suc (15 - k) = 16 - k" "15 - k < 16" using Suc.prems by simp_all
    then show ?thesis by (metis upt_conv_Cons)
  qed
  have sh: "60 - 4 * (15 - k) = 4 * k" using Suc.prems by simp
  have "drop_bit (4 * k) nid AND 0xF = take_bit 4 (drop_bit (4 * k) nid)"
    by (simp add: take_bit_eq_mask mask_eq_exp_minus_1)
  then have "unat (drop_bit (4 * k) nid AND 0xF) = take_bit 4 (unat (drop_bit (4 * k) nid))"
    by (simp only: unsigned_take_bit_eq)
  then have "unat (drop_bit (4 * k) nid AND 0xF) < 16"
    using take_bit_nat_less_exp [of 4 "unat (drop_bit (4 * k) nid)"] by simp
  then have v: "hex_value (?d (15 - k)) = Some (drop_bit (4 * k) nid AND 0xF)"
    unfolding sh by (simp add: hex_value_digit)
  have "push_bit 4 (drop_bit (4 * Suc k) nid) OR (drop_bit (4 * k) nid AND 0xF) = drop_bit (4 * k) nid"
  proof (rule bit_word_eqI)
    fix n assume "n < LENGTH(64)"
    have m: "(0xF :: u64) = mask 4" by (simp add: mask_eq_exp_minus_1)
    show "bit (push_bit 4 (drop_bit (4 * Suc k) nid) OR (drop_bit (4 * k) nid AND 0xF)) n
        = bit (drop_bit (4 * k) nid) n"
      unfolding m by (cases "n < 4")
        (auto simp: bit_or_iff bit_and_iff bit_push_bit_iff bit_drop_bit_eq bit_mask_iff ac_simps
          dest: bit_imp_le_length)
  qed
  with Suc show ?case unfolding up by (simp add: v)
qed (simp add: drop_bit_eq_div)

section \<open>The constants\<close>

text \<open>
  The standard defines the constants as the first 32 bits of the fractional parts of the cube roots
  (round constants) and square roots (initial state) of the first primes. \<open>root_fraction e p k\<close>
  says so of \<open>k\<close> in integers: with \<open>c\<close> the integral part, \<open>c + k / 2 ^ 32\<close> is the root rounded down.
\<close>

definition root_fraction :: "nat \<Rightarrow> int \<Rightarrow> u32 \<Rightarrow> bool" where
  "root_fraction e p k \<longleftrightarrow>
     list_ex (\<lambda>c. (c * 2 ^ 32 + uint k) ^ e \<le> p * 2 ^ (32 * e)
                  \<and> p * 2 ^ (32 * e) < (c * 2 ^ 32 + uint k + 1) ^ e) [1..6]"

definition first_primes :: "int list" where
  "first_primes =
     [2, 3, 5, 7, 11, 13, 17, 19, 23, 29, 31, 37, 41, 43, 47, 53, 59, 61, 67, 71, 73, 79, 83, 89, 97,
      101, 103, 107, 109, 113, 127, 131, 137, 139, 149, 151, 157, 163, 167, 173, 179, 181, 191, 193,
      197, 199, 211, 223, 227, 229, 233, 239, 241, 251, 257, 263, 269, 271, 277, 281, 283, 293, 307, 311]"

lemma round_constants: "list_all2 (root_fraction 3) first_primes kSha256K"
  by code_simp

lemma initial_state: "list_all2 (root_fraction 2) (take 8 first_primes) kSha256Init"
  by code_simp

section \<open>Properties\<close>

text \<open>
  C13. The buffered SHA-256 of the code (a 64-byte block filled byte by byte, the schedule array,
  the padding done in place) computes the digest of FIPS 180-4 on every message, whatever the
  uninitialised block buffer held at the start (the standard's words, length field and digest are
  big-endian numbers here, its rotations those of the word library); and the constant tables it uses are the fractions of
  the cube and square roots of the first primes that the standard prescribes.
\<close>

theorem sha256_equals_fips:
  assumes "length garbage = 64"
  shows "sha256 garbage msg = fips_sha256 msg
    \<and> list_all2 (root_fraction 3) first_primes kSha256K
    \<and> list_all2 (root_fraction 2) (take 8 first_primes) kSha256Init"
  unfolding sha256_def
  using sha256Final_eq [OF ctx_inv_update [OF assms]] round_constants initial_state by blast

theorem sha256_equals_fips_witness:
  "length (replicate 64 (0xAA :: u8)) = 64
   \<and> sha256 (replicate 64 0xAA) (map char_byte ''abc'') = fips_sha256 (map char_byte ''abc'')"
  using sha256_equals_fips [of "replicate 64 0xAA" "map char_byte ''abc''"] by simp

end
