(* ===== verification/Nid_Database.thy ===== *)
theory Nid_Database
  imports Sce_Nid
begin

text \<open>
  \<^verbatim>\<open>loader/sce/NidDatabase.cpp\<close>: the table from numeric identifiers to library and function names,
  its text file and the built-in entries. The contents of the file are an argument.
\<close>

record NidEntry =
  ne_nid :: u64
  ne_library :: string
  ne_function :: string

record NidDatabase =
  nd_entries :: "(u64, NidEntry) umap"
  nd_builtinLoaded :: bool

definition NidDatabase_new :: NidDatabase where
  "NidDatabase_new = \<lparr>nd_entries = [], nd_builtinLoaded = False\<rparr>"

definition NidDatabase_insert :: "u64 \<Rightarrow> string \<Rightarrow> string \<Rightarrow> NidDatabase \<Rightarrow> NidDatabase" where
  "NidDatabase_insert nid lib fn db =
     db\<lparr>nd_entries := um_assign nid \<lparr>ne_nid = nid, ne_library = lib, ne_function = fn\<rparr> (nd_entries db)\<rparr>"

definition NidDatabase_lookup :: "u64 \<Rightarrow> NidDatabase \<Rightarrow> NidEntry option" where
  "NidDatabase_lookup nid db = um_find (nd_entries db) nid"

definition NidDatabase_size :: "NidDatabase \<Rightarrow> nat" where
  "NidDatabase_size db = length (nd_entries db)"

section \<open>The text file\<close>

definition newline :: char where "newline = char_of (10 :: nat)"

definition is_space :: "char \<Rightarrow> bool" where
  "is_space c \<longleftrightarrow> (let n = of_char c :: nat in n = 32 \<or> (9 \<le> n \<and> n \<le> 13))"

definition trims :: "char \<Rightarrow> bool" where
  "trims c \<longleftrightarrow> (let n = of_char c :: nat in n = 32 \<or> n = 9 \<or> n = 13 \<or> n = 10)"

text \<open>\<^verbatim>\<open>std::getline\<close> until the end of the file: a last line without a newline counts.\<close>

function file_lines :: "string \<Rightarrow> string list" where
  "file_lines s =
     (if s = [] then []
      else (let l = takeWhile (\<lambda>c. c \<noteq> newline) s in l # file_lines (drop (Suc (length l)) s)))"
  by pat_completeness auto
termination by (relation "measure length") auto

declare file_lines.simps [simp del]

text \<open>One formatted extraction of a word; an empty word is a failure of the stream.\<close>

definition next_word :: "string \<Rightarrow> string \<times> string" where
  "next_word s =
     (let s = dropWhile is_space s
      in (takeWhile (\<lambda>c. \<not> is_space c) s, dropWhile (\<lambda>c. \<not> is_space c) s))"

definition load_line :: "string \<Rightarrow> NidDatabase \<Rightarrow> NidDatabase" where
  "load_line raw db =
     (case dropWhile trims raw of
        [] \<Rightarrow> db
      | c # cs \<Rightarrow>
          if c = CHR ''#'' then db
          else
            (let (nidHex, r1) = next_word (c # cs); (lib, r2) = next_word r1; (fn, r3) = next_word r2
             in if nidHex = [] \<or> lib = [] \<or> fn = [] then db
                else (case SceNid_fromHex nidHex of
                        None \<Rightarrow> db
                      | Some nid \<Rightarrow> NidDatabase_insert nid lib fn db)))"

definition NidDatabase_loadFromFile :: "string option \<Rightarrow> NidDatabase \<Rightarrow> bool \<times> NidDatabase" where
  "NidDatabase_loadFromFile file db =
     (case file of
        None \<Rightarrow> (False, db)
      | Some text \<Rightarrow> (True, fold load_line (file_lines text) db))"

section \<open>Built-in entries\<close>

definition kKnown :: "(string \<times> string) list" where
  "kKnown =
     [(''libSceKernel'', ''sceKernelCreateSema''), (''libSceKernel'', ''sceKernelDeleteSema''),
      (''libSceKernel'', ''sceKernelWaitSema''), (''libSceKernel'', ''sceKernelPollSema''),
      (''libSceKernel'', ''sceKernelSignalSema''), (''libSceKernel'', ''sceKernelCreateEqueue''),
      (''libSceKernel'', ''sceKernelDeleteEqueue''), (''libSceKernel'', ''sceKernelWaitEqueue''),
      (''libSceKernel'', ''sceKernelPrintf''), (''libSceKernel'', ''sceKernelDebugOutText''),
      (''libSceKernel'', ''sceKernelGetProcessTime''), (''libSceKernel'', ''scePthreadCreate''),
      (''libSceKernel'', ''scePthreadJoin''), (''libScePad'', ''scePadInit''),
      (''libScePad'', ''scePadOpen''), (''libScePad'', ''scePadClose''),
      (''libScePad'', ''scePadReadState''), (''libScePad'', ''scePadRead''),
      (''libScePad'', ''scePadSetVibration''), (''libSceAudioOut'', ''sceAudioOutInit''),
      (''libSceAudioOut'', ''sceAudioOutOpen''), (''libSceAudioOut'', ''sceAudioOutClose''),
      (''libSceAudioOut'', ''sceAudioOutOutput''), (''libSceAudioOut'', ''sceAudioOutSetVolume''),
      (''libSceNet'', ''sceNetInit''), (''libSceNet'', ''sceNetTerm''),
      (''libSceNet'', ''sceNetSocket''), (''libSceNet'', ''sceNetClose''),
      (''libSceNet'', ''sceNetConnect''), (''libSceNet'', ''sceNetSend''),
      (''libSceNet'', ''sceNetRecv''), (''libSceVideoOut'', ''sceVideoOutOpen''),
      (''libSceVideoOut'', ''sceVideoOutClose''), (''libSceVideoOut'', ''sceVideoOutRegisterBuffers''),
      (''libSceVideoOut'', ''sceVideoOutUnregisterBuffers''), (''libSceVideoOut'', ''sceVideoOutSubmitFlip''),
      (''libSceVideoOut'', ''sceVideoOutSetFlipRate''), (''libSceVideoOut'', ''sceVideoOutGetFlipStatus''),
      (''libSceGnm'', ''sceGnmInit''), (''libSceGnm'', ''sceGnmTerminate''),
      (''libSceGnm'', ''sceGnmSubmitDone'')]"

definition NidDatabase_loadBuiltinFallback :: "u8 list \<Rightarrow> NidDatabase \<Rightarrow> NidDatabase" where
  "NidDatabase_loadBuiltinFallback garbage db =
     (if nd_builtinLoaded db then db
      else fold (\<lambda>(lib, fn) db. NidDatabase_insert (SceNid_computeLegacy garbage fn) lib fn db) kKnown
             (db\<lparr>nd_builtinLoaded := True\<rparr>))"

section \<open>Lemmas\<close>

definition word_ok :: "string \<Rightarrow> bool" where
  "word_ok s \<longleftrightarrow> s \<noteq> [] \<and> list_all (\<lambda>c. \<not> is_space c) s"

definition print_entry :: "NidEntry \<Rightarrow> string" where
  "print_entry e = SceNid_toHex (ne_nid e) @ '' '' @ ne_library e @ '' '' @ ne_function e"

lemma next_word_word:
  assumes "word_ok w" and "rest = [] \<or> is_space (hd rest)"
  shows "next_word (w @ rest) = (w, rest)" and "next_word (CHR '' '' # w @ rest) = (w, rest)"
proof -
  have w: "\<forall>c\<in>set w. \<not> is_space c" "w \<noteq> []" using assms(1) by (auto simp: word_ok_def list_all_iff)
  have d: "dropWhile is_space (w @ rest) = w @ rest" using w by (cases w) auto
  have t: "takeWhile (\<lambda>c. \<not> is_space c) (w @ rest) = w" "dropWhile (\<lambda>c. \<not> is_space c) (w @ rest) = rest"
    using w assms(2) by (cases rest; auto simp: takeWhile_append2 dropWhile_append2)+
  have sp: "is_space CHR '' ''" by (simp add: is_space_def)
  from d t show "next_word (w @ rest) = (w, rest)" by (simp add: next_word_def Let_def)
  from d t sp show "next_word (CHR '' '' # w @ rest) = (w, rest)" by (simp add: next_word_def Let_def)
qed

lemma hex_digit_plain: "n < 16 \<Longrightarrow> \<not> is_space (hex_digit n) \<and> \<not> trims (hex_digit n) \<and> hex_digit n \<noteq> CHR ''#''"
proof -
  have "list_all (\<lambda>n. \<not> is_space (hex_digit n) \<and> \<not> trims (hex_digit n) \<and> hex_digit n \<noteq> CHR ''#'') [0..<16]"
    by code_simp
  moreover assume "n < 16"
  ultimately show ?thesis by (simp add: list_all_iff)
qed

lemma toHex_plain:
  "c \<in> set (SceNid_toHex nid) \<Longrightarrow> \<not> is_space c \<and> \<not> trims c \<and> c \<noteq> CHR ''#''"
proof -
  have "unat (drop_bit k nid AND 0xF) < 16" for k
  proof -
    have "drop_bit k nid AND 0xF = take_bit 4 (drop_bit k nid)"
      by (simp add: take_bit_eq_mask mask_eq_exp_minus_1)
    then show ?thesis
      using take_bit_nat_less_exp [of 4 "unat (drop_bit k nid)"] by (simp only: unsigned_take_bit_eq) simp
  qed
  then show "c \<in> set (SceNid_toHex nid) \<Longrightarrow> ?thesis"
    using hex_digit_plain by (auto simp: SceNid_toHex_def)
qed

lemma toHex_word: "word_ok (SceNid_toHex nid)"
  using toHex_plain by (auto simp: word_ok_def list_all_iff) (simp add: SceNid_toHex_def)

lemma fromHex_toHex: "SceNid_fromHex (SceNid_toHex nid) = Some nid"
proof -
  have "drop_bit 64 nid = 0" by (rule bit_word_eqI) (simp add: bit_drop_bit_eq)
  then show ?thesis
    using hex_loop_digits [of 16 nid] by (simp add: SceNid_fromHex_def SceNid_toHex_def del: upt_Suc)
qed

lemma load_line_print:
  assumes "word_ok (ne_library e)" and "word_ok (ne_function e)"
  shows "load_line (print_entry e) db = NidDatabase_insert (ne_nid e) (ne_library e) (ne_function e) db"
proof -
  obtain c cs where c: "SceNid_toHex (ne_nid e) = c # cs"
    using toHex_word [of "ne_nid e"] by (cases "SceNid_toHex (ne_nid e)") (auto simp: word_ok_def)
  then have plain: "\<not> trims c" "c \<noteq> CHR ''#''" using toHex_plain [of c "ne_nid e"] by simp_all
  have sp: "is_space CHR '' ''" by (simp add: is_space_def)
  let ?rest = "CHR '' '' # ne_library e @ CHR '' '' # ne_function e"
  have 1: "next_word (SceNid_toHex (ne_nid e) @ ?rest) = (SceNid_toHex (ne_nid e), ?rest)"
    by (rule next_word_word(1) [OF toHex_word]) (simp add: sp)
  have 2: "next_word ?rest = (ne_library e, CHR '' '' # ne_function e)"
    using next_word_word(2) [OF assms(1), of "CHR '' '' # ne_function e"] sp by simp
  have 3: "next_word (CHR '' '' # ne_function e) = (ne_function e, [])"
    using next_word_word(2) [OF assms(2), of "[]"] by simp
  have raw: "print_entry e = c # cs @ ?rest" using c by (simp add: print_entry_def)
  have ne: "ne_library e \<noteq> []" "ne_function e \<noteq> []" using assms by (auto simp: word_ok_def)
  show ?thesis
    unfolding load_line_def raw using plain 1 2 3 c ne fromHex_toHex [of "ne_nid e"]
    by (simp add: Let_def)
qed

lemma file_lines_Cons:
  assumes "newline \<notin> set l"
  shows "file_lines (l @ newline # rest) = l # file_lines rest"
proof -
  have "takeWhile (\<lambda>c. c \<noteq> newline) (l @ newline # rest) = l"
    using assms by (intro takeWhile_append_stop) auto
  then show ?thesis by (subst file_lines.simps) (simp add: Let_def)
qed

lemma word_ok_no_newline: "word_ok s \<Longrightarrow> newline \<notin> set s"
  by (auto simp: word_ok_def list_all_iff is_space_def newline_def)

definition entry_ok :: "NidEntry \<Rightarrow> bool" where
  "entry_ok e \<longleftrightarrow> word_ok (ne_library e) \<and> word_ok (ne_function e)"

definition print_file :: "NidEntry list \<Rightarrow> string" where
  "print_file es = concat (map (\<lambda>e. print_entry e @ [newline]) es)"

lemma print_entry_no_newline: "entry_ok e \<Longrightarrow> newline \<notin> set (print_entry e)"
proof -
  have sp: "newline \<noteq> CHR '' ''" by (simp add: newline_def char_of_eq_iff)
  show "entry_ok e \<Longrightarrow> ?thesis"
    using word_ok_no_newline [OF toHex_word] sp
    by (auto simp: print_entry_def entry_ok_def dest: word_ok_no_newline)
qed

lemma file_lines_print: "list_all entry_ok es \<Longrightarrow> file_lines (print_file es) = map print_entry es"
proof (induction es)
  case Nil
  show ?case by (simp add: print_file_def file_lines.simps)
next
  case (Cons e es)
  have "print_file (e # es) = print_entry e @ newline # print_file es" by (simp add: print_file_def)
  with Cons show ?case by (simp add: file_lines_Cons print_entry_no_newline)
qed

lemma fold_load_print:
  "list_all entry_ok es \<Longrightarrow>
     fold load_line (map print_entry es) db
     = fold (\<lambda>e. NidDatabase_insert (ne_nid e) (ne_library e) (ne_function e)) es db"
  by (induction es arbitrary: db) (simp_all add: load_line_print entry_ok_def)

lemma lookup_insert:
  "NidDatabase_lookup n (NidDatabase_insert m lib fn db)
     = (if n = m then Some \<lparr>ne_nid = m, ne_library = lib, ne_function = fn\<rparr> else NidDatabase_lookup n db)"
  by (simp add: NidDatabase_lookup_def NidDatabase_insert_def um_simps)

lemma lookup_fold_insert:
  "NidDatabase_lookup n
     (fold (\<lambda>e. NidDatabase_insert (ne_nid e) (ne_library e) (ne_function e)) es db)
   = (case List.find (\<lambda>e. ne_nid e = n) (rev es) of None \<Rightarrow> NidDatabase_lookup n db | Some e \<Rightarrow> Some e)"
proof (induction es rule: rev_induct)
  case (snoc e es)
  then show ?case by (simp add: lookup_insert)
qed simp

section \<open>Properties\<close>

text \<open>
  C34. Loading a database file whose lines are printed entries (sixteen hexadecimal digits, the
  library and the function, separated by spaces) succeeds, and a lookup afterwards answers with the
  last entry of the file that has the identifier, or what the database held before. No entry is
  lost, split or truncated on its way through the text form.
\<close>

theorem nid_database_roundtrip:
  assumes "list_all entry_ok es"
  shows "fst (NidDatabase_loadFromFile (Some (print_file es)) db)
    \<and> NidDatabase_lookup n (snd (NidDatabase_loadFromFile (Some (print_file es)) db))
      = (case List.find (\<lambda>e. ne_nid e = n) (rev es) of None \<Rightarrow> NidDatabase_lookup n db | Some e \<Rightarrow> Some e)"
  using assms
  by (simp add: NidDatabase_loadFromFile_def file_lines_print fold_load_print lookup_fold_insert)

definition sample_entries :: "NidEntry list" where
  "sample_entries =
     [\<lparr>ne_nid = 0x1F, ne_library = ''libScePad'', ne_function = ''scePadInit''\<rparr>,
      \<lparr>ne_nid = 0x20, ne_library = ''libSceNet'', ne_function = ''sceNetInit''\<rparr>]"

theorem nid_database_roundtrip_witness:
  "fst (NidDatabase_loadFromFile (Some (print_file sample_entries)) NidDatabase_new)
   \<and> NidDatabase_lookup 0x1F (snd (NidDatabase_loadFromFile (Some (print_file sample_entries)) NidDatabase_new))
     = Some \<lparr>ne_nid = 0x1F, ne_library = ''libScePad'', ne_function = ''scePadInit''\<rparr>
   \<and> NidDatabase_lookup 0x21 (snd (NidDatabase_loadFromFile (Some (print_file sample_entries)) NidDatabase_new))
     = None"
proof -
  have ok: "list_all entry_ok sample_entries" by code_simp
  have "List.find (\<lambda>e. ne_nid e = 0x1F) (rev sample_entries)
      = Some \<lparr>ne_nid = 0x1F, ne_library = ''libScePad'', ne_function = ''scePadInit''\<rparr>"
    "List.find (\<lambda>e. ne_nid e = 0x21) (rev sample_entries) = None"
    "NidDatabase_lookup 0x21 NidDatabase_new = None"
    by (simp_all add: sample_entries_def NidDatabase_lookup_def NidDatabase_new_def um_find_def)
  then show ?thesis
    using nid_database_roundtrip [OF ok, of NidDatabase_new "0x1F"]
      nid_database_roundtrip [OF ok, of NidDatabase_new "0x21"] by simp
qed

end
