(* ===== verification/Kernel_Objects.thy ===== *)
theory Kernel_Objects
  imports Prelude
begin

text \<open>
  \<^verbatim>\<open>sce/kernel/KernelObjects.cpp\<close>: counting semaphores with their condition variable, and kernel
  mutexes. The counters are host \<^verbatim>\<open>int\<close>s; a sum that leaves their range is undefined.
\<close>

section \<open>Semaphores\<close>

record KernelSema =
  ks_name :: string
  ks_max :: int
  ks_count :: int

definition int_max :: int where "int_max = 2 ^ 31 - 1"

definition KernelSema_new :: "string \<Rightarrow> int \<Rightarrow> int \<Rightarrow> KernelSema" where
  "KernelSema_new name initCount maxCount =
     \<lparr>ks_name = name, ks_max = (if maxCount > 0 then maxCount else 1), ks_count = initCount\<rparr>"

definition at_least_one :: "int \<Rightarrow> int" where
  "at_least_one n = (if n \<le> 0 then 1 else n)"

text \<open>
  \<^verbatim>\<open>wait\<close> as a function of the state in which the predicate is last evaluated: \<open>None\<close> is a wait
  that goes on, which only happens without a timeout.
\<close>

definition KernelSema_wait :: "int \<Rightarrow> int \<Rightarrow> KernelSema \<Rightarrow> (bool \<times> KernelSema) option" where
  "KernelSema_wait need timeoutUs s =
     (let need = at_least_one need
      in if ks_count s \<ge> need then Some (True, s\<lparr>ks_count := ks_count s - need\<rparr>)
         else if timeoutUs < 0 then None
         else Some (False, s))"

definition KernelSema_signal :: "int \<Rightarrow> KernelSema \<Rightarrow> (bool \<times> KernelSema) cpp" where
  "KernelSema_signal count s =
     (let count = at_least_one count
      in if ks_count s + count > int_max then UB
         else if ks_count s + count > ks_max s then Val (False, s)
         else Val (True, s\<lparr>ks_count := ks_count s + count\<rparr>))"

definition KernelSema_currentCount :: "KernelSema \<Rightarrow> int" where
  "KernelSema_currentCount s = ks_count s"

section \<open>Threads at the condition variable\<close>

text \<open>
  A thread inside \<^verbatim>\<open>wait\<close> sleeps on the condition variable or has been woken (by \<^verbatim>\<open>notify_all\<close> or
  spuriously) and has not yet evaluated the predicate again. The flag tells a wait with a timeout.
  A thread inside \<^verbatim>\<open>signal\<close> that has added its units and released the mutex has yet to call
  \<^verbatim>\<open>notify_all\<close>; \<open>sy_notifying\<close> counts these threads. The last two fields count, as a
  specification, the units taken by successful waits and the units added by successful signals.
\<close>

datatype Waiter = Sleeping int bool | Woken int bool

record sema_system =
  sy_sema :: KernelSema
  sy_waiters :: "nat \<rightharpoonup> Waiter"
  sy_notifying :: nat
  sy_taken :: int
  sy_given :: int

definition sema_system_new :: "KernelSema \<Rightarrow> sema_system" where
  "sema_system_new s = \<lparr>sy_sema = s, sy_waiters = Map.empty, sy_notifying = 0, sy_taken = 0, sy_given = 0\<rparr>"

fun notify_waiter :: "Waiter \<Rightarrow> Waiter" where
  "notify_waiter (Sleeping n b) = Woken n b"
| "notify_waiter (Woken n b) = Woken n b"

definition take_units :: "int \<Rightarrow> sema_system \<Rightarrow> sema_system" where
  "take_units n y =
     y\<lparr>sy_sema := (sy_sema y)\<lparr>ks_count := ks_count (sy_sema y) - n\<rparr>, sy_taken := sy_taken y + n\<rparr>"

definition notify_all :: "sema_system \<Rightarrow> sema_system" where
  "notify_all y = y\<lparr>sy_notifying := sy_notifying y - 1, sy_waiters := map_option notify_waiter \<circ> sy_waiters y\<rparr>"

text \<open>
  One critical section of one thread, or the call of \<^verbatim>\<open>notify_all\<close> that follows the critical
  section of a signal. The mutex is released and the thread put to sleep in one step, as \<^verbatim>\<open>std::condition_variable\<close> promises; on a timeout the predicate is evaluated once more.
\<close>

inductive sema_step :: "sema_system \<Rightarrow> sema_system \<Rightarrow> bool" where
  wait_at_once: "sy_waiters y t = None \<Longrightarrow> n = at_least_one need \<Longrightarrow> ks_count (sy_sema y) \<ge> n
    \<Longrightarrow> sema_step y (take_units n y)"
| wait_sleep: "sy_waiters y t = None \<Longrightarrow> n = at_least_one need \<Longrightarrow> ks_count (sy_sema y) < n
    \<Longrightarrow> sema_step y (y\<lparr>sy_waiters := (sy_waiters y)(t \<mapsto> Sleeping n timed)\<rparr>)"
| wait_spurious: "sy_waiters y t = Some (Sleeping n timed)
    \<Longrightarrow> sema_step y (y\<lparr>sy_waiters := (sy_waiters y)(t \<mapsto> Woken n timed)\<rparr>)"
| wait_again: "sy_waiters y t = Some (Woken n timed) \<Longrightarrow> ks_count (sy_sema y) < n
    \<Longrightarrow> sema_step y (y\<lparr>sy_waiters := (sy_waiters y)(t \<mapsto> Sleeping n timed)\<rparr>)"
| wait_done: "sy_waiters y t = Some (Woken n timed) \<Longrightarrow> ks_count (sy_sema y) \<ge> n
    \<Longrightarrow> sema_step y ((take_units n y)\<lparr>sy_waiters := (sy_waiters y)(t := None)\<rparr>)"
| wait_timeout: "sy_waiters y t = Some (Sleeping n True) \<or> sy_waiters y t = Some (Woken n True)
    \<Longrightarrow> ks_count (sy_sema y) < n
    \<Longrightarrow> sema_step y (y\<lparr>sy_waiters := (sy_waiters y)(t := None)\<rparr>)"
| signal_full: "KernelSema_signal count (sy_sema y) = Val (False, s) \<Longrightarrow> sema_step y y"
| signal_ok: "KernelSema_signal count (sy_sema y) = Val (True, s)
    \<Longrightarrow> sema_step y (y\<lparr>sy_sema := s, sy_given := sy_given y + at_least_one count,
                       sy_notifying := Suc (sy_notifying y)\<rparr>)"
| signal_notify: "0 < sy_notifying y \<Longrightarrow> sema_step y (notify_all y)"

inductive sema_reachable :: "KernelSema \<Rightarrow> sema_system \<Rightarrow> bool" for s where
  reach_init: "sema_reachable s (sema_system_new s)"
| reach_step: "sema_reachable s y \<Longrightarrow> sema_step y z \<Longrightarrow> sema_reachable s z"

section \<open>Mutexes\<close>

text \<open>
  A \<^verbatim>\<open>std::mutex\<close>: locking it twice from one thread and unlocking it from another are undefined;
  \<open>None\<close> is a lock that blocks.
\<close>

record KernelMutex =
  km_name :: string
  km_owner :: "nat option"

definition KernelMutex_new :: "string \<Rightarrow> KernelMutex" where
  "KernelMutex_new name = \<lparr>km_name = name, km_owner = None\<rparr>"

definition KernelMutex_lock :: "nat \<Rightarrow> KernelMutex \<Rightarrow> KernelMutex option cpp" where
  "KernelMutex_lock t m =
     (case km_owner m of
        None \<Rightarrow> Val (Some (m\<lparr>km_owner := Some t\<rparr>))
      | Some u \<Rightarrow> if u = t then UB else Val None)"

definition KernelMutex_tryLock :: "nat \<Rightarrow> KernelMutex \<Rightarrow> (bool \<times> KernelMutex) cpp" where
  "KernelMutex_tryLock t m =
     (case km_owner m of
        None \<Rightarrow> Val (True, m\<lparr>km_owner := Some t\<rparr>)
      | Some u \<Rightarrow> if u = t then UB else Val (False, m))"

definition KernelMutex_unlock :: "nat \<Rightarrow> KernelMutex \<Rightarrow> KernelMutex cpp" where
  "KernelMutex_unlock t m = (if km_owner m = Some t then Val (m\<lparr>km_owner := None\<rparr>) else UB)"

section \<open>Lemmas\<close>

inductive_cases sema_stepE: "sema_step y z"

lemma at_least_one_pos [simp]: "0 < at_least_one n"
  by (simp add: at_least_one_def)

lemma signal_okD:
  assumes "KernelSema_signal count s = Val (True, s')"
  shows "s' = s\<lparr>ks_count := ks_count s + at_least_one count\<rparr>" and "ks_count s + at_least_one count \<le> ks_max s"
  using assms by (auto simp: KernelSema_signal_def Let_def split: if_splits)

text \<open>The units are accounted for and stay in range.\<close>

definition sema_units :: "KernelSema \<Rightarrow> sema_system \<Rightarrow> bool" where
  "sema_units s y \<longleftrightarrow>
     ks_max (sy_sema y) = ks_max s
     \<and> ks_count (sy_sema y) = ks_count s + sy_given y - sy_taken y
     \<and> (0 \<le> ks_count s \<longrightarrow> 0 \<le> ks_count (sy_sema y))
     \<and> (ks_count s \<le> ks_max s \<longrightarrow> ks_count (sy_sema y) \<le> ks_max s)
     \<and> (\<forall>t n b. sy_waiters y t = Some (Sleeping n b) \<or> sy_waiters y t = Some (Woken n b) \<longrightarrow> 0 < n)"

text \<open>No thread sleeps although the units it asks for are there, unless a signal has yet to notify.\<close>

definition sema_awake :: "sema_system \<Rightarrow> bool" where
  "sema_awake y \<longleftrightarrow> (\<forall>t n b. sy_waiters y t = Some (Sleeping n b)
     \<longrightarrow> ks_count (sy_sema y) < n \<or> 0 < sy_notifying y)"

lemma sema_units_new: "sema_units s (sema_system_new s)"
  by (simp add: sema_units_def sema_system_new_def)

lemma sema_awake_new: "sema_awake (sema_system_new s)"
  by (simp add: sema_awake_def sema_system_new_def)

lemma notify_not_sleeping: "map_option notify_waiter w \<noteq> Some (Sleeping n b)"
proof (cases w)
  case (Some x)
  then show ?thesis by (cases x) simp_all
qed simp

lemma notify_woken:
  "map_option notify_waiter w = Some (Woken n b) \<Longrightarrow> w = Some (Sleeping n b) \<or> w = Some (Woken n b)"
proof (cases w)
  case (Some x)
  then show "map_option notify_waiter w = Some (Woken n b) \<Longrightarrow> ?thesis" by (cases x) simp_all
qed simp

lemma sema_units_take:
  assumes "sema_units s y" and "0 < n" and "n \<le> ks_count (sy_sema y)"
  shows "sema_units s (take_units n y)"
proof -
  have "ks_count s \<le> ks_max s \<Longrightarrow> ks_count (sy_sema y) - n \<le> ks_max s"
    using assms(1,2) by (simp add: sema_units_def)
  with assms show ?thesis by (auto simp: sema_units_def take_units_def)
qed

lemma sema_units_forget:
  "sema_units s y \<Longrightarrow> sema_units s (y\<lparr>sy_waiters := (sy_waiters y)(t := None)\<rparr>)"
  by (auto simp: sema_units_def split: if_splits)

lemma sema_units_step:
  assumes "sema_units s y" and "sema_step y z"
  shows "sema_units s z"
  using assms(2)
proof cases
  case (signal_ok count s')
  moreover have "1 \<le> at_least_one count" by (simp add: at_least_one_def)
  ultimately show ?thesis
    using assms(1) signal_okD [OF signal_ok(2)] unfolding sema_units_def by simp linarith
next
  case signal_notify
  have "0 < n" if "sy_waiters z t = Some (Sleeping n b) \<or> sy_waiters z t = Some (Woken n b)" for t n b
  proof -
    have "sy_waiters y t = Some (Sleeping n b) \<or> sy_waiters y t = Some (Woken n b)"
      using that notify_woken [of "sy_waiters y t" n b] notify_not_sleeping [of "sy_waiters y t" n b]
      unfolding signal_notify(1) notify_all_def by auto
    then show ?thesis using assms(1) unfolding sema_units_def by blast
  qed
  moreover have "sy_sema z = sy_sema y" "sy_given z = sy_given y" "sy_taken z = sy_taken y"
    by (simp_all add: signal_notify(1) notify_all_def)
  ultimately show ?thesis using assms(1) unfolding sema_units_def by metis
next
  case (wait_at_once t n need)
  then show ?thesis using assms(1) by (simp add: sema_units_take)
next
  case (wait_done t n timed)
  then have "0 < n" using assms(1) unfolding sema_units_def by blast
  with wait_done assms(1) have "sema_units s (take_units n y)" by (simp add: sema_units_take)
  from sema_units_forget [OF this, of t] wait_done(1) show ?thesis by (simp add: take_units_def)
qed (use assms(1) in \<open>auto simp: sema_units_def take_units_def split: if_splits\<close>)

lemma sema_awake_step:
  assumes "sema_units s y" and "sema_awake y" and "sema_step y z"
  shows "sema_awake z"
  using assms(3)
proof cases
  case signal_notify
  then show ?thesis using notify_not_sleeping by (auto simp: sema_awake_def notify_all_def)
next
  case (wait_at_once t n need)
  then have "ks_count (sy_sema z) < ks_count (sy_sema y)" "sy_waiters z = sy_waiters y"
    "sy_notifying z = sy_notifying y"
    by (simp_all add: take_units_def)
  then show ?thesis using assms(2) unfolding sema_awake_def by (metis order.strict_trans)
next
  case (wait_done t n timed)
  then have "0 < n" using assms(1) unfolding sema_units_def by blast
  with wait_done have "ks_count (sy_sema z) < ks_count (sy_sema y)" "sy_notifying z = sy_notifying y"
    and "sy_waiters z u = Some (Sleeping m c) \<Longrightarrow> sy_waiters y u = Some (Sleeping m c)" for u m c
    by (simp_all add: take_units_def split: if_splits)
  then show ?thesis using assms(2) unfolding sema_awake_def by (metis order.strict_trans)
qed (use assms(2) in \<open>auto simp: sema_awake_def split: if_splits\<close>)

lemma sema_reachable_inv: "sema_reachable s y \<Longrightarrow> sema_units s y \<and> sema_awake y"
proof (induction rule: sema_reachable.induct)
  case reach_init
  show ?case by (simp add: sema_units_new sema_awake_new)
next
  case (reach_step y z)
  then show ?case by (blast intro: sema_units_step sema_awake_step)
qed

section \<open>Properties\<close>

text \<open>
  C19. Conservation of semaphore units. A semaphore is created with a positive maximum and a count between 0 and
  the maximum. Whatever the interleaving of waits, timeouts, spurious wake-ups and
  signals, the count is the initial count plus the units of the accepted signals minus the units of the
  successful waits, and stays between 0 and the maximum, so no wait succeeds on
  units that were not signalled.
\<close>

theorem sema_units_conserved:
  assumes "sema_reachable (KernelSema_new name i k) y" and "0 \<le> i" and "0 < k" and "i \<le> k"
  shows "ks_count (sy_sema y) = i + sy_given y - sy_taken y
    \<and> 0 \<le> ks_count (sy_sema y) \<and> ks_count (sy_sema y) \<le> k \<and> sy_taken y \<le> i + sy_given y"
  using sema_reachable_inv [OF assms(1)] assms(2-4)
  by (auto simp: sema_units_def KernelSema_new_def)

theorem sema_units_conserved_witness:
  "ks_count (sy_sema (take_units 2 (sema_system_new (KernelSema_new ''s'' 3 5)))) = 3 + 0 - 2"
proof -
  let ?s = "KernelSema_new ''s'' 3 5"
  have "sema_step (sema_system_new ?s) (take_units 2 (sema_system_new ?s))"
    by (rule wait_at_once [where t = 0 and need = 2])
      (simp_all add: sema_system_new_def at_least_one_def KernelSema_new_def)
  then have "sema_reachable ?s (take_units 2 (sema_system_new ?s))"
    by (rule reach_step [OF reach_init])
  from sema_units_conserved [OF this] show ?thesis
    by (simp add: take_units_def sema_system_new_def)
qed

text \<open>
  C18. No lost wake-up. A signal adds its units in one critical section and notifies after it has released the
  mutex. In every reachable state a thread that sleeps in \<^verbatim>\<open>wait\<close> although there are the units it
  asks for is about to be woken: some signal has not yet called \<^verbatim>\<open>notify_all\<close>. Every thread in \<^verbatim>\<open>wait\<close> whose
  request can be met returns with its units taken by its own next step if it is awake, and otherwise by the step that follows
  that notification; no further signal is needed.
\<close>

theorem sema_no_lost_wakeup:
  assumes "sema_reachable s y"
    and "sy_waiters y t = Some (Sleeping n b) \<or> sy_waiters y t = Some (Woken n b)"
    and "n \<le> ks_count (sy_sema y)"
  shows "(sy_waiters y t = Some (Sleeping n b) \<longrightarrow> 0 < sy_notifying y \<and> sema_step y (notify_all y))
    \<and> (\<exists>z. sema_step (if sy_waiters y t = Some (Woken n b) then y else notify_all y) z
         \<and> sy_waiters z t = None \<and> sy_taken z = sy_taken y + n \<and> sy_given z = sy_given y)"
proof -
  have s: "0 < sy_notifying y \<and> sema_step y (notify_all y)" if "sy_waiters y t = Some (Sleeping n b)"
    using sema_reachable_inv [OF assms(1)] assms(3) that signal_notify [of y] by (force simp: sema_awake_def)
  let ?y = "if sy_waiters y t = Some (Woken n b) then y else notify_all y"
  have w: "sy_waiters ?y t = Some (Woken n b)" "n \<le> ks_count (sy_sema ?y)" "sy_taken ?y = sy_taken y"
    "sy_given ?y = sy_given y"
    using assms(2,3) by (auto simp: notify_all_def)
  from wait_done [OF w(1,2)] show ?thesis
    using s w by (intro conjI impI exI [of _ "(take_units n ?y)\<lparr>sy_waiters := (sy_waiters ?y)(t := None)\<rparr>"])
      (simp_all add: take_units_def)
qed

definition sample_sema_system :: sema_system where
  "sample_sema_system =
     \<lparr>sy_sema = KernelSema_new ''s'' 1 2, sy_waiters = [7 \<mapsto> Sleeping 1 False], sy_notifying = 1,
      sy_taken = 0, sy_given = 1\<rparr>"

theorem sema_no_lost_wakeup_witness:
  "sy_waiters sample_sema_system 7 = Some (Sleeping 1 False) \<and> 0 < sy_notifying sample_sema_system
   \<and> (\<exists>z. sema_step (notify_all sample_sema_system) z \<and> sy_waiters z 7 = None \<and> sy_taken z = 1)"
proof -
  let ?s = "KernelSema_new ''s'' 0 2"
  define y where "y = (sema_system_new ?s)\<lparr>sy_waiters := [7 \<mapsto> Sleeping 1 False]\<rparr>"
  have 1: "sema_step (sema_system_new ?s) y"
    using wait_sleep [of "sema_system_new ?s" 7 1 1 False]
    by (simp add: y_def sema_system_new_def at_least_one_def KernelSema_new_def)
  have "KernelSema_signal 1 (sy_sema y) = Val (True, KernelSema_new ''s'' 1 2)"
    by (simp add: y_def sema_system_new_def KernelSema_new_def KernelSema_signal_def at_least_one_def
        int_max_def)
  from signal_ok [OF this]
  have 2: "sema_step y sample_sema_system"
    by (simp add: y_def sample_sema_system_def sema_system_new_def at_least_one_def)
  have "sema_reachable ?s sample_sema_system"
    by (rule reach_step [OF reach_step [OF reach_init 1] 2])
  note wake = sema_no_lost_wakeup [OF this, of 7 1 False]
  have "sy_waiters sample_sema_system 7 = Some (Sleeping 1 False)" and "sy_taken sample_sema_system = 0"
    and "1 \<le> ks_count (sy_sema sample_sema_system)"
    by (simp_all add: sample_sema_system_def KernelSema_new_def)
  with wake show ?thesis by auto
qed

end
