(* ===== verification/Sce_Kernel.thy ===== *)
theory Sce_Kernel
  imports Kernel_Objects Handles Threads Guest_Memory Sce_Stub_Table
begin

text \<open>
  \<^verbatim>\<open>sce/kernel/SceKernel.cpp\<close>: the exports of libSceKernel for semaphores, event queues and threads,
  over the process's handle table and thread manager. A null pointer is address 0; a call that blocks
  is \<open>None\<close>.
\<close>

section \<open>Objects behind handles\<close>

text \<open>What the dynamic casts tell apart; the local \<^verbatim>\<open>ThreadHandleObj\<close> carries a thread id.\<close>

datatype kernel_object = ObjSema KernelSema | ObjEvent EventHandle | ObjThread ThreadId | ObjOther

type_synonym kernel_table = "kernel_object HandleTable"

definition update_object :: "Handle \<Rightarrow> kernel_object \<Rightarrow> kernel_table \<Rightarrow> kernel_table" where
  "update_object h x t = t\<lparr>h_objects := um_assign h x (h_objects t)\<rparr>"

fun as_sema :: "kernel_object option \<Rightarrow> KernelSema option" where
  "as_sema (Some (ObjSema s)) = Some s"
| "as_sema _ = None"

fun as_event :: "kernel_object option \<Rightarrow> EventHandle option" where
  "as_event (Some (ObjEvent e)) = Some e"
| "as_event _ = None"

section \<open>Return codes\<close>

definition kSceOk :: u32 where "kSceOk = 0"
definition kSceErrorInvalidArg :: u32 where "kSceErrorInvalidArg = 0x80020005"
definition kSceErrorNotFound :: u32 where "kSceErrorNotFound = 0x80020004"
definition kSceErrorBusy :: u32 where "kSceErrorBusy = 0x8002000B"
definition kSceErrorTimeout :: u32 where "kSceErrorTimeout = 0x8002000C"

section \<open>Semaphores\<close>

definition sceKernelCreateSema ::
  "string option \<Rightarrow> u32 \<Rightarrow> int \<Rightarrow> int \<Rightarrow> kernel_table \<Rightarrow> u32 \<times> kernel_table" where
  "sceKernelCreateSema name attr initCount maxCount t =
     (let nm = (case name of None \<Rightarrow> [] | Some s \<Rightarrow> s)
      in registerObject (Some (ObjSema (KernelSema_new nm initCount maxCount))) t)"

definition sceKernelDeleteSema :: "Handle \<Rightarrow> kernel_table \<Rightarrow> u32 \<times> kernel_table" where
  "sceKernelDeleteSema sem t =
     (case HandleTable_get t sem of
        None \<Rightarrow> (kSceErrorNotFound, t)
      | Some _ \<Rightarrow> (kSceOk, snd (HandleTable_close sem t)))"

text \<open>The timeout is read as an \<^verbatim>\<open>unsigned int\<close> and converted to \<^verbatim>\<open>int\<close>; no pointer means \<open>-1\<close>.\<close>

definition sceKernelWaitSema ::
  "Handle \<Rightarrow> int \<Rightarrow> u32 option \<Rightarrow> kernel_table \<Rightarrow> (u32 \<times> kernel_table) option" where
  "sceKernelWaitSema sem needCount timeoutUs t =
     (case as_sema (HandleTable_get t sem) of
        None \<Rightarrow> Some (kSceErrorNotFound, t)
      | Some s \<Rightarrow>
          (let timeout = (case timeoutUs of None \<Rightarrow> -1 | Some v \<Rightarrow> sint v)
           in case KernelSema_wait needCount timeout s of
                None \<Rightarrow> None
              | Some (ok, s') \<Rightarrow>
                  Some (if ok then kSceOk else kSceErrorTimeout, update_object sem (ObjSema s') t)))"

definition sceKernelPollSema :: "Handle \<Rightarrow> int \<Rightarrow> kernel_table \<Rightarrow> (u32 \<times> kernel_table) option" where
  "sceKernelPollSema sem needCount t =
     (case as_sema (HandleTable_get t sem) of
        None \<Rightarrow> Some (kSceErrorNotFound, t)
      | Some s \<Rightarrow>
          (case KernelSema_wait needCount 0 s of
             None \<Rightarrow> None
           | Some (ok, s') \<Rightarrow>
               Some (if ok then kSceOk else kSceErrorBusy, update_object sem (ObjSema s') t)))"

definition sceKernelSignalSema :: "Handle \<Rightarrow> int \<Rightarrow> kernel_table \<Rightarrow> (u32 \<times> kernel_table) cpp" where
  "sceKernelSignalSema sem signalCount t =
     (case as_sema (HandleTable_get t sem) of
        None \<Rightarrow> Val (kSceErrorNotFound, t)
      | Some s \<Rightarrow>
          cpp_bind (KernelSema_signal signalCount s) (\<lambda>(ok, s').
            Val (if ok then kSceOk else kSceErrorBusy, update_object sem (ObjSema s') t)))"

section \<open>Event queues\<close>

definition sceKernelCreateEqueue :: "u64 \<Rightarrow> kernel_table \<Rightarrow> memory \<Rightarrow> (u32 \<times> kernel_table \<times> memory) cpp" where
  "sceKernelCreateEqueue eq t m =
     (if eq = 0 then Val (kSceErrorInvalidArg, t, m)
      else (case registerObject (Some (ObjEvent EventHandle_new)) t of
              (h, t') \<Rightarrow> cpp_bind (store_bytes eq (le_bytes 8 (scast h :: u64)) m) (\<lambda>m'.
                           Val (kSceOk, t', m'))))"

definition sceKernelDeleteEqueue :: "u64 \<Rightarrow> kernel_table \<Rightarrow> u32 \<times> kernel_table" where
  "sceKernelDeleteEqueue eq t =
     (let h = ucast eq
      in case HandleTable_get t h of
           None \<Rightarrow> (kSceErrorNotFound, t)
         | Some _ \<Rightarrow> (kSceOk, snd (HandleTable_close h t)))"

definition sizeof_SceKernelEvent :: nat where "sizeof_SceKernelEvent = 0x20"

definition sceKernelWaitEqueue ::
  "u64 \<Rightarrow> u64 \<Rightarrow> int \<Rightarrow> u64 \<Rightarrow> u32 option \<Rightarrow> kernel_table \<Rightarrow> memory \<Rightarrow> (u32 \<times> memory) option cpp" where
  "sceKernelWaitEqueue eq ev num out timeoutUs t m =
     (if eq = 0 \<or> ev = 0 \<or> num \<le> 0 then Val (Some (kSceErrorInvalidArg, m))
      else (case as_event (HandleTable_get t (ucast eq)) of
              None \<Rightarrow> Val (Some (kSceErrorNotFound, m))
            | Some evh \<Rightarrow>
                (let timeoutNs = (case timeoutUs of None \<Rightarrow> -1 | Some v \<Rightarrow> uint v * 1000)
                 in case EventHandle_wait 0 timeoutNs evh of
                      None \<Rightarrow> Val None
                    | Some ok \<Rightarrow>
                        if \<not> ok then Val (Some (kSceErrorTimeout, m))
                        else cpp_bind (store_bytes ev (replicate sizeof_SceKernelEvent 0) m) (\<lambda>m1.
                          if out = 0 then Val (Some (kSceOk, m1))
                          else cpp_bind (store_bytes out (le_bytes 4 (1 :: u32)) m1) (\<lambda>m2.
                            Val (Some (kSceOk, m2)))))))"

section \<open>Threads\<close>

text \<open>\<open>rc\<close> is the result of \<^verbatim>\<open>pthread_create\<close>; the call does not look at the result of \<^verbatim>\<open>start\<close>.\<close>

definition scePthreadCreate ::
  "int \<Rightarrow> u64 \<Rightarrow> u64 \<Rightarrow> string option \<Rightarrow> kernel_table \<Rightarrow> ThreadManager \<Rightarrow> memory
     \<Rightarrow> (u32 \<times> kernel_table \<times> ThreadManager \<times> memory) cpp" where
  "scePthreadCreate rc threadHandle entry name t tm m =
     (if threadHandle = 0 \<or> entry = 0 then Val (kSceErrorInvalidArg, t, tm, m)
      else (let nm = (case name of None \<Rightarrow> ''scePthread'' | Some s \<Rightarrow> s);
                (tid, tm1) = ThreadManager_create nm tm;
                (h, t1) = registerObject (Some (ObjThread tid)) t;
                (_, tm2) = ThreadManager_start rc tid tm1
            in cpp_bind (store_bytes threadHandle (le_bytes 8 (scast h :: u64)) m) (\<lambda>m'.
                 Val (kSceOk, t1, tm2, m'))))"

definition scePthreadJoin :: "u64 \<Rightarrow> kernel_table \<Rightarrow> u32" where
  "scePthreadJoin threadHandle t =
     (case HandleTable_get t (ucast threadHandle) of
        None \<Rightarrow> kSceErrorNotFound
      | Some _ \<Rightarrow> kSceOk)"

section \<open>Registration\<close>

definition kKernelExports :: "string list" where
  "kKernelExports =
     [''sceKernelCreateSema'', ''sceKernelDeleteSema'', ''sceKernelWaitSema'', ''sceKernelPollSema'',
      ''sceKernelSignalSema'', ''sceKernelCreateEqueue'', ''sceKernelDeleteEqueue'',
      ''sceKernelWaitEqueue'', ''scePthreadCreate'', ''scePthreadJoin'', ''sceKernelPrintf'',
      ''sceKernelDebugOutText'']"

text \<open>\<open>addr\<close> gives the addresses of the functions.\<close>

definition SceKernel_registerExports :: "(string \<Rightarrow> u64) \<Rightarrow> SceStubTable \<Rightarrow> SceStubTable" where
  "SceKernel_registerExports addr t =
     fold (\<lambda>fn t. registerStub ''libSceKernel'' fn (addr fn) t) kKernelExports t"

section \<open>Specification\<close>

text \<open>
  What the semaphore calls promise, over a map from handles to a count and a maximum. Objects of
  other kinds are there too, since a handle may name one.
\<close>

datatype spec_object = SpecSema int int | SpecOther

type_synonym spec_state = "Handle \<rightharpoonup> spec_object"

datatype sema_call = CallPoll Handle int | CallWait Handle int u32 | CallSignal Handle int | CallDelete Handle

definition spec_take :: "Handle \<Rightarrow> int \<Rightarrow> u32 \<Rightarrow> spec_state \<Rightarrow> u32 \<times> spec_state" where
  "spec_take h n failure m =
     (case m h of
        Some (SpecSema c k) \<Rightarrow>
          if max n 1 \<le> c then (kSceOk, m(h \<mapsto> SpecSema (c - max n 1) k)) else (failure, m)
      | _ \<Rightarrow> (kSceErrorNotFound, m))"

fun spec_call :: "sema_call \<Rightarrow> spec_state \<Rightarrow> u32 \<times> spec_state" where
  "spec_call (CallPoll h n) m = spec_take h n kSceErrorBusy m"
| "spec_call (CallWait h n us) m = spec_take h n kSceErrorTimeout m"
| "spec_call (CallSignal h n) m =
     (case m h of
        Some (SpecSema c k) \<Rightarrow>
          if c + max n 1 \<le> k then (kSceOk, m(h \<mapsto> SpecSema (c + max n 1) k)) else (kSceErrorBusy, m)
      | _ \<Rightarrow> (kSceErrorNotFound, m))"
| "spec_call (CallDelete h) m =
     (case m h of None \<Rightarrow> (kSceErrorNotFound, m) | Some _ \<Rightarrow> (kSceOk, m(h := None)))"

text \<open>The code's calls; \<open>UB\<close> stands for the undefined sum and for a call that never returns.\<close>

fun run_sema_call :: "sema_call \<Rightarrow> kernel_table \<Rightarrow> (u32 \<times> kernel_table) cpp" where
  "run_sema_call (CallPoll h n) t = (case sceKernelPollSema h n t of None \<Rightarrow> UB | Some r \<Rightarrow> Val r)"
| "run_sema_call (CallWait h n us) t = (case sceKernelWaitSema h n (Some us) t of None \<Rightarrow> UB | Some r \<Rightarrow> Val r)"
| "run_sema_call (CallSignal h n) t = sceKernelSignalSema h n t"
| "run_sema_call (CallDelete h) t = Val (sceKernelDeleteSema h t)"

fun abs_object :: "kernel_object \<Rightarrow> spec_object" where
  "abs_object (ObjSema s) = SpecSema (ks_count s) (ks_max s)"
| "abs_object _ = SpecOther"

definition abs_table :: "kernel_table \<Rightarrow> spec_state" where
  "abs_table t = (\<lambda>h. map_option abs_object (HandleTable_get t h))"

text \<open>Calls for which the arithmetic is defined and the timeout is not taken for an infinite one.\<close>

fun call_ok :: "sema_call \<Rightarrow> spec_state \<Rightarrow> bool" where
  "call_ok (CallSignal h n) m =
     (case m h of Some (SpecSema c k) \<Rightarrow> c + max n 1 \<le> int_max | _ \<Rightarrow> True)"
| "call_ok (CallWait h n us) m = (unat us < 2 ^ 31)"
| "call_ok _ m = True"

section \<open>Lemmas\<close>

lemma at_least_one_max: "at_least_one n = max n 1"
  by (simp add: at_least_one_def)

lemma get_update [simp]:
  "HandleTable_get (update_object h x t) j = (if j = h then Some x else HandleTable_get t j)"
  by (simp add: HandleTable_get_def update_object_def um_simps)

lemma abs_update: "abs_table (update_object h x t) = (abs_table t)(h \<mapsto> abs_object x)"
  by (auto simp: abs_table_def)

lemma get_close [simp]:
  "HandleTable_get (snd (HandleTable_close h t)) j = (if j = h then None else HandleTable_get t j)"
  by (auto simp: HandleTable_close_def HandleTable_get_def um_simps split: option.splits)

lemma abs_close: "abs_table (snd (HandleTable_close h t)) = (abs_table t)(h := None)"
  by (auto simp: abs_table_def)

lemma as_sema_Some: "as_sema x = Some s \<longleftrightarrow> x = Some (ObjSema s)"
  by (cases x rule: as_sema.cases) auto

lemma abs_sema:
  "as_sema (HandleTable_get t h) = Some s \<Longrightarrow> abs_table t h = Some (SpecSema (ks_count s) (ks_max s))"
  by (simp add: as_sema_Some abs_table_def)

lemma abs_not_sema:
  "as_sema (HandleTable_get t h) = None \<Longrightarrow> abs_table t h \<noteq> Some (SpecSema c k)"
proof (cases "HandleTable_get t h")
  case (Some x)
  then show "as_sema (HandleTable_get t h) = None \<Longrightarrow> ?thesis" by (cases x) (simp_all add: abs_table_def)
qed (simp add: abs_table_def)

lemma abs_same: "abs_table t h = Some x \<Longrightarrow> (abs_table t)(h \<mapsto> x) = abs_table t"
  by auto

lemma sint_nonneg: "unat (us :: u32) < 2 ^ 31 \<Longrightarrow> \<not> sint us < 0"
proof -
  assume "unat us < 2 ^ 31"
  then have "\<not> bit (unat us) 31" by (simp add: bit_iff_odd)
  then have "\<not> bit us 31" by (simp add: bit_unsigned_iff)
  then have "sint us = take_bit 31 (uint us)"
    by (simp add: sint_uint signed_take_bit_eq_if_positive bit_uint_iff)
  then show ?thesis by simp
qed

lemma poll_refines:
  assumes "KernelSema_wait n us s = Some (ok, s')" and "as_sema (HandleTable_get t h) = Some s"
  shows "(if ok then kSceOk else failure, abs_table (update_object h (ObjSema s') t))
    = spec_take h n failure (abs_table t)"
  using assms(1) abs_sema [OF assms(2)] abs_same [OF abs_sema [OF assms(2)]]
  by (auto simp: KernelSema_wait_def spec_take_def at_least_one_max abs_update Let_def split: if_splits)

lemma wait_returns: "0 \<le> us \<Longrightarrow> \<exists>r. KernelSema_wait n us s = Some r"
  by (auto simp: KernelSema_wait_def Let_def)

lemma spec_not_sema:
  assumes "as_sema (HandleTable_get t h) = None"
  shows "spec_take h n failure (abs_table t) = (kSceErrorNotFound, abs_table t)"
    and "fst (spec_call (CallSignal h n) (abs_table t)) = kSceErrorNotFound"
    and "snd (spec_call (CallSignal h n) (abs_table t)) = abs_table t"
  using abs_not_sema [OF assms] by (auto simp: spec_take_def split: option.split spec_object.split)

lemma run_sema_call_refines:
  assumes "call_ok q (abs_table t)"
  obtains r t' where "run_sema_call q t = Val (r, t')" and "spec_call q (abs_table t) = (r, abs_table t')"
proof (cases q)
  case (CallPoll h n)
  show ?thesis
  proof (cases "as_sema (HandleTable_get t h)")
    case None
    with that [of kSceErrorNotFound t] show ?thesis
      by (simp add: CallPoll sceKernelPollSema_def spec_not_sema)
  next
    case (Some s)
    obtain ok s' where w: "KernelSema_wait n 0 s = Some (ok, s')" using wait_returns [of 0 n s] by auto
    from that [of "if ok then kSceOk else kSceErrorBusy" "update_object h (ObjSema s') t"] show ?thesis
      using poll_refines [OF w Some, of kSceErrorBusy] by (simp add: CallPoll sceKernelPollSema_def w Some)
  qed
next
  case (CallWait h n us)
  show ?thesis
  proof (cases "as_sema (HandleTable_get t h)")
    case None
    with that [of kSceErrorNotFound t] show ?thesis
      by (simp add: CallWait sceKernelWaitSema_def spec_not_sema)
  next
    case (Some s)
    have "0 \<le> sint us" using assms sint_nonneg [of us] by (simp add: CallWait)
    then obtain ok s' where w: "KernelSema_wait n (sint us) s = Some (ok, s')"
      using wait_returns [of "sint us" n s] by auto
    from that [of "if ok then kSceOk else kSceErrorTimeout" "update_object h (ObjSema s') t"] show ?thesis
      using poll_refines [OF w Some, of kSceErrorTimeout]
      by (simp add: CallWait sceKernelWaitSema_def w Some)
  qed
next
  case (CallSignal h n)
  show ?thesis
  proof (cases "as_sema (HandleTable_get t h)")
    case None
    with that [of kSceErrorNotFound t] spec_not_sema(2,3) [OF None, of n] show ?thesis
      by (simp add: CallSignal sceKernelSignalSema_def prod_eq_iff)
  next
    case (Some s)
    note a = abs_sema [OF Some]
    have fit: "\<not> ks_count s + max n 1 > int_max" using assms a by (simp add: CallSignal)
    show ?thesis
    proof (cases "ks_count s + max n 1 \<le> ks_max s")
      case True
      with that [of kSceOk "update_object h (ObjSema (s\<lparr>ks_count := ks_count s + max n 1\<rparr>)) t"] fit
      show ?thesis
        by (simp add: CallSignal sceKernelSignalSema_def Some a KernelSema_signal_def at_least_one_max
            abs_update Let_def)
    next
      case False
      with that [of kSceErrorBusy "update_object h (ObjSema s) t"] fit show ?thesis
        by (simp add: CallSignal sceKernelSignalSema_def Some a KernelSema_signal_def at_least_one_max
            abs_update abs_same Let_def)
    qed
  qed
next
  case (CallDelete h)
  show ?thesis
  proof (cases "HandleTable_get t h")
    case None
    with that [of kSceErrorNotFound t] show ?thesis
      by (simp add: CallDelete sceKernelDeleteSema_def abs_table_def)
  next
    case (Some x)
    then have "abs_table t h = Some (abs_object x)" by (simp add: abs_table_def)
    with that [of kSceOk "snd (HandleTable_close h t)"] Some show ?thesis
      by (simp add: CallDelete sceKernelDeleteSema_def abs_close)
  qed
qed

section \<open>Sequences of calls\<close>

fun run_sema_calls :: "sema_call list \<Rightarrow> kernel_table \<Rightarrow> (u32 list \<times> kernel_table) cpp" where
  "run_sema_calls [] t = Val ([], t)"
| "run_sema_calls (q # qs) t =
     cpp_bind (run_sema_call q t) (\<lambda>(r, t').
       cpp_bind (run_sema_calls qs t') (\<lambda>(rs, t''). Val (r # rs, t'')))"

fun spec_calls :: "sema_call list \<Rightarrow> spec_state \<Rightarrow> u32 list \<times> spec_state" where
  "spec_calls [] m = ([], m)"
| "spec_calls (q # qs) m =
     (case spec_call q m of (r, m') \<Rightarrow> case spec_calls qs m' of (rs, m'') \<Rightarrow> (r # rs, m''))"

fun calls_ok :: "sema_call list \<Rightarrow> spec_state \<Rightarrow> bool" where
  "calls_ok [] m = True"
| "calls_ok (q # qs) m = (call_ok q m \<and> calls_ok qs (snd (spec_call q m)))"

lemma run_sema_calls_refines:
  "calls_ok qs (abs_table t) \<Longrightarrow>
     \<exists>rs t'. run_sema_calls qs t = Val (rs, t') \<and> spec_calls qs (abs_table t) = (rs, abs_table t')"
proof (induction qs arbitrary: t)
  case (Cons q qs)
  then obtain r t' where 1: "run_sema_call q t = Val (r, t')" "spec_call q (abs_table t) = (r, abs_table t')"
    by (auto elim: run_sema_call_refines)
  with Cons.prems have "calls_ok qs (abs_table t')" by simp
  from Cons.IH [OF this] obtain rs t'' where "run_sema_calls qs t' = Val (rs, t'')"
    "spec_calls qs (abs_table t') = (rs, abs_table t'')" by blast
  with 1 show ?case by simp
qed simp

section \<open>Properties\<close>

text \<open>
  C20. The semaphore exports refine bounded counters named by handles. A semaphore created by
  \<^verbatim>\<open>sceKernelCreateSema\<close> starts with its counters, and any sequence of poll, timed wait, signal and
  delete calls on any handles (with sums in the range of \<^verbatim>\<open>int\<close> and timeouts below \<open>2 ^ 31\<close> microseconds) is defined,
  returns, and gives call by call the codes of the specification: a take succeeds exactly when the
  units are there, a signal exactly when the maximum is kept, and other handles and objects of other kinds are untouched.
\<close>

theorem sema_exports_refine_counters:
  assumes "handle_inv t" and "handle_room t"
    and "sceKernelCreateSema name attr i k t = (h, t0)"
    and "calls_ok qs ((abs_table t)(h \<mapsto> SpecSema i (max k 1)))"
  shows "abs_table t h = None
    \<and> (\<exists>rs t'. run_sema_calls qs t0 = Val (rs, t')
         \<and> spec_calls qs ((abs_table t)(h \<mapsto> SpecSema i (max k 1))) = (rs, abs_table t'))"
proof -
  let ?x = "ObjSema (KernelSema_new (case name of None \<Rightarrow> [] | Some s \<Rightarrow> s) i k)"
  have reg: "registerObject (Some ?x) t = (h, t0)" using assms(3) by (simp add: sceKernelCreateSema_def)
  have a: "abs_table t0 = (abs_table t)(h \<mapsto> SpecSema i (max k 1))"
    using handles.lookup_register [OF assms(1,2) reg]
    by (auto simp: abs_table_def KernelSema_new_def)
  have "abs_table t h = None"
    using handles.register_fresh [OF assms(1,2) reg] by (simp add: abs_table_def)
  with run_sema_calls_refines [of qs t0] assms(4) show ?thesis by (simp add: a)
qed

theorem sema_exports_refine_counters_witness:
  "\<exists>rs t'. run_sema_calls [CallPoll 3 1, CallPoll 3 1, CallSignal 3 2, CallWait 3 2 1000, CallDelete 3, CallPoll 3 1]
       (snd (sceKernelCreateSema None 0 1 2 HandleTable_new)) = Val (rs, t')
     \<and> rs = [kSceOk, kSceErrorBusy, kSceOk, kSceOk, kSceOk, kSceErrorNotFound]"
proof -
  let ?t = "HandleTable_new :: kernel_table"
  have r: "handle_room ?t" by (simp add: handle_room_def HandleTable_new_def)
  have c: "sceKernelCreateSema None 0 1 2 ?t = (3, snd (sceKernelCreateSema None 0 1 2 ?t))"
    by (simp add: sceKernelCreateSema_def registerObject_def HandleTable_new_def)
  have e: "abs_table ?t = Map.empty" by (auto simp: abs_table_def HandleTable_get_def HandleTable_new_def um_simps)
  let ?qs = "[CallPoll 3 1, CallPoll 3 1, CallSignal 3 2, CallWait 3 2 1000, CallDelete 3, CallPoll 3 1]"
  have ok: "calls_ok ?qs ((abs_table ?t)(3 \<mapsto> SpecSema 1 (max 2 1)))"
    by (simp add: e spec_take_def int_max_def)
  have "fst (spec_calls ?qs ((abs_table ?t)(3 \<mapsto> SpecSema 1 (max 2 1))))
      = [kSceOk, kSceErrorBusy, kSceOk, kSceOk, kSceOk, kSceErrorNotFound]"
    by (simp add: e spec_take_def)
  with sema_exports_refine_counters [OF handle_inv_new r c ok] show ?thesis by auto
qed

end
