(* ===== verification/Save_Container.thy ===== *)
theory Save_Container
  imports Prelude
begin

text \<open>
  \<^verbatim>\<open>sce/savedata/SaveContainer.cpp\<close>: the save-file format of the runtime, a header, fixed-size entry
  descriptors and the concatenated payload, protected by a CRC-32. A \<^verbatim>\<open>std::string\<close> is a list of
  characters, one byte each; the clock is an argument.
\<close>

unbundle bit_operations_syntax

section \<open>Checksum\<close>

definition crc_bit :: "u32 \<Rightarrow> u32" where
  "crc_bit crc = drop_bit 1 crc XOR (0xEDB88320 AND NOT ((crc AND 1) - 1))"

definition crc_byte :: "u32 \<Rightarrow> u8 \<Rightarrow> u32" where
  "crc_byte crc b = (crc_bit ^^ 8) (crc XOR ucast b)"

definition crc32 :: "u8 list \<Rightarrow> u32" where
  "crc32 bytes = NOT (foldl crc_byte 0xFFFFFFFF bytes)"

section \<open>Strings in fixed fields\<close>

text \<open>The field was zeroed before, so it is zero behind the terminator.\<close>

definition copyStr :: "nat \<Rightarrow> string \<Rightarrow> u8 list" where
  "copyStr cap s =
     (let n = min (cap - 1) (length s) in map char_byte (take n s) @ replicate (cap - n) 0)"

definition readStr :: "u8 list \<Rightarrow> string" where
  "readStr field = map byte_char (takeWhile (\<lambda>b. b \<noteq> 0) field)"

section \<open>Container\<close>

record SaveEntry =
  se_name :: string
  se_data :: "u8 list"
  se_flags :: u32

record SaveContainer =
  sc_titleId :: u64
  sc_titleName :: string
  sc_subtitle :: string
  sc_detail :: string
  sc_createdAt :: u64
  sc_modifiedAt :: u64
  sc_entries :: "SaveEntry list"

definition SaveContainer_new :: SaveContainer where
  "SaveContainer_new =
     \<lparr>sc_titleId = 0, sc_titleName = [], sc_subtitle = [], sc_detail = [], sc_createdAt = 0,
      sc_modifiedAt = 0, sc_entries = []\<rparr>"

definition kSaveMagic :: u32 where "kSaveMagic = 0x54414453"
definition kSaveVersion :: u32 where "kSaveVersion = 1"

text \<open>Without a data pointer the entry's bytes are the zeros of the resized vector.\<close>

definition SaveContainer_addEntry ::
  "u64 \<Rightarrow> string \<Rightarrow> u8 list option \<Rightarrow> nat \<Rightarrow> u32 \<Rightarrow> SaveContainer \<Rightarrow> SaveContainer cpp" where
  "SaveContainer_addEntry now name data sz flags c =
     cpp_bind (case data of
                 None \<Rightarrow> Val (replicate sz 0)
               | Some bs \<Rightarrow> if sz = 0 then Val [] else read_buffer bs 0 sz) (\<lambda>bytes.
       Val (c\<lparr>sc_createdAt := (if sc_createdAt c = 0 then now else sc_createdAt c),
              sc_modifiedAt := now,
              sc_entries := sc_entries c @ [\<lparr>se_name = name, se_data = bytes, se_flags = flags\<rparr>]\<rparr>))"

definition SaveContainer_entry :: "string \<Rightarrow> SaveContainer \<Rightarrow> SaveEntry option" where
  "SaveContainer_entry name c = List.find (\<lambda>e. se_name e = name) (sc_entries c)"

definition SaveContainer_hasEntry :: "string \<Rightarrow> SaveContainer \<Rightarrow> bool" where
  "SaveContainer_hasEntry name c \<longleftrightarrow> SaveContainer_entry name c \<noteq> None"

definition SaveContainer_entryNames :: "SaveContainer \<Rightarrow> string list" where
  "SaveContainer_entryNames c = map se_name (sc_entries c)"

section \<open>Serialisation\<close>

definition sizeof_Header :: nat where "sizeof_Header = 496"
definition sizeof_Entry :: nat where "sizeof_Entry = 88"

definition encode_entry :: "u64 \<Rightarrow> SaveEntry \<Rightarrow> u8 list" where
  "encode_entry offset e =
     le_bytes 8 offset @ le_bytes 8 (of_nat (length (se_data e)) :: u64) @ le_bytes 4 (se_flags e)
     @ le_bytes 4 (0 :: u32) @ copyStr 64 (se_name e)"

fun entries_on_disk :: "u64 \<Rightarrow> SaveEntry list \<Rightarrow> u8 list" where
  "entries_on_disk offset [] = []"
| "entries_on_disk offset (e # es) =
     encode_entry offset e @ entries_on_disk (offset + of_nat (length (se_data e))) es"

definition payload_of :: "SaveEntry list \<Rightarrow> u8 list" where
  "payload_of es = concat (map se_data es)"

definition encode_header :: "SaveContainer \<Rightarrow> u32 \<Rightarrow> u32 \<Rightarrow> u8 list" where
  "encode_header c payloadSize payloadCrc =
     le_bytes 4 kSaveMagic @ le_bytes 4 kSaveVersion @ le_bytes 8 (sc_titleId c)
     @ le_bytes 8 (sc_createdAt c) @ le_bytes 8 (sc_modifiedAt c)
     @ le_bytes 4 (of_nat (length (sc_entries c)) :: u32) @ le_bytes 4 (0 :: u32)
     @ copyStr 64 (sc_titleName c) @ copyStr 128 (sc_subtitle c) @ copyStr 256 (sc_detail c)
     @ le_bytes 4 payloadSize @ le_bytes 4 payloadCrc"

definition SaveContainer_serialize :: "SaveContainer \<Rightarrow> u8 list" where
  "SaveContainer_serialize c =
     (let payload = payload_of (sc_entries c)
      in encode_header c (of_nat (length payload)) (crc32 payload)
         @ entries_on_disk 0 (sc_entries c) @ payload)"

section \<open>Deserialisation\<close>

record HeaderOnDisk =
  hd_magic :: u32
  hd_version :: u32
  hd_titleId :: u64
  hd_createdAt :: u64
  hd_modifiedAt :: u64
  hd_entryCount :: u32
  hd_titleName :: "u8 list"
  hd_subtitle :: "u8 list"
  hd_detail :: "u8 list"
  hd_payloadSize :: u32
  hd_payloadCrc :: u32

definition decode_header :: "u8 list \<Rightarrow> HeaderOnDisk" where
  "decode_header bs =
     \<lparr>hd_magic = le_field 0 4 bs, hd_version = le_field 4 4 bs, hd_titleId = le_field 8 8 bs,
      hd_createdAt = le_field 16 8 bs, hd_modifiedAt = le_field 24 8 bs,
      hd_entryCount = le_field 32 4 bs, hd_titleName = take 64 (drop 40 bs),
      hd_subtitle = take 128 (drop 104 bs), hd_detail = take 256 (drop 232 bs),
      hd_payloadSize = le_field 488 4 bs, hd_payloadCrc = le_field 492 4 bs\<rparr>"

record EntryOnDisk =
  ed_offset :: u64
  ed_size :: u64
  ed_flags :: u32
  ed_name :: "u8 list"

definition decode_entry :: "u8 list \<Rightarrow> EntryOnDisk" where
  "decode_entry bs =
     \<lparr>ed_offset = le_field 0 8 bs, ed_size = le_field 8 8 bs, ed_flags = le_field 16 4 bs,
      ed_name = take 64 (drop 24 bs)\<rparr>"

text \<open>The loop over the descriptors: the entries read so far and whether it finished.\<close>

fun read_entries ::
  "u8 list \<Rightarrow> nat \<Rightarrow> nat \<Rightarrow> u32 \<Rightarrow> nat \<Rightarrow> SaveEntry list \<Rightarrow> (bool \<times> SaveEntry list) cpp" where
  "read_entries bytes pos payload payloadSize 0 acc = Val (True, acc)"
| "read_entries bytes pos payload payloadSize (Suc n) acc =
     cpp_bind (read_buffer bytes pos sizeof_Entry) (\<lambda>bs.
       let ed = decode_entry bs
       in if ed_offset ed + ed_size ed > ucast payloadSize then Val (False, acc)
          else cpp_bind (if ed_size ed = 0 then Val []
                         else read_buffer bytes (payload + unat (ed_offset ed)) (unat (ed_size ed))) (\<lambda>d.
            read_entries bytes (pos + sizeof_Entry) payload payloadSize n
              (acc @ [\<lparr>se_name = readStr (ed_name ed), se_data = d, se_flags = ed_flags ed\<rparr>])))"

definition SaveContainer_deserialize ::
  "u8 list option \<Rightarrow> SaveContainer \<Rightarrow> (bool \<times> SaveContainer) cpp" where
  "SaveContainer_deserialize data out =
     (case data of
        None \<Rightarrow> Val (False, out)
      | Some bytes \<Rightarrow>
          if length bytes < sizeof_Header then Val (False, out)
          else
            (let h = decode_header (take sizeof_Header bytes);
                 entriesBytes = unat (hd_entryCount h) * sizeof_Entry;
                 payload = sizeof_Header + entriesBytes
             in if hd_magic h \<noteq> kSaveMagic then Val (False, out)
                else if hd_version h \<noteq> kSaveVersion then Val (False, out)
                else if payload + unat (hd_payloadSize h) > length bytes then Val (False, out)
                else
                  (let out = SaveContainer_new\<lparr>sc_titleId := hd_titleId h,
                         sc_createdAt := hd_createdAt h, sc_modifiedAt := hd_modifiedAt h,
                         sc_titleName := readStr (hd_titleName h),
                         sc_subtitle := readStr (hd_subtitle h), sc_detail := readStr (hd_detail h)\<rparr>
                   in if crc32 (take (unat (hd_payloadSize h)) (drop payload bytes)) \<noteq> hd_payloadCrc h
                      then Val (False, out)
                      else cpp_bind (read_entries bytes sizeof_Header payload (hd_payloadSize h)
                                       (unat (hd_entryCount h)) []) (\<lambda>(ok, es).
                        Val (ok, out\<lparr>sc_entries := es\<rparr>)))))"

section \<open>The checksum detects a corrupted byte\<close>

lemma crc_bit_alt: "crc_bit x = drop_bit 1 x XOR (if odd x then 0xEDB88320 else 0)"
proof (cases "odd x")
  case True
  then have "x AND 1 = 1" by (simp add: and_one_eq odd_iff_mod_2_eq_one)
  with True show ?thesis by (simp add: crc_bit_def)
next
  case False
  then have "x AND 1 = 0" by (simp add: and_one_eq even_iff_mod_2_eq_zero)
  with False show ?thesis by (simp add: crc_bit_def)
qed

lemma xor_cancel: "x XOR z = y XOR z \<longleftrightarrow> x = y" for x y z :: "'a::len word"
  by (auto simp: bit_eq_iff bit_xor_iff)

lemma crc_bit_top: "bit (crc_bit x) 31 \<longleftrightarrow> odd x"
  by (auto simp: crc_bit_alt bit_xor_iff bit_drop_bit_eq dest: bit_imp_le_length)

lemma inj_crc_bit: "inj crc_bit"
proof (rule injI)
  fix x y assume eq: "crc_bit x = crc_bit y"
  then have o: "odd x \<longleftrightarrow> odd y" by (metis crc_bit_top)
  then have "drop_bit 1 x = drop_bit 1 y"
    using eq by (simp add: crc_bit_alt xor_cancel split: if_splits)
  then have high: "bit x (Suc n) = bit y (Suc n)" for n
    by (metis bit_drop_bit_eq comp_apply plus_1_eq_Suc)
  show "x = y"
  proof (rule bit_word_eqI)
    fix n show "bit x n = bit y n" using high o by (cases n) (simp_all add: bit_0)
  qed
qed

lemma unat_ucast_8_32: "unat (ucast (x :: u8) :: u32) = unat x"
proof -
  have "unat x < 2 ^ 32" using unsigned_less [of x, where ?'a = nat] by simp
  then show ?thesis by (simp add: unsigned_ucast_eq take_bit_nat_eq_self)
qed

lemma inj_crc_byte: "inj (\<lambda>c. crc_byte c b)" and inj_crc_byte_data: "inj (crc_byte c)"
proof -
  have f: "inj (crc_bit ^^ 8)" by (rule inj_fn [OF inj_crc_bit])
  show "inj (\<lambda>c. crc_byte c b)"
    unfolding crc_byte_def
    by (rule injI, drule injD [OF f]) (simp add: xor_cancel)
  show "inj (crc_byte c)"
    unfolding crc_byte_def
  proof (rule injI, drule injD [OF f])
    fix x y :: u8 assume "c XOR ucast x = c XOR (ucast y :: u32)"
    then have "(ucast x :: u32) = ucast y" by (simp add: xor_cancel xor.commute [of c])
    then have "unat (ucast x :: u32) = unat (ucast y :: u32)" by simp
    then show "x = y" by (simp only: unat_ucast_8_32 unsigned_word_eqI)
  qed
qed

lemma foldl_crc_inj: "foldl crc_byte c bs = foldl crc_byte c' bs \<Longrightarrow> c = c'"
  by (induction bs arbitrary: c c') (auto dest: injD [OF inj_crc_byte])

lemma crc32_one_byte:
  assumes "x \<noteq> y"
  shows "crc32 (xs @ x # ys) \<noteq> crc32 (xs @ y # ys)"
proof
  assume "crc32 (xs @ x # ys) = crc32 (xs @ y # ys)"
  then have "foldl crc_byte (crc_byte (foldl crc_byte 0xFFFFFFFF xs) x) ys
      = foldl crc_byte (crc_byte (foldl crc_byte 0xFFFFFFFF xs) y) ys"
    by (simp add: crc32_def)
  from foldl_crc_inj [OF this] have "x = y" by (rule injD [OF inj_crc_byte_data])
  with assms show False ..
qed

section \<open>Reading what was written\<close>

definition field_ok :: "nat \<Rightarrow> string \<Rightarrow> bool" where
  "field_ok cap s \<longleftrightarrow> length s < cap \<and> char_of (0 :: nat) \<notin> set s"

lemma length_copyStr [simp]: "0 < cap \<Longrightarrow> length (copyStr cap s) = cap"
  by (simp add: copyStr_def Let_def)

lemma readStr_copyStr: "field_ok cap s \<Longrightarrow> readStr (copyStr cap s) = s"
proof -
  assume ok: "field_ok cap s"
  then obtain k where k: "cap - length s = Suc k" by (cases "cap - length s") (auto simp: field_ok_def)
  have "copyStr cap s = map char_byte s @ 0 # replicate k 0"
  proof -
    have "min (cap - 1) (length s) = length s" using ok unfolding field_ok_def by linarith
    with k show ?thesis by (simp add: copyStr_def)
  qed
  moreover have "takeWhile (\<lambda>b. b \<noteq> 0) (map char_byte s @ 0 # replicate k 0) = map char_byte s"
    using ok by (intro takeWhile_append_stop) (auto simp: char_byte_eq_0 field_ok_def)
  ultimately show ?thesis by (simp add: readStr_def byte_char_char_byte comp_def)
qed

lemma length_encode_entry [simp]: "length (encode_entry off e) = sizeof_Entry"
  by (simp add: encode_entry_def sizeof_Entry_def)

lemma length_encode_header [simp]: "length (encode_header c n k) = sizeof_Header"
  by (simp add: encode_header_def sizeof_Header_def)

lemma length_entries_on_disk [simp]: "length (entries_on_disk off es) = length es * sizeof_Entry"
  by (induction es arbitrary: off) simp_all

lemma decode_encode_entry:
  "decode_entry (encode_entry off e) =
     \<lparr>ed_offset = off, ed_size = of_nat (length (se_data e)), ed_flags = se_flags e,
      ed_name = copyStr 64 (se_name e)\<rparr>"
  unfolding decode_entry_def
  by (rule EntryOnDisk.equality; simp?; (rule le_field_le_bytes)?; simp add: encode_entry_def)

lemma decode_encode_header:
  "decode_header (encode_header c n k) =
     \<lparr>hd_magic = kSaveMagic, hd_version = kSaveVersion, hd_titleId = sc_titleId c,
      hd_createdAt = sc_createdAt c, hd_modifiedAt = sc_modifiedAt c,
      hd_entryCount = of_nat (length (sc_entries c)), hd_titleName = copyStr 64 (sc_titleName c),
      hd_subtitle = copyStr 128 (sc_subtitle c), hd_detail = copyStr 256 (sc_detail c),
      hd_payloadSize = n, hd_payloadCrc = k\<rparr>"
  unfolding decode_header_def
  by (rule HeaderOnDisk.equality; simp?; (rule le_field_le_bytes)?; simp add: encode_header_def)

lemma unat_of_nat_32: "n \<le> unat (k :: u32) \<Longrightarrow> unat (of_nat n :: u64) = n"
  using unat_lt_32 [of k] by (simp add: unat_of_nat take_bit_nat_eq_self del: unat_lt_32)

lemma unat_ucast_32_64: "unat (ucast (k :: u32) :: u64) = unat k"
proof -
  have "unat k < 2 ^ 64" using unat_lt_32 [of k] by (simp del: unat_lt_32)
  then show ?thesis by (simp add: unsigned_ucast_eq take_bit_nat_eq_self)
qed

lemma SaveEntry_collapse [simp]:
  "\<lparr>se_name = se_name e, se_data = se_data e, se_flags = se_flags e\<rparr> = e"
  by simp

lemma read_entries_written:
  assumes "\<forall>e\<in>set es. field_ok 64 (se_name e)" and "length pl + length (payload_of es) \<le> unat ps"
  shows "read_entries (A @ entries_on_disk (of_nat (length pl)) es @ pl @ payload_of es)
      (length A) (length A + length es * sizeof_Entry) ps (length es) acc = Val (True, acc @ es)"
  using assms
proof (induction es arbitrary: A pl acc)
  case Nil
  then show ?case by simp
next
  case (Cons e es)
  let ?enc = "encode_entry (of_nat (length pl)) e" and ?pl = "pl @ se_data e"
  let ?bytes = "A @ entries_on_disk (of_nat (length pl)) (e # es) @ pl @ payload_of (e # es)"
  have bytes: "?bytes = (A @ ?enc) @ entries_on_disk (of_nat (length ?pl)) es @ ?pl @ payload_of es"
    by (simp add: payload_of_def)
  have bnd: "length pl + length (se_data e) \<le> unat ps" "length ?pl + length (payload_of es) \<le> unat ps"
    using Cons.prems(2) by (simp_all add: payload_of_def)
  then have "length pl \<le> unat ps" "length (se_data e) \<le> unat ps" by linarith+
  note u = unat_of_nat_32 [OF this(1)] unat_of_nat_32 [OF this(2)]
  have "\<not> (ucast ps :: u64) < of_nat (length pl) + of_nat (length (se_data e))"
    using unat_of_nat_32 [OF bnd(1)] bnd(1)
    by (simp add: word_less_nat_alt unat_ucast_32_64 flip: of_nat_add)
  moreover have "read_buffer ?bytes (length A) sizeof_Entry = Val ?enc"
    using read_buffer_append [of A "length A" ?enc sizeof_Entry] by simp
  moreover have "read_buffer ?bytes (length A + length (e # es) * sizeof_Entry + length pl)
      (length (se_data e)) = Val (se_data e)"
    using read_buffer_append
      [of "A @ ?enc @ entries_on_disk (of_nat (length ?pl)) es @ pl" _ "se_data e" _ "payload_of es"]
    by (simp add: payload_of_def)
  moreover have "of_nat (length (se_data e)) = (0 :: u64) \<Longrightarrow>
      \<lparr>se_name = se_name e, se_data = [], se_flags = se_flags e\<rparr> = e"
    using u(2) by (metis length_0_conv unat_0 SaveEntry.surjective old.unit.exhaust)
  moreover have "readStr (copyStr 64 (se_name e)) = se_name e"
    using Cons.prems(1) by (simp add: readStr_copyStr)
  moreover have "read_entries ?bytes (length A + sizeof_Entry) (length A + length (e # es) * sizeof_Entry)
      ps (length es) (acc @ [e]) = Val (True, acc @ e # es)"
    using Cons.IH [of ?pl "A @ ?enc" "acc @ [e]"] Cons.prems(1) bnd(2) unfolding bytes
    by (simp add: ac_simps)
  ultimately show ?case
    by (simp add: decode_encode_entry Let_def u del: entries_on_disk.simps)
qed

definition container_ok :: "SaveContainer \<Rightarrow> bool" where
  "container_ok c \<longleftrightarrow>
     field_ok 64 (sc_titleName c) \<and> field_ok 128 (sc_subtitle c) \<and> field_ok 256 (sc_detail c)
     \<and> list_all (\<lambda>e. field_ok 64 (se_name e)) (sc_entries c)
     \<and> length (sc_entries c) < 2 ^ 32 \<and> length (payload_of (sc_entries c)) < 2 ^ 32"

lemma deserialize_serialize:
  assumes "container_ok c"
  shows "SaveContainer_deserialize (Some (SaveContainer_serialize c)) out = Val (True, c)"
proof -
  let ?pl = "payload_of (sc_entries c)" and ?n = "length (sc_entries c)"
  let ?ps = "of_nat (length ?pl) :: u32"
  let ?hd = "encode_header c ?ps (crc32 ?pl)"
  let ?bytes = "?hd @ entries_on_disk 0 (sc_entries c) @ ?pl"
  have n: "unat (of_nat ?n :: u32) = ?n" and ps: "unat ?ps = length ?pl"
    using assms by (simp_all add: container_ok_def unat_of_nat take_bit_nat_eq_self)
  have names: "\<forall>e\<in>set (sc_entries c). field_ok 64 (se_name e)"
    using assms by (simp add: container_ok_def list_all_iff)
  have "read_entries ?bytes sizeof_Header (sizeof_Header + ?n * sizeof_Entry) ?ps ?n [] = Val (True, sc_entries c)"
    using read_entries_written [OF names, of "[]" ?ps ?hd "[]"] ps by simp
  moreover have "readStr (copyStr 64 (sc_titleName c)) = sc_titleName c"
    "readStr (copyStr 128 (sc_subtitle c)) = sc_subtitle c" "readStr (copyStr 256 (sc_detail c)) = sc_detail c"
    using assms by (simp_all add: container_ok_def readStr_copyStr)
  moreover have "drop (sizeof_Header + ?n * sizeof_Entry) ?bytes = ?pl" by simp
  ultimately show ?thesis
    by (simp add: SaveContainer_deserialize_def SaveContainer_serialize_def Let_def
        decode_encode_header n ps SaveContainer_new_def)
qed

section \<open>Properties\<close>

text \<open>
  C17. Saving and loading is lossless. A container whose strings fit their fixed fields, contain no
  NUL, and whose entry count and payload fit in 32 bits, is read back exactly from its
  serialised form, whatever the output object held before.
\<close>

theorem save_roundtrip:
  assumes "container_ok c"
  shows "SaveContainer_deserialize (Some (SaveContainer_serialize c)) out = Val (True, c)"
  using assms by (rule deserialize_serialize)

text \<open>A small save: one entry of three bytes.\<close>

definition small_save :: SaveContainer where
  "small_save = SaveContainer_new\<lparr>sc_titleId := 7, sc_titleName := ''Game'',
     sc_entries := [\<lparr>se_name = ''a'', se_data = [1, 2, 3], se_flags = 0\<rparr>]\<rparr>"

lemma small_save_ok: "container_ok small_save"
proof -
  have "list_all (\<lambda>c. c \<noteq> char_of (0 :: nat)) ''Gamea''" by code_simp
  then show ?thesis
    by (auto simp: small_save_def container_ok_def field_ok_def SaveContainer_new_def payload_of_def)
qed

theorem save_roundtrip_witness:
  "SaveContainer_deserialize (Some (SaveContainer_serialize small_save)) SaveContainer_new
     = Val (True, small_save)"
  by (rule save_roundtrip [OF small_save_ok])

text \<open>
  A corrupted byte is noticed. If one byte of the payload of a serialised container is replaced by
  another value, deserialisation returns false; it does not depend on which byte or value.
\<close>

theorem save_detects_corruption:
  assumes "container_ok c" and "i < length (payload_of (sc_entries c))"
    and "b \<noteq> payload_of (sc_entries c) ! i"
  shows "\<exists>out'. SaveContainer_deserialize
      (Some ((SaveContainer_serialize c)[sizeof_Header + length (sc_entries c) * sizeof_Entry + i := b])) out
    = Val (False, out')"
proof -
  let ?pl = "payload_of (sc_entries c)" and ?n = "length (sc_entries c)"
  let ?ps = "of_nat (length ?pl) :: u32" and ?pl' = "(payload_of (sc_entries c))[i := b]"
  let ?hd = "encode_header c ?ps (crc32 ?pl)"
  have n: "unat (of_nat ?n :: u32) = ?n" and ps: "unat ?ps = length ?pl"
    using assms(1) by (simp_all add: container_ok_def unat_of_nat take_bit_nat_eq_self)
  have "?pl = take i ?pl @ ?pl ! i # drop (Suc i) ?pl" "?pl' = take i ?pl @ b # drop (Suc i) ?pl"
    using assms(2) by (simp_all add: id_take_nth_drop upd_conv_take_nth_drop)
  then have crc: "crc32 ?pl' \<noteq> crc32 ?pl" using crc32_one_byte [of b "?pl ! i"] assms(3) by metis
  have bytes: "(SaveContainer_serialize c)[sizeof_Header + ?n * sizeof_Entry + i := b]
      = ?hd @ entries_on_disk 0 (sc_entries c) @ ?pl'"
    by (simp add: SaveContainer_serialize_def Let_def list_update_append)
  have "drop (sizeof_Header + ?n * sizeof_Entry) (?hd @ entries_on_disk 0 (sc_entries c) @ ?pl') = ?pl'"
    by simp
  with crc show ?thesis unfolding bytes
    by (simp add: SaveContainer_deserialize_def Let_def decode_encode_header n ps)
qed

theorem save_detects_corruption_witness:
  "\<exists>out'. SaveContainer_deserialize
     (Some ((SaveContainer_serialize small_save)[sizeof_Header + 1 * sizeof_Entry + 1 := 0xFF])) SaveContainer_new
   = Val (False, out')"
proof -
  have "1 < length (payload_of (sc_entries small_save))" "0xFF \<noteq> payload_of (sc_entries small_save) ! 1"
    "length (sc_entries small_save) = 1"
    by (simp_all add: small_save_def payload_of_def SaveContainer_new_def)
  with save_detects_corruption [OF small_save_ok, of 1 "0xFF" SaveContainer_new] show ?thesis by simp
qed

text \<open>
  A descriptor's range is not checked for wrap-around. A file with a valid header and checksum, an
  empty payload, and one descriptor whose offset is the largest 64-bit number and whose size is
  1 passes the range check, because their sum is 0; the copy then reads outside the file.
\<close>

theorem save_entry_range_wraps:
  "SaveContainer_deserialize
     (Some (encode_header (small_save\<lparr>sc_entries := [\<lparr>se_name = [], se_data = [0], se_flags = 0\<rparr>]\<rparr>) 0 (crc32 [])
            @ encode_entry 0xFFFFFFFFFFFFFFFF \<lparr>se_name = [], se_data = [0], se_flags = 0\<rparr>)) out = UB"
  by (simp add: SaveContainer_deserialize_def Let_def decode_encode_header decode_encode_entry
      read_buffer_def word_less_nat_alt numeral_eq_Suc [of Num.One] sizeof_Header_def sizeof_Entry_def)

end
