(* ===== verification/Gnm_Registry.thy ===== *)
theory Gnm_Registry
  imports Resource_Ledger
begin

text \<open>
  \<^verbatim>\<open>sce/gnm/GnmResourceRegistry.cpp\<close>: the table of guest graphics resources. The graphics device is
  an interface; what it returns for a creation is an argument, and the calls the registry makes on
  it are logged.
\<close>

unbundle bit_operations_syntax

section \<open>The device interface\<close>

datatype gal_object = GalBuffer u64 | GalImage u64 | GalView u64 | GalShader u64 | GalPipeline u64

text \<open>
  \<open>Acquired\<close> is a successful creation, or a shader or pipeline handed over by the caller;
  \<open>Released\<close> is a call of one of the \<^verbatim>\<open>destroy\<close> functions.
\<close>

type_synonym gal_event = "gal_object ledger_event"

record BufferDesc =
  bd_size :: u64
  bd_usage :: u32

record ImageDesc =
  id_width :: u32
  id_height :: u32
  id_depth :: u32
  id_mips :: u32
  id_layers :: u32
  id_format :: u32
  id_usage :: u32

record gal_device =
  gd_createBuffer :: "BufferDesc \<Rightarrow> u64"
  gd_createImage :: "ImageDesc \<Rightarrow> u64"
  gd_createImageView :: "u64 \<Rightarrow> u64"

definition kUsageColor :: u32 where "kUsageColor = 4"
definition kUsageTransfer :: u32 where "kUsageTransfer = 128"

section \<open>The registry\<close>

record BufferEntry =
  be_gal :: u64
  be_size :: u64
  be_guestAddr :: u64

text \<open>The two entry types of the code have the same fields.\<close>

record ImageEntry =
  im_image :: u64
  im_view :: u64
  im_width :: u32
  im_height :: u32
  im_format :: u32

record GnmResourceRegistry =
  gr_device :: bool
  gr_nextId :: u32
  gr_buffers :: "(u32, BufferEntry) umap"
  gr_textures :: "(u32, ImageEntry) umap"
  gr_renderTargets :: "(u32, ImageEntry) umap"
  gr_vs :: "(u32, u64) umap"
  gr_ps :: "(u32, u64) umap"
  gr_pipelines :: "(u32, u64) umap"

definition kGnmInvalidId :: u32 where "kGnmInvalidId = 0"

definition GnmResourceRegistry_new :: GnmResourceRegistry where
  "GnmResourceRegistry_new =
     \<lparr>gr_device = False, gr_nextId = 1, gr_buffers = [], gr_textures = [], gr_renderTargets = [],
      gr_vs = [], gr_ps = [], gr_pipelines = []\<rparr>"

definition bindDevice :: "bool \<Rightarrow> GnmResourceRegistry \<Rightarrow> GnmResourceRegistry" where
  "bindDevice dev r = r\<lparr>gr_device := dev\<rparr>"

type_synonym 'a gnm_result = "'a \<times> GnmResourceRegistry \<times> gal_event list"

definition registerBuffer ::
  "gal_device \<Rightarrow> u64 \<Rightarrow> u32 \<Rightarrow> u64 \<Rightarrow> GnmResourceRegistry \<Rightarrow> u32 gnm_result" where
  "registerBuffer dev sz usage guestAddr r =
     (if \<not> gr_device r then (kGnmInvalidId, r, [])
      else (let gal = gd_createBuffer dev \<lparr>bd_size = sz, bd_usage = usage\<rparr>
            in if gal = 0 then (kGnmInvalidId, r, [])
               else (gr_nextId r,
                     r\<lparr>gr_nextId := gr_nextId r + 1,
                       gr_buffers := um_assign (gr_nextId r)
                         \<lparr>be_gal = gal, be_size = sz, be_guestAddr = guestAddr\<rparr> (gr_buffers r)\<rparr>,
                     [Acquired (GalBuffer gal)])))"

definition gnm_buffer :: "u32 \<Rightarrow> GnmResourceRegistry \<Rightarrow> BufferEntry option" where
  "gnm_buffer i r = um_find (gr_buffers r) i"

definition destroyBuffer :: "u32 \<Rightarrow> GnmResourceRegistry \<Rightarrow> bool gnm_result" where
  "destroyBuffer i r =
     (case um_find (gr_buffers r) i of
        None \<Rightarrow> (False, r, [])
      | Some e \<Rightarrow> (True, r\<lparr>gr_buffers := um_erase i (gr_buffers r)\<rparr>,
                   if gr_device r then [Released (GalBuffer (be_gal e))] else []))"

text \<open>The image and its view; an image whose view fails is destroyed again.\<close>

definition create_image :: "gal_device \<Rightarrow> ImageDesc \<Rightarrow> (u64 \<times> u64) option \<times> gal_event list" where
  "create_image dev d =
     (let img = gd_createImage dev d
      in if img = 0 then (None, [])
         else (let v = gd_createImageView dev img
               in if v = 0 then (None, [Acquired (GalImage img), Released (GalImage img)])
                  else (Some (img, v), [Acquired (GalImage img), Acquired (GalView v)])))"

definition registerTexture ::
  "gal_device \<Rightarrow> u32 \<Rightarrow> u32 \<Rightarrow> u32 \<Rightarrow> u32 \<Rightarrow> GnmResourceRegistry \<Rightarrow> u32 gnm_result" where
  "registerTexture dev width height format usage r =
     (if \<not> gr_device r then (kGnmInvalidId, r, [])
      else (case create_image dev \<lparr>id_width = width, id_height = height, id_depth = 1, id_mips = 1,
                   id_layers = 1, id_format = format, id_usage = usage\<rparr> of
              (None, log) \<Rightarrow> (kGnmInvalidId, r, log)
            | (Some (img, v), log) \<Rightarrow>
                (gr_nextId r,
                 r\<lparr>gr_nextId := gr_nextId r + 1,
                   gr_textures := um_assign (gr_nextId r)
                     \<lparr>im_image = img, im_view = v, im_width = width, im_height = height,
                      im_format = format\<rparr> (gr_textures r)\<rparr>, log)))"

definition gnm_texture :: "u32 \<Rightarrow> GnmResourceRegistry \<Rightarrow> ImageEntry option" where
  "gnm_texture i r = um_find (gr_textures r) i"

definition release_image :: "ImageEntry \<Rightarrow> gal_event list" where
  "release_image e =
     (if im_view e \<noteq> 0 then [Released (GalView (im_view e))] else [])
     @ (if im_image e \<noteq> 0 then [Released (GalImage (im_image e))] else [])"

definition destroyTexture :: "u32 \<Rightarrow> GnmResourceRegistry \<Rightarrow> bool gnm_result" where
  "destroyTexture i r =
     (case um_find (gr_textures r) i of
        None \<Rightarrow> (False, r, [])
      | Some e \<Rightarrow> (True, r\<lparr>gr_textures := um_erase i (gr_textures r)\<rparr>,
                   if gr_device r then release_image e else []))"

definition registerRenderTarget ::
  "gal_device \<Rightarrow> u32 \<Rightarrow> u32 \<Rightarrow> u32 \<Rightarrow> GnmResourceRegistry \<Rightarrow> u32 gnm_result" where
  "registerRenderTarget dev width height format r =
     (if \<not> gr_device r then (kGnmInvalidId, r, [])
      else (case create_image dev \<lparr>id_width = width, id_height = height, id_depth = 1, id_mips = 1,
                   id_layers = 1, id_format = format, id_usage = kUsageColor OR kUsageTransfer\<rparr> of
              (None, log) \<Rightarrow> (kGnmInvalidId, r, log)
            | (Some (img, v), log) \<Rightarrow>
                (gr_nextId r,
                 r\<lparr>gr_nextId := gr_nextId r + 1,
                   gr_renderTargets := um_assign (gr_nextId r)
                     \<lparr>im_image = img, im_view = v, im_width = width, im_height = height,
                      im_format = format\<rparr> (gr_renderTargets r)\<rparr>, log)))"

definition gnm_renderTarget :: "u32 \<Rightarrow> GnmResourceRegistry \<Rightarrow> ImageEntry option" where
  "gnm_renderTarget i r = um_find (gr_renderTargets r) i"

definition destroyRenderTarget :: "u32 \<Rightarrow> GnmResourceRegistry \<Rightarrow> bool gnm_result" where
  "destroyRenderTarget i r =
     (case um_find (gr_renderTargets r) i of
        None \<Rightarrow> (False, r, [])
      | Some e \<Rightarrow> (True, r\<lparr>gr_renderTargets := um_erase i (gr_renderTargets r)\<rparr>,
                   if gr_device r then release_image e else []))"

definition registerVsShader :: "u64 \<Rightarrow> GnmResourceRegistry \<Rightarrow> u32 gnm_result" where
  "registerVsShader gal r =
     (gr_nextId r, r\<lparr>gr_nextId := gr_nextId r + 1, gr_vs := um_assign (gr_nextId r) gal (gr_vs r)\<rparr>,
      [Acquired (GalShader gal)])"

definition registerPsShader :: "u64 \<Rightarrow> GnmResourceRegistry \<Rightarrow> u32 gnm_result" where
  "registerPsShader gal r =
     (gr_nextId r, r\<lparr>gr_nextId := gr_nextId r + 1, gr_ps := um_assign (gr_nextId r) gal (gr_ps r)\<rparr>,
      [Acquired (GalShader gal)])"

definition registerPipeline :: "u64 \<Rightarrow> GnmResourceRegistry \<Rightarrow> u32 gnm_result" where
  "registerPipeline gal r =
     (gr_nextId r,
      r\<lparr>gr_nextId := gr_nextId r + 1, gr_pipelines := um_assign (gr_nextId r) gal (gr_pipelines r)\<rparr>,
      [Acquired (GalPipeline gal)])"

definition or_zero :: "u64 option \<Rightarrow> u64" where
  "or_zero x = (case x of None \<Rightarrow> 0 | Some h \<Rightarrow> h)"

definition vsShader :: "u32 \<Rightarrow> GnmResourceRegistry \<Rightarrow> u64" where
  "vsShader i r = or_zero (um_find (gr_vs r) i)"

definition psShader :: "u32 \<Rightarrow> GnmResourceRegistry \<Rightarrow> u64" where
  "psShader i r = or_zero (um_find (gr_ps r) i)"

definition gnm_pipeline :: "u32 \<Rightarrow> GnmResourceRegistry \<Rightarrow> u64" where
  "gnm_pipeline i r = or_zero (um_find (gr_pipelines r) i)"

definition gnm_clear :: "GnmResourceRegistry \<Rightarrow> GnmResourceRegistry \<times> gal_event list" where
  "gnm_clear r =
     (r\<lparr>gr_buffers := [], gr_textures := [], gr_renderTargets := [], gr_vs := [], gr_ps := [],
        gr_pipelines := []\<rparr>,
      if gr_device r
      then map (\<lambda>(_, e). Released (GalBuffer (be_gal e))) (gr_buffers r)
           @ concat (map (\<lambda>(_, e). release_image e) (gr_textures r))
           @ concat (map (\<lambda>(_, e). release_image e) (gr_renderTargets r))
           @ map (\<lambda>(_, h). Released (GalShader h)) (gr_vs r)
           @ map (\<lambda>(_, h). Released (GalShader h)) (gr_ps r)
           @ map (\<lambda>(_, h). Released (GalPipeline h)) (gr_pipelines r)
      else [])"

definition totalResources :: "GnmResourceRegistry \<Rightarrow> nat" where
  "totalResources r =
     length (gr_buffers r) + length (gr_textures r) + length (gr_renderTargets r)
     + length (gr_vs r) + length (gr_ps r) + length (gr_pipelines r)"

section \<open>The registry as a ledger\<close>

datatype gnm_op =
    GBuffer gal_device u64 u32 u64 | GDestroyBuffer u32
  | GTexture gal_device u32 u32 u32 u32 | GDestroyTexture u32
  | GRenderTarget gal_device u32 u32 u32 | GDestroyRenderTarget u32
  | GVsShader u64 | GPsShader u64 | GPipeline u64

fun gnm_step :: "GnmResourceRegistry \<Rightarrow> gnm_op \<Rightarrow> GnmResourceRegistry \<times> gal_event list" where
  "gnm_step r (GBuffer dev sz usage addr) = snd (registerBuffer dev sz usage addr r)"
| "gnm_step r (GDestroyBuffer i) = snd (destroyBuffer i r)"
| "gnm_step r (GTexture dev w h f u) = snd (registerTexture dev w h f u r)"
| "gnm_step r (GDestroyTexture i) = snd (destroyTexture i r)"
| "gnm_step r (GRenderTarget dev w h f) = snd (registerRenderTarget dev w h f r)"
| "gnm_step r (GDestroyRenderTarget i) = snd (destroyRenderTarget i r)"
| "gnm_step r (GVsShader g) = snd (registerVsShader g r)"
| "gnm_step r (GPsShader g) = snd (registerPsShader g r)"
| "gnm_step r (GPipeline g) = snd (registerPipeline g r)"

definition image_objects :: "(u32, ImageEntry) umap \<Rightarrow> gal_object multiset" where
  "image_objects m =
     image_mset (\<lambda>e. GalImage (im_image e)) (um_values m)
     + image_mset (\<lambda>e. GalView (im_view e)) (um_values m)"

definition gnm_live :: "GnmResourceRegistry \<Rightarrow> gal_object multiset" where
  "gnm_live r =
     image_mset (\<lambda>e. GalBuffer (be_gal e)) (um_values (gr_buffers r))
     + image_objects (gr_textures r) + image_objects (gr_renderTargets r)
     + image_mset GalShader (um_values (gr_vs r)) + image_mset GalShader (um_values (gr_ps r))
     + image_mset GalPipeline (um_values (gr_pipelines r))"

definition ids_below :: "nat \<Rightarrow> (u32, 'v) umap \<Rightarrow> bool" where
  "ids_below k m \<longleftrightarrow> um_ok m \<and> (\<forall>i. um_find m i \<noteq> None \<longrightarrow> unat i < k)"

definition images_ok :: "(u32, ImageEntry) umap \<Rightarrow> bool" where
  "images_ok m \<longleftrightarrow> (\<forall>i e. um_find m i = Some e \<longrightarrow> im_image e \<noteq> 0 \<and> im_view e \<noteq> 0)"

definition gnm_inv :: "nat \<Rightarrow> GnmResourceRegistry \<Rightarrow> bool" where
  "gnm_inv n r \<longleftrightarrow>
     (let k = unat (gr_nextId r)
      in gr_device r \<and> 0 < k \<and> k + n < 2 ^ 32
         \<and> ids_below k (gr_buffers r) \<and> ids_below k (gr_textures r) \<and> ids_below k (gr_renderTargets r)
         \<and> ids_below k (gr_vs r) \<and> ids_below k (gr_ps r) \<and> ids_below k (gr_pipelines r)
         \<and> images_ok (gr_textures r) \<and> images_ok (gr_renderTargets r))"

lemma ids_below_mono: "ids_below k m \<Longrightarrow> k \<le> l \<Longrightarrow> ids_below l m"
  by (force simp: ids_below_def)

lemma ids_below_fresh: "ids_below (unat i) m \<Longrightarrow> um_find m i = None"
  by (force simp: ids_below_def)

lemma ids_below_assign: "ids_below (unat i) m \<Longrightarrow> unat i < l \<Longrightarrow> ids_below l (um_assign i v m)"
  by (force simp: ids_below_def um_simps um_oks)

lemma ids_below_erase: "ids_below k m \<Longrightarrow> ids_below k (um_erase i m)"
  by (auto simp: ids_below_def um_simps um_oks)

lemma mset_assign_below:
  "ids_below (unat i) m \<Longrightarrow> um_values (um_assign i v m) = add_mset v (um_values m)"
  by (simp add: um_values_assign ids_below_fresh)

lemma mset_erase_below:
  "ids_below k m \<Longrightarrow> um_find m i = Some v
     \<Longrightarrow> um_values m = add_mset v (um_values (um_erase i m))"
  by (simp add: ids_below_def um_values_erase)

lemma images_ok_assign: "images_ok m \<Longrightarrow> im_image e \<noteq> 0 \<Longrightarrow> im_view e \<noteq> 0 \<Longrightarrow> images_ok (um_assign i e m)"
  by (auto simp: images_ok_def um_simps)

lemma images_ok_erase: "images_ok m \<Longrightarrow> images_ok (um_erase i m)"
  by (auto simp: images_ok_def um_simps split: if_splits)

lemma image_objects_assign:
  "ids_below (unat i) m \<Longrightarrow> image_objects (um_assign i e m)
     = add_mset (GalImage (im_image e)) (add_mset (GalView (im_view e)) (image_objects m))"
  by (simp add: image_objects_def mset_assign_below)

lemma image_objects_erase:
  "ids_below k m \<Longrightarrow> um_find m i = Some e \<Longrightarrow> image_objects m
     = add_mset (GalImage (im_image e)) (add_mset (GalView (im_view e)) (image_objects (um_erase i m)))"
  by (simp add: image_objects_def mset_erase_below)

lemma released_image:
  "im_image e \<noteq> 0 \<Longrightarrow> im_view e \<noteq> 0
     \<Longrightarrow> released (release_image e) = {#GalImage (im_image e), GalView (im_view e)#}
       \<and> acquired (release_image e) = {#}"
  by (simp add: release_image_def)

lemma create_imageD:
  assumes "create_image dev d = (x, es)"
  shows "case x of None \<Rightarrow> acquired es = released es
    | Some (img, v) \<Rightarrow> img \<noteq> 0 \<and> v \<noteq> 0 \<and> released es = {#} \<and> acquired es = {#GalImage img, GalView v#}"
  using assms by (auto simp: create_image_def Let_def split: if_splits)

text \<open>The next id, and the room that is left, after an id is used.\<close>

lemma gnm_next:
  assumes "gnm_inv (Suc n) r"
  shows "unat (gr_nextId r + 1) = Suc (unat (gr_nextId r))"
  using assms by (subst unat_add_no_wrap) (simp_all add: gnm_inv_def Let_def)

lemma gnm_inv_less: "gnm_inv (Suc n) r \<Longrightarrow> gnm_inv n r"
  by (simp add: gnm_inv_def Let_def)

lemmas gnm_intros = ids_below_assign ids_below_erase images_ok_assign images_ok_erase

lemmas gnm_counts = mset_assign_below image_objects_assign

lemma gnm_device: "gnm_inv n r \<Longrightarrow> gr_device r"
  by (simp add: gnm_inv_def Let_def)

lemma step_buffer:
  assumes "gnm_inv (Suc n) r" and "snd (registerBuffer dev sz usage addr r) = (r', es)"
  shows "gnm_inv n r' \<and> gnm_live r' + released es = gnm_live r + acquired es"
proof -
  from assms have "(r' = r \<and> es = []) \<or>
      (\<exists>e. r' = r\<lparr>gr_nextId := gr_nextId r + 1, gr_buffers := um_assign (gr_nextId r) e (gr_buffers r)\<rparr>
         \<and> es = [Acquired (GalBuffer (be_gal e))])"
    by (auto simp: registerBuffer_def Let_def split: if_splits)
  then show ?thesis
    using assms(1) gnm_inv_less [OF assms(1)] gnm_next [OF assms(1)]
    by (auto simp: gnm_live_def gnm_inv_def Let_def gnm_counts intro!: images_ok_assign intro: gnm_intros ids_below_mono)
qed

lemma step_destroy_buffer:
  assumes "gnm_inv (Suc n) r" and "snd (destroyBuffer i r) = (r', es)"
  shows "gnm_inv n r' \<and> gnm_live r' + released es = gnm_live r + acquired es"
proof (cases "um_find (gr_buffers r) i")
  case None
  with assms gnm_inv_less [OF assms(1)] show ?thesis by (auto simp: destroyBuffer_def)
next
  case (Some e)
  have "um_values (gr_buffers r) = add_mset e (um_values (um_erase i (gr_buffers r)))"
    using assms(1) Some by (auto simp: gnm_inv_def Let_def intro: mset_erase_below)
  with Some assms gnm_device [OF assms(1)] gnm_inv_less [OF assms(1)] show ?thesis
    by (auto simp: destroyBuffer_def gnm_live_def gnm_inv_def Let_def intro: gnm_intros)
qed

lemma step_texture:
  assumes "gnm_inv (Suc n) r" and "snd (registerTexture dev w h f u r) = (r', es)"
  shows "gnm_inv n r' \<and> gnm_live r' + released es = gnm_live r + acquired es"
proof -
  have d: "gr_device r" by (rule gnm_device [OF assms(1)])
  obtain x log where c: "create_image dev \<lparr>id_width = w, id_height = h, id_depth = 1, id_mips = 1,
      id_layers = 1, id_format = f, id_usage = u\<rparr> = (x, log)" by fastforce
  show ?thesis
  proof (cases x)
    case None
    with c create_imageD [OF c] assms(2) d gnm_inv_less [OF assms(1)] show ?thesis
      by (auto simp: registerTexture_def)
  next
    case (Some iv)
    then obtain img v where iv: "x = Some (img, v)" by (cases iv) auto
    with c create_imageD [OF c] assms d gnm_next [OF assms(1)] show ?thesis
      by (auto simp: registerTexture_def gnm_live_def gnm_inv_def Let_def gnm_counts
          intro!: images_ok_assign intro: gnm_intros ids_below_mono)
  qed
qed

lemma step_destroy_texture:
  assumes "gnm_inv (Suc n) r" and "snd (destroyTexture i r) = (r', es)"
  shows "gnm_inv n r' \<and> gnm_live r' + released es = gnm_live r + acquired es"
proof (cases "um_find (gr_textures r) i")
  case None
  with assms gnm_inv_less [OF assms(1)] show ?thesis by (auto simp: destroyTexture_def)
next
  case (Some e)
  have o: "image_objects (gr_textures r) = add_mset (GalImage (im_image e))
      (add_mset (GalView (im_view e)) (image_objects (um_erase i (gr_textures r))))"
    using assms(1) Some by (auto simp: gnm_inv_def Let_def intro: image_objects_erase)
  have "im_image e \<noteq> 0" "im_view e \<noteq> 0" using assms(1) Some by (auto simp: gnm_inv_def Let_def images_ok_def)
  note rel = released_image [OF this]
  from Some assms gnm_device [OF assms(1)] gnm_inv_less [OF assms(1)] show ?thesis
    by (auto simp: destroyTexture_def gnm_live_def gnm_inv_def Let_def o rel intro: gnm_intros)
qed

lemma step_target:
  assumes "gnm_inv (Suc n) r" and "snd (registerRenderTarget dev w h f r) = (r', es)"
  shows "gnm_inv n r' \<and> gnm_live r' + released es = gnm_live r + acquired es"
proof -
  have d: "gr_device r" by (rule gnm_device [OF assms(1)])
  obtain x log where c: "create_image dev \<lparr>id_width = w, id_height = h, id_depth = 1, id_mips = 1,
      id_layers = 1, id_format = f, id_usage = kUsageColor OR kUsageTransfer\<rparr> = (x, log)" by fastforce
  show ?thesis
  proof (cases x)
    case None
    with c create_imageD [OF c] assms(2) d gnm_inv_less [OF assms(1)] show ?thesis
      by (auto simp: registerRenderTarget_def)
  next
    case (Some iv)
    then obtain img v where iv: "x = Some (img, v)" by (cases iv) auto
    with c create_imageD [OF c] assms d gnm_next [OF assms(1)] show ?thesis
      by (auto simp: registerRenderTarget_def gnm_live_def gnm_inv_def Let_def gnm_counts
          intro!: images_ok_assign intro: gnm_intros ids_below_mono)
  qed
qed

lemma step_destroy_target:
  assumes "gnm_inv (Suc n) r" and "snd (destroyRenderTarget i r) = (r', es)"
  shows "gnm_inv n r' \<and> gnm_live r' + released es = gnm_live r + acquired es"
proof (cases "um_find (gr_renderTargets r) i")
  case None
  with assms gnm_inv_less [OF assms(1)] show ?thesis by (auto simp: destroyRenderTarget_def)
next
  case (Some e)
  have o: "image_objects (gr_renderTargets r) = add_mset (GalImage (im_image e))
      (add_mset (GalView (im_view e)) (image_objects (um_erase i (gr_renderTargets r))))"
    using assms(1) Some by (auto simp: gnm_inv_def Let_def intro: image_objects_erase)
  have "im_image e \<noteq> 0" "im_view e \<noteq> 0" using assms(1) Some by (auto simp: gnm_inv_def Let_def images_ok_def)
  note rel = released_image [OF this]
  from Some assms gnm_device [OF assms(1)] gnm_inv_less [OF assms(1)] show ?thesis
    by (auto simp: destroyRenderTarget_def gnm_live_def gnm_inv_def Let_def o rel intro: gnm_intros)
qed

lemma step_shaders:
  assumes "gnm_inv (Suc n) r"
    and "snd (registerVsShader g r) = (r', es) \<or> snd (registerPsShader g r) = (r', es)
      \<or> snd (registerPipeline g r) = (r', es)"
  shows "gnm_inv n r' \<and> gnm_live r' + released es = gnm_live r + acquired es"
  using assms gnm_next [OF assms(1)]
  by (auto simp: registerVsShader_def registerPsShader_def registerPipeline_def gnm_live_def gnm_inv_def
      Let_def gnm_counts intro!: images_ok_assign intro: gnm_intros ids_below_mono)

lemma gnm_step_sound:
  assumes "gnm_inv (Suc n) r" and "gnm_step r q = (r', es)"
  shows "gnm_inv n r' \<and> gnm_live r' + released es = gnm_live r + acquired es"
proof (cases q)
  case GBuffer
  with assms show ?thesis by (simp add: step_buffer)
next
  case GDestroyBuffer
  with assms show ?thesis by (simp add: step_destroy_buffer)
next
  case GTexture
  with assms show ?thesis by (simp add: step_texture)
next
  case GDestroyTexture
  with assms show ?thesis by (simp add: step_destroy_texture)
next
  case GRenderTarget
  with assms show ?thesis by (simp add: step_target)
next
  case GDestroyRenderTarget
  with assms show ?thesis by (simp add: step_destroy_target)
next
  case (GVsShader g)
  with assms(2) show ?thesis by (intro step_shaders [OF assms(1), of g]) simp
next
  case (GPsShader g)
  with assms(2) show ?thesis by (intro step_shaders [OF assms(1), of g]) simp
next
  case (GPipeline g)
  with assms(2) show ?thesis by (intro step_shaders [OF assms(1), of g]) simp
qed

interpretation gnm: resource_ledger gnm_inv gnm_step gnm_live
  by unfold_locales (use gnm_step_sound in blast)+

lemma clear_releases:
  assumes "gnm_inv n r" and "gnm_clear r = (r', es)"
  shows "released es = gnm_live r" and "acquired es = {#}" and "totalResources r' = 0"
proof -
  have rel: "released (map (\<lambda>(_, e). Released (f e)) m) = image_mset f (um_values m)"
    "acquired (map (\<lambda>(_, e). Released (f e)) m) = {#}" for f :: "'v \<Rightarrow> gal_object" and m :: "(u32, 'v) umap"
    by (induction m) (auto simp: um_values_def)
  have img: "released (concat (map (\<lambda>(_, e). release_image e) m)) = image_objects m
      \<and> acquired (concat (map (\<lambda>(_, e). release_image e) m)) = {#}"
    if "\<forall>x\<in>set m. im_image (snd x) \<noteq> 0 \<and> im_view (snd x) \<noteq> 0" for m
    using that by (induction m) (auto simp: image_objects_def um_values_def released_image)
  have ok: "\<forall>x\<in>set m. im_image (snd x) \<noteq> 0 \<and> im_view (snd x) \<noteq> 0" if "images_ok m" "ids_below k m" for m k
    using that um_mem_find unfolding images_ok_def ids_below_def by fastforce
  have t: "\<forall>x\<in>set (gr_textures r). im_image (snd x) \<noteq> 0 \<and> im_view (snd x) \<noteq> 0"
    "\<forall>x\<in>set (gr_renderTargets r). im_image (snd x) \<noteq> 0 \<and> im_view (snd x) \<noteq> 0"
    using assms(1) ok by (auto simp: gnm_inv_def Let_def)
  have es: "es = snd (gnm_clear r)" "r' = fst (gnm_clear r)" using assms(2) by simp_all
  show "released es = gnm_live r" "acquired es = {#}"
    using gnm_device [OF assms(1)] img [OF t(1)] img [OF t(2)]
    by (simp_all add: es gnm_clear_def gnm_live_def rel ac_simps)
  show "totalResources r' = 0" by (simp add: es gnm_clear_def totalResources_def)
qed

section \<open>Properties\<close>

text \<open>
  C27. No graphics resource leaks and none is destroyed twice. After any sequence of registrations and
  destructions of buffers, textures, render targets, shaders and pipelines on a bound device (fewer
  than the 32-bit ids), failing creations included, the resources held are those
  acquired and not yet released; clearing the registry releases exactly these, so in the whole life of a process the
  device sees one destruction for each resource it created for the registry.
\<close>

theorem gnm_resources_released:
  assumes "run_ops gnm_step (bindDevice True GnmResourceRegistry_new) qs = (r, es)"
    and "length qs < 2 ^ 32 - 1" and "gnm_clear r = (r', fs)"
  shows "gnm_live r + released es = acquired es \<and> released fs = gnm_live r
    \<and> released (es @ fs) = acquired (es @ fs) \<and> totalResources r' = 0"
proof -
  let ?r0 = "bindDevice True GnmResourceRegistry_new"
  have live: "gnm_live ?r0 = {#}"
    by (simp add: gnm_live_def image_objects_def bindDevice_def GnmResourceRegistry_new_def)
  have "gnm_inv (length qs + 0) ?r0"
    using assms(2)
    by (simp add: gnm_inv_def Let_def bindDevice_def GnmResourceRegistry_new_def ids_below_def
        images_ok_def um_oks um_simps)
  from gnm.run_account [OF this assms(1)]
  have r: "gnm_inv 0 r" "gnm_live r + released es = acquired es" by (simp_all add: live)
  from clear_releases [OF r(1) assms(3)] r(2) show ?thesis by (simp add: ac_simps)
qed

definition sample_device :: gal_device where
  "sample_device = \<lparr>gd_createBuffer = (\<lambda>_. 11), gd_createImage = (\<lambda>_. 22), gd_createImageView = (\<lambda>_. 33)\<rparr>"

theorem gnm_resources_released_witness:
  "let (r, es) = run_ops gnm_step (bindDevice True GnmResourceRegistry_new)
         [GBuffer sample_device 64 16 0, GTexture sample_device 8 8 1 1, GDestroyBuffer 1, GVsShader 44];
       (r', fs) = gnm_clear r
   in released (es @ fs) = acquired (es @ fs)
      \<and> acquired (es @ fs) = {#GalBuffer 11, GalImage 22, GalView 33, GalShader 44#}"
proof -
  let ?qs = "[GBuffer sample_device 64 16 0, GTexture sample_device 8 8 1 1, GDestroyBuffer 1, GVsShader 44]"
  obtain r es where 1: "run_ops gnm_step (bindDevice True GnmResourceRegistry_new) ?qs = (r, es)" by fastforce
  obtain r' fs where 2: "gnm_clear r = (r', fs)" by fastforce
  have a: "acquired (es @ fs) = {#GalBuffer 11, GalImage 22, GalView 33, GalShader 44#}"
    using 1 2
    by (auto simp: bindDevice_def GnmResourceRegistry_new_def registerBuffer_def registerTexture_def
        destroyBuffer_def registerVsShader_def create_image_def sample_device_def gnm_clear_def
        um_assign_def um_find_def um_erase_def Let_def release_image_def)
  have "length ?qs < 2 ^ 32 - 1" by simp
  from gnm_resources_released [OF 1 this 2] have "released (es @ fs) = acquired (es @ fs)" by blast
  with a show ?thesis unfolding 1 2 prod.case Let_def by blast
qed

end
