(* ===== verification/Bgft_Transfer.thy ===== *)
theory Bgft_Transfer
  imports Virtual_File_System
begin

text \<open>
  \<^verbatim>\<open>sce/bgft/BgftTransfer.cpp\<close>: background copies of guest files. The host's files are a map from
  paths to contents; \<open>writable\<close> says which paths can be opened for writing. The cancel flag is
  read at each turn of the copy loop and once after it; what these reads see is an argument, since
  \<^verbatim>\<open>cancel\<close> runs in another thread.
\<close>

section \<open>Transfers\<close>

record Transfer =
  tf_id :: u32
  tf_guestSrc :: string
  tf_guestDst :: string
  tf_totalBytes :: u64
  tf_copiedBytes :: u64
  tf_state :: u32
  tf_errorCode :: u32
  tf_cancelRequested :: bool

definition Transfer_new :: "u32 \<Rightarrow> string \<Rightarrow> string \<Rightarrow> Transfer" where
  "Transfer_new i src dst =
     \<lparr>tf_id = i, tf_guestSrc = src, tf_guestDst = dst, tf_totalBytes = 0, tf_copiedBytes = 0,
      tf_state = 0, tf_errorCode = 0, tf_cancelRequested = False\<rparr>"

text \<open>Transfers are shared by reference; the queue holds their ids.\<close>

record BgftTransfer =
  bt_transfers :: "(u32, Transfer) umap"
  bt_pending :: "u32 list"
  bt_running :: bool
  bt_thread :: bool
  bt_nextId :: u32

definition BgftTransfer_new :: BgftTransfer where
  "BgftTransfer_new =
     \<lparr>bt_transfers = [], bt_pending = [], bt_running = False, bt_thread = False, bt_nextId = 1\<rparr>"

definition BgftTransfer_start :: "BgftTransfer \<Rightarrow> bool \<times> BgftTransfer" where
  "BgftTransfer_start b =
     (if bt_running b then (True, b) else (True, b\<lparr>bt_running := True, bt_thread := True\<rparr>))"

definition BgftTransfer_stop :: "BgftTransfer \<Rightarrow> BgftTransfer" where
  "BgftTransfer_stop b = (if \<not> bt_running b then b else b\<lparr>bt_running := False, bt_thread := False\<rparr>)"

definition BgftTransfer_submit :: "string \<Rightarrow> string \<Rightarrow> BgftTransfer \<Rightarrow> u32 \<times> BgftTransfer" where
  "BgftTransfer_submit guestSrc guestDst b =
     (let i = bt_nextId b
      in (i, b\<lparr>bt_nextId := i + 1,
              bt_transfers := um_assign i (Transfer_new i guestSrc guestDst) (bt_transfers b),
              bt_pending := bt_pending b @ [i]\<rparr>))"

definition BgftTransfer_query :: "u32 \<Rightarrow> BgftTransfer \<Rightarrow> (u64 \<times> u64 \<times> u32 \<times> u32) option" where
  "BgftTransfer_query i b =
     map_option (\<lambda>t. (tf_totalBytes t, tf_copiedBytes t, tf_state t, tf_errorCode t))
       (um_find (bt_transfers b) i)"

definition BgftTransfer_cancel :: "u32 \<Rightarrow> BgftTransfer \<Rightarrow> bool \<times> BgftTransfer" where
  "BgftTransfer_cancel i b =
     (case um_find (bt_transfers b) i of
        None \<Rightarrow> (False, b)
      | Some t \<Rightarrow> (True, b\<lparr>bt_transfers := um_assign i (t\<lparr>tf_cancelRequested := True\<rparr>) (bt_transfers b)\<rparr>))"

section \<open>The worker\<close>

record host_world =
  hw_files :: "string \<Rightarrow> u8 list option"
  hw_writable :: "string \<Rightarrow> bool"
  hw_mkdirs :: "string list"

definition kChunk :: nat where "kChunk = 256 * 1024"

text \<open>
  The copy loop on the bytes still to read; it ends with the first short read. The result tells
  whether it was left because of the cancel flag, what was written, and the bytes counted.
\<close>

function copy_loop :: "(nat \<Rightarrow> bool) \<Rightarrow> nat \<Rightarrow> u8 list \<Rightarrow> u8 list \<Rightarrow> bool \<times> u8 list" where
  "copy_loop cancelled k rest written =
     (if cancelled k then (True, written)
      else if length rest < kChunk then (False, written @ rest)
      else copy_loop cancelled (Suc k) (drop kChunk rest) (written @ take kChunk rest))"
  by pat_completeness auto
termination by (relation "measure (\<lambda>(_, _, rest, _). length rest)") (auto simp: kChunk_def)

declare copy_loop.simps [simp del]

text \<open>The directories made for a path: its prefixes that end in a slash.\<close>

definition parent_dirs :: "string \<Rightarrow> string list" where
  "parent_dirs p =
     map (\<lambda>i. take (Suc i) p) (filter (\<lambda>i. p ! i = CHR ''/'') [0..<length p])"

definition fail_with :: "u32 \<Rightarrow> Transfer \<Rightarrow> Transfer" where
  "fail_with e t = t\<lparr>tf_state := 3, tf_errorCode := e\<rparr>"

definition copy_file ::
  "(nat \<Rightarrow> bool) \<Rightarrow> bool \<Rightarrow> string \<Rightarrow> string \<Rightarrow> Transfer \<Rightarrow> host_world \<Rightarrow> Transfer \<times> host_world" where
  "copy_file cancelled cancelEnd src dst t w =
     (let w = w\<lparr>hw_mkdirs := hw_mkdirs w @ parent_dirs dst\<rparr>
      in case hw_files w src of
           None \<Rightarrow> (fail_with 0x80020004 t, w)
         | Some contents \<Rightarrow>
             (let t = t\<lparr>tf_totalBytes := of_nat (length contents)\<rparr>
              in if \<not> hw_writable w dst then (fail_with 0x80020002 t, w)
                 else
                   (let truncated = (hw_files w)(dst \<mapsto> []);
                        (left, out) = copy_loop cancelled 0 (the (truncated src)) [];
                        t = t\<lparr>tf_copiedBytes := tf_copiedBytes t + of_nat (length out)\<rparr>;
                        t = (if left then fail_with 0x8002000C t else t);
                        t = (if \<not> cancelEnd then t\<lparr>tf_state := 2\<rparr> else t)
                    in (t, w\<lparr>hw_files := truncated(dst \<mapsto> out)\<rparr>))))"

text \<open>One job; without a process it fails at once.\<close>

definition run_job ::
  "FsPolicy option \<Rightarrow> (nat \<Rightarrow> bool) \<Rightarrow> bool \<Rightarrow> Transfer \<Rightarrow> host_world \<Rightarrow> (Transfer \<times> host_world) cpp" where
  "run_job process cancelled cancelEnd t w =
     (let t = t\<lparr>tf_state := 1\<rparr>
      in case process of
           None \<Rightarrow> Val (fail_with 0x80020005 t, w)
         | Some pol \<Rightarrow>
             cpp_bind (resolve pol (tf_guestSrc t) FsRead) (\<lambda>(src, _).
               if \<not> tr_ok src then Val (fail_with 0x80020004 t, w)
               else cpp_bind (resolve pol (tf_guestDst t) FsCreate) (\<lambda>(dst, _).
                 if \<not> tr_ok dst then Val (fail_with 0x80020004 t, w)
                 else Val (copy_file cancelled cancelEnd (tr_hostPath src) (tr_hostPath dst) t w))))"

text \<open>
  One turn of the worker: the oldest pending transfer is taken and run. The flag \<^verbatim>\<open>cancelRequested\<close>
  a cancel has set before is seen by every read.
\<close>

definition worker_turn ::
  "FsPolicy option \<Rightarrow> (nat \<Rightarrow> bool) \<Rightarrow> bool \<Rightarrow> BgftTransfer \<Rightarrow> host_world \<Rightarrow> (BgftTransfer \<times> host_world) cpp" where
  "worker_turn process cancelled cancelEnd b w =
     (if \<not> bt_running b then Val (b, w)
      else (case bt_pending b of
              [] \<Rightarrow> Val (b, w)
            | i # rest \<Rightarrow>
                (let b = b\<lparr>bt_pending := rest\<rparr>
                 in case um_find (bt_transfers b) i of
                      None \<Rightarrow> Val (b, w)
                    | Some t \<Rightarrow>
                        cpp_bind (run_job process (\<lambda>k. tf_cancelRequested t \<or> cancelled k)
                                    (tf_cancelRequested t \<or> cancelEnd) t w)
                          (\<lambda>(t', w'). Val (b\<lparr>bt_transfers := um_assign i t' (bt_transfers b)\<rparr>, w')))))"

section \<open>Lemmas\<close>

lemma copy_loop_whole: "copy_loop (\<lambda>_. False) k rest written = (False, written @ rest)"
proof (induction "length rest" arbitrary: k rest written rule: less_induct)
  case less
  show ?case
  proof (cases "length rest < kChunk")
    case True
    then show ?thesis by (subst copy_loop.simps) simp
  next
    case False
    then have "length (drop kChunk rest) < length rest" by (auto simp: kChunk_def)
    from less [OF this, of "Suc k" "written @ take kChunk rest"] False show ?thesis
      by (subst copy_loop.simps) simp
  qed
qed

text \<open>The paths a mount with the right to create files gives to the guest.\<close>

definition creatable :: "FsPolicy \<Rightarrow> string \<Rightarrow> bool" where
  "creatable pol p \<longleftrightarrow>
     (\<exists>mp\<in>set (m_mounts pol). allowCreate mp \<and> \<not> readOnly mp
        \<and> (\<exists>comps. list_all clean_component comps
             \<and> p = host_path (host_dir (m_vfsRoot pol) (hostSubdir mp)) comps))"

lemma resolve_create_creatable:
  assumes "resolve pol g FsCreate = Val (tr, e)" and "tr_ok tr"
  shows "creatable pol (tr_hostPath tr)"
  using assms
proof (rule resolve_okE)
  fix canonical mp comps
  assume "match_mount pol canonical = Some mp" "isAllowed pol canonical FsCreate = Inr ()"
    "list_all clean_component comps"
    "tr = \<lparr>tr_ok = True, tr_guestPath = g,
           tr_hostPath = host_path (host_dir (m_vfsRoot pol) (hostSubdir mp)) comps, tr_mount = Some mp\<rparr>"
  then show ?thesis
    using match_mount_SomeD(1) [of pol canonical mp]
    by (auto simp: creatable_def isAllowed_def split: if_splits)
qed

lemma copy_file_touches:
  assumes "copy_file cancelled cancelEnd src dst t w = (t', w')" and "hw_files w' p \<noteq> hw_files w p"
  shows "p = dst"
  using assms by (auto simp: copy_file_def Let_def split: option.splits if_splits prod.splits)

lemma copy_file_state:
  assumes "copy_file cancelled cancelEnd src dst t w = (t', w')" and "tf_state t = 1"
  shows "tf_state t' = 1 \<or> tf_state t' = 2 \<or> tf_state t' = 3"
  using assms by (auto simp: copy_file_def Let_def fail_with_def split: option.splits if_splits prod.splits)

text \<open>
  Two runs that go wrong: a cancel that is seen only after the last read leaves the
  transfer in the state "running" for good, and a copy of a file onto itself empties the file and reports success.
\<close>

lemma late_cancel_stays_running:
  assumes "hw_files w src = Some c" and "hw_writable w dst" and "tf_state t = 1"
  shows "tf_state (fst (copy_file (\<lambda>_. False) True src dst t w)) = 1"
  using assms by (simp add: copy_file_def Let_def copy_loop_whole split: prod.split)

lemma self_copy_empties:
  assumes "hw_files w p = Some c" and "hw_writable w p"
  shows "hw_files (snd (copy_file (\<lambda>_. False) False p p t w)) p = Some []"
    and "tf_state (fst (copy_file (\<lambda>_. False) False p p t w)) = 2"
  using assms by (simp_all add: copy_file_def Let_def copy_loop_whole split: prod.split)

section \<open>Properties\<close>

text \<open>
  A background transfer that is not cancelled copies the file: when the guest's two paths resolve to
  different host files, the source exists and the destination can be opened, then whatever the size
  of the file the destination ends up with exactly the source's bytes, no other file changes, and the
  transfer is done with both byte counts equal to the size.
\<close>

theorem transfer_copies_file:
  assumes "resolve pol (tf_guestSrc t) FsRead = Val (src, e1)" and "tr_ok src"
    and "resolve pol (tf_guestDst t) FsCreate = Val (dst, e2)" and "tr_ok dst"
    and "tr_hostPath src \<noteq> tr_hostPath dst" and "tf_copiedBytes t = 0"
    and "hw_files w (tr_hostPath src) = Some c" and "hw_writable w (tr_hostPath dst)"
  shows "\<exists>t' w'. run_job (Some pol) (\<lambda>_. False) False t w = Val (t', w')
    \<and> hw_files w' = (hw_files w)(tr_hostPath dst \<mapsto> c)
    \<and> tf_state t' = 2 \<and> tf_totalBytes t' = of_nat (length c) \<and> tf_copiedBytes t' = of_nat (length c)"
  using assms
  by (simp add: run_job_def Let_def copy_file_def copy_loop_whole split: prod.split)

theorem transfer_copies_file_witness:
  "\<exists>t' w'. run_job (Some FsPolicy_default) (\<lambda>_. False) False
       (Transfer_new 1 ''/data/a'' ''/data/b'')
       \<lparr>hw_files = [''virtual_fs/data/a'' \<mapsto> [1, 2, 3]], hw_writable = (\<lambda>_. True), hw_mkdirs = []\<rparr>
     = Val (t', w')
     \<and> hw_files w' ''virtual_fs/data/b'' = Some [1, 2, 3] \<and> tf_state t' = 2"
proof -
  let ?t = "Transfer_new 1 ''/data/a'' ''/data/b''"
  let ?mp = "mount_point ''/data'' ''data'' False True True"
  have g: "tf_guestSrc ?t = ''/data/a''" "tf_guestDst ?t = ''/data/b''" "tf_copiedBytes ?t = 0"
    by (simp_all add: Transfer_new_def)
  have 1: "resolve FsPolicy_default (tf_guestSrc ?t) FsRead
      = Val (\<lparr>tr_ok = True, tr_guestPath = ''/data/a'', tr_hostPath = ''virtual_fs/data/a'',
              tr_mount = Some ?mp\<rparr>, 0)"
    unfolding g by code_simp
  have 2: "resolve FsPolicy_default (tf_guestDst ?t) FsCreate
      = Val (\<lparr>tr_ok = True, tr_guestPath = ''/data/b'', tr_hostPath = ''virtual_fs/data/b'',
              tr_mount = Some ?mp\<rparr>, 0)"
    unfolding g by code_simp
  let ?w = "\<lparr>hw_files = [''virtual_fs/data/a'' \<mapsto> [1, 2, 3]], hw_writable = (\<lambda>_. True), hw_mkdirs = []\<rparr>
      :: host_world"
  have "\<exists>t' w'. run_job (Some FsPolicy_default) (\<lambda>_. False) False ?t ?w = Val (t', w')
      \<and> hw_files w' = (hw_files ?w)(''virtual_fs/data/b'' \<mapsto> [1, 2, 3])
      \<and> tf_state t' = 2 \<and> tf_totalBytes t' = of_nat (length [1 :: u8, 2, 3])
      \<and> tf_copiedBytes t' = of_nat (length [1 :: u8, 2, 3])"
    using transfer_copies_file [OF 1 _ 2, of ?w "[1, 2, 3]"] g(3) by simp
  then show ?thesis by auto
qed

text \<open>
  A transfer cannot write outside the sandbox: whatever the guest's path strings, the cancellations and
  the host's files, a file that a job changes is the one its destination resolves to, and it lies
  inside a mount that lets the guest create files and is not read-only.
\<close>

theorem transfer_confined:
  assumes "run_job (Some pol) cancelled cancelEnd t w = Val (t', w')"
    and "hw_files w' p \<noteq> hw_files w p"
  shows "creatable pol p
    \<and> (\<exists>tr e. resolve pol (tf_guestDst t) FsCreate = Val (tr, e) \<and> tr_ok tr \<and> p = tr_hostPath tr)
    \<and> (tf_state t' = 1 \<or> tf_state t' = 2 \<or> tf_state t' = 3)"
proof -
  from assms(1) obtain src e1 where s: "resolve pol (tf_guestSrc t) FsRead = Val (src, e1)"
    by (auto simp: run_job_def Let_def elim!: cpp_bind_ValE)
  with assms have ok: "tr_ok src" by (auto simp: run_job_def Let_def split: if_splits)
  with s assms(1) obtain dst e2 where d: "resolve pol (tf_guestDst t) FsCreate = Val (dst, e2)"
    by (auto simp: run_job_def Let_def elim!: cpp_bind_ValE)
  with s ok assms have ok2: "tr_ok dst" by (auto simp: run_job_def Let_def split: if_splits)
  have c: "copy_file cancelled cancelEnd (tr_hostPath src) (tr_hostPath dst) (t\<lparr>tf_state := 1\<rparr>) w = (t', w')"
    using assms(1) s d ok ok2 by (simp add: run_job_def Let_def)
  have "p = tr_hostPath dst" by (rule copy_file_touches [OF c assms(2)])
  with d ok2 resolve_create_creatable [OF d ok2] copy_file_state [OF c] show ?thesis by auto
qed

theorem transfer_confined_witness:
  "creatable FsPolicy_default ''virtual_fs/data/b''"
proof -
  let ?t = "Transfer_new 1 ''/data/a'' ''/data/b''"
  let ?w = "\<lparr>hw_files = [''virtual_fs/data/a'' \<mapsto> [1, 2, 3]], hw_writable = (\<lambda>_. True), hw_mkdirs = []\<rparr>
      :: host_world"
  let ?mp = "mount_point ''/data'' ''data'' False True True"
  have g: "tf_guestSrc ?t = ''/data/a''" "tf_guestDst ?t = ''/data/b''" by (simp_all add: Transfer_new_def)
  have 1: "resolve FsPolicy_default (tf_guestSrc ?t) FsRead
      = Val (\<lparr>tr_ok = True, tr_guestPath = ''/data/a'', tr_hostPath = ''virtual_fs/data/a'',
              tr_mount = Some ?mp\<rparr>, 0)"
    unfolding g by code_simp
  have 2: "resolve FsPolicy_default (tf_guestDst ?t) FsCreate
      = Val (\<lparr>tr_ok = True, tr_guestPath = ''/data/b'', tr_hostPath = ''virtual_fs/data/b'',
              tr_mount = Some ?mp\<rparr>, 0)"
    unfolding g by code_simp
  let ?r = "copy_file (\<lambda>_. False) False ''virtual_fs/data/a'' ''virtual_fs/data/b'' (?t\<lparr>tf_state := 1\<rparr>) ?w"
  have r: "run_job (Some FsPolicy_default) (\<lambda>_. False) False ?t ?w = Val (fst ?r, snd ?r)"
    using 1 2 by (simp add: run_job_def Let_def)
  have "hw_files (snd ?r) ''virtual_fs/data/b'' \<noteq> hw_files ?w ''virtual_fs/data/b''"
    by (simp add: copy_file_def Let_def copy_loop_whole)
  from transfer_confined [OF r this] show ?thesis by blast
qed

end
