(* ===== verification/Guest_Words.thy ===== *)
theory Guest_Words
  imports Guest_Memory
begin

text \<open>
  Typed access to guest memory: the integers and the C strings the SCE libraries read and write
  through guest pointers, with the frame lemmas their clients share.
\<close>

section \<open>Integers\<close>

definition load_u64 :: "memory \<Rightarrow> u64 \<Rightarrow> u64 cpp" where
  "load_u64 m a = cpp_bind (load_bytes m a 8) (\<lambda>bs. Val (le_field 0 8 bs))"

definition store_u64 :: "u64 \<Rightarrow> u64 \<Rightarrow> memory \<Rightarrow> memory cpp" where
  "store_u64 a w m = store_bytes a (le_bytes 8 w) m"

definition load_u32 :: "memory \<Rightarrow> u64 \<Rightarrow> u32 cpp" where
  "load_u32 m a = cpp_bind (load_bytes m a 4) (\<lambda>bs. Val (le_field 0 4 bs))"

definition store_u32 :: "u64 \<Rightarrow> u32 \<Rightarrow> memory \<Rightarrow> memory cpp" where
  "store_u32 a w m = store_bytes a (le_bytes 4 w) m"

text \<open>Evaluation of a field without passing through \<^typ>\<open>nat\<close>.\<close>

lemma le_value_word: "word_of_nat (le_value bs) = foldr (\<lambda>b w. ucast b + 256 * w) bs (0 :: 'a::len word)"
  by (induction bs) simp_all

lemma le_field_code [code]:
  "le_field off n bs = foldr (\<lambda>b w. ucast b + 256 * w) (take n (drop off bs)) 0"
  by (simp add: le_field_def le_value_word)

section \<open>Strings\<close>

lemma unat_Suc_no_wrap: "a + 1 \<noteq> 0 \<Longrightarrow> unat (a + 1) = Suc (unat a)" for a :: "'w::len word"
  by (metis Suc_eq_plus1 add.commute unatSuc)

text \<open>
  The bytes of the NUL-terminated string at an address. Running into an unmapped byte, or past
  the last address, is undefined.
\<close>

function c_bytes :: "memory \<Rightarrow> u64 \<Rightarrow> u8 list cpp" where
  "c_bytes m a =
     (case m a of
        None \<Rightarrow> UB
      | Some b \<Rightarrow>
          if b = 0 then Val []
          else if a + 1 = 0 then UB
          else cpp_bind (c_bytes m (a + 1)) (\<lambda>bs. Val (b # bs)))"
  by pat_completeness auto

termination
proof (relation "measure (\<lambda>(m, a). 2 ^ 64 - unat a)")
  fix a :: u64
  assume "a + 1 \<noteq> 0"
  then have "unat (a + 1) = Suc (unat a)" by (rule unat_Suc_no_wrap)
  then have "2 ^ 64 - unat (a + 1) < 2 ^ 64 - unat a"
    using diff_less_mono2 [of "unat a" "Suc (unat a)" "2 ^ 64"] unat_lt_64 [of a] by (simp only:) simp
  then show "((m, a + 1), (m, a)) \<in> measure (\<lambda>(m, a). 2 ^ 64 - unat a)" for m :: memory
    by (simp only: in_measure prod.case)
qed simp

declare c_bytes.simps [simp del]

section \<open>Decimal numbers\<close>

fun dec_digits :: "nat \<Rightarrow> string" where
  "dec_digits n =
     (if n < 10 then [char_of (48 + n)] else dec_digits (n div 10) @ [char_of (48 + n mod 10)])"

declare dec_digits.simps [simp del]

lemma dec_digits_value: "foldl (\<lambda>n c. 10 * n + (of_char c - 48)) 0 (dec_digits n) = (n :: nat)"
proof (induction n rule: dec_digits.induct)
  case (1 n)
  show ?case
  proof (cases "n < 10")
    case True
    then show ?thesis by (subst dec_digits.simps) simp
  next
    case False
    with 1 have "foldl (\<lambda>n c. 10 * n + (of_char c - 48)) 0 (dec_digits (n div 10)) = n div 10" by simp
    moreover have "(48 + n mod 10) mod 256 = 48 + n mod 10" by (simp add: mod_less)
    ultimately show ?thesis using False by (subst dec_digits.simps) simp
  qed
qed

section \<open>Mapped ranges\<close>

definition mapped :: "memory \<Rightarrow> nat \<Rightarrow> nat \<Rightarrow> bool" where
  "mapped m lo hi \<longleftrightarrow> (\<forall>a. lo \<le> unat a \<and> unat a < hi \<longrightarrow> m a \<noteq> None)"

lemma mapped_dom: "dom m' = dom m \<Longrightarrow> mapped m' lo hi = mapped m lo hi"
  by (simp add: mapped_def dom_def set_eq_iff)

lemma mapped_mono: "mapped m lo hi \<Longrightarrow> lo \<le> lo' \<Longrightarrow> hi' \<le> hi \<Longrightarrow> mapped m lo' hi'"
  by (auto simp: mapped_def)

lemma unat_add_of_nat:
  fixes a :: u64
  assumes "unat a + i < 2 ^ 64"
  shows "unat (a + of_nat i) = unat a + i"
proof -
  have "unat (of_nat i :: u64) = i" using assms by (simp add: unat_of_nat take_bit_nat_eq_self)
  with assms show ?thesis by (subst unat_add_no_wrap) simp_all
qed

lemma store_mapped:
  assumes "mapped m lo hi" and "lo \<le> unat a" and "unat a + length bs \<le> hi" and "hi \<le> 2 ^ 64"
  obtains m' where "store_bytes a bs m = Val m'"
proof -
  have "m (a + of_nat i) \<noteq> None" if "i < length bs" for i
  proof -
    have "unat (a + of_nat i) = unat a + i" using that assms by (intro unat_add_of_nat) simp
    with that assms show ?thesis by (simp add: mapped_def)
  qed
  with store_bytes_total that show ?thesis by blast
qed

lemma load_bytes_mapped:
  assumes "mapped m lo hi" and "lo \<le> unat a" and "unat a + n \<le> hi" and "hi \<le> 2 ^ 64"
  obtains bs where "load_bytes m a n = Val bs" and "length bs = n"
proof -
  have ex: "\<exists>b. m (a + of_nat i) = Some b" if "i < n" for i
  proof -
    have "unat (a + of_nat i) = unat a + i" using that assms by (intro unat_add_of_nat) simp
    with that assms show ?thesis by (simp add: mapped_def)
  qed
  define bs where "bs = map (\<lambda>i. the (m (a + of_nat i))) [0..<n]"
  have "load_bytes m a n = Val bs"
    unfolding load_bytes_eq_Val using ex by (force simp: bs_def)
  with that show ?thesis by (simp add: bs_def)
qed

section \<open>Frames\<close>

text \<open>A store leaves a disjoint range alone.\<close>

lemma load_store_disjoint:
  assumes "store_bytes a bs m = Val m'"
    and "unat b + n \<le> unat a \<or> unat a + length bs \<le> unat b"
    and "unat a + length bs \<le> 2 ^ 64" and "unat b + n \<le> 2 ^ 64" and "length bs < 2 ^ 64"
  shows "load_bytes m' b n = load_bytes m b n"
proof (rule load_bytes_cong)
  fix i assume i: "i < n"
  have e: "unat (b + of_nat i) = unat b + i" using i assms(4) by (intro unat_add_of_nat) simp
  have "length bs \<le> unat (b + of_nat i - a)"
  proof (cases "unat a \<le> unat b + i")
    case True
    then have "unat (b + of_nat i - a) = unat b + i - unat a"
      using e by (subst unat_sub_no_wrap) (simp_all add: word_le_unat)
    then show ?thesis using assms(2) True i by linarith
  next
    case False
    then have "b + of_nat i < a" using e by (simp add: word_less_unat)
    then have "unat (b + of_nat i - a) = 2 ^ 64 + (unat b + i) - unat a"
      using e False unat_sub_if' [of "b + of_nat i" a] by (simp add: word_le_unat)
    then show ?thesis using assms(3) by linarith
  qed
  then show "m' (b + of_nat i) = m (b + of_nat i)"
    by (rule store_bytes_keeps [OF assms(1,5)])
qed

lemma store_bytes_outside:
  assumes "store_bytes a bs m = Val m'" and "unat a + length bs \<le> 2 ^ 64"
    and "unat x < unat a \<or> unat a + length bs \<le> unat x" and "length bs < 2 ^ 64"
  shows "m' x = m x"
proof -
  have "unat x < 2 ^ 64" by simp
  then have "load_bytes m' x 1 = load_bytes m x 1"
    using assms by (intro load_store_disjoint [OF assms(1)]) linarith+
  then show ?thesis by (auto split: option.splits)
qed

lemma store_u64_dom: "store_u64 a w m = Val m' \<Longrightarrow> dom m' = dom m"
  unfolding store_u64_def by (rule store_bytes_dom)

lemma load_u64_store_same: "store_u64 a w m = Val m' \<Longrightarrow> load_u64 m' a = Val w"
proof -
  assume s: "store_u64 a w m = Val m'"
  then have "load_bytes m' a 8 = Val (le_bytes 8 w)"
    using load_store_bytes [of a "le_bytes 8 w" m m'] by (simp add: store_u64_def)
  then show "load_u64 m' a = Val w" by (simp add: load_u64_def le_field_le_bytes)
qed

lemma load_u64_frame:
  assumes "store_bytes a bs m = Val m'"
    and "unat b + 8 \<le> unat a \<or> unat a + length bs \<le> unat b"
    and "unat a + length bs \<le> 2 ^ 64" and "unat b + 8 \<le> 2 ^ 64" and "length bs < 2 ^ 64"
  shows "load_u64 m' b = load_u64 m b"
  using load_store_disjoint [OF assms] by (simp add: load_u64_def)

lemma load_u64_store_disjoint:
  assumes "store_u64 a w m = Val m'" and "unat b + 8 \<le> unat a \<or> unat a + 8 \<le> unat b"
    and "unat a + 8 \<le> 2 ^ 64" and "unat b + 8 \<le> 2 ^ 64"
  shows "load_u64 m' b = load_u64 m b"
  using load_u64_frame [of a "le_bytes 8 w" m m' b] assms by (simp add: store_u64_def)

lemma store_u64_mapped:
  assumes "mapped m lo hi" and "lo \<le> unat a" and "unat a + 8 \<le> hi" and "hi \<le> 2 ^ 64"
  obtains m' where "store_u64 a w m = Val m'"
proof -
  obtain m' where "store_bytes a (le_bytes 8 w) m = Val m'"
    using store_mapped [OF assms(1,2), of "le_bytes 8 w"] assms(3,4) by auto
  with that show ?thesis by (simp add: store_u64_def)
qed

end
