(* ===== verification/Libc_Heap.thy ===== *)
theory Libc_Heap
  imports Guest_Words Address_Space
begin

text \<open>
  The allocator of \<^verbatim>\<open>sce/libc/LibcInternal.cpp\<close>: a 256 MiB region of the guest's address space,
  carved by a bump pointer into blocks with a 16-byte header, and one free list per size class.
  Headers and free list links live in guest memory and are read and written there byte by byte.
\<close>

section \<open>Headers\<close>

text \<open>
  The first word of a header packs, from the low bits up, \<^verbatim>\<open>size : 48\<close>, \<^verbatim>\<open>sizeClass : 8\<close>,
  \<^verbatim>\<open>isFree : 1\<close>, \<^verbatim>\<open>prevFree : 1\<close> and \<^verbatim>\<open>reserved : 6\<close>; the second is the magic number.
\<close>

definition hdr_word :: "u64 \<Rightarrow> u8 \<Rightarrow> u64" where
  "hdr_word sz cls = take_bit 48 sz OR push_bit 48 (ucast cls)"

definition hdr_size :: "u64 \<Rightarrow> u64" where "hdr_size w = take_bit 48 w"
definition hdr_class :: "u64 \<Rightarrow> u8" where "hdr_class w = ucast (drop_bit 48 w)"
definition hdr_isFree :: "u64 \<Rightarrow> bool" where "hdr_isFree w = bit w 56"

definition hdr_set_free :: "bool \<Rightarrow> u64 \<Rightarrow> u64" where
  "hdr_set_free b w = (if b then set_bit 56 w else unset_bit 56 w)"

definition kHeapMagic :: u64 where "kHeapMagic = 0x4650344845415021"
definition kHeapHeaderSize :: u64 where "kHeapHeaderSize = 16"
definition kHeapAlignment :: u64 where "kHeapAlignment = 16"

definition kSizeClasses :: "u64 list" where
  "kSizeClasses = [16, 32, 64, 128, 256, 512, 1024, 2048, 4096, 8192]"

section \<open>State\<close>

text \<open>
  \<^verbatim>\<open>g_heap\<close>; its \<^verbatim>\<open>as\<close> pointer is written once and never read, so it has no field.
\<close>

record HeapState =
  hp_base :: u64
  hp_size :: u64
  hp_next :: u64
  hp_inUse :: u64
  hp_peak :: u64
  hp_live :: u64
  hp_allocs :: u64
  hp_frees :: u64

definition HeapState_new :: HeapState where
  "HeapState_new = \<lparr>hp_base = 0, hp_size = 0, hp_next = 0, hp_inUse = 0, hp_peak = 0, hp_live = 0,
                   hp_allocs = 0, hp_frees = 0\<rparr>"

text \<open>The globals, with the address space of the bound process (if any) and guest memory.\<close>

record libc =
  lc_heap :: HeapState
  lc_freeLists :: "u64 list"
  lc_space :: "AddressSpace option"
  lc_mem :: memory

definition libc_new :: "AddressSpace option \<Rightarrow> memory \<Rightarrow> libc" where
  "libc_new sp m = \<lparr>lc_heap = HeapState_new, lc_freeLists = replicate 10 0, lc_space = sp, lc_mem = m\<rparr>"

section \<open>Operations\<close>

definition heap_alignUp :: "u64 \<Rightarrow> u64 \<Rightarrow> u64" where
  "heap_alignUp v a = (v + (a - 1)) AND NOT (a - 1)"

fun pick_from :: "u64 \<Rightarrow> u8 \<Rightarrow> u64 list \<Rightarrow> u8 \<times> u64" where
  "pick_from sz i [] = (255, heap_alignUp sz kHeapAlignment)"
| "pick_from sz i (c # cs) = (if sz \<le> c then (i, c) else pick_from sz (i + 1) cs)"

definition pickClass :: "u64 \<Rightarrow> u8 \<times> u64" where
  "pickClass sz = pick_from sz 0 kSizeClasses"

definition ensureHeapInitialized :: "libc \<Rightarrow> bool \<times> libc" where
  "ensureHeapInitialized s =
     (if hp_base (lc_heap s) \<noteq> 0 then (True, s)
      else (case lc_space s of
              None \<Rightarrow> (False, s)
            | Some as \<Rightarrow>
                (case AddressSpace_map as 0 0x10000000 (ProtRead OR ProtWrite) ''libc-heap'' of
                   (base, as') \<Rightarrow>
                     (let s = s\<lparr>lc_space := Some as'\<rparr>
                      in if base = 0 then (False, s)
                         else (True, s\<lparr>lc_heap := (lc_heap s)\<lparr>hp_base := base,
                                 hp_size := 0x10000000, hp_next := base\<rparr>\<rparr>)))))"

text \<open>
  The reuse path: it clears the list head when the block there is marked free, takes the block's
  mark away, and returns the null pointer.
\<close>

definition heap_reuse :: "nat \<Rightarrow> libc \<Rightarrow> (u64 \<times> libc) cpp" where
  "heap_reuse c s =
     (let head = lc_freeLists s ! c
      in cpp_bind (load_u64 (lc_mem s) head) (\<lambda>w.
         cpp_bind (store_u64 head (hdr_set_free False w) (lc_mem s)) (\<lambda>m.
         cpp_bind (store_u64 (head + 8) kHeapMagic m) (\<lambda>m.
           Val (0, s\<lparr>lc_freeLists := (lc_freeLists s)[c := (if hdr_isFree w then 0 else head)],
                     lc_mem := m,
                     lc_heap := (lc_heap s)\<lparr>hp_live := hp_live (lc_heap s) + hdr_size w,
                                            hp_allocs := hp_allocs (lc_heap s) + 1\<rparr>\<rparr>)))))"

definition heap_bump :: "u8 \<Rightarrow> u64 \<Rightarrow> libc \<Rightarrow> (u64 \<times> libc) cpp" where
  "heap_bump cls rounded s =
     (let h = lc_heap s;
          total = kHeapHeaderSize + rounded;
          hdr = hp_next h
      in if hp_next h + total > hp_base h + hp_size h then Val (0, s)
         else cpp_bind (store_u64 hdr (hdr_word rounded cls) (lc_mem s)) (\<lambda>m.
              cpp_bind (store_u64 (hdr + 8) kHeapMagic m) (\<lambda>m.
                (let live = hp_live h + rounded
                 in Val (hdr + kHeapHeaderSize,
                         s\<lparr>lc_mem := m,
                           lc_heap := h\<lparr>hp_next := hp_next h + total,
                                        hp_allocs := hp_allocs h + 1,
                                        hp_live := live,
                                        hp_peak := (if live > hp_peak h then live else hp_peak h)\<rparr>\<rparr>)))))"

definition heapAlloc :: "u64 \<Rightarrow> libc \<Rightarrow> (u64 \<times> libc) cpp" where
  "heapAlloc request s =
     (case ensureHeapInitialized s of
        (False, s) \<Rightarrow> Val (0, s)
      | (True, s) \<Rightarrow>
          (case pickClass (if request = 0 then 1 else request) of
             (cls, rounded) \<Rightarrow>
               if unat cls < length (lc_freeLists s) \<and> lc_freeLists s ! unat cls \<noteq> 0
               then heap_reuse (unat cls) s
               else heap_bump cls rounded s))"

definition heapFree :: "u64 \<Rightarrow> libc \<Rightarrow> libc cpp" where
  "heapFree ptr s =
     (if ptr = 0 then Val s
      else (let hdr = ptr - 16; h = lc_heap s
            in cpp_bind (load_u64 (lc_mem s) (hdr + 8)) (\<lambda>magic.
               if magic \<noteq> kHeapMagic then Val s
               else cpp_bind (load_u64 (lc_mem s) hdr) (\<lambda>w.
               if hdr_isFree w then Val s
               else cpp_bind (store_u64 hdr (hdr_set_free True w) (lc_mem s)) (\<lambda>m.
                 (let sz = hdr_size w;
                      s = s\<lparr>lc_mem := m,
                            lc_heap := h\<lparr>hp_live := (if sz < hp_live h then hp_live h - sz else 0),
                                         hp_frees := hp_frees h + 1\<rparr>\<rparr>;
                      c = unat (hdr_class w)
                  in if c < length (lc_freeLists s)
                     then cpp_bind (store_u64 ptr (lc_freeLists s ! c) m) (\<lambda>m.
                            Val (s\<lparr>lc_mem := m, lc_freeLists := (lc_freeLists s)[c := hdr]\<rparr>))
                     else Val s))))))"

section \<open>Exports\<close>

definition sceLibcMalloc :: "u64 \<Rightarrow> libc \<Rightarrow> (u64 \<times> libc) cpp" where
  "sceLibcMalloc sz s = heapAlloc sz s"

definition sceLibcFree :: "u64 \<Rightarrow> libc \<Rightarrow> libc cpp" where
  "sceLibcFree ptr s = heapFree ptr s"

definition sceLibcCalloc :: "u64 \<Rightarrow> u64 \<Rightarrow> libc \<Rightarrow> (u64 \<times> libc) cpp" where
  "sceLibcCalloc cnt sz s =
     (let total = cnt * sz
      in if cnt \<noteq> 0 \<and> total div cnt \<noteq> sz then Val (0, s)
         else cpp_bind (heapAlloc total s) (\<lambda>(p, s).
                if p = 0 then Val (0, s)
                else cpp_bind (store_bytes p (replicate (unat total) 0) (lc_mem s)) (\<lambda>m.
                       Val (p, s\<lparr>lc_mem := m\<rparr>))))"

definition sceLibcRealloc :: "u64 \<Rightarrow> u64 \<Rightarrow> libc \<Rightarrow> (u64 \<times> libc) cpp" where
  "sceLibcRealloc ptr newSize s =
     (if ptr = 0 then heapAlloc newSize s
      else if newSize = 0 then cpp_bind (heapFree ptr s) (\<lambda>s. Val (0, s))
      else (let hdr = ptr - 16
            in cpp_bind (load_u64 (lc_mem s) (hdr + 8)) (\<lambda>magic.
               if magic \<noteq> kHeapMagic then Val (0, s)
               else cpp_bind (load_u64 (lc_mem s) hdr) (\<lambda>w.
               if hdr_size w \<ge> newSize then Val (ptr, s)
               else cpp_bind (heapAlloc newSize s) (\<lambda>(np, s).
               if np = 0 then Val (0, s)
               else cpp_bind (load_u64 (lc_mem s) hdr) (\<lambda>w.
                    cpp_bind (load_bytes (lc_mem s) ptr (unat (hdr_size w))) (\<lambda>bs.
                    cpp_bind (store_bytes np bs (lc_mem s)) (\<lambda>m.
                    cpp_bind (heapFree ptr (s\<lparr>lc_mem := m\<rparr>)) (\<lambda>s. Val (np, s))))))))))"

definition sceLibcMemalign :: "u64 \<Rightarrow> u64 \<Rightarrow> libc \<Rightarrow> (u64 \<times> libc) cpp" where
  "sceLibcMemalign alignment sz s =
     (if alignment = 0 \<or> alignment AND (alignment - 1) \<noteq> 0 then Val (0, s)
      else if alignment \<le> kHeapAlignment then heapAlloc sz s
      else cpp_bind (heapAlloc (sz + alignment) s) (\<lambda>(raw, s).
             if raw = 0 then Val (0, s)
             else Val ((raw + alignment - 1) AND NOT (alignment - 1), s)))"

section \<open>Header fields\<close>

lemma hdr_size_word: "hdr_size (hdr_word sz cls) = take_bit 48 sz"
  by (rule bit_word_eqI) (auto simp: hdr_size_def hdr_word_def bit_simps)

lemma hdr_class_word: "hdr_class (hdr_word sz cls) = cls"
  by (rule bit_word_eqI) (auto simp: hdr_class_def hdr_word_def bit_simps)

lemma hdr_isFree_word: "\<not> hdr_isFree (hdr_word sz cls)"
  by (auto simp: hdr_isFree_def hdr_word_def bit_simps dest: bit_imp_le_length)

lemma hdr_size_set_free [simp]: "hdr_size (hdr_set_free b w) = hdr_size w"
  by (rule bit_word_eqI) (auto simp: hdr_size_def hdr_set_free_def bit_simps)

lemma hdr_class_set_free [simp]: "hdr_class (hdr_set_free b w) = hdr_class w"
  by (rule bit_word_eqI) (auto simp: hdr_class_def hdr_set_free_def bit_simps)

lemma hdr_isFree_set_free [simp]: "hdr_isFree (hdr_set_free b w) = b"
  by (simp add: hdr_isFree_def hdr_set_free_def bit_simps)

section \<open>Rounding\<close>

lemma and_plus_and_not: "(x AND y) + (x AND NOT y) = x" for x y :: "'w::len word"
  by (subst disjunctive_add_eq_or) (auto intro!: bit_word_eqI simp: bit_simps)

lemma and_not_bounds:
  fixes x y :: "'w::len word"
  shows "unat (x AND NOT y) \<le> unat x" and "unat x \<le> unat (x AND NOT y) + unat y"
proof -
  have le: "x AND NOT y \<le> x" "x AND y \<le> y" by (simp_all add: word_and_le1 word_and_le2)
  then show "unat (x AND NOT y) \<le> unat x" by (simp add: word_le_unat)
  have "unat x = unat ((x AND y) + (x AND NOT y))" by (simp only: and_plus_and_not)
  also have "\<dots> \<le> unat (x AND y) + unat (x AND NOT y)"
    by (simp add: unat_word_ariths)
  finally show "unat x \<le> unat (x AND NOT y) + unat y" using le by (simp add: word_le_unat)
qed

lemma heap_alignUp_bounds:
  assumes "unat v + 15 < 2 ^ 64"
  shows "unat v \<le> unat (heap_alignUp v 16)" and "unat (heap_alignUp v 16) \<le> unat v + 15"
    and "16 dvd unat (heap_alignUp v 16)"
proof -
  have e: "unat (v + 15) = unat v + 15" using assms by (subst unat_add_no_wrap) simp_all
  have d: "heap_alignUp v 16 = (v + 15) AND NOT 15" by (simp add: heap_alignUp_def)
  show "unat v \<le> unat (heap_alignUp v 16)" "unat (heap_alignUp v 16) \<le> unat v + 15"
    using and_not_bounds [of "v + 15" 15] by (simp_all add: d e)
  have "take_bit 4 (heap_alignUp v 16) = 0"
  proof -
    have "(15 :: u64) = mask 4" by (simp add: mask_eq_exp_minus_1)
    then have "heap_alignUp v 16 = (v + 15) AND NOT (mask 4)" by (simp only: d)
    then show ?thesis by (auto intro!: bit_word_eqI simp: bit_simps)
  qed
  then have "unat (take_bit 4 (heap_alignUp v 16)) = 0" by simp
  then show "16 dvd unat (heap_alignUp v 16)"
    by (simp add: take_bit_eq_mod unat_mod dvd_eq_mod_eq_0)
qed

lemma pickClass_rounds:
  assumes "pickClass v = (cls, r)" and "unat v \<le> 2 ^ 63"
  shows "unat v \<le> unat r" and "unat r \<le> 2 ^ 63 + 15" and "16 dvd unat r" and "16 \<le> unat r"
proof -
  have al: "unat v \<le> unat (heap_alignUp v 16)" "unat (heap_alignUp v 16) \<le> unat v + 15"
    "16 dvd unat (heap_alignUp v 16)"
    using heap_alignUp_bounds [of v] assms(2) by simp_all
  have c: "r \<in> set kSizeClasses \<and> v \<le> r \<or> r = heap_alignUp v 16 \<and> 8192 < v"
    using assms(1)
    by (auto simp: pickClass_def kSizeClasses_def kHeapAlignment_def split: if_splits)
  then show "unat v \<le> unat r" using al(1) by (auto simp: word_le_unat)
  show "unat r \<le> 2 ^ 63 + 15" "16 dvd unat r" "16 \<le> unat r"
    using c al assms(2) by (auto simp: kSizeClasses_def word_less_unat)
qed

section \<open>Blocks\<close>

text \<open>
  A block is a header address with the payload size recorded there. The blocks of a heap lie
  between its base and its bump pointer and do not overlap.
\<close>

type_synonym block = "u64 \<times> u64"

definition block_in :: "nat \<Rightarrow> nat \<Rightarrow> block \<Rightarrow> bool" where
  "block_in lo hi = (\<lambda>(h, sz). lo \<le> unat h \<and> unat h + 16 + unat sz \<le> hi \<and> 16 \<le> unat sz
     \<and> 16 dvd unat h - lo)"

definition block_apart :: "block \<Rightarrow> block \<Rightarrow> bool" where
  "block_apart = (\<lambda>(h, sz) (h', sz'). unat h + 16 + unat sz \<le> unat h' \<or> unat h' + 16 + unat sz' \<le> unat h)"

definition blocks_ok :: "nat \<Rightarrow> nat \<Rightarrow> block list \<Rightarrow> bool" where
  "blocks_ok lo hi B \<longleftrightarrow> list_all (block_in lo hi) B \<and> sorted_wrt block_apart B"

definition header_ok :: "memory \<Rightarrow> block \<Rightarrow> bool" where
  "header_ok m = (\<lambda>(h, sz). (\<exists>w. load_u64 m h = Val w \<and> hdr_size w = sz)
     \<and> load_u64 m (h + 8) = Val kHeapMagic)"

definition mem_ok :: "memory \<Rightarrow> block list \<Rightarrow> bool" where
  "mem_ok m B \<longleftrightarrow> mapped m arena_lo arena_hi \<and> list_all (header_ok m) B"

text \<open>Where a store may go: the second header word, the first, or a payload.\<close>

lemma unat_hdr_plus:
  fixes h :: u64
  assumes "unat h + 16 \<le> arena_hi"
  shows "unat (h + 8) = unat h + 8" and "unat (h + 16) = unat h + 16"
  using assms by (simp_all add: unat_add_no_wrap arena_hi_def)

lemma header_ok_frame:
  assumes "header_ok m (h, sz)" and "store_bytes a bs m = Val m'"
    and "unat a + length bs \<le> arena_hi" and "unat h + 16 \<le> arena_hi"
    and "unat h + 16 \<le> unat a \<or> unat a + length bs \<le> unat h"
  shows "header_ok m' (h, sz)"
proof -
  note e = unat_hdr_plus [OF assms(4)]
  have "load_u64 m' h = load_u64 m h" "load_u64 m' (h + 8) = load_u64 m (h + 8)"
    using assms(3-5) by (auto intro!: load_u64_frame [OF assms(2)] simp: e arena_hi_def)
  with assms(1) show ?thesis by (simp add: header_ok_def)
qed

text \<open>
  A store inside one block keeps the memory invariant when it leaves that block's own header
  well-formed.
\<close>

lemma mem_ok_store:
  assumes "mem_ok m B" and "blocks_ok lo hi B" and "hi \<le> arena_hi" and "(h, sz) \<in> set B"
    and s: "store_bytes a bs m = Val m'"
    and "unat h \<le> unat a" and "unat a + length bs \<le> unat h + 16 + unat sz"
    and own: "header_ok m' (h, sz)"
  shows "mem_ok m' B"
proof -
  have sub: "unat h + 16 + unat sz \<le> arena_hi"
    using assms(2-4) by (auto simp: blocks_ok_def block_in_def list_all_iff)
  have "header_ok m' (k, kz)" if k: "(k, kz) \<in> set B" for k kz
  proof (cases "(k, kz) = (h, sz)")
    case True
    with own show ?thesis by simp
  next
    case False
    have apart: "block_apart (h, sz) (k, kz) \<or> block_apart (k, kz) (h, sz)"
      using assms(2,4) k False
      by (metis (no_types, lifting) blocks_ok_def in_set_conv_nth linorder_neqE_nat sorted_wrt_iff_nth_less)
    have "block_in lo hi (k, kz)" using assms(2) k by (auto simp: blocks_ok_def list_all_iff)
    then have "unat k + 16 \<le> arena_hi" using assms(3) by (simp add: block_in_def)
    moreover have "header_ok m (k, kz)" using assms(1) k by (auto simp: mem_ok_def list_all_iff)
    ultimately show ?thesis
      using apart assms(6,7) sub by (intro header_ok_frame [OF _ s]) (auto simp: block_apart_def)
  qed
  then have "list_all (header_ok m') B" by (auto simp: list_all_iff)
  with assms(1) mapped_dom [OF store_bytes_dom [OF s]] show ?thesis by (simp add: mem_ok_def)
qed

lemma mem_ok_block:
  assumes "mem_ok m B" and "(h, sz) \<in> set B"
  obtains w where "load_u64 m h = Val w" and "hdr_size w = sz" and "load_u64 m (h + 8) = Val kHeapMagic"
  using assms by (auto simp: mem_ok_def list_all_iff header_ok_def)

lemma block_bounds:
  assumes "blocks_ok lo hi B" and "(h, sz) \<in> set B" and "arena_lo \<le> lo" and "hi \<le> arena_hi"
  shows "arena_lo \<le> unat h" and "unat h + 16 + unat sz \<le> arena_hi" and "16 \<le> unat sz"
    and "unat (h + 8) = unat h + 8" and "unat (h + 16) = unat h + 16"
proof -
  show "arena_lo \<le> unat h" "unat h + 16 + unat sz \<le> arena_hi" "16 \<le> unat sz"
    using assms by (auto simp: blocks_ok_def block_in_def list_all_iff)
  then show "unat (h + 8) = unat h + 8" "unat (h + 16) = unat h + 16"
    using unat_hdr_plus [of h] by simp_all
qed

lemma store_size_word:
  assumes "mem_ok m B" and "blocks_ok lo hi B" and "arena_lo \<le> lo" and "hi \<le> arena_hi"
    and "(h, sz) \<in> set B" and "hdr_size w = sz"
  obtains m' where "store_u64 h w m = Val m'" and "mem_ok m' B" and "load_u64 m' h = Val w"
proof -
  note b = block_bounds [OF assms(2,5,3,4)]
  have mp: "mapped m arena_lo arena_hi" using assms(1) by (simp add: mem_ok_def)
  obtain m' where s: "store_u64 h w m = Val m'"
    using store_u64_mapped [OF mp, of h] b by (auto simp: arena_hi_def)
  have l: "load_u64 m' h = Val w" by (rule load_u64_store_same [OF s])
  have "load_u64 m' (h + 8) = load_u64 m (h + 8)"
    using b by (intro load_u64_store_disjoint [OF s]) (simp_all add: arena_hi_def)
  then have "header_ok m' (h, sz)"
    using l assms(6) mem_ok_block [OF assms(1,5)] by (auto simp: header_ok_def)
  then have "mem_ok m' B"
    using b by (intro mem_ok_store [OF assms(1,2,4,5) s [unfolded store_u64_def]]) simp_all
  with s l that show ?thesis by blast
qed

lemma store_magic_word:
  assumes "mem_ok m B" and "blocks_ok lo hi B" and "arena_lo \<le> lo" and "hi \<le> arena_hi"
    and "(h, sz) \<in> set B"
  obtains m' where "store_u64 (h + 8) kHeapMagic m = Val m'" and "mem_ok m' B"
    and "load_u64 m' h = load_u64 m h"
proof -
  note b = block_bounds [OF assms(2,5,3,4)]
  have mp: "mapped m arena_lo arena_hi" using assms(1) by (simp add: mem_ok_def)
  obtain m' where s: "store_u64 (h + 8) kHeapMagic m = Val m'"
    using store_u64_mapped [OF mp, of "h + 8"] b by (auto simp: arena_hi_def)
  have l: "load_u64 m' h = load_u64 m h"
    using b by (intro load_u64_store_disjoint [OF s]) (simp_all add: arena_hi_def)
  then have "header_ok m' (h, sz)"
    using load_u64_store_same [OF s] mem_ok_block [OF assms(1,5)] by (auto simp: header_ok_def)
  then have "mem_ok m' B"
    using b by (intro mem_ok_store [OF assms(1,2,4,5) s [unfolded store_u64_def]]) simp_all
  with s l that show ?thesis by blast
qed

lemma store_payload:
  assumes "mem_ok m B" and "blocks_ok lo hi B" and "arena_lo \<le> lo" and "hi \<le> arena_hi"
    and "(h, sz) \<in> set B" and "unat h + 16 \<le> unat a" and "unat a + length bs \<le> unat h + 16 + unat sz"
  obtains m' where "store_bytes a bs m = Val m'" and "mem_ok m' B" and "load_u64 m' h = load_u64 m h"
proof -
  note b = block_bounds [OF assms(2,5,3,4)]
  have mp: "mapped m arena_lo arena_hi" using assms(1) by (simp add: mem_ok_def)
  obtain m' where s: "store_bytes a bs m = Val m'"
    using store_mapped [OF mp, of a bs] b assms(6,7) by (auto simp: arena_hi_def)
  have "header_ok m (h, sz)" using assms(1,5) by (auto simp: mem_ok_def list_all_iff)
  then have "header_ok m' (h, sz)"
    using b assms(6,7) by (intro header_ok_frame [OF _ s]) auto
  then have "mem_ok m' B"
    using assms(6,7) by (intro mem_ok_store [OF assms(1,2,4,5) s]) auto
  moreover have "load_u64 m' h = load_u64 m h"
    using b assms(6,7) by (intro load_u64_frame [OF s]) (auto simp: arena_hi_def)
  ultimately show ?thesis using s that by blast
qed

section \<open>The allocator's invariant\<close>

definition heap_region :: "libc \<Rightarrow> bool" where
  "heap_region s \<longleftrightarrow> (\<exists>as. lc_space s = Some as
     \<and> (\<exists>r\<in>set (m_regions as). r_base r = hp_base (lc_heap s) \<and> r_size r = 0x10000000
          \<and> r_name r = ''libc-heap''))"

definition heap_wf :: "libc \<Rightarrow> block list \<Rightarrow> bool" where
  "heap_wf s B \<longleftrightarrow>
     length (lc_freeLists s) = 10 \<and> mem_ok (lc_mem s) B
     \<and> (\<forall>as. lc_space s = Some as \<longrightarrow> space_inv as)
     \<and> (\<forall>c<10. lc_freeLists s ! c \<noteq> 0 \<longrightarrow> lc_freeLists s ! c \<in> fst ` set B)
     \<and> (if hp_base (lc_heap s) = 0 then B = []
        else (let base = unat (hp_base (lc_heap s)); nxt = unat (hp_next (lc_heap s))
              in hp_size (lc_heap s) = 0x10000000 \<and> arena_lo \<le> base
                 \<and> base + 0x10000000 \<le> arena_hi \<and> base \<le> nxt \<and> nxt \<le> base + 0x10000000
                 \<and> 16 dvd nxt - base \<and> blocks_ok base nxt B \<and> heap_region s))"

lemma heap_wfD:
  assumes "heap_wf s B" and "hp_base (lc_heap s) \<noteq> 0"
  shows "mem_ok (lc_mem s) B"
    and "blocks_ok (unat (hp_base (lc_heap s))) (unat (hp_next (lc_heap s))) B"
    and "arena_lo \<le> unat (hp_base (lc_heap s))" and "unat (hp_next (lc_heap s)) \<le> arena_hi"
  using assms by (simp_all add: heap_wf_def Let_def)

lemma heap_wf_base: "heap_wf s B \<Longrightarrow> b \<in> set B \<Longrightarrow> hp_base (lc_heap s) \<noteq> 0"
  by (auto simp: heap_wf_def)

lemma heap_wf_mem: "heap_wf s B \<Longrightarrow> mem_ok m B \<Longrightarrow> heap_wf (s\<lparr>lc_mem := m\<rparr>) B"
  by (cases "hp_base (lc_heap s) = 0") (auto simp: heap_wf_def Let_def heap_region_def)

lemma heap_wf_new:
  assumes "mapped m arena_lo arena_hi" and "space_inv as"
  shows "heap_wf (libc_new (Some as) m) []"
  using assms by (simp add: heap_wf_def libc_new_def HeapState_new_def mem_ok_def)

lemma ensure_wf:
  assumes "heap_wf s B" and "ensureHeapInitialized s = (ok, s')"
  shows "heap_wf s' B" and "lc_mem s' = lc_mem s" and "ok \<Longrightarrow> hp_base (lc_heap s') \<noteq> 0"
proof -
  have "heap_wf s' B \<and> lc_mem s' = lc_mem s \<and> (ok \<longrightarrow> hp_base (lc_heap s') \<noteq> 0)"
  proof (cases "hp_base (lc_heap s) \<noteq> 0 \<or> lc_space s = None")
    case True
    with assms show ?thesis by (auto simp: ensureHeapInitialized_def split: option.splits if_splits)
  next
    case False
    then obtain as where as: "lc_space s = Some as" and b0: "hp_base (lc_heap s) = 0" by auto
    have inv: "space_inv as" using assms(1) as by (simp add: heap_wf_def)
    have nw: "no_wrap 0 0x10000000" by (simp add: no_wrap_def)
    have al: "alignUp 0x10000000 kPageSize = 0x10000000" by (simp add: alignUp_def kPageSize_def)
    obtain base as' where m: "AddressSpace_map as 0 0x10000000 (ProtRead OR ProtWrite) ''libc-heap''
        = (base, as')" by force
    have inv': "space_inv as'" by (rule map_keeps_inv [OF inv nw m])
    show ?thesis
    proof (cases "base = 0")
      case True
      then have "ok = False \<and> s' = s\<lparr>lc_space := Some as'\<rparr>"
        using assms(2) b0 as m by (simp add: ensureHeapInitialized_def)
      then show ?thesis using assms(1) inv' b0 by (auto simp: heap_wf_def)
    next
      case nz: False
      have s': "ok" "s' = s\<lparr>lc_space := Some as', lc_heap := (lc_heap s)\<lparr>hp_base := base,
          hp_size := 0x10000000, hp_next := base\<rparr>\<rparr>"
        using assms(2) b0 as m nz by (simp_all add: ensureHeapInitialized_def)
      have "arena_lo \<le> unat base" "unat base + 0x10000000 \<le> arena_hi"
        using map_region_sound [OF inv nw m nz] by (simp_all add: al)
      moreover have "heap_region s'"
        using m nz s' al by (auto simp: heap_region_def elim!: map_okE)
      ultimately show ?thesis
        using assms(1) inv' b0 nz s' by (auto simp: heap_wf_def blocks_ok_def)
    qed
  qed
  then show "heap_wf s' B" "lc_mem s' = lc_mem s" "ok \<Longrightarrow> hp_base (lc_heap s') \<noteq> 0" by auto
qed

section \<open>Payloads are left alone\<close>

definition payloads_kept :: "block list \<Rightarrow> memory \<Rightarrow> memory \<Rightarrow> bool" where
  "payloads_kept B m m' \<longleftrightarrow>
     (\<forall>(h, sz)\<in>set B. \<forall>n\<le>unat sz. load_bytes m' (h + 16) n = load_bytes m (h + 16) n)"

lemma payloads_kept_refl [simp]: "payloads_kept B m m"
  by (auto simp: payloads_kept_def)

lemma payloads_kept_trans:
  "payloads_kept B m m1 \<Longrightarrow> payloads_kept B m1 m2 \<Longrightarrow> payloads_kept B m m2"
  by (fastforce simp: payloads_kept_def)

lemma payloads_kept_store:
  assumes "blocks_ok lo hi B" and "arena_lo \<le> lo" and "hi \<le> arena_hi"
    and s: "store_u64 a w m = Val m'" and "unat a + 8 \<le> arena_hi"
    and "hi \<le> unat a \<or> (\<exists>k kz. (k, kz) \<in> set B \<and> unat k \<le> unat a \<and> unat a + 8 \<le> unat k + 16)"
  shows "payloads_kept B m m'"
proof -
  have "load_bytes m' (h + 16) n = load_bytes m (h + 16) n"
    if b: "(h, sz) \<in> set B" "n \<le> unat sz" for h sz n
  proof -
    note bb = block_bounds [OF assms(1) b(1) assms(2,3)]
    have "block_in lo hi (h, sz)" using assms(1) b(1) by (auto simp: blocks_ok_def list_all_iff)
    then have top: "unat h + 16 + unat sz \<le> hi" by (simp add: block_in_def)
    have "unat (h + 16) + n \<le> unat a \<or> unat a + 8 \<le> unat (h + 16)"
      using assms(6)
    proof
      assume "hi \<le> unat a"
      with top bb b(2) show ?thesis by simp
    next
      assume "\<exists>k kz. (k, kz) \<in> set B \<and> unat k \<le> unat a \<and> unat a + 8 \<le> unat k + 16"
      then obtain k kz where k: "(k, kz) \<in> set B" "unat k \<le> unat a" "unat a + 8 \<le> unat k + 16"
        by blast
      show ?thesis
      proof (cases "(k, kz) = (h, sz)")
        case True
        with k bb show ?thesis by simp
      next
        case False
        then have "block_apart (h, sz) (k, kz) \<or> block_apart (k, kz) (h, sz)"
          using assms(1) k(1) b(1)
          by (metis (no_types, lifting) blocks_ok_def in_set_conv_nth linorder_neqE_nat
              sorted_wrt_iff_nth_less)
        with k bb b(2) show ?thesis by (auto simp: block_apart_def)
      qed
    qed
    then show ?thesis
      using assms(5) bb b(2) s
      by (intro load_store_disjoint [of a "le_bytes 8 w"]) (auto simp: store_u64_def arena_hi_def)
  qed
  then show ?thesis by (auto simp: payloads_kept_def)
qed

lemma payloads_kept_header:
  assumes "blocks_ok lo hi B" and "arena_lo \<le> lo" and "hi \<le> arena_hi" and "(k, kz) \<in> set B"
    and "store_u64 k w m = Val m1" and "store_u64 (k + 8) v m1 = Val m2"
  shows "payloads_kept B m m2"
proof -
  note b = block_bounds [OF assms(1,4,2,3)]
  have "payloads_kept B m m1"
    using assms(4) b by (intro payloads_kept_store [OF assms(1,2,3,5)] disjI2 exI [of _ k] exI [of _ kz]) auto
  moreover have "payloads_kept B m1 m2"
    using assms(4) b by (intro payloads_kept_store [OF assms(1,2,3,6)] disjI2 exI [of _ k] exI [of _ kz]) auto
  ultimately show ?thesis by (rule payloads_kept_trans)
qed

text \<open>A store inside one block leaves the payloads of the others alone.\<close>

definition others_kept :: "block \<Rightarrow> block list \<Rightarrow> memory \<Rightarrow> memory \<Rightarrow> bool" where
  "others_kept b B m m' \<longleftrightarrow>
     (\<forall>(k, kz)\<in>set B. (k, kz) \<noteq> b \<longrightarrow>
        (\<forall>n\<le>unat kz. load_bytes m' (k + 16) n = load_bytes m (k + 16) n))"

lemma others_kept_refl [simp]: "others_kept b B m m"
  by (auto simp: others_kept_def)

lemma others_kept_trans: "others_kept b B m m1 \<Longrightarrow> others_kept b B m1 m2 \<Longrightarrow> others_kept b B m m2"
  by (fastforce simp: others_kept_def)

lemma others_kept_store:
  assumes "blocks_ok lo hi B" and "arena_lo \<le> lo" and "hi \<le> arena_hi" and "(h, sz) \<in> set B"
    and s: "store_bytes a bs m = Val m'" and "unat h \<le> unat a"
    and "unat a + length bs \<le> unat h + 16 + unat sz"
  shows "others_kept (h, sz) B m m'"
proof -
  note hb = block_bounds [OF assms(1,4,2,3)]
  have "load_bytes m' (k + 16) n = load_bytes m (k + 16) n"
    if k: "(k, kz) \<in> set B" "(k, kz) \<noteq> (h, sz)" "n \<le> unat kz" for k kz n
  proof -
    note kb = block_bounds [OF assms(1) k(1) assms(2,3)]
    have "block_apart (h, sz) (k, kz) \<or> block_apart (k, kz) (h, sz)"
      using assms(1,4) k(1,2)
      by (metis (no_types, lifting) blocks_ok_def in_set_conv_nth linorder_neqE_nat
          sorted_wrt_iff_nth_less)
    then show ?thesis
      using assms(6,7) hb kb k(3)
      by (intro load_store_disjoint [OF s]) (auto simp: arena_hi_def block_apart_def)
  qed
  then show ?thesis by (auto simp: others_kept_def)
qed

section \<open>Every operation keeps the invariant\<close>

lemma heap_reuse_wf:
  assumes "heap_wf s B" and "c < 10" and "lc_freeLists s ! c \<noteq> 0"
  obtains s' where "heap_reuse c s = Val (0, s')" and "heap_wf s' B"
    and "payloads_kept B (lc_mem s) (lc_mem s')"
proof -
  let ?h = "lc_freeLists s ! c"
  obtain sz where b: "(?h, sz) \<in> set B" using assms by (fastforce simp: heap_wf_def)
  have nz: "hp_base (lc_heap s) \<noteq> 0" by (rule heap_wf_base [OF assms(1) b])
  note wf = heap_wfD [OF assms(1) nz]
  note bb = block_bounds [OF wf(2) b wf(3,4)]
  obtain w where w: "load_u64 (lc_mem s) ?h = Val w" "hdr_size w = sz"
    using mem_ok_block [OF wf(1) b] by blast
  obtain m1 where m1: "store_u64 ?h (hdr_set_free False w) (lc_mem s) = Val m1" "mem_ok m1 B"
    using store_size_word [OF wf(1,2,3,4) b] w(2) by (metis hdr_size_set_free)
  obtain m2 where m2: "store_u64 (?h + 8) kHeapMagic m1 = Val m2" "mem_ok m2 B"
    using store_magic_word [OF m1(2) wf(2,3,4) b] by blast
  have pk: "payloads_kept B (lc_mem s) m2"
    by (rule payloads_kept_header [OF wf(2,3,4) b m1(1) m2(1)])
  let ?s' = "s\<lparr>lc_freeLists := (lc_freeLists s)[c := (if hdr_isFree w then 0 else ?h)], lc_mem := m2,
      lc_heap := (lc_heap s)\<lparr>hp_live := hp_live (lc_heap s) + hdr_size w,
                             hp_allocs := hp_allocs (lc_heap s) + 1\<rparr>\<rparr>"
  have r: "heap_reuse c s = Val (0, ?s')"
    using w(1) m1(1) m2(1) by (simp add: heap_reuse_def Let_def)
  have "heap_wf ?s' B"
    using assms m2(2) nz by (auto simp: heap_wf_def Let_def heap_region_def nth_list_update)
  with r pk that show ?thesis by simp
qed

lemma heap_bump_wf:
  assumes "heap_wf s B" and nz: "hp_base (lc_heap s) \<noteq> 0"
    and r: "16 \<le> unat r" "16 dvd unat r" "unat r \<le> 2 ^ 63 + 15"
  shows "heap_bump cls r s = Val (0, s) \<or>
    (\<exists>s'. heap_bump cls r s = Val (hp_next (lc_heap s) + 16, s')
       \<and> heap_wf s' ((hp_next (lc_heap s), r) # B) \<and> payloads_kept B (lc_mem s) (lc_mem s')
       \<and> unat (hp_next (lc_heap s) + 16) = unat (hp_next (lc_heap s)) + 16)"
proof -
  let ?n = "hp_next (lc_heap s)" and ?b = "hp_base (lc_heap s)"
  note wf = heap_wfD [OF assms(1) nz]
  have g: "hp_size (lc_heap s) = 0x10000000" "unat ?b + 0x10000000 \<le> arena_hi"
    "unat ?b \<le> unat ?n" "unat ?n \<le> unat ?b + 0x10000000" "16 dvd unat ?n - unat ?b"
    using assms(1) nz by (simp_all add: heap_wf_def Let_def)
  have t: "unat (16 + r) = 16 + unat r" using r(3) by (simp add: unat_add_no_wrap)
  have e: "unat (?n + (16 + r)) = unat ?n + 16 + unat r"
    using t r(3) g(2,4) by (simp add: unat_add_no_wrap arena_hi_def)
  have eb: "unat (?b + 0x10000000) = unat ?b + 0x10000000"
    using g(2) by (simp add: unat_add_no_wrap arena_hi_def)
  show ?thesis
  proof (cases "?n + (16 + r) > ?b + 0x10000000")
    case True
    then show ?thesis by (simp add: heap_bump_def Let_def kHeapHeaderSize_def g(1))
  next
    case False
    then have fit: "unat ?n + 16 + unat r \<le> unat ?b + 0x10000000"
      using e eb by (simp add: word_less_unat)
    then have top: "unat ?n + 16 + unat r \<le> arena_hi" using g(2) by simp
    then have n8: "unat (?n + 8) = unat ?n + 8" "unat (?n + 16) = unat ?n + 16"
      using unat_hdr_plus [of ?n] by simp_all
    have mp: "mapped (lc_mem s) arena_lo arena_hi" using wf(1) by (simp add: mem_ok_def)
    obtain m1 where m1: "store_u64 ?n (hdr_word r cls) (lc_mem s) = Val m1"
      using store_u64_mapped [OF mp, of ?n] wf(3) g(3) top by (auto simp: arena_hi_def)
    have mp1: "mapped m1 arena_lo arena_hi" using mp mapped_dom [OF store_u64_dom [OF m1]] by simp
    obtain m2 where m2: "store_u64 (?n + 8) kHeapMagic m1 = Val m2"
      using store_u64_mapped [OF mp1, of "?n + 8"] wf(3) g(3) top n8 by (auto simp: arena_hi_def)
    have mp2: "mapped m2 arena_lo arena_hi" using mp1 mapped_dom [OF store_u64_dom [OF m2]] by simp
    have old: "header_ok m2 (h, sz)" if hb: "(h, sz) \<in> set B" for h sz
    proof -
      have "block_in (unat ?b) (unat ?n) (h, sz)"
        using wf(2) hb by (auto simp: blocks_ok_def list_all_iff)
      then have "unat h + 16 \<le> unat ?n" by (simp add: block_in_def)
      moreover have "header_ok (lc_mem s) (h, sz)" using wf(1) hb by (auto simp: mem_ok_def list_all_iff)
      ultimately have "header_ok m1 (h, sz)"
        using top r(1) by (intro header_ok_frame [OF _ m1 [unfolded store_u64_def]]) auto
      then show ?thesis
        using top r(1) n8 \<open>unat h + 16 \<le> unat ?n\<close>
        by (intro header_ok_frame [OF _ m2 [unfolded store_u64_def]]) auto
    qed
    have "load_u64 m2 ?n = load_u64 m1 ?n"
      using n8 top by (intro load_u64_store_disjoint [OF m2]) (simp_all add: arena_hi_def)
    moreover have "take_bit 48 r = r"
    proof -
      have "unat r < 2 ^ 48" using fit g(2) by (simp add: arena_hi_def)
      then have "unat (take_bit 48 r) = unat r" by (simp add: take_bit_eq_mod unat_mod)
      then show ?thesis by (simp add: word_unat_eq_iff)
    qed
    ultimately have new: "header_ok m2 (?n, r)"
      using load_u64_store_same [OF m1] load_u64_store_same [OF m2]
      by (simp add: header_ok_def hdr_size_word)
    have mok: "mem_ok m2 ((?n, r) # B)" using old new mp2 by (auto simp: mem_ok_def list_all_iff)
    have bok: "blocks_ok (unat ?b) (unat ?n + 16 + unat r) ((?n, r) # B)"
      using wf(2) r(1) g(3,5)
      by (auto simp: blocks_ok_def block_in_def block_apart_def list_all_iff)
    have "payloads_kept B (lc_mem s) m1" "payloads_kept B m1 m2"
      using n8 top r(1) by (auto intro!: payloads_kept_store [OF wf(2,3,4) m1]
          payloads_kept_store [OF wf(2,3,4) m2])
    then have pk: "payloads_kept B (lc_mem s) m2" by (rule payloads_kept_trans)
    have dv: "16 dvd unat ?n + 16 + unat r - unat ?b"
    proof -
      have "unat ?n + 16 + unat r - unat ?b = (unat ?n - unat ?b) + (16 + unat r)"
        using g(3) by linarith
      moreover have "16 dvd 16 + unat r" using r(2) by (rule dvd_add [OF dvd_refl])
      ultimately show ?thesis using dvd_add [OF g(5)] by metis
    qed
    define h' where "h' = (let live = hp_live (lc_heap s) + r in
      (lc_heap s)\<lparr>hp_next := ?n + (16 + r), hp_allocs := hp_allocs (lc_heap s) + 1, hp_live := live,
        hp_peak := (if live > hp_peak (lc_heap s) then live else hp_peak (lc_heap s))\<rparr>)"
    have hb: "heap_bump cls r s = Val (?n + 16, s\<lparr>lc_mem := m2, lc_heap := h'\<rparr>)"
      using False m1 m2 by (simp add: heap_bump_def Let_def kHeapHeaderSize_def g(1) h'_def)
    have h': "hp_next h' = ?n + (16 + r)" "hp_base h' = ?b" "hp_size h' = hp_size (lc_heap s)"
      by (simp_all add: h'_def Let_def)
    have fl: "\<forall>c<10. lc_freeLists s ! c \<noteq> 0 \<longrightarrow> lc_freeLists s ! c \<in> fst ` set ((?n, r) # B)"
      "length (lc_freeLists s) = 10" "\<forall>as. lc_space s = Some as \<longrightarrow> space_inv as" "heap_region s"
      using assms(1) nz by (auto simp: heap_wf_def Let_def)
    then have "heap_region (s\<lparr>lc_mem := m2, lc_heap := h'\<rparr>)" by (simp add: heap_region_def h')
    then have "heap_wf (s\<lparr>lc_mem := m2, lc_heap := h'\<rparr>) ((?n, r) # B)"
      unfolding heap_wf_def Let_def using nz mok bok dv e fit g wf(3) fl by (simp add: h')
    with hb pk n8(2) show ?thesis by (intro disjI2 exI [of _ "s\<lparr>lc_mem := m2, lc_heap := h'\<rparr>"]) simp
  qed
qed

text \<open>An allocation either fails and adds no block, or returns the payload of a new block.\<close>

lemma heapAlloc_wf:
  assumes "heap_wf s B" and "unat request \<le> 2 ^ 63"
  obtains s' where "heapAlloc request s = Val (0, s')" and "heap_wf s' B"
      and "payloads_kept B (lc_mem s) (lc_mem s')"
  | h sz s' where "heapAlloc request s = Val (h + 16, s')" and "heap_wf s' ((h, sz) # B)"
      and "payloads_kept B (lc_mem s) (lc_mem s')" and "unat request \<le> unat sz"
      and "unat (h + 16) = unat h + 16"
proof -
  obtain ok s1 where en: "ensureHeapInitialized s = (ok, s1)" by force
  note wf1 = ensure_wf [OF assms(1) en]
  show ?thesis
  proof (cases ok)
    case False
    with en wf1 that(1) show ?thesis by (simp add: heapAlloc_def)
  next
    case True
    let ?q = "if request = 0 then 1 else request"
    obtain cls r where pc: "pickClass ?q = (cls, r)" by force
    have q: "unat ?q \<le> 2 ^ 63" "unat request \<le> unat ?q" using assms(2) by auto
    note rd = pickClass_rounds [OF pc q(1)]
    have len: "length (lc_freeLists s1) = 10" using wf1(1) by (simp add: heap_wf_def)
    have al: "heapAlloc request s =
        (if unat cls < 10 \<and> lc_freeLists s1 ! unat cls \<noteq> 0 then heap_reuse (unat cls) s1
         else heap_bump cls r s1)"
      using en True pc len by (simp add: heapAlloc_def)
    show ?thesis
    proof (cases "unat cls < 10 \<and> lc_freeLists s1 ! unat cls \<noteq> 0")
      case c: True
      then obtain s2 where "heap_reuse (unat cls) s1 = Val (0, s2)" "heap_wf s2 B"
        "payloads_kept B (lc_mem s1) (lc_mem s2)"
        using heap_reuse_wf [OF wf1(1), of "unat cls"] by blast
      with c that(1) al wf1(2) show ?thesis by simp
    next
      case c: False
      from heap_bump_wf [OF wf1(1) wf1(3) [OF True] rd(4) rd(3) rd(2), of cls]
      show ?thesis
      proof
        assume "heap_bump cls r s1 = Val (0, s1)"
        with c that(1) al wf1(1,2) show ?thesis by auto
      next
        assume "\<exists>s'. heap_bump cls r s1 = Val (hp_next (lc_heap s1) + 16, s')
          \<and> heap_wf s' ((hp_next (lc_heap s1), r) # B) \<and> payloads_kept B (lc_mem s1) (lc_mem s')
          \<and> unat (hp_next (lc_heap s1) + 16) = unat (hp_next (lc_heap s1)) + 16"
        with c that(2) al wf1(2) rd(1) q(2) show ?thesis by auto
      qed
    qed
  qed
qed

lemma heapFree_wf:
  assumes "heap_wf s B" and b: "(h, sz) \<in> set B"
  obtains s' where "heapFree (h + 16) s = Val s'" and "heap_wf s' B"
    and "others_kept (h, sz) B (lc_mem s) (lc_mem s')"
proof -
  have nz: "hp_base (lc_heap s) \<noteq> 0" by (rule heap_wf_base [OF assms])
  note wf = heap_wfD [OF assms(1) nz]
  note bb = block_bounds [OF wf(2) b wf(3,4)]
  have p0: "h + 16 \<noteq> 0" using bb(5) by (metis add_gr_0 unat_0 less_irrefl zero_less_numeral)
  obtain w where w: "load_u64 (lc_mem s) h = Val w" "hdr_size w = sz"
    "load_u64 (lc_mem s) (h + 8) = Val kHeapMagic"
    using mem_ok_block [OF wf(1) b] by blast
  show ?thesis
  proof (cases "hdr_isFree w")
    case True
    with that [of s] assms(1) p0 w show ?thesis by (simp add: heapFree_def Let_def)
  next
    case False
    obtain m1 where m1: "store_u64 h (hdr_set_free True w) (lc_mem s) = Val m1" "mem_ok m1 B"
      using store_size_word [OF wf(1,2,3,4) b] w(2) by (metis hdr_size_set_free)
    have k1: "others_kept (h, sz) B (lc_mem s) m1"
      using bb by (intro others_kept_store [OF wf(2,3,4) b m1(1) [unfolded store_u64_def]]) simp_all
    define s1 where "s1 = s\<lparr>lc_mem := m1, lc_heap := (lc_heap s)\<lparr>
        hp_live := (if sz < hp_live (lc_heap s) then hp_live (lc_heap s) - sz else 0),
        hp_frees := hp_frees (lc_heap s) + 1\<rparr>\<rparr>"
    have wf1: "heap_wf s1 B"
      using assms(1) nz m1(2) by (simp add: heap_wf_def Let_def heap_region_def s1_def)
    let ?c = "unat (hdr_class w)"
    show ?thesis
    proof (cases "?c < 10")
      case c: False
      then have "heapFree (h + 16) s = Val s1"
        using p0 w False m1(1) assms(1) by (simp add: heapFree_def Let_def s1_def heap_wf_def)
      with that wf1 k1 show ?thesis by (simp add: s1_def)
    next
      case c: True
      obtain m2 where m2: "store_u64 (h + 16) (lc_freeLists s ! ?c) m1 = Val m2" "mem_ok m2 B"
        using store_payload [OF m1(2) wf(2,3,4) b, of "h + 16" "le_bytes 8 (lc_freeLists s ! ?c)"] bb
        by (auto simp: store_u64_def)
      have "others_kept (h, sz) B m1 m2"
        using bb by (intro others_kept_store [OF wf(2,3,4) b m2(1) [unfolded store_u64_def]]) simp_all
      with k1 have k2: "others_kept (h, sz) B (lc_mem s) m2" by (rule others_kept_trans)
      have "heapFree (h + 16) s = Val (s1\<lparr>lc_mem := m2, lc_freeLists := (lc_freeLists s)[?c := h]\<rparr>)"
        using p0 w False m1(1) m2(1) c assms(1)
        by (simp add: heapFree_def Let_def s1_def heap_wf_def)
      moreover have "heap_wf (s1\<lparr>lc_mem := m2, lc_freeLists := (lc_freeLists s)[?c := h]\<rparr>) B"
      proof -
        have "h \<in> fst ` set B" using b by force
        then show ?thesis
          using heap_wf_mem [OF wf1 m2(2)] nz c
          by (auto simp: heap_wf_def Let_def heap_region_def s1_def nth_list_update)
      qed
      ultimately show ?thesis using that k2 by simp
    qed
  qed
qed

end
