(* ===== verification/Libc_Heap_Safety.thy ===== *)
theory Libc_Heap_Safety
  imports Libc_Heap
begin

text \<open>
  What a well-behaved client of the libc allocator gets: the contract of the heap interface
  (\<^verbatim>\<open>malloc\<close>, \<^verbatim>\<open>free\<close>, \<^verbatim>\<open>calloc\<close>, \<^verbatim>\<open>realloc\<close>, \<^verbatim>\<open>memalign\<close>) over arbitrary sequences of calls and
  of stores the client makes inside its own blocks.
\<close>

section \<open>Client sequences\<close>

datatype libc_call =
    CMalloc u64
  | CFree u64
  | CCalloc u64 u64
  | CRealloc u64 u64
  | CMemalign u64 u64
  | CStore u64 "u8 list"

text \<open>A block the client holds: its address, the size asked for, and whether it may be freed.\<close>

type_synonym live_block = "u64 \<times> nat \<times> bool"

fun libc_step :: "libc_call \<Rightarrow> libc \<Rightarrow> (u64 \<times> libc) cpp" where
  "libc_step (CMalloc n) s = sceLibcMalloc n s"
| "libc_step (CFree p) s = cpp_bind (sceLibcFree p s) (\<lambda>s. Val (0, s))"
| "libc_step (CCalloc c n) s = sceLibcCalloc c n s"
| "libc_step (CRealloc p n) s = sceLibcRealloc p n s"
| "libc_step (CMemalign a n) s = sceLibcMemalign a n s"
| "libc_step (CStore a bs) s = cpp_bind (store_bytes a bs (lc_mem s)) (\<lambda>m. Val (0, s\<lparr>lc_mem := m\<rparr>))"

text \<open>
  The client's side of the contract: it frees and reallocates only what it holds, stores only
  inside what it holds, and asks for at most half the address space. A pointer obtained with an
  alignment above 16 may not be freed, as the source notes.
\<close>

fun client_ok :: "libc_call \<Rightarrow> live_block list \<Rightarrow> bool" where
  "client_ok (CMalloc n) L \<longleftrightarrow> n \<le> 0x8000000000000000"
| "client_ok (CFree p) L \<longleftrightarrow> p = 0 \<or> (\<exists>(q, n, f)\<in>set L. q = p \<and> f)"
| "client_ok (CCalloc c n) L \<longleftrightarrow> c * n \<le> 0x8000000000000000"
| "client_ok (CRealloc p n) L \<longleftrightarrow> n \<le> 0x8000000000000000 \<and> (p = 0 \<or> (\<exists>(q, n, f)\<in>set L. q = p \<and> f))"
| "client_ok (CMemalign a n) L \<longleftrightarrow> a \<le> 0x4000000000000000 \<and> n \<le> 0x4000000000000000"
| "client_ok (CStore a bs) L \<longleftrightarrow>
     (\<exists>(q, n, f)\<in>set L. q \<le> a \<and> unat (a - q) + length bs \<le> n)"

lemma half_bound: "n \<le> 0x8000000000000000 \<Longrightarrow> unat n \<le> 9223372036854775808" for n :: u64
  by (simp add: word_le_unat)

definition drop_ptr :: "u64 \<Rightarrow> live_block list \<Rightarrow> live_block list" where
  "drop_ptr p L = filter (\<lambda>(q, n, f). q \<noteq> p) L"

text \<open>What the client holds after a call that returned \<open>r\<close>.\<close>

fun live_after :: "libc_call \<Rightarrow> u64 \<Rightarrow> live_block list \<Rightarrow> live_block list" where
  "live_after (CMalloc n) r L = (if r = 0 then L else (r, unat n, True) # L)"
| "live_after (CFree p) r L = drop_ptr p L"
| "live_after (CCalloc c n) r L = (if r = 0 then L else (r, unat (c * n), True) # L)"
| "live_after (CRealloc p n) r L =
     (if p \<noteq> 0 \<and> n = 0 then drop_ptr p L
      else if r = 0 then L
      else (r, unat n, True) # (if p = 0 then L else drop_ptr p L))"
| "live_after (CMemalign a n) r L = (if r = 0 then L else (r, unat n, a \<le> 16) # L)"
| "live_after (CStore a bs) r L = L"

fun libc_run :: "libc_call list \<Rightarrow> libc \<Rightarrow> live_block list \<Rightarrow> (libc \<times> live_block list) cpp" where
  "libc_run [] s L = Val (s, L)"
| "libc_run (c # cs) s L =
     cpp_bind (libc_step c s) (\<lambda>(r, s'). libc_run cs s' (live_after c r L))"

fun client_valid :: "libc_call list \<Rightarrow> libc \<Rightarrow> live_block list \<Rightarrow> bool" where
  "client_valid [] s L = True"
| "client_valid (c # cs) s L \<longleftrightarrow>
     client_ok c L
     \<and> (case libc_step c s of UB \<Rightarrow> True | Val (r, s') \<Rightarrow> client_valid cs s' (live_after c r L))"

section \<open>Ownership\<close>

text \<open>Each block the client holds lies in the payload of its own allocator block.\<close>

definition holds :: "live_block \<times> block \<Rightarrow> bool" where
  "holds = (\<lambda>((p, n, f), (h, sz)). unat h + 16 \<le> unat p \<and> unat p + n \<le> unat h + 16 + unat sz
     \<and> (f \<longrightarrow> p = h + 16))"

definition owned :: "(live_block \<times> block) list \<Rightarrow> block list \<Rightarrow> bool" where
  "owned Own B \<longleftrightarrow> distinct (map snd Own) \<and> snd ` set Own \<subseteq> set B \<and> list_all holds Own"

definition client_inv :: "libc \<Rightarrow> live_block list \<Rightarrow> bool" where
  "client_inv s L \<longleftrightarrow> (\<exists>B Own. heap_wf s B \<and> owned Own B \<and> L = map fst Own)"

lemma client_invI: "heap_wf s B \<Longrightarrow> owned Own B \<Longrightarrow> client_inv s (map fst Own)"
  by (auto simp: client_inv_def)

lemma owned_Cons:
  assumes "owned Own B" and "b \<in> set B" and "b \<notin> snd ` set Own" and "holds (e, b)"
  shows "owned ((e, b) # Own) B"
  using assms by (auto simp: owned_def)

lemma owned_mono: "owned Own B \<Longrightarrow> set B \<subseteq> set B' \<Longrightarrow> owned Own B'"
  by (auto simp: owned_def)

lemma owned_filter: "owned Own B \<Longrightarrow> owned (filter P Own) B"
  by (auto simp: owned_def distinct_map_filter list_all_iff)

lemma new_block_fresh:
  assumes "heap_wf s (b # B)"
  shows "b \<notin> set B"
proof
  assume "b \<in> set B"
  moreover have "blocks_ok (unat (hp_base (lc_heap s))) (unat (hp_next (lc_heap s))) (b # B)"
    using heap_wfD(2) [OF assms] heap_wf_base [OF assms, of b] by simp
  ultimately show False by (cases b) (auto simp: blocks_ok_def block_apart_def)
qed

lemma owned_new:
  assumes "owned Own B" and "heap_wf s (b # B)" and "holds (e, b)"
  shows "owned ((e, b) # Own) (b # B)"
proof (rule owned_Cons [OF owned_mono [OF assms(1)] _ _ assms(3)])
  show "b \<notin> snd ` set Own" using new_block_fresh [OF assms(2)] assms(1) by (auto simp: owned_def)
qed auto

text \<open>Dropping a pointer from what the client holds.\<close>

definition drop_owned :: "u64 \<Rightarrow> (live_block \<times> block) list \<Rightarrow> (live_block \<times> block) list" where
  "drop_owned p Own = filter (\<lambda>e. fst (fst e) \<noteq> p) Own"

lemma drop_ptr_map: "drop_ptr p (map fst Own) = map fst (drop_owned p Own)"
  by (induction Own) (auto simp: drop_ptr_def drop_owned_def)

lemma owned_drop: "owned Own B \<Longrightarrow> owned (drop_owned p Own) B"
  unfolding drop_owned_def by (rule owned_filter)

lemma drop_owned_block:
  assumes "owned Own B" and "((p, n, f), b) \<in> set Own"
  shows "b \<notin> snd ` set (drop_owned p Own)"
proof
  assume "b \<in> snd ` set (drop_owned p Own)"
  then obtain e where e: "(e, b) \<in> set Own" "fst e \<noteq> p" by (auto simp: drop_owned_def)
  have "inj_on snd (set Own)" using assms(1) by (simp add: owned_def distinct_map)
  then have "(e, b) = ((p, n, f), b)"
    using inj_onD [of snd "set Own" "(e, b)" "((p, n, f), b)"] e(1) assms(2) by simp
  with e(2) show False by simp
qed

lemma owned_memD:
  assumes "owned Own B" and "((p, n, f), (h, sz)) \<in> set Own"
  shows "(h, sz) \<in> set B" and "unat h + 16 \<le> unat p" and "unat p + n \<le> unat h + 16 + unat sz"
    and "f \<Longrightarrow> p = h + 16"
  using assms by (auto simp: owned_def holds_def list_all_iff)

section \<open>Steps\<close>

lemma alloc_step:
  assumes "heap_wf s B" and "owned Own B" and "unat request \<le> 2 ^ 63"
  obtains s' where "heapAlloc request s = Val (0, s')" and "client_inv s' (map fst Own)"
  | h sz s' where "heapAlloc request s = Val (h + 16, s')" and "h + 16 \<noteq> 0"
      and "heap_wf s' ((h, sz) # B)" and "owned (((h + 16, unat request, True), (h, sz)) # Own) ((h, sz) # B)"
      and "unat (h + 16) = unat h + 16" and "unat request \<le> unat sz"
      and "payloads_kept B (lc_mem s) (lc_mem s')"
  using assms(1,3)
proof (cases rule: heapAlloc_wf)
  case (1 s')
  with that(1) client_invI assms(2) show ?thesis by blast
next
  case (2 h sz s')
  have "holds ((h + 16, unat request, True), (h, sz))" using 2(4,5) by (simp add: holds_def)
  then have "owned (((h + 16, unat request, True), (h, sz)) # Own) ((h, sz) # B)"
    by (rule owned_new [OF assms(2) 2(2)])
  moreover have "h + 16 \<noteq> 0" using 2(5) by (metis add_gr_0 unat_0 less_irrefl zero_less_numeral)
  ultimately show ?thesis using that(2) 2 by blast
qed

definition step_ok :: "libc_call \<Rightarrow> libc \<Rightarrow> live_block list \<Rightarrow> bool" where
  "step_ok c s L \<longleftrightarrow> (\<exists>r s'. libc_step c s = Val (r, s') \<and> client_inv s' (live_after c r L))"

lemma step_okI:
  "libc_step c s = Val (r, s') \<Longrightarrow> live_after c r L = map fst Own \<Longrightarrow> heap_wf s' B \<Longrightarrow> owned Own B
     \<Longrightarrow> step_ok c s L"
  by (auto simp: step_ok_def client_inv_def)

lemma malloc_step: "client_inv s L \<Longrightarrow> client_ok (CMalloc n) L \<Longrightarrow> step_ok (CMalloc n) s L"
proof -
  assume "client_inv s L" and n: "client_ok (CMalloc n) L"
  then obtain B Own where wf: "heap_wf s B" "owned Own B" "L = map fst Own"
    by (auto simp: client_inv_def)
  from n have "unat n \<le> 2 ^ 63" by (simp add: half_bound)
  with wf(1,2) show ?thesis
  proof (cases rule: alloc_step)
    case (1 s')
    then show ?thesis using wf(3) by (auto simp: step_ok_def sceLibcMalloc_def)
  next
    case (2 h sz s')
    then show ?thesis
      using wf(3) by (intro step_okI [OF _ _ 2(3,4)]) (auto simp: sceLibcMalloc_def)
  qed
qed

lemma calloc_step: "client_inv s L \<Longrightarrow> client_ok (CCalloc c n) L \<Longrightarrow> step_ok (CCalloc c n) s L"
proof -
  assume inv: "client_inv s L" and n: "client_ok (CCalloc c n) L"
  then obtain B Own where wf: "heap_wf s B" "owned Own B" "L = map fst Own"
    by (auto simp: client_inv_def)
  let ?t = "c * n"
  show ?thesis
  proof (cases "c \<noteq> 0 \<and> ?t div c \<noteq> n")
    case True
    then show ?thesis using inv by (auto simp: step_ok_def sceLibcCalloc_def Let_def)
  next
    case ov: False
    from n have "unat ?t \<le> 2 ^ 63" using half_bound [of ?t] by simp
    with wf(1,2) show ?thesis
    proof (cases rule: alloc_step)
      case (1 s')
      then show ?thesis using wf(3) ov by (auto simp: step_ok_def sceLibcCalloc_def Let_def)
    next
      case (2 h sz s')
      have nz: "hp_base (lc_heap s') \<noteq> 0" using heap_wf_base [OF 2(3), of "(h, sz)"] by simp
      note wf' = heap_wfD [OF 2(3) nz]
      obtain m where m: "store_bytes (h + 16) (replicate (unat ?t) 0) (lc_mem s') = Val m"
        "mem_ok m ((h, sz) # B)"
        using store_payload [OF wf', of h sz "h + 16" "replicate (unat ?t) 0"] 2(5,6) by auto
      show ?thesis
        using ov 2(1,2) m(1) wf(3)
        by (intro step_okI [OF _ _ heap_wf_mem [OF 2(3) m(2)] 2(4)])
          (auto simp: sceLibcCalloc_def Let_def)
    qed
  qed
qed

lemma held_block:
  assumes "owned Own B" and "\<exists>(q, n, f)\<in>set (map fst Own). q = p \<and> f"
  obtains n h sz where "((p, n, True), (h, sz)) \<in> set Own" and "p = h + 16" and "(h, sz) \<in> set B"
proof -
  from assms(2) obtain n b where e: "((p, n, True), b) \<in> set Own" by force
  obtain h sz where b: "b = (h, sz)" by force
  from owned_memD [OF assms(1) e [unfolded b]] e b that show ?thesis by blast
qed

lemma free_step: "client_inv s L \<Longrightarrow> client_ok (CFree p) L \<Longrightarrow> step_ok (CFree p) s L"
proof -
  assume inv: "client_inv s L" and ok: "client_ok (CFree p) L"
  then obtain B Own where wf: "heap_wf s B" "owned Own B" "L = map fst Own"
    by (auto simp: client_inv_def)
  show ?thesis
  proof (cases "p = 0")
    case True
    then show ?thesis
      using wf owned_drop [OF wf(2), of p]
      by (intro step_okI [OF _ _ wf(1) owned_drop [OF wf(2), of p]])
        (auto simp: sceLibcFree_def heapFree_def drop_ptr_map)
  next
    case False
    with ok wf(3) have "\<exists>(q, n, f)\<in>set (map fst Own). q = p \<and> f" by simp
    with wf(2) obtain n h sz where e: "p = h + 16" "(h, sz) \<in> set B" by (rule held_block)
    obtain s' where "heapFree p s = Val s'" "heap_wf s' B"
      using heapFree_wf [OF wf(1) e(2)] e(1) by blast
    then show ?thesis
      using wf(3) by (intro step_okI [OF _ _ _ owned_drop [OF wf(2), of p]])
        (auto simp: sceLibcFree_def drop_ptr_map)
  qed
qed

lemma store_step: "client_inv s L \<Longrightarrow> client_ok (CStore a bs) L \<Longrightarrow> step_ok (CStore a bs) s L"
proof -
  assume inv: "client_inv s L" and ok: "client_ok (CStore a bs) L"
  then obtain B Own where wf: "heap_wf s B" "owned Own B" "L = map fst Own"
    by (auto simp: client_inv_def)
  from ok wf(3) obtain q n f h sz where e0: "((q, n, f), (h, sz)) \<in> set Own" "q \<le> a"
    "unat (a - q) + length bs \<le> n" by fastforce
  then have e: "((q, n, f), (h, sz)) \<in> set Own" "unat q \<le> unat a" "unat a + length bs \<le> unat q + n"
    by (auto simp: word_le_unat unat_sub_no_wrap)
  note o = owned_memD [OF wf(2) e(1)]
  note wf' = heap_wfD [OF wf(1) heap_wf_base [OF wf(1) o(1)]]
  obtain m where m: "store_bytes a bs (lc_mem s) = Val m" "mem_ok m B"
    using store_payload [OF wf' o(1), of a bs] o e by auto
  show ?thesis
    using m(1) wf(3) by (intro step_okI [OF _ _ heap_wf_mem [OF wf(1) m(2)] wf(2)]) auto
qed

lemma memalign_step: "client_inv s L \<Longrightarrow> client_ok (CMemalign a n) L \<Longrightarrow> step_ok (CMemalign a n) s L"
proof -
  assume inv: "client_inv s L" and ok: "client_ok (CMemalign a n) L"
  then obtain B Own where wf: "heap_wf s B" "owned Own B" "L = map fst Own"
    by (auto simp: client_inv_def)
  have bound: "unat a + unat n \<le> 2 ^ 63" using ok by (simp add: word_le_unat)
  consider "a = 0 \<or> a AND (a - 1) \<noteq> 0" | "a \<noteq> 0" "a AND (a - 1) = 0" "a \<le> 16"
    | "a \<noteq> 0" "a AND (a - 1) = 0" "\<not> a \<le> 16" by blast
  then show ?thesis
  proof cases
    case 1
    then show ?thesis using inv by (auto simp: step_ok_def sceLibcMemalign_def)
  next
    case 2
    then have "sceLibcMemalign a n s = sceLibcMalloc n s"
      by (simp add: sceLibcMemalign_def sceLibcMalloc_def kHeapAlignment_def)
    moreover have "client_ok (CMalloc n) L" using bound by (simp add: word_le_unat)
    ultimately show ?thesis using malloc_step [OF inv, of n] 2 by (force simp: step_ok_def)
  next
    case 3
    have e: "unat (n + a) = unat n + unat a" using bound by (simp add: unat_add_no_wrap)
    then have "unat (n + a) \<le> 2 ^ 63" using bound by simp
    with wf(1) show ?thesis
    proof (cases rule: heapAlloc_wf)
      case (1 s')
      with 3 wf show ?thesis
        by (auto simp: step_ok_def sceLibcMemalign_def kHeapAlignment_def client_inv_def)
    next
      case (2 h sz s')
      let ?p = "(h + 16 + a - 1) AND NOT (a - 1)"
      have nz: "hp_base (lc_heap s') \<noteq> 0" using heap_wf_base [OF 2(2), of "(h, sz)"] by simp
      note wf' = heap_wfD [OF 2(2) nz]
      have bb: "unat h + 16 + unat sz \<le> arena_hi" using block_bounds(2) [OF wf'(2) _ wf'(3,4)] by simp
      have a1: "unat (a - 1) = unat a - 1" using 3(1) by (simp add: unat_minus_one)
      have "unat (h + 16 + (a - 1)) = unat h + 16 + (unat a - 1)"
        using unat_add_no_wrap [of "h + 16" "a - 1"] 2(4,5) a1 e bb by (simp add: arena_hi_def)
      then have q: "unat (h + 16 + a - 1) = unat h + 16 + (unat a - 1)"
        by (simp add: add_diff_eq)
      have pb: "unat h + 16 \<le> unat ?p" "unat ?p \<le> unat h + 16 + (unat a - 1)"
        using and_not_bounds [of "h + 16 + a - 1" "a - 1"] q a1 by simp_all
      then have "holds ((?p, unat n, False), (h, sz))"
        using 2(4) e unat_gt_0 [of a] 3(1) by (simp add: holds_def)
      then have "holds ((?p, unat n, a \<le> 16), (h, sz))" using 3(3) by simp
      then have own: "owned (((?p, unat n, a \<le> 16), (h, sz)) # Own) ((h, sz) # B)"
        by (rule owned_new [OF wf(2) 2(2)])
      have r0: "h + 16 \<noteq> 0" using 2(5) by (metis add_gr_0 unat_0 less_irrefl zero_less_numeral)
      have "?p \<noteq> 0" using pb(1) by (metis add_gr_0 le_zero_eq less_irrefl unat_0 zero_less_numeral)
      then show ?thesis
        using 2(1) 3 r0 wf(3)
        by (intro step_okI [OF _ _ 2(2) own]) (auto simp: sceLibcMemalign_def kHeapAlignment_def)
    qed
  qed
qed

lemma heap_wf_tl_payload:
  assumes "heap_wf s B" and "(h, sz) \<in> set B"
  obtains bs where "load_bytes (lc_mem s) (h + 16) (unat sz) = Val bs" and "length bs = unat sz"
proof -
  note wf = heap_wfD [OF assms(1) heap_wf_base [OF assms]]
  note bb = block_bounds [OF wf(2) assms(2) wf(3,4)]
  have "mapped (lc_mem s) arena_lo arena_hi" using wf(1) by (simp add: mem_ok_def)
  then show ?thesis
    using load_bytes_mapped [of "lc_mem s" arena_lo arena_hi "h + 16" "unat sz"] bb that
    by (auto simp: arena_hi_def)
qed

text \<open>
  The whole of \<^verbatim>\<open>realloc\<close> on a held block: it stays, cannot grow, or moves with its contents.
\<close>

lemma realloc_cases:
  assumes "heap_wf s B" and "(h, sz) \<in> set B" and "unat n \<le> 2 ^ 63" and "n \<noteq> 0"
  obtains "sceLibcRealloc (h + 16) n s = Val (h + 16, s)" and "unat n \<le> unat sz"
  | s' where "sceLibcRealloc (h + 16) n s = Val (0, s')" and "heap_wf s' B"
  | h' sz' s' bs where "sceLibcRealloc (h + 16) n s = Val (h' + 16, s')"
      and "heap_wf s' ((h', sz') # B)" and "unat n \<le> unat sz'" and "unat (h' + 16) = unat h' + 16"
      and "load_bytes (lc_mem s) (h + 16) (unat sz) = Val bs"
      and "load_bytes (lc_mem s') (h' + 16) (unat sz) = Val bs" and "unat sz < unat n"
proof -
  have nz: "hp_base (lc_heap s) \<noteq> 0" by (rule heap_wf_base [OF assms(1,2)])
  note wf = heap_wfD [OF assms(1) nz]
  note bb = block_bounds [OF wf(2) assms(2) wf(3,4)]
  have p0: "h + 16 \<noteq> 0" using bb(5) by (metis add_gr_0 unat_0 less_irrefl zero_less_numeral)
  obtain w where w: "load_u64 (lc_mem s) h = Val w" "hdr_size w = sz"
    "load_u64 (lc_mem s) (h + 8) = Val kHeapMagic"
    using mem_ok_block [OF wf(1) assms(2)] by blast
  show ?thesis
  proof (cases "n \<le> sz")
    case True
    then have "sceLibcRealloc (h + 16) n s = Val (h + 16, s)"
      using p0 assms(4) w by (simp add: sceLibcRealloc_def Let_def)
    with True that(1) show ?thesis by (simp add: word_le_unat)
  next
    case grow: False
    then have lt: "unat sz < unat n" by (simp add: word_le_unat)
    from assms(1,3) show ?thesis
    proof (cases rule: heapAlloc_wf)
      case (1 s')
      then show ?thesis
        using that(2) [of s'] p0 assms(4) w grow by (simp add: sceLibcRealloc_def Let_def)
    next
      case (2 h' sz' s')
      have q0: "h' + 16 \<noteq> 0" using 2(5) by (metis add_gr_0 unat_0 less_irrefl zero_less_numeral)
      have inB: "(h, sz) \<in> set ((h', sz') # B)" using assms(2) by simp
      note wf' = heap_wfD [OF 2(2) heap_wf_base [OF 2(2) inB]]
      obtain w' where w': "load_u64 (lc_mem s') h = Val w'" "hdr_size w' = sz"
        using mem_ok_block [OF wf'(1) inB] by blast
      obtain bs where bs: "load_bytes (lc_mem s) (h + 16) (unat sz) = Val bs" "length bs = unat sz"
        by (rule heap_wf_tl_payload [OF assms(1,2)])
      have bs': "load_bytes (lc_mem s') (h + 16) (unat sz) = Val bs"
        using 2(3) assms(2) bs(1) by (fastforce simp: payloads_kept_def)
      have new: "(h', sz') \<in> set ((h', sz') # B)" by simp
      obtain m where m: "store_bytes (h' + 16) bs (lc_mem s') = Val m" "mem_ok m ((h', sz') # B)"
        using store_payload [OF wf' new, of "h' + 16" bs] 2(4,5) lt bs(2) by auto
      have lm: "load_bytes m (h' + 16) (unat sz) = Val bs"
        using load_store_bytes [OF m(1)] bs(2) unat_lt_64 [of sz] by simp
      have "(h', sz') \<noteq> (h, sz)" using new_block_fresh [OF 2(2)] assms(2) by blast
      obtain s'' where f: "heapFree (h + 16) (s'\<lparr>lc_mem := m\<rparr>) = Val s''" "heap_wf s'' ((h', sz') # B)"
        "others_kept (h, sz) ((h', sz') # B) m (lc_mem s'')"
        using heapFree_wf [OF heap_wf_mem [OF 2(2) m(2)] inB] by auto
      have "unat sz \<le> unat sz'" using lt 2(4) by simp
      with f(3) \<open>(h', sz') \<noteq> (h, sz)\<close>
      have fl: "load_bytes (lc_mem s'') (h' + 16) (unat sz) = Val bs"
        using lm by (simp add: others_kept_def)
      have "sceLibcRealloc (h + 16) n s = Val (h' + 16, s'')"
        using p0 q0 assms(4) w grow 2(1) w' bs' m(1) f(1) by (simp add: sceLibcRealloc_def Let_def)
      with that(3) f(2) fl 2(4,5) bs(1) lt show ?thesis by blast
    qed
  qed
qed

lemma realloc_step: "client_inv s L \<Longrightarrow> client_ok (CRealloc p n) L \<Longrightarrow> step_ok (CRealloc p n) s L"
proof -
  assume inv: "client_inv s L" and ok: "client_ok (CRealloc p n) L"
  then obtain B Own where wf: "heap_wf s B" "owned Own B" "L = map fst Own"
    by (auto simp: client_inv_def)
  have n: "unat n \<le> 2 ^ 63" using ok by (simp add: half_bound)
  show ?thesis
  proof (cases "p = 0 \<or> n = 0")
    case True
    then show ?thesis
    proof (cases "p = 0")
      case p0: True
      then have "libc_step (CRealloc p n) s = libc_step (CMalloc n) s"
        "live_after (CRealloc p n) = live_after (CMalloc n)"
        by (simp_all add: sceLibcRealloc_def sceLibcMalloc_def fun_eq_iff)
      then show ?thesis using malloc_step [OF inv, of n] ok unfolding step_ok_def by simp
    next
      case False
      with True have "libc_step (CRealloc p n) s = libc_step (CFree p) s"
        "live_after (CRealloc p n) = live_after (CFree p)" "client_ok (CFree p) L"
        using ok by (auto simp: sceLibcRealloc_def sceLibcFree_def fun_eq_iff)
      then show ?thesis using free_step [OF inv, of p] unfolding step_ok_def by simp
    qed
  next
    case False
    with ok wf(3) have "\<exists>(q, n, f)\<in>set (map fst Own). q = p \<and> f" by simp
    with wf(2) obtain k h sz where e: "((p, k, True), (h, sz)) \<in> set Own" "p = h + 16"
      "(h, sz) \<in> set B" by (rule held_block)
    have live: "r \<noteq> 0 \<Longrightarrow> live_after (CRealloc p n) r L = (r, unat n, True) # map fst (drop_owned p Own)" for r
      using False wf(3) by (simp add: drop_ptr_map)
    note fresh = drop_owned_block [OF wf(2) e(1)]
    note hw = heap_wfD [OF wf(1) heap_wf_base [OF wf(1) e(3)]]
    have eb: "unat (h + 16) = unat h + 16" by (rule block_bounds(5) [OF hw(2) e(3) hw(3,4)])
    have "n \<noteq> 0" using False by simp
    with wf(1) e(3) n show ?thesis
    proof (cases rule: realloc_cases)
      case 1
      have "holds ((p, unat n, True), (h, sz))"
        using 1(2) owned_memD [OF wf(2) e(1)] eb by (simp add: holds_def)
      then have "owned (((p, unat n, True), (h, sz)) # drop_owned p Own) B"
        by (rule owned_Cons [OF owned_drop [OF wf(2)] e(3) fresh])
      then show ?thesis
        using 1(1) e(2) live [of p] False by (intro step_okI [OF _ _ wf(1)]) auto
    next
      case (2 s')
      with False e(2) wf show ?thesis
        by (intro step_okI [OF _ _ 2(2) wf(2)]) auto
    next
      case (3 h' sz' s' bs)
      have "holds ((h' + 16, unat n, True), (h', sz'))" using 3(3,4) by (simp add: holds_def)
      then have "owned (((h' + 16, unat n, True), (h', sz')) # drop_owned p Own) ((h', sz') # B)"
        by (rule owned_new [OF owned_drop [OF wf(2)] 3(2)])
      moreover have "h' + 16 \<noteq> 0" using 3(4) by (metis add_gr_0 unat_0 less_irrefl zero_less_numeral)
      ultimately show ?thesis
        using 3(1) e(2) live [of "h' + 16"] by (intro step_okI [OF _ _ 3(2)]) auto
    qed
  qed
qed

lemma client_step: "client_inv s L \<Longrightarrow> client_ok c L \<Longrightarrow> step_ok c s L"
  by (cases c) (simp_all only: malloc_step free_step calloc_step realloc_step memalign_step store_step)

lemma client_run:
  "client_inv s L \<Longrightarrow> client_valid cs s L \<Longrightarrow> \<exists>s' L'. libc_run cs s L = Val (s', L') \<and> client_inv s' L'"
proof (induction cs arbitrary: s L)
  case (Cons c cs)
  have ok: "client_ok c L" using Cons.prems(2) by simp
  then obtain r s1 where "libc_step c s = Val (r, s1)" "client_inv s1 (live_after c r L)"
    using client_step [OF Cons.prems(1) ok] by (auto simp: step_ok_def)
  with Cons show ?case by simp
qed auto

section \<open>What the client may rely on\<close>

definition live_apart :: "live_block \<Rightarrow> live_block \<Rightarrow> bool" where
  "live_apart = (\<lambda>(p, n, _) (q, k, _). p \<noteq> q \<and> (unat p + n \<le> unat q \<or> unat q + k \<le> unat p))"

definition live_in :: "MemoryRegion \<Rightarrow> live_block \<Rightarrow> bool" where
  "live_in r = (\<lambda>(p, n, f). r_lo r \<le> unat p \<and> unat p + n \<le> r_hi r \<and> (f \<longrightarrow> 16 dvd unat p - r_lo r))"

lemma blocks_apart_sym:
  assumes "blocks_ok lo hi B" and "b \<in> set B" and "c \<in> set B" and "b \<noteq> c"
  shows "block_apart b c"
proof -
  have "block_apart b c \<or> block_apart c b"
    using assms by (metis (no_types, lifting) blocks_ok_def in_set_conv_nth linorder_neqE_nat
        sorted_wrt_iff_nth_less)
  then show ?thesis by (auto simp: block_apart_def split: prod.splits)
qed

lemma owned_apart:
  assumes "blocks_ok lo hi B" and "owned Own B"
  shows "sorted_wrt live_apart (map fst Own)"
  using assms(2)
proof (induction Own)
  case (Cons x Own)
  have "live_apart (fst x) (fst y)" if "y \<in> set Own" for y
  proof -
    obtain p n f h sz q k g h' sz' where x: "x = ((p, n, f), (h, sz))" "y = ((q, k, g), (h', sz'))"
      by (metis prod.collapse)
    have "(h, sz) \<noteq> (h', sz')" "(h, sz) \<in> set B" "(h', sz') \<in> set B"
      using Cons.prems that x by (force simp: owned_def)+
    then have "block_apart (h, sz) (h', sz')" using blocks_apart_sym [OF assms(1)] by blast
    moreover have "16 \<le> unat sz" "16 \<le> unat sz'"
      using assms(1) \<open>(h, sz) \<in> set B\<close> \<open>(h', sz') \<in> set B\<close>
      by (auto simp: blocks_ok_def list_all_iff block_in_def)
    moreover have "holds x" "holds y" using Cons.prems that by (auto simp: owned_def list_all_iff)
    ultimately show ?thesis by (auto simp: live_apart_def holds_def block_apart_def x)
  qed
  moreover have "owned Own B" using Cons.prems by (simp add: owned_def)
  ultimately show ?case using Cons.IH by simp
qed simp

definition libc_region_of :: "libc \<Rightarrow> MemoryRegion \<Rightarrow> bool" where
  "libc_region_of s r \<longleftrightarrow>
     (case lc_space s of None \<Rightarrow> False | Some as \<Rightarrow> r \<in> set (m_regions as) \<and> r_name r = ''libc-heap'')"

lemma owned_in_region:
  assumes "heap_wf s B" and "owned Own B" and "e \<in> set (map fst Own)"
  shows "\<exists>r. libc_region_of s r \<and> live_in r e"
proof -
  obtain b where eb: "(e, b) \<in> set Own" using assms(3) by auto
  obtain p n f h sz where e: "e = (p, n, f)" "((p, n, f), (h, sz)) \<in> set Own"
    using eb by (cases e; cases b) blast
  note o = owned_memD [OF assms(2) e(2)]
  have nz: "hp_base (lc_heap s) \<noteq> 0" by (rule heap_wf_base [OF assms(1) o(1)])
  have "heap_region s" and lim: "unat (hp_next (lc_heap s)) \<le> unat (hp_base (lc_heap s)) + 0x10000000"
    using assms(1) nz by (simp_all add: heap_wf_def Let_def)
  then obtain r where r: "libc_region_of s r" "r_base r = hp_base (lc_heap s)" "r_size r = 0x10000000"
    by (auto simp: heap_region_def libc_region_of_def)
  note wf = heap_wfD [OF assms(1) nz]
  have bi: "block_in (unat (hp_base (lc_heap s))) (unat (hp_next (lc_heap s))) (h, sz)"
    using wf(2) o(1) by (auto simp: blocks_ok_def list_all_iff)
  have "16 dvd unat p - r_lo r" if f
  proof -
    have "unat p = unat h + 16" using o(4) [OF that] block_bounds(5) [OF wf(2) o(1) wf(3,4)] by simp
    then have "unat p - r_lo r = (unat h - r_lo r) + 16" using bi r(2) by (simp add: block_in_def)
    moreover have "16 dvd unat h - r_lo r" using bi unfolding block_in_def r(2) by (simp only: prod.case)
    ultimately show ?thesis using dvd_add [OF _ dvd_refl] by metis
  qed
  then have "live_in r e" using o bi lim r by (auto simp: live_in_def e(1) block_in_def)
  with r(1) show ?thesis by blast
qed

text \<open>
  C14. Heap safety. A client of libSceLibcInternal calls \<^verbatim>\<open>malloc\<close>, \<^verbatim>\<open>free\<close>, \<^verbatim>\<open>calloc\<close>,
  \<^verbatim>\<open>realloc\<close> and \<^verbatim>\<open>memalign\<close> and stores bytes, in any order and number, and keeps three rules: it asks for at most
  2^63 bytes at a time (sizes and alignments of at most 2^62 for \<^verbatim>\<open>memalign\<close>), it frees and reallocates only null and
  blocks of \<^verbatim>\<open>malloc\<close>, \<^verbatim>\<open>calloc\<close> and \<^verbatim>\<open>realloc\<close> that it holds, and it stores only inside the blocks it holds. Then no operation
  leaves mapped memory, and the blocks it holds never overlap, lie in the region of the address
  space named \<^verbatim>\<open>libc-heap\<close>, and (when they may be freed) start at a multiple of 16 from its base.
\<close>

theorem libc_blocks_disjoint:
  assumes "mapped m arena_lo arena_hi" and "space_inv as"
    and "client_valid cs (libc_new (Some as) m) []"
  shows "\<exists>s L. libc_run cs (libc_new (Some as) m) [] = Val (s, L)
     \<and> sorted_wrt live_apart L \<and> list_all (\<lambda>e. \<exists>r. libc_region_of s r \<and> live_in r e) L"
proof -
  have "owned [] []" by (simp add: owned_def)
  from client_invI [OF heap_wf_new [OF assms(1,2)] this]
  have "client_inv (libc_new (Some as) m) []" by simp
  from client_run [OF this assms(3)] obtain s L where
    run: "libc_run cs (libc_new (Some as) m) [] = Val (s, L)" and "client_inv s L" by blast
  then obtain B Own where wf: "heap_wf s B" "owned Own B" "L = map fst Own"
    by (auto simp: client_inv_def)
  have "sorted_wrt live_apart L"
  proof (cases "hp_base (lc_heap s) = 0")
    case True
    then have "L = []" using wf by (auto simp: heap_wf_def owned_def)
    then show ?thesis by simp
  next
    case False
    then show ?thesis using owned_apart [OF heap_wfD(2) [OF wf(1)] wf(2)] wf(3) by simp
  qed
  moreover have "list_all (\<lambda>e. \<exists>r. libc_region_of s r \<and> live_in r e) L"
    using owned_in_region [OF wf(1,2)] wf(3) by (auto simp: list_all_iff)
  ultimately show ?thesis using run by blast
qed

definition arena_zero :: memory where
  "arena_zero = (\<lambda>a. if 0x100000000000 \<le> a \<and> a < 0x110000000000 then Some 0 else None)"

lemma arena_zero_mapped: "mapped arena_zero arena_lo arena_hi"
  by (simp add: mapped_def arena_zero_def arena_lo_def arena_hi_def word_le_unat word_less_unat)

definition space_demo :: AddressSpace where
  "space_demo = snd (AddressSpace_init os_good AddressSpace_new)"

lemma space_demo_inv: "space_inv space_demo"
proof -
  have "AddressSpace_init os_good AddressSpace_new = (True, space_demo)"
    by (simp add: space_demo_def AddressSpace_init_def SharedArena_init_def SharedArena_new_def
        os_good_def AddressSpace_new_def)
  then show ?thesis by (rule init_inv)
qed

definition demo_calls :: "libc_call list" where
  "demo_calls = [CMalloc 5, CStore 0x100000010012 [7], CRealloc 0x100000010010 17]"

theorem libc_blocks_disjoint_witness:
  "\<exists>s L. libc_run demo_calls (libc_new (Some space_demo) arena_zero) [] = Val (s, L)
     \<and> sorted_wrt live_apart L \<and> list_all (\<lambda>e. \<exists>r. libc_region_of s r \<and> live_in r e) L"
  by (rule libc_blocks_disjoint [OF arena_zero_mapped space_demo_inv]) code_simp

text \<open>
  \<^verbatim>\<open>realloc\<close> keeps the contents, up to the smaller of the two sizes, whether the block stays or
  moves.
\<close>

lemma realloc_keeps_contents:
  assumes "heap_wf s B" and "(h, sz) \<in> set B" and "unat n \<le> 2 ^ 63" and "n \<noteq> 0"
    and "sceLibcRealloc (h + 16) n s = Val (r, s')" and "r \<noteq> 0"
  shows "load_bytes (lc_mem s') r (min (unat sz) (unat n))
       = load_bytes (lc_mem s) (h + 16) (min (unat sz) (unat n))"
  using assms(1-4)
proof (cases rule: realloc_cases)
  case (3 h' sz' s2 bs)
  then show ?thesis using assms(5) by (simp add: min_def)
qed (use assms(5,6) in auto)

text \<open>
  The reuse path never hands a block out: after a small block is freed, the next request of its
  size class fails, although the heap has room.
\<close>

lemma malloc_after_free_null:
  assumes "heap_wf s B" and "(h, sz) \<in> set B"
    and "load_u64 (lc_mem s) h = Val w" and "\<not> hdr_isFree w"
    and "pickClass (if n = 0 then 1 else n) = (hdr_class w, rounded)" and "unat (hdr_class w) < 10"
  shows "\<exists>s1 s2. sceLibcFree (h + 16) s = Val s1 \<and> sceLibcMalloc n s1 = Val (0, s2)"
proof -
  note wf = heap_wfD [OF assms(1) heap_wf_base [OF assms(1,2)]]
  note bb = block_bounds [OF wf(2) assms(2) wf(3,4)]
  have p0: "h + 16 \<noteq> 0" using bb(5) by (metis add_gr_0 unat_0 less_irrefl zero_less_numeral)
  have h0: "h \<noteq> 0" using bb(1) by (auto simp: arena_lo_def)
  have len: "length (lc_freeLists s) = 10" using assms(1) by (simp add: heap_wf_def)
  have magic: "load_u64 (lc_mem s) (h + 8) = Val kHeapMagic"
    using mem_ok_block [OF wf(1) assms(2)] by blast
  obtain s1 where s1: "heapFree (h + 16) s = Val s1" "heap_wf s1 B"
    using heapFree_wf [OF assms(1,2)] by blast
  then have "lc_freeLists s1 = (lc_freeLists s)[unat (hdr_class w) := h]"
    and "hp_base (lc_heap s1) = hp_base (lc_heap s)"
    using p0 magic assms(3,4,6) len
    by (auto simp: heapFree_def Let_def cpp_bind_eq_Val_iff split: if_splits)
  then have head: "lc_freeLists s1 ! unat (hdr_class w) \<noteq> 0" and "hp_base (lc_heap s1) \<noteq> 0"
    using assms(6) len h0 heap_wf_base [OF assms(1,2)] by simp_all
  then have "heapAlloc n s1 = heap_reuse (unat (hdr_class w)) s1"
    using s1(2) assms(5,6) by (simp add: heapAlloc_def ensureHeapInitialized_def heap_wf_def)
  moreover obtain s2 where "heap_reuse (unat (hdr_class w)) s1 = Val (0, s2)"
    using heap_reuse_wf [OF s1(2) assms(6) head] by blast
  ultimately show ?thesis using s1(1) by (auto simp: sceLibcFree_def sceLibcMalloc_def)
qed

text \<open>Rounding wraps around for the largest requests: such a block gets no payload at all.\<close>

lemma largest_request_empty: "pickClass 0xFFFFFFFFFFFFFFFF = (255, 0)"
  by (simp add: pickClass_def kSizeClasses_def heap_alignUp_def kHeapAlignment_def)

end
