(* ===== verification/Libc_Strings.thy ===== *)
theory Libc_Strings
  imports Guest_Words
begin

text \<open>
  The \<^verbatim>\<open>string.h\<close> exports of \<^verbatim>\<open>sce/libc/LibcInternal.cpp\<close>, each a call of the C library function
  of that name on guest memory, and \<^verbatim>\<open>atoi\<close>/\<^verbatim>\<open>atol\<close>. The comparisons return the sign of the C
  result, which is all the standard fixes. Copying between ranges that overlap is undefined except
  for \<^verbatim>\<open>memmove\<close>.
\<close>

section \<open>Memory\<close>

definition ranges_overlap :: "u64 \<Rightarrow> nat \<Rightarrow> u64 \<Rightarrow> nat \<Rightarrow> bool" where
  "ranges_overlap d n s k \<longleftrightarrow> unat (d - s) < k \<and> n \<noteq> 0 \<or> unat (s - d) < n \<and> k \<noteq> 0"

definition sceLibcMemmove :: "u64 \<Rightarrow> u64 \<Rightarrow> u64 \<Rightarrow> memory \<Rightarrow> (u64 \<times> memory) cpp" where
  "sceLibcMemmove dst src n m =
     cpp_bind (load_bytes m src (unat n)) (\<lambda>bs.
     cpp_bind (store_bytes dst bs m) (\<lambda>m. Val (dst, m)))"

definition sceLibcMemcpy :: "u64 \<Rightarrow> u64 \<Rightarrow> u64 \<Rightarrow> memory \<Rightarrow> (u64 \<times> memory) cpp" where
  "sceLibcMemcpy dst src n m =
     (if ranges_overlap dst (unat n) src (unat n) then UB else sceLibcMemmove dst src n m)"

definition sceLibcMemset :: "u64 \<Rightarrow> int \<Rightarrow> u64 \<Rightarrow> memory \<Rightarrow> (u64 \<times> memory) cpp" where
  "sceLibcMemset dst c n m =
     cpp_bind (store_bytes dst (replicate (unat n) (word_of_int c)) m) (\<lambda>m. Val (dst, m))"

fun byte_cmp :: "u8 list \<Rightarrow> u8 list \<Rightarrow> int" where
  "byte_cmp (x # xs) (y # ys) = (if x < y then -1 else if x > y then 1 else byte_cmp xs ys)"
| "byte_cmp _ _ = 0"

definition sceLibcMemcmp :: "u64 \<Rightarrow> u64 \<Rightarrow> u64 \<Rightarrow> memory \<Rightarrow> int cpp" where
  "sceLibcMemcmp a b n m =
     cpp_bind (load_bytes m a (unat n)) (\<lambda>xs.
     cpp_bind (load_bytes m b (unat n)) (\<lambda>ys. Val (byte_cmp xs ys)))"

fun scan_byte :: "memory \<Rightarrow> u8 \<Rightarrow> u64 \<Rightarrow> nat \<Rightarrow> u64 cpp" where
  "scan_byte m c a 0 = Val 0"
| "scan_byte m c a (Suc n) =
     (case m a of None \<Rightarrow> UB | Some b \<Rightarrow> if b = c then Val a else scan_byte m c (a + 1) n)"

definition sceLibcMemchr :: "u64 \<Rightarrow> int \<Rightarrow> u64 \<Rightarrow> memory \<Rightarrow> u64 cpp" where
  "sceLibcMemchr s c n m = scan_byte m (word_of_int c) s (unat n)"

section \<open>Strings\<close>

text \<open>At most \<open>n\<close> bytes of a string, without its terminator.\<close>

fun c_prefix :: "memory \<Rightarrow> u64 \<Rightarrow> nat \<Rightarrow> u8 list cpp" where
  "c_prefix m a 0 = Val []"
| "c_prefix m a (Suc n) =
     (case m a of
        None \<Rightarrow> UB
      | Some b \<Rightarrow> if b = 0 then Val [] else cpp_bind (c_prefix m (a + 1) n) (\<lambda>bs. Val (b # bs)))"

definition sceLibcStrlen :: "u64 \<Rightarrow> memory \<Rightarrow> u64 cpp" where
  "sceLibcStrlen s m =
     (if s = 0 then Val 0 else cpp_bind (c_bytes m s) (\<lambda>bs. Val (of_nat (length bs))))"

definition sceLibcStrcpy :: "u64 \<Rightarrow> u64 \<Rightarrow> memory \<Rightarrow> (u64 \<times> memory) cpp" where
  "sceLibcStrcpy dst src m =
     cpp_bind (c_bytes m src) (\<lambda>bs.
       if ranges_overlap dst (length bs + 1) src (length bs + 1) then UB
       else cpp_bind (store_bytes dst (bs @ [0]) m) (\<lambda>m. Val (dst, m)))"

definition sceLibcStrncpy :: "u64 \<Rightarrow> u64 \<Rightarrow> u64 \<Rightarrow> memory \<Rightarrow> (u64 \<times> memory) cpp" where
  "sceLibcStrncpy dst src n m =
     cpp_bind (c_prefix m src (unat n)) (\<lambda>bs.
       if ranges_overlap dst (unat n) src (min (unat n) (length bs + 1)) then UB
       else cpp_bind (store_bytes dst (bs @ replicate (unat n - length bs) 0) m) (\<lambda>m. Val (dst, m)))"

definition sceLibcStrcmp :: "u64 \<Rightarrow> u64 \<Rightarrow> memory \<Rightarrow> int cpp" where
  "sceLibcStrcmp a b m =
     cpp_bind (c_bytes m a) (\<lambda>xs. cpp_bind (c_bytes m b) (\<lambda>ys. Val (byte_cmp (xs @ [0]) (ys @ [0]))))"

definition sceLibcStrncmp :: "u64 \<Rightarrow> u64 \<Rightarrow> u64 \<Rightarrow> memory \<Rightarrow> int cpp" where
  "sceLibcStrncmp a b n m =
     cpp_bind (c_prefix m a (unat n)) (\<lambda>xs.
     cpp_bind (c_prefix m b (unat n)) (\<lambda>ys.
       Val (byte_cmp (take (unat n) (xs @ [0])) (take (unat n) (ys @ [0])))))"

fun index_of :: "u8 \<Rightarrow> u8 list \<Rightarrow> nat option" where
  "index_of c [] = None"
| "index_of c (b # bs) = (if b = c then Some 0 else map_option Suc (index_of c bs))"

definition at_index :: "u64 \<Rightarrow> nat option \<Rightarrow> u64" where
  "at_index s i = (case i of None \<Rightarrow> 0 | Some i \<Rightarrow> s + of_nat i)"

definition sceLibcStrchr :: "u64 \<Rightarrow> int \<Rightarrow> memory \<Rightarrow> u64 cpp" where
  "sceLibcStrchr s c m =
     cpp_bind (c_bytes m s) (\<lambda>bs. Val (at_index s (index_of (word_of_int c) (bs @ [0]))))"

definition sceLibcStrrchr :: "u64 \<Rightarrow> int \<Rightarrow> memory \<Rightarrow> u64 cpp" where
  "sceLibcStrrchr s c m =
     cpp_bind (c_bytes m s) (\<lambda>bs.
       Val (at_index s (map_option (\<lambda>i. length bs - i) (index_of (word_of_int c) (rev (bs @ [0]))))))"

fun find_sub :: "u8 list \<Rightarrow> u8 list \<Rightarrow> nat option" where
  "find_sub ns [] = (if ns = [] then Some 0 else None)"
| "find_sub ns (h # hs) =
     (if take (length ns) (h # hs) = ns then Some 0 else map_option Suc (find_sub ns hs))"

definition sceLibcStrstr :: "u64 \<Rightarrow> u64 \<Rightarrow> memory \<Rightarrow> u64 cpp" where
  "sceLibcStrstr h n m =
     cpp_bind (c_bytes m h) (\<lambda>hs. cpp_bind (c_bytes m n) (\<lambda>ns. Val (at_index h (find_sub ns hs))))"

definition append_at :: "u64 \<Rightarrow> u8 list \<Rightarrow> u64 \<Rightarrow> nat \<Rightarrow> memory \<Rightarrow> (u64 \<times> memory) cpp" where
  "append_at dst ys src k m =
     cpp_bind (c_bytes m dst) (\<lambda>xs.
       if ranges_overlap dst (length xs + length ys + 1) src k then UB
       else cpp_bind (store_bytes (dst + of_nat (length xs)) (ys @ [0]) m) (\<lambda>m. Val (dst, m)))"

definition sceLibcStrcat :: "u64 \<Rightarrow> u64 \<Rightarrow> memory \<Rightarrow> (u64 \<times> memory) cpp" where
  "sceLibcStrcat dst src m =
     cpp_bind (c_bytes m src) (\<lambda>ys. append_at dst ys src (length ys + 1) m)"

definition sceLibcStrncat :: "u64 \<Rightarrow> u64 \<Rightarrow> u64 \<Rightarrow> memory \<Rightarrow> (u64 \<times> memory) cpp" where
  "sceLibcStrncat dst src n m =
     cpp_bind (c_prefix m src (unat n)) (\<lambda>ys. append_at dst ys src (min (unat n) (length ys + 1)) m)"

section \<open>Numbers\<close>

text \<open>
  \<^verbatim>\<open>strtol\<close> in base 10 on the string's characters: leading white space, a sign, digits. A value
  outside the result type is undefined.
\<close>

definition c_isspace :: "u8 \<Rightarrow> bool" where "c_isspace b \<longleftrightarrow> b = 32 \<or> 9 \<le> b \<and> b \<le> 13"
definition c_isdigit :: "u8 \<Rightarrow> bool" where "c_isdigit b \<longleftrightarrow> 48 \<le> b \<and> b \<le> 57"

fun digits_value :: "int \<Rightarrow> u8 list \<Rightarrow> int" where
  "digits_value acc [] = acc"
| "digits_value acc (b # bs) = (if c_isdigit b then digits_value (10 * acc + uint (b - 48)) bs else acc)"

fun signed_value :: "u8 list \<Rightarrow> int" where
  "signed_value [] = 0"
| "signed_value (b # bs) =
     (if b = 45 then - digits_value 0 bs else if b = 43 then digits_value 0 bs
      else digits_value 0 (b # bs))"

definition ato :: "nat \<Rightarrow> u64 \<Rightarrow> memory \<Rightarrow> int cpp" where
  "ato w s m =
     (if s = 0 then Val 0
      else cpp_bind (c_bytes m s) (\<lambda>bs.
        let v = signed_value (dropWhile c_isspace bs)
        in if - (2 ^ (w - 1)) \<le> v \<and> v < 2 ^ (w - 1) then Val v else UB))"

definition sceLibcAtoi :: "u64 \<Rightarrow> memory \<Rightarrow> int cpp" where "sceLibcAtoi s m = ato 32 s m"
definition sceLibcAtol :: "u64 \<Rightarrow> memory \<Rightarrow> int cpp" where "sceLibcAtol s m = ato 64 s m"

section \<open>What a C string is\<close>

lemma c_bytes_at_end: "unat (a :: u64) + n < 2 ^ 64 \<Longrightarrow> 0 < n \<Longrightarrow> a + 1 \<noteq> 0"
proof
  assume "unat a + n < 2 ^ 64" and "0 < n" and "a + 1 = 0"
  moreover from \<open>a + 1 = 0\<close> have "a = -1" by (simp add: eq_neg_iff_add_eq_0)
  ultimately show False by (simp add: unsigned_minus_1_eq_mask mask_eq_exp_minus_1)
qed

lemma c_bytes_eq_Val:
  "c_bytes m a = Val bs \<longleftrightarrow>
     load_bytes m a (length bs + 1) = Val (bs @ [0]) \<and> 0 \<notin> set bs \<and> unat a + length bs < 2 ^ 64"
proof (induction bs arbitrary: a)
  case Nil
  show ?case
    by (subst c_bytes.simps) (auto simp: cpp_bind_eq_Val_iff split: option.splits if_splits)
next
  case (Cons b bs)
  show ?case
  proof
    assume "c_bytes m a = Val (b # bs)"
    then have h: "m a = Some b" "b \<noteq> 0" "a + 1 \<noteq> 0" "c_bytes m (a + 1) = Val bs"
      by (subst (asm) c_bytes.simps, auto simp: cpp_bind_eq_Val_iff split: option.splits if_splits)+
    with Cons.IH [of "a + 1"] unat_Suc_no_wrap [OF h(3)]
    show "load_bytes m a (length (b # bs) + 1) = Val ((b # bs) @ [0]) \<and> 0 \<notin> set (b # bs)
      \<and> unat a + length (b # bs) < 2 ^ 64" by simp
  next
    assume r: "load_bytes m a (length (b # bs) + 1) = Val ((b # bs) @ [0]) \<and> 0 \<notin> set (b # bs)
      \<and> unat a + length (b # bs) < 2 ^ 64"
    then have nz: "a + 1 \<noteq> 0" by (intro c_bytes_at_end [of a "length (b # bs)"]) auto
    from r have "m a = Some b" "load_bytes m (a + 1) (length bs + 1) = Val (bs @ [0])" "b \<noteq> 0"
      by (auto simp: cpp_bind_eq_Val_iff split: option.splits)
    moreover have "c_bytes m (a + 1) = Val bs"
      using Cons.IH [of "a + 1"] r calculation unat_Suc_no_wrap [OF nz] by simp
    ultimately show "c_bytes m a = Val (b # bs)"
      using nz by (subst c_bytes.simps) simp
  qed
qed

section \<open>Copying and appending\<close>

lemma store_tail_reads:
  assumes "store_bytes (a + of_nat (length xs)) ys m = Val m'"
    and "load_bytes m a (length xs + k) = Val (xs @ zs)"
    and "length xs + length ys < 2 ^ 64"
  shows "load_bytes m' a (length xs + length ys) = Val (xs @ ys)"
  unfolding load_bytes_eq_Val
proof (intro conjI allI impI)
  fix i assume i: "i < length xs + length ys"
  have st: "m' (a + of_nat i) = (if length xs \<le> i \<and> i < length xs + length ys
      then Some (ys ! (i - length xs)) else m (a + of_nat i))"
    using assms(3) i by (intro store_bytes_at [OF assms(1)]) auto
  show "m' (a + of_nat i) = Some ((xs @ ys) ! i)"
  proof (cases "i < length xs")
    case True
    then have "m (a + of_nat i) = Some (xs ! i)"
      using assms(2) unfolding load_bytes_eq_Val by (auto simp: nth_append)
    with True st show ?thesis by (simp add: nth_append)
  next
    case False
    with st i show ?thesis by (simp add: nth_append)
  qed
qed simp

lemma unat_diff_swap: "s \<noteq> d \<Longrightarrow> unat (d - s) + unat (s - d) = 2 ^ 64" for s d :: u64
proof (induction s d rule: linorder_wlog)
  case (le a b)
  then have "unat a < unat b" by (simp add: word_le_unat word_unat_eq_iff)
  then have "unat (b - a) = unat b - unat a" "unat (a - b) = unat a + 2 ^ 64 - unat b"
    by (simp_all add: unat_sub_if')
  moreover have "unat b < 2 ^ 64" by simp
  ultimately show ?case using \<open>unat a < unat b\<close> by linarith
next
  case (sym a b)
  then show ?case by (simp add: add.commute)
qed

lemma not_overlap_keeps:
  assumes "store_bytes d bs m = Val m'" and "\<not> ranges_overlap d (length bs) s k"
    and "length bs < 2 ^ 64" and "k < 2 ^ 64" and "bs \<noteq> []"
  shows "load_bytes m' s k = load_bytes m s k"
proof (rule load_bytes_cong)
  fix i assume i: "i < k"
  have "length bs \<le> unat (s + of_nat i - d)"
  proof -
    have o: "k \<le> unat (d - s)" "length bs \<le> unat (s - d)"
      using assms(2,5) i by (auto simp: ranges_overlap_def)
    have ui: "unat (of_nat i :: u64) = i"
      using i assms(4) by (simp add: unat_of_nat take_bit_nat_eq_self)
    have "s \<noteq> d" using o(1) i by auto
    then have "unat (d - s) + unat (s - d) = 2 ^ 64" by (rule unat_diff_swap)
    then have "unat (s - d) + i < 2 ^ 64" using o(1) i by linarith
    then have "unat (s - d + of_nat i) = unat (s - d) + i"
      using ui by (intro trans [OF unat_add_no_wrap]) simp_all
    moreover have e: "s + of_nat i - d = s - d + of_nat i" by simp
    ultimately show ?thesis unfolding e using o(2) by simp
  qed
  then show "m' (s + of_nat i) = m (s + of_nat i)" by (rule store_bytes_keeps [OF assms(1,3)])
qed

lemma memmove_copies:
  assumes "sceLibcMemmove dst src n m = Val (r, m')"
  shows "r = dst" and "load_bytes m' dst (unat n) = load_bytes m src (unat n)"
proof -
  from assms obtain bs where l: "load_bytes m src (unat n) = Val bs"
    and s: "store_bytes dst bs m = Val m'" and r: "r = dst"
    by (auto simp: sceLibcMemmove_def cpp_bind_eq_Val_iff)
  show "r = dst" by fact
  have "length bs = unat n" using l by (simp add: load_bytes_eq_Val)
  then show "load_bytes m' dst (unat n) = load_bytes m src (unat n)"
    using load_store_bytes [OF s] l unat_lt_64 [of n] by simp
qed

lemma not_overlap_len:
  assumes "\<not> ranges_overlap d n s k"
  shows "n \<noteq> 0 \<Longrightarrow> k < 2 ^ 64" and "k \<noteq> 0 \<Longrightarrow> n < 2 ^ 64"
proof -
  have "unat (d - s) < 2 ^ 64" "unat (s - d) < 2 ^ 64" by simp_all
  then show "n \<noteq> 0 \<Longrightarrow> k < 2 ^ 64" "k \<noteq> 0 \<Longrightarrow> n < 2 ^ 64"
    using assms unfolding ranges_overlap_def by linarith+
qed

lemma strcpy_copies:
  assumes "sceLibcStrcpy dst src m = Val (r, m')" and "c_bytes m src = Val bs"
    and "unat dst + length bs < 2 ^ 64"
  shows "c_bytes m' dst = Val bs" and "c_bytes m' src = Val bs"
proof -
  note c = assms(2) [unfolded c_bytes_eq_Val]
  from assms(1,2) have s: "store_bytes dst (bs @ [0]) m = Val m'"
    and o: "\<not> ranges_overlap dst (length bs + 1) src (length bs + 1)"
    by (auto simp: sceLibcStrcpy_def cpp_bind_eq_Val_iff split: if_splits)
  have len: "length bs + 1 < 2 ^ 64" using not_overlap_len(1) [OF o] by simp
  then show "c_bytes m' dst = Val bs"
    unfolding c_bytes_eq_Val using load_store_bytes [OF s] c assms(3) by simp
  have "load_bytes m' src (length bs + 1) = load_bytes m src (length bs + 1)"
    using o len by (intro not_overlap_keeps [OF s]) auto
  then show "c_bytes m' src = Val bs" unfolding c_bytes_eq_Val using c by simp
qed

text \<open>The part of a range that a store does not reach.\<close>

lemma ranges_overlap_tail:
  assumes "\<not> ranges_overlap d (p + n) s k" and "n \<noteq> 0" and "k \<noteq> 0"
  shows "\<not> ranges_overlap (d + of_nat p) n s k"
proof -
  have o: "k \<le> unat (d - s)" "p + n \<le> unat (s - d)"
    using assms by (auto simp: ranges_overlap_def)
  have "unat (s - d) < 2 ^ 64" by simp
  then have "p < 2 ^ 64" using o(2) by linarith
  then have up: "unat (of_nat p :: u64) = p" by (simp add: unat_of_nat take_bit_nat_eq_self)
  have nz: "s \<noteq> d" using o(2) assms(2) by auto
  have "s - (d + of_nat p) = (s - d) - of_nat p" by simp
  also have "unat \<dots> = unat (s - d) - p"
    using up o(2) by (subst unat_sub_no_wrap) (simp_all add: word_le_unat)
  finally have e1: "unat (s - (d + of_nat p)) = unat (s - d) - p" .
  then have nz': "s \<noteq> d + of_nat p" using o(2) assms(2) by auto
  have "unat (d - s) + unat (s - d) = 2 ^ 64"
    "unat (d + of_nat p - s) + (unat (s - d) - p) = 2 ^ 64"
    using unat_diff_swap [OF nz] unat_diff_swap [OF nz'] e1 by simp_all
  then show ?thesis using o e1 unfolding ranges_overlap_def by linarith
qed

lemma append_at_appends:
  assumes "append_at dst ys src k m = Val (r, m')" and "c_bytes m dst = Val xs" and "k \<noteq> 0"
    and "0 \<notin> set ys" and "unat dst + (length xs + length ys) < 2 ^ 64"
  shows "r = dst" and "c_bytes m' dst = Val (xs @ ys)"
    and "load_bytes m' src k = load_bytes m src k"
proof -
  note c = assms(2) [unfolded c_bytes_eq_Val]
  from assms(1,2) have s: "store_bytes (dst + of_nat (length xs)) (ys @ [0]) m = Val m'" and r: "r = dst"
    and o: "\<not> ranges_overlap dst (length xs + length ys + 1) src k"
    by (auto simp: append_at_def cpp_bind_eq_Val_iff split: if_splits)
  show "r = dst" by fact
  have len: "length xs + length ys + 1 < 2 ^ 64" "k < 2 ^ 64"
    using not_overlap_len [OF o] assms(3) by simp_all
  have "load_bytes m' dst (length xs + length (ys @ [0])) = Val (xs @ ys @ [0])"
    using len c by (intro store_tail_reads [OF s, of 1 "[0]"]) auto
  then show "c_bytes m' dst = Val (xs @ ys)"
    unfolding c_bytes_eq_Val using c assms(4,5) by (simp add: add.assoc)
  have "\<not> ranges_overlap (dst + of_nat (length xs)) (length ys + 1) src k"
    using o assms(3) by (intro ranges_overlap_tail) (auto simp: add.assoc)
  then show "load_bytes m' src k = load_bytes m src k"
    using len by (intro not_overlap_keeps [OF s]) auto
qed

text \<open>
  \<^verbatim>\<open>strcat\<close> on guest memory: where it is defined, the destination then holds the string it
  held followed by the source string, the source is unchanged, and \<^verbatim>\<open>strlen\<close> of the destination is
  the sum of the lengths.
\<close>

theorem strcat_concatenates:
  assumes "sceLibcStrcat dst src m = Val (r, m')"
    and "c_bytes m dst = Val xs" and "c_bytes m src = Val ys"
    and "unat dst + (length xs + length ys) < 2 ^ 64" and "dst \<noteq> 0"
  shows "r = dst \<and> c_bytes m' dst = Val (xs @ ys) \<and> c_bytes m' src = Val ys
    \<and> sceLibcStrlen dst m' = Val (of_nat (length xs + length ys))"
proof -
  note c = assms(3) [unfolded c_bytes_eq_Val]
  from assms(1,3) have a: "append_at dst ys src (length ys + 1) m = Val (r, m')"
    by (simp add: sceLibcStrcat_def)
  note ap = append_at_appends [OF a assms(2) _ _ assms(4)]
  have "c_bytes m' src = Val ys" unfolding c_bytes_eq_Val using ap(3) c by simp
  with ap(1,2) c assms(5) show ?thesis by (simp add: sceLibcStrlen_def)
qed

definition two_strings :: memory where
  "two_strings = map_of [(16, 104), (17, 105), (18, 0), (19, 0), (20, 0), (32, 33), (33, 0)]"

theorem strcat_concatenates_witness:
  "\<exists>r m'. sceLibcStrcat 16 32 two_strings = Val (r, m') \<and> c_bytes m' 16 = Val ([104, 105] @ [33])
     \<and> sceLibcStrlen 16 m' = Val 3"
proof -
  have c: "c_bytes two_strings 16 = Val [104, 105]" "c_bytes two_strings 32 = Val [33]" by code_simp+
  obtain r m' where e: "sceLibcStrcat 16 32 two_strings = Val (r, m')"
    by (simp add: sceLibcStrcat_def append_at_def c ranges_overlap_def) (simp add: two_strings_def)
  from strcat_concatenates [OF e c] show ?thesis using e by auto
qed

end
