(* ===== verification/Sce_Exports.thy ===== *)
theory Sce_Exports
  imports Sce_Stub_Table Sce_Kernel
begin

text \<open>
  The \<^verbatim>\<open>registerExports\<close> member of every SCE library under \<^verbatim>\<open>sce/\<close>: which names each registers in
  the stub table, and for which of its functions. The address of a function is a parameter of the
  registration.
\<close>

section \<open>Export tables\<close>

text \<open>An export: the library, the exported name and the C++ function behind it.\<close>

type_synonym sce_export = "string \<times> string \<times> string"

definition exports_of :: "string \<Rightarrow> string list \<Rightarrow> sce_export list" where
  "exports_of lib names = map (\<lambda>n. (lib, n, n)) names"

definition SceAjm_exports :: "sce_export list" where
  "SceAjm_exports = exports_of ''libSceAjm''
     [''sceAjmInitialize'', ''sceAjmFinalize'', ''sceAjmModuleRegister'',
      ''sceAjmBatchStartBuffer'', ''sceAjmBatchWait'', ''sceAjmBatchJobDecode'']"

definition SceAppContent_exports :: "sce_export list" where
  "SceAppContent_exports = exports_of ''libSceAppContent''
     [''sceAppContentInitialize'', ''sceAppContentTerminate'',
      ''sceAppContentAppParamGetInt'', ''sceAppContentGetAddcontInfoList'',
      ''sceAppContentAddcontMount'', ''sceAppContentAddcontUnmount'',
      ''sceAppContentAddcontDelete'', ''sceAppContentTemporaryDataMount'',
      ''sceAppContentTemporaryDataUnmount'', ''sceAppContentTemporaryDataFormat'',
      ''sceAppContentGetEntitlementKey'']"

definition SceAudioOut_exports :: "sce_export list" where
  "SceAudioOut_exports = exports_of ''libSceAudioOut''
     [''sceAudioOutInit'', ''sceAudioOutOpen'', ''sceAudioOutClose'', ''sceAudioOutOutput'',
      ''sceAudioOutSetVolume'']"

definition SceAudiodec_exports :: "sce_export list" where
  "SceAudiodec_exports = exports_of ''libSceAudiodec''
     [''sceAudiodecInitLibrary'', ''sceAudiodecTermLibrary'', ''sceAudiodecCreateDecoder'',
      ''sceAudiodecDeleteDecoder'', ''sceAudiodecDecode'', ''sceAudiodecClearContext'']"

definition SceBgft_exports :: "sce_export list" where
  "SceBgft_exports = exports_of ''libSceBgft''
     [''sceBgftInitialize'', ''sceBgftTerminate'', ''sceBgftServiceDownloadRegisterTask'',
      ''sceBgftServiceDownloadStartTask'', ''sceBgftServiceDownloadPauseTask'',
      ''sceBgftServiceDownloadResumeTask'', ''sceBgftServiceDownloadStopTask'',
      ''sceBgftServiceDownloadUnregisterTask'', ''sceBgftServiceDownloadGetTaskInfo'',
      ''sceBgftServiceIntDownloadRegisterTaskByStorageEx'']"

definition SceCamera_exports :: "sce_export list" where
  "SceCamera_exports = exports_of ''libSceCamera''
     [''sceCameraOpen'', ''sceCameraClose'', ''sceCameraStart'', ''sceCameraStop'',
      ''sceCameraIsAttached'', ''sceCameraGetDeviceInfo'', ''sceCameraGetStateInfo'',
      ''sceCameraSetConfig'', ''sceCameraRead'']"

definition SceCommonDialog_exports :: "sce_export list" where
  "SceCommonDialog_exports = exports_of ''libSceCommonDialog''
     [''sceCommonDialogInitialize'', ''sceCommonDialogTerminate'',
      ''sceCommonDialogIsUsed'', ''sceCommonDialogUpdate'']"

definition SceErrorDialog_exports :: "sce_export list" where
  "SceErrorDialog_exports = exports_of ''libSceErrorDialog''
     [''sceErrorDialogInitialize'', ''sceErrorDialogTerminate'', ''sceErrorDialogOpen'',
      ''sceErrorDialogGetStatus'', ''sceErrorDialogUpdateStatus'', ''sceErrorDialogClose'']"

definition SceImeDialog_exports :: "sce_export list" where
  "SceImeDialog_exports = exports_of ''libSceImeDialog''
     [''sceImeDialogInit'', ''sceImeDialogGetStatus'', ''sceImeDialogGetResult'',
      ''sceImeDialogAbort'']"

definition SceMsgDialog_exports :: "sce_export list" where
  "SceMsgDialog_exports = exports_of ''libSceMsgDialog''
     [''sceMsgDialogInit'', ''sceMsgDialogTerm'', ''sceMsgDialogOpen'',
      ''sceMsgDialogGetStatus'', ''sceMsgDialogUpdateStatus'', ''sceMsgDialogGetResult'',
      ''sceMsgDialogClose'', ''sceMsgDialogAbort'', ''sceMsgDialogRegisterCallback'',
      ''sceMsgDialogUnregisterCallback'']"

definition SceSaveDataDialog_exports :: "sce_export list" where
  "SceSaveDataDialog_exports = exports_of ''libSceSaveDataDialog''
     [''sceSaveDataDialogInitialize'', ''sceSaveDataDialogTerminate'',
      ''sceSaveDataDialogOpen'', ''sceSaveDataDialogGetStatus'',
      ''sceSaveDataDialogUpdateStatus'', ''sceSaveDataDialogGetResult'',
      ''sceSaveDataDialogClose'', ''sceSaveDataDialogAbort'',
      ''sceSaveDataDialogIsReadyToDisplay'']"

definition SceDownload_exports :: "sce_export list" where
  "SceDownload_exports = exports_of ''libSceDownload''
     [''sceDownloadInitialize'', ''sceDownloadTerminate'', ''sceDownloadInit'',
      ''sceDownloadDone'', ''sceDownloadCreateTask'', ''sceDownloadStartTask'',
      ''sceDownloadStopTask'', ''sceDownloadDeleteTask'', ''sceDownloadGetTaskInfo'']"

definition SceFiber_exports :: "sce_export list" where
  "SceFiber_exports = map (\<lambda>(n, f). (''libSceFiber'', n, f))
     [(''sceFiberInitializeImpl'', ''sceFiberInitializeImpl''),
      (''sceFiberInitialize'', ''sceFiberInitializeImpl''),
      (''sceFiberFinalize'', ''sceFiberFinalize''),
      (''sceFiberRun'', ''sceFiberRun''),
      (''sceFiberSwitch'', ''sceFiberSwitch''),
      (''sceFiberReturnToThread'', ''sceFiberReturnToThread''),
      (''sceFiberGetSelf'', ''sceFiberGetSelf'')]"

definition SceFont_exports :: "sce_export list" where
  "SceFont_exports = exports_of ''libSceFont''
     [''sceFontInit'', ''sceFontDone'', ''sceFontCreateLibraryFromMemory'',
      ''sceFontDestroyLibrary'', ''sceFontGetCharGlyphImage'']"

definition SceFontFt_exports :: "sce_export list" where
  "SceFontFt_exports = exports_of ''libSceFontFt''
     [''sceFontFtInit'', ''sceFontFtDone'']"

definition SceGameUpdate_exports :: "sce_export list" where
  "SceGameUpdate_exports = exports_of ''libSceGameUpdate''
     [''sceGameUpdateInitialize'', ''sceGameUpdateTerminate'',
      ''sceGameUpdateCreateRequest'', ''sceGameUpdateDeleteRequest'',
      ''sceGameUpdateCheckUpdate'', ''sceGameUpdateGetStatus'', ''sceGameUpdateAbort'',
      ''sceGameUpdateGetUpdateInfo'']"

definition SceGnm_exports :: "sce_export list" where
  "SceGnm_exports = exports_of ''libSceGnm''
     [''sceGnmInit'', ''sceGnmTerminate'', ''sceGnmSubmitDone'', ''sceGnmDrawIndex'',
      ''sceGnmDrawIndexAuto'', ''sceGnmDrawInitDefaultHardwareState'']"

definition SceHttp_exports :: "sce_export list" where
  "SceHttp_exports = exports_of ''libSceHttp''
     [''sceHttpInit'', ''sceHttpTerm'', ''sceHttpCreateTemplate'',
      ''sceHttpDeleteTemplate'', ''sceHttpCreateConnectionWithURL'',
      ''sceHttpDeleteConnection'', ''sceHttpCreateRequestWithURL'',
      ''sceHttpDeleteRequest'', ''sceHttpSendRequest'', ''sceHttpGetStatusCode'',
      ''sceHttpReadData'', ''sceHttpGetContentLength'', ''sceHttpSetRequestContentLength'',
      ''sceHttpAddRequestHeader'']"

definition SceKeyboard_exports :: "sce_export list" where
  "SceKeyboard_exports = exports_of ''libSceKeyboard''
     [''sceKeyboardInit'', ''sceKeyboardClose'', ''sceKeyboardOpen'',
      ''sceKeyboardCloseHandle'', ''sceKeyboardReadState'']"

definition SceMouse_exports :: "sce_export list" where
  "SceMouse_exports = exports_of ''libSceMouse''
     [''sceMouseInit'', ''sceMouseClose'', ''sceMouseOpen'', ''sceMouseCloseHandle'',
      ''sceMouseRead'', ''sceMouseSetPointerSpeed'']"

definition SceJpeg_exports :: "sce_export list" where
  "SceJpeg_exports = exports_of ''libSceJpeg''
     [''sceJpegInitJpeg'', ''sceJpegFinishJpeg'', ''sceJpegDecodeJpeg'',
      ''sceJpegCreateDecoder'', ''sceJpegDeleteDecoder'', ''sceJpegDecodeJpegInternal'']"

definition LibcInternal_exports :: "sce_export list" where
  "LibcInternal_exports = map (\<lambda>(n, f). (''libSceLibcInternal'', n, f))
     [(''malloc'', ''sceLibcMalloc''),
      (''free'', ''sceLibcFree''),
      (''calloc'', ''sceLibcCalloc''),
      (''realloc'', ''sceLibcRealloc''),
      (''memcpy'', ''sceLibcMemcpy''),
      (''memmove'', ''sceLibcMemmove''),
      (''memset'', ''sceLibcMemset''),
      (''memcmp'', ''sceLibcMemcmp''),
      (''memchr'', ''sceLibcMemchr''),
      (''strlen'', ''sceLibcStrlen''),
      (''strcpy'', ''sceLibcStrcpy''),
      (''strncpy'', ''sceLibcStrncpy''),
      (''strcmp'', ''sceLibcStrcmp''),
      (''strncmp'', ''sceLibcStrncmp''),
      (''strchr'', ''sceLibcStrchr''),
      (''strrchr'', ''sceLibcStrrchr''),
      (''strstr'', ''sceLibcStrstr''),
      (''strcat'', ''sceLibcStrcat''),
      (''strncat'', ''sceLibcStrncat''),
      (''atoi'', ''sceLibcAtoi''),
      (''atol'', ''sceLibcAtol''),
      (''atof'', ''sceLibcAtof''),
      (''printf'', ''sceLibcPrintf''),
      (''fprintf'', ''sceLibcFprintf''),
      (''snprintf'', ''sceLibcSnprintf''),
      (''puts'', ''sceLibcPuts''),
      (''getchar'', ''sceLibcGetchar''),
      (''fopen'', ''sceLibcFopen''),
      (''fclose'', ''sceLibcFclose''),
      (''fread'', ''sceLibcFread''),
      (''fwrite'', ''sceLibcFwrite'')]"

definition SceMove_exports :: "sce_export list" where
  "SceMove_exports = exports_of ''libSceMove''
     [''sceMoveInit'', ''sceMoveOpen'', ''sceMoveClose'', ''sceMoveReadState'',
      ''sceMoveGetDeviceInfo'', ''sceMoveIsMoveConnected'']"

definition SceNet_exports :: "sce_export list" where
  "SceNet_exports = exports_of ''libSceNet''
     [''sceNetInit'', ''sceNetTerm'', ''sceNetSocket'', ''sceNetClose'', ''sceNetConnect'',
      ''sceNetSend'', ''sceNetRecv'']"

definition SceNetCtl_exports :: "sce_export list" where
  "SceNetCtl_exports = exports_of ''libSceNetCtl''
     [''sceNetCtlInit'', ''sceNetCtlTerm'', ''sceNetCtlGetState'', ''sceNetCtlGetInfo'',
      ''sceNetCtlRegisterCallback'', ''sceNetCtlUnregisterCallback'',
      ''sceNetCtlCheckCallback'']"

definition SceNgs2_exports :: "sce_export list" where
  "SceNgs2_exports = exports_of ''libSceNgs2''
     [''sceNgs2SystemCreateWithAllocator'', ''sceNgs2SystemDestroy'', ''sceNgs2RackCreate'',
      ''sceNgs2RackDestroy'', ''sceNgs2VoiceCreate'', ''sceNgs2VoiceDestroy'',
      ''sceNgs2VoiceControl'', ''sceNgs2VoicePlay'', ''sceNgs2VoiceStop'',
      ''sceNgs2RackSetGain'', ''sceNgs2SystemRender'']"

definition SceNpCommon_exports :: "sce_export list" where
  "SceNpCommon_exports = exports_of ''libSceNpCommon''
     [''sceNpCreateRequest'', ''sceNpDeleteRequest'', ''sceNpAbortRequest'',
      ''sceNpGetAccountLanguageA'']"

definition SceNpManager_exports :: "sce_export list" where
  "SceNpManager_exports = exports_of ''libSceNpManager''
     [''sceNpInit'', ''sceNpTerm'', ''sceNpCheckNpReachability'', ''sceNpGetAccountIdA'',
      ''sceNpGetAccountId'', ''sceNpGetOnlineId'', ''sceNpGetAccountCountry'',
      ''sceNpGetAccountLanguage'', ''sceNpIsPlusMember'', ''sceNpSetNpTitleId'',
      ''sceNpRegisterStateCallback'', ''sceNpUnregisterStateCallback'']"

definition SceNpScore_exports :: "sce_export list" where
  "SceNpScore_exports = exports_of ''libSceNpScore''
     [''sceNpScoreInit'', ''sceNpScoreTerm'', ''sceNpScoreCreateTitleCtx'',
      ''sceNpScoreCreateRequest'', ''sceNpScoreDeleteRequest'', ''sceNpScoreSetScore'',
      ''sceNpScoreGetRankingByRange'', ''sceNpScoreGetRankingByNpId'']"

definition SceNpTrophy_exports :: "sce_export list" where
  "SceNpTrophy_exports = exports_of ''libSceNpTrophy''
     [''sceNpTrophyCreateContext'', ''sceNpTrophyDestroyContext'',
      ''sceNpTrophyRegisterContext'', ''sceNpTrophyCreateHandle'',
      ''sceNpTrophyDestroyHandle'', ''sceNpTrophyGetTrophyUnlockState'',
      ''sceNpTrophyUnlockTrophy'', ''sceNpTrophyGetGameInfo'', ''sceNpTrophyGetTrophyInfo'']"

definition ScePad_exports :: "sce_export list" where
  "ScePad_exports = exports_of ''libScePad''
     [''scePadInit'', ''scePadOpen'', ''scePadClose'', ''scePadReadState'', ''scePadRead'',
      ''scePadSetVibration'']"

definition ScePlayGo_exports :: "sce_export list" where
  "ScePlayGo_exports = exports_of ''libScePlayGo''
     [''scePlayGoInitialize'', ''scePlayGoTerminate'', ''scePlayGoGetLocus'',
      ''scePlayGoGetChunkId'', ''scePlayGoGetInstallSpeed'', ''scePlayGoGetProgress'',
      ''scePlayGoGetLocusInfo'', ''scePlayGoGetEta'', ''scePlayGoPrefetch'',
      ''scePlayGoOpen'', ''scePlayGoClose'', ''scePlayGoSetWakeupCallback'']"

definition ScePng_exports :: "sce_export list" where
  "ScePng_exports = exports_of ''libScePng''
     [''scePngInit'', ''scePngFinish'', ''scePngDecode'']"

definition SceRandom_exports :: "sce_export list" where
  "SceRandom_exports = exports_of ''libSceRandom''
     [''sceRandomGetRandomNumber'', ''sceRandomGetRandomValue'', ''sceRandomGetRandomFloat'']"

definition SceRtc_exports :: "sce_export list" where
  "SceRtc_exports = exports_of ''libSceRtc''
     [''sceRtcGetCurrentTick'', ''sceRtcGetCurrentClock'',
      ''sceRtcGetCurrentClockLocalTime'', ''sceRtcSetTick'', ''sceRtcGetTick'',
      ''sceRtcGetTickResolution'', ''sceRtcConvertUtcToLocalTime'',
      ''sceRtcConvertLocalTimeToUtc'', ''sceRtcGetCurrentNetworkTick'']"

definition SceSaveData_exports :: "sce_export list" where
  "SceSaveData_exports = exports_of ''libSceSaveData''
     [''sceSaveDataInitialize'', ''sceSaveDataTerminate'',
      ''sceSaveDataSetupSaveDataMemory'', ''sceSaveDataSaveIcon'',
      ''sceSaveDataCommitSaveData'', ''sceSaveDataLoadSaveData'',
      ''sceSaveDataGetSaveDataMemory'', ''sceSaveDataSetSaveDataMemory'',
      ''sceSaveDataDeleteSaveDataMemory'', ''sceSaveDataGetSaveDataMemorySize'']"

definition SceScreenShot_exports :: "sce_export list" where
  "SceScreenShot_exports = exports_of ''libSceScreenShot''
     [''sceScreenShotInit'', ''sceScreenShotTerm'', ''sceScreenShotCapture'',
      ''sceScreenShotDisable'', ''sceScreenShotEnable'', ''sceScreenShotSetParam'']"

definition SceShare_exports :: "sce_export list" where
  "SceShare_exports = exports_of ''libSceShare''
     [''sceShareInitialize'', ''sceShareTerminate'', ''sceShareOpen'', ''sceShareClose'',
      ''sceShareGetStatus'', ''sceShareRegisterPostDialog'', ''sceShareSetVideoToPng'',
      ''sceShareCaptureScreen'']"

definition SceSigninDialog_exports :: "sce_export list" where
  "SceSigninDialog_exports = exports_of ''libSceSigninDialog''
     [''sceSigninDialogInitialize'', ''sceSigninDialogTerminate'', ''sceSigninDialogOpen'',
      ''sceSigninDialogGetStatus'', ''sceSigninDialogUpdateStatus'',
      ''sceSigninDialogGetResult'', ''sceSigninDialogClose'']"

definition SceSsl_exports :: "sce_export list" where
  "SceSsl_exports = exports_of ''libSceSsl''
     [''sceSslInit'', ''sceSslTerm'', ''sceSslConnect'', ''sceSslGetIssuerName'',
      ''sceSslGetSubjectName'', ''sceSslGetNotBefore'', ''sceSslGetNotAfter'']"

definition SceSysmodule_exports :: "sce_export list" where
  "SceSysmodule_exports = exports_of ''libSceSysmodule''
     [''sceSysmoduleLoadModule'', ''sceSysmoduleUnloadModule'', ''sceSysmoduleIsLoaded'']"

definition SceSystemService_exports :: "sce_export list" where
  "SceSystemService_exports = exports_of ''libSceSystemService''
     [''sceSystemServiceGetStatus'', ''sceSystemServiceReceiveEvent'',
      ''sceSystemServiceHideSplashScreen'', ''sceSystemServiceLaunchApp'']
   @ exports_of ''libSceKernel'' [''sceKernelGetProcessTime'']"

definition SceUlt_exports :: "sce_export list" where
  "SceUlt_exports = exports_of ''libSceUlt''
     [''sceUltPoolCreate'', ''sceUltPoolDestroy'', ''sceUltPoolAlloc'', ''sceUltPoolFree'',
      ''sceUltWaitingQueueInit'', ''sceUltWaitingQueueDestroy'', ''sceUltSpinlockInit'']"

definition SceVideodec_exports :: "sce_export list" where
  "SceVideodec_exports = exports_of ''libSceVideodec''
     [''sceVideodecInitLibrary'', ''sceVideodecTermLibrary'', ''sceVideodecCreateDecoder'',
      ''sceVideodecDeleteDecoder'', ''sceVideodecDecode'', ''sceVideodecFlush'']"

definition SceVideoOut_exports :: "sce_export list" where
  "SceVideoOut_exports = exports_of ''libSceVideoOut''
     [''sceVideoOutOpen'', ''sceVideoOutClose'', ''sceVideoOutRegisterBuffers'',
      ''sceVideoOutUnregisterBuffers'', ''sceVideoOutSubmitFlip'',
      ''sceVideoOutSetFlipRate'', ''sceVideoOutGetFlipStatus'']"

definition SceVoice_exports :: "sce_export list" where
  "SceVoice_exports = exports_of ''libSceVoice''
     [''sceVoiceInit'', ''sceVoiceQuit'', ''sceVoiceCreatePort'', ''sceVoiceDeletePort'',
      ''sceVoiceReadFromServer'', ''sceVoiceWriteToServer'', ''sceVoiceGetPortInfo'',
      ''sceVoiceGetBitRate'']"

text \<open>The tables of every library, libSceKernel's included.\<close>

definition SceKernel_exports :: "sce_export list" where
  "SceKernel_exports = exports_of ''libSceKernel'' kKernelExports"

definition sce_tables :: "sce_export list list" where
  "sce_tables =
     [SceKernel_exports @ SceSystemService_exports,
      SceAjm_exports, SceAppContent_exports, SceAudioOut_exports,
      SceAudiodec_exports, SceBgft_exports, SceCamera_exports,
      SceCommonDialog_exports, SceErrorDialog_exports, SceImeDialog_exports,
      SceMsgDialog_exports, SceSaveDataDialog_exports, SceDownload_exports,
      SceFiber_exports, SceFont_exports, SceFontFt_exports,
      SceGameUpdate_exports, SceGnm_exports, SceHttp_exports,
      SceKeyboard_exports, SceMouse_exports, SceJpeg_exports,
      LibcInternal_exports, SceMove_exports, SceNet_exports,
      SceNetCtl_exports, SceNgs2_exports, SceNpCommon_exports,
      SceNpManager_exports, SceNpScore_exports, SceNpTrophy_exports,
      ScePad_exports, ScePlayGo_exports, ScePng_exports,
      SceRandom_exports, SceRtc_exports, SceSaveData_exports,
      SceScreenShot_exports, SceShare_exports, SceSigninDialog_exports,
      SceSsl_exports, SceSysmodule_exports, SceUlt_exports,
      SceVideodec_exports, SceVideoOut_exports, SceVoice_exports]"

definition sce_exports :: "sce_export list" where
  "sce_exports = concat sce_tables"

definition registerExports :: "(string \<Rightarrow> string \<Rightarrow> u64) \<Rightarrow> sce_export list \<Rightarrow> SceStubTable" where
  "registerExports addr es = register_stubs (map (\<lambda>(lib, n, f). (lib, n, addr lib f)) es)"

section \<open>No name is exported twice\<close>

definition functional_table :: "sce_export list \<Rightarrow> bool" where
  "functional_table es \<longleftrightarrow> (\<forall>l n f g. (l, n, f) \<in> set es \<and> (l, n, g) \<in> set es \<longrightarrow> f = g)"

definition table_libs :: "sce_export list \<Rightarrow> string set" where
  "table_libs es = fst ` set es"

lemma functional_distinct: "distinct (map (\<lambda>(l, n, f). n) es) \<Longrightarrow> functional_table es"
proof -
  assume "distinct (map (\<lambda>(l, n, f). n) es)"
  then have inj: "inj_on (\<lambda>(l, n, f). n) (set es)" by (simp add: distinct_map)
  have "f = g" if "(l, n, f) \<in> set es" "(l, n, g) \<in> set es" for l n f g
    using inj_onD [OF inj _ that] by simp
  then show "functional_table es" by (auto simp: functional_table_def)
qed

lemma functional_append:
  "functional_table A \<Longrightarrow> functional_table B \<Longrightarrow> table_libs A \<inter> table_libs B = {}
     \<Longrightarrow> functional_table (A @ B)"
proof -
  assume fa: "functional_table A" "functional_table B" and dj: "table_libs A \<inter> table_libs B = {}"
  have apart: "\<not> ((l, n, f) \<in> set A \<and> (l, m, g) \<in> set B)" for l n f m g
  proof
    assume h: "(l, n, f) \<in> set A \<and> (l, m, g) \<in> set B"
    then have "l \<in> table_libs A" "l \<in> table_libs B" unfolding table_libs_def by force+
    with dj show False by blast
  qed
  show "functional_table (A @ B)"
    unfolding functional_table_def set_append
    using fa apart unfolding functional_table_def by blast
qed

lemma functional_concat:
  "list_all functional_table Ts \<Longrightarrow> sorted_wrt (\<lambda>A B. table_libs A \<inter> table_libs B = {}) Ts
     \<Longrightarrow> functional_table (concat Ts)"
proof (induction Ts)
  case (Cons T Ts)
  moreover have "table_libs T \<inter> table_libs (concat Ts) = {}"
    using Cons.prems(2) by (auto simp: table_libs_def image_UN Int_UN_distrib)
  ultimately show ?case by (simp add: functional_append)
qed (simp add: functional_table_def)

text \<open>Evaluation of the tables, one at a time.\<close>

lemmas export_lists = exports_of_def kKernelExports_def SceKernel_exports_def
  SceSystemService_exports_def SceAjm_exports_def SceAppContent_exports_def
  SceAudioOut_exports_def SceAudiodec_exports_def SceBgft_exports_def
  SceCamera_exports_def SceCommonDialog_exports_def SceErrorDialog_exports_def
  SceImeDialog_exports_def SceMsgDialog_exports_def SceSaveDataDialog_exports_def
  SceDownload_exports_def SceFiber_exports_def SceFont_exports_def
  SceFontFt_exports_def SceGameUpdate_exports_def SceGnm_exports_def
  SceHttp_exports_def SceKeyboard_exports_def SceMouse_exports_def
  SceJpeg_exports_def LibcInternal_exports_def SceMove_exports_def
  SceNet_exports_def SceNetCtl_exports_def SceNgs2_exports_def
  SceNpCommon_exports_def SceNpManager_exports_def SceNpScore_exports_def
  SceNpTrophy_exports_def ScePad_exports_def ScePlayGo_exports_def
  ScePng_exports_def SceRandom_exports_def SceRtc_exports_def
  SceSaveData_exports_def SceScreenShot_exports_def SceShare_exports_def
  SceSigninDialog_exports_def SceSsl_exports_def SceSysmodule_exports_def
  SceUlt_exports_def SceVideodec_exports_def SceVideoOut_exports_def
  SceVoice_exports_def

lemma tables_functional:
  "functional_table (SceKernel_exports @ SceSystemService_exports)"
  "functional_table SceAjm_exports"
  "functional_table SceAppContent_exports"
  "functional_table SceAudioOut_exports"
  "functional_table SceAudiodec_exports"
  "functional_table SceBgft_exports"
  "functional_table SceCamera_exports"
  "functional_table SceCommonDialog_exports"
  "functional_table SceErrorDialog_exports"
  "functional_table SceImeDialog_exports"
  "functional_table SceMsgDialog_exports"
  "functional_table SceSaveDataDialog_exports"
  "functional_table SceDownload_exports"
  "functional_table SceFiber_exports"
  "functional_table SceFont_exports"
  "functional_table SceFontFt_exports"
  "functional_table SceGameUpdate_exports"
  "functional_table SceGnm_exports"
  "functional_table SceHttp_exports"
  "functional_table SceKeyboard_exports"
  "functional_table SceMouse_exports"
  "functional_table SceJpeg_exports"
  "functional_table LibcInternal_exports"
  "functional_table SceMove_exports"
  "functional_table SceNet_exports"
  "functional_table SceNetCtl_exports"
  "functional_table SceNgs2_exports"
  "functional_table SceNpCommon_exports"
  "functional_table SceNpManager_exports"
  "functional_table SceNpScore_exports"
  "functional_table SceNpTrophy_exports"
  "functional_table ScePad_exports"
  "functional_table ScePlayGo_exports"
  "functional_table ScePng_exports"
  "functional_table SceRandom_exports"
  "functional_table SceRtc_exports"
  "functional_table SceSaveData_exports"
  "functional_table SceScreenShot_exports"
  "functional_table SceShare_exports"
  "functional_table SceSigninDialog_exports"
  "functional_table SceSsl_exports"
  "functional_table SceSysmodule_exports"
  "functional_table SceUlt_exports"
  "functional_table SceVideodec_exports"
  "functional_table SceVideoOut_exports"
  "functional_table SceVoice_exports"
  by (rule functional_distinct, simp add: export_lists)+

lemma tables_libs:
  "table_libs (SceKernel_exports @ SceSystemService_exports) = {''libSceKernel'', ''libSceSystemService''}"
  "table_libs SceAjm_exports = {''libSceAjm''}"
  "table_libs SceAppContent_exports = {''libSceAppContent''}"
  "table_libs SceAudioOut_exports = {''libSceAudioOut''}"
  "table_libs SceAudiodec_exports = {''libSceAudiodec''}"
  "table_libs SceBgft_exports = {''libSceBgft''}"
  "table_libs SceCamera_exports = {''libSceCamera''}"
  "table_libs SceCommonDialog_exports = {''libSceCommonDialog''}"
  "table_libs SceErrorDialog_exports = {''libSceErrorDialog''}"
  "table_libs SceImeDialog_exports = {''libSceImeDialog''}"
  "table_libs SceMsgDialog_exports = {''libSceMsgDialog''}"
  "table_libs SceSaveDataDialog_exports = {''libSceSaveDataDialog''}"
  "table_libs SceDownload_exports = {''libSceDownload''}"
  "table_libs SceFiber_exports = {''libSceFiber''}"
  "table_libs SceFont_exports = {''libSceFont''}"
  "table_libs SceFontFt_exports = {''libSceFontFt''}"
  "table_libs SceGameUpdate_exports = {''libSceGameUpdate''}"
  "table_libs SceGnm_exports = {''libSceGnm''}"
  "table_libs SceHttp_exports = {''libSceHttp''}"
  "table_libs SceKeyboard_exports = {''libSceKeyboard''}"
  "table_libs SceMouse_exports = {''libSceMouse''}"
  "table_libs SceJpeg_exports = {''libSceJpeg''}"
  "table_libs LibcInternal_exports = {''libSceLibcInternal''}"
  "table_libs SceMove_exports = {''libSceMove''}"
  "table_libs SceNet_exports = {''libSceNet''}"
  "table_libs SceNetCtl_exports = {''libSceNetCtl''}"
  "table_libs SceNgs2_exports = {''libSceNgs2''}"
  "table_libs SceNpCommon_exports = {''libSceNpCommon''}"
  "table_libs SceNpManager_exports = {''libSceNpManager''}"
  "table_libs SceNpScore_exports = {''libSceNpScore''}"
  "table_libs SceNpTrophy_exports = {''libSceNpTrophy''}"
  "table_libs ScePad_exports = {''libScePad''}"
  "table_libs ScePlayGo_exports = {''libScePlayGo''}"
  "table_libs ScePng_exports = {''libScePng''}"
  "table_libs SceRandom_exports = {''libSceRandom''}"
  "table_libs SceRtc_exports = {''libSceRtc''}"
  "table_libs SceSaveData_exports = {''libSceSaveData''}"
  "table_libs SceScreenShot_exports = {''libSceScreenShot''}"
  "table_libs SceShare_exports = {''libSceShare''}"
  "table_libs SceSigninDialog_exports = {''libSceSigninDialog''}"
  "table_libs SceSsl_exports = {''libSceSsl''}"
  "table_libs SceSysmodule_exports = {''libSceSysmodule''}"
  "table_libs SceUlt_exports = {''libSceUlt''}"
  "table_libs SceVideodec_exports = {''libSceVideodec''}"
  "table_libs SceVideoOut_exports = {''libSceVideoOut''}"
  "table_libs SceVoice_exports = {''libSceVoice''}"
  by (auto simp: table_libs_def export_lists)

lemma sce_exports_functional: "functional_table sce_exports"
  unfolding sce_exports_def
proof (rule functional_concat)
  show "list_all functional_table sce_tables" by (simp add: sce_tables_def tables_functional)
  show "sorted_wrt (\<lambda>A B. table_libs A \<inter> table_libs B = {}) sce_tables"
    by (simp add: sce_tables_def tables_libs)
qed

section \<open>Names resolve to their functions\<close>

text \<open>A library name without a colon can be read back from a qualified name.\<close>

lemma stub_key_inject:
  assumes "CHR '':'' \<notin> set l" and "CHR '':'' \<notin> set k"
  shows "stub_key l n = stub_key k m \<longleftrightarrow> l = k \<and> n = m"
proof
  assume e: "stub_key l n = stub_key k m"
  have "takeWhile (\<lambda>c. c \<noteq> CHR '':'') (stub_key q x) = q" if "CHR '':'' \<notin> set q" for q x
    unfolding stub_key_def append_Cons using that by (intro takeWhile_append_stop) auto
  with assms e have "l = k" by metis
  with e show "l = k \<and> n = m" by (simp add: stub_key_def)
qed simp

lemma register_stubs_find:
  assumes "\<And>l n a. (l, n, a) \<in> set rs \<Longrightarrow> stub_key l n = q \<Longrightarrow> a = v" and "v \<noteq> 0"
    and "(l0, n0, v) \<in> set rs" and "stub_key l0 n0 = q"
  shows "resolveSymbol (register_stubs rs) q = Some v"
proof -
  have "um_find (m_stubs (fold (\<lambda>(l, n, a) t. registerStub l n a t) rs t)) q = Some v"
    if "um_find (m_stubs t) q = Some v \<or> (\<exists>l n. (l, n, v) \<in> set rs \<and> stub_key l n = q)"
      and "\<And>l n a. (l, n, a) \<in> set rs \<Longrightarrow> stub_key l n = q \<Longrightarrow> a = v" for t
    using that
  proof (induction rs arbitrary: t)
    case (Cons r rs)
    obtain l n a where r: "r = (l, n, a)" by (cases r) auto
    have st: "um_find (m_stubs (registerStub l n a t)) q =
        (if stub_key l n = q \<and> a \<noteq> 0 then Some a else um_find (m_stubs t) q)"
      by (auto simp: registerStub_def Let_def um_simps)
    have "um_find (m_stubs (registerStub l n a t)) q = Some v
        \<or> (\<exists>l n. (l, n, v) \<in> set rs \<and> stub_key l n = q)"
      using Cons.prems assms(2) st by (auto simp: r)
    moreover have "a' = v" if "(l', n', a') \<in> set rs" "stub_key l' n' = q" for l' n' a'
      using Cons.prems(2) [of l' n' a'] that by simp
    ultimately show ?case using Cons.IH [of "registerStub l n a t"] by (simp add: r)
  qed simp
  then show ?thesis
    using assms unfolding resolveSymbol_def register_stubs_def by blast
qed

lemma export_libs_no_colon: "(l, n, f) \<in> set sce_exports \<Longrightarrow> CHR '':'' \<notin> set l"
proof -
  assume "(l, n, f) \<in> set sce_exports"
  then obtain T where "T \<in> set sce_tables" "l \<in> table_libs T"
    by (force simp: sce_exports_def table_libs_def)
  moreover have "list_all (\<lambda>T. \<forall>l\<in>table_libs T. CHR '':'' \<notin> set l) sce_tables"
    by (simp add: sce_tables_def tables_libs)
  ultimately show ?thesis by (auto simp: list_all_iff)
qed

text \<open>
  C29. Linking to the SCE libraries. Whichever of the libraries' exports are registered, in whatever
  order and how often, each registered name resolves to the address of the function its library
  registered it for, and its numeric id leads to the same address, in whatever order the table of ids is iterated.
\<close>

theorem sce_exports_resolve:
  assumes "set es \<subseteq> set sce_exports" and "(lib, n, f) \<in> set es" and "addr lib f \<noteq> 0"
    and "length es < 0x0FFFFFFF" and "iterates order"
  shows "stub_resolve (registerExports addr es) lib n = Some (addr lib f)
    \<and> resolveById (registerExports addr es) (getOrAssignId order (registerExports addr es) (stub_key lib n))
        = Some (addr lib f)"
proof -
  let ?rs = "map (\<lambda>(lib, n, f). (lib, n, addr lib f)) es"
  have same: "a = addr lib f" if r: "(l, m, a) \<in> set ?rs" and k: "stub_key l m = stub_key lib n" for l m a
  proof -
    from r obtain g where g: "(l, m, g) \<in> set es" "a = addr l g" by auto
    have in_t: "(l, m, g) \<in> set sce_exports" "(lib, n, f) \<in> set sce_exports" using g assms(1,2) by auto
    then have "l = lib \<and> m = n"
      using k stub_key_inject export_libs_no_colon by metis
    then show ?thesis
      using sce_exports_functional in_t g(2) unfolding functional_table_def by blast
  qed
  have "(lib, n, addr lib f) \<in> set ?rs" using assms(2) by force
  then have r: "resolveSymbol (register_stubs ?rs) (stub_key lib n) = Some (addr lib f)"
    using register_stubs_find [of ?rs "stub_key lib n" "addr lib f"] same assms(3) by blast
  moreover have "length ?rs < 0x0FFFFFFF" using assms(4) by simp
  ultimately show ?thesis
    using registered_id(4) [of ?rs _ _ order] assms(5) by (simp add: registerExports_def stub_resolve_def resolveSymbol_def)
qed

theorem sce_exports_resolve_witness:
  "stub_resolve (registerExports (\<lambda>l f. if f = ''sceLibcFree'' then 0x2000 else 0x1000)
       (SceRandom_exports @ LibcInternal_exports)) ''libSceLibcInternal'' ''free'' = Some 0x2000"
proof -
  have s: "set (SceRandom_exports @ LibcInternal_exports) \<subseteq> set sce_exports"
    by (auto simp: sce_exports_def sce_tables_def)
  have m: "(''libSceLibcInternal'', ''free'', ''sceLibcFree'')
      \<in> set (SceRandom_exports @ LibcInternal_exports)"
    by (simp add: LibcInternal_exports_def)
  from sce_exports_resolve [OF s m, of "\<lambda>l f. if f = ''sceLibcFree'' then 0x2000 else 0x1000" rev]
  show ?thesis by (simp add: iterates_def LibcInternal_exports_def SceRandom_exports_def exports_of_def)
qed

end
