(* ===== verification/Psn_Backend.thy ===== *)
theory Psn_Backend
  imports Save_Container "HOL-Library.Multiset"
begin

text \<open>
  \<^verbatim>\<open>psn/PsnBackend.cpp\<close>: the local simulation of the network account, its trophies and its score
  boards, persisted in binary files. The files are part of the state, by path. What a sequence of
  \<^verbatim>\<open>writeAll\<close> calls leaves in a file, whether a file can be opened for writing, the clock and
  \<^verbatim>\<open>std::sort\<close> (which does not fix the order of equal scores) are parameters of the operations.
\<close>

section \<open>Data\<close>

text \<open>The grade is read from a file with a cast, so it may be any 32-bit value.\<close>

type_synonym TrophyGrade = u32

definition GradePlatinum :: TrophyGrade where "GradePlatinum = 0"
definition GradeGold :: TrophyGrade where "GradeGold = 1"
definition GradeSilver :: TrophyGrade where "GradeSilver = 2"
definition GradeBronze :: TrophyGrade where "GradeBronze = 3"

record AccountInfo =
  ai_accountId :: u64
  ai_onlineId :: string
  ai_region :: string
  ai_language :: string
  ai_age :: u32
  ai_flags :: u32

definition AccountInfo_new :: AccountInfo where
  "AccountInfo_new = \<lparr>ai_accountId = 0, ai_onlineId = ''Player1'', ai_region = ''us'',
     ai_language = ''en'', ai_age = 25, ai_flags = 0\<rparr>"

record TrophyDef =
  td_trophyId :: u32
  td_grade :: TrophyGrade
  td_title :: string
  td_description :: string
  td_hidden :: bool

definition TrophyDef_new :: TrophyDef where
  "TrophyDef_new = \<lparr>td_trophyId = 0, td_grade = GradeBronze, td_title = [], td_description = [],
     td_hidden = False\<rparr>"

record TrophyState =
  ts_trophyId :: u32
  ts_unlocked :: bool
  ts_unlockedAt :: u64

definition TrophyState_new :: TrophyState where
  "TrophyState_new = \<lparr>ts_trophyId = 0, ts_unlocked = False, ts_unlockedAt = 0\<rparr>"

record ScoreEntry =
  sc_boardId :: u32
  sc_score :: u64
  sc_comment :: string
  sc_timestamp :: u64
  sc_rank :: u32

definition ScoreEntry_new :: ScoreEntry where
  "ScoreEntry_new = \<lparr>sc_boardId = 0, sc_score = 0, sc_comment = [], sc_timestamp = 0, sc_rank = 0\<rparr>"

record TitleState =
  tt_defs :: "TrophyDef list"
  tt_states :: "TrophyState list"
  tt_loaded :: bool

definition TitleState_new :: TitleState where
  "TitleState_new = \<lparr>tt_defs = [], tt_states = [], tt_loaded = False\<rparr>"

record BoardState =
  bd_entries :: "ScoreEntry list"
  bd_loaded :: bool

definition BoardState_new :: BoardState where
  "BoardState_new = \<lparr>bd_entries = [], bd_loaded = False\<rparr>"

record PsnBackend =
  pb_persistRoot :: string
  pb_accountDir :: string
  pb_account :: AccountInfo
  pb_signedIn :: bool
  pb_titles :: "(u64, TitleState) umap"
  pb_boards :: "(u32, BoardState) umap"
  pb_files :: "string \<rightharpoonup> u8 list"

definition PsnBackend_new :: "(string \<rightharpoonup> u8 list) \<Rightarrow> PsnBackend" where
  "PsnBackend_new fs = \<lparr>pb_persistRoot = [], pb_accountDir = [], pb_account = AccountInfo_new,
     pb_signedIn = False, pb_titles = [], pb_boards = [], pb_files = fs\<rparr>"

section \<open>Helpers\<close>

definition kAccountMagic :: u32 where "kAccountMagic = 0x4E435041"
definition kTrophyMagic :: u32 where "kTrophyMagic = 0x50485254"
definition kScoreMagic :: u32 where "kScoreMagic = 0x52435350"
definition kFormatVersion :: u32 where "kFormatVersion = 1"

definition fnv1a :: "u8 list \<Rightarrow> u32" where
  "fnv1a bs = foldl (\<lambda>h b. (h XOR ucast b) * 0x01000193) 0x811C9DC5 bs"

definition safeCopy :: "nat \<Rightarrow> string \<Rightarrow> u8 list" where
  "safeCopy cap src =
     (let n = min (cap - 1) (length src) in map char_byte (take n src) @ replicate (cap - n) 0)"

definition safeRead :: "u8 list \<Rightarrow> string" where
  "safeRead field = map byte_char (takeWhile (\<lambda>b. b \<noteq> 0) field)"

definition hashTitleId :: "string \<Rightarrow> u64" where
  "hashTitleId s = foldl (\<lambda>h c. (h XOR ucast (char_byte c)) * 0x100000001B3) 0xCBF29CE484222325 s"

text \<open>What the environment answers.\<close>

record psn_os =
  po_stat :: "string \<Rightarrow> bool option"
  po_mkdir :: "string list \<Rightarrow> string \<Rightarrow> bool"
  po_writable :: "string \<Rightarrow> bool"
  po_written :: "string \<Rightarrow> u8 list list \<Rightarrow> u8 list"

text \<open>The parents \<^verbatim>\<open>ensureDirectory\<close> creates one after the other, then the directory itself.\<close>

definition parent_dirs :: "string \<Rightarrow> string list" where
  "parent_dirs path =
     map (\<lambda>i. take i path) (filter (\<lambda>i. path ! i = CHR ''/'' \<and> i > 0) [0..<length path])"

definition ensureDirectory :: "psn_os \<Rightarrow> string \<Rightarrow> bool" where
  "ensureDirectory os path =
     (case po_stat os path of
        Some isDir \<Rightarrow> isDir
      | None \<Rightarrow> po_mkdir os (parent_dirs path) path)"

text \<open>\<^verbatim>\<open>readAll\<close> on a regular file at an offset: it fails at the end of the file.\<close>

definition readAll :: "u8 list \<Rightarrow> nat \<Rightarrow> nat \<Rightarrow> u8 list option" where
  "readAll bytes pos n = (if pos + n \<le> length bytes then Some (take n (drop pos bytes)) else None)"

text \<open>A file written by a sequence of \<^verbatim>\<open>writeAll\<close> calls after opening it with truncation.\<close>

definition write_file :: "psn_os \<Rightarrow> string \<Rightarrow> u8 list list \<Rightarrow> PsnBackend \<Rightarrow> PsnBackend" where
  "write_file os path chunks b =
     (if po_writable os path then b\<lparr>pb_files := (pb_files b)(path \<mapsto> po_written os path chunks)\<rparr> else b)"

definition hex_char :: "nat \<Rightarrow> char" where
  "hex_char n = ''0123456789abcdef'' ! n"

text \<open>The conversion \<^verbatim>\<open>%0<k>llx\<close> of a value of \<open>k\<close> hexadecimal digits.\<close>

definition hex_name :: "nat \<Rightarrow> 'a::len word \<Rightarrow> string" where
  "hex_name k w = map (\<lambda>i. hex_char (unat (drop_bit (4 * (k - 1 - i)) w AND 0xF))) [0..<k]"

section \<open>Account\<close>

definition account_path :: "PsnBackend \<Rightarrow> string" where
  "account_path b = pb_accountDir b @ ''/account.dat''"

definition sizeof_AccountHeader :: nat where "sizeof_AccountHeader = 80"

definition AccountHeader_bytes :: "AccountInfo \<Rightarrow> u8 list" where
  "AccountHeader_bytes a =
     (let onl = safeCopy 32 (ai_onlineId a); reg = safeCopy 8 (ai_region a);
          lang = safeCopy 8 (ai_language a)
      in le_bytes 4 kAccountMagic @ le_bytes 4 kFormatVersion @ le_bytes 8 (ai_accountId a)
         @ le_bytes 4 (ai_age a) @ le_bytes 4 (ai_flags a) @ onl @ reg @ lang
         @ le_bytes 4 (fnv1a onl XOR fnv1a reg XOR fnv1a lang) @ le_bytes 4 (0 :: u32))"

definition loadAccount :: "PsnBackend \<Rightarrow> bool \<times> PsnBackend" where
  "loadAccount b =
     (case pb_files b (account_path b) of
        None \<Rightarrow> (False, b)
      | Some bytes \<Rightarrow>
          (case readAll bytes 0 sizeof_AccountHeader of
             None \<Rightarrow> (False, b)
           | Some h \<Rightarrow>
               if le_field 0 4 h \<noteq> kAccountMagic \<or> le_field 4 4 h \<noteq> kFormatVersion then (False, b)
               else (True, b\<lparr>pb_account :=
                      \<lparr>ai_accountId = le_field 8 8 h,
                       ai_onlineId = safeRead (take 32 (drop 24 h)),
                       ai_region = safeRead (take 8 (drop 56 h)),
                       ai_language = safeRead (take 8 (drop 64 h)),
                       ai_age = le_field 16 4 h, ai_flags = le_field 20 4 h\<rparr>\<rparr>)))"

definition saveAccount :: "psn_os \<Rightarrow> PsnBackend \<Rightarrow> PsnBackend" where
  "saveAccount os b = write_file os (account_path b) [AccountHeader_bytes (pb_account b)] b"

definition psn_initialize :: "psn_os \<Rightarrow> string \<Rightarrow> string \<Rightarrow> PsnBackend \<Rightarrow> bool \<times> PsnBackend" where
  "psn_initialize os persistRoot onlineId b =
     (if pb_persistRoot b \<noteq> [] then (True, b)
      else
        (let dir = persistRoot @ ''/'' @ onlineId;
             b = b\<lparr>pb_persistRoot := persistRoot, pb_accountDir := dir\<rparr>
         in if \<not> ensureDirectory os persistRoot \<or> \<not> ensureDirectory os dir
               \<or> \<not> ensureDirectory os (dir @ ''/trophies'') \<or> \<not> ensureDirectory os (dir @ ''/scores'')
            then (False, b)
            else
              (let b = b\<lparr>pb_account := (pb_account b)\<lparr>ai_onlineId := onlineId\<rparr>\<rparr>
               in case loadAccount b of
                    (True, b) \<Rightarrow> (True, b\<lparr>pb_signedIn := True\<rparr>)
                  | (False, b) \<Rightarrow>
                      (let b = saveAccount os (b\<lparr>pb_account :=
                             \<lparr>ai_accountId = hashTitleId onlineId AND 0x7FFFFFFF,
                              ai_onlineId = onlineId, ai_region = ''us'', ai_language = ''en'',
                              ai_age = 25, ai_flags = 0\<rparr>\<rparr>)
                       in (True, b\<lparr>pb_signedIn := True\<rparr>)))))"

definition signIn :: "PsnBackend \<Rightarrow> bool \<times> PsnBackend" where
  "signIn b = (if pb_signedIn b then (True, b) else (True, b\<lparr>pb_signedIn := True\<rparr>))"

definition signOut :: "PsnBackend \<Rightarrow> PsnBackend" where
  "signOut b = b\<lparr>pb_signedIn := False\<rparr>"

section \<open>Trophies\<close>

definition trophy_path :: "PsnBackend \<Rightarrow> u64 \<Rightarrow> string" where
  "trophy_path b titleId = pb_accountDir b @ ''/trophies/'' @ hex_name 16 titleId @ ''.dat''"

definition sizeof_TrophyHeader :: nat where "sizeof_TrophyHeader = 40"
definition sizeof_TrophyDefRecord :: nat where "sizeof_TrophyDefRecord = 208"
definition sizeof_TrophyStateRecord :: nat where "sizeof_TrophyStateRecord = 16"

definition TrophyHeader_bytes :: "u64 \<Rightarrow> TitleState \<Rightarrow> u8 list" where
  "TrophyHeader_bytes titleId t =
     le_bytes 4 kTrophyMagic @ le_bytes 4 kFormatVersion @ le_bytes 8 titleId
     @ le_bytes 4 (of_nat (length (tt_defs t)) :: u32) @ le_bytes 4 (of_nat (length (tt_states t)) :: u32)
     @ replicate 16 0"

definition TrophyDefRecord_bytes :: "TrophyDef \<Rightarrow> u8 list" where
  "TrophyDefRecord_bytes d =
     le_bytes 4 (td_trophyId d) @ le_bytes 4 (td_grade d) @ le_bytes 4 (if td_hidden d then 1 else 0 :: u32)
     @ le_bytes 4 (0 :: u32) @ safeCopy 64 (td_title d) @ safeCopy 128 (td_description d)"

definition TrophyStateRecord_bytes :: "TrophyState \<Rightarrow> u8 list" where
  "TrophyStateRecord_bytes s =
     le_bytes 4 (ts_trophyId s) @ le_bytes 4 (if ts_unlocked s then 1 else 0 :: u32)
     @ le_bytes 8 (ts_unlockedAt s)"

definition decode_TrophyDef :: "u8 list \<Rightarrow> TrophyDef" where
  "decode_TrophyDef r =
     \<lparr>td_trophyId = le_field 0 4 r, td_grade = le_field 4 4 r,
      td_title = safeRead (take 64 (drop 16 r)), td_description = safeRead (take 128 (drop 80 r)),
      td_hidden = (le_field 8 4 r :: u32) \<noteq> 0\<rparr>"

definition decode_TrophyState :: "u8 list \<Rightarrow> TrophyState" where
  "decode_TrophyState r =
     \<lparr>ts_trophyId = le_field 0 4 r, ts_unlocked = (le_field 4 4 r :: u32) \<noteq> 0,
      ts_unlockedAt = le_field 8 8 r\<rparr>"

text \<open>\<^verbatim>\<open>std::vector::resize\<close>.\<close>

definition resize :: "nat \<Rightarrow> 'a \<Rightarrow> 'a list \<Rightarrow> 'a list" where
  "resize n d xs = take n xs @ replicate (n - length xs) d"

text \<open>
  The loops that fill a resized vector with records read one after the other: they stop at the
  first record that is cut short.
\<close>

fun fill_records ::
  "u8 list \<Rightarrow> nat \<Rightarrow> (u8 list \<Rightarrow> 'a) \<Rightarrow> nat \<Rightarrow> nat \<Rightarrow> nat \<Rightarrow> 'a list \<Rightarrow> bool \<times> 'a list" where
  "fill_records bytes rec decode pos i 0 xs = (True, xs)"
| "fill_records bytes rec decode pos i (Suc n) xs =
     (case readAll bytes pos rec of
        None \<Rightarrow> (False, xs)
      | Some r \<Rightarrow> fill_records bytes rec decode (pos + rec) (Suc i) n (xs[i := decode r]))"

definition read_title :: "u64 \<Rightarrow> u8 list \<Rightarrow> TitleState \<Rightarrow> bool \<times> TitleState" where
  "read_title titleId bytes t =
     (case readAll bytes 0 sizeof_TrophyHeader of
        None \<Rightarrow> (False, t\<lparr>tt_loaded := True\<rparr>)
      | Some h \<Rightarrow>
          if le_field 0 4 h \<noteq> kTrophyMagic \<or> le_field 4 4 h \<noteq> kFormatVersion \<or> le_field 8 8 h \<noteq> titleId
          then (False, t\<lparr>tt_loaded := True\<rparr>)
          else
            (let nd = unat (le_field 16 4 h :: u32); ns = unat (le_field 20 4 h :: u32)
             in case fill_records bytes sizeof_TrophyDefRecord decode_TrophyDef sizeof_TrophyHeader 0 nd
                       (resize nd TrophyDef_new (tt_defs t)) of
                  (False, ds) \<Rightarrow> (False, t\<lparr>tt_defs := ds\<rparr>)
                | (True, ds) \<Rightarrow>
                    (case fill_records bytes sizeof_TrophyStateRecord decode_TrophyState
                            (sizeof_TrophyHeader + nd * sizeof_TrophyDefRecord) 0 ns
                            (resize ns TrophyState_new (tt_states t)) of
                       (False, ss) \<Rightarrow> (False, t\<lparr>tt_defs := ds, tt_states := ss\<rparr>)
                     | (True, ss) \<Rightarrow> (True, \<lparr>tt_defs = ds, tt_states = ss, tt_loaded = True\<rparr>))))"

text \<open>\<^verbatim>\<open>m_titles[titleId]\<close> inserts a default state.\<close>

definition title_at :: "u64 \<Rightarrow> PsnBackend \<Rightarrow> TitleState" where
  "title_at titleId b =
     (case um_find (pb_titles b) titleId of None \<Rightarrow> TitleState_new | Some t \<Rightarrow> t)"

definition set_title :: "u64 \<Rightarrow> TitleState \<Rightarrow> PsnBackend \<Rightarrow> PsnBackend" where
  "set_title titleId t b = b\<lparr>pb_titles := um_assign titleId t (pb_titles b)\<rparr>"

definition loadTrophies :: "u64 \<Rightarrow> PsnBackend \<Rightarrow> bool \<times> PsnBackend" where
  "loadTrophies titleId b =
     (let t = title_at titleId b
      in if tt_loaded t then (True, set_title titleId t b)
         else (case pb_files b (trophy_path b titleId) of
                 None \<Rightarrow> (True, set_title titleId (t\<lparr>tt_loaded := True\<rparr>) b)
               | Some bytes \<Rightarrow>
                   (case read_title titleId bytes t of (ok, t) \<Rightarrow> (ok, set_title titleId t b))))"

definition title_chunks :: "u64 \<Rightarrow> TitleState \<Rightarrow> u8 list list" where
  "title_chunks titleId t =
     TrophyHeader_bytes titleId t # map TrophyDefRecord_bytes (tt_defs t)
     @ map TrophyStateRecord_bytes (tt_states t)"

definition saveTrophies :: "psn_os \<Rightarrow> u64 \<Rightarrow> PsnBackend \<Rightarrow> PsnBackend" where
  "saveTrophies os titleId b =
     (case um_find (pb_titles b) titleId of
        None \<Rightarrow> b
      | Some t \<Rightarrow> write_file os (trophy_path b titleId) (title_chunks titleId t) b)"

definition reconcile :: "TrophyState list \<Rightarrow> TrophyDef list \<Rightarrow> TrophyState list" where
  "reconcile old defs =
     (let prior = fold (\<lambda>s m. um_assign (ts_trophyId s) (ts_unlocked s) m) old []
      in map (\<lambda>d. TrophyState_new\<lparr>ts_trophyId := td_trophyId d,
                ts_unlocked := (case um_find prior (td_trophyId d) of None \<Rightarrow> False | Some u \<Rightarrow> u)\<rparr>) defs)"

definition registerTitle :: "psn_os \<Rightarrow> u64 \<Rightarrow> TrophyDef list \<Rightarrow> PsnBackend \<Rightarrow> PsnBackend" where
  "registerTitle os titleId defs b =
     (let b = snd (loadTrophies titleId b);
          t = title_at titleId b
      in saveTrophies os titleId
           (set_title titleId (t\<lparr>tt_defs := defs, tt_states := reconcile (tt_states t) defs\<rparr>) b))"

definition isTrophyUnlocked :: "u64 \<Rightarrow> u32 \<Rightarrow> PsnBackend \<Rightarrow> bool" where
  "isTrophyUnlocked titleId trophyId b =
     (case um_find (pb_titles b) titleId of
        None \<Rightarrow> False
      | Some t \<Rightarrow> (case List.find (\<lambda>s. ts_trophyId s = trophyId) (tt_states t) of
                     None \<Rightarrow> False | Some s \<Rightarrow> ts_unlocked s))"

text \<open>The first state of that id, if it is still locked, is unlocked at the given time.\<close>

fun unlock_state :: "u64 \<Rightarrow> u32 \<Rightarrow> TrophyState list \<Rightarrow> TrophyState list option" where
  "unlock_state now trophyId [] = None"
| "unlock_state now trophyId (s # ss) =
     (if ts_trophyId s = trophyId
      then (if ts_unlocked s then None else Some (s\<lparr>ts_unlocked := True, ts_unlockedAt := now\<rparr> # ss))
      else map_option (\<lambda>ss'. s # ss') (unlock_state now trophyId ss))"

definition unlockTrophy :: "psn_os \<Rightarrow> u64 \<Rightarrow> u64 \<Rightarrow> u32 \<Rightarrow> PsnBackend \<Rightarrow> bool \<times> PsnBackend" where
  "unlockTrophy os now titleId trophyId b =
     (case um_find (pb_titles b) titleId of
        None \<Rightarrow> (False, b)
      | Some t \<Rightarrow>
          (case unlock_state now trophyId (tt_states t) of
             None \<Rightarrow> (False, b)
           | Some ss \<Rightarrow> (True, saveTrophies os titleId (set_title titleId (t\<lparr>tt_states := ss\<rparr>) b))))"

definition trophyStates :: "u64 \<Rightarrow> PsnBackend \<Rightarrow> TrophyState list" where
  "trophyStates titleId b =
     (case um_find (pb_titles b) titleId of None \<Rightarrow> [] | Some t \<Rightarrow> tt_states t)"

definition trophyDefs :: "u64 \<Rightarrow> PsnBackend \<Rightarrow> TrophyDef list" where
  "trophyDefs titleId b =
     (case um_find (pb_titles b) titleId of None \<Rightarrow> [] | Some t \<Rightarrow> tt_defs t)"

record TrophyCounts =
  tc_platinum :: u32
  tc_gold :: u32
  tc_silver :: u32
  tc_bronze :: u32

definition TrophyCounts_new :: TrophyCounts where
  "TrophyCounts_new = \<lparr>tc_platinum = 0, tc_gold = 0, tc_silver = 0, tc_bronze = 0\<rparr>"

definition count_grade :: "TrophyGrade \<Rightarrow> TrophyCounts \<Rightarrow> TrophyCounts" where
  "count_grade g c =
     (if g = GradePlatinum then c\<lparr>tc_platinum := tc_platinum c + 1\<rparr>
      else if g = GradeGold then c\<lparr>tc_gold := tc_gold c + 1\<rparr>
      else if g = GradeSilver then c\<lparr>tc_silver := tc_silver c + 1\<rparr>
      else if g = GradeBronze then c\<lparr>tc_bronze := tc_bronze c + 1\<rparr>
      else c)"

definition count_state :: "TrophyDef list \<Rightarrow> TrophyState \<Rightarrow> TrophyCounts \<Rightarrow> TrophyCounts" where
  "count_state defs s c =
     (if \<not> ts_unlocked s then c
      else (case List.find (\<lambda>d. td_trophyId d = ts_trophyId s) defs of
              None \<Rightarrow> c | Some d \<Rightarrow> count_grade (td_grade d) c))"

definition trophyCounts :: "u64 \<Rightarrow> PsnBackend \<Rightarrow> TrophyCounts" where
  "trophyCounts titleId b =
     (case um_find (pb_titles b) titleId of
        None \<Rightarrow> TrophyCounts_new
      | Some t \<Rightarrow> fold (count_state (tt_defs t)) (tt_states t) TrophyCounts_new)"

section \<open>Scores\<close>

definition score_path :: "PsnBackend \<Rightarrow> u32 \<Rightarrow> string" where
  "score_path b boardId = pb_accountDir b @ ''/scores/'' @ hex_name 8 boardId @ ''.dat''"

definition sizeof_ScoreHeader :: nat where "sizeof_ScoreHeader = 32"
definition sizeof_ScoreRecord :: nat where "sizeof_ScoreRecord = 88"

definition ScoreHeader_bytes :: "u32 \<Rightarrow> BoardState \<Rightarrow> u8 list" where
  "ScoreHeader_bytes boardId t =
     le_bytes 4 kScoreMagic @ le_bytes 4 kFormatVersion @ le_bytes 4 boardId
     @ le_bytes 4 (of_nat (length (bd_entries t)) :: u32) @ replicate 16 0"

definition ScoreRecord_bytes :: "ScoreEntry \<Rightarrow> u8 list" where
  "ScoreRecord_bytes e =
     le_bytes 8 (sc_score e) @ le_bytes 8 (sc_timestamp e) @ le_bytes 4 (sc_rank e)
     @ le_bytes 4 (0 :: u32) @ safeCopy 64 (sc_comment e)"

definition decode_Score :: "u32 \<Rightarrow> u8 list \<Rightarrow> ScoreEntry" where
  "decode_Score boardId r =
     \<lparr>sc_boardId = boardId, sc_score = le_field 0 8 r, sc_comment = safeRead (take 64 (drop 24 r)),
      sc_timestamp = le_field 8 8 r, sc_rank = le_field 16 4 r\<rparr>"

definition board_at :: "u32 \<Rightarrow> PsnBackend \<Rightarrow> BoardState" where
  "board_at boardId b =
     (case um_find (pb_boards b) boardId of None \<Rightarrow> BoardState_new | Some t \<Rightarrow> t)"

definition set_board :: "u32 \<Rightarrow> BoardState \<Rightarrow> PsnBackend \<Rightarrow> PsnBackend" where
  "set_board boardId t b = b\<lparr>pb_boards := um_assign boardId t (pb_boards b)\<rparr>"

definition read_board :: "u32 \<Rightarrow> u8 list \<Rightarrow> BoardState \<Rightarrow> bool \<times> BoardState" where
  "read_board boardId bytes t =
     (case readAll bytes 0 sizeof_ScoreHeader of
        None \<Rightarrow> (False, t\<lparr>bd_loaded := True\<rparr>)
      | Some h \<Rightarrow>
          if le_field 0 4 h \<noteq> kScoreMagic \<or> le_field 4 4 h \<noteq> kFormatVersion
          then (False, t\<lparr>bd_loaded := True\<rparr>)
          else
            (let n = unat (le_field 12 4 h :: u32)
             in case fill_records bytes sizeof_ScoreRecord (decode_Score boardId) sizeof_ScoreHeader 0 n
                       (resize n ScoreEntry_new (bd_entries t)) of
                  (False, es) \<Rightarrow> (False, t\<lparr>bd_entries := es\<rparr>)
                | (True, es) \<Rightarrow> (True, \<lparr>bd_entries = es, bd_loaded = True\<rparr>)))"

definition loadScores :: "u32 \<Rightarrow> PsnBackend \<Rightarrow> bool \<times> PsnBackend" where
  "loadScores boardId b =
     (let t = board_at boardId b
      in if bd_loaded t then (True, set_board boardId t b)
         else (case pb_files b (score_path b boardId) of
                 None \<Rightarrow> (True, set_board boardId (t\<lparr>bd_loaded := True\<rparr>) b)
               | Some bytes \<Rightarrow>
                   (case read_board boardId bytes t of (ok, t) \<Rightarrow> (ok, set_board boardId t b))))"

definition board_chunks :: "u32 \<Rightarrow> BoardState \<Rightarrow> u8 list list" where
  "board_chunks boardId t = ScoreHeader_bytes boardId t # map ScoreRecord_bytes (bd_entries t)"

definition saveScores :: "psn_os \<Rightarrow> u32 \<Rightarrow> PsnBackend \<Rightarrow> PsnBackend" where
  "saveScores os boardId b =
     (case um_find (pb_boards b) boardId of
        None \<Rightarrow> b
      | Some t \<Rightarrow> write_file os (score_path b boardId) (board_chunks boardId t) b)"

definition rank_entries :: "ScoreEntry list \<Rightarrow> ScoreEntry list" where
  "rank_entries es = map (\<lambda>i. (es ! i)\<lparr>sc_rank := of_nat (i + 1)\<rparr>) [0..<length es]"

text \<open>\<^verbatim>\<open>std::sort\<close> is a parameter, applied to the comparison and the range.\<close>

type_synonym sort_function = "(ScoreEntry \<Rightarrow> ScoreEntry \<Rightarrow> bool) \<Rightarrow> ScoreEntry list \<Rightarrow> ScoreEntry list"

definition score_before :: "ScoreEntry \<Rightarrow> ScoreEntry \<Rightarrow> bool" where
  "score_before a b \<longleftrightarrow> sc_score a > sc_score b"

definition submitScore ::
  "psn_os \<Rightarrow> sort_function \<Rightarrow> u64 \<Rightarrow> u32 \<Rightarrow> u64 \<Rightarrow> string \<Rightarrow> PsnBackend \<Rightarrow> PsnBackend" where
  "submitScore os std_sort now boardId score comment b =
     (let b = snd (loadScores boardId b);
          t = board_at boardId b;
          e = \<lparr>sc_boardId = boardId, sc_score = score, sc_comment = comment, sc_timestamp = now,
               sc_rank = 0\<rparr>
      in saveScores os boardId
           (set_board boardId (t\<lparr>bd_entries := rank_entries (std_sort score_before (bd_entries t @ [e]))\<rparr>) b))"

section \<open>Shutdown\<close>

definition psn_shutdown :: "psn_os \<Rightarrow> PsnBackend \<Rightarrow> PsnBackend" where
  "psn_shutdown os b =
     (let b = fold (\<lambda>(i, t) b. if tt_loaded t then saveTrophies os i b else b) (pb_titles b) b;
          b = fold (\<lambda>(i, t) b. if bd_loaded t then saveScores os i b else b) (pb_boards b) b
      in b\<lparr>pb_titles := [], pb_boards := [], pb_signedIn := False\<rparr>)"

end
