(* ===== verification/Psn_Safety.thy ===== *)
theory Psn_Safety
  imports Psn_Backend
begin

text \<open>
  What the network backend promises: files read back as they were written, score boards are kept
  sorted and ranked, and a trophy is unlocked once and for all, across re-registrations of the
  title and restarts of the runtime.
\<close>

section \<open>Records\<close>

lemma safeCopy_copyStr: "safeCopy cap s = copyStr cap s"
  by (simp add: safeCopy_def copyStr_def)

lemma safeRead_readStr: "safeRead f = readStr f"
  by (simp add: safeRead_def readStr_def)

lemma length_safeCopy [simp]: "0 < cap \<Longrightarrow> length (safeCopy cap s) = cap"
  by (simp add: safeCopy_copyStr)

lemma length_TrophyHeader [simp]: "length (TrophyHeader_bytes i t) = sizeof_TrophyHeader"
  by (simp add: TrophyHeader_bytes_def sizeof_TrophyHeader_def)

lemma length_TrophyDefRecord [simp]: "length (TrophyDefRecord_bytes d) = sizeof_TrophyDefRecord"
  by (simp add: TrophyDefRecord_bytes_def sizeof_TrophyDefRecord_def)

lemma length_TrophyStateRecord [simp]: "length (TrophyStateRecord_bytes s) = sizeof_TrophyStateRecord"
  by (simp add: TrophyStateRecord_bytes_def sizeof_TrophyStateRecord_def)

lemma decode_encode_state: "decode_TrophyState (TrophyStateRecord_bytes s) = s"
proof -
  have "(le_field 4 4 (TrophyStateRecord_bytes s) :: u32) = (if ts_unlocked s then 1 else 0)"
    by (rule le_field_le_bytes) (simp_all add: TrophyStateRecord_bytes_def)
  moreover have "(le_field 0 4 (TrophyStateRecord_bytes s) :: u32) = ts_trophyId s"
    "(le_field 8 8 (TrophyStateRecord_bytes s) :: u64) = ts_unlockedAt s"
    by (rule le_field_le_bytes; simp add: TrophyStateRecord_bytes_def)+
  ultimately show ?thesis by (simp add: decode_TrophyState_def)
qed

definition def_ok :: "TrophyDef \<Rightarrow> bool" where
  "def_ok d \<longleftrightarrow> field_ok 64 (td_title d) \<and> field_ok 128 (td_description d)"

lemma decode_encode_def:
  assumes "def_ok d"
  shows "decode_TrophyDef (TrophyDefRecord_bytes d) = d"
proof -
  let ?r = "TrophyDefRecord_bytes d"
  have "(le_field 0 4 ?r :: u32) = td_trophyId d" "(le_field 4 4 ?r :: u32) = td_grade d"
    by (rule le_field_le_bytes; simp add: TrophyDefRecord_bytes_def)+
  moreover have "(le_field 8 4 ?r :: u32) = (if td_hidden d then 1 else 0)"
    by (rule le_field_le_bytes) (simp_all add: TrophyDefRecord_bytes_def)
  moreover have "take 64 (drop 16 ?r) = safeCopy 64 (td_title d)"
    "take 128 (drop 80 ?r) = safeCopy 128 (td_description d)"
    by (simp_all add: TrophyDefRecord_bytes_def)
  ultimately show ?thesis
    using assms by (simp add: decode_TrophyDef_def def_ok_def safeCopy_copyStr safeRead_readStr readStr_copyStr)
qed

section \<open>Reading what was written\<close>

lemma readAll_at:
  assumes "drop pos bytes = r @ rest" and "length r = n" and "0 < n"
  shows "readAll bytes pos n = Some r"
proof -
  have "length bytes - pos = n + length rest" using arg_cong [OF assms(1), of length] assms(2) by simp
  with assms(3) have "pos + n \<le> length bytes" by simp
  then show ?thesis using assms(1,2) by (simp add: readAll_def)
qed

lemma fill_records_all:
  assumes "drop pos bytes = concat (map enc ys) @ rest" and "\<And>y. length (enc y) = rec"
    and "0 < rec" and "i + length ys \<le> length xs"
  shows "fill_records bytes rec dec pos i (length ys) xs
    = (True, take i xs @ map (\<lambda>y. dec (enc y)) ys @ drop (i + length ys) xs)"
  using assms(1,4)
proof (induction ys arbitrary: pos i xs)
  case Nil
  then show ?case by simp
next
  case (Cons y ys)
  have r: "readAll bytes pos rec = Some (enc y)"
    using readAll_at [of pos bytes "enc y"] Cons.prems(1) assms(2,3) by simp
  have "drop (pos + rec) bytes = drop rec (drop pos bytes)" by (simp add: add.commute)
  then have d: "drop (pos + rec) bytes = concat (map enc ys) @ rest"
    using Cons.prems(1) assms(2) by simp
  have "fill_records bytes rec dec (pos + rec) (Suc i) (length ys) (xs[i := dec (enc y)])
      = (True, take (Suc i) (xs[i := dec (enc y)]) @ map (\<lambda>y. dec (enc y)) ys
           @ drop (Suc i + length ys) (xs[i := dec (enc y)]))"
    using Cons.prems(2) by (intro Cons.IH [OF d]) simp
  also have "take (Suc i) (xs[i := dec (enc y)]) = take i xs @ [dec (enc y)]"
    using Cons.prems(2) by (simp add: take_Suc_conv_app_nth)
  finally show ?case using r by simp
qed

lemma length_resize [simp]: "length (resize n d xs) = n"
  by (simp add: resize_def)

lemma fill_resized:
  assumes "drop pos bytes = concat (map enc ys) @ rest" and "\<And>y. length (enc y) = rec" and "0 < rec"
  shows "fill_records bytes rec dec pos 0 (length ys) (resize (length ys) d xs)
    = (True, map (\<lambda>y. dec (enc y)) ys)"
  using fill_records_all [OF assms, of 0 "resize (length ys) d xs" dec] by simp

lemma unat_of_nat_u32: "n < 2 ^ 32 \<Longrightarrow> unat (of_nat n :: u32) = n"
  by (simp add: unat_of_nat take_bit_nat_eq_self)

definition sizes_ok :: "TitleState \<Rightarrow> bool" where
  "sizes_ok t \<longleftrightarrow> length (tt_defs t) < 2 ^ 32 \<and> length (tt_states t) < 2 ^ 32"

definition title_file :: "u64 \<Rightarrow> TitleState \<Rightarrow> u8 list" where
  "title_file i t = concat (title_chunks i t)"

lemma read_title_file:
  assumes "sizes_ok t"
  shows "read_title i (title_file i t) t0
    = (True, \<lparr>tt_defs = map (\<lambda>d. decode_TrophyDef (TrophyDefRecord_bytes d)) (tt_defs t),
              tt_states = tt_states t, tt_loaded = True\<rparr>)"
proof -
  let ?f = "title_file i t" and ?h = "TrophyHeader_bytes i t"
  have f: "?f = ?h @ concat (map TrophyDefRecord_bytes (tt_defs t))
      @ concat (map TrophyStateRecord_bytes (tt_states t))"
    by (simp add: title_file_def title_chunks_def)
  have h: "readAll ?f 0 sizeof_TrophyHeader = Some ?h"
    by (rule readAll_at [where rest = "concat (map TrophyDefRecord_bytes (tt_defs t))
      @ concat (map TrophyStateRecord_bytes (tt_states t))"]) (simp_all add: f sizeof_TrophyHeader_def)
  have fld: "(le_field 0 4 ?h :: u32) = kTrophyMagic" "(le_field 4 4 ?h :: u32) = kFormatVersion"
    "(le_field 8 8 ?h :: u64) = i" "(le_field 16 4 ?h :: u32) = of_nat (length (tt_defs t))"
    "(le_field 20 4 ?h :: u32) = of_nat (length (tt_states t))"
    by (rule le_field_le_bytes; simp add: TrophyHeader_bytes_def)+
  have n: "unat (of_nat (length (tt_defs t)) :: u32) = length (tt_defs t)"
    "unat (of_nat (length (tt_states t)) :: u32) = length (tt_states t)"
    using assms by (simp_all only: sizes_ok_def unat_of_nat_u32)
  have d1: "fill_records ?f sizeof_TrophyDefRecord decode_TrophyDef sizeof_TrophyHeader 0 (length (tt_defs t))
      (resize (length (tt_defs t)) TrophyDef_new (tt_defs t0))
      = (True, map (\<lambda>d. decode_TrophyDef (TrophyDefRecord_bytes d)) (tt_defs t))"
    by (rule fill_resized) (simp_all add: f sizeof_TrophyDefRecord_def)
  have len: "length (concat (map TrophyDefRecord_bytes (tt_defs t))) = length (tt_defs t) * sizeof_TrophyDefRecord"
    by (induction "tt_defs t" rule: list.induct) (simp_all add: length_concat comp_def sum_list_triv)
  have d2: "fill_records ?f sizeof_TrophyStateRecord decode_TrophyState
      (sizeof_TrophyHeader + length (tt_defs t) * sizeof_TrophyDefRecord) 0 (length (tt_states t))
      (resize (length (tt_states t)) TrophyState_new (tt_states t0))
      = (True, map (\<lambda>s. decode_TrophyState (TrophyStateRecord_bytes s)) (tt_states t))"
    by (rule fill_resized [where rest = "[]"]) (simp_all add: f len sizeof_TrophyStateRecord_def)
  show ?thesis
    unfolding read_title_def
    by (simp add: h fld n d1 d2 decode_encode_state)
qed

section \<open>File names\<close>

lemma hex_char_inj: "i < 16 \<Longrightarrow> j < 16 \<Longrightarrow> hex_char i = hex_char j \<longleftrightarrow> i = j"
proof -
  assume ij: "i < 16" "j < 16"
  have "distinct ''0123456789abcdef''" "length ''0123456789abcdef'' = 16" by simp_all
  with ij show ?thesis unfolding hex_char_def by (metis nth_eq_iff_index_eq)
qed

lemma nibble_less: "unat (w AND 0xF :: 'a::len word) < 16"
proof -
  have "w AND 0xF = take_bit 4 w" by (simp add: take_bit_eq_mask mask_eq_exp_minus_1)
  then have "unat (w AND 0xF) = take_bit 4 (unat w)" by (simp add: unsigned_take_bit_eq)
  then show ?thesis by (simp add: take_bit_eq_mod)
qed

lemma hex_name_inj:
  fixes v w :: "'a::len word"
  assumes "hex_name k v = hex_name k w" and "LENGTH('a) = 4 * k"
  shows "v = w"
proof (rule bit_word_eqI)
  fix n assume n: "n < LENGTH('a)"
  define j where "j = n div 4"
  have j: "j < k" "n = 4 * j + n mod 4" using n assms(2) by (auto simp: j_def)
  let ?i = "k - 1 - j"
  have "hex_name k v ! ?i = hex_name k w ! ?i" using assms(1) by simp
  moreover have "hex_name k x ! ?i = hex_char (unat (drop_bit (4 * j) x AND 0xF))" for x :: "'a word"
    using j(1) by (simp add: hex_name_def)
  ultimately have "unat (drop_bit (4 * j) v AND 0xF) = unat (drop_bit (4 * j) w AND 0xF)"
    using hex_char_inj nibble_less by metis
  then have e: "drop_bit (4 * j) v AND 0xF = drop_bit (4 * j) w AND 0xF"
    by (simp only: word_unat_eq_iff)
  have "bit (drop_bit (4 * j) x AND 0xF) (n mod 4) = bit x n" for x :: "'a word"
  proof -
    have "drop_bit (4 * j) x AND 0xF = take_bit 4 (drop_bit (4 * j) x)"
      by (simp add: take_bit_eq_mask mask_eq_exp_minus_1)
    then show ?thesis using j(2) by (simp add: bit_simps)
  qed
  with e show "bit v n = bit w n" by metis
qed

lemma trophy_path_inj: "trophy_path b i = trophy_path b j \<longleftrightarrow> i = j"
  using hex_name_inj [of 16 i j] by (auto simp: trophy_path_def)

lemma paths_differ [simp]:
  "score_path b k \<noteq> trophy_path b i" "account_path b \<noteq> trophy_path b i"
  by (simp_all add: score_path_def trophy_path_def account_path_def)

lemma trophy_path_cong: "pb_accountDir b = pb_accountDir c \<Longrightarrow> trophy_path b i = trophy_path c i"
  by (simp add: trophy_path_def)

section \<open>Invariant\<close>

definition honest :: "psn_os \<Rightarrow> bool" where
  "honest os \<longleftrightarrow> (\<forall>p. po_writable os p) \<and> (\<forall>p cs. po_written os p cs = concat cs)"

definition title_ok :: "TitleState \<Rightarrow> bool" where
  "title_ok t \<longleftrightarrow> sizes_ok t \<and> distinct (map ts_trophyId (tt_states t))"

text \<open>
  A title has no file and no state in memory, or its file is the image of a well-formed state,
  which is the one in memory when there is one.
\<close>

definition title_inv :: "PsnBackend \<Rightarrow> u64 \<Rightarrow> bool" where
  "title_inv b i \<longleftrightarrow>
     (case pb_files b (trophy_path b i) of
        None \<Rightarrow> um_find (pb_titles b) i = None
      | Some bytes \<Rightarrow> (\<exists>t. title_ok t \<and> bytes = title_file i t
          \<and> (case um_find (pb_titles b) i of None \<Rightarrow> True | Some u \<Rightarrow> u = t \<and> tt_loaded t)))"

definition psn_inv :: "PsnBackend \<Rightarrow> bool" where
  "psn_inv b \<longleftrightarrow> um_ok (pb_titles b) \<and> (\<forall>i. title_inv b i)"

text \<open>The unlock state of a trophy that the next registration of the title will see.\<close>

definition unlocked_in :: "TrophyState list \<Rightarrow> u32 \<Rightarrow> bool" where
  "unlocked_in ss k \<longleftrightarrow> (\<exists>s\<in>set ss. ts_trophyId s = k \<and> ts_unlocked s)"

definition durable :: "PsnBackend \<Rightarrow> u64 \<Rightarrow> u32 \<Rightarrow> bool" where
  "durable b i k \<longleftrightarrow>
     (case pb_files b (trophy_path b i) of
        None \<Rightarrow> False
      | Some bytes \<Rightarrow> unlocked_in (tt_states (snd (read_title i bytes TitleState_new))) k)"

lemma durable_memory:
  assumes "psn_inv b" and "um_find (pb_titles b) i = Some t"
  shows "durable b i k \<longleftrightarrow> unlocked_in (tt_states t) k" and "title_ok t" and "tt_loaded t"
    and "pb_files b (trophy_path b i) = Some (title_file i t)"
proof -
  have "title_inv b i" using assms(1) by (simp add: psn_inv_def)
  then have t: "title_ok t" "tt_loaded t" "pb_files b (trophy_path b i) = Some (title_file i t)"
    using assms(2) by (auto simp: title_inv_def split: option.splits)
  then show "title_ok t" "tt_loaded t" "pb_files b (trophy_path b i) = Some (title_file i t)" by auto
  show "durable b i k \<longleftrightarrow> unlocked_in (tt_states t) k"
    using t by (simp add: durable_def read_title_file title_ok_def)
qed

text \<open>Writing the state of one title, as \<^verbatim>\<open>saveTrophies\<close> does after a change in memory.\<close>

lemma save_title:
  assumes "honest os" and "um_ok (pb_titles b)"
    and others: "\<And>j. j \<noteq> i \<Longrightarrow> title_inv b j" and t: "title_ok t" "tt_loaded t"
    and b': "b' = saveTrophies os i (set_title i t b)"
  shows "psn_inv b'" and "um_find (pb_titles b') i = Some t" and "pb_accountDir b' = pb_accountDir b"
    and "j \<noteq> i \<Longrightarrow> durable b' j k = durable b j k"
proof -
  have e: "b' = (set_title i t b)\<lparr>pb_files := (pb_files b)(trophy_path b i \<mapsto> title_file i t)\<rparr>"
    using assms(1)
    by (simp add: b' saveTrophies_def set_title_def um_simps write_file_def honest_def title_file_def trophy_path_def)
  then have dir: "pb_accountDir b' = pb_accountDir b" by (simp add: set_title_def)
  then show "pb_accountDir b' = pb_accountDir b" .
  note tp = trophy_path_cong [OF dir]
  have fl: "pb_files b' (trophy_path b' j) =
      (if j = i then Some (title_file i t) else pb_files b (trophy_path b j))" for j
    by (simp add: e tp [unfolded e] trophy_path_inj)
  have fd: "um_find (pb_titles b') j = (if j = i then Some t else um_find (pb_titles b) j)" for j
    by (simp add: e set_title_def um_simps)
  show "um_find (pb_titles b') i = Some t" by (simp add: fd)
  have "title_inv b' j" for j
    using others [of j] t by (cases "j = i") (auto simp: title_inv_def fl fd split: option.splits)
  moreover have "um_ok (pb_titles b')" using assms(2) by (simp add: e set_title_def um_oks)
  ultimately show "psn_inv b'" by (simp add: psn_inv_def)
  show "durable b' j k = durable b j k" if "j \<noteq> i" using that by (simp add: durable_def fl)
qed

section \<open>Operations\<close>

text \<open>The map of previous unlock flags, when the ids are distinct.\<close>

lemma prior_find:
  assumes "distinct (map ts_trophyId ss)"
  shows "um_find (fold (\<lambda>s m. um_assign (ts_trophyId s) (ts_unlocked s) m) ss m0) k
    = (case List.find (\<lambda>s. ts_trophyId s = k) ss of None \<Rightarrow> um_find m0 k | Some s \<Rightarrow> Some (ts_unlocked s))"
  using assms
proof (induction ss arbitrary: m0)
  case (Cons s ss)
  show ?case
  proof (cases "ts_trophyId s = k")
    case True
    then have "List.find (\<lambda>s. ts_trophyId s = k) ss = None"
      using Cons.prems by (auto simp: find_None_iff) (metis imageI)
    with Cons True show ?thesis by (simp add: um_simps)
  next
    case False
    with Cons show ?thesis by (simp add: um_simps split: option.split)
  qed
qed simp

lemma reconcile_unlocked:
  assumes "distinct (map ts_trophyId old)" and "k \<in> td_trophyId ` set defs" and "unlocked_in old k"
  shows "unlocked_in (reconcile old defs) k"
proof -
  obtain d where d: "d \<in> set defs" "td_trophyId d = k" using assms(2) by auto
  obtain s where s: "s \<in> set old" "ts_trophyId s = k" "ts_unlocked s"
    using assms(3) by (auto simp: unlocked_in_def)
  then obtain s' where f: "List.find (\<lambda>s. ts_trophyId s = k) old = Some s'"
    by (metis (mono_tags, lifting) find_None_iff not_None_eq)
  then have "s' \<in> set old" "ts_trophyId s' = k"
    by (auto simp: find_Some_iff in_set_conv_nth)
  then have "s' = s" using assms(1) s by (metis distinct_map inj_onD)
  with f s have "um_find (fold (\<lambda>s m. um_assign (ts_trophyId s) (ts_unlocked s) m) old []) k = Some True"
    by (simp add: prior_find [OF assms(1)])
  then show ?thesis
    unfolding unlocked_in_def reconcile_def Let_def using d by (auto intro!: bexI [OF _ d(1)])
qed

lemma reconcile_ids: "map ts_trophyId (reconcile old defs) = map td_trophyId defs"
  by (simp add: reconcile_def Let_def comp_def)

definition defs_ok :: "TrophyDef list \<Rightarrow> bool" where
  "defs_ok defs \<longleftrightarrow> distinct (map td_trophyId defs) \<and> length defs < 2 ^ 32"

lemma load_title:
  assumes "psn_inv b"
  shows "\<exists>t. snd (loadTrophies i b) = set_title i t b \<and> tt_loaded t
    \<and> distinct (map ts_trophyId (tt_states t)) \<and> (\<forall>k. durable b i k \<longleftrightarrow> unlocked_in (tt_states t) k)"
proof (cases "um_find (pb_titles b) i")
  case (Some t)
  note m = durable_memory [OF assms Some]
  then show ?thesis
    using Some by (intro exI [of _ t]) (simp add: loadTrophies_def title_at_def Let_def title_ok_def)
next
  case None
  have inv: "title_inv b i" using assms by (simp add: psn_inv_def)
  show ?thesis
  proof (cases "pb_files b (trophy_path b i)")
    case f: None
    then show ?thesis
      using None
      by (intro exI [of _ "TitleState_new\<lparr>tt_loaded := True\<rparr>"])
        (simp add: loadTrophies_def title_at_def Let_def TitleState_new_def durable_def unlocked_in_def)
  next
    case f: (Some bytes)
    then obtain t where t: "title_ok t" "bytes = title_file i t"
      using inv by (auto simp: title_inv_def)
    then have r: "read_title i bytes t0
        = (True, \<lparr>tt_defs = map (\<lambda>d. decode_TrophyDef (TrophyDefRecord_bytes d)) (tt_defs t),
                  tt_states = tt_states t, tt_loaded = True\<rparr>)" for t0
      by (simp add: read_title_file title_ok_def)
    show ?thesis
      using None f r t(1)
      by (intro exI [of _ "\<lparr>tt_defs = map (\<lambda>d. decode_TrophyDef (TrophyDefRecord_bytes d)) (tt_defs t),
            tt_states = tt_states t, tt_loaded = True\<rparr>"])
        (simp add: loadTrophies_def title_at_def Let_def TitleState_new_def durable_def title_ok_def)
  qed
qed

lemma set_title_twice: "set_title i t (set_title i u b) = set_title i t b"
  by (simp add: set_title_def um_assign_def update_triv)

lemma register_title:
  assumes "honest os" and "psn_inv b" and "defs_ok defs" and b': "b' = registerTitle os i defs b"
  shows "psn_inv b'" and "pb_accountDir b' = pb_accountDir b"
    and "j \<noteq> i \<or> k \<in> td_trophyId ` set defs \<Longrightarrow> durable b j k \<Longrightarrow> durable b' j k"
    and "\<exists>t. um_find (pb_titles b') i = Some t"
proof -
  obtain u where u: "snd (loadTrophies i b) = set_title i u b" "tt_loaded u"
    "distinct (map ts_trophyId (tt_states u))" "\<And>k. durable b i k \<longleftrightarrow> unlocked_in (tt_states u) k"
    using load_title [OF assms(2)] by blast
  define t where "t = u\<lparr>tt_defs := defs, tt_states := reconcile (tt_states u) defs\<rparr>"
  have e: "b' = saveTrophies os i (set_title i t b)"
  proof -
    have "title_at i (set_title i u b) = u" by (simp add: title_at_def set_title_def um_simps)
    then show ?thesis by (simp add: b' registerTitle_def u(1) Let_def t_def set_title_twice)
  qed
  have len: "length (reconcile (tt_states u) defs) = length defs" by (simp add: reconcile_def Let_def)
  have tok: "title_ok t" "tt_loaded t"
    using assms(3) u(2) len
    by (simp_all add: title_ok_def sizes_ok_def t_def defs_ok_def reconcile_ids)
  have oth: "title_inv b j" for j using assms(2) by (simp add: psn_inv_def)
  have ok: "um_ok (pb_titles b)" using assms(2) by (simp add: psn_inv_def)
  note sv = save_title [OF assms(1) ok oth tok e]
  show inv': "psn_inv b'" and "pb_accountDir b' = pb_accountDir b" by (rule sv)+
  show "\<exists>t. um_find (pb_titles b') i = Some t" using sv(2) by blast
  show "durable b' j k" if "j \<noteq> i \<or> k \<in> td_trophyId ` set defs" "durable b j k"
  proof (cases "j = i")
    case True
    with that have "unlocked_in (tt_states t) k"
      unfolding t_def using reconcile_unlocked [OF u(3)] u(4) by auto
    then show ?thesis using durable_memory(1) [OF inv' sv(2)] True by simp
  next
    case False
    with sv(4) that show ?thesis by simp
  qed
qed

lemma unlocked_in_simps [simp]:
  "\<not> unlocked_in [] k"
  "unlocked_in (s # ss) k \<longleftrightarrow> ts_trophyId s = k \<and> ts_unlocked s \<or> unlocked_in ss k"
  by (auto simp: unlocked_in_def)

lemma unlock_state_Some:
  assumes "unlock_state now k ss = Some ss'"
  shows "map ts_trophyId ss' = map ts_trophyId ss" and "unlocked_in ss' k"
    and "unlocked_in ss m \<Longrightarrow> unlocked_in ss' m"
proof -
  have "map ts_trophyId ss' = map ts_trophyId ss \<and> unlocked_in ss' k
      \<and> (unlocked_in ss m \<longrightarrow> unlocked_in ss' m)"
    using assms by (induction ss arbitrary: ss') (auto split: if_splits)
  then show "map ts_trophyId ss' = map ts_trophyId ss" "unlocked_in ss' k"
    "unlocked_in ss m \<Longrightarrow> unlocked_in ss' m" by blast+
qed

lemma unlocked_in_id: "unlocked_in ss k \<Longrightarrow> k \<in> ts_trophyId ` set ss"
  by (auto simp: unlocked_in_def)

lemma unlock_state_None:
  "distinct (map ts_trophyId ss) \<Longrightarrow> unlocked_in ss k \<Longrightarrow> unlock_state now k ss = None"
  by (induction ss) (auto dest: unlocked_in_id)

lemma unlock_trophy:
  assumes "honest os" and "psn_inv b" and r: "unlockTrophy os now i k b = (ok, b')"
  shows "psn_inv b'" and "pb_accountDir b' = pb_accountDir b"
    and "durable b j m \<Longrightarrow> durable b' j m" and "ok \<Longrightarrow> durable b' i k"
proof -
  have "psn_inv b' \<and> pb_accountDir b' = pb_accountDir b
    \<and> (\<forall>j m. durable b j m \<longrightarrow> durable b' j m) \<and> (ok \<longrightarrow> durable b' i k)"
  proof (cases "um_find (pb_titles b) i")
    case None
    then show ?thesis using r assms(2) by (simp add: unlockTrophy_def)
  next
    case (Some t)
    note mem = durable_memory [OF assms(2) Some]
    show ?thesis
    proof (cases "unlock_state now k (tt_states t)")
      case None
      then show ?thesis using r assms(2) Some by (simp add: unlockTrophy_def)
    next
      case ss: (Some ss)
      let ?t = "t\<lparr>tt_states := ss\<rparr>"
      note us = unlock_state_Some [OF ss]
      have "length ss = length (tt_states t)" using us(1) by (metis length_map)
      then have tok: "title_ok ?t" "tt_loaded ?t"
        using mem(2,3) us(1) by (simp_all add: title_ok_def sizes_ok_def)
      have ok': "ok" and e: "b' = saveTrophies os i (set_title i ?t b)"
        using r Some ss by (auto simp: unlockTrophy_def)
      have oth: "title_inv b j" for j using assms(2) by (simp add: psn_inv_def)
      have uok: "um_ok (pb_titles b)" using assms(2) by (simp add: psn_inv_def)
      note sv = save_title [OF assms(1) uok oth tok e]
      have "durable b' j m" if "durable b j m" for j m
      proof (cases "j = i")
        case True
        then show ?thesis using durable_memory(1) [OF sv(1,2)] mem(1) us(3) that by simp
      next
        case False
        then show ?thesis using sv(4) that by simp
      qed
      moreover have "durable b' i k" using durable_memory(1) [OF sv(1,2)] us(2) by simp
      ultimately show ?thesis using sv(1,3) by blast
    qed
  qed
  then show "psn_inv b'" "pb_accountDir b' = pb_accountDir b"
    "durable b j m \<Longrightarrow> durable b' j m" "ok \<Longrightarrow> durable b' i k" by blast+
qed

text \<open>An operation that leaves the titles and the trophy files alone.\<close>

lemma same_trophies:
  assumes "psn_inv b" and "pb_titles b' = pb_titles b" and "pb_accountDir b' = pb_accountDir b"
    and "\<And>i. pb_files b' (trophy_path b i) = pb_files b (trophy_path b i)"
  shows "psn_inv b'" and "durable b' i k = durable b i k"
proof -
  have "title_inv b' = title_inv b"
    unfolding fun_eq_iff title_inv_def assms(2) trophy_path_cong [OF assms(3)] assms(4) by simp
  then show "psn_inv b'" using assms(1) by (simp add: psn_inv_def assms(2))
  show "durable b' i k = durable b i k"
    by (simp add: durable_def trophy_path_cong [OF assms(3)] assms(4))
qed

lemma write_file_score:
  "pb_titles (write_file os (score_path c k) cs b) = pb_titles b"
  "pb_accountDir (write_file os (score_path c k) cs b) = pb_accountDir b"
  "pb_accountDir c = pb_accountDir b
     \<Longrightarrow> pb_files (write_file os (score_path c k) cs b) (trophy_path b i) = pb_files b (trophy_path b i)"
  using paths_differ(1) [of c k i] trophy_path_cong [of c b i]
  by (auto simp: write_file_def)

lemma loadScores_frame:
  "pb_titles (snd (loadScores k b)) = pb_titles b" "pb_accountDir (snd (loadScores k b)) = pb_accountDir b"
  "pb_files (snd (loadScores k b)) = pb_files b"
  by (auto simp: loadScores_def Let_def set_board_def split: option.split prod.split)

lemma saveScores_frame:
  "pb_titles (saveScores os k b) = pb_titles b" "pb_accountDir (saveScores os k b) = pb_accountDir b"
  "pb_boards (saveScores os k b) = pb_boards b"
  "pb_files (saveScores os k b) (trophy_path b i) = pb_files b (trophy_path b i)"
  using write_file_score(3) [of b b]
  by (auto simp: saveScores_def write_file_def split: option.split)

lemma submit_score:
  assumes "psn_inv b" and "b' = submitScore os sorter now k score comment b"
  shows "psn_inv b'" and "pb_accountDir b' = pb_accountDir b" and "durable b' i m = durable b i m"
proof -
  let ?t = "board_at k (snd (loadScores k b))"
  let ?e = "\<lparr>sc_boardId = k, sc_score = score, sc_comment = comment, sc_timestamp = now, sc_rank = 0\<rparr>"
  let ?c = "set_board k (?t\<lparr>bd_entries := rank_entries (sorter score_before (bd_entries ?t @ [?e]))\<rparr>) (snd (loadScores k b))"
  have b': "b' = saveScores os k ?c" by (simp add: assms(2) submitScore_def Let_def)
  have c: "pb_titles ?c = pb_titles b" "pb_accountDir ?c = pb_accountDir b" "pb_files ?c = pb_files b"
    by (simp_all add: set_board_def loadScores_frame)
  have d: "pb_titles b' = pb_titles b" "pb_accountDir b' = pb_accountDir b"
    "pb_files b' (trophy_path b i) = pb_files b (trophy_path b i)" for i
    using saveScores_frame [of os k ?c] c trophy_path_cong [OF c(2)] by (simp_all add: b')
  show "psn_inv b'" "durable b' i m = durable b i m" by (rule same_trophies [OF assms(1) d])+
  show "pb_accountDir b' = pb_accountDir b" by (rule d)
qed

section \<open>Restarting\<close>

text \<open>Saving a title that is in memory changes nothing: its file has that content already.\<close>

lemma save_again:
  assumes "honest os" and "psn_inv b"
  shows "saveTrophies os i b = b"
proof (cases "um_find (pb_titles b) i")
  case None
  then show ?thesis by (simp add: saveTrophies_def)
next
  case (Some t)
  with durable_memory(4) [OF assms(2) Some] assms(1) show ?thesis
    by (simp add: saveTrophies_def write_file_def honest_def title_file_def fun_upd_idem)
qed

lemma save_titles_again:
  assumes "honest os" and "psn_inv b"
  shows "fold (\<lambda>(i, t) b. if tt_loaded t then saveTrophies os i b else b) ts b = b"
  by (induction ts) (auto simp: save_again [OF assms])

lemma save_boards_frame:
  "pb_titles (fold (\<lambda>(i, t) b. if bd_loaded t then saveScores os i b else b) bs b) = pb_titles b
   \<and> pb_accountDir (fold (\<lambda>(i, t) b. if bd_loaded t then saveScores os i b else b) bs b) = pb_accountDir b
   \<and> pb_files (fold (\<lambda>(i, t) b. if bd_loaded t then saveScores os i b else b) bs b) (trophy_path b i)
     = pb_files b (trophy_path b i)"
proof (induction bs arbitrary: b)
  case (Cons x bs)
  obtain j t where x: "x = (j, t)" by force
  let ?c = "if bd_loaded t then saveScores os j b else b"
  have "pb_titles ?c = pb_titles b" "pb_accountDir ?c = pb_accountDir b"
    "pb_files ?c (trophy_path b i) = pb_files b (trophy_path b i)"
    by (simp_all add: saveScores_frame)
  with Cons [of ?c] trophy_path_cong [of ?c b i] show ?case by (simp add: x)
qed simp

text \<open>A restart: shut down, and start again on the same files and account.\<close>

definition psn_restart :: "psn_os \<Rightarrow> string \<Rightarrow> string \<Rightarrow> PsnBackend \<Rightarrow> PsnBackend" where
  "psn_restart os root onlineId b =
     snd (psn_initialize os root onlineId (PsnBackend_new (pb_files (psn_shutdown os b))))"

lemma shutdown_files:
  assumes "honest os" and "psn_inv b"
  shows "pb_files (psn_shutdown os b) (trophy_path b i) = pb_files b (trophy_path b i)"
  using save_boards_frame [of os "pb_boards b" b i]
  by (simp add: psn_shutdown_def Let_def save_titles_again [OF assms])

lemma initialize_frame:
  assumes "c = PsnBackend_new fs" and "c' = snd (psn_initialize os root onlineId c)"
  shows "pb_titles c' = []" and "pb_accountDir c' = root @ ''/'' @ onlineId"
    and "pb_files c' (trophy_path c' i) = fs (trophy_path c' i)"
proof -
  have dir: "pb_accountDir c' = root @ ''/'' @ onlineId" and tl: "pb_titles c' = []"
    by (auto simp: assms psn_initialize_def PsnBackend_new_def Let_def loadAccount_def saveAccount_def
        write_file_def split: option.splits if_splits)
  then show "pb_titles c' = []" "pb_accountDir c' = root @ ''/'' @ onlineId" by auto
  let ?acc = "root @ ''/'' @ onlineId @ ''/account.dat''"
  have "pb_files c' p = fs p" if "p \<noteq> ?acc" for p
    using that
    by (auto simp: assms psn_initialize_def PsnBackend_new_def Let_def loadAccount_def saveAccount_def
        write_file_def account_path_def split: option.splits if_splits)
  moreover have "trophy_path c' i \<noteq> ?acc" by (simp add: trophy_path_def dir)
  ultimately show "pb_files c' (trophy_path c' i) = fs (trophy_path c' i)" by blast
qed

lemma restart_keeps:
  assumes "honest os" and "psn_inv b" and "pb_accountDir b = root @ ''/'' @ onlineId"
    and b': "b' = psn_restart os root onlineId b"
  shows "psn_inv b'" and "pb_accountDir b' = pb_accountDir b" and "durable b' i k = durable b i k"
proof -
  note fr = initialize_frame [OF refl b' [unfolded psn_restart_def]]
  show dir: "pb_accountDir b' = pb_accountDir b" using fr(2) assms(3) by simp
  have fl: "pb_files b' (trophy_path b' i) = pb_files b (trophy_path b i)" for i
    using fr(3) shutdown_files [OF assms(1,2)] trophy_path_cong [OF dir] by simp
  have "title_inv b' i" for i
  proof -
    have "title_inv b i" using assms(2) by (simp add: psn_inv_def)
    then show ?thesis
      by (cases "pb_files b (trophy_path b i)") (auto simp: title_inv_def fl fr(1) um_simps)
  qed
  then show "psn_inv b'" by (simp add: psn_inv_def fr(1) um_oks)
  show "durable b' i k = durable b i k" by (simp add: durable_def fl)
qed

section \<open>Runs\<close>

datatype psn_op =
    PRegister u64 "TrophyDef list"
  | PUnlock u64 u64 u32
  | PSubmit u64 u32 u64 string
  | PRestart

fun psn_step ::
  "psn_os \<Rightarrow> sort_function \<Rightarrow> string \<Rightarrow> string \<Rightarrow> psn_op \<Rightarrow> PsnBackend \<Rightarrow> PsnBackend" where
  "psn_step os sorter root onl (PRegister i defs) b = registerTitle os i defs b"
| "psn_step os sorter root onl (PUnlock now i k) b = snd (unlockTrophy os now i k b)"
| "psn_step os sorter root onl (PSubmit now k score comment) b = submitScore os sorter now k score comment b"
| "psn_step os sorter root onl PRestart b = psn_restart os root onl b"

text \<open>Titles register with distinct ids, and the title in question always with the trophy in question.\<close>

fun op_keeps :: "u64 \<Rightarrow> u32 \<Rightarrow> psn_op \<Rightarrow> bool" where
  "op_keeps i k (PRegister j defs) \<longleftrightarrow> defs_ok defs \<and> (j = i \<longrightarrow> k \<in> td_trophyId ` set defs)"
| "op_keeps i k _ = True"

lemma step_keeps:
  assumes "honest os" and "psn_inv b" and "pb_accountDir b = root @ ''/'' @ onl" and "op_keeps i k oper"
    and "b' = psn_step os sorter root onl oper b"
  shows "psn_inv b' \<and> pb_accountDir b' = pb_accountDir b \<and> (durable b i k \<longrightarrow> durable b' i k)"
proof (cases oper)
  case (PRegister j defs)
  then have d: "defs_ok defs" and b': "b' = registerTitle os j defs b" using assms(4,5) by simp_all
  show ?thesis
    using register_title(1,2) [OF assms(1,2) d b'] register_title(3) [OF assms(1,2) d b', of i k]
      assms(4) PRegister by auto
next
  case (PUnlock now j m)
  obtain ok c where u: "unlockTrophy os now j m b = (ok, c)" by force
  with PUnlock assms(5) have "b' = c" by simp
  then show ?thesis using unlock_trophy [OF assms(1,2) u] by simp
next
  case (PSubmit now m score comment)
  then have b': "b' = submitScore os sorter now m score comment b" using assms(5) by simp
  show ?thesis
    using submit_score(1,2) [OF assms(2) b'] submit_score(3) [OF assms(2) b', of i k] by simp
next
  case PRestart
  then have b': "b' = psn_restart os root onl b" using assms(5) by simp
  show ?thesis
    using restart_keeps(1,2) [OF assms(1-3) b'] restart_keeps(3) [OF assms(1-3) b', of i k] by simp
qed

lemma run_keeps:
  assumes "honest os" and "psn_inv b" and "pb_accountDir b = root @ ''/'' @ onl"
    and "list_all (op_keeps i k) ops"
  shows "psn_inv (fold (psn_step os sorter root onl) ops b)
    \<and> (durable b i k \<longrightarrow> durable (fold (psn_step os sorter root onl) ops b) i k)"
  using assms(2-4)
proof (induction ops arbitrary: b)
  case (Cons oper ops)
  let ?c = "psn_step os sorter root onl oper b"
  have s: "psn_inv ?c \<and> pb_accountDir ?c = pb_accountDir b \<and> (durable b i k \<longrightarrow> durable ?c i k)"
    using Cons.prems by (intro step_keeps [OF assms(1) _ _ _ refl]) auto
  with Cons.IH [of ?c] Cons.prems show ?case by simp
qed simp

section \<open>Properties\<close>

text \<open>
  C21. A trophy is unlocked once. The disk stores every write (\<open>honest\<close>), memory and files agree (\<open>psn_inv\<close>), and the
  account stays the same. After \<^verbatim>\<open>unlockTrophy\<close> has succeeded, whatever unlocks,
  score submissions, restarts of the runtime and registrations follow, where every registration has distinct ids and every
  one of this title has the trophy among them: once the title has registered again, it finds the
  trophy unlocked and a further \<^verbatim>\<open>unlockTrophy\<close> reports that nothing changed. A registration
  without the trophy erases it, and after a restart it does not show before the title registers (the two lemmas that follow).
\<close>

theorem trophy_unlocked_once:
  assumes "honest os" and "psn_inv b" and "pb_accountDir b = root @ ''/'' @ onl"
    and "unlockTrophy os now i k b = (True, b1)"
    and "list_all (op_keeps i k) (ops @ [PRegister i defs])"
    and "b2 = fold (psn_step os sorter root onl) (ops @ [PRegister i defs]) b1"
  shows "isTrophyUnlocked i k b2 \<and> unlockTrophy os now' i k b2 = (False, b2)"
proof -
  note u = unlock_trophy [OF assms(1,2,4)]
  have dir: "pb_accountDir b1 = root @ ''/'' @ onl" using u(2) assms(3) by simp
  have ops: "list_all (op_keeps i k) ops" and d: "defs_ok defs" "k \<in> td_trophyId ` set defs"
    using assms(5) by simp_all
  let ?c = "fold (psn_step os sorter root onl) ops b1"
  have c: "psn_inv ?c" "durable ?c i k"
    using run_keeps [OF assms(1) u(1) dir ops, of sorter] u(4) by simp_all
  have b2: "b2 = registerTitle os i defs ?c" using assms(6) by simp
  note r = register_title [OF assms(1) c(1) d(1) b2]
  obtain t where t: "um_find (pb_titles b2) i = Some t" using r(4) by blast
  note m = durable_memory [OF r(1) t]
  have ul: "unlocked_in (tt_states t) k" using r(3) [of i k] c(2) d(2) m(1) by simp
  have dist: "distinct (map ts_trophyId (tt_states t))" using m(2) by (simp add: title_ok_def)
  have "unlock_state now' k (tt_states t) = None" by (rule unlock_state_None [OF dist ul])
  moreover obtain s where f: "List.find (\<lambda>s. ts_trophyId s = k) (tt_states t) = Some s"
    using ul unfolding unlocked_in_def by (metis (mono_tags, lifting) find_None_iff not_None_eq)
  moreover have "ts_unlocked s"
  proof -
    have "s \<in> set (tt_states t)" "ts_trophyId s = k" using f by (auto simp: find_Some_iff in_set_conv_nth)
    then show ?thesis using ul dist unfolding unlocked_in_def by (metis distinct_map inj_onD)
  qed
  ultimately show ?thesis using t by (simp add: isTrophyUnlocked_def unlockTrophy_def)
qed

definition os_demo :: psn_os where
  "os_demo = \<lparr>po_stat = (\<lambda>_. Some True), po_mkdir = (\<lambda>_ _. True), po_writable = (\<lambda>_. True),
     po_written = (\<lambda>_ cs. concat cs)\<rparr>"

definition defs_demo :: "TrophyDef list" where
  "defs_demo = [TrophyDef_new\<lparr>td_trophyId := 1\<rparr>, TrophyDef_new\<lparr>td_trophyId := 2, td_grade := GradeGold\<rparr>]"

definition psn_demo :: PsnBackend where
  "psn_demo = registerTitle os_demo 7 defs_demo
     (snd (psn_initialize os_demo ''persist'' ''Player1'' (PsnBackend_new (\<lambda>_. None))))"

lemma psn_demo_inv: "psn_inv psn_demo" "pb_accountDir psn_demo = ''persist'' @ ''/'' @ ''Player1''"
proof -
  let ?c = "snd (psn_initialize os_demo ''persist'' ''Player1'' (PsnBackend_new (\<lambda>_. None)))"
  note fr = initialize_frame [OF HOL.refl HOL.refl, of os_demo "''persist''" "''Player1''" "\<lambda>_. None"]
  have h: "honest os_demo" by (simp add: honest_def os_demo_def)
  have c: "psn_inv ?c" using fr by (simp add: psn_inv_def title_inv_def um_simps um_oks)
  have d: "defs_ok defs_demo" by (simp add: defs_ok_def defs_demo_def)
  note r = register_title [OF h c d psn_demo_def]
  from r(1) show "psn_inv psn_demo" .
  from r(2) fr(2) show "pb_accountDir psn_demo = ''persist'' @ ''/'' @ ''Player1''" by simp
qed

theorem trophy_unlocked_once_witness:
  "isTrophyUnlocked 7 2 (fold (psn_step os_demo (\<lambda>_ es. es) ''persist'' ''Player1'')
     ([PRestart, PSubmit 5 1 100 ''hi''] @ [PRegister 7 defs_demo]) (snd (unlockTrophy os_demo 9 7 2 psn_demo)))"
proof -
  have h: "honest os_demo" by (simp add: honest_def os_demo_def)
  have "fst (unlockTrophy os_demo 9 7 2 psn_demo)"
    by code_simp
  then have u: "unlockTrophy os_demo 9 7 2 psn_demo = (True, snd (unlockTrophy os_demo 9 7 2 psn_demo))"
    by (metis prod.collapse)
  have ops: "list_all (op_keeps 7 2) ([PRestart, PSubmit 5 1 100 ''hi''] @ [PRegister 7 defs_demo])"
    by (simp add: defs_ok_def defs_demo_def TrophyDef_new_def)
  show ?thesis
    by (rule trophy_unlocked_once [OF h psn_demo_inv u ops HOL.refl, THEN conjunct1])
qed

lemma registration_erases_trophy:
  assumes "k \<notin> td_trophyId ` set defs"
  shows "\<not> isTrophyUnlocked i k (registerTitle os i defs b)"
proof -
  define t where "t = title_at i (snd (loadTrophies i b))"
  have "pb_titles (saveTrophies os i c) = pb_titles c" for c
    by (simp add: saveTrophies_def write_file_def split: option.splits)
  then have t: "um_find (pb_titles (registerTitle os i defs b)) i
      = Some (t\<lparr>tt_defs := defs, tt_states := reconcile (tt_states t) defs\<rparr>)"
    by (simp add: registerTitle_def Let_def set_title_def um_simps t_def)
  have "ts_trophyId ` set (reconcile old defs) = td_trophyId ` set defs" for old
    by (simp add: reconcile_def Let_def image_image)
  then have "ts_trophyId s \<noteq> k" if "s \<in> set (reconcile (tt_states t) defs)" for s
    using assms that by (metis imageI)
  then have "List.find (\<lambda>s. ts_trophyId s = k) (reconcile (tt_states t) defs) = None"
    unfolding find_None_iff by blast
  then show ?thesis by (simp add: isTrophyUnlocked_def t)
qed

lemma restart_hides_trophy: "\<not> isTrophyUnlocked i k (psn_restart os root onl b)"
  unfolding psn_restart_def isTrophyUnlocked_def by (simp add: initialize_frame(1) [OF HOL.refl HOL.refl] um_simps)

section \<open>Score boards\<close>

text \<open>
  What \<^verbatim>\<open>std::sort\<close> promises for a comparison that is a strict weak order: a permutation of the range in
  which no element is to come before an earlier one.
\<close>

definition strict_weak :: "('a \<Rightarrow> 'a \<Rightarrow> bool) \<Rightarrow> bool" where
  "strict_weak lt \<longleftrightarrow> (\<forall>a. \<not> lt a a) \<and> (\<forall>a b c. lt a b \<longrightarrow> lt b c \<longrightarrow> lt a c)
     \<and> (\<forall>a b c. \<not> lt a b \<longrightarrow> \<not> lt b a \<longrightarrow> \<not> lt b c \<longrightarrow> \<not> lt c b \<longrightarrow> \<not> lt a c \<and> \<not> lt c a)"

definition std_sorts :: "sort_function \<Rightarrow> bool" where
  "std_sorts f \<longleftrightarrow>
     (\<forall>lt es. strict_weak lt \<longrightarrow> mset (f lt es) = mset es \<and> sorted_wrt (\<lambda>a b. \<not> lt b a) (f lt es))"

lemma strict_weak_score: "strict_weak score_before"
  unfolding strict_weak_def score_before_def by auto

lemma strict_weak_not_trans: "strict_weak lt \<Longrightarrow> \<not> lt a b \<Longrightarrow> \<not> lt b c \<Longrightarrow> \<not> lt a c"
  unfolding strict_weak_def by blast

text \<open>An entry without its rank.\<close>

definition unranked :: "ScoreEntry \<Rightarrow> ScoreEntry" where
  "unranked e = e\<lparr>sc_rank := 0\<rparr>"

lemma length_rank_entries [simp]: "length (rank_entries es) = length es"
  by (simp add: rank_entries_def)

lemma rank_entries_nth: "i < length es \<Longrightarrow> rank_entries es ! i = (es ! i)\<lparr>sc_rank := of_nat (i + 1)\<rparr>"
  by (simp add: rank_entries_def)

lemma rank_entries_score: "map sc_score (rank_entries es) = map sc_score es"
  by (rule nth_equalityI) (simp_all add: rank_entries_nth)

lemma rank_entries_unranked: "map unranked (rank_entries es) = map unranked es"
  by (rule nth_equalityI) (simp_all add: rank_entries_nth unranked_def)

lemma rank_entries_rank: "map sc_rank (rank_entries es) = map (\<lambda>i. of_nat (i + 1)) [0..<length es]"
  by (rule nth_equalityI) (simp_all add: rank_entries_nth)

text \<open>
  C38. Leaderboards. When \<^verbatim>\<open>std::sort\<close> keeps its contract for strict weak orders, a submission leaves the board
  sorted by falling score, with the ranks 1, 2, 3 and so on from the top, and with exactly the entries it had (in
  memory, or in its file when it was not loaded yet) plus the one submitted.
\<close>

theorem submit_sorts_board:
  assumes "std_sorts std_sort"
    and "old = bd_entries (board_at k (snd (loadScores k b)))"
    and "es = bd_entries (board_at k (submitScore os std_sort now k score comment b))"
  shows "sorted_wrt (\<lambda>a b. sc_score b \<le> sc_score a) es
    \<and> map sc_rank es = map (\<lambda>i. of_nat (i + 1)) [0..<length old + 1]
    \<and> mset (map unranked es) = mset (map unranked old)
        + {#\<lparr>sc_boardId = k, sc_score = score, sc_comment = comment, sc_timestamp = now, sc_rank = 0\<rparr>#}"
proof -
  let ?e = "\<lparr>sc_boardId = k, sc_score = score, sc_comment = comment, sc_timestamp = now, sc_rank = 0\<rparr>"
  define xs where "xs = std_sort score_before (old @ [?e])"
  have es: "es = rank_entries xs"
    using assms(2,3) saveScores_frame(3)
    by (simp add: submitScore_def Let_def board_at_def set_board_def um_simps xs_def)
  have xs: "mset xs = mset (old @ [?e])" "sorted_wrt (\<lambda>a b. \<not> score_before b a) xs"
    using assms(1) strict_weak_score by (simp_all add: std_sorts_def xs_def)
  have len: "length xs = length old + 1" using xs(1) by (metis mset_eq_length length_append_singleton Suc_eq_plus1)
  have "sorted_wrt (\<lambda>a b. b \<le> a) (map sc_score es)"
    using xs(2) by (simp add: es rank_entries_score sorted_wrt_map score_before_def not_less)
  then have "sorted_wrt (\<lambda>a b. sc_score b \<le> sc_score a) es" by (simp add: sorted_wrt_map)
  moreover have "map sc_rank es = map (\<lambda>i. of_nat (i + 1)) [0..<length old + 1]"
    by (simp only: es rank_entries_rank len)
  moreover have "mset (map unranked es) = image_mset unranked (mset xs)"
    by (simp only: es rank_entries_unranked mset_map)
  ultimately show ?thesis by (simp add: xs(1) unranked_def)
qed

text \<open>An insertion sort keeps the contract.\<close>

fun insert_by :: "('a \<Rightarrow> 'a \<Rightarrow> bool) \<Rightarrow> 'a \<Rightarrow> 'a list \<Rightarrow> 'a list" where
  "insert_by lt x [] = [x]"
| "insert_by lt x (y # ys) = (if lt y x then y # insert_by lt x ys else x # y # ys)"

definition insertion_sort :: sort_function where
  "insertion_sort lt es = foldr (insert_by lt) es []"

lemma mset_insert_by [simp]: "mset (insert_by lt x ys) = add_mset x (mset ys)"
  by (induction ys) simp_all

lemma set_insert_by [simp]: "set (insert_by lt x ys) = insert x (set ys)"
  by (induction ys) auto

lemma sorted_insert_by:
  assumes "strict_weak lt"
  shows "sorted_wrt (\<lambda>a b. \<not> lt b a) ys \<Longrightarrow> sorted_wrt (\<lambda>a b. \<not> lt b a) (insert_by lt x ys)"
proof (induction ys)
  case (Cons y ys)
  have "\<not> lt x y" if "lt y x" using that assms unfolding strict_weak_def by blast
  with Cons strict_weak_not_trans [OF assms] show ?case by auto
qed simp

lemma insertion_sort_sorts: "std_sorts insertion_sort"
proof -
  have "mset (insertion_sort lt es) = mset es \<and> sorted_wrt (\<lambda>a b. \<not> lt b a) (insertion_sort lt es)"
    if "strict_weak lt" for lt es
    using sorted_insert_by [OF that] by (induction es) (simp_all add: insertion_sort_def)
  then show ?thesis by (simp add: std_sorts_def)
qed

theorem submit_sorts_board_witness:
  "sorted_wrt (\<lambda>a b. sc_score b \<le> sc_score a)
     (bd_entries (board_at 1 (submitScore os_demo insertion_sort 5 1 100 ''hi''
        (submitScore os_demo insertion_sort 4 1 300 ''yo'' psn_demo))))"
  using submit_sorts_board [OF insertion_sort_sorts HOL.refl HOL.refl] by (rule conjunct1)

end
