(* ===== verification/Sce_Np.thy ===== *)
theory Sce_Np
  imports Psn_Safety Guest_Words
begin

text \<open>
  \<^verbatim>\<open>sce/np/SceNpTrophy.cpp\<close>, \<^verbatim>\<open>SceNpScore.cpp\<close>, \<^verbatim>\<open>SceNpManager.cpp\<close> and \<^verbatim>\<open>SceNpCommon.cpp\<close>: the guest's
  view of the account, trophies and score boards, over the backend of \<^verbatim>\<open>psn/\<close>. Results go to guest
  memory. The body of \<^verbatim>\<open>PsnBackend::scoreboard\<close> is missing from the source, so its result is an
  argument; what a guest callback does is an argument too.
\<close>

section \<open>State\<close>

record np_state =
  np_contexts :: "(u32, u64) umap"
  np_handles :: "(u32, u32 list) umap"
  np_handleToTrophy :: "(u32, u64) umap"
  np_nextCtx :: u32
  np_nextHandle :: u32
  np_nextRequestId :: u32
  np_nextScoreRequest :: u32
  np_psn :: PsnBackend
  np_mem :: memory

definition np_new :: "PsnBackend \<Rightarrow> memory \<Rightarrow> np_state" where
  "np_new psn m = \<lparr>np_contexts = [], np_handles = [], np_handleToTrophy = [], np_nextCtx = 1,
     np_nextHandle = 1, np_nextRequestId = 1, np_nextScoreRequest = 1, np_psn = psn, np_mem = m\<rparr>"

definition kNpOk :: u32 where "kNpOk = 0"
definition kNpErrInvalidArg :: u32 where "kNpErrInvalidArg = 0x80020005"
definition kNpErrNotFound :: u32 where "kNpErrNotFound = 0x80020004"
definition kNpErrAlreadyUnlocked :: u32 where "kNpErrAlreadyUnlocked = 0x80551604"
definition kNpErrNotSignedIn :: u32 where "kNpErrNotSignedIn = 0x80550008"

text \<open>A store of the call's result, and the code it returns.\<close>

definition np_out :: "u64 \<Rightarrow> u8 list \<Rightarrow> u32 \<Rightarrow> np_state \<Rightarrow> (u32 \<times> np_state) cpp" where
  "np_out ptr bytes code s =
     cpp_bind (store_bytes ptr bytes (np_mem s)) (\<lambda>m. Val (code, s\<lparr>np_mem := m\<rparr>))"

section \<open>libSceNpCommon\<close>

definition sceNpCreateRequest :: "u64 \<Rightarrow> np_state \<Rightarrow> (u32 \<times> np_state) cpp" where
  "sceNpCreateRequest outReqId s =
     (if outReqId = 0 then Val (kNpErrInvalidArg, s)
      else np_out outReqId (le_bytes 4 (np_nextRequestId s)) kNpOk
             (s\<lparr>np_nextRequestId := np_nextRequestId s + 1\<rparr>))"

definition sceNpDeleteRequest :: "u32 \<Rightarrow> np_state \<Rightarrow> u32 \<times> np_state" where
  "sceNpDeleteRequest reqId s = (kNpOk, s)"

definition sceNpAbortRequest :: "u32 \<Rightarrow> np_state \<Rightarrow> u32 \<times> np_state" where
  "sceNpAbortRequest reqId s = (kNpOk, s)"

definition sceNpGetAccountLanguageA :: "u64 \<Rightarrow> np_state \<Rightarrow> (u32 \<times> np_state) cpp" where
  "sceNpGetAccountLanguageA outLanguage s =
     (if outLanguage = 0 then Val (kNpErrInvalidArg, s)
      else np_out outLanguage (map char_byte ''en'' @ [0]) kNpOk s)"

section \<open>libSceNpManager\<close>

definition sceNpCheckNpReachability :: "np_state \<Rightarrow> u32" where
  "sceNpCheckNpReachability s = (if pb_signedIn (np_psn s) then kNpOk else kNpErrNotSignedIn)"

definition sceNpGetAccountIdA :: "u64 \<Rightarrow> np_state \<Rightarrow> (u32 \<times> np_state) cpp" where
  "sceNpGetAccountIdA outAccountId s =
     (if outAccountId = 0 then Val (kNpErrInvalidArg, s)
      else if \<not> pb_signedIn (np_psn s) then Val (kNpErrNotSignedIn, s)
      else np_out outAccountId (le_bytes 8 (ai_accountId (pb_account (np_psn s)))) kNpOk s)"

definition sceNpGetAccountId :: "u64 \<Rightarrow> np_state \<Rightarrow> (u32 \<times> np_state) cpp" where
  "sceNpGetAccountId outAccountId s = sceNpGetAccountIdA outAccountId s"

text \<open>The 54 bytes of \<^verbatim>\<open>SceNpId\<close>: a handle derived from the account id, and up to 15 characters of the name.\<close>

definition SceNpId_bytes :: "AccountInfo \<Rightarrow> u8 list" where
  "SceNpId_bytes a =
     map (\<lambda>i. ucast (drop_bit ((i mod 8) * 8) (ai_accountId a)) XOR of_nat (i * 17)) [0..<16]
     @ replicate 8 0
     @ (let n = min 15 (length (ai_onlineId a))
        in map char_byte (take n (ai_onlineId a)) @ replicate (16 - n) 0)
     @ replicate 14 0"

definition sceNpGetOnlineId :: "u64 \<Rightarrow> np_state \<Rightarrow> (u32 \<times> np_state) cpp" where
  "sceNpGetOnlineId outId s =
     (if outId = 0 then Val (kNpErrInvalidArg, s)
      else if \<not> pb_signedIn (np_psn s) then Val (kNpErrNotSignedIn, s)
      else np_out outId (SceNpId_bytes (pb_account (np_psn s))) kNpOk s)"

definition sceNpGetAccountCountry :: "u64 \<Rightarrow> np_state \<Rightarrow> (u32 \<times> np_state) cpp" where
  "sceNpGetAccountCountry outCountry s =
     (if outCountry = 0 then Val (kNpErrInvalidArg, s)
      else np_out outCountry (map char_byte ''US'' @ [0]) kNpOk s)"

definition sceNpGetAccountLanguage :: "u64 \<Rightarrow> np_state \<Rightarrow> (u32 \<times> np_state) cpp" where
  "sceNpGetAccountLanguage outLanguage s =
     (if outLanguage = 0 then Val (kNpErrInvalidArg, s)
      else np_out outLanguage (map char_byte ''en'' @ [0]) kNpOk s)"

definition sceNpIsPlusMember :: "np_state \<Rightarrow> u32" where
  "sceNpIsPlusMember s = (if ai_flags (pb_account (np_psn s)) AND 1 \<noteq> 0 then 1 else 0)"

section \<open>libSceNpTrophy\<close>

definition sceNpTrophyCreateContext :: "u64 \<Rightarrow> np_state \<Rightarrow> (u32 \<times> np_state) cpp" where
  "sceNpTrophyCreateContext outContext s =
     (if outContext = 0 then Val (kNpErrInvalidArg, s)
      else np_out outContext (le_bytes 4 (np_nextCtx s)) kNpOk (s\<lparr>np_nextCtx := np_nextCtx s + 1\<rparr>))"

definition sceNpTrophyDestroyContext :: "u32 \<Rightarrow> np_state \<Rightarrow> u32 \<times> np_state" where
  "sceNpTrophyDestroyContext context s =
     (kNpOk, s\<lparr>np_contexts := um_erase context (np_contexts s),
               np_handles := um_erase context (np_handles s)\<rparr>)"

definition sceNpTrophyRegisterContext ::
  "u32 \<Rightarrow> u64 \<Rightarrow> (np_state \<Rightarrow> np_state) option \<Rightarrow> np_state \<Rightarrow> u32 \<times> np_state" where
  "sceNpTrophyRegisterContext context handle callback s =
     (if context = 0 then (kNpErrInvalidArg, s)
      else (let s = s\<lparr>np_contexts := um_assign context handle (np_contexts s)\<rparr>
            in (kNpOk, case callback of None \<Rightarrow> s | Some f \<Rightarrow> f s)))"

definition sceNpTrophyCreateHandle ::
  "u32 \<Rightarrow> u64 \<Rightarrow> u64 \<Rightarrow> np_state \<Rightarrow> (u32 \<times> np_state) cpp" where
  "sceNpTrophyCreateHandle context details outHandle s =
     (if details = 0 \<or> outHandle = 0 then Val (kNpErrInvalidArg, s)
      else (case um_find (np_contexts s) context of
              None \<Rightarrow> Val (kNpErrInvalidArg, s)
            | Some _ \<Rightarrow>
                cpp_bind (load_u32 (np_mem s) details) (\<lambda>trophyId.
                  (let h = np_nextHandle s;
                       hs = (case um_find (np_handles s) context of None \<Rightarrow> [] | Some hs \<Rightarrow> hs)
                   in np_out outHandle (le_bytes 4 h) kNpOk
                        (s\<lparr>np_nextHandle := h + 1,
                           np_handles := um_assign context (hs @ [h]) (np_handles s),
                           np_handleToTrophy := um_assign h (ucast trophyId) (np_handleToTrophy s)\<rparr>)))))"

text \<open>The title of a context and the trophy of a handle, as the calls look them up.\<close>

definition np_lookup :: "u32 \<Rightarrow> u32 \<Rightarrow> np_state \<Rightarrow> u32 + (u64 \<times> u64)" where
  "np_lookup context handle s =
     (case um_find (np_contexts s) context of
        None \<Rightarrow> Inl kNpErrInvalidArg
      | Some titleId \<Rightarrow>
          (case um_find (np_handleToTrophy s) handle of
             None \<Rightarrow> Inl kNpErrNotFound
           | Some trophyId \<Rightarrow> Inr (titleId, trophyId)))"

definition sceNpTrophyGetTrophyUnlockState ::
  "u32 \<Rightarrow> u32 \<Rightarrow> u64 \<Rightarrow> np_state \<Rightarrow> (u32 \<times> np_state) cpp" where
  "sceNpTrophyGetTrophyUnlockState context handle outFlags s =
     (if outFlags = 0 then Val (kNpErrInvalidArg, s)
      else (case np_lookup context handle s of
              Inl e \<Rightarrow> Val (e, s)
            | Inr (titleId, trophyId) \<Rightarrow>
                np_out outFlags
                  (le_bytes 4 (if isTrophyUnlocked titleId (ucast trophyId) (np_psn s) then 1 else 0 :: u32))
                  kNpOk s))"

definition sceNpTrophyUnlockTrophy ::
  "psn_os \<Rightarrow> u64 \<Rightarrow> u32 \<Rightarrow> u32 \<Rightarrow> u64 \<Rightarrow> np_state \<Rightarrow> (u32 \<times> np_state) cpp" where
  "sceNpTrophyUnlockTrophy os now context handle outPlatinumId s =
     (case np_lookup context handle s of
        Inl e \<Rightarrow> Val (e, s)
      | Inr (titleId, trophyId) \<Rightarrow>
          cpp_bind (if outPlatinumId = 0 then Val s
                    else cpp_bind (np_out outPlatinumId (le_bytes 4 (0xFFFFFFFF :: u32)) kNpOk s)
                           (\<lambda>(_, s). Val s)) (\<lambda>s.
            if \<not> pb_signedIn (np_psn s) then Val (kNpErrNotSignedIn, s)
            else if isTrophyUnlocked titleId (ucast trophyId) (np_psn s)
            then Val (kNpErrAlreadyUnlocked, s)
            else Val (kNpOk, s\<lparr>np_psn := snd (unlockTrophy os now titleId (ucast trophyId) (np_psn s))\<rparr>)))"

definition GameInfo_bytes :: "TrophyCounts \<Rightarrow> u8 list" where
  "GameInfo_bytes c = le_bytes 4 (tc_platinum c) @ le_bytes 4 (tc_gold c) @ le_bytes 4 (tc_silver c)
     @ le_bytes 4 (tc_bronze c) @ replicate 16 0"

definition sceNpTrophyGetGameInfo :: "u32 \<Rightarrow> u64 \<Rightarrow> np_state \<Rightarrow> (u32 \<times> np_state) cpp" where
  "sceNpTrophyGetGameInfo context outInfo s =
     (if outInfo = 0 then Val (kNpErrInvalidArg, s)
      else (case um_find (np_contexts s) context of
              None \<Rightarrow> Val (kNpErrInvalidArg, s)
            | Some titleId \<Rightarrow> np_out outInfo (GameInfo_bytes (trophyCounts titleId (np_psn s))) kNpOk s))"

text \<open>\<^verbatim>\<open>snprintf\<close> of a \<^verbatim>\<open>c_str()\<close> into a zeroed field.\<close>

definition c_str_field :: "nat \<Rightarrow> string \<Rightarrow> u8 list" where
  "c_str_field cap str = safeCopy cap (takeWhile (\<lambda>c. c \<noteq> char_of (0 :: nat)) str)"

definition TrophyInfo_bytes :: "u32 \<Rightarrow> TrophyDef list \<Rightarrow> bool \<Rightarrow> u8 list" where
  "TrophyInfo_bytes trophyId defs unlocked =
     (case List.find (\<lambda>d. td_trophyId d = trophyId) defs of
        None \<Rightarrow> replicate 8 0 @ le_bytes 4 (if unlocked then 1 else 0 :: u32) @ replicate 708 0
      | Some d \<Rightarrow>
          le_bytes 4 (td_grade d) @ le_bytes 4 (if td_hidden d then 1 else 0 :: u32)
          @ le_bytes 4 (if unlocked then 1 else 0 :: u32) @ replicate 4 0
          @ c_str_field 128 (td_title d) @ c_str_field 512 (td_description d) @ replicate 64 0)"

definition sceNpTrophyGetTrophyInfo :: "u32 \<Rightarrow> u32 \<Rightarrow> u64 \<Rightarrow> np_state \<Rightarrow> (u32 \<times> np_state) cpp" where
  "sceNpTrophyGetTrophyInfo context handle outInfo s =
     (if outInfo = 0 then Val (kNpErrInvalidArg, s)
      else (case np_lookup context handle s of
              Inl e \<Rightarrow> Val (e, s)
            | Inr (titleId, trophyId) \<Rightarrow>
                np_out outInfo
                  (TrophyInfo_bytes (ucast trophyId) (trophyDefs titleId (np_psn s))
                     (isTrophyUnlocked titleId (ucast trophyId) (np_psn s))) kNpOk s))"

definition sceNpTrophyDestroyHandle :: "u32 \<Rightarrow> u32 \<Rightarrow> np_state \<Rightarrow> u32 \<times> np_state" where
  "sceNpTrophyDestroyHandle context handle s =
     (let hs = (case um_find (np_handles s) context of
                  None \<Rightarrow> np_handles s
                | Some v \<Rightarrow> um_assign context (filter (\<lambda>h. h \<noteq> handle) v) (np_handles s))
      in (kNpOk, s\<lparr>np_handles := hs, np_handleToTrophy := um_erase handle (np_handleToTrophy s)\<rparr>))"

section \<open>libSceNpScore\<close>

definition sceNpScoreCreateRequest :: "np_state \<Rightarrow> u32 \<times> np_state" where
  "sceNpScoreCreateRequest s =
     (np_nextScoreRequest s, s\<lparr>np_nextScoreRequest := np_nextScoreRequest s + 1\<rparr>)"

definition sceNpScoreSetScore ::
  "psn_os \<Rightarrow> sort_function \<Rightarrow> u64 \<Rightarrow> u32 \<Rightarrow> u64 \<Rightarrow> string option \<Rightarrow> np_state
     \<Rightarrow> u32 \<times> np_state" where
  "sceNpScoreSetScore os std_sort now boardId score comment s =
     (if \<not> pb_signedIn (np_psn s) then (kNpErrNotSignedIn, s)
      else (kNpOk, s\<lparr>np_psn := submitScore os std_sort now boardId score
                       (case comment of None \<Rightarrow> [] | Some c \<Rightarrow> c) (np_psn s)\<rparr>))"

text \<open>
  \<^verbatim>\<open>RankEntry\<close> occupies 120 bytes: two 32-bit words, two 64-bit words, the comment and 64 reserved bytes.
\<close>

definition sizeof_RankEntry :: nat where "sizeof_RankEntry = 120"

definition RankEntry_bytes :: "u64 \<Rightarrow> ScoreEntry \<Rightarrow> u8 list" where
  "RankEntry_bytes accountId e =
     le_bytes 4 (sc_rank e) @ le_bytes 4 (0 :: u32) @ le_bytes 8 (sc_score e) @ le_bytes 8 accountId
     @ c_str_field 32 (sc_comment e) @ replicate 64 0"

fun put_ranks :: "u64 \<Rightarrow> u64 \<Rightarrow> u64 \<Rightarrow> nat \<Rightarrow> ScoreEntry list \<Rightarrow> memory \<Rightarrow> (nat \<times> memory) cpp" where
  "put_ranks accountId out sz n [] m = Val (n, m)"
| "put_ranks accountId out sz n (e # es) m =
     (if unat sz < (n + 1) * sizeof_RankEntry then Val (n, m)
      else cpp_bind (store_bytes (out + of_nat (n * sizeof_RankEntry)) (RankEntry_bytes accountId e) m)
             (put_ranks accountId out sz (n + 1) es))"

definition sceNpScoreGetRankingByRange ::
  "(u32 \<Rightarrow> ScoreEntry list) \<Rightarrow> u32 \<Rightarrow> u32 \<Rightarrow> u32 \<Rightarrow> u64 \<Rightarrow> u64 \<Rightarrow> u64 \<Rightarrow> np_state \<Rightarrow> (u32 \<times> np_state) cpp" where
  "sceNpScoreGetRankingByRange scoreboard boardId startRank numRanks outEntries outEntrySize outCount s =
     (if outEntries = 0 \<or> outCount = 0 then Val (kNpErrInvalidArg, s)
      else if \<not> pb_signedIn (np_psn s) then Val (kNpErrNotSignedIn, s)
      else if unat outEntrySize < sizeof_RankEntry then Val (kNpErrInvalidArg, s)
      else cpp_bind (put_ranks (ai_accountId (pb_account (np_psn s))) outEntries outEntrySize 0
                       (drop (unat (startRank - 1)) (scoreboard boardId)) (np_mem s)) (\<lambda>(n, m).
             np_out outCount (le_bytes 8 (of_nat n :: u64)) kNpOk (s\<lparr>np_mem := m\<rparr>)))"

text \<open>The size of the buffer is ignored: 128 bytes are cleared.\<close>

definition sceNpScoreGetRankingByNpId :: "u64 \<Rightarrow> u64 \<Rightarrow> u64 \<Rightarrow> np_state \<Rightarrow> (u32 \<times> np_state) cpp" where
  "sceNpScoreGetRankingByNpId outEntries outEntrySize outCount s =
     cpp_bind (if outEntries = 0 then Val (kNpOk, s) else np_out outEntries (replicate 128 0) kNpOk s) (\<lambda>(_, s).
     if outCount = 0 then Val (kNpOk, s) else np_out outCount (le_bytes 8 (0 :: u64)) kNpOk s)"

section \<open>Ranking stays in its buffer\<close>

lemma length_c_str_field [simp]: "0 < cap \<Longrightarrow> length (c_str_field cap str) = cap"
  by (simp add: c_str_field_def)

lemma length_RankEntry [simp]: "length (RankEntry_bytes a e) = sizeof_RankEntry"
  by (simp add: RankEntry_bytes_def sizeof_RankEntry_def)

lemma put_ranks_frame:
  assumes "put_ranks a out sz n es m = Val (n', m')" and "unat out + unat sz \<le> 2 ^ 64"
    and "unat x < unat out \<or> unat out + unat sz \<le> unat x"
  shows "m' x = m x"
  using assms(1)
proof (induction es arbitrary: n m)
  case (Cons e es)
  show ?case
  proof (cases "unat sz < (n + 1) * sizeof_RankEntry")
    case True
    with Cons.prems show ?thesis by simp
  next
    case False
    let ?p = "n * sizeof_RankEntry"
    have fit: "?p + sizeof_RankEntry \<le> unat sz" using False by simp
    from Cons.prems False obtain m1 where
      s: "store_bytes (out + of_nat ?p) (RankEntry_bytes a e) m = Val m1"
      and r: "put_ranks a out sz (n + 1) es m1 = Val (n', m')"
      by (auto simp: cpp_bind_eq_Val_iff)
    have up: "unat (out + of_nat ?p) = unat out + ?p"
      using fit assms(2) by (intro unat_add_of_nat) (simp add: sizeof_RankEntry_def)
    have "m1 x = m x"
      using assms(2,3) fit up by (intro store_bytes_outside [OF s]) (auto simp: sizeof_RankEntry_def)
    with Cons.IH [OF r] show ?thesis by simp
  qed
qed simp

text \<open>
  C39. The ranking call never writes outside the buffer it was given: whatever the board holds and
  whatever range is asked for, only bytes of the entry buffer and of the count change.
\<close>

theorem ranking_stays_in_buffer:
  assumes "sceNpScoreGetRankingByRange scoreboard boardId startRank numRanks out sz cnt s = Val (r, s')"
    and "unat out + unat sz \<le> 2 ^ 64" and "unat cnt + 8 \<le> 2 ^ 64"
    and "unat x < unat out \<or> unat out + unat sz \<le> unat x"
    and "unat x < unat cnt \<or> unat cnt + 8 \<le> unat x"
  shows "np_mem s' x = np_mem s x"
proof (cases "out = 0 \<or> cnt = 0 \<or> \<not> pb_signedIn (np_psn s) \<or> unat sz < sizeof_RankEntry")
  case True
  with assms(1) show ?thesis by (auto simp: sceNpScoreGetRankingByRange_def split: if_splits)
next
  case False
  then obtain n m where p: "put_ranks (ai_accountId (pb_account (np_psn s))) out sz 0
      (drop (unat (startRank - 1)) (scoreboard boardId)) (np_mem s) = Val (n, m)"
    and w: "store_bytes cnt (le_bytes 8 (of_nat n :: u64)) m = Val (np_mem s')"
    using assms(1) by (auto simp: sceNpScoreGetRankingByRange_def np_out_def cpp_bind_eq_Val_iff)
  have "np_mem s' x = m x" using assms(3,5) by (intro store_bytes_outside [OF w]) auto
  with put_ranks_frame [OF p assms(2,4)] show ?thesis by simp
qed

definition page_zero :: memory where
  "page_zero = (\<lambda>a. if a < 0x10000 then Some 0 else None)"

definition signed_in :: PsnBackend where
  "signed_in = psn_demo\<lparr>pb_signedIn := True\<rparr>"

lemma page_zero_store:
  assumes f: "unat a + length bs \<le> 0x10000" and d: "dom m = dom page_zero"
  shows "\<exists>m'. store_bytes a bs m = Val m' \<and> dom m' = dom page_zero"
proof -
  have "mapped page_zero 0 0x10000" by (simp add: mapped_def page_zero_def word_less_unat)
  then have "mapped m 0 0x10000" using mapped_dom [OF d] by simp
  from store_mapped [OF this, of a bs] f obtain m' where s: "store_bytes a bs m = Val m'" by auto
  with store_bytes_dom [OF s] d show ?thesis by auto
qed

theorem ranking_stays_in_buffer_witness:
  "\<exists>r s'. sceNpScoreGetRankingByRange (\<lambda>_. [ScoreEntry_new, ScoreEntry_new]) 1 1 5 0x1000 250 0x2000
      (np_new signed_in page_zero) = Val (r, s') \<and> np_mem s' 0x1100 = Some 0"
proof -
  let ?s = "np_new signed_in page_zero"
  let ?id = "ai_accountId (pb_account (np_psn ?s))"
  obtain m1 where m1: "store_bytes 0x1000 (RankEntry_bytes ?id ScoreEntry_new) page_zero = Val m1"
    "dom m1 = dom page_zero"
    using page_zero_store [of "0x1000" "RankEntry_bytes ?id ScoreEntry_new" page_zero]
    by (auto simp: sizeof_RankEntry_def)
  obtain m2 where m2: "store_bytes 0x1078 (RankEntry_bytes ?id ScoreEntry_new) m1 = Val m2"
    "dom m2 = dom page_zero"
    using page_zero_store [of "0x1078" "RankEntry_bytes ?id ScoreEntry_new" m1] m1(2)
    by (auto simp: sizeof_RankEntry_def)
  obtain m3 where m3: "store_bytes 0x2000 (le_bytes 8 (2 :: u64)) m2 = Val m3"
    using page_zero_store [of "0x2000" "le_bytes 8 (2 :: u64)" m2] m2(2) by auto
  have p: "put_ranks ?id 0x1000 250 0 [ScoreEntry_new, ScoreEntry_new] page_zero = Val (2, m2)"
    using m1(1) m2(1) by (simp add: sizeof_RankEntry_def)
  obtain r s' where e: "sceNpScoreGetRankingByRange (\<lambda>_. [ScoreEntry_new, ScoreEntry_new]) 1 1 5 0x1000 250 0x2000
      ?s = Val (r, s')"
    using p m3 by (simp add: sceNpScoreGetRankingByRange_def np_new_def signed_in_def np_out_def
        sizeof_RankEntry_def)
  from ranking_stays_in_buffer [OF e, of "0x1100"] have "np_mem s' 0x1100 = np_mem ?s 0x1100" by simp
  then show ?thesis using e by (simp add: np_new_def page_zero_def)
qed

section \<open>Unlocking\<close>

lemma unlockTrophy_unlocks:
  assumes "honest os" and "psn_inv b" and "um_find (pb_titles b) i = Some t"
    and "k \<in> ts_trophyId ` set (tt_states t)" and "\<not> isTrophyUnlocked i k b"
  obtains b' where "unlockTrophy os now i k b = (True, b')" and "isTrophyUnlocked i k b'"
    and "pb_signedIn b' = pb_signedIn b"
proof -
  have dist: "distinct (map ts_trophyId (tt_states t))"
    using durable_memory(2) [OF assms(2,3)] by (simp add: title_ok_def)
  have find_mem: "(case List.find (\<lambda>s. ts_trophyId s = k) ss of None \<Rightarrow> False | Some s \<Rightarrow> ts_unlocked s)
      \<longleftrightarrow> unlocked_in ss k" if "distinct (map ts_trophyId ss)" for ss
    using that by (induction ss) (auto dest: unlocked_in_id)
  have locked: "\<not> unlocked_in (tt_states t) k"
    using assms(3,5) find_mem [OF dist] by (simp add: isTrophyUnlocked_def)
  have "\<exists>ss'. unlock_state now k ss = Some ss'"
    if "\<not> unlocked_in ss k" "k \<in> ts_trophyId ` set ss" for ss
    using that by (induction ss) auto
  then obtain ss where ss: "unlock_state now k (tt_states t) = Some ss" using locked assms(4) by blast
  define b' where "b' = saveTrophies os i (set_title i (t\<lparr>tt_states := ss\<rparr>) b)"
  have u: "unlockTrophy os now i k b = (True, b')"
    using assms(3) ss by (simp add: unlockTrophy_def b'_def)
  note us = unlock_state_Some [OF ss]
  have "um_find (pb_titles b') i = Some (t\<lparr>tt_states := ss\<rparr>)" "pb_signedIn b' = pb_signedIn b"
    by (simp_all add: b'_def saveTrophies_def set_title_def um_simps write_file_def)
  moreover have "distinct (map ts_trophyId ss)" using dist us(1) by simp
  ultimately show ?thesis using that [OF u] us(2) find_mem by (simp add: isTrophyUnlocked_def)
qed

text \<open>
  What the guest sees of an unlock. For a context whose title has registered the trophy, an
  unlock of a locked trophy succeeds, a query then reports it unlocked and a second unlock is
  answered with the error for an unlocked trophy.
\<close>

theorem np_unlock_visible:
  assumes "honest os" and "psn_inv (np_psn s)" and "pb_signedIn (np_psn s)"
    and "np_lookup c h s = Inr (i, k)" and "um_find (pb_titles (np_psn s)) i = Some t"
    and "ucast k \<in> ts_trophyId ` set (tt_states t)" and "\<not> isTrophyUnlocked i (ucast k) (np_psn s)"
    and "out \<noteq> 0" and "store_u32 out 1 (np_mem s) = Val m1"
  shows "\<exists>s'. sceNpTrophyUnlockTrophy os now c h 0 s = Val (kNpOk, s')
    \<and> sceNpTrophyGetTrophyUnlockState c h out s' = Val (kNpOk, s'\<lparr>np_mem := m1\<rparr>)
    \<and> sceNpTrophyUnlockTrophy os now' c h 0 s' = Val (kNpErrAlreadyUnlocked, s')"
proof -
  obtain b' where u: "unlockTrophy os now i (ucast k) (np_psn s) = (True, b')"
    "isTrophyUnlocked i (ucast k) b'" "pb_signedIn b' = pb_signedIn (np_psn s)"
    by (rule unlockTrophy_unlocks [OF assms(1,2,5,6,7)])
  let ?s = "s\<lparr>np_psn := b'\<rparr>"
  have l: "np_lookup c h ?s = Inr (i, k)" using assms(4) by (simp add: np_lookup_def split: option.splits)
  have "sceNpTrophyUnlockTrophy os now c h 0 s = Val (kNpOk, ?s)"
    using assms(3,4,7) u(1) by (simp add: sceNpTrophyUnlockTrophy_def)
  moreover have "sceNpTrophyGetTrophyUnlockState c h out ?s = Val (kNpOk, ?s\<lparr>np_mem := m1\<rparr>)"
    using l u(2) assms(8,9) by (simp add: sceNpTrophyGetTrophyUnlockState_def np_out_def store_u32_def)
  moreover have "sceNpTrophyUnlockTrophy os now' c h 0 ?s = Val (kNpErrAlreadyUnlocked, ?s)"
    using l u(2,3) assms(3) by (simp add: sceNpTrophyUnlockTrophy_def)
  ultimately show ?thesis by blast
qed

definition np_demo :: np_state where
  "np_demo = (np_new signed_in page_zero)\<lparr>np_contexts := [(1, 7)], np_handleToTrophy := [(1, 2)]\<rparr>"

theorem np_unlock_visible_witness:
  "\<exists>s'. sceNpTrophyUnlockTrophy os_demo 9 1 1 0 np_demo = Val (kNpOk, s')
     \<and> sceNpTrophyUnlockTrophy os_demo 10 1 1 0 s' = Val (kNpErrAlreadyUnlocked, s')"
proof -
  have inv: "psn_inv (np_psn np_demo)"
    by (rule same_trophies(1) [OF psn_demo_inv(1)]) (simp_all add: np_demo_def np_new_def signed_in_def)
  have l: "np_lookup 1 1 np_demo = Inr (7, 2)"
    by (simp add: np_demo_def np_lookup_def um_find_def)
  have "um_find (pb_titles (np_psn np_demo)) 7
      = Some \<lparr>tt_defs = defs_demo, tt_states = reconcile [] defs_demo, tt_loaded = True\<rparr>" by code_simp
  moreover have "ucast (2 :: u64) \<in> ts_trophyId ` set (reconcile [] defs_demo)"
    by (simp add: reconcile_def defs_demo_def TrophyDef_new_def)
  moreover have "\<not> isTrophyUnlocked 7 (ucast (2 :: u64)) (np_psn np_demo)" by code_simp
  moreover have "dom (np_mem np_demo) = dom page_zero" by (simp add: np_demo_def np_new_def)
  then obtain m1 where "store_u32 0x2000 1 (np_mem np_demo) = Val m1"
    using page_zero_store [of "0x2000" "le_bytes 4 (1 :: u32)" "np_mem np_demo"] by (auto simp: store_u32_def)
  moreover have "pb_signedIn (np_psn np_demo)" by (simp add: np_demo_def np_new_def signed_in_def)
  moreover have "honest os_demo" by (simp add: honest_def os_demo_def)
  ultimately have "\<exists>s'. sceNpTrophyUnlockTrophy os_demo 9 1 1 0 np_demo = Val (kNpOk, s')
    \<and> sceNpTrophyGetTrophyUnlockState 1 1 0x2000 s' = Val (kNpOk, s'\<lparr>np_mem := m1\<rparr>)
    \<and> sceNpTrophyUnlockTrophy os_demo 10 1 1 0 s' = Val (kNpErrAlreadyUnlocked, s')"
    using np_unlock_visible [OF _ inv _ l, of os_demo] by simp
  then show ?thesis by blast
qed

text \<open>
  The trophy calls never register a title with the backend. For a title that is not registered the
  unlock call reports success and changes nothing.
\<close>

lemma np_unlock_unregistered:
  assumes "pb_signedIn (np_psn s)" and "np_lookup c h s = Inr (i, k)"
    and "um_find (pb_titles (np_psn s)) i = None"
  shows "sceNpTrophyUnlockTrophy os now c h 0 s = Val (kNpOk, s)"
  using assms by (simp add: sceNpTrophyUnlockTrophy_def isTrophyUnlocked_def unlockTrophy_def)

end
