(* ===== verification/Save_Data.thy ===== *)
theory Save_Data
  imports Save_Container Virtual_File_System Guest_Words
begin

text \<open>
  \<^verbatim>\<open>sce/savedata/SceSaveData.cpp\<close>: the save-data calls of the guest. A save is a container in memory;
  committing and loading go through the path policy of the virtual filesystem. Host files are part
  of the state; whether one can be opened for writing, and what it holds after the stream was
  written, are parameters.
\<close>

section \<open>State\<close>

definition kSdOk :: u32 where "kSdOk = 0"
definition kSdErrInvalidArg :: u32 where "kSdErrInvalidArg = 0x80020005"
definition kSdErrNotFound :: u32 where "kSdErrNotFound = 0x80020004"
definition kSdErrNoMemory :: u32 where "kSdErrNoMemory = 0x80020002"

record SaveDir =
  sv_dirName :: string
  sv_titleId :: string
  sv_subtitle :: string
  sv_detail :: string
  sv_container :: SaveContainer

record save_state =
  sd_saves :: "(u32, SaveDir) umap"
  sd_nextSaveId :: u32
  sd_files :: "string \<rightharpoonup> u8 list"
  sd_mkdirs :: "string list"
  sd_mem :: memory

record save_os =
  so_policy :: "FsPolicy option"
  so_writable :: "string \<Rightarrow> bool"
  so_written :: "string \<Rightarrow> u8 list \<Rightarrow> u8 list"

section \<open>Helpers\<close>

text \<open>\<^verbatim>\<open>std::to_string\<close> and \<^verbatim>\<open>std::stoull\<close> on decimal digits.\<close>

definition to_string :: "u64 \<Rightarrow> string" where
  "to_string w = dec_digits (unat w)"

definition stoull :: "string \<Rightarrow> u64" where
  "stoull s = of_nat (foldl (\<lambda>n c. 10 * n + (of_char c - 48)) 0 s)"

definition resolveSavePath :: "string \<Rightarrow> string \<Rightarrow> string" where
  "resolveSavePath titleId dirName = ''/save/'' @ titleId @ ''/'' @ dirName @ ''/sd.img''"

definition guestToHost :: "save_os \<Rightarrow> string \<Rightarrow> string cpp" where
  "guestToHost os guestPath =
     (case so_policy os of
        None \<Rightarrow> Val []
      | Some pol \<Rightarrow>
          cpp_bind (resolve pol guestPath FsWrite) (\<lambda>(tr, _).
            Val (if tr_ok tr then tr_hostPath tr else [])))"

text \<open>The directories \<^verbatim>\<open>ensureHostDir\<close> tries to create; the caller ignores its result.\<close>

definition ensureHostDir :: "string \<Rightarrow> string list" where
  "ensureHostDir hostDir =
     map (\<lambda>i. take i hostDir) (filter (\<lambda>i. hostDir ! i = CHR ''/'' \<and> i > 0) [0..<length hostDir])
     @ [hostDir]"

definition parent_of :: "string \<Rightarrow> string" where
  "parent_of p =
     (if CHR ''/'' \<in> set p then rev (tl (dropWhile (\<lambda>c. c \<noteq> CHR ''/'') (rev p))) else p)"

text \<open>A character array of a guest structure, read as a C string.\<close>

definition guest_string :: "memory \<Rightarrow> u64 \<Rightarrow> string cpp" where
  "guest_string m a = cpp_bind (c_bytes m a) (\<lambda>bs. Val (map byte_char bs))"

section \<open>Operations\<close>

text \<open>
  The offsets of \<^verbatim>\<open>SetupParams\<close>: the title at 0, the directory name at 16, the subtitle at 48 and the
  detail at 176.
\<close>

definition sceSaveDataSetupSaveDataMemory :: "u64 \<Rightarrow> save_state \<Rightarrow> (u32 \<times> save_state) cpp" where
  "sceSaveDataSetupSaveDataMemory params s =
     (if params = 0 then Val (kSdErrInvalidArg, s)
      else cpp_bind (load_u64 (sd_mem s) params) (\<lambda>titleId.
           cpp_bind (guest_string (sd_mem s) (params + 16)) (\<lambda>dirName.
           case List.find (\<lambda>(i, d). sv_dirName d = dirName \<and> sv_titleId d = to_string titleId)
                  (sd_saves s) of
             Some (i, _) \<Rightarrow> Val (i, s)
           | None \<Rightarrow>
               cpp_bind (guest_string (sd_mem s) (params + 48)) (\<lambda>subtitle.
               cpp_bind (guest_string (sd_mem s) (params + 176)) (\<lambda>detail.
                 (let i = sd_nextSaveId s;
                      d = \<lparr>sv_dirName = dirName, sv_titleId = to_string titleId,
                           sv_subtitle = subtitle, sv_detail = detail,
                           sv_container = SaveContainer_new\<rparr>
                  in Val (i, s\<lparr>sd_nextSaveId := i + 1, sd_saves := um_assign i d (sd_saves s)\<rparr>)))))))"

definition set_save :: "u32 \<Rightarrow> SaveDir \<Rightarrow> save_state \<Rightarrow> save_state" where
  "set_save i d s = s\<lparr>sd_saves := um_assign i d (sd_saves s)\<rparr>"

definition sceSaveDataCommitSaveData :: "save_os \<Rightarrow> u32 \<Rightarrow> save_state \<Rightarrow> (u32 \<times> save_state) cpp" where
  "sceSaveDataCommitSaveData os saveId s =
     (case um_find (sd_saves s) saveId of
        None \<Rightarrow> Val (kSdErrNotFound, s)
      | Some d \<Rightarrow>
          (let d = d\<lparr>sv_container := (sv_container d)\<lparr>sc_titleId := stoull (sv_titleId d),
                       sc_subtitle := sv_subtitle d, sc_detail := sv_detail d\<rparr>\<rparr>;
               s = set_save saveId d s
           in cpp_bind (guestToHost os (resolveSavePath (sv_titleId d) (sv_dirName d))) (\<lambda>hostPath.
                if hostPath = [] then Val (kSdErrNotFound, s)
                else
                  (let s = s\<lparr>sd_mkdirs := sd_mkdirs s @ ensureHostDir (parent_of hostPath)\<rparr>
                   in if \<not> so_writable os hostPath then Val (kSdErrNoMemory, s)
                      else Val (kSdOk, s\<lparr>sd_files := (sd_files s)(hostPath \<mapsto>
                             so_written os hostPath (SaveContainer_serialize (sv_container d)))\<rparr>)))))"

definition sceSaveDataLoadSaveData :: "save_os \<Rightarrow> u32 \<Rightarrow> save_state \<Rightarrow> (u32 \<times> save_state) cpp" where
  "sceSaveDataLoadSaveData os saveId s =
     (case um_find (sd_saves s) saveId of
        None \<Rightarrow> Val (kSdErrNotFound, s)
      | Some d \<Rightarrow>
          cpp_bind (guestToHost os (resolveSavePath (sv_titleId d) (sv_dirName d))) (\<lambda>hostPath.
            if hostPath = [] then Val (kSdErrNotFound, s)
            else (case sd_files s hostPath of
                    None \<Rightarrow> Val (kSdOk, set_save saveId (d\<lparr>sv_container := SaveContainer_new\<rparr>) s)
                  | Some bytes \<Rightarrow>
                      cpp_bind (SaveContainer_deserialize (Some bytes) SaveContainer_new) (\<lambda>(ok, sc).
                        if \<not> ok then Val (kSdErrNotFound, s)
                        else Val (kSdOk, set_save saveId (d\<lparr>sv_container := sc\<rparr>) s)))))"

definition sceSaveDataGetSaveDataMemory ::
  "u32 \<Rightarrow> u64 \<Rightarrow> u64 \<Rightarrow> u64 \<Rightarrow> save_state \<Rightarrow> (u32 \<times> save_state) cpp" where
  "sceSaveDataGetSaveDataMemory saveId outBuf outSize offset s =
     (case um_find (sd_saves s) saveId of
        None \<Rightarrow> Val (kSdErrNotFound, s)
      | Some d \<Rightarrow>
          (let bytes = SaveContainer_serialize (sv_container d)
           in if length bytes \<le> unat offset then Val (kSdOk, s)
              else
                (let k = min (unat outSize) (length bytes - unat offset)
                 in cpp_bind (store_bytes outBuf (take k (drop (unat offset) bytes)) (sd_mem s)) (\<lambda>m.
                      Val (of_nat k, s\<lparr>sd_mem := m\<rparr>)))))"

text \<open>
  The sum of offset and size is a 64-bit one; a copy that does not fit the resized vector is
  undefined.
\<close>

definition sceSaveDataSetSaveDataMemory ::
  "u32 \<Rightarrow> u64 \<Rightarrow> u64 \<Rightarrow> u64 \<Rightarrow> save_state \<Rightarrow> (u32 \<times> save_state) cpp" where
  "sceSaveDataSetSaveDataMemory saveId buf sz offset s =
     (case um_find (sd_saves s) saveId of
        None \<Rightarrow> Val (kSdErrNotFound, s)
      | Some d \<Rightarrow>
          (let bytes = SaveContainer_serialize (sv_container d);
               n = unat (offset + sz);
               bytes = (if n > length bytes then bytes @ replicate (n - length bytes) 0 else bytes)
           in cpp_bind (load_bytes (sd_mem s) buf (unat sz)) (\<lambda>src.
                if unat offset + unat sz > length bytes then UB
                else
                  cpp_bind (SaveContainer_deserialize
                              (Some (take (unat offset) bytes @ src @ drop (unat offset + unat sz) bytes))
                              SaveContainer_new) (\<lambda>(ok, sc).
                    if ok then Val (kSdOk, set_save saveId (d\<lparr>sv_container := sc\<rparr>) s)
                    else Val (kSdErrInvalidArg, s)))))"

definition sceSaveDataDeleteSaveDataMemory :: "save_os \<Rightarrow> u32 \<Rightarrow> save_state \<Rightarrow> (u32 \<times> save_state) cpp" where
  "sceSaveDataDeleteSaveDataMemory os saveId s =
     (case um_find (sd_saves s) saveId of
        None \<Rightarrow> Val (kSdErrNotFound, s)
      | Some d \<Rightarrow>
          cpp_bind (guestToHost os (resolveSavePath (sv_titleId d) (sv_dirName d))) (\<lambda>hostPath.
            (let s = (if hostPath = [] then s else s\<lparr>sd_files := (sd_files s)(hostPath := None)\<rparr>)
             in Val (kSdOk, set_save saveId (d\<lparr>sv_container := SaveContainer_new\<rparr>) s))))"

definition sceSaveDataGetSaveDataMemorySize :: "u32 \<Rightarrow> u64 \<Rightarrow> save_state \<Rightarrow> (u32 \<times> save_state) cpp" where
  "sceSaveDataGetSaveDataMemorySize saveId outSize s =
     (if outSize = 0 then Val (kSdErrInvalidArg, s)
      else (case um_find (sd_saves s) saveId of
              None \<Rightarrow> Val (kSdErrNotFound, s)
            | Some d \<Rightarrow>
                cpp_bind (store_u64 outSize (of_nat (length (SaveContainer_serialize (sv_container d)))) (sd_mem s))
                  (\<lambda>m. Val (kSdOk, s\<lparr>sd_mem := m\<rparr>))))"

section \<open>Decimal numbers\<close>

lemma stoull_to_string: "stoull (to_string w) = w"
  by (simp add: stoull_def to_string_def dec_digits_value)

section \<open>Committing and loading\<close>

text \<open>The container that a commit writes.\<close>

definition committed :: "SaveDir \<Rightarrow> SaveContainer" where
  "committed d = (sv_container d)\<lparr>sc_titleId := stoull (sv_titleId d), sc_subtitle := sv_subtitle d,
                    sc_detail := sv_detail d\<rparr>"

lemma commit_okE:
  assumes "sceSaveDataCommitSaveData os i s = Val (kSdOk, s')" and "um_find (sd_saves s) i = Some d"
  obtains hostPath where "guestToHost os (resolveSavePath (sv_titleId d) (sv_dirName d)) = Val hostPath"
    and "hostPath \<noteq> []"
    and "sd_files s' = (sd_files s)(hostPath \<mapsto> so_written os hostPath (SaveContainer_serialize (committed d)))"
  using assms
  by (auto simp: sceSaveDataCommitSaveData_def cpp_bind_eq_Val_iff Let_def set_save_def committed_def
      kSdOk_def kSdErrNotFound_def kSdErrNoMemory_def split: if_splits)

text \<open>
  C16. Save data survives. Suppose the committed container can be represented (\<open>container_ok\<close>: strings that fit
  their fields and have no NUL, counts below 2^32) and the stream writes every byte it is given (the code does not look
  whether it did). Once a commit has reported success, loading
  a save with the same title and directory name, in whatever later state has those files,
  succeeds and gives back the committed container with its title, subtitle and detail.
\<close>

theorem save_commit_then_load:
  assumes "sceSaveDataCommitSaveData os i s = Val (kSdOk, s1)" and "um_find (sd_saves s) i = Some d"
    and "container_ok (committed d)" and "\<And>p bs. so_written os p bs = bs"
    and "sd_files s2 = sd_files s1" and "um_find (sd_saves s2) j = Some e"
    and "sv_titleId e = sv_titleId d" and "sv_dirName e = sv_dirName d"
  shows "sceSaveDataLoadSaveData os j s2 = Val (kSdOk, set_save j (e\<lparr>sv_container := committed d\<rparr>) s2)"
  using assms(1,2)
proof (rule commit_okE)
  fix hostPath
  assume h: "guestToHost os (resolveSavePath (sv_titleId d) (sv_dirName d)) = Val hostPath" "hostPath \<noteq> []"
    and f: "sd_files s1 = (sd_files s)(hostPath \<mapsto> so_written os hostPath (SaveContainer_serialize (committed d)))"
  from f assms(4,5) have "sd_files s2 hostPath = Some (SaveContainer_serialize (committed d))" by simp
  with h assms(6-8) deserialize_serialize [OF assms(3)] show ?thesis
    by (simp add: sceSaveDataLoadSaveData_def)
qed

definition save_os_demo :: save_os where
  "save_os_demo = \<lparr>so_policy = Some FsPolicy_default, so_writable = (\<lambda>_. True), so_written = (\<lambda>_ bs. bs)\<rparr>"

definition save_dir_demo :: SaveDir where
  "save_dir_demo = \<lparr>sv_dirName = ''S01'', sv_titleId = ''7'', sv_subtitle = ''sub'', sv_detail = ''x'',
     sv_container = SaveContainer_new\<lparr>sc_entries := [\<lparr>se_name = ''a'', se_data = [1, 2], se_flags = 0\<rparr>]\<rparr>\<rparr>"

definition save_demo :: save_state where
  "save_demo = \<lparr>sd_saves = [(1, save_dir_demo)], sd_nextSaveId = 2, sd_files = (\<lambda>_. None),
     sd_mkdirs = [], sd_mem = (\<lambda>_. None)\<rparr>"

lemma save_demo_container: "container_ok (committed save_dir_demo)"
proof -
  have "list_all (\<lambda>c. c \<noteq> char_of (0 :: nat)) ''subxa''" by code_simp
  then show ?thesis
    by (auto simp: committed_def save_dir_demo_def container_ok_def field_ok_def SaveContainer_new_def
        payload_of_def)
qed

lemma save_demo_path: "guestToHost save_os_demo (resolveSavePath ''7'' ''S01'') = Val ''virtual_fs/save/7/S01/sd.img''"
  by code_simp

theorem save_commit_then_load_witness:
  "\<exists>s1. sceSaveDataCommitSaveData save_os_demo 1 save_demo = Val (kSdOk, s1)
     \<and> sceSaveDataLoadSaveData save_os_demo 1 s1
         = Val (kSdOk, set_save 1 (save_dir_demo\<lparr>sv_container := committed save_dir_demo\<rparr>)
             (s1))"
proof -
  have f: "um_find (sd_saves save_demo) 1 = Some save_dir_demo" by (simp add: save_demo_def um_find_def)
  have n: "sv_titleId save_dir_demo = ''7''" "sv_dirName save_dir_demo = ''S01''"
    by (simp_all add: save_dir_demo_def)
  obtain s1 where c: "sceSaveDataCommitSaveData save_os_demo 1 save_demo = Val (kSdOk, s1)"
    and e: "um_find (sd_saves s1) 1 = Some (save_dir_demo\<lparr>sv_container := committed save_dir_demo\<rparr>)"
    using f n save_demo_path
    by (simp add: sceSaveDataCommitSaveData_def set_save_def Let_def committed_def um_simps save_os_demo_def)
  have "so_written save_os_demo p bs = bs" for p bs by (simp add: save_os_demo_def)
  from save_commit_then_load [OF c f save_demo_container this HOL.refl e] c show ?thesis by auto
qed

section \<open>Confinement\<close>

lemma guestToHost_inside:
  assumes "guestToHost os p = Val hostPath" and "hostPath \<noteq> []"
  obtains pol mp comps where "so_policy os = Some pol" and "mp \<in> set (m_mounts pol)"
    and "\<not> readOnly mp" and "list_all clean_component comps"
    and "hostPath = host_path (host_dir (m_vfsRoot pol) (hostSubdir mp)) comps"
proof -
  from assms obtain pol tr e where pol: "so_policy os = Some pol"
    and r: "resolve pol p FsWrite = Val (tr, e)" and ok: "tr_ok tr" and h: "hostPath = tr_hostPath tr"
    by (auto simp: guestToHost_def cpp_bind_eq_Val_iff split: option.splits if_splits)
  from r ok show ?thesis
  proof (rule resolve_okE)
    fix canonical mp comps
    assume mm: "match_mount pol canonical = Some mp"
      and al: "isAllowed pol canonical FsWrite = Inr ()"
      and c: "list_all clean_component comps"
      and tr: "tr = \<lparr>tr_ok = True, tr_guestPath = p,
                 tr_hostPath = host_path (host_dir (m_vfsRoot pol) (hostSubdir mp)) comps,
                 tr_mount = Some mp\<rparr>"
    have "\<not> readOnly mp" using al mm by (auto simp: isAllowed_def split: if_splits)
    with that pol match_mount_SomeD(1) [OF mm] c tr h show ?thesis by simp
  qed
qed

datatype save_call =
    SvSetup u64
  | SvCommit u32
  | SvLoad u32
  | SvGet u32 u64 u64 u64
  | SvSet u32 u64 u64 u64
  | SvDelete u32
  | SvSize u32 u64

fun save_step :: "save_os \<Rightarrow> save_call \<Rightarrow> save_state \<Rightarrow> (u32 \<times> save_state) cpp" where
  "save_step os (SvSetup p) s = sceSaveDataSetupSaveDataMemory p s"
| "save_step os (SvCommit i) s = sceSaveDataCommitSaveData os i s"
| "save_step os (SvLoad i) s = sceSaveDataLoadSaveData os i s"
| "save_step os (SvGet i b z f) s = sceSaveDataGetSaveDataMemory i b z f s"
| "save_step os (SvSet i b z f) s = sceSaveDataSetSaveDataMemory i b z f s"
| "save_step os (SvDelete i) s = sceSaveDataDeleteSaveDataMemory os i s"
| "save_step os (SvSize i p) s = sceSaveDataGetSaveDataMemorySize i p s"

fun save_run :: "save_os \<Rightarrow> save_call list \<Rightarrow> save_state \<Rightarrow> save_state cpp" where
  "save_run os [] s = Val s"
| "save_run os (c # cs) s = cpp_bind (save_step os c s) (\<lambda>(_, s'). save_run os cs s')"

text \<open>The host paths save data may live at: clean paths below a writable mount.\<close>

definition save_area :: "save_os \<Rightarrow> string \<Rightarrow> bool" where
  "save_area os p \<longleftrightarrow> (\<exists>pol mp comps. so_policy os = Some pol \<and> mp \<in> set (m_mounts pol) \<and> \<not> readOnly mp
     \<and> list_all clean_component comps
     \<and> p = host_path (host_dir (m_vfsRoot pol) (hostSubdir mp)) comps)"

lemma save_areaI: "guestToHost os g = Val p \<Longrightarrow> p \<noteq> [] \<Longrightarrow> save_area os p"
  unfolding save_area_def by (erule guestToHost_inside) auto

lemma save_step_files:
  assumes "save_step os c s = Val (r, s')" and "\<not> save_area os p"
  shows "sd_files s' p = sd_files s p"
  using assms
proof (cases c)
  case (SvCommit i)
  then show ?thesis
    using assms save_areaI [of os]
    by (auto simp: sceSaveDataCommitSaveData_def cpp_bind_eq_Val_iff Let_def set_save_def
        split: option.splits if_splits)
next
  case (SvDelete i)
  show ?thesis
  proof (cases "um_find (sd_saves s) i")
    case None
    with SvDelete assms(1) show ?thesis by (simp add: sceSaveDataDeleteSaveDataMemory_def)
  next
    case (Some d)
    with SvDelete assms(1) obtain h
      where h: "guestToHost os (resolveSavePath (sv_titleId d) (sv_dirName d)) = Val h"
      and f: "sd_files s' = (if h = [] then sd_files s else (sd_files s)(h := None))"
      by (auto simp: sceSaveDataDeleteSaveDataMemory_def cpp_bind_eq_Val_iff Let_def set_save_def)
    then show ?thesis using save_areaI [OF h] assms(2) by auto
  qed
next
  case (SvLoad i)
  then show ?thesis
    using assms
    by (auto simp: sceSaveDataLoadSaveData_def cpp_bind_eq_Val_iff set_save_def
        split: option.splits if_splits)
next
  case (SvSetup q)
  then show ?thesis
    using assms
    by (auto simp: sceSaveDataSetupSaveDataMemory_def cpp_bind_eq_Val_iff Let_def
        split: option.splits if_splits)
next
  case (SvGet i b z f)
  then show ?thesis
    using assms
    by (auto simp: sceSaveDataGetSaveDataMemory_def cpp_bind_eq_Val_iff Let_def
        split: option.splits if_splits)
next
  case (SvSet i b z f)
  then show ?thesis
    using assms
    by (auto simp: sceSaveDataSetSaveDataMemory_def cpp_bind_eq_Val_iff Let_def set_save_def
        split: option.splits if_splits)
next
  case (SvSize i q)
  then show ?thesis
    using assms
    by (auto simp: sceSaveDataGetSaveDataMemorySize_def cpp_bind_eq_Val_iff split: option.splits if_splits)
qed

text \<open>
  C15. Save data stays in the sandbox. Whatever directory names and sequences of save-data calls the
  guest uses, as long as every call of the sequence is defined, every host file outside the writable mounts keeps its
  content: a file that changed is a writable mount's directory followed only by clean components. Of a sequence with an
  undefined call (an unreadable argument, an offset that wraps, \<open>set_memory_wraps\<close>) nothing is said.
\<close>

theorem save_data_confined:
  assumes "save_run os cs s = Val s'" and "sd_files s' p \<noteq> sd_files s p"
  shows "\<exists>pol mp comps. so_policy os = Some pol \<and> mp \<in> set (m_mounts pol) \<and> \<not> readOnly mp
    \<and> list_all clean_component comps \<and> p = host_path (host_dir (m_vfsRoot pol) (hostSubdir mp)) comps"
proof (rule ccontr)
  assume "\<not> ?thesis"
  then have out: "\<not> save_area os p" by (simp add: save_area_def)
  have "save_run os cs s = Val s' \<Longrightarrow> sd_files s' p = sd_files s p" for s
    by (induction cs arbitrary: s) (auto simp: cpp_bind_eq_Val_iff dest: save_step_files [OF _ out])
  with assms show False by blast
qed

theorem save_data_confined_witness:
  "\<exists>s'. save_run save_os_demo [SvCommit 1] save_demo = Val s'
     \<and> (\<exists>pol mp comps. so_policy save_os_demo = Some pol \<and> mp \<in> set (m_mounts pol) \<and> \<not> readOnly mp
          \<and> list_all clean_component comps
          \<and> ''virtual_fs/save/7/S01/sd.img'' = host_path (host_dir (m_vfsRoot pol) (hostSubdir mp)) comps)"
proof -
  have f: "um_find (sd_saves save_demo) 1 = Some save_dir_demo" by (simp add: save_demo_def um_find_def)
  have n: "sv_titleId save_dir_demo = ''7''" "sv_dirName save_dir_demo = ''S01''"
    by (simp_all add: save_dir_demo_def)
  obtain s1 where c: "save_run save_os_demo [SvCommit 1] save_demo = Val s1"
    and d: "sd_files s1 ''virtual_fs/save/7/S01/sd.img'' \<noteq> sd_files save_demo ''virtual_fs/save/7/S01/sd.img''"
    using f n save_demo_path
    by (simp add: sceSaveDataCommitSaveData_def set_save_def Let_def save_os_demo_def) (simp add: save_demo_def)
  from save_data_confined [OF c d] c show ?thesis by blast
qed

text \<open>
  The guest chooses offset and size, and their sum wraps around: such a call copies past the end
  of the buffer.
\<close>

lemma set_memory_wraps:
  assumes "um_find (sd_saves s) i = Some d" and "load_bytes (sd_mem s) buf (unat sz) = Val src"
    and "unat offset + unat sz \<ge> 2 ^ 64" and "length (SaveContainer_serialize (sv_container d)) < 2 ^ 63"
  shows "sceSaveDataSetSaveDataMemory i buf sz offset s = UB"
proof -
  let ?b = "SaveContainer_serialize (sv_container d)"
  have "unat (offset + sz) < 2 ^ 64" "(2 :: nat) ^ 63 \<le> 2 ^ 64" by simp_all
  then have "unat (offset + sz) < unat offset + unat sz" "length ?b < unat offset + unat sz"
    using assms(3,4) by linarith+
  with assms(1,2) show ?thesis by (auto simp: sceSaveDataSetSaveDataMemory_def Let_def split: if_splits)
qed

end
