(* ===== verification/Sce_Random.thy ===== *)
theory Sce_Random
  imports Guest_Words
begin

text \<open>
  libSceRandom (\<^verbatim>\<open>sce/random/SceRandom.cpp\<close>): the ChaCha20 generator every guest thread has, its
  seeding from \<^verbatim>\<open>getrandom\<close> and the three exports. The reference is ChaCha20 as rounds on the
  columns and diagonals of a matrix; the bytes the exports hand out are proved to be consecutive
  bytes of its key stream.
\<close>

section \<open>The block function\<close>

definition rotl32 :: "u32 \<Rightarrow> nat \<Rightarrow> u32" where
  "rotl32 v n = push_bit n v OR drop_bit (32 - n) v"

definition qr :: "u32 \<times> u32 \<times> u32 \<times> u32 \<Rightarrow> u32 \<times> u32 \<times> u32 \<times> u32" where
  "qr = (\<lambda>(a, b, c, d).
     let a = a + b; d = d XOR a; d = rotl32 d 16;
         c = c + d; b = b XOR c; b = rotl32 b 12;
         a = a + b; d = d XOR a; d = rotl32 d 8;
         c = c + d; b = b XOR c; b = rotl32 b 7
     in (a, b, c, d))"

text \<open>A call \<^verbatim>\<open>qr(x[i], x[j], x[k], x[l])\<close>: the references update the array.\<close>

definition qr_at :: "nat \<Rightarrow> nat \<Rightarrow> nat \<Rightarrow> nat \<Rightarrow> u32 list \<Rightarrow> u32 list" where
  "qr_at i j k l x =
     (case qr (x ! i, x ! j, x ! k, x ! l) of
        (a, b, c, d) \<Rightarrow> x[i := a, j := b, k := c, l := d])"

definition chacha_rounds :: "u32 list \<Rightarrow> u32 list" where
  "chacha_rounds x =
     (let x = qr_at 0 4 8 12 x; x = qr_at 1 5 9 13 x; x = qr_at 2 6 10 14 x; x = qr_at 3 7 11 15 x;
          x = qr_at 0 5 10 15 x; x = qr_at 1 6 11 12 x; x = qr_at 2 7 8 13 x
      in qr_at 3 4 9 14 x)"

definition chacha20Block :: "u32 list \<Rightarrow> u32 list" where
  "chacha20Block inp = map2 (+) ((chacha_rounds ^^ 10) inp) inp"

section \<open>The generator\<close>

record Drbg =
  dr_key :: "u32 list"
  dr_nonce :: "u32 list"
  dr_counter :: u64
  dr_buf :: "u8 list"
  dr_bufPos :: nat
  dr_produced :: u64
  dr_seeded :: bool

definition Drbg_new :: Drbg where
  "Drbg_new = \<lparr>dr_key = replicate 8 0, dr_nonce = replicate 2 0, dr_counter = 0,
     dr_buf = replicate 64 0, dr_bufPos = 64, dr_produced = 0, dr_seeded = False\<rparr>"

text \<open>
  \<^verbatim>\<open>getrandom\<close> answers with the 40 bytes asked for or not at all (\<open>None\<close>: an error or fewer
  bytes).
\<close>

definition reseedFromKernel :: "u8 list option \<Rightarrow> Drbg \<Rightarrow> bool \<times> Drbg" where
  "reseedFromKernel seed d =
     (case seed of
        None \<Rightarrow> (False, d)
      | Some s \<Rightarrow>
          (True, d\<lparr>dr_key := map (\<lambda>i. le_field (4 * i) 4 s) [0..<8],
                   dr_nonce := map (\<lambda>i. le_field (32 + 4 * i) 4 s) [0..<2],
                   dr_counter := 0, dr_bufPos := 64, dr_produced := 0, dr_seeded := True\<rparr>))"

definition chacha_state :: "u32 list \<Rightarrow> u32 list \<Rightarrow> u64 \<Rightarrow> u32 list" where
  "chacha_state key nonce counter =
     [0x61707865, 0x3320646e, 0x79622d32, 0x6b206574] @ key
     @ [ucast counter, ucast (drop_bit 32 counter)] @ nonce"

definition refill :: "Drbg \<Rightarrow> Drbg" where
  "refill d =
     d\<lparr>dr_buf := concat (map (le_bytes 4)
         (chacha20Block (chacha_state (dr_key d) (dr_nonce d) (dr_counter d)))),
       dr_counter := dr_counter d + 1, dr_bufPos := 0\<rparr>"

lemma dr_bufPos_refill [simp]: "dr_bufPos (refill d) = 0"
  by (simp add: refill_def)

text \<open>The loop of \<^verbatim>\<open>fillBytes\<close>: the bytes it copies, in order, and the state it leaves.\<close>

function fill_loop :: "Drbg \<Rightarrow> nat \<Rightarrow> u8 list \<times> Drbg" where
  "fill_loop d n =
     (if n = 0 then ([], d)
      else
        let d = (if 64 \<le> dr_bufPos d then refill d else d);
            t = min n (64 - dr_bufPos d);
            piece = take t (drop (dr_bufPos d) (dr_buf d));
            r = fill_loop (d\<lparr>dr_bufPos := dr_bufPos d + t,
                             dr_produced := dr_produced d + of_nat t\<rparr>) (n - t)
        in (piece @ fst r, snd r))"
  by pat_completeness auto

termination by (relation "measure snd") (auto simp: min_def)

declare fill_loop.simps [simp del]

text \<open>
  \<^verbatim>\<open>fillBytes\<close>: \<open>g1\<close> and \<open>g2\<close> are the answers to the first seeding and to the reseeding after
  1 MiB. The bytes go to guest memory in order.
\<close>

definition fillBytes ::
  "u8 list option \<Rightarrow> u8 list option \<Rightarrow> u64 \<Rightarrow> u64 \<Rightarrow> Drbg \<times> memory \<Rightarrow> (Drbg \<times> memory) cpp" where
  "fillBytes g1 g2 dst n = (\<lambda>(d, m).
     let (ok, d) = (if dr_seeded d then (True, d) else reseedFromKernel g1 d)
     in if \<not> ok then cpp_bind (store_bytes dst (replicate (unat n) 0) m) (\<lambda>m. Val (d, m))
        else
          let d = (if 1048576 < dr_produced d + n then snd (reseedFromKernel g2 d) else d);
              (bs, d) = fill_loop d (unat n)
          in cpp_bind (store_bytes dst bs m) (\<lambda>m. Val (d, m)))"

definition sceRandomGetRandomNumber ::
  "u8 list option \<Rightarrow> u8 list option \<Rightarrow> u64 \<Rightarrow> u64 \<Rightarrow> Drbg \<times> memory \<Rightarrow> (u32 \<times> Drbg \<times> memory) cpp" where
  "sceRandomGetRandomNumber g1 g2 dst n st =
     (if dst = 0 \<and> n > 0 then Val (0x80020005, st)
      else cpp_bind (fillBytes g1 g2 dst n st) (\<lambda>st. Val (0, st)))"

text \<open>
  The other two exports fill a local variable, here the bytes it then holds. The conversion of
  a 32-bit integer to \<^verbatim>\<open>float\<close> rounds to 24 significant bits, ties to even; the division by
  \<open>2 ^ 32\<close> is exact, so the result is the rounded integer in units of \<open>2 ^ -32\<close>.
\<close>

definition fill_local :: "u8 list option \<Rightarrow> u8 list option \<Rightarrow> nat \<Rightarrow> Drbg \<Rightarrow> u8 list \<times> Drbg" where
  "fill_local g1 g2 n d =
     (let (ok, d) = (if dr_seeded d then (True, d) else reseedFromKernel g1 d)
      in if \<not> ok then (replicate n 0, d)
         else fill_loop (if 1048576 < dr_produced d + of_nat n then snd (reseedFromKernel g2 d) else d) n)"

definition sceRandomGetRandomValue :: "u8 list option \<Rightarrow> u8 list option \<Rightarrow> Drbg \<Rightarrow> u64 \<times> Drbg" where
  "sceRandomGetRandomValue g1 g2 d =
     (let (bs, d) = fill_local g1 g2 8 d in (le_field 0 8 bs, d))"

fun float_bits :: "int \<Rightarrow> nat \<Rightarrow> int" where
  "float_bits v 0 = v"
| "float_bits v (Suc e) =
     (if v < 2 ^ (24 + e) then float_bits v e
      else let u = 2 ^ Suc e; q = v div u; r = v mod u
           in if 2 * r > u \<or> 2 * r = u \<and> odd q then (q + 1) * u else q * u)"

definition sceRandomGetRandomFloat :: "u8 list option \<Rightarrow> u8 list option \<Rightarrow> Drbg \<Rightarrow> int \<times> Drbg" where
  "sceRandomGetRandomFloat g1 g2 d =
     (let (bs, d) = fill_local g1 g2 4 d in (float_bits (uint (le_field 0 4 bs :: u32)) 8, d))"

section \<open>ChaCha20 as a reference\<close>

text \<open>
  The state is a matrix of four rows. A round works on the four columns; between the two rounds
  of a double round the rows are rotated so that the diagonals become columns.
\<close>

definition quarter_round :: "u32 \<times> u32 \<times> u32 \<times> u32 \<Rightarrow> u32 \<times> u32 \<times> u32 \<times> u32" where
  "quarter_round = (\<lambda>(a, b, c, d).
     let step = (\<lambda>n (x, y, z). (x + y, word_rotl n (z XOR (x + y))));
         (a, d) = step 16 (a, b, d); (c, b) = step 12 (c, d, b);
         (a, d) = step 8 (a, b, d); (c, b) = step 7 (c, d, b)
     in (a, b, c, d))"

definition mat_row :: "nat \<Rightarrow> u32 list \<Rightarrow> u32 list" where
  "mat_row i x = take 4 (drop (4 * i) x)"

definition column_round :: "u32 list \<Rightarrow> u32 list" where
  "column_round x =
     (let cs = map (\<lambda>i. quarter_round (mat_row 0 x ! i, mat_row 1 x ! i, mat_row 2 x ! i, mat_row 3 x ! i))
                 [0..<4]
      in map fst cs @ map (fst \<circ> snd) cs @ map (fst \<circ> snd \<circ> snd) cs @ map (snd \<circ> snd \<circ> snd) cs)"

definition shift_rows :: "nat \<Rightarrow> u32 list \<Rightarrow> u32 list" where
  "shift_rows n x = concat (map (\<lambda>i. rotate (n * i) (mat_row i x)) [0..<4])"

definition double_round :: "u32 list \<Rightarrow> u32 list" where
  "double_round x = shift_rows 3 (column_round (shift_rows 1 (column_round x)))"

text \<open>
  The initial matrix, out of 64 bytes: the text \<open>expand 32-byte k\<close>, the 32 bytes of the key, the block number
  in eight bytes, least significant first, and the nonce. Its words are the little-endian values of four
  bytes, and the key stream writes words back in that order. Byte \<open>i\<close> of the stream lies in block \<open>i div 64\<close>.
\<close>

definition chacha_word :: "u8 list \<Rightarrow> nat \<Rightarrow> u32" where
  "chacha_word bs i =
     of_nat (unat (bs ! (4 * i)) + 256 * unat (bs ! (4 * i + 1)) + 256 ^ 2 * unat (bs ! (4 * i + 2))
             + 256 ^ 3 * unat (bs ! (4 * i + 3)))"

definition chacha_bytes :: "nat \<Rightarrow> nat \<Rightarrow> u8 list" where
  "chacha_bytes k n = map (\<lambda>j. of_nat (n div 256 ^ j mod 256)) [0..<k]"

definition chacha_matrix :: "u8 list \<Rightarrow> nat \<Rightarrow> u32 list" where
  "chacha_matrix seed c =
     map (chacha_word (map of_char ''expand 32-byte k'' @ take 32 seed @ chacha_bytes 8 c @ drop 32 seed)) [0..<16]"

definition chacha20_block :: "u8 list \<Rightarrow> nat \<Rightarrow> u8 list" where
  "chacha20_block seed c =
     (let x = chacha_matrix seed c
      in concat (map (\<lambda>w. chacha_bytes 4 (unat w)) (map2 (+) ((double_round ^^ 10) x) x)))"

definition chacha20_stream :: "u8 list \<Rightarrow> nat \<Rightarrow> u8" where
  "chacha20_stream seed i = chacha20_block seed (i div 64) ! (i mod 64)"

section \<open>The block function computes ChaCha20\<close>

lemma rotl32_word_rotl: "0 < n \<Longrightarrow> n < 32 \<Longrightarrow> rotl32 v n = word_rotl n v"
proof (rule bit_word_eqI)
  fix i assume n: "0 < n" "n < 32" and i: "i < LENGTH(32)"
  show "bit (rotl32 v n) i = bit (word_rotl n v) i"
  proof (cases "n \<le> i")
    case True
    then have "(i + 32 - n) mod 32 = i - n" using n i by (simp add: mod_if)
    moreover have "\<not> bit v (32 + i - n)" using True by (auto dest: bit_imp_le_length)
    ultimately show ?thesis using n i True
      by (auto simp: rotl32_def bit_or_iff bit_drop_bit_eq bit_push_bit_iff bit_word_rotl_iff)
  next
    case False
    then have "i + (32 - n) < 32" and "32 - n + i = i + (32 - n)" using n i by simp_all
    with n i False show ?thesis
      by (auto simp: rotl32_def bit_or_iff bit_drop_bit_eq bit_push_bit_iff bit_word_rotl_iff
          simp del: diff_add_assoc2)
  qed
qed

lemma qr_quarter_round: "qr = quarter_round"
  by (simp add: qr_def quarter_round_def rotl32_word_rotl Let_def fun_eq_iff)

lemma length_16:
  assumes "length x = 16"
  obtains x0 x1 x2 x3 x4 x5 x6 x7 x8 x9 x10 x11 x12 x13 x14 x15
    where "x = [x0, x1, x2, x3, x4, x5, x6, x7, x8, x9, x10, x11, x12, x13, x14, x15]"
proof -
  have "x = map (\<lambda>i. x ! i) [0..<16]" using map_nth [of x] assms by simp
  then show ?thesis by (auto simp: upt_rec intro: that)
qed

lemma length_qr_at [simp]: "length (qr_at i j k l x) = length x"
  by (simp add: qr_at_def split: prod.splits)

lemma length_chacha_rounds [simp]: "length (chacha_rounds x) = length x"
  by (simp add: chacha_rounds_def)

lemma chacha_rounds_double_round:
  assumes "length x = 16"
  shows "chacha_rounds x = double_round x"
proof -
  from assms obtain x0 x1 x2 x3 x4 x5 x6 x7 x8 x9 x10 x11 x12 x13 x14 x15
    where x: "x = [x0, x1, x2, x3, x4, x5, x6, x7, x8, x9, x10, x11, x12, x13, x14, x15]"
    by (rule length_16)
  obtain a0 b0 c0 d0 where 0: "quarter_round (x0, x4, x8, x12) = (a0, b0, c0, d0)" by (rule prod_cases4)
  obtain a1 b1 c1 d1 where 1: "quarter_round (x1, x5, x9, x13) = (a1, b1, c1, d1)" by (rule prod_cases4)
  obtain a2 b2 c2 d2 where 2: "quarter_round (x2, x6, x10, x14) = (a2, b2, c2, d2)" by (rule prod_cases4)
  obtain a3 b3 c3 d3 where 3: "quarter_round (x3, x7, x11, x15) = (a3, b3, c3, d3)" by (rule prod_cases4)
  obtain e0 f0 g0 h0 where 4: "quarter_round (a0, b1, c2, d3) = (e0, f0, g0, h0)" by (rule prod_cases4)
  obtain e1 f1 g1 h1 where 5: "quarter_round (a1, b2, c3, d0) = (e1, f1, g1, h1)" by (rule prod_cases4)
  obtain e2 f2 g2 h2 where 6: "quarter_round (a2, b3, c0, d1) = (e2, f2, g2, h2)" by (rule prod_cases4)
  obtain e3 f3 g3 h3 where 7: "quarter_round (a3, b0, c1, d2) = (e3, f3, g3, h3)" by (rule prod_cases4)
  let ?r = "[e0, e1, e2, e3, f3, f0, f1, f2, g2, g3, g0, g1, h1, h2, h3, h0]"
  have s0: "qr_at 0 4 8 12 [x0, x1, x2, x3, x4, x5, x6, x7, x8, x9, x10, x11, x12, x13, x14, x15]
      = [a0, x1, x2, x3, b0, x5, x6, x7, c0, x9, x10, x11, d0, x13, x14, x15]"
    by (simp add: qr_at_def qr_quarter_round 0)
  have s1: "qr_at 1 5 9 13 [a0, x1, x2, x3, b0, x5, x6, x7, c0, x9, x10, x11, d0, x13, x14, x15]
      = [a0, a1, x2, x3, b0, b1, x6, x7, c0, c1, x10, x11, d0, d1, x14, x15]"
    by (simp add: qr_at_def qr_quarter_round 1)
  have s2: "qr_at 2 6 10 14 [a0, a1, x2, x3, b0, b1, x6, x7, c0, c1, x10, x11, d0, d1, x14, x15]
      = [a0, a1, a2, x3, b0, b1, b2, x7, c0, c1, c2, x11, d0, d1, d2, x15]"
    by (simp add: qr_at_def qr_quarter_round 2)
  have s3: "qr_at 3 7 11 15 [a0, a1, a2, x3, b0, b1, b2, x7, c0, c1, c2, x11, d0, d1, d2, x15]
      = [a0, a1, a2, a3, b0, b1, b2, b3, c0, c1, c2, c3, d0, d1, d2, d3]"
    by (simp add: qr_at_def qr_quarter_round 3)
  have s4: "qr_at 0 5 10 15 [a0, a1, a2, a3, b0, b1, b2, b3, c0, c1, c2, c3, d0, d1, d2, d3]
      = [e0, a1, a2, a3, b0, f0, b2, b3, c0, c1, g0, c3, d0, d1, d2, h0]"
    by (simp add: qr_at_def qr_quarter_round 4)
  have s5: "qr_at 1 6 11 12 [e0, a1, a2, a3, b0, f0, b2, b3, c0, c1, g0, c3, d0, d1, d2, h0]
      = [e0, e1, a2, a3, b0, f0, f1, b3, c0, c1, g0, g1, h1, d1, d2, h0]"
    by (simp add: qr_at_def qr_quarter_round 5)
  have s6: "qr_at 2 7 8 13 [e0, e1, a2, a3, b0, f0, f1, b3, c0, c1, g0, g1, h1, d1, d2, h0]
      = [e0, e1, e2, a3, b0, f0, f1, f2, g2, c1, g0, g1, h1, h2, d2, h0]"
    by (simp add: qr_at_def qr_quarter_round 6)
  have s7: "qr_at 3 4 9 14 [e0, e1, e2, a3, b0, f0, f1, f2, g2, c1, g0, g1, h1, h2, d2, h0]
      = [e0, e1, e2, e3, f3, f0, f1, f2, g2, g3, g0, g1, h1, h2, h3, h0]"
    by (simp add: qr_at_def qr_quarter_round 7)
  have "chacha_rounds x = ?r"
    by (simp only: chacha_rounds_def Let_def x s0 s1 s2 s3 s4 s5 s6 s7)
  moreover have cols: "column_round x = [a0, a1, a2, a3, b0, b1, b2, b3, c0, c1, c2, c3, d0, d1, d2, d3]"
    by (simp add: column_round_def mat_row_def upt_rec x 0 1 2 3)
  have "column_round (shift_rows 1 (column_round x))
      = [e0, e1, e2, e3, f0, f1, f2, f3, g0, g1, g2, g3, h0, h1, h2, h3]"
    unfolding cols
    by (simp add: column_round_def shift_rows_def mat_row_def upt_rec rotate_def eval_nat_numeral 4 5 6 7
        del: rotate_Suc)
  then have "double_round x = ?r"
    by (simp add: double_round_def shift_rows_def mat_row_def upt_rec rotate_def eval_nat_numeral)
  ultimately show ?thesis by simp
qed

lemma chacha20Block_reference:
  assumes "length x = 16"
  shows "chacha20Block x = map2 (+) ((double_round ^^ 10) x) x"
proof -
  have "(chacha_rounds ^^ n) x = (double_round ^^ n) x \<and> length ((chacha_rounds ^^ n) x) = 16" for n
  proof (induction n)
    case (Suc n)
    then have "length ((double_round ^^ n) x) = 16" by metis
    from chacha_rounds_double_round [OF this] Suc show ?case by (metis comp_apply funpow.simps(2) length_chacha_rounds)
  qed (simp add: assms)
  then show ?thesis by (simp add: chacha20Block_def)
qed

section \<open>The initial state\<close>

lemma le_bytes_chacha: "le_bytes 4 (w :: u32) = chacha_bytes 4 (unat w)"
  unfolding le_bytes_def chacha_bytes_def
proof (rule map_cong [OF refl])
  fix j assume "j \<in> set [0..<4]"
  have "unat (drop_bit (8 * j) w) = drop_bit (8 * j) (unat w)" by (rule unat_drop_bit_eq)
  then have "unat w div 256 ^ j = unat (drop_bit (8 * j) w)" by (simp only: drop_bit_eq_div power_mult) simp
  moreover have "n mod 256 = take_bit 8 n" for n :: nat by (simp add: take_bit_eq_mod)
  ultimately have e: "unat w div 256 ^ j mod 256 = take_bit 8 (unat (drop_bit (8 * j) w))" by simp
  show "ucast (drop_bit (8 * j) w) = (of_nat (unat w div 256 ^ j mod 256) :: u8)"
    unfolding e by (rule bit_word_eqI) (simp add: bit_word_of_nat bit_take_bit_iff bit_ucast_iff bit_unsigned_iff)
qed

lemma le_bytes_chacha_fun: "le_bytes 4 = (\<lambda>w :: u32. chacha_bytes 4 (unat w))"
  by (simp add: fun_eq_iff le_bytes_chacha)

lemma le_field_chacha:
  assumes "off + 4 \<le> length bs"
  shows "(le_field off 4 bs :: u32) = of_nat (unat (bs ! off) + 256 * unat (bs ! (off + 1))
      + 256 ^ 2 * unat (bs ! (off + 2)) + 256 ^ 3 * unat (bs ! (off + 3)))"
proof -
  have "take 4 (drop off bs) = [bs ! off, bs ! (off + 1), bs ! (off + 2), bs ! (off + 3)]"
    using assms by (intro nth_equalityI) (auto simp: less_Suc_eq numeral_eq_Suc)
  then show ?thesis by (simp add: le_field_def algebra_simps)
qed

lemma four_bytes: "n mod 256 + 256 * (n div 256 mod 256) + 65536 * (n div 65536 mod 256)
    + 16777216 * (n div 16777216 mod 256) = n mod 2 ^ 32" for n :: nat
proof -
  have "n mod (256 * (256 * (256 * 256)))
      = 256 * (256 * (256 * (n div 256 div 256 div 256 mod 256) + n div 256 div 256 mod 256) + n div 256 mod 256) + n mod 256"
    by (simp only: mod_mult2_eq [of n 256] mod_mult2_eq [of "n div 256" 256] mod_mult2_eq [of "n div 256 div 256" 256])
  then show ?thesis by (simp add: div_mult2_eq [symmetric])
qed

lemma word_of_counter:
  "(of_nat (n mod 2 ^ 32) :: u32) = ucast (of_nat n :: u64)"
  "(of_nat (n div 2 ^ 32 mod 2 ^ 32) :: u32) = ucast (drop_bit 32 (of_nat n :: u64))"
proof -
  have m: "n mod 2 ^ 32 = take_bit 32 n" and d: "n div 2 ^ 32 mod 2 ^ 32 = take_bit 32 (drop_bit 32 n)"
    by (simp_all only: take_bit_eq_mod drop_bit_eq_div)
  show "(of_nat (n mod 2 ^ 32) :: u32) = ucast (of_nat n :: u64)"
    unfolding m by (rule bit_word_eqI) (simp add: bit_word_of_nat bit_ucast_iff bit_take_bit_iff)
  show "(of_nat (n div 2 ^ 32 mod 2 ^ 32) :: u32) = ucast (drop_bit 32 (of_nat n :: u64))"
    unfolding d by (rule bit_word_eqI)
      (simp add: bit_word_of_nat bit_ucast_iff bit_take_bit_iff bit_drop_bit_eq)
qed

lemma chacha_state_matrix:
  assumes "length seed = 40"
  shows "chacha_state (map (\<lambda>i. le_field (4 * i) 4 seed) [0..<8]) (map (\<lambda>i. le_field (32 + 4 * i) 4 seed) [0..<2])
      (of_nat c) = chacha_matrix seed c"
proof -
  define ex where "ex = (map of_char ''expand 32-byte k'' :: u8 list)"
  define bs where "bs = ex @ take 32 seed @ chacha_bytes 8 c @ drop 32 seed"
  have l: "length ex = 16" "length (chacha_bytes 8 c) = 8" by (simp_all add: ex_def chacha_bytes_def)
  have sig: "bs ! k = ex ! k" if "k < 16" for k
    using that by (simp add: bs_def nth_append l)
  have key: "bs ! (16 + k) = seed ! k" if "k < 32" for k
    using that assms by (simp add: bs_def nth_append l)
  have cnt: "bs ! (48 + k) = of_nat (c div 256 ^ k mod 256)" if "k < 8" for k
    using that assms by (simp add: bs_def nth_append l) (simp add: chacha_bytes_def)
  have nonce: "bs ! (56 + k) = seed ! (32 + k)" if "k < 8" for k
    using that assms by (simp add: bs_def nth_append l)
  have sigma: "map (chacha_word bs) [0..<4] = [0x61707865, 0x3320646e, 0x79622d32, 0x6b206574]"
    unfolding chacha_word_def by (simp add: upt_rec sig ex_def)
  have "chacha_word bs (4 + i) = le_field (4 * i) 4 seed" if "i < 8" for i
    using that assms key [of "4 * i"] key [of "4 * i + 1"] key [of "4 * i + 2"] key [of "4 * i + 3"]
    by (simp add: chacha_word_def le_field_chacha algebra_simps)
  then have keys: "map (chacha_word bs) [4..<12] = map (\<lambda>i. le_field (4 * i) 4 seed) [0..<8]"
    by (intro nth_equalityI) (simp_all del: upt_Suc upt_rec_numeral)
  have c0: "chacha_word bs 12 = ucast (of_nat c :: u64)"
    using cnt [of 0] cnt [of 1] cnt [of 2] cnt [of 3] four_bytes [of c] word_of_counter(1) [of c]
    by (simp add: chacha_word_def unat_of_nat take_bit_eq_mod)
  have c1: "chacha_word bs 13 = ucast (drop_bit 32 (of_nat c :: u64))"
    using cnt [of 4] cnt [of 5] cnt [of 6] cnt [of 7] four_bytes [of "c div 2 ^ 32"] word_of_counter(2) [of c]
    by (simp add: chacha_word_def unat_of_nat take_bit_eq_mod div_mult2_eq [symmetric])
  have "chacha_word bs (14 + i) = le_field (32 + 4 * i) 4 seed" if "i < 2" for i
    using that assms nonce [of "4 * i"] nonce [of "4 * i + 1"] nonce [of "4 * i + 2"] nonce [of "4 * i + 3"]
    by (simp add: chacha_word_def le_field_chacha algebra_simps)
  then have ns: "map (chacha_word bs) [14..<16] = map (\<lambda>i. le_field (32 + 4 * i) 4 seed) [0..<2]"
    by (intro nth_equalityI) (simp_all del: upt_Suc upt_rec_numeral)
  have "[0..<16] = [0..<4] @ [4..<12] @ [12, 13] @ [14..<16 :: nat]" by (simp add: upt_rec)
  then show ?thesis
    unfolding chacha_matrix_def chacha_state_def ex_def [symmetric] bs_def [symmetric]
    by (simp only: map_append sigma keys ns list.map c0 c1)
qed

lemma length_chacha_matrix: "length (chacha_matrix seed c) = 16"
  by (simp add: chacha_matrix_def)

section \<open>What the exports hand out\<close>

text \<open>
  The generator stands at position \<open>pos\<close> of the stream of its seed: the counter and the place in
  the buffer say so, and what is left of the buffer is the rest of the block before the counter.
\<close>

definition drbg_at :: "u8 list \<Rightarrow> Drbg \<Rightarrow> nat \<Rightarrow> bool" where
  "drbg_at seed d pos \<longleftrightarrow>
     length seed = 40 \<and> dr_seeded d \<and> dr_key d = map (\<lambda>i. le_field (4 * i) 4 seed) [0..<8]
     \<and> dr_nonce d = map (\<lambda>i. le_field (32 + 4 * i) 4 seed) [0..<2]
     \<and> dr_bufPos d \<le> 64 \<and> pos + 64 = 64 * unat (dr_counter d) + dr_bufPos d
     \<and> (dr_bufPos d < 64 \<longrightarrow> dr_buf d = chacha20_block seed (unat (dr_counter d) - 1))
     \<and> dr_produced d = of_nat pos"

lemma reseed_at:
  "length seed = 40 \<Longrightarrow> drbg_at seed (snd (reseedFromKernel (Some seed) d)) 0"
  by (simp add: drbg_at_def reseedFromKernel_def)

lemma length_chacha_state: "length key = 8 \<Longrightarrow> length nonce = 2 \<Longrightarrow> length (chacha_state key nonce c) = 16"
  by (simp add: chacha_state_def)

lemma length_chacha_funpow [simp]: "length ((chacha_rounds ^^ n) x) = length x"
  by (induction n) simp_all

lemma length_concat_le_bytes: "length (concat (map (le_bytes n) ws)) = length ws * n"
  by (induction ws) simp_all

lemma refill_block:
  assumes "drbg_at seed d pos" and "64 \<le> dr_bufPos d" and "pos < 2 ^ 64"
  shows "drbg_at seed (refill d) pos"
proof -
  from assms have b: "dr_bufPos d = 64" and p: "pos = 64 * unat (dr_counter d)"
    by (simp_all add: drbg_at_def)
  have c: "unat (dr_counter d + 1) = unat (dr_counter d) + 1"
    using assms(3) p by (subst unat_add_no_wrap) simp_all
  have "dr_buf (refill d) = chacha20_block seed (unat (dr_counter d))"
    using assms(1) chacha_state_matrix [of seed "unat (dr_counter d)"]
    by (simp add: refill_def chacha20_block_def Let_def chacha20Block_reference drbg_at_def le_bytes_chacha_fun
        length_chacha_matrix)
  with assms(1) b p c show ?thesis by (simp add: drbg_at_def refill_def)
qed

lemma length_chacha20_block: "length (chacha20_block seed c) = 64"
proof -
  let ?x = "chacha_matrix seed c"
  have l: "length ?x = 16" by (simp add: chacha_matrix_def)
  then have "chacha20_block seed c = concat (map (le_bytes 4) (chacha20Block ?x))"
    by (simp add: chacha20_block_def Let_def chacha20Block_reference le_bytes_chacha_fun)
  moreover have "length (chacha20Block ?x) = 16" using l by (simp add: chacha20Block_def)
  ultimately show ?thesis by (simp only: length_concat_le_bytes)
qed

text \<open>A piece out of the buffer is the next piece of the stream.\<close>

lemma buffer_piece:
  assumes "drbg_at seed d pos" and "dr_bufPos d < 64" and "t \<le> 64 - dr_bufPos d"
  shows "take t (drop (dr_bufPos d) (dr_buf d)) = map (chacha20_stream seed) [pos..<pos + t]"
proof (rule nth_equalityI)
  let ?c = "unat (dr_counter d)" and ?b = "dr_bufPos d"
  from assms have e: "pos + 64 = 64 * ?c + ?b" and buf: "dr_buf d = chacha20_block seed (?c - 1)"
    by (simp_all add: drbg_at_def)
  then have c: "0 < ?c" using assms(2) by (cases ?c) auto
  show "length (take t (drop ?b (dr_buf d))) = length (map (chacha20_stream seed) [pos..<pos + t])"
    using assms(3) by (simp add: buf length_chacha20_block)
  fix i assume i: "i < length (take t (drop ?b (dr_buf d)))"
  then have "i < t" by simp
  then have b: "?b + i < 64" using assms(3) by simp
  have p: "pos + i = (?b + i) + (?c - 1) * 64" using e c by (cases ?c) auto
  have "(pos + i) div 64 = ?c - 1" and "(pos + i) mod 64 = ?b + i"
    unfolding p using b by (simp_all only: div_mult_self1 mod_mult_self1) simp_all
  with \<open>i < t\<close> b show "take t (drop ?b (dr_buf d)) ! i = map (chacha20_stream seed) [pos..<pos + t] ! i"
    by (simp add: chacha20_stream_def buf length_chacha20_block)
qed

lemma fill_loop_stream:
  assumes "drbg_at seed d pos" and "pos + n < 2 ^ 64"
  shows "fst (fill_loop d n) = map (chacha20_stream seed) [pos..<pos + n]
    \<and> drbg_at seed (snd (fill_loop d n)) (pos + n)"
  using assms
proof (induction d n arbitrary: pos rule: fill_loop.induct)
  case (1 d n)
  show ?case
  proof (cases "n = 0")
    case True
    with 1(2) show ?thesis by (simp add: fill_loop.simps)
  next
    case False
    define d1 where "d1 = (if 64 \<le> dr_bufPos d then refill d else d)"
    define t where "t = min n (64 - dr_bufPos d1)"
    define d2 where "d2 = d1\<lparr>dr_bufPos := dr_bufPos d1 + t, dr_produced := dr_produced d1 + of_nat t\<rparr>"
    have d1: "drbg_at seed d1 pos" "dr_bufPos d1 < 64"
      using 1(2,3) refill_block [of seed d pos] by (auto simp: d1_def)
    have t: "t \<le> 64 - dr_bufPos d1" "t \<le> n" by (simp_all add: t_def)
    have d2: "drbg_at seed d2 (pos + t)" using d1 t by (auto simp: drbg_at_def d2_def)
    have IH: "fst (fill_loop d2 (n - t)) = map (chacha20_stream seed) [pos + t..<pos + n]
        \<and> drbg_at seed (snd (fill_loop d2 (n - t))) (pos + n)"
      using 1(1) [OF False d1_def t_def HOL.refl, folded d2_def, OF d2] 1(3) t by simp
    have "fill_loop d n = (take t (drop (dr_bufPos d1) (dr_buf d1)) @ fst (fill_loop d2 (n - t)),
        snd (fill_loop d2 (n - t)))"
      using False by (subst fill_loop.simps) (simp add: Let_def d1_def t_def d2_def)
    moreover have "[pos..<pos + n] = [pos..<pos + t] @ [pos + t..<pos + n]"
      using t(2) by (metis le_add1 le_add_diff_inverse add.assoc upt_add_eq_append)
    ultimately show ?thesis using IH buffer_piece [OF d1 t(1)] by simp
  qed
qed

lemma fillBytes_stream:
  assumes "drbg_at seed d pos" and "pos + unat n \<le> 1048576"
  shows "fillBytes g1 g2 dst n (d, m) =
    cpp_bind (store_bytes dst (map (chacha20_stream seed) [pos..<pos + unat n]) m)
      (\<lambda>m. Val (snd (fill_loop d (unat n)), m))"
    and "drbg_at seed (snd (fill_loop d (unat n))) (pos + unat n)"
proof -
  have p: "pos + unat n < 2 ^ 64" using assms(2) by simp
  note f = fill_loop_stream [OF assms(1) p]
  show "drbg_at seed (snd (fill_loop d (unat n))) (pos + unat n)" using f by blast
  have "unat (of_nat pos + n :: u64) = pos + unat n"
    using assms(2) p by (subst unat_add_no_wrap) (simp_all add: unat_of_nat take_bit_nat_eq_self)
  then have "\<not> 1048576 < dr_produced d + n"
    using assms by (simp add: drbg_at_def word_less_unat)
  moreover have "fill_loop d (unat n) = (map (chacha20_stream seed) [pos..<pos + unat n],
      snd (fill_loop d (unat n)))" using f by (metis prod.collapse)
  ultimately show "fillBytes g1 g2 dst n (d, m) =
    cpp_bind (store_bytes dst (map (chacha20_stream seed) [pos..<pos + unat n]) m)
      (\<lambda>m. Val (snd (fill_loop d (unat n)), m))"
    using assms(1) by (auto simp: fillBytes_def Let_def drbg_at_def split: prod.splits)
qed

text \<open>
  A client that asks for bytes and reads each buffer after its call. Whether and how
  \<^verbatim>\<open>getrandom\<close> answers later is left open.
\<close>

fun random_run ::
  "(nat \<Rightarrow> u8 list option) \<Rightarrow> (u64 \<times> u64) list \<Rightarrow> Drbg \<times> memory \<Rightarrow> u8 list list cpp" where
  "random_run g [] st = Val []"
| "random_run g ((dst, n) # reqs) st =
     cpp_bind (sceRandomGetRandomNumber (g (2 * length reqs)) (g (2 * length reqs + 1)) dst n st) (\<lambda>(rc, d, m).
     cpp_bind (load_bytes m dst (unat n)) (\<lambda>bs.
     cpp_bind (random_run g reqs (d, m)) (\<lambda>rest. Val (bs # rest))))"

lemma random_run_stream:
  assumes "drbg_at seed d pos" and "pos + sum_list (map (\<lambda>r. unat (snd r)) reqs) \<le> 1048576"
    and "list_all (\<lambda>(dst, n). dst \<noteq> 0 \<and> (\<forall>i<unat n. m (dst + of_nat i) \<noteq> None)) reqs"
  shows "\<exists>outs. random_run g reqs (d, m) = Val outs
    \<and> concat outs = map (chacha20_stream seed) [pos..<pos + sum_list (map (\<lambda>r. unat (snd r)) reqs)]"
  using assms
proof (induction reqs arbitrary: d m pos)
  case (Cons r reqs)
  obtain dst n where r: "r = (dst, n)" by (cases r)
  let ?bs = "map (chacha20_stream seed) [pos..<pos + unat n]" and ?d = "snd (fill_loop d (unat n))"
  let ?k = "sum_list (map (\<lambda>r. unat (snd r)) reqs)"
  have n: "pos + unat n \<le> 1048576" using Cons.prems(2) by (simp add: r)
  note f = fillBytes_stream [OF Cons.prems(1) n]
  from Cons.prems(3) obtain m' where st: "store_bytes dst ?bs m = Val m'"
    using store_bytes_total [of ?bs m dst] by (auto simp: r)
  then have ld: "load_bytes m' dst (unat n) = Val ?bs"
    using load_store_bytes [OF st] by simp
  have "m' x = None \<longleftrightarrow> m x = None" for x
    using store_bytes_dom [OF st] by (metis domIff)
  then have "\<exists>outs. random_run g reqs (?d, m') = Val outs
      \<and> concat outs = map (chacha20_stream seed) [pos + unat n..<pos + unat n + ?k]"
    using Cons.prems(2,3) by (intro Cons.IH [OF f(2)]) (simp_all add: r)
  then obtain rest where rest: "random_run g reqs (?d, m') = Val rest"
    "concat rest = map (chacha20_stream seed) [pos + unat n..<pos + unat n + ?k]" by blast
  have "random_run g (r # reqs) (d, m) = Val (?bs # rest)"
    using Cons.prems(3) st ld rest(1) by (simp add: r sceRandomGetRandomNumber_def f(1))
  moreover have "[pos..<pos + unat n + ?k] = [pos..<pos + unat n] @ [pos + unat n..<pos + unat n + ?k]"
    by (rule upt_add_eq_append) simp
  ultimately show ?case using rest(2) by (simp add: r add.assoc)
qed simp

text \<open>
  C23. The random bytes. After a seeding with 40 bytes, whatever mapped buffers the guest thread asks to fill,
  every call is defined and the bytes it gets are consecutive bytes of the ChaCha20 key stream
  for that seed, from its start, up to the reseeding after 1 MiB: no byte of the stream is
  skipped or handed out twice.
\<close>

theorem random_bytes_are_chacha20:
  assumes "d = snd (reseedFromKernel (Some seed) d0)" and "length seed = 40"
    and "sum_list (map (\<lambda>r. unat (snd r)) reqs) \<le> 1048576"
    and "list_all (\<lambda>(dst, n). dst \<noteq> 0 \<and> (\<forall>i<unat n. m (dst + of_nat i) \<noteq> None)) reqs"
  shows "\<exists>outs. random_run g reqs (d, m) = Val outs
    \<and> concat outs = map (chacha20_stream seed) [0..<sum_list (map (\<lambda>r. unat (snd r)) reqs)]"
  using random_run_stream [OF reseed_at [OF assms(2), of d0], of reqs] assms by simp

theorem random_bytes_are_chacha20_witness:
  "\<exists>outs. random_run (\<lambda>_. None) [(0x1000, 3), (0x1000, 2)]
      (snd (reseedFromKernel (Some (map of_nat [0..<40])) Drbg_new), \<lambda>a. if a < 0x2000 then Some 0 else None)
      = Val outs \<and> concat outs = map (chacha20_stream (map of_nat [0..<40])) [0..<5]"
proof -
  let ?m = "\<lambda>a :: u64. if a < 0x2000 then Some (0 :: u8) else None"
  have b: "(0x1000 + of_nat i :: u64) < 0x2000" if "i < 3" for i
    using that by (auto simp: less_Suc_eq numeral_3_eq_3)
  have "list_all (\<lambda>(dst, n :: u64). dst \<noteq> 0 \<and> (\<forall>i<unat n. ?m (dst + of_nat i) \<noteq> None)) [(0x1000, 3), (0x1000, 2)]"
    using b by simp
  from random_bytes_are_chacha20 [where seed = "map of_nat [0..<40]" and ?d0.0 = Drbg_new
      and g = "\<lambda>_. None", OF HOL.refl _ _ this]
  show ?thesis by simp
qed

text \<open>The quarter round on the test vector of RFC 8439 (2.1.1).\<close>

lemma quarter_round_test_vector:
  "qr (0x11111111, 0x01020304, 0x9b8d6f43, 0x01234567) = (0xea2a92f4, 0xcb1cf8ce, 0x4581472e, 0x5881c4bb)"
  by code_simp

text \<open>
  The float of \<^verbatim>\<open>sceRandomGetRandomFloat\<close> is at most 1, and it is 1 (which its comment excludes)
  for the 128 largest integers, which round up.
\<close>

theorem random_float_reaches_one:
  "float_bits 0xFFFFFF80 8 = 2 ^ 32 \<and> float_bits 0xFFFFFF7F 8 < 2 ^ 32"
  by code_simp

text \<open>Without entropy the exports report success and hand out zeros.\<close>

theorem random_without_entropy:
  assumes "\<not> dr_seeded d" and "dst \<noteq> 0" and "sceRandomGetRandomNumber None g2 dst n (d, m) = Val (rc, d', m')"
  shows "rc = 0 \<and> load_bytes m' dst (unat n) = Val (replicate (unat n) 0)"
  using assms load_store_bytes [of dst "replicate (unat n) 0" m m']
  by (auto simp: sceRandomGetRandomNumber_def fillBytes_def reseedFromKernel_def Let_def cpp_bind_eq_Val_iff)

end
