(* ===== verification/Sce_Rtc.thy ===== *)
theory Sce_Rtc
  imports Guest_Words
begin

text \<open>
  libSceRtc (\<^verbatim>\<open>sce/rtc/SceRtc.cpp\<close>): ticks, which count microseconds from the year 1, and the
  structure of binary-coded decimals that names a date. The calendar functions of the C library
  it calls, \<^verbatim>\<open>gmtime_r\<close> and \<^verbatim>\<open>timegm\<close>, are defined first.
\<close>

section \<open>The calendar of the C library\<close>

record tm =
  tm_sec :: int
  tm_min :: int
  tm_hour :: int
  tm_mday :: int
  tm_mon :: int
  tm_year :: int

definition leap_year :: "int \<Rightarrow> bool" where
  "leap_year y \<longleftrightarrow> y mod 4 = 0 \<and> (y mod 100 \<noteq> 0 \<or> y mod 400 = 0)"

definition year_days :: "int \<Rightarrow> int" where
  "year_days y = (if leap_year y then 366 else 365)"

definition month_lengths :: "int \<Rightarrow> int list" where
  "month_lengths y = [31, if leap_year y then 29 else 28, 31, 30, 31, 30, 31, 31, 30, 31, 30, 31]"

text \<open>Days from 1 January of the year 1 to 1 January of a year.\<close>

definition days_before_year :: "int \<Rightarrow> int" where
  "days_before_year y = 365 * (y - 1) + (y - 1) div 4 - (y - 1) div 100 + (y - 1) div 400"

definition timegm :: "tm \<Rightarrow> int" where
  "timegm x =
     (let y = tm_year x + 1900 + tm_mon x div 12;
          days = days_before_year y + sum_list (take (nat (tm_mon x mod 12)) (month_lengths y))
                 + tm_mday x - 1 - 719162
      in ((days * 24 + tm_hour x) * 60 + tm_min x) * 60 + tm_sec x)"

function year_loop :: "int \<Rightarrow> int \<Rightarrow> int \<times> int" where
  "year_loop y r = (if r < year_days y then (y, r) else year_loop (y + 1) (r - year_days y))"
  by pat_completeness auto

termination by (relation "measure (\<lambda>(y, r). nat r)") (auto simp: year_days_def split: if_splits)

declare year_loop.simps [simp del]

fun month_loop :: "int list \<Rightarrow> int \<Rightarrow> int \<Rightarrow> int \<times> int" where
  "month_loop [] m r = (m, r)"
| "month_loop (l # ls) m r = (if r < l then (m, r) else month_loop ls (m + 1) (r - l))"

definition gmtime :: "int \<Rightarrow> tm" where
  "gmtime t =
     (let d = t div 86400 + 719162; s = t mod 86400;
          (y, r) = year_loop (400 * (d div 146097) + 1) (d mod 146097);
          (mon, day) = month_loop (month_lengths y) 0 r
      in \<lparr>tm_sec = s mod 60, tm_min = s div 60 mod 60, tm_hour = s div 3600, tm_mday = day + 1,
          tm_mon = mon, tm_year = y - 1900\<rparr>)"

section \<open>Dates and ticks\<close>

definition kRtcErrInvalidArg :: u32 where "kRtcErrInvalidArg = 0x80020005"
definition kRtcErrOverflow :: u32 where "kRtcErrOverflow = 0x80020002"
definition kUnixToSceEpochSeconds :: u64 where "kUnixToSceEpochSeconds = 62135596800"

record SceRtcDateTime =
  second_bcd :: u8
  minute_bcd :: u8
  hour_bcd :: u8
  day_bcd :: u8
  month_bcd :: u8
  year_bcd :: u8
  microsecond :: u32

text \<open>The structure in memory; the reserved bytes are cleared by the \<^verbatim>\<open>memset\<close> before it is filled.\<close>

definition dt_bytes :: "SceRtcDateTime \<Rightarrow> u8 list" where
  "dt_bytes x =
     [second_bcd x, minute_bcd x, hour_bcd x, day_bcd x, month_bcd x, year_bcd x, 0, 0]
     @ le_bytes 4 (microsecond x) @ [0, 0, 0, 0]"

definition decode_dt :: "u8 list \<Rightarrow> SceRtcDateTime" where
  "decode_dt bs = \<lparr>second_bcd = bs ! 0, minute_bcd = bs ! 1, hour_bcd = bs ! 2, day_bcd = bs ! 3,
     month_bcd = bs ! 4, year_bcd = bs ! 5, microsecond = le_field 8 4 bs\<rparr>"

text \<open>Every argument of \<^verbatim>\<open>toBcd\<close> is non-negative, so that \<^verbatim>\<open>/\<close> and \<^verbatim>\<open>%\<close> are \<open>div\<close> and \<open>mod\<close>.\<close>

definition toBcd :: "int \<Rightarrow> u8" where
  "toBcd v = word_of_int (push_bit 4 (v div 10) OR (v mod 10))"

definition fromBcd :: "u8 \<Rightarrow> int" where
  "fromBcd b = uint (drop_bit 4 b AND 0xF) * 10 + uint (b AND 0xF)"

definition tickToCivil :: "u64 \<Rightarrow> SceRtcDateTime" where
  "tickToCivil ticks =
     (let totalSeconds = ticks div 1000000; micros = ucast (ticks mod 1000000);
          unixSec = uint totalSeconds - uint kUnixToSceEpochSeconds;
          x = gmtime unixSec
      in \<lparr>second_bcd = toBcd (tm_sec x), minute_bcd = toBcd (tm_min x), hour_bcd = toBcd (tm_hour x),
          day_bcd = toBcd (tm_mday x), month_bcd = toBcd (tm_mon x + 1),
          year_bcd = toBcd ((tm_year x + 1900) mod 100), microsecond = micros\<rparr>)"

definition civilToTick :: "SceRtcDateTime \<Rightarrow> u64" where
  "civilToTick x =
     (let t = timegm \<lparr>tm_sec = fromBcd (second_bcd x), tm_min = fromBcd (minute_bcd x),
                 tm_hour = fromBcd (hour_bcd x), tm_mday = fromBcd (day_bcd x),
                 tm_mon = fromBcd (month_bcd x) - 1, tm_year = fromBcd (year_bcd x) + 100\<rparr>;
          seconds = word_of_int t + kUnixToSceEpochSeconds
      in seconds * 1000000 + ucast (microsecond x))"

section \<open>The exports\<close>

text \<open>
  \<open>now\<close> is the answer of \<^verbatim>\<open>gettimeofday\<close>: seconds and microseconds, or none when it fails.
\<close>

definition current_tick :: "(u64 \<times> u64) option \<Rightarrow> u64 option" where
  "current_tick now =
     map_option (\<lambda>(sec, usec). (sec + kUnixToSceEpochSeconds) * 1000000 + usec) now"

definition sceRtcGetCurrentTick :: "(u64 \<times> u64) option \<Rightarrow> u64 \<Rightarrow> memory \<Rightarrow> (u32 \<times> memory) cpp" where
  "sceRtcGetCurrentTick now tick m =
     (if tick = 0 then Val (kRtcErrInvalidArg, m)
      else case current_tick now of
             None \<Rightarrow> Val (kRtcErrOverflow, m)
           | Some t \<Rightarrow> cpp_bind (store_u64 tick t m) (\<lambda>m. Val (0, m)))"

text \<open>
  \<^verbatim>\<open>sceRtcGetCurrentClock\<close> ignores a failing clock and shows tick 0. \<open>tzMinutes\<close> is a signed
  32-bit integer that is converted to 64 bits.
\<close>

definition sceRtcGetCurrentClock ::
  "(u64 \<times> u64) option \<Rightarrow> u64 \<Rightarrow> u32 \<Rightarrow> memory \<Rightarrow> (u32 \<times> memory) cpp" where
  "sceRtcGetCurrentClock now dt tzMinutes m =
     (if dt = 0 then Val (kRtcErrInvalidArg, m)
      else let ticks = (case current_tick now of None \<Rightarrow> 0 | Some t \<Rightarrow> t);
               ticks = (if tzMinutes \<noteq> 0 then ticks + scast tzMinutes * 60 * 1000000 else ticks)
           in cpp_bind (store_bytes dt (dt_bytes (tickToCivil ticks)) m) (\<lambda>m. Val (0, m)))"

definition sceRtcGetCurrentClockLocalTime ::
  "(u64 \<times> u64) option \<Rightarrow> u64 \<Rightarrow> memory \<Rightarrow> (u32 \<times> memory) cpp" where
  "sceRtcGetCurrentClockLocalTime now dt m = sceRtcGetCurrentClock now dt 0 m"

definition sceRtcSetTick :: "u64 \<Rightarrow> u64 \<Rightarrow> memory \<Rightarrow> (u32 \<times> memory) cpp" where
  "sceRtcSetTick dt tick m =
     (if dt = 0 \<or> tick = 0 then Val (kRtcErrInvalidArg, m)
      else cpp_bind (load_u64 m tick) (\<lambda>t.
           cpp_bind (store_bytes dt (dt_bytes (tickToCivil t)) m) (\<lambda>m. Val (0, m))))"

definition sceRtcGetTick :: "u64 \<Rightarrow> u64 \<Rightarrow> memory \<Rightarrow> (u32 \<times> memory) cpp" where
  "sceRtcGetTick dt tick m =
     (if dt = 0 \<or> tick = 0 then Val (kRtcErrInvalidArg, m)
      else cpp_bind (load_bytes m dt 16) (\<lambda>bs.
           cpp_bind (store_u64 tick (civilToTick (decode_dt bs)) m) (\<lambda>m. Val (0, m))))"

definition sceRtcGetTickResolution :: "u64 \<Rightarrow> memory \<Rightarrow> (u32 \<times> memory) cpp" where
  "sceRtcGetTickResolution resolution m =
     (if resolution = 0 then Val (kRtcErrInvalidArg, m)
      else cpp_bind (store_u64 resolution 1000000 m) (\<lambda>m. Val (0, m)))"

definition sceRtcConvertUtcToLocalTime :: "u64 \<Rightarrow> u64 \<Rightarrow> memory \<Rightarrow> (u32 \<times> memory) cpp" where
  "sceRtcConvertUtcToLocalTime utcTick outTick m =
     (if utcTick = 0 \<or> outTick = 0 then Val (kRtcErrInvalidArg, m)
      else cpp_bind (load_u64 m utcTick) (\<lambda>t.
           cpp_bind (store_u64 outTick t m) (\<lambda>m. Val (0, m))))"

definition sceRtcConvertLocalTimeToUtc :: "u64 \<Rightarrow> u64 \<Rightarrow> memory \<Rightarrow> (u32 \<times> memory) cpp" where
  "sceRtcConvertLocalTimeToUtc localTick outTick m = sceRtcConvertUtcToLocalTime localTick outTick m"

definition sceRtcGetCurrentNetworkTick ::
  "(u64 \<times> u64) option \<Rightarrow> u64 \<Rightarrow> memory \<Rightarrow> (u32 \<times> memory) cpp" where
  "sceRtcGetCurrentNetworkTick now tick m = sceRtcGetCurrentTick now tick m"

section \<open>The calendar\<close>

lemma div_pred:
  fixes y k :: int
  assumes "0 < k"
  shows "y div k = (y - 1) div k + (if y mod k = 0 then 1 else 0)"
proof -
  have y: "y = k * (y div k) + y mod k" by simp
  have r: "0 \<le> y mod k" "y mod k < k" using assms by simp_all
  show ?thesis
  proof (cases "y mod k = 0")
    case True
    have "(y - 1) div k = y div k - 1"
      using y True assms by (intro int_div_pos_eq [of _ _ _ "k - 1"]) (simp_all add: right_diff_distrib)
    with True show ?thesis by simp
  next
    case False
    have "(y - 1) div k = y div k"
      using y r False by (intro int_div_pos_eq [of _ _ _ "y mod k - 1"]) simp_all
    with False show ?thesis by simp
  qed
qed

lemma leap_sum:
  fixes y :: int
  assumes "d4 = c4 + (if p then 1 else 0)" and "d100 = c100 + (if q then 1 else 0)"
    and "d400 = c400 + (if r then 1 else 0)" and "q \<Longrightarrow> p" and "r \<Longrightarrow> q"
  shows "365 * y + d4 - d100 + d400 = 365 * (y - 1) + c4 - c100 + c400 + (if p \<and> (\<not> q \<or> r) then 366 else 365)"
  using assms by (cases p; cases q; cases r) simp_all

lemma days_before_next_year: "days_before_year (y + 1) = days_before_year y + year_days y"
proof -
  note d = div_pred [of _ y]
  have "y mod 4 = y mod 100 mod 4" by (rule mod_mod_cancel [symmetric]) simp
  moreover have "y mod 100 = y mod 400 mod 100" by (rule mod_mod_cancel [symmetric]) simp
  ultimately have m: "y mod 100 = 0 \<Longrightarrow> y mod 4 = 0" "y mod 400 = 0 \<Longrightarrow> y mod 100 = 0" by simp_all
  have e: "days_before_year (y + 1) = 365 * y + y div 4 - y div 100 + y div 400"
    by (simp add: days_before_year_def)
  show ?thesis
    unfolding e days_before_year_def [of y] year_days_def leap_year_def
    by (rule leap_sum [OF d d d m]) simp_all
qed

lemma days_before_mono: "a \<le> b \<Longrightarrow> days_before_year a \<le> days_before_year b"
proof (induction b rule: int_ge_induct)
  case (step i)
  then show ?case unfolding days_before_next_year by (simp add: year_days_def split: if_splits)
qed simp

lemma year_loop_days:
  assumes "year_loop y r = (y', r')" and "0 \<le> r"
  shows "days_before_year y' + r' = days_before_year y + r \<and> 0 \<le> r' \<and> r' < year_days y'"
  using assms
proof (induction y r arbitrary: y' r' rule: year_loop.induct)
  case (1 y r)
  show ?case
  proof (cases "r < year_days y")
    case True
    with 1(2,3) show ?thesis by (simp add: year_loop.simps)
  next
    case False
    with 1(2) have "year_loop (y + 1) (r - year_days y) = (y', r')"
      by (subst (asm) year_loop.simps) simp
    from 1(1) [OF False this] False show ?thesis by (simp add: days_before_next_year)
  qed
qed

lemma month_loop_days:
  assumes "month_loop ls m r = (m', r')" and "0 \<le> r" and "r < sum_list ls"
    and "\<forall>l\<in>set ls. 0 < l \<and> l \<le> 31"
  shows "m \<le> m' \<and> m' < m + int (length ls) \<and> r = sum_list (take (nat (m' - m)) ls) + r' \<and> 0 \<le> r' \<and> r' < 31"
  using assms
proof (induction ls m r rule: month_loop.induct)
  case (2 l ls m r)
  show ?case
  proof (cases "r < l")
    case False
    with 2(2,3,4,5) have "m + 1 \<le> m' \<and> m' < m + 1 + int (length ls)
        \<and> r - l = sum_list (take (nat (m' - (m + 1))) ls) + r' \<and> 0 \<le> r' \<and> r' < 31"
      by (intro 2(1)) auto
    moreover from this have "nat (m' - m) = Suc (nat (m' - (m + 1)))" by linarith
    ultimately show ?thesis by simp
  qed (use 2 in auto)
qed simp

lemma sum_month_lengths: "sum_list (month_lengths y) = year_days y"
  by (simp add: month_lengths_def year_days_def)

lemma gmtime_fields:
  assumes "0 \<le> t + 62135596800"
  obtains y mon day where "gmtime t = \<lparr>tm_sec = t mod 86400 mod 60, tm_min = t mod 86400 div 60 mod 60,
      tm_hour = t mod 86400 div 3600, tm_mday = day + 1, tm_mon = mon, tm_year = y - 1900\<rparr>"
    and "days_before_year y + sum_list (take (nat mon) (month_lengths y)) + day = t div 86400 + 719162"
    and "0 \<le> mon" "mon < 12" "0 \<le> day" "day < 31"
    and "days_before_year y \<le> t div 86400 + 719162" "t div 86400 + 719162 < days_before_year (y + 1)"
proof -
  define d where "d = t div 86400 + 719162"
  obtain y r where y: "year_loop (400 * (d div 146097) + 1) (d mod 146097) = (y, r)" by fastforce
  obtain mon day where mo: "month_loop (month_lengths y) 0 r = (mon, day)" by fastforce
  have "days_before_year (400 * q + 1) = 146097 * q" for q :: int
  proof -
    have "400 * q = 4 * (100 * q)" "400 * q = 100 * (4 * q)" by simp_all
    then have "400 * q div 4 = 100 * q" "400 * q div 100 = 4 * q"
      by (simp_all only: nonzero_mult_div_cancel_left zero_neq_numeral not_False_eq_True)
    then show ?thesis by (simp add: days_before_year_def)
  qed
  then have dy: "days_before_year y + r = d \<and> 0 \<le> r \<and> r < year_days y"
    using year_loop_days [OF y] mult_div_mod_eq [of 146097 d] by simp
  then have "0 \<le> mon \<and> mon < 0 + int (length (month_lengths y))
      \<and> r = sum_list (take (nat (mon - 0)) (month_lengths y)) + day \<and> 0 \<le> day \<and> day < 31"
    by (intro month_loop_days [OF mo]) (simp_all add: sum_month_lengths, simp add: month_lengths_def)
  then have m: "0 \<le> mon" "mon < 12" "r = sum_list (take (nat mon) (month_lengths y)) + day" "0 \<le> day" "day < 31"
    by (simp_all add: month_lengths_def)
  show ?thesis
  proof (rule that [of day mon y])
    show "gmtime t = \<lparr>tm_sec = t mod 86400 mod 60, tm_min = t mod 86400 div 60 mod 60,
      tm_hour = t mod 86400 div 3600, tm_mday = day + 1, tm_mon = mon, tm_year = y - 1900\<rparr>"
      using y mo by (simp add: gmtime_def d_def Let_def)
  qed (use m dy days_before_next_year [of y] in \<open>simp_all add: d_def\<close>)
qed

text \<open>The two functions of the C library are inverse to each other on times from the year 1 on.\<close>

lemma timegm_gmtime:
  assumes "0 \<le> t + 62135596800"
  shows "timegm (gmtime t) = t"
proof -
  from assms obtain y mon day where g: "gmtime t = \<lparr>tm_sec = t mod 86400 mod 60,
      tm_min = t mod 86400 div 60 mod 60,
      tm_hour = t mod 86400 div 3600, tm_mday = day + 1, tm_mon = mon, tm_year = y - 1900\<rparr>"
    and d: "days_before_year y + sum_list (take (nat mon) (month_lengths y)) + day = t div 86400 + 719162"
    and mon: "0 \<le> mon" "mon < 12"
    by (rule gmtime_fields)
  have m: "mon div 12 = 0" "mon mod 12 = mon" using mon by simp_all
  have days: "days_before_year y + sum_list (take (nat mon) (month_lengths y)) + (day + 1) - 1 - 719162
      = t div 86400" using d by linarith
  obtain s where s: "s = t mod 86400" by blast
  have "s div 3600 = s div 60 div 60" using zdiv_zmult2_eq [of 60 s 60] by simp
  then have "(s div 3600 * 60 + s div 60 mod 60) * 60 + s mod 60 = s"
    using div_mult_mod_eq [of "s div 60" 60] div_mult_mod_eq [of s 60] by simp
  then have "((t div 86400 * 24 + s div 3600) * 60 + s div 60 mod 60) * 60 + s mod 60 = t div 86400 * 86400 + s"
    by (simp add: distrib_right)
  also have "\<dots> = t" unfolding s by (rule div_mult_mod_eq)
  finally show ?thesis
    unfolding timegm_def Let_def g tm.select_convs m diff_add_cancel add_0_right days s .
qed

section \<open>Dates that come back\<close>

lemma fromBcd_toBcd:
  assumes "0 \<le> v" and "v < 100"
  shows "fromBcd (toBcd v) = v"
proof -
  have "list_all (\<lambda>v. fromBcd (toBcd v) = v) [0..99]" by code_simp
  with assms show ?thesis by (simp add: list_all_iff)
qed

lemma decode_dt_bytes: "decode_dt (dt_bytes x) = x"
proof -
  have "le_field 8 4 (dt_bytes x) = microsecond x"
    by (rule le_field_le_bytes) (simp_all add: dt_bytes_def)
  then show ?thesis by (simp add: decode_dt_def dt_bytes_def)
qed

lemma gmtime_year:
  assumes "946684800 \<le> t" and "t < 4102444800"
  shows "100 \<le> tm_year (gmtime t)" and "tm_year (gmtime t) < 200"
proof -
  have t: "10957 \<le> t div 86400" "t div 86400 < 47482"
    using zdiv_mono1 [OF assms(1), of 86400] zdiv_mono1 [of t "4102444799" 86400] assms(2)
    by (simp_all only:) simp_all
  have "0 \<le> t + 62135596800" using assms(1) by simp
  then obtain y mon day where "gmtime t = \<lparr>tm_sec = t mod 86400 mod 60, tm_min = t mod 86400 div 60 mod 60,
      tm_hour = t mod 86400 div 3600, tm_mday = day + 1, tm_mon = mon, tm_year = y - 1900\<rparr>"
    and y: "days_before_year y \<le> t div 86400 + 719162" "t div 86400 + 719162 < days_before_year (y + 1)"
    by (rule gmtime_fields)
  then have g: "tm_year (gmtime t) = y - 1900" by simp
  have "days_before_year 2000 = 730119" "days_before_year 2100 = 766644" by code_simp+
  then have "2000 \<le> y" "y < 2100"
    using y t days_before_mono [of "y + 1" 2000] days_before_mono [of 2100 y] by fastforce+
  with g show "100 \<le> tm_year (gmtime t)" and "tm_year (gmtime t) < 200" by simp_all
qed

lemma gmtime_ranges:
  assumes "0 \<le> t + 62135596800"
  shows "tm_sec (gmtime t) \<in> {0..<60}" and "tm_min (gmtime t) \<in> {0..<60}"
    and "tm_hour (gmtime t) \<in> {0..<24}" and "tm_mday (gmtime t) \<in> {1..31}" and "tm_mon (gmtime t) \<in> {0..<12}"
proof -
  from assms obtain y mon day where g: "gmtime t = \<lparr>tm_sec = t mod 86400 mod 60,
      tm_min = t mod 86400 div 60 mod 60,
      tm_hour = t mod 86400 div 3600, tm_mday = day + 1, tm_mon = mon, tm_year = y - 1900\<rparr>"
    and m: "0 \<le> mon" "mon < 12" "0 \<le> day" "day < 31" by (rule gmtime_fields)
  have "t mod 86400 div 3600 < 24"
    using zdiv_mono1 [of "t mod 86400" 86399 3600] pos_mod_bound [of 86400 t] by simp
  moreover have "0 \<le> t mod 86400 div 3600" by (simp add: pos_imp_zdiv_nonneg_iff)
  ultimately show "tm_sec (gmtime t) \<in> {0..<60}" and "tm_min (gmtime t) \<in> {0..<60}"
    and "tm_hour (gmtime t) \<in> {0..<24}" and "tm_mday (gmtime t) \<in> {1..31}" and "tm_mon (gmtime t) \<in> {0..<12}"
    using m unfolding g by (simp_all only: tm.select_convs) simp_all
qed

lemma civilToTick_tickToCivil:
  assumes "63082281600000000 \<le> t" and "t < 66238041600000000"
  shows "civilToTick (tickToCivil t) = t"
proof -
  define u where "u = uint (t div 1000000) - uint kUnixToSceEpochSeconds"
  have e: "uint (t div 1000000) = uint t div 1000000" by (simp add: uint_div)
  have b: "63082281600 \<le> uint (t div 1000000)" "uint (t div 1000000) < 66238041600"
    using assms zdiv_mono1 [of 63082281600000000 "uint t" 1000000]
      zdiv_mono1 [of "uint t" 66238041599999999 1000000]
    unfolding e word_le_def word_less_def by simp_all
  have u: "946684800 \<le> u" "u < 4102444800" using b by (simp_all add: u_def kUnixToSceEpochSeconds_def)
  then have nn: "0 \<le> u + 62135596800" by simp
  let ?g = "gmtime u"
  have y: "(tm_year ?g + 1900) mod 100 = tm_year ?g - 100"
  proof -
    have "tm_year ?g + 1900 = tm_year ?g - 100 + 20 * 100" by simp
    then have "(tm_year ?g + 1900) mod 100 = (tm_year ?g - 100) mod 100" by (simp only: mod_mult_self1)
    also have "\<dots> = tm_year ?g - 100" using gmtime_year [OF u] by (intro mod_pos_pos_trivial) simp_all
    finally show ?thesis .
  qed
  have f: "fromBcd (toBcd (tm_sec ?g)) = tm_sec ?g" "fromBcd (toBcd (tm_min ?g)) = tm_min ?g"
    "fromBcd (toBcd (tm_hour ?g)) = tm_hour ?g" "fromBcd (toBcd (tm_mday ?g)) = tm_mday ?g"
    "fromBcd (toBcd (tm_mon ?g + 1)) = tm_mon ?g + 1"
    "fromBcd (toBcd ((tm_year ?g + 1900) mod 100)) = tm_year ?g - 100"
    using gmtime_ranges [OF nn] gmtime_year [OF u] unfolding y by (simp_all add: fromBcd_toBcd)
  have "civilToTick (tickToCivil t)
      = (word_of_int (timegm ?g) + kUnixToSceEpochSeconds) * 1000000 + ucast (ucast (t mod 1000000) :: u32)"
    unfolding tickToCivil_def civilToTick_def Let_def SceRtcDateTime.select_convs f u_def [symmetric]
    by (cases "gmtime u") simp
  also have "timegm ?g = u" by (rule timegm_gmtime [OF nn])
  also have "word_of_int u + kUnixToSceEpochSeconds = t div 1000000" by (simp add: u_def)
  also have "ucast (ucast (t mod 1000000) :: u32) = t mod 1000000"
  proof (rule word_unat_eq_iff [THEN iffD2])
    have "unat (t mod 1000000) < 1000000" by (simp add: unat_mod)
    then show "unat (ucast (ucast (t mod 1000000) :: u32) :: u64) = unat (t mod 1000000)"
      by (simp add: unsigned_ucast_eq unsigned_take_bit_eq take_bit_nat_eq_self)
  qed
  finally show ?thesis by (simp add: word_mod_div_equality div_mult_mod_eq)
qed

text \<open>
  C30. Dates survive. A tick of the years 2000 to 2099 that \<^verbatim>\<open>sceRtcSetTick\<close> writes as a date is
  the tick that \<^verbatim>\<open>sceRtcGetTick\<close> computes from that date, to the microsecond.
\<close>

theorem rtc_date_roundtrip:
  assumes "load_u64 m tick = Val t" and "63082281600000000 \<le> t" and "t < 66238041600000000"
    and "sceRtcSetTick dt tick m = Val (0, m1)" and "sceRtcGetTick dt out m1 = Val (0, m2)"
  shows "load_u64 m2 out = Val t"
proof -
  from assms(1,4) have st: "store_bytes dt (dt_bytes (tickToCivil t)) m = Val m1"
    by (auto simp: sceRtcSetTick_def kRtcErrInvalidArg_def cpp_bind_eq_Val_iff split: if_splits)
  have "length (dt_bytes (tickToCivil t)) = 16" by (simp add: dt_bytes_def)
  with load_store_bytes [OF st] have "load_bytes m1 dt 16 = Val (dt_bytes (tickToCivil t))" by simp
  with assms(5) have "store_u64 out (civilToTick (tickToCivil t)) m1 = Val m2"
    by (auto simp: sceRtcGetTick_def kRtcErrInvalidArg_def cpp_bind_eq_Val_iff decode_dt_bytes split: if_splits)
  then show ?thesis unfolding civilToTick_tickToCivil [OF assms(2,3)] by (rule load_u64_store_same)
qed

definition rtc_memory :: memory where
  "rtc_memory a = (if a < 0x1000 \<or> 0x1100 \<le> a then None
     else if a < 0x1008 then Some (le_bytes 8 (63871927445678901 :: u64) ! unat (a - 0x1000)) else Some 0)"

lemma rtc_memory_mapped: "mapped rtc_memory 0x1000 0x1100"
  by (simp add: mapped_def rtc_memory_def word_le_unat word_less_unat)

theorem rtc_date_roundtrip_witness:
  "\<exists>m1 m2. sceRtcSetTick 0x1010 0x1000 rtc_memory = Val (0, m1)
     \<and> sceRtcGetTick 0x1010 0x1020 m1 = Val (0, m2) \<and> load_u64 m2 0x1020 = Val 63871927445678901"
proof -
  let ?d = "dt_bytes (tickToCivil 63871927445678901)"
  have t: "load_u64 rtc_memory 0x1000 = Val 63871927445678901" by code_simp
  have len: "length ?d = 16" by (simp add: dt_bytes_def)
  obtain m1 where m1: "store_bytes 0x1010 ?d rtc_memory = Val m1"
    by (rule store_mapped [OF rtc_memory_mapped, of "0x1010" ?d]) (simp_all add: len)
  have "mapped m1 0x1000 0x1100"
    using rtc_memory_mapped mapped_dom [OF store_bytes_dom [OF m1]] by simp
  then obtain m2 where m2: "store_u64 0x1020 (civilToTick (decode_dt ?d)) m1 = Val m2"
    by (rule store_u64_mapped [of m1 _ _ "0x1020"]) simp_all
  have s: "sceRtcSetTick 0x1010 0x1000 rtc_memory = Val (0, m1)"
    using t m1 by (simp add: sceRtcSetTick_def)
  have "load_bytes m1 0x1010 16 = Val ?d" using load_store_bytes [OF m1] len by simp
  then have g: "sceRtcGetTick 0x1010 0x1020 m1 = Val (0, m2)"
    using m2 by (simp add: sceRtcGetTick_def)
  have "load_u64 m2 0x1020 = Val 63871927445678901"
    by (rule rtc_date_roundtrip [OF t _ _ s g]) simp_all
  with s g show ?thesis by blast
qed

text \<open>That tick is 8 January 2025, 10:04:05 and 678901 microseconds.\<close>

lemma rtc_date_example:
  "tickToCivil 63871927445678901 = \<lparr>second_bcd = 0x05, minute_bcd = 0x04, hour_bcd = 0x10,
      day_bcd = 0x08, month_bcd = 0x01, year_bcd = 0x25, microsecond = 678901\<rparr>"
  by code_simp

text \<open>
  Other centuries do not come back: the date keeps two digits of the year, and the last
  microsecond of 1999 is read as the last one of 2099.
\<close>

theorem rtc_century_lost:
  "civilToTick (tickToCivil 63082281599999999) = 66238041599999999"
  by code_simp

end
