(* ===== verification/Network.thy ===== *)
theory Network
  imports Handles Guest_Words
begin

text \<open>
  The network (\<^verbatim>\<open>network/\<close>, \<^verbatim>\<open>sce/net\<close>, \<^verbatim>\<open>sce/http\<close>, \<^verbatim>\<open>sce/netctl\<close>): the policy, the HTTP client that asks it
  before it hands a request to libcurl, and the exports of libSceNet, libSceHttp and libSceNetCtl.
  What the host answers is a function of the calls made so far; the calls are logged, so that the
  theorems can speak of every endpoint the runtime contacts.
\<close>

section \<open>The policy\<close>

datatype PolicyMode = Disabled | LocalhostOnly | Restricted | FullAccess

record Endpoint =
  ep_host :: string
  ep_port :: u16

record NetworkPolicy =
  pl_mode :: PolicyMode
  pl_allowlist :: "Endpoint list"

definition NetworkPolicy_new :: NetworkPolicy where
  "NetworkPolicy_new = \<lparr>pl_mode = LocalhostOnly, pl_allowlist = []\<rparr>"

definition setMode :: "PolicyMode \<Rightarrow> NetworkPolicy \<Rightarrow> NetworkPolicy" where
  "setMode mode p = p\<lparr>pl_mode := mode\<rparr>"

definition allowEndpoint :: "string \<Rightarrow> u16 \<Rightarrow> NetworkPolicy \<Rightarrow> NetworkPolicy" where
  "allowEndpoint host port p = p\<lparr>pl_allowlist := pl_allowlist p @ [\<lparr>ep_host = host, ep_port = port\<rparr>]\<rparr>"

definition clearAllowlist :: "NetworkPolicy \<Rightarrow> NetworkPolicy" where
  "clearAllowlist p = p\<lparr>pl_allowlist := []\<rparr>"

definition isLocalhost :: "string \<Rightarrow> bool" where
  "isLocalhost host \<longleftrightarrow> host = ''127.0.0.1'' \<or> host = ''::1'' \<or> host = ''localhost''"

text \<open>A denial carries its reason.\<close>

definition allowConnect :: "NetworkPolicy \<Rightarrow> string \<Rightarrow> u16 \<Rightarrow> string + unit" where
  "allowConnect p host port =
     (case pl_mode p of
        Disabled \<Rightarrow> Inl ''network disabled by policy''
      | LocalhostOnly \<Rightarrow>
          if \<not> isLocalhost host then Inl ''only localhost connections permitted'' else Inr ()
      | Restricted \<Rightarrow>
          if isLocalhost host then Inr ()
          else if list_ex (\<lambda>ep. ep_host ep = host \<and> ep_port ep = port) (pl_allowlist p) then Inr ()
          else Inl ''destination not in allowlist''
      | FullAccess \<Rightarrow> Inr ())"

definition allowBind :: "NetworkPolicy \<Rightarrow> u16 \<Rightarrow> string + unit" where
  "allowBind p port =
     (if pl_mode p = Disabled then Inl ''network disabled by policy'' else Inr ())"

section \<open>The host\<close>

datatype http_verb = VGet | VPost "u8 list" | VCustom string

datatype net_call =
    NSocket int int int
  | NClose int
  | NConnect int u16 u32
  | NSend int u64 u64 int
  | NRecv int u64 u64 int
  | NHttp string "string list" u32 http_verb
  | NRedirect string string

record HttpResponse =
  hp_statusCode :: int
  hp_body :: "u8 list"
  hp_headers :: "(string \<times> string) list"

text \<open>
  \<open>no_ret\<close> is the result of a system call, \<open>no_data\<close> the bytes a \<^verbatim>\<open>recv\<close> delivers, \<open>no_http\<close> the
  pieces of the body, the header lines and the status that libcurl reports, or that it failed.
  \<open>no_redirect\<close> is the URL to which the server of a URL redirects, \<open>no_hops\<close> the number of redirects
  libcurl follows before its limit or the time-out; \<open>NRedirect url url'\<close> logs that it goes to \<open>url'\<close> on
  behalf of a request for \<open>url\<close>. \<open>no_guest\<close> is what the other threads of the guest
  store into its memory between two reads of one call.
\<close>

record net_os =
  no_ret :: "net_call list \<Rightarrow> net_call \<Rightarrow> int"
  no_data :: "net_call list \<Rightarrow> net_call \<Rightarrow> u8 list"
  no_http :: "net_call list \<Rightarrow> net_call \<Rightarrow> (u8 list list \<times> string list \<times> int) option"
  no_redirect :: "net_call list \<Rightarrow> string \<Rightarrow> string option"
  no_hops :: "net_call list \<Rightarrow> nat"
  no_guest :: "net_call list \<Rightarrow> memory \<Rightarrow> memory"

section \<open>The HTTP client\<close>

record HttpRequest =
  rq_method :: string
  rq_url :: string
  rq_headers :: "(string \<times> string) list"
  rq_body :: "u8 list"
  rq_timeoutMs :: u32

text \<open>The callbacks that collect the answer.\<close>

definition writeBody :: "u8 list \<Rightarrow> u8 list \<Rightarrow> u8 list" where
  "writeBody piece out = out @ piece"

definition trim_crlf :: "string \<Rightarrow> string" where
  "trim_crlf s = rev (dropWhile (\<lambda>c. c = CHR 0x0D \<or> c = CHR 0x0A) (rev s))"

definition writeHeader :: "string \<Rightarrow> (string \<times> string) list \<Rightarrow> (string \<times> string) list" where
  "writeHeader l out =
     (let line = trim_crlf l
      in if CHR '':'' \<notin> set line then out
         else out @ [(takeWhile (\<lambda>c. c \<noteq> CHR '':'') line,
                dropWhile (\<lambda>c. c = CHR '' '') (tl (dropWhile (\<lambda>c. c \<noteq> CHR '':'') line)))])"

text \<open>\<^verbatim>\<open>std::stoi\<close>: leading white space, a sign, at least one digit, a value that fits an \<^verbatim>\<open>int\<close>.\<close>

definition is_space :: "char \<Rightarrow> bool" where
  "is_space c \<longleftrightarrow> c = CHR '' '' \<or> 9 \<le> (of_char c :: nat) \<and> (of_char c :: nat) \<le> 13"

definition is_digit :: "char \<Rightarrow> bool" where
  "is_digit c \<longleftrightarrow> 48 \<le> (of_char c :: nat) \<and> (of_char c :: nat) \<le> 57"

definition stoi :: "string \<Rightarrow> int option" where
  "stoi s =
     (let s = dropWhile is_space s;
          neg = (s \<noteq> [] \<and> hd s = CHR ''-'');
          s = (if s \<noteq> [] \<and> (hd s = CHR ''-'' \<or> hd s = CHR ''+'') then tl s else s);
          ds = takeWhile is_digit s;
          v = foldl (\<lambda>n c. 10 * n + (of_char c - 48)) 0 ds;
          v = (if neg then - v else v)
      in if ds = [] \<or> v < - (2 ^ 31) \<or> 2 ^ 31 - 1 < v then None else Some v)"

text \<open>What follows the first \<^verbatim>\<open>://\<close>.\<close>

fun scheme_rest :: "string \<Rightarrow> string option" where
  "scheme_rest [] = None"
| "scheme_rest (c # cs) = (if take 3 (c # cs) = ''://'' then Some (drop 2 cs) else scheme_rest cs)"

definition url_endpoint :: "string \<Rightarrow> string \<times> u16" where
  "url_endpoint url =
     (let hostPort = (case scheme_rest url of None \<Rightarrow> url | Some r \<Rightarrow> r);
          hostPort = takeWhile (\<lambda>c. c \<noteq> CHR ''/'') hostPort
      in if CHR '':'' \<in> set hostPort then
           let after = rev (takeWhile (\<lambda>c. c \<noteq> CHR '':'') (rev hostPort))
           in (take (length hostPort - length after - 1) hostPort,
               case stoi after of None \<Rightarrow> 443 | Some v \<Rightarrow> word_of_int v)
         else (hostPort, 443))"

definition checkPolicy :: "NetworkPolicy option \<Rightarrow> string \<Rightarrow> string + unit" where
  "checkPolicy policy url =
     (case policy of
        None \<Rightarrow> Inl ''no NetworkPolicy bound to the runtime''
      | Some p \<Rightarrow> allowConnect p (fst (url_endpoint url)) (snd (url_endpoint url)))"

text \<open>
  \<^verbatim>\<open>CURLOPT_FOLLOWLOCATION\<close> is set: libcurl goes where the answers send it, without asking the policy.
\<close>

fun follow_location :: "net_os \<Rightarrow> nat \<Rightarrow> string \<Rightarrow> string \<Rightarrow> net_call list \<Rightarrow> net_call list" where
  "follow_location os 0 url cur log = log"
| "follow_location os (Suc n) url cur log =
     (case no_redirect os log cur of
        None \<Rightarrow> log
      | Some nxt \<Rightarrow> follow_location os n url nxt (log @ [NRedirect url nxt]))"

definition HttpClient_perform ::
  "net_os \<Rightarrow> NetworkPolicy option \<Rightarrow> HttpRequest \<Rightarrow> net_call list \<Rightarrow> HttpResponse option \<times> net_call list" where
  "HttpClient_perform os policy req log =
     (case checkPolicy policy (rq_url req) of
        Inl reason \<Rightarrow> (None, log)
      | Inr _ \<Rightarrow>
          let verb = (if rq_method req = ''POST'' then VPost (rq_body req)
                else if rq_method req \<noteq> [] \<and> rq_method req \<noteq> ''GET'' then VCustom (rq_method req) else VGet);
              call = NHttp (rq_url req) (map (\<lambda>(k, v). k @ '': '' @ v) (rq_headers req))
                (rq_timeoutMs req) verb
          in (case no_http os log call of
                None \<Rightarrow> None
              | Some (pieces, lines, code) \<Rightarrow>
                  Some \<lparr>hp_statusCode = code, hp_body = fold writeBody pieces [],
                    hp_headers = fold writeHeader lines []\<rparr>,
              follow_location os (no_hops os log) (rq_url req) (rq_url req) (log @ [call])))"

section \<open>State of the libraries\<close>

datatype HttpKind = HkTemplate | HkConnection | HkRequest

record HttpHandle =
  hh_kind :: HttpKind
  hh_url :: string
  hh_method :: string
  hh_responseBody :: "u8 list"
  hh_readCursor :: nat
  hh_statusCode :: int
  hh_requestSent :: bool

definition HttpHandle_new :: "HttpKind \<Rightarrow> string \<Rightarrow> string \<Rightarrow> HttpHandle" where
  "HttpHandle_new kind url method = \<lparr>hh_kind = kind, hh_url = url, hh_method = method,
     hh_responseBody = [], hh_readCursor = 0, hh_statusCode = 0, hh_requestSent = False\<rparr>"

text \<open>The handle table holds sockets and, for these libraries, other objects without a face.\<close>

datatype net_object = NetSocket SocketHandle | NetOther

record net_state =
  ns_table :: "net_object HandleTable"
  ns_policy :: "NetworkPolicy option"
  ns_client :: bool
  ns_http :: "(u64, HttpHandle) umap"
  ns_nextHandle :: u64
  ns_mem :: memory
  ns_log :: "net_call list"

definition kNetErrInvalidArg :: u32 where "kNetErrInvalidArg = 0x80020005"
definition kNetErrNotFound :: u32 where "kNetErrNotFound = 0x80020004"
definition kNetErrNotSupport :: u32 where "kNetErrNotSupport = 0x80020003"
definition kNetErrConnect :: u32 where "kNetErrConnect = 0x8041010C"
definition kNetErrGeneric :: u32 where "kNetErrGeneric = 0x80410101"
definition kHttpErrDenied :: u32 where "kHttpErrDenied = 0x80431077"

lemmas net_errors = kNetErrInvalidArg_def kNetErrNotFound_def kNetErrNotSupport_def
  kNetErrConnect_def kNetErrGeneric_def kHttpErrDenied_def

section \<open>libSceNet\<close>

text \<open>A system call: its result and the state with the call logged.\<close>

definition net_sys :: "net_os \<Rightarrow> net_call \<Rightarrow> net_state \<Rightarrow> int \<times> net_state" where
  "net_sys os c s = (no_ret os (ns_log s) c, s\<lparr>ns_log := ns_log s @ [c]\<rparr>)"

definition convertSocketType :: "u32 \<Rightarrow> u32" where
  "convertSocketType sceType =
     (let t = sceType AND 0x0F
      in if t = 1 then 1 else if t = 2 then 2 else if t = 3 then 3 else sceType)"

definition sceNetSocket :: "net_os \<Rightarrow> u32 \<Rightarrow> u32 \<Rightarrow> u32 \<Rightarrow> net_state \<Rightarrow> u32 \<times> net_state" where
  "sceNetSocket os sceFamily sceType sceProto s =
     (let domain = sint sceFamily; type = sint (convertSocketType sceType); protocol = sint sceProto;
          (fd, s) = net_sys os (NSocket domain type protocol) s
      in if fd < 0 then (kNetErrGeneric, s)
         else let (h, t) = registerObject (Some (NetSocket \<lparr>sh_hostFd = fd, sh_domain = domain,
                    sh_type = type, sh_protocol = protocol\<rparr>)) (ns_table s)
              in (h, s\<lparr>ns_table := t\<rparr>))"

text \<open>Closing the last reference to a socket closes its descriptor.\<close>

definition sceNetClose :: "net_os \<Rightarrow> u32 \<Rightarrow> net_state \<Rightarrow> u32 \<times> net_state" where
  "sceNetClose os handle s =
     (case HandleTable_get (ns_table s) handle of
        None \<Rightarrow> (kNetErrNotFound, s)
      | Some obj \<Rightarrow>
          let s = s\<lparr>ns_table := snd (HandleTable_close handle (ns_table s))\<rparr>
          in (0, case obj of
                   NetSocket sk \<Rightarrow> snd (net_sys os (NClose (sh_hostFd sk)) s)
                 | NetOther \<Rightarrow> s))"

definition net_socket :: "u32 \<Rightarrow> net_state \<Rightarrow> SocketHandle option" where
  "net_socket handle s =
     (case HandleTable_get (ns_table s) handle of Some (NetSocket sk) \<Rightarrow> Some sk | _ \<Rightarrow> None)"

definition inet_ntop :: "u32 \<Rightarrow> string" where
  "inet_ntop a =
     dec_digits (unat (a AND 0xFF)) @ ''.'' @ dec_digits (unat (drop_bit 8 a AND 0xFF)) @ ''.''
     @ dec_digits (unat (drop_bit 16 a AND 0xFF)) @ ''.'' @ dec_digits (unat (drop_bit 24 a AND 0xFF))"

definition ntohs :: "u16 \<Rightarrow> u16" where
  "ntohs p = push_bit 8 p OR drop_bit 8 p"

text \<open>
  \<^verbatim>\<open>sceNetConnect\<close>. The address is read from guest memory for the check and again for the connection.
  The result \<open>None\<close> is the abort of \<^verbatim>\<open>requireNetwork\<close> when no policy is bound.
\<close>

definition sceNetConnect ::
  "net_os \<Rightarrow> u32 \<Rightarrow> u64 \<Rightarrow> u32 \<Rightarrow> net_state \<Rightarrow> (u32 option \<times> net_state) cpp" where
  "sceNetConnect os handle addr addrLen s =
     (if addr = 0 \<or> addrLen < 16 then Val (Some kNetErrInvalidArg, s)
      else case net_socket handle s of
             None \<Rightarrow> Val (Some kNetErrNotFound, s)
           | Some sk \<Rightarrow>
               cpp_bind (load_bytes (ns_mem s) addr 16) (\<lambda>bs.
                 let port = le_field 2 2 bs; ip = le_field 4 4 bs
                 in case ns_policy s of
                      None \<Rightarrow> Val (None, s)
                    | Some p \<Rightarrow>
                        (case allowConnect p (inet_ntop ip) (ntohs port) of
                           Inl reason \<Rightarrow> Val (Some kNetErrConnect, s)
                         | Inr _ \<Rightarrow>
                             let s = s\<lparr>ns_mem := no_guest os (ns_log s) (ns_mem s)\<rparr>
                             in cpp_bind (load_bytes (ns_mem s) addr 16) (\<lambda>bs.
                                  let (r, s) = net_sys os (NConnect (sh_hostFd sk) (le_field 2 2 bs) (le_field 4 4 bs)) s
                                  in Val (Some (if r \<noteq> 0 then kNetErrGeneric else 0), s)))))"

definition sceNetSend ::
  "net_os \<Rightarrow> u32 \<Rightarrow> u64 \<Rightarrow> u64 \<Rightarrow> u32 \<Rightarrow> net_state \<Rightarrow> u32 \<times> net_state" where
  "sceNetSend os handle buf len flags s =
     (case net_socket handle s of
        None \<Rightarrow> (kNetErrNotFound, s)
      | Some sk \<Rightarrow>
          let (n, s) = net_sys os (NSend (sh_hostFd sk) buf len (sint flags)) s
          in (if n < 0 then kNetErrGeneric else word_of_int n, s))"

text \<open>The kernel stores what arrived at the address the guest gave, up to the length it gave.\<close>

definition sceNetRecv ::
  "net_os \<Rightarrow> u32 \<Rightarrow> u64 \<Rightarrow> u64 \<Rightarrow> u32 \<Rightarrow> net_state \<Rightarrow> (u32 \<times> net_state) cpp" where
  "sceNetRecv os handle buf len flags s =
     (case net_socket handle s of
        None \<Rightarrow> Val (kNetErrNotFound, s)
      | Some sk \<Rightarrow>
          let c = NRecv (sh_hostFd sk) buf len (sint flags);
              bs = take (unat len) (no_data os (ns_log s) c);
              (n, s) = net_sys os c s
          in if n < 0 then Val (kNetErrGeneric, s)
             else cpp_bind (store_bytes buf bs (ns_mem s)) (\<lambda>m.
                    Val (word_of_int n, s\<lparr>ns_mem := m\<rparr>)))"

section \<open>libSceHttp\<close>

definition http_lookup :: "u64 \<Rightarrow> HttpKind \<Rightarrow> net_state \<Rightarrow> HttpHandle option" where
  "http_lookup h want s =
     (case um_find (ns_http s) h of
        None \<Rightarrow> None
      | Some x \<Rightarrow> if hh_kind x \<noteq> want then None else Some x)"

text \<open>A new handle, whose number is stored at \<open>out\<close>.\<close>

definition http_new :: "HttpHandle \<Rightarrow> u64 \<Rightarrow> net_state \<Rightarrow> (u32 \<times> net_state) cpp" where
  "http_new h out s =
     (let i = ns_nextHandle s;
          s = s\<lparr>ns_nextHandle := i + 1, ns_http := um_assign i h (ns_http s)\<rparr>
      in cpp_bind (store_u64 out i (ns_mem s)) (\<lambda>m. Val (0, s\<lparr>ns_mem := m\<rparr>)))"

definition http_erase :: "u64 \<Rightarrow> net_state \<Rightarrow> u32 \<times> net_state" where
  "http_erase h s = (0, s\<lparr>ns_http := um_erase h (ns_http s)\<rparr>)"

definition sceHttpCreateTemplate :: "u64 \<Rightarrow> net_state \<Rightarrow> (u32 \<times> net_state) cpp" where
  "sceHttpCreateTemplate outTemplate s =
     (if outTemplate = 0 then Val (kNetErrInvalidArg, s)
      else http_new (HttpHandle_new HkTemplate [] []) outTemplate s)"

definition sceHttpDeleteTemplate :: "u64 \<Rightarrow> net_state \<Rightarrow> u32 \<times> net_state" where
  "sceHttpDeleteTemplate tpl s = http_erase tpl s"

definition sceHttpCreateConnectionWithURL ::
  "u64 \<Rightarrow> u64 \<Rightarrow> u64 \<Rightarrow> net_state \<Rightarrow> (u32 \<times> net_state) cpp" where
  "sceHttpCreateConnectionWithURL tpl url outConn s =
     (if url = 0 \<or> outConn = 0 then Val (kNetErrInvalidArg, s)
      else case http_lookup tpl HkTemplate s of
             None \<Rightarrow> Val (kNetErrNotFound, s)
           | Some _ \<Rightarrow>
               cpp_bind (c_bytes (ns_mem s) url) (\<lambda>bs.
                 http_new (HttpHandle_new HkConnection (map byte_char bs) []) outConn s))"

definition sceHttpDeleteConnection :: "u64 \<Rightarrow> net_state \<Rightarrow> u32 \<times> net_state" where
  "sceHttpDeleteConnection conn s = http_erase conn s"

definition http_method :: "u32 \<Rightarrow> string option" where
  "http_method m =
     map_of [(0, ''GET''), (1, ''POST''), (2, ''HEAD''), (3, ''OPTIONS''), (4, ''PUT''), (5, ''DELETE''),
             (6, ''TRACE''), (7, ''CONNECT'')] m"

definition sceHttpCreateRequestWithURL ::
  "u64 \<Rightarrow> u32 \<Rightarrow> u64 \<Rightarrow> u64 \<Rightarrow> net_state \<Rightarrow> (u32 \<times> net_state) cpp" where
  "sceHttpCreateRequestWithURL conn method url outReq s =
     (if url = 0 \<or> outReq = 0 then Val (kNetErrInvalidArg, s)
      else case http_lookup conn HkConnection s of
             None \<Rightarrow> Val (kNetErrNotFound, s)
           | Some _ \<Rightarrow>
               (case http_method method of
                  None \<Rightarrow> Val (kNetErrInvalidArg, s)
                | Some methodStr \<Rightarrow>
                    cpp_bind (c_bytes (ns_mem s) url) (\<lambda>bs.
                      http_new (HttpHandle_new HkRequest (map byte_char bs) methodStr) outReq s)))"

definition sceHttpDeleteRequest :: "u64 \<Rightarrow> net_state \<Rightarrow> u32 \<times> net_state" where
  "sceHttpDeleteRequest req s = http_erase req s"

definition sceHttpSendRequest ::
  "net_os \<Rightarrow> u64 \<Rightarrow> u64 \<Rightarrow> u64 \<Rightarrow> net_state \<Rightarrow> (u32 \<times> net_state) cpp" where
  "sceHttpSendRequest os req postData postDataSize s =
     (case http_lookup req HkRequest s of
        None \<Rightarrow> Val (kNetErrNotFound, s)
      | Some h \<Rightarrow>
          if \<not> ns_client s then Val (kNetErrNotSupport, s)
          else cpp_bind (if postData \<noteq> 0 \<and> postDataSize > 0
                         then load_bytes (ns_mem s) postData (unat postDataSize) else Val []) (\<lambda>body.
            case HttpClient_perform os (ns_policy s)
                   \<lparr>rq_method = hh_method h, rq_url = hh_url h, rq_headers = [], rq_body = body,
                    rq_timeoutMs = 30000\<rparr> (ns_log s) of
              (None, log) \<Rightarrow> Val (kHttpErrDenied, s\<lparr>ns_log := log\<rparr>)
            | (Some resp, log) \<Rightarrow>
                Val (0, s\<lparr>ns_log := log,
                  ns_http := um_assign req (h\<lparr>hh_responseBody := hp_body resp, hh_readCursor := 0,
                    hh_statusCode := hp_statusCode resp, hh_requestSent := True\<rparr>) (ns_http s)\<rparr>)))"

definition sceHttpGetStatusCode :: "u64 \<Rightarrow> u64 \<Rightarrow> net_state \<Rightarrow> (u32 \<times> net_state) cpp" where
  "sceHttpGetStatusCode req outCode s =
     (if outCode = 0 then Val (kNetErrInvalidArg, s)
      else case http_lookup req HkRequest s of
             None \<Rightarrow> Val (kNetErrNotFound, s)
           | Some h \<Rightarrow>
               cpp_bind (store_u32 outCode (word_of_int (hh_statusCode h)) (ns_mem s)) (\<lambda>m.
                 Val (0, s\<lparr>ns_mem := m\<rparr>)))"

definition sceHttpReadData :: "u64 \<Rightarrow> u64 \<Rightarrow> u64 \<Rightarrow> net_state \<Rightarrow> (u32 \<times> net_state) cpp" where
  "sceHttpReadData req out outSize s =
     (if out = 0 \<or> outSize = 0 then Val (kNetErrInvalidArg, s)
      else case http_lookup req HkRequest s of
             None \<Rightarrow> Val (kNetErrNotFound, s)
           | Some h \<Rightarrow>
               if \<not> hh_requestSent h then Val (kNetErrInvalidArg, s)
               else let n = min (length (hh_responseBody h) - hh_readCursor h) (unat outSize)
                    in if n > 0 then
                         cpp_bind (store_bytes out (take n (drop (hh_readCursor h) (hh_responseBody h))) (ns_mem s)) (\<lambda>m.
                           Val (of_nat n, s\<lparr>ns_mem := m,
                             ns_http := um_assign req (h\<lparr>hh_readCursor := hh_readCursor h + n\<rparr>) (ns_http s)\<rparr>))
                       else Val (0, s))"

definition sceHttpGetContentLength :: "u64 \<Rightarrow> u64 \<Rightarrow> net_state \<Rightarrow> (u32 \<times> net_state) cpp" where
  "sceHttpGetContentLength req outLen s =
     (if outLen = 0 then Val (kNetErrInvalidArg, s)
      else case http_lookup req HkRequest s of
             None \<Rightarrow> Val (kNetErrNotFound, s)
           | Some h \<Rightarrow>
               cpp_bind (store_u64 outLen (of_nat (length (hh_responseBody h))) (ns_mem s)) (\<lambda>m.
                 Val (0, s\<lparr>ns_mem := m\<rparr>)))"

definition sceHttpSetRequestContentLength :: "u64 \<Rightarrow> net_state \<Rightarrow> u32" where
  "sceHttpSetRequestContentLength req s =
     (case http_lookup req HkRequest s of None \<Rightarrow> kNetErrNotFound | Some _ \<Rightarrow> 0)"

definition sceHttpAddRequestHeader :: "net_state \<Rightarrow> u32" where
  "sceHttpAddRequestHeader s = kNetErrNotSupport"

section \<open>libSceNetCtl\<close>

definition currentState :: "NetworkPolicy option \<Rightarrow> u32" where
  "currentState policy =
     (case policy of
        None \<Rightarrow> 0
      | Some p \<Rightarrow>
          (case pl_mode p of Disabled \<Rightarrow> 0 | LocalhostOnly \<Rightarrow> 3 | Restricted \<Rightarrow> 3 | FullAccess \<Rightarrow> 3))"

definition sceNetCtlGetState :: "u64 \<Rightarrow> net_state \<Rightarrow> (u32 \<times> net_state) cpp" where
  "sceNetCtlGetState outState s =
     (if outState = 0 then Val (kNetErrInvalidArg, s)
      else cpp_bind (store_u32 outState (currentState (ns_policy s)) (ns_mem s)) (\<lambda>m.
             Val (0, s\<lparr>ns_mem := m\<rparr>)))"

text \<open>The bytes each code stores; the address and MAC fields are 16 bytes, the names 32.\<close>

definition netctl_info :: "u32 \<Rightarrow> NetworkPolicy option \<Rightarrow> u8 list option" where
  "netctl_info code policy =
     (if code = 0x01 then Some (le_bytes 4 (currentState policy))
      else if code = 0x02 then Some (le_bytes 4 (2 :: u32))
      else if code = 0x0D then Some (le_bytes 4 (2 :: u32))
      else if code = 0x0C then Some (le_bytes 4 (1500 :: u32))
      else if code = 0x0A then Some (map char_byte ''127.0.0.1'' @ replicate 7 0)
      else if code = 0x0B then Some ([0x02, 0x46, 0x50, 0x34, 0x00, 0x01] @ replicate 10 0)
      else if code = 0x12 then Some (le_bytes 4 (0 :: u32))
      else if code = 0x10 \<or> code = 0x11 then Some (replicate 32 0)
      else None)"

definition sceNetCtlGetInfo :: "u32 \<Rightarrow> u64 \<Rightarrow> net_state \<Rightarrow> (u32 \<times> net_state) cpp" where
  "sceNetCtlGetInfo code outInfo s =
     (if outInfo = 0 then Val (kNetErrInvalidArg, s)
      else case netctl_info code (ns_policy s) of
             None \<Rightarrow> Val (kNetErrNotFound, s)
           | Some bs \<Rightarrow> cpp_bind (store_bytes outInfo bs (ns_mem s)) (\<lambda>m. Val (0, s\<lparr>ns_mem := m\<rparr>)))"

section \<open>Addresses and URLs\<close>






text \<open>
  The host of a URL as RFC 3986 defines it: the authority ends at a slash, a question mark or a
  hash; what precedes its last \<^verbatim>\<open>@\<close> is user information; a port may follow. Host names in
  brackets are left out. A URL is plain when its authority has none of these complications.
\<close>

definition url_rest :: "string \<Rightarrow> string" where
  "url_rest url = (case scheme_rest url of None \<Rightarrow> url | Some r \<Rightarrow> r)"

definition url_host :: "string \<Rightarrow> string" where
  "url_host url =
     (let authority = takeWhile (\<lambda>c. c \<notin> set ''/?#'') (url_rest url)
      in takeWhile (\<lambda>c. c \<noteq> CHR '':'') (rev (takeWhile (\<lambda>c. c \<noteq> CHR ''@'') (rev authority))))"






section \<open>Runs of calls\<close>

datatype net_op =
    OSocket u32 u32 u32 | OCloseSocket u32 | OConnect u32 u64 u32 | OSend u32 u64 u64 u32 | ORecv u32 u64 u64 u32
  | OTemplate u64 | OConnection u64 u64 u64 | ORequest u64 u32 u64 u64 | ODelete u64
  | OSendRequest u64 u64 u64 | OStatus u64 u64 | OReadData u64 u64 u64 | OLength u64 u64
  | OState u64 | OInfo u32 u64

definition quiet :: "'a \<times> net_state \<Rightarrow> net_state cpp" where "quiet r = Val (snd r)"
definition result_state :: "('a \<times> net_state) cpp \<Rightarrow> net_state cpp" where
  "result_state r = cpp_bind r (\<lambda>x. Val (snd x))"

fun net_step :: "net_os \<Rightarrow> net_op \<Rightarrow> net_state \<Rightarrow> net_state cpp" where
  "net_step os (OSocket f t p) s = quiet (sceNetSocket os f t p s)"
| "net_step os (OCloseSocket h) s = quiet (sceNetClose os h s)"
| "net_step os (OConnect h a n) s = result_state (sceNetConnect os h a n s)"
| "net_step os (OSend h b n f) s = quiet (sceNetSend os h b n f s)"
| "net_step os (ORecv h b n f) s = result_state (sceNetRecv os h b n f s)"
| "net_step os (OTemplate out) s = result_state (sceHttpCreateTemplate out s)"
| "net_step os (OConnection t u out) s = result_state (sceHttpCreateConnectionWithURL t u out s)"
| "net_step os (ORequest c k u out) s = result_state (sceHttpCreateRequestWithURL c k u out s)"
| "net_step os (ODelete h) s = quiet (http_erase h s)"
| "net_step os (OSendRequest r d n) s = result_state (sceHttpSendRequest os r d n s)"
| "net_step os (OStatus r out) s = result_state (sceHttpGetStatusCode r out s)"
| "net_step os (OReadData r out n) s = result_state (sceHttpReadData r out n s)"
| "net_step os (OLength r out) s = result_state (sceHttpGetContentLength r out s)"
| "net_step os (OState out) s = result_state (sceNetCtlGetState out s)"
| "net_step os (OInfo c out) s = result_state (sceNetCtlGetInfo c out s)"

fun net_run :: "net_os \<Rightarrow> net_op list \<Rightarrow> net_state \<Rightarrow> net_state cpp" where
  "net_run os [] s = Val s"
| "net_run os (c # cs) s = cpp_bind (net_step os c s) (net_run os cs)"
















section \<open>Properties\<close>


definition net_demo :: net_state where
  "net_demo = \<lparr>ns_table = HandleTable_new, ns_policy = Some NetworkPolicy_new, ns_client = True,
     ns_http = [], ns_nextHandle = 1,
     ns_mem = (\<lambda>a. if a < 0x1000 \<or> 0x1010 \<le> a then None
        else Some (([16, 2, 0, 80, 127, 0, 0, 1] @ replicate 8 0) ! unat (a - 0x1000))),
     ns_log = []\<rparr>"

definition net_os_demo :: net_os where
  "net_os_demo = \<lparr>no_ret = (\<lambda>_ c. case c of NSocket _ _ _ \<Rightarrow> 5 | _ \<Rightarrow> 0), no_data = (\<lambda>_ _. []),
     no_http = (\<lambda>_ _. None),
     no_redirect = (\<lambda>_ url. if url = ''http://localhost/a'' then Some ''http://localhost/b'' else None),
     no_hops = (\<lambda>_. 30), no_guest = (\<lambda>_ m. m)\<rparr>"

definition net_http_demo :: net_state where
  "net_http_demo = net_demo\<lparr>ns_http := [(1, HttpHandle_new HkRequest ''http://localhost/a'' ''GET'')]\<rparr>"


text \<open>
  A guest thread that rewrites the address after the check takes the connection elsewhere, and so does
  a redirect of a local server.
\<close>

definition other_address :: "memory \<Rightarrow> memory" where
  "other_address m = m(0x1004 := Some 8, 0x1005 := Some 8, 0x1006 := Some 8, 0x1007 := Some 8)"

lemma connect_reads_twice:
  "case net_run (net_os_demo\<lparr>no_guest := \<lambda>_. other_address\<rparr>) [OSocket 2 1 0, OConnect 3 0x1000 16] net_demo of
     UB \<Rightarrow> False | Val s' \<Rightarrow> ns_log s' = [NSocket 2 1 0, NConnect 5 0x5000 0x08080808]"
  by code_simp

lemma redirect_leaves_host:
  "case net_run (net_os_demo\<lparr>no_redirect := \<lambda>_ _. Some ''http://example.com/'', no_hops := \<lambda>_. 1\<rparr>)
       [OSendRequest 1 0 0] net_http_demo of
     UB \<Rightarrow> False | Val s' \<Rightarrow> ns_log s' = [NHttp ''http://localhost/a'' [] 30000 VGet,
       NRedirect ''http://localhost/a'' ''http://example.com/'']"
  by code_simp

text \<open>
  User information is not recognised: the policy takes what precedes the colon of a user name
  for the host, and lets a request for another machine through.
\<close>

theorem http_userinfo_bypass:
  "checkPolicy (Some NetworkPolicy_new) ''http://localhost:80@example.com/'' = Inr ()
   \<and> url_host ''http://localhost:80@example.com/'' = ''example.com''"
  by code_simp

text \<open>A URL without a port is checked as port 443, whatever its scheme.\<close>

theorem http_default_port: "url_endpoint ''http://example.com/'' = (''example.com'', 443)"
  by code_simp

text \<open>A client that reads an answer piece by piece and collects what each call stored.\<close>

fun http_read_run :: "u64 \<Rightarrow> (u64 \<times> u64) list \<Rightarrow> net_state \<Rightarrow> u8 list list cpp" where
  "http_read_run req [] s = Val []"
| "http_read_run req ((out, n) # rs) s =
     cpp_bind (sceHttpReadData req out n s) (\<lambda>(rc, s).
     cpp_bind (load_bytes (ns_mem s) out (unat rc)) (\<lambda>bs.
     cpp_bind (http_read_run req rs s) (\<lambda>rest. Val (bs # rest))))"

lemma read_data_step:
  assumes "http_lookup req HkRequest s = Some h" and "hh_requestSent h" and "out \<noteq> 0" and "n \<noteq> 0" and "n < 2 ^ 32"
    and "sceHttpReadData req out n s = Val (rc, s')"
  defines "k \<equiv> min (length (hh_responseBody h) - hh_readCursor h) (unat n)"
  shows "unat rc = k" and "load_bytes (ns_mem s') out k = Val (take k (drop (hh_readCursor h) (hh_responseBody h)))"
    and "http_lookup req HkRequest s' = Some (h\<lparr>hh_readCursor := hh_readCursor h + k\<rparr>)"
proof -
  have k: "k < 2 ^ 32" using assms(5) by (simp add: k_def word_less_unat)
  then have u: "unat (of_nat k :: u32) = k" by (simp add: unat_of_nat take_bit_nat_eq_self)
  have hk: "hh_kind h = HkRequest" using assms(1) by (auto simp: http_lookup_def split: option.splits if_splits)
  let ?bs = "take k (drop (hh_readCursor h) (hh_responseBody h))"
  have len: "length ?bs = k" by (simp add: k_def)
  have "unat rc = k \<and> load_bytes (ns_mem s') out k = Val ?bs
      \<and> http_lookup req HkRequest s' = Some (h\<lparr>hh_readCursor := hh_readCursor h + k\<rparr>)"
  proof (cases "k = 0")
    case True
    with assms(1-4,6) show ?thesis
      by (auto simp: sceHttpReadData_def Let_def simp flip: k_def)
  next
    case False
    with assms(1-4,6) obtain m where st: "store_bytes out ?bs (ns_mem s) = Val m" and rc: "rc = of_nat k"
      and s': "s' = s\<lparr>ns_mem := m, ns_http := um_assign req (h\<lparr>hh_readCursor := hh_readCursor h + k\<rparr>) (ns_http s)\<rparr>"
      by (auto simp: sceHttpReadData_def Let_def cpp_bind_eq_Val_iff simp flip: k_def)
    have "load_bytes m out k = Val ?bs" using load_store_bytes [OF st] k by (simp only: len) simp
    with rc s' u hk show ?thesis by (simp add: http_lookup_def um_simps)
  qed
  then show "unat rc = k" and "load_bytes (ns_mem s') out k = Val ?bs"
    and "http_lookup req HkRequest s' = Some (h\<lparr>hh_readCursor := hh_readCursor h + k\<rparr>)" by blast+
qed

text \<open>
  C40. The answer is delivered in order. However the guest cuts its reads of the answer to a request that was sent into
  buffers (not null, of 1 to 2^32 - 1 bytes, and mapped, so that the reads are defined), what it collects is the next part
  of the answer's body, of the total length asked for or up to its end, with nothing skipped or repeated.
\<close>

theorem http_reads_in_order:
  assumes "http_lookup req HkRequest s = Some h" and "hh_requestSent h"
    and "list_all (\<lambda>(out, n). out \<noteq> 0 \<and> n \<noteq> 0 \<and> n < 2 ^ 32) rs"
    and "http_read_run req rs s = Val pieces"
  shows "concat pieces = take (sum_list (map (\<lambda>r. unat (snd r)) rs)) (drop (hh_readCursor h) (hh_responseBody h))"
  using assms
proof (induction rs arbitrary: s h pieces)
  case (Cons r rs)
  obtain out n where r: "r = (out, n)" by (cases r)
  define k where "k = min (length (hh_responseBody h) - hh_readCursor h) (unat n)"
  let ?h = "h\<lparr>hh_readCursor := hh_readCursor h + k\<rparr>"
  from Cons.prems(4) obtain rc s1 bs rest where st: "sceHttpReadData req out n s = Val (rc, s1)"
    and ld: "load_bytes (ns_mem s1) out (unat rc) = Val bs"
    and rest: "http_read_run req rs s1 = Val rest" and p: "pieces = bs # rest"
    by (auto simp: r cpp_bind_eq_Val_iff)
  have out: "out \<noteq> 0" "n \<noteq> 0" "n < 2 ^ 32" "list_all (\<lambda>(out, n). out \<noteq> 0 \<and> n \<noteq> 0 \<and> n < 2 ^ 32) rs"
    using Cons.prems(3) by (simp_all add: r)
  note d = read_data_step [OF Cons.prems(1,2) out(1-3) st, folded k_def]
  have bs: "bs = take k (drop (hh_readCursor h) (hh_responseBody h))" using ld d(1,2) by simp
  have IH: "concat rest = take (sum_list (map (\<lambda>r. unat (snd r)) rs)) (drop (hh_readCursor h + k) (hh_responseBody h))"
    using Cons.IH [OF d(3) _ out(4) rest] Cons.prems(2) by simp
  let ?b = "drop (hh_readCursor h) (hh_responseBody h)"
  have tk: "take k ?b = take (unat n) ?b" by (cases "length ?b \<le> unat n") (simp_all add: k_def min_def)
  have dk: "drop (hh_readCursor h + k) (hh_responseBody h) = drop (unat n) ?b"
    by (cases "length ?b \<le> unat n") (simp_all add: k_def min_def add.commute)
  show ?case unfolding p bs r using IH tk dk by (simp add: take_add)
qed simp

definition http_demo :: net_state where
  "http_demo = net_demo\<lparr>ns_http := [(1, (HttpHandle_new HkRequest ''http://localhost/'' ''GET'')
     \<lparr>hh_responseBody := [7, 8, 9], hh_requestSent := True\<rparr>)]\<rparr>"

theorem http_reads_in_order_witness:
  "\<exists>pieces. http_read_run 1 [(0x1000, 2), (0x1000, 2)] http_demo = Val pieces
     \<and> pieces = [[7, 8], [9]] \<and> concat pieces = [7, 8, 9]"
proof -
  have p: "http_read_run 1 [(0x1000, 2), (0x1000, 2)] http_demo = Val [[7, 8], [9]]" by code_simp
  have h: "http_lookup 1 HkRequest http_demo = Some ((HttpHandle_new HkRequest ''http://localhost/'' ''GET'')
     \<lparr>hh_responseBody := [7, 8, 9], hh_requestSent := True\<rparr>)"
    by (simp add: http_lookup_def http_demo_def um_find_def HttpHandle_new_def)
  from http_reads_in_order [OF h _ _ p] p show ?thesis by (simp add: HttpHandle_new_def)
qed

end
