(* ===== verification/Dialogs.thy ===== *)
theory Dialogs
  imports Guest_Words "HOL-Library.Multiset"
begin

text \<open>
  Dialogs (\<^verbatim>\<open>dialogs/DialogManager.cpp\<close>, \<^verbatim>\<open>sce/dialog\<close>, \<^verbatim>\<open>sce/signin\<close>): the queue of requests, the one that is
  shown, and the libraries that submit requests and poll their results. Every method holds the
  manager's lock while it changes the queue, and calls the completion function of the request it has taken after
  it has released the lock: these are two steps here, between which other threads run. The completion functions of
  the requests are values of a datatype that names what they capture.
\<close>

section \<open>Requests\<close>

datatype DialogKind = DkCommon | DkMessage | DkError | DkSaveData | DkIme | DkSignin
datatype DialogResult = DrOk | DrCancel | DrTimeout | DrRejected

datatype completion = CNone | CMsg u32 | CIme | CSave | CSignin

record DialogRequest =
  dq_kind :: DialogKind
  dq_title :: string
  dq_message :: string
  dq_buttons :: "string list"
  dq_defaultButton :: u32
  dq_timeoutMs :: u32
  dq_imeInitialText :: string
  dq_imeMaxLength :: u32
  dq_saveDirName :: string
  dq_saveTitle :: string
  dq_saveSubtitle :: string
  dq_saveDetail :: string
  dq_onComplete :: completion

definition DialogRequest_new :: DialogRequest where
  "DialogRequest_new = \<lparr>dq_kind = DkMessage, dq_title = [], dq_message = [], dq_buttons = [],
     dq_defaultButton = 0, dq_timeoutMs = 0, dq_imeInitialText = [], dq_imeMaxLength = 0,
     dq_saveDirName = [], dq_saveTitle = [], dq_saveSubtitle = [], dq_saveDetail = [],
     dq_onComplete = CNone\<rparr>"

text \<open>
  The manager and the variables of the libraries. \<open>ds_flying\<close> holds, for every thread that has left the lock
  with requests to complete, the completion functions it has yet to call with their results. \<open>ds_accepted\<close>,
  \<open>ds_decided\<close> and \<open>ds_ran\<close> record the requests that were queued, those whose result was decided under the lock
  and the completion functions that were called, in order; no code reads them.
\<close>

record dialog_state =
  m_pending :: "DialogRequest list"
  m_active :: "DialogRequest option"
  m_activeStartMs :: u64
  msg_results :: "(u32, u32) umap"
  msg_nextDial :: u32
  ime_resultText :: string
  ime_resultCode :: int
  save_lastResult :: u32
  signin_active :: bool
  signin_result :: int
  ds_accepted :: "completion list"
  ds_flying :: "(completion \<times> DialogResult) list list"
  ds_decided :: "(completion \<times> DialogResult) list"
  ds_ran :: "(completion \<times> DialogResult) list"

definition dialog_start :: dialog_state where
  "dialog_start = \<lparr>m_pending = [], m_active = None, m_activeStartMs = 0, msg_results = [],
     msg_nextDial = 1, ime_resultText = [], ime_resultCode = - 1, save_lastResult = 1,
     signin_active = False, signin_result = 0, ds_accepted = [],
     ds_flying = [], ds_decided = [], ds_ran = []\<rparr>"

section \<open>The manager\<close>

text \<open>What the completion function of each library does.\<close>

fun run_completion :: "completion \<Rightarrow> DialogResult \<Rightarrow> dialog_state \<Rightarrow> dialog_state" where
  "run_completion CNone r s = s"
| "run_completion (CMsg i) r s = s\<lparr>msg_results := um_assign i (if r = DrOk then 0 else 1) (msg_results s)\<rparr>"
| "run_completion CIme r s = s\<lparr>ime_resultCode := (if r = DrOk then 0 else 1)\<rparr>"
| "run_completion CSave r s = s\<lparr>save_lastResult := (if r = DrOk then 0 else 1)\<rparr>"
| "run_completion CSignin r s = s\<lparr>signin_active := False, signin_result := 0\<rparr>"

definition complete :: "completion \<times> DialogResult \<Rightarrow> dialog_state \<Rightarrow> dialog_state" where
  "complete c s = run_completion (fst c) (snd c) (s\<lparr>ds_ran := ds_ran s @ [c]\<rparr>)"

definition decide :: "(completion \<times> DialogResult) list \<Rightarrow> dialog_state \<Rightarrow> dialog_state" where
  "decide cs s = s\<lparr>ds_decided := ds_decided s @ cs\<rparr>"

text \<open>The lock is released by a thread that then calls the completion functions \<open>cs\<close>, one after the other.\<close>

definition unlock_with :: "(completion \<times> DialogResult) list \<Rightarrow> dialog_state \<Rightarrow> dialog_state" where
  "unlock_with cs s = s\<lparr>ds_flying := ds_flying s @ [cs]\<rparr>"

definition run_flying :: "nat \<Rightarrow> dialog_state \<Rightarrow> dialog_state" where
  "run_flying i s =
     (if i < length (ds_flying s) then
        (case ds_flying s ! i of
           [] \<Rightarrow> s
         | c # cs \<Rightarrow> complete c (s\<lparr>ds_flying := (ds_flying s)[i := cs]\<rparr>))
      else s)"

text \<open>The shown request is taken away with its result.\<close>

definition take_active :: "DialogRequest \<Rightarrow> DialogResult \<Rightarrow> dialog_state \<Rightarrow> dialog_state" where
  "take_active q r s =
     unlock_with [(dq_onComplete q, r)] (decide [(dq_onComplete q, r)] (s\<lparr>m_active := None\<rparr>))"

definition DialogManager_init :: "dialog_state \<Rightarrow> dialog_state" where
  "DialogManager_init s = s\<lparr>m_pending := [], m_active := None\<rparr>"

text \<open>The request that is shown is completed under the lock, the queued ones after it.\<close>

definition DialogManager_shutdown :: "dialog_state \<Rightarrow> dialog_state" where
  "DialogManager_shutdown s =
     (let pending = map (\<lambda>q. (dq_onComplete q, DrCancel)) (m_pending s); s = s\<lparr>m_pending := []\<rparr>;
          s = (case m_active s of
                 None \<Rightarrow> s
               | Some q \<Rightarrow> (complete (dq_onComplete q, DrCancel)
                     (decide [(dq_onComplete q, DrCancel)] s))\<lparr>m_active := None\<rparr>)
      in unlock_with pending (decide pending s))"

definition submit :: "DialogRequest \<Rightarrow> dialog_state \<Rightarrow> bool \<times> dialog_state" where
  "submit req s =
     (if length (m_pending s) \<ge> 32 then (False, s)
      else (True, s\<lparr>m_pending := m_pending s @ [req], ds_accepted := ds_accepted s @ [dq_onComplete req]\<rparr>))"

definition presentNext :: "u64 \<Rightarrow> dialog_state \<Rightarrow> dialog_state" where
  "presentNext now s =
     (if m_active s \<noteq> None \<or> m_pending s = [] then s
      else s\<lparr>m_active := Some (hd (m_pending s)), m_pending := tl (m_pending s), m_activeStartMs := now\<rparr>)"

text \<open>\<open>now\<close> and \<open>now'\<close> are the two readings of the clock.\<close>

definition DialogManager_tick :: "u64 \<Rightarrow> u64 \<Rightarrow> dialog_state \<Rightarrow> dialog_state" where
  "DialogManager_tick now now' s =
     (let s = presentNext now s
      in case m_active s of
           None \<Rightarrow> s
         | Some q \<Rightarrow>
             if dq_timeoutMs q > 0 \<and> now' - m_activeStartMs s \<ge> ucast (dq_timeoutMs q)
             then take_active q DrTimeout s else s)"

definition hasActiveDialog :: "dialog_state \<Rightarrow> bool" where
  "hasActiveDialog s \<longleftrightarrow> m_active s \<noteq> None"

definition handleKey :: "int \<Rightarrow> bool \<Rightarrow> dialog_state \<Rightarrow> bool \<times> dialog_state" where
  "handleKey scancode down s =
     (if \<not> down then (False, s)
      else case m_active s of
             None \<Rightarrow> (False, s)
           | Some q \<Rightarrow>
               if scancode = 40 then (True, take_active q DrOk s)
               else if scancode = 41 then (True, take_active q DrCancel s)
               else (True, s))"

text \<open>
  The loop over the characters typed: it stops when the text is full, before it looks at the
  character. \<^verbatim>\<open>char\<close> is signed, so that bytes above 127 are below the space.
\<close>

fun ime_type :: "u32 \<Rightarrow> string \<Rightarrow> string \<Rightarrow> string" where
  "ime_type maxLen [] buf = buf"
| "ime_type maxLen (c # cs) buf =
     (if maxLen > 0 \<and> length buf \<ge> unat maxLen then buf
      else ime_type maxLen cs
        (if c = CHR 0x08 then (if buf \<noteq> [] then butlast buf else buf)
         else if 0x20 \<le> (of_char c :: nat) \<and> (of_char c :: nat) < 0x80 then buf @ [c] else buf))"

definition handleText :: "string \<Rightarrow> dialog_state \<Rightarrow> bool \<times> dialog_state" where
  "handleText txt s =
     (case m_active s of
        None \<Rightarrow> (False, s)
      | Some q \<Rightarrow>
          if dq_kind q \<noteq> DkIme then (True, s)
          else (True, s\<lparr>m_active := Some (q\<lparr>dq_imeInitialText :=
                  ime_type (dq_imeMaxLength q) txt (dq_imeInitialText q)\<rparr>)\<rparr>))"

definition cancelActive :: "dialog_state \<Rightarrow> dialog_state" where
  "cancelActive s =
     (case m_active s of None \<Rightarrow> s | Some q \<Rightarrow> take_active q DrCancel s)"

definition queueDepth :: "dialog_state \<Rightarrow> nat" where
  "queueDepth s = length (m_pending s) + (if m_active s \<noteq> None then 1 else 0)"

section \<open>The libraries\<close>

definition kDlgErrInvalidArg :: u32 where "kDlgErrInvalidArg = 0x80020005"
definition kDlgErrNotFound :: u32 where "kDlgErrNotFound = 0x80020004"
definition kDlgErrBusy :: u32 where "kDlgErrBusy = 0x8002000B"

definition c_text :: "memory \<Rightarrow> u64 \<Rightarrow> string cpp" where
  "c_text m a = cpp_bind (c_bytes m a) (\<lambda>bs. Val (map byte_char bs))"

subsection \<open>Messages\<close>

text \<open>In the parameter structure the button type is at offset 4, the message at offset 24.\<close>

definition sceMsgDialogOpen :: "memory \<Rightarrow> u64 \<Rightarrow> dialog_state \<Rightarrow> (u32 \<times> dialog_state) cpp" where
  "sceMsgDialogOpen m param s =
     (if param = 0 then Val (kDlgErrInvalidArg, s)
      else cpp_bind (c_text m (param + 24)) (\<lambda>msg.
           cpp_bind (load_u32 m (param + 4)) (\<lambda>buttonType.
             let dialId = msg_nextDial s;
                 s = s\<lparr>msg_nextDial := dialId + 1\<rparr>;
                 req = DialogRequest_new\<lparr>dq_kind := DkMessage, dq_title := ''System'', dq_message := msg,
                   dq_buttons := (if buttonType = 1 then [''Yes'', ''No''] else [''OK'']),
                   dq_defaultButton := 0, dq_onComplete := CMsg dialId\<rparr>;
                 (ok, s) = submit req s
             in Val (if \<not> ok then kDlgErrBusy else dialId, s))))"

definition sceMsgDialogGetStatus :: "u32 \<Rightarrow> u64 \<Rightarrow> dialog_state \<Rightarrow> memory \<Rightarrow> (u32 \<times> memory) cpp" where
  "sceMsgDialogGetStatus dialId outStatus s m =
     (if outStatus = 0 then Val (kDlgErrInvalidArg, m)
      else cpp_bind (store_u32 outStatus (if um_find (msg_results s) dialId = None then 0 else 1) m)
             (\<lambda>m. Val (0, m)))"

definition sceMsgDialogUpdateStatus :: "u32 \<Rightarrow> u64 \<Rightarrow> dialog_state \<Rightarrow> memory \<Rightarrow> (u32 \<times> memory) cpp" where
  "sceMsgDialogUpdateStatus dialId outStatus s m = sceMsgDialogGetStatus dialId outStatus s m"

definition sceMsgDialogGetResult :: "u32 \<Rightarrow> u64 \<Rightarrow> dialog_state \<Rightarrow> memory \<Rightarrow> (u32 \<times> memory) cpp" where
  "sceMsgDialogGetResult dialId outResult s m =
     (if outResult = 0 then Val (kDlgErrInvalidArg, m)
      else cpp_bind (store_u32 outResult
               (case um_find (msg_results s) dialId of None \<Rightarrow> - 1 | Some r \<Rightarrow> r) m)
             (\<lambda>m. Val (0, m)))"

definition sceMsgDialogClose :: "u32 \<Rightarrow> dialog_state \<Rightarrow> dialog_state" where
  "sceMsgDialogClose dialId s = s\<lparr>msg_results := um_erase dialId (msg_results s)\<rparr>"

definition sceMsgDialogAbort :: "u32 \<Rightarrow> dialog_state \<Rightarrow> dialog_state" where
  "sceMsgDialogAbort dialId s = cancelActive s"

subsection \<open>Errors\<close>

definition hex_upper :: "nat \<Rightarrow> char" where
  "hex_upper n = (if n < 10 then char_of (48 + n) else char_of (55 + n))"

definition error_text :: "u32 \<Rightarrow> string" where
  "error_text code = ''Error 0x'' @ map (\<lambda>i. hex_upper (unat (drop_bit (4 * i) code AND 0xF))) (rev [0..<8])"

definition sceErrorDialogOpen :: "u32 \<Rightarrow> dialog_state \<Rightarrow> u32 \<times> dialog_state" where
  "sceErrorDialogOpen errorCode s =
     (1, snd (submit (DialogRequest_new\<lparr>dq_kind := DkError, dq_title := ''Error'',
                dq_message := error_text errorCode, dq_buttons := [''OK'']\<rparr>) s))"

definition sceErrorDialogGetStatus :: "u64 \<Rightarrow> memory \<Rightarrow> (u32 \<times> memory) cpp" where
  "sceErrorDialogGetStatus outStatus m =
     (if outStatus \<noteq> 0 then cpp_bind (store_u32 outStatus 1 m) (\<lambda>m. Val (0, m)) else Val (0, m))"

subsection \<open>Text entry\<close>

text \<open>The length limit is at offset 8, the title at 16, the initial text at 144.\<close>

definition sceImeDialogInit :: "memory \<Rightarrow> u64 \<Rightarrow> dialog_state \<Rightarrow> (u32 \<times> dialog_state) cpp" where
  "sceImeDialogInit m param s =
     (if param = 0 then Val (kDlgErrInvalidArg, s)
      else cpp_bind (c_text m (param + 16)) (\<lambda>title.
           cpp_bind (c_text m (param + 144)) (\<lambda>initialText.
           cpp_bind (load_u32 m (param + 8)) (\<lambda>maxTextLength.
             Val (0, snd (submit (DialogRequest_new\<lparr>dq_kind := DkIme, dq_title := title,
               dq_message := ''Enter text'', dq_imeInitialText := initialText,
               dq_imeMaxLength := maxTextLength, dq_buttons := [''OK'', ''Cancel''],
               dq_onComplete := CIme\<rparr>) s))))))"

definition sceImeDialogGetStatus :: "u64 \<Rightarrow> dialog_state \<Rightarrow> memory \<Rightarrow> (u32 \<times> memory) cpp" where
  "sceImeDialogGetStatus outStatus s m =
     (if outStatus = 0 then Val (kDlgErrInvalidArg, m)
      else cpp_bind (store_u32 outStatus (if ime_resultCode s < 0 then 0 else 1) m) (\<lambda>m. Val (0, m)))"

definition sceImeDialogGetResult :: "u64 \<Rightarrow> dialog_state \<Rightarrow> memory \<Rightarrow> (u32 \<times> memory) cpp" where
  "sceImeDialogGetResult outResult s m =
     (if outResult = 0 then Val (kDlgErrInvalidArg, m)
      else let txt = (case m_active s of Some q \<Rightarrow> dq_imeInitialText q | None \<Rightarrow> ime_resultText s);
               bs = take 511 (map char_byte (takeWhile (\<lambda>c. c \<noteq> CHR 0x00) txt)) @ [0]
           in cpp_bind (store_u32 outResult
                  (if ime_resultCode s < 0 then 1 else word_of_int (ime_resultCode s)) m) (\<lambda>m.
              cpp_bind (store_bytes (outResult + 4) bs m) (\<lambda>m. Val (0, m))))"

definition sceImeDialogAbort :: "dialog_state \<Rightarrow> dialog_state" where
  "sceImeDialogAbort s = cancelActive s"

subsection \<open>Save data\<close>

text \<open>The type is at offset 0, the strings at 8, 136, 264 and 520.\<close>

definition sceSaveDataDialogOpen :: "memory \<Rightarrow> u64 \<Rightarrow> dialog_state \<Rightarrow> (u32 \<times> dialog_state) cpp" where
  "sceSaveDataDialogOpen m param s =
     (if param = 0 then Val (kDlgErrInvalidArg, s)
      else cpp_bind (load_u32 m param) (\<lambda>dialogType.
           cpp_bind (c_text m (param + 136)) (\<lambda>subtitle.
           cpp_bind (c_text m (param + 520)) (\<lambda>dirName.
           cpp_bind (c_text m (param + 8)) (\<lambda>title.
           cpp_bind (c_text m (param + 264)) (\<lambda>detail.
             Val (1, snd (submit (DialogRequest_new\<lparr>dq_kind := DkSaveData,
               dq_title := (if dialogType = 1 then ''Load Save Data''
                            else if dialogType = 2 then ''Delete Save'' else ''Save Data''),
               dq_message := subtitle, dq_saveDirName := dirName, dq_saveTitle := title,
               dq_saveSubtitle := subtitle, dq_saveDetail := detail, dq_buttons := [''OK'', ''Cancel''],
               dq_defaultButton := 0, dq_onComplete := CSave\<rparr>) s))))))))"

definition sceSaveDataDialogGetStatus :: "u64 \<Rightarrow> dialog_state \<Rightarrow> memory \<Rightarrow> (u32 \<times> memory) cpp" where
  "sceSaveDataDialogGetStatus outStatus s m =
     (if outStatus \<noteq> 0
      then cpp_bind (store_u32 outStatus (if hasActiveDialog s then 0 else 1) m) (\<lambda>m. Val (0, m))
      else Val (0, m))"

definition sceSaveDataDialogGetResult :: "u64 \<Rightarrow> dialog_state \<Rightarrow> memory \<Rightarrow> (u32 \<times> memory) cpp" where
  "sceSaveDataDialogGetResult outResult s m =
     (if outResult \<noteq> 0 then cpp_bind (store_u32 outResult (save_lastResult s) m) (\<lambda>m. Val (0, m))
      else Val (0, m))"

definition sceSaveDataDialogAbort :: "dialog_state \<Rightarrow> dialog_state" where
  "sceSaveDataDialogAbort s = cancelActive s"

definition sceSaveDataDialogIsReadyToDisplay :: "u64 \<Rightarrow> dialog_state \<Rightarrow> memory \<Rightarrow> (u32 \<times> memory) cpp" where
  "sceSaveDataDialogIsReadyToDisplay outReady s m =
     (if outReady \<noteq> 0
      then cpp_bind (store_u32 outReady (if hasActiveDialog s then 0 else 1) m) (\<lambda>m. Val (0, m))
      else Val (0, m))"

definition sceCommonDialogIsUsed :: "u64 \<Rightarrow> dialog_state \<Rightarrow> memory \<Rightarrow> (u32 \<times> memory) cpp" where
  "sceCommonDialogIsUsed outUsed s m =
     (if outUsed \<noteq> 0
      then cpp_bind (store_u32 outUsed (if hasActiveDialog s then 1 else 0) m) (\<lambda>m. Val (0, m))
      else Val (0, m))"

subsection \<open>Sign-in\<close>

text \<open>The online id of the account, or none when nobody is signed in.\<close>

definition sceSigninDialogOpen :: "string option \<Rightarrow> dialog_state \<Rightarrow> u32 \<times> dialog_state" where
  "sceSigninDialogOpen account s =
     (case account of
        None \<Rightarrow> (0, s)
      | Some onlineId \<Rightarrow>
          (0, snd (submit (DialogRequest_new\<lparr>dq_kind := DkSignin, dq_title := ''Signed In'',
                dq_message := ''Signed in as '' @ onlineId, dq_buttons := [''OK''], dq_timeoutMs := 1500,
                dq_onComplete := CSignin\<rparr>) (s\<lparr>signin_active := True\<rparr>))))"

definition sceSigninDialogGetStatus :: "u64 \<Rightarrow> dialog_state \<Rightarrow> memory \<Rightarrow> (u32 \<times> memory) cpp" where
  "sceSigninDialogGetStatus outStatus s m =
     (if outStatus = 0 then Val (kDlgErrNotFound, m)
      else cpp_bind (store_u32 outStatus (if signin_active s then 0 else 1) m) (\<lambda>m. Val (0, m)))"

definition sceSigninDialogGetResult :: "u64 \<Rightarrow> dialog_state \<Rightarrow> memory \<Rightarrow> (u32 \<times> memory) cpp" where
  "sceSigninDialogGetResult outResult s m =
     (if outResult = 0 then Val (kDlgErrNotFound, m)
      else cpp_bind (store_u32 outResult (word_of_int (signin_result s)) m) (\<lambda>m. Val (0, m)))"

definition sceSigninDialogClose :: "dialog_state \<Rightarrow> dialog_state" where
  "sceSigninDialogClose s = s\<lparr>signin_active := False\<rparr>"

section \<open>Runs\<close>

datatype dialog_op =
    DMsg u64 | DError u32 | DIme u64 | DSave u64 | DSignin "string option"
  | DClose u32 | DAbort | DSigninClose | DTick u64 u64 | DKey int bool | DText string | DShutdown
  | DRun nat

text \<open>
  One operation, or the call of a completion function by one of the threads that owe one; the memory is the guest's at that time.
\<close>

fun dialog_step :: "memory \<Rightarrow> dialog_op \<Rightarrow> dialog_state \<Rightarrow> dialog_state cpp" where
  "dialog_step m (DMsg a) s = cpp_bind (sceMsgDialogOpen m a s) (\<lambda>r. Val (snd r))"
| "dialog_step m (DError c) s = Val (snd (sceErrorDialogOpen c s))"
| "dialog_step m (DIme a) s = cpp_bind (sceImeDialogInit m a s) (\<lambda>r. Val (snd r))"
| "dialog_step m (DSave a) s = cpp_bind (sceSaveDataDialogOpen m a s) (\<lambda>r. Val (snd r))"
| "dialog_step m (DSignin acc) s = Val (snd (sceSigninDialogOpen acc s))"
| "dialog_step m (DClose i) s = Val (sceMsgDialogClose i s)"
| "dialog_step m DAbort s = Val (cancelActive s)"
| "dialog_step m DSigninClose s = Val (sceSigninDialogClose s)"
| "dialog_step m (DTick a b) s = Val (DialogManager_tick a b s)"
| "dialog_step m (DKey k d) s = Val (snd (handleKey k d s))"
| "dialog_step m (DText t) s = Val (snd (handleText t s))"
| "dialog_step m DShutdown s = Val (DialogManager_shutdown s)"
| "dialog_step m (DRun i) s = Val (run_flying i s)"

fun dialog_run :: "(memory \<times> dialog_op) list \<Rightarrow> dialog_state \<Rightarrow> dialog_state cpp" where
  "dialog_run [] s = Val s"
| "dialog_run ((m, c) # cs) s = cpp_bind (dialog_step m c s) (dialog_run cs)"

section \<open>Every request is answered once, in order\<close>

text \<open>The requests that are not answered yet, the oldest first.\<close>

definition waiting :: "dialog_state \<Rightarrow> completion list" where
  "waiting s = (case m_active s of None \<Rightarrow> [] | Some q \<Rightarrow> [dq_onComplete q]) @ map dq_onComplete (m_pending s)"

text \<open>Every decided request has had its completion called, or a thread owes the call, with the decided result.\<close>

definition decisions_owed :: "dialog_state \<Rightarrow> bool" where
  "decisions_owed s \<longleftrightarrow> mset (ds_decided s) = mset (ds_ran s) + mset (concat (ds_flying s))"

definition dialog_inv :: "dialog_state \<Rightarrow> bool" where
  "dialog_inv s \<longleftrightarrow> map fst (ds_decided s) @ waiting s = ds_accepted s \<and> length (m_pending s) \<le> 32
     \<and> decisions_owed s"

lemma run_completion_frame [simp]:
  "m_pending (run_completion c r s) = m_pending s" "m_active (run_completion c r s) = m_active s"
  "ds_decided (run_completion c r s) = ds_decided s" "ds_ran (run_completion c r s) = ds_ran s"
  "ds_flying (run_completion c r s) = ds_flying s" "ds_accepted (run_completion c r s) = ds_accepted s"
  by (cases c; simp)+

lemma complete_frame [simp]:
  "m_pending (complete c s) = m_pending s" "m_active (complete c s) = m_active s"
  "ds_decided (complete c s) = ds_decided s" "ds_ran (complete c s) = ds_ran s @ [c]"
  "ds_flying (complete c s) = ds_flying s" "ds_accepted (complete c s) = ds_accepted s"
  by (simp_all add: complete_def)

lemma mset_concat_pop:
  "i < length css \<Longrightarrow> css ! i = c # cs \<Longrightarrow> mset (concat css) = add_mset c (mset (concat (css[i := cs])))"
proof (induction css arbitrary: i)
  case (Cons x css)
  then show ?case by (cases i) simp_all
qed simp

lemma submit_inv: "dialog_inv s \<Longrightarrow> dialog_inv (snd (submit req s))"
  by (auto simp: submit_def dialog_inv_def waiting_def decisions_owed_def split: option.splits)

lemma waiting_none: "m_active s = None \<Longrightarrow> waiting s = map dq_onComplete (m_pending s)"
  by (simp add: waiting_def)

lemma waiting_some: "m_active s = Some q \<Longrightarrow> waiting s = dq_onComplete q # map dq_onComplete (m_pending s)"
  by (simp add: waiting_def)

lemma take_active_inv:
  "dialog_inv s \<Longrightarrow> m_active s = Some q \<Longrightarrow> dialog_inv (take_active q r s)"
  by (simp add: dialog_inv_def waiting_def decisions_owed_def take_active_def unlock_with_def decide_def)

lemma run_flying_inv: "dialog_inv s \<Longrightarrow> dialog_inv (run_flying i s)"
  using mset_concat_pop [of i "ds_flying s"]
  by (auto simp: run_flying_def dialog_inv_def waiting_def decisions_owed_def split: list.splits)

lemma present_inv: "dialog_inv s \<Longrightarrow> dialog_inv (presentNext now s)"
  by (cases "m_pending s") (auto simp: presentNext_def dialog_inv_def waiting_def decisions_owed_def)

lemma tick_inv: "dialog_inv s \<Longrightarrow> dialog_inv (DialogManager_tick a b s)"
  using present_inv [of s a]
  by (auto simp: DialogManager_tick_def Let_def take_active_inv split: option.splits)

lemma cancel_inv: "dialog_inv s \<Longrightarrow> dialog_inv (cancelActive s)"
  by (auto simp: cancelActive_def take_active_inv split: option.splits)

lemma key_inv: "dialog_inv s \<Longrightarrow> dialog_inv (snd (handleKey k d s))"
  by (auto simp: handleKey_def take_active_inv split: option.splits)

lemma text_inv: "dialog_inv s \<Longrightarrow> dialog_inv (snd (handleText t s))"
  by (auto simp: handleText_def dialog_inv_def waiting_def decisions_owed_def split: option.splits)

lemma shutdown_inv:
  assumes "dialog_inv s"
  shows "dialog_inv (DialogManager_shutdown s)" and "waiting (DialogManager_shutdown s) = []"
  using assms
  by (auto simp: DialogManager_shutdown_def Let_def dialog_inv_def waiting_def decisions_owed_def unlock_with_def
      decide_def comp_def split: option.splits)

lemma frame_invs:
  assumes "dialog_inv s"
  shows "dialog_inv (s\<lparr>msg_nextDial := i\<rparr>)" and "dialog_inv (s\<lparr>signin_active := b\<rparr>)"
    and "dialog_inv (s\<lparr>msg_results := rs\<rparr>)"
  using assms by (simp_all add: dialog_inv_def waiting_def decisions_owed_def)

lemma msg_open_inv:
  assumes "dialog_inv s" and "sceMsgDialogOpen m a s = Val (r, s')"
  shows "dialog_inv s'"
proof (cases "a = 0")
  case True
  with assms show ?thesis by (simp add: sceMsgDialogOpen_def)
next
  case False
  with assms(2) obtain req where "s' = snd (submit req (s\<lparr>msg_nextDial := msg_nextDial s + 1\<rparr>))"
    by (auto simp: sceMsgDialogOpen_def cpp_bind_eq_Val_iff Let_def case_prod_unfold)
  with submit_inv [OF frame_invs(1) [OF assms(1)]] show ?thesis by simp
qed

lemma dialog_step_inv:
  assumes "dialog_step m c s = Val s'" and "dialog_inv s"
  shows "dialog_inv s'"
proof (cases c)
  case (DMsg a)
  with assms msg_open_inv show ?thesis by (fastforce simp: cpp_bind_eq_Val_iff)
next
  case (DSignin acc)
  with assms submit_inv [OF frame_invs(2) [OF assms(2)]] show ?thesis
    by (auto simp: sceSigninDialogOpen_def split: option.splits)
next
  case (DClose i)
  with assms frame_invs(3) show ?thesis by (auto simp: sceMsgDialogClose_def)
next
  case DSigninClose
  with assms frame_invs(2) show ?thesis by (auto simp: sceSigninDialogClose_def)
qed (use assms submit_inv cancel_inv tick_inv key_inv text_inv shutdown_inv(1) run_flying_inv in
    \<open>auto simp: sceErrorDialogOpen_def sceImeDialogInit_def sceSaveDataDialogOpen_def
      cpp_bind_eq_Val_iff split: if_splits\<close>)

lemma dialog_run_inv:
  "dialog_run cs s = Val s' \<Longrightarrow> dialog_inv s \<Longrightarrow> dialog_inv s'"
  by (induction cs s rule: dialog_run.induct) (auto simp: cpp_bind_eq_Val_iff dest: dialog_step_inv)

lemma dialog_start_inv: "dialog_inv dialog_start"
  by (simp add: dialog_inv_def dialog_start_def waiting_def decisions_owed_def)

text \<open>
  C25. Accepted dialogs are answered once and in order. Whatever the guest opens, aborts and closes, whatever
  the user types, however often the manager is pumped, and however the threads are scheduled between taking a
  request and calling its completion function: the requests that \<^verbatim>\<open>submit\<close> accepted are
  those whose result is decided so far followed by the one shown and those queued, in the order of their
  submission; every decided request has had its completion function called exactly once with that result, or a
  thread has yet to call it; after a shutdown every accepted request is decided. The completion functions of two
  threads may run in either order, and a request that a full queue refused is not accepted.
\<close>

theorem dialogs_answered_in_order:
  assumes "dialog_run cs dialog_start = Val s"
  shows "map fst (ds_decided s) @ waiting s = ds_accepted s \<and> length (m_pending s) \<le> 32
    \<and> mset (ds_decided s) = mset (ds_ran s) + mset (concat (ds_flying s))
    \<and> map fst (ds_decided (DialogManager_shutdown s)) = ds_accepted s"
proof -
  have inv: "dialog_inv s" by (rule dialog_run_inv [OF assms dialog_start_inv])
  have "ds_accepted (DialogManager_shutdown s) = ds_accepted s"
    by (simp add: DialogManager_shutdown_def Let_def unlock_with_def decide_def split: option.splits)
  with shutdown_inv [OF inv] inv show ?thesis by (simp add: dialog_inv_def decisions_owed_def)
qed

definition dialog_memory :: memory where
  "dialog_memory a = (if a < 0x1000 \<or> 0x1100 \<le> a then None else if a = 0x1018 then Some 72 else Some 0)"

theorem dialogs_answered_in_order_witness:
  "\<exists>s. dialog_run [(dialog_memory, DMsg 0x1000), (dialog_memory, DError 5), (dialog_memory, DTick 0 0),
        (dialog_memory, DKey 40 True), (dialog_memory, DTick 5 5), (dialog_memory, DAbort), (dialog_memory, DRun 1)]
        dialog_start = Val s
     \<and> ds_decided s = [(CMsg 1, DrOk), (CNone, DrCancel)] \<and> ds_ran s = [(CNone, DrCancel)]
     \<and> ds_accepted s = [CMsg 1, CNone]
     \<and> map fst (ds_decided s) @ waiting s = ds_accepted s
     \<and> mset (ds_decided s) = mset (ds_ran s) + mset (concat (ds_flying s))"
proof -
  let ?cs = "[(dialog_memory, DMsg 0x1000), (dialog_memory, DError 5), (dialog_memory, DTick 0 0),
        (dialog_memory, DKey 40 True), (dialog_memory, DTick 5 5), (dialog_memory, DAbort), (dialog_memory, DRun 1)]"
  have "case dialog_run ?cs dialog_start of UB \<Rightarrow> False
     | Val s \<Rightarrow> ds_decided s = [(CMsg 1, DrOk), (CNone, DrCancel)] \<and> ds_ran s = [(CNone, DrCancel)]
         \<and> ds_accepted s = [CMsg 1, CNone]" by code_simp
  then obtain s where s: "dialog_run ?cs dialog_start = Val s" "ds_decided s = [(CMsg 1, DrOk), (CNone, DrCancel)]"
    "ds_ran s = [(CNone, DrCancel)]" "ds_accepted s = [CMsg 1, CNone]" by (auto split: cpp.splits)
  from dialogs_answered_in_order [OF s(1)] s show ?thesis by blast
qed

text \<open>
  Only the message library looks at the answer of \<^verbatim>\<open>submit\<close>: an error dialog that meets a full queue is gone, and
  its caller is told that it is open; nor is an entry dialog's completion ever called.
\<close>

lemma full_queue_drops_error_dialog:
  "32 \<le> length (m_pending s) \<Longrightarrow> sceErrorDialogOpen code s = (1, s)"
  by (simp add: sceErrorDialogOpen_def submit_def)

lemma full_queue_drops_ime_dialog:
  assumes "32 \<le> length (m_pending s)" and "sceImeDialogInit m param s = Val (rc, s')" and "param \<noteq> 0"
  shows "rc = 0 \<and> s' = s"
  using assms by (auto simp: sceImeDialogInit_def submit_def cpp_bind_eq_Val_iff)

text \<open>Typed text never exceeds the limit of the dialog.\<close>

lemma ime_type_bounded:
  "0 < maxLen \<Longrightarrow> length buf \<le> unat maxLen \<Longrightarrow> length (ime_type maxLen cs buf) \<le> unat maxLen"
proof (induction cs arbitrary: buf)
  case (Cons c cs)
  let ?b = "if c = CHR 0x08 then (if buf \<noteq> [] then butlast buf else buf)
         else if 0x20 \<le> (of_char c :: nat) \<and> (of_char c :: nat) < 0x80 then buf @ [c] else buf"
  show ?case
  proof (cases "unat maxLen \<le> length buf")
    case False
    then have "length ?b \<le> unat maxLen" by auto
    from Cons.IH [OF Cons.prems(1) this] False show ?thesis by simp
  qed (use Cons.prems in simp)
qed simp

text \<open>A full text cannot be corrected: the loop stops before it sees the backspace.\<close>

theorem ime_full_ignores_backspace:
  assumes "0 < maxLen" and "length buf = unat maxLen"
  shows "ime_type maxLen (CHR 0x08 # cs) buf = buf"
  using assms by simp

text \<open>The text that was entered is lost once the dialog closes.\<close>

theorem ime_text_lost:
  "ime_resultText (complete c s) = ime_resultText s"
  by (cases "fst c") (simp_all add: complete_def)
end
