(* ===== verification/Sce_Ult.thy ===== *)
theory Sce_Ult
  imports Address_Space Guest_Words
begin

text \<open>
  libSceUlt (\<^verbatim>\<open>sce/ult/SceUlt.cpp\<close>): memory pools whose free blocks form a linked list in guest
  memory, waiting queues and spin locks. The compare-and-swap loops of the pools are modelled with
  the interference of other threads: an argument lists what they do to memory between the read
  of the head and the swap of each round.
\<close>

section \<open>The library\<close>

definition kUltErrorInvalidArg :: u32 where "kUltErrorInvalidArg = 0x80020005"
definition kUltErrorBusy :: u32 where "kUltErrorBusy = 0x8002000B"
definition kUltPoolObjSize :: u64 where "kUltPoolObjSize = 64"
definition kUltWaitingQueueSize :: u64 where "kUltWaitingQueueSize = 16"

record PoolRegistry =
  pr_poolAddr :: u64
  pr_backingAddr :: u64
  pr_blockSize :: u32
  pr_blockCount :: u32
  pr_used :: u32

record ult_state =
  g_pools :: "PoolRegistry list"
  ult_space :: "AddressSpace option"
  ult_mem :: memory

definition findPool :: "u64 \<Rightarrow> ult_state \<Rightarrow> PoolRegistry option" where
  "findPool addr s = List.find (\<lambda>p. pr_poolAddr p = addr) (g_pools s)"

definition validateGuestWrite :: "u64 \<Rightarrow> u64 \<Rightarrow> ult_state \<Rightarrow> bool" where
  "validateGuestWrite addr sz s =
     (case ult_space s of
        None \<Rightarrow> False
      | Some as \<Rightarrow>
          (case AddressSpace_find as addr of
             None \<Rightarrow> False
           | Some reg \<Rightarrow> hasProt (r_prot reg) ProtWrite \<and> \<not> (addr + sz > r_base reg + r_size reg)))"

definition sceUltPoolCreate :: "u64 \<Rightarrow> u32 \<Rightarrow> u32 \<Rightarrow> u64 \<Rightarrow> ult_state \<Rightarrow> (u32 \<times> ult_state) cpp" where
  "sceUltPoolCreate poolObj blockSize blockCount backing s =
     (if poolObj = 0 \<or> backing = 0 \<or> blockSize = 0 \<or> blockCount = 0 then Val (kUltErrorInvalidArg, s)
      else if \<not> validateGuestWrite poolObj kUltPoolObjSize s then Val (kUltErrorInvalidArg, s)
      else if findPool poolObj s \<noteq> None then Val (kUltErrorBusy, s)
      else let s = s\<lparr>g_pools := g_pools s @ [\<lparr>pr_poolAddr = poolObj, pr_backingAddr = backing,
                 pr_blockSize = blockSize, pr_blockCount = blockCount, pr_used = 0\<rparr>]\<rparr>
           in cpp_bind (store_bytes poolObj (replicate 64 0) (ult_mem s)) (\<lambda>m.
              cpp_bind (store_u64 poolObj backing m) (\<lambda>m.
              cpp_bind (store_u64 (poolObj + 8) (ucast blockSize) m) (\<lambda>m.
              cpp_bind (store_u64 (poolObj + 16) (ucast blockCount) m) (\<lambda>m.
              cpp_bind (store_u64 (poolObj + 24) 0 m) (\<lambda>m.
                Val (0, s\<lparr>ult_mem := m\<rparr>)))))))"

definition sceUltPoolDestroy :: "u64 \<Rightarrow> ult_state \<Rightarrow> u32 \<times> ult_state" where
  "sceUltPoolDestroy poolObj s =
     (if poolObj = 0 then (kUltErrorInvalidArg, s)
      else if findPool poolObj s = None then (kUltErrorInvalidArg, s)
      else (0, s\<lparr>g_pools := takeWhile (\<lambda>p. pr_poolAddr p \<noteq> poolObj) (g_pools s)
                   @ tl (dropWhile (\<lambda>p. pr_poolAddr p \<noteq> poolObj) (g_pools s))\<rparr>))"

text \<open>
  One round per entry of \<open>envs\<close>, and a last one in which nobody interferes, so that the swap finds
  the head it read.
\<close>

fun alloc_loop :: "(memory \<Rightarrow> memory) list \<Rightarrow> u64 \<Rightarrow> u64 \<Rightarrow> memory \<Rightarrow> (u64 \<times> memory) cpp" where
  "alloc_loop envs p current m =
     (if current = 0 then Val (0, m)
      else cpp_bind (load_u64 m current) (\<lambda>next.
        let swap = (\<lambda>m. cpp_bind (store_u64 p next m) (\<lambda>m.
              cpp_bind (store_u64 current 0 m) (\<lambda>m. Val (current, m))))
        in case envs of
             [] \<Rightarrow> swap m
           | e # es \<Rightarrow>
               cpp_bind (load_u64 (e m) p) (\<lambda>h.
                 if h = current then swap (e m) else alloc_loop es p h (e m))))"

declare alloc_loop.simps [simp del]


definition sceUltPoolAlloc :: "(memory \<Rightarrow> memory) list \<Rightarrow> u64 \<Rightarrow> ult_state \<Rightarrow> (u64 \<times> ult_state) cpp" where
  "sceUltPoolAlloc envs poolObj s =
     (if poolObj = 0 then Val (0, s)
      else case findPool poolObj s of
             None \<Rightarrow> Val (0, s)
           | Some r \<Rightarrow>
               cpp_bind (load_u64 (ult_mem s) poolObj) (\<lambda>current.
               cpp_bind (alloc_loop envs poolObj current (ult_mem s)) (\<lambda>(b, m).
                 Val (b, s\<lparr>ult_mem := m\<rparr>))))"

fun free_loop :: "(memory \<Rightarrow> memory) list \<Rightarrow> u64 \<Rightarrow> u64 \<Rightarrow> u64 \<Rightarrow> memory \<Rightarrow> memory cpp" where
  "free_loop envs p b current m =
     cpp_bind (store_u64 b current m) (\<lambda>m.
       case envs of
         [] \<Rightarrow> store_u64 p b m
       | e # es \<Rightarrow>
           cpp_bind (load_u64 (e m) p) (\<lambda>h.
             if h = current then store_u64 p b (e m) else free_loop es p b h (e m)))"

declare free_loop.simps [simp del]

definition sceUltPoolFree :: "(memory \<Rightarrow> memory) list \<Rightarrow> u64 \<Rightarrow> u64 \<Rightarrow> ult_state \<Rightarrow> ult_state cpp" where
  "sceUltPoolFree envs poolObj block s =
     (if poolObj = 0 \<or> block = 0 then Val s
      else case findPool poolObj s of
             None \<Rightarrow> Val s
           | Some r \<Rightarrow>
               cpp_bind (load_u64 (ult_mem s) poolObj) (\<lambda>current.
               cpp_bind (free_loop envs poolObj block current (ult_mem s)) (\<lambda>m.
                 Val (s\<lparr>ult_mem := m\<rparr>))))"

definition sceUltWaitingQueueInit :: "u64 \<Rightarrow> ult_state \<Rightarrow> (u32 \<times> ult_state) cpp" where
  "sceUltWaitingQueueInit queue s =
     (if queue = 0 \<or> \<not> validateGuestWrite queue kUltWaitingQueueSize s then Val (kUltErrorInvalidArg, s)
      else cpp_bind (store_bytes queue (replicate 16 0) (ult_mem s)) (\<lambda>m. Val (0, s\<lparr>ult_mem := m\<rparr>)))"

definition sceUltWaitingQueueDestroy :: "u64 \<Rightarrow> ult_state \<Rightarrow> (u32 \<times> ult_state) cpp" where
  "sceUltWaitingQueueDestroy queue s =
     (if queue = 0 then Val (kUltErrorInvalidArg, s)
      else cpp_bind (store_u32 queue 1 (ult_mem s)) (\<lambda>m. Val (0, s\<lparr>ult_mem := m\<rparr>)))"

definition sceUltSpinlockInit :: "u64 \<Rightarrow> ult_state \<Rightarrow> (u32 \<times> ult_state) cpp" where
  "sceUltSpinlockInit lock s =
     (if lock = 0 \<or> \<not> validateGuestWrite lock 4 s then Val (kUltErrorInvalidArg, s)
      else cpp_bind (store_u32 lock 0 (ult_mem s)) (\<lambda>m. Val (0, s\<lparr>ult_mem := m\<rparr>)))"

section \<open>Pools as stacks\<close>

text \<open>The blocks reached from an address through their first words.\<close>

fun chain :: "memory \<Rightarrow> u64 \<Rightarrow> u64 list \<Rightarrow> bool" where
  "chain m a [] \<longleftrightarrow> a = 0"
| "chain m a (b # bs) \<longleftrightarrow>
     a = b \<and> b \<noteq> 0 \<and> (case load_u64 m b of UB \<Rightarrow> False | Val n \<Rightarrow> chain m n bs)"

definition apart :: "u64 \<Rightarrow> u64 \<Rightarrow> bool" where
  "apart a b \<longleftrightarrow> unat a + 8 \<le> unat b \<or> unat b + 8 \<le> unat a"

text \<open>
  A pool object and its blocks, free and held by the client: their first words are mapped and
  do not overlap, and the free ones are linked from the pool object.
\<close>

definition pool_inv :: "u64 \<Rightarrow> u64 list \<Rightarrow> u64 list \<Rightarrow> memory \<Rightarrow> bool" where
  "pool_inv p free held m \<longleftrightarrow>
     sorted_wrt apart (p # free @ held)
     \<and> list_all (\<lambda>a. a \<noteq> 0 \<and> unat a + 8 \<le> 2 ^ 64 \<and> load_u64 m a \<noteq> UB) (p # free @ held)
     \<and> (case load_u64 m p of UB \<Rightarrow> False | Val h \<Rightarrow> chain m h free)"

lemma apart_sym: "apart a b \<longleftrightarrow> apart b a"
  by (auto simp: apart_def)

lemma load_u64_Val_store:
  assumes "load_u64 m a \<noteq> UB"
  obtains m' where "store_u64 a w m = Val m'"
proof -
  from assms obtain bs where "load_bytes m a 8 = Val bs"
    by (cases "load_bytes m a 8") (simp_all add: load_u64_def)
  then have "\<forall>i < length (le_bytes 8 w). m (a + of_nat i) \<noteq> None" by (auto simp: load_bytes_eq_Val)
  with store_bytes_total that show ?thesis unfolding store_u64_def by blast
qed

lemma store_keeps:
  assumes "store_u64 a w m = Val m'" and "apart a b" and "unat a + 8 \<le> 2 ^ 64" and "unat b + 8 \<le> 2 ^ 64"
  shows "load_u64 m' b = load_u64 m b"
  using load_u64_store_disjoint [OF assms(1)] assms by (auto simp: apart_def)

lemma chain_cong: "(\<And>b. b \<in> set bs \<Longrightarrow> load_u64 m' b = load_u64 m b) \<Longrightarrow> chain m' a bs = chain m a bs"
  by (induction bs arbitrary: a) (auto split: cpp.splits)

text \<open>Two stores to words of the pool leave every other word of it alone.\<close>

lemma two_stores:
  assumes "store_u64 a v m = Val m1" and "store_u64 b w m1 = Val m2"
    and "apart a c" and "apart b c" and "list_all (\<lambda>a. unat a + 8 \<le> 2 ^ 64) [a, b, c]"
  shows "load_u64 m2 c = load_u64 m c"
  using store_keeps [OF assms(1,3)] store_keeps [OF assms(2,4)] assms(5) by simp

lemma pool_alloc:
  assumes "pool_inv p (b # bs) held m" and "load_u64 m p = Val h"
  obtains m' where "alloc_loop [] p h m = Val (b, m')" and "pool_inv p bs (b # held) m'"
proof -
  note inv = assms(1) [unfolded pool_inv_def]
  have sw: "sorted_wrt apart (p # b # bs @ held)" using inv by simp
  have ok: "list_all (\<lambda>a. a \<noteq> 0 \<and> unat a + 8 \<le> 2 ^ 64 \<and> load_u64 m a \<noteq> UB) (p # b # bs @ held)"
    using inv by simp
  from inv assms(2) obtain n where n: "h = b" "b \<noteq> 0" "load_u64 m b = Val n" "chain m n bs"
    by (auto split: cpp.splits)
  obtain m1 where m1: "store_u64 p n m = Val m1" by (rule load_u64_Val_store [of m p n]) (simp add: assms(2))
  have pb: "apart p b" using sw by simp
  have b1: "load_u64 m1 b = Val n" using store_keeps [OF m1 pb] ok n by simp
  obtain m2 where m2: "store_u64 b 0 m1 = Val m2" by (rule load_u64_Val_store [of m1 b 0]) (simp add: b1)
  have keep: "load_u64 m2 c = load_u64 m c" if "c \<in> set (bs @ held)" for c
    by (rule two_stores [OF m1 m2]) (use sw ok that in \<open>auto simp: list_all_iff\<close>)
  have p2: "load_u64 m2 p = Val n"
    using store_keeps [OF m2, of p] load_u64_store_same [OF m1] pb ok by (simp add: apart_sym)
  have "chain m2 n bs" using n(4) chain_cong [of bs m2 m n] keep by simp
  moreover have "load_u64 m2 b = Val 0" by (rule load_u64_store_same [OF m2])
  ultimately have "pool_inv p bs (b # held) m2"
    using sw ok keep p2 unfolding pool_inv_def
    by (auto simp: sorted_wrt_append list_all_iff apart_sym)
  moreover have "alloc_loop [] p h m = Val (b, m2)"
    using n m1 m2 by (simp add: alloc_loop.simps)
  ultimately show ?thesis using that by blast
qed

lemma pool_free:
  assumes "pool_inv p bs (h1 @ b # h2) m" and "load_u64 m p = Val h"
  obtains m' where "free_loop [] p b h m = Val m'" and "pool_inv p (b # bs) (h1 @ h2) m'"
proof -
  note inv = assms(1) [unfolded pool_inv_def]
  have sw: "sorted_wrt apart (p # bs @ h1 @ b # h2)" using inv by simp
  have ok: "list_all (\<lambda>a. a \<noteq> 0 \<and> unat a + 8 \<le> 2 ^ 64 \<and> load_u64 m a \<noteq> UB) (p # bs @ h1 @ b # h2)"
    using inv by simp
  have ch: "chain m h bs" using inv assms(2) by simp
  obtain m1 where m1: "store_u64 b h m = Val m1"
    by (rule load_u64_Val_store [of m b h]) (use ok in \<open>auto simp: list_all_iff\<close>)
  have pb: "apart b p" using sw by (simp add: apart_sym)
  have p1: "load_u64 m1 p = Val h" using store_keeps [OF m1 pb] ok assms(2) by (simp add: list_all_iff)
  obtain m2 where m2: "store_u64 p b m1 = Val m2" by (rule load_u64_Val_store [of m1 p b]) (simp add: p1)
  have keep: "load_u64 m2 c = load_u64 m c" if "c \<in> set (bs @ h1 @ h2)" for c
    by (rule two_stores [OF m1 m2]) (use sw ok that in \<open>auto simp: list_all_iff sorted_wrt_append apart_sym\<close>)
  have b2: "load_u64 m2 b = Val h"
    using store_keeps [OF m2, of b] load_u64_store_same [OF m1] pb ok by (simp add: apart_sym list_all_iff)
  have "chain m2 h bs" using ch chain_cong [of bs m2 m h] keep by simp
  then have "pool_inv p (b # bs) (h1 @ h2) m2"
    using sw ok keep b2 load_u64_store_same [OF m2] unfolding pool_inv_def
    by (auto simp: sorted_wrt_append list_all_iff apart_sym)
  moreover have "free_loop [] p b h m = Val m2" using m1 m2 by (simp add: free_loop.simps)
  ultimately show ?thesis using that by blast
qed

text \<open>The abstract pool: a stack of free blocks. A client may free what it holds.\<close>

datatype pool_op = PoolAlloc | PoolFree u64

fun stack_step :: "pool_op \<Rightarrow> u64 list \<times> u64 list \<Rightarrow> (u64 \<times> u64 list \<times> u64 list) option" where
  "stack_step PoolAlloc ([], held) = Some (0, [], held)"
| "stack_step PoolAlloc (b # bs, held) = Some (b, bs, b # held)"
| "stack_step (PoolFree b) (free, held) =
     (if b \<in> set held then Some (0, b # free, remove1 b held) else None)"

fun stack_run :: "pool_op list \<Rightarrow> u64 list \<times> u64 list \<Rightarrow> (u64 list \<times> u64 list \<times> u64 list) option" where
  "stack_run [] (free, held) = Some ([], free, held)"
| "stack_run (c # cs) (free, held) =
     (case stack_step c (free, held) of
        None \<Rightarrow> None
      | Some (r, st) \<Rightarrow> map_option (\<lambda>(rs, st). (r # rs, st)) (stack_run cs st))"

fun ult_step :: "u64 \<Rightarrow> pool_op \<Rightarrow> ult_state \<Rightarrow> (u64 \<times> ult_state) cpp" where
  "ult_step p PoolAlloc s = sceUltPoolAlloc [] p s"
| "ult_step p (PoolFree b) s = cpp_bind (sceUltPoolFree [] p b s) (\<lambda>s. Val (0, s))"

fun ult_run :: "u64 \<Rightarrow> pool_op list \<Rightarrow> ult_state \<Rightarrow> (u64 list \<times> ult_state) cpp" where
  "ult_run p [] s = Val ([], s)"
| "ult_run p (c # cs) s =
     cpp_bind (ult_step p c s) (\<lambda>(r, s). cpp_bind (ult_run p cs s) (\<lambda>(rs, s). Val (r # rs, s)))"

lemma pool_step:
  assumes "pool_inv p free held (ult_mem s)" and "findPool p s \<noteq> None"
    and "stack_step c (free, held) = Some (r, free', held')"
  shows "\<exists>s'. ult_step p c s = Val (r, s') \<and> pool_inv p free' held' (ult_mem s') \<and> g_pools s' = g_pools s"
proof -
  from assms(2) obtain pr where pr: "findPool p s = Some pr" by blast
  from assms(1) have p: "p \<noteq> 0" by (simp add: pool_inv_def)
  from assms(1) obtain h where h: "load_u64 (ult_mem s) p = Val h"
    by (cases "load_u64 (ult_mem s) p") (auto simp: pool_inv_def)
  show ?thesis
  proof (cases c)
    case PoolAlloc
    show ?thesis
    proof (cases free)
      case Nil
      with assms(1) h have "h = 0" by (simp add: pool_inv_def)
      with PoolAlloc Nil assms(1,3) p pr h show ?thesis
        by (auto simp: sceUltPoolAlloc_def alloc_loop.simps)
    next
      case (Cons b bs)
      with assms(1) obtain m' where "alloc_loop [] p h (ult_mem s) = Val (b, m')" "pool_inv p bs (b # held) m'"
        using pool_alloc [of p b bs held "ult_mem s" h] h by auto
      with PoolAlloc Cons assms(3) p pr h show ?thesis by (auto simp: sceUltPoolAlloc_def)
    qed
  next
    case (PoolFree b)
    with assms(3) have b: "b \<in> set held" and r: "r = 0" "free' = b # free" "held' = remove1 b held"
      by (auto split: if_splits)
    from split_list_first [OF b] obtain h1 h2 where held: "held = h1 @ b # h2" "b \<notin> set h1" by blast
    then have held': "held' = h1 @ h2" by (simp add: r(3) remove1_append)
    obtain m' where m': "free_loop [] p b h (ult_mem s) = Val m'" "pool_inv p (b # free) (h1 @ h2) m'"
      using pool_free [of p free h1 b h2 "ult_mem s" h] assms(1) h held(1) by auto
    have "b \<noteq> 0" using assms(1) b by (auto simp: pool_inv_def list_all_iff)
    with PoolFree m' r held' p pr h show ?thesis by (auto simp: sceUltPoolFree_def)
  qed
qed

lemma ult_pool_run:
  assumes "pool_inv p free held (ult_mem s)" and "findPool p s \<noteq> None"
    and "stack_run cs (free, held) = Some (rs, free', held')"
  shows "\<exists>s'. ult_run p cs s = Val (rs, s') \<and> pool_inv p free' held' (ult_mem s')"
  using assms
proof (induction cs arbitrary: free held s rs)
  case (Cons c cs)
  from Cons.prems(3) obtain r f1 h1 rs1 where st: "stack_step c (free, held) = Some (r, f1, h1)"
    and run: "stack_run cs (f1, h1) = Some (rs1, free', held')" and rs: "rs = r # rs1"
    by (auto split: option.splits)
  from pool_step [OF Cons.prems(1,2) st] obtain s1 where s1: "ult_step p c s = Val (r, s1)"
    "pool_inv p f1 h1 (ult_mem s1)" "g_pools s1 = g_pools s" by blast
  then have "findPool p s1 \<noteq> None" using Cons.prems(2) by (simp add: findPool_def)
  from Cons.IH [OF s1(2) this run] s1(1) rs show ?case by auto
qed auto

text \<open>
  C26. Memory pools. As long as no other thread interferes, allocating from and freeing to a known pool
  whose free blocks are linked and whose blocks do not overlap (\<open>pool_inv\<close>) is a stack of blocks: a sequence of
  calls that frees only blocks it holds is defined, returns the blocks the stack returns (zero when it is empty), and
  leaves the pool linked. \<^verbatim>\<open>sceUltPoolCreate\<close> links only the first block (\<open>ult_pool_serves_one_block\<close>); the
  client has to link or free the others into the pool. Nothing is said of a client that frees a block twice.
\<close>

theorem ult_pool_refines_stack:
  assumes "pool_inv p free held (ult_mem s)" and "findPool p s \<noteq> None"
    and "stack_run cs (free, held) = Some (rs, free', held')"
  shows "\<exists>s'. ult_run p cs s = Val (rs, s') \<and> pool_inv p free' held' (ult_mem s')"
  by (rule ult_pool_run [OF assms])

definition ult_demo :: ult_state where
  "ult_demo = \<lparr>g_pools = [\<lparr>pr_poolAddr = 0x1000, pr_backingAddr = 0x1010, pr_blockSize = 16,
       pr_blockCount = 2, pr_used = 0\<rparr>], ult_space = None,
     ult_mem = (\<lambda>a. if a < 0x1000 \<or> 0x1030 \<le> a then None
        else Some (if a = 0x1000 \<or> a = 0x1001 \<or> a = 0x1011 then 0x10 else if a = 0x1010 then 0x20 else 0))\<rparr>"

lemma ult_demo_inv: "pool_inv 0x1000 [0x1010, 0x1020] [] (ult_mem ult_demo)"
proof -
  have "load_u64 (ult_mem ult_demo) 0x1000 = Val 0x1010" "load_u64 (ult_mem ult_demo) 0x1010 = Val 0x1020"
    "load_u64 (ult_mem ult_demo) 0x1020 = Val 0" by code_simp+
  then show ?thesis by (simp add: pool_inv_def apart_def)
qed

theorem ult_pool_refines_stack_witness:
  "\<exists>s'. ult_run 0x1000 [PoolAlloc, PoolAlloc, PoolAlloc, PoolFree 0x1010, PoolAlloc] ult_demo
      = Val ([0x1010, 0x1020, 0, 0, 0x1010], s')
     \<and> pool_inv 0x1000 [] [0x1010, 0x1020] (ult_mem s')"
proof -
  have "findPool 0x1000 ult_demo \<noteq> None" by (simp add: findPool_def ult_demo_def)
  moreover have "stack_run [PoolAlloc, PoolAlloc, PoolAlloc, PoolFree 0x1010, PoolAlloc] ([0x1010, 0x1020], [])
      = Some ([0x1010, 0x1020, 0, 0, 0x1010], [], [0x1010, 0x1020])" by code_simp
  ultimately show ?thesis by (rule ult_pool_refines_stack [OF ult_demo_inv])
qed

text \<open>
  With interference the swap can succeed on a list that has changed: a second thread takes both
  blocks and gives the first back between the read and the swap. The first thread then gets that
  block and leaves the pool pointing at the block the second thread still holds, which the next
  call hands out again.
\<close>

definition other_thread :: "memory \<Rightarrow> memory" where
  "other_thread m =
     (case ult_run 0x1000 [PoolAlloc, PoolAlloc, PoolFree 0x1010] (ult_demo\<lparr>ult_mem := m\<rparr>) of
        UB \<Rightarrow> m | Val (rs, s) \<Rightarrow> ult_mem s)"

theorem ult_pool_aba:
  "case sceUltPoolAlloc [other_thread] 0x1000 ult_demo of
     UB \<Rightarrow> False
   | Val (b, s) \<Rightarrow> b = 0x1010 \<and>
       (case sceUltPoolAlloc [] 0x1000 s of UB \<Rightarrow> False | Val (c, s) \<Rightarrow> c = 0x1020)"
  by code_simp

text \<open>
  A new pool is not linked: \<^verbatim>\<open>sceUltPoolCreate\<close> stores the address of the first block and writes
  nothing into the backing memory. Where that memory is zero the pool serves one block, whatever
  its count.
\<close>

theorem ult_pool_serves_one_block:
  assumes c: "sceUltPoolCreate p bsz cnt backing s = Val (0, s')"
    and b: "unat p + 64 \<le> 2 ^ 64" "unat backing + 8 \<le> 2 ^ 64"
      "unat p + 64 \<le> unat backing \<or> unat backing + 8 \<le> unat p"
    and z: "load_u64 (ult_mem s) backing = Val 0"
  shows "\<exists>s''. ult_run p [PoolAlloc, PoolAlloc] s' = Val ([backing, 0], s'')"
proof -
  from c obtain m0 m1 m2 m3 where st: "p \<noteq> 0" "backing \<noteq> 0"
      "store_bytes p (replicate 64 0) (ult_mem s) = Val m0" "store_u64 p backing m0 = Val m1"
      "store_u64 (p + 8) (ucast bsz) m1 = Val m2" "store_u64 (p + 16) (ucast cnt) m2 = Val m3"
      "store_u64 (p + 24) 0 m3 = Val (ult_mem s')"
    and pool: "findPool p s' \<noteq> None"
    by (auto simp: sceUltPoolCreate_def Let_def cpp_bind_eq_Val_iff kUltErrorInvalidArg_def
        kUltErrorBusy_def findPool_def find_append split: if_splits option.splits)
  have u: "unat (p + 8) = unat p + 8" "unat (p + 16) = unat p + 16" "unat (p + 24) = unat p + 24"
    using b(1) unat_add_of_nat [of p 8] unat_add_of_nat [of p 16] unat_add_of_nat [of p 24] by simp_all
  have k: "load_u64 (ult_mem s') a = load_u64 m1 a" if "apart (p + 8) a" "apart (p + 16) a" "apart (p + 24) a"
    "unat a + 8 \<le> 2 ^ 64" for a
    using store_keeps [OF st(5) that(1) _ that(4)] store_keeps [OF st(6) that(2) _ that(4)]
      store_keeps [OF st(7) that(3) _ that(4)] b(1) u by simp
  have hd: "load_u64 (ult_mem s') p = Val backing"
    using k [of p] u b(1) load_u64_store_same [OF st(4)] by (simp add: apart_def)
  have ap: "apart p backing" using b(3) by (auto simp: apart_def)
  have "load_u64 (ult_mem s') backing = load_u64 m1 backing"
    using b u by (intro k) (auto simp: apart_def)
  also have "\<dots> = load_u64 m0 backing" using store_keeps [OF st(4) ap] b(1,2) by simp
  also have "\<dots> = load_u64 (ult_mem s) backing"
    using load_u64_frame [OF st(3), of backing] b by auto
  finally have "load_u64 (ult_mem s') backing = Val 0" using z by simp
  with hd ap st(1,2) b(1,2) have "pool_inv p [backing] [] (ult_mem s')" by (simp add: pool_inv_def)
  then show ?thesis
    using ult_pool_run [of p "[backing]" "[]" s' "[PoolAlloc, PoolAlloc]" "[backing, 0]" "[]" "[backing]"] pool
    by auto
qed

end
