(* ===== verification/Fibers.thy ===== *)
theory Fibers
  imports Guest_Words
begin

text \<open>
  Fibers (\<^verbatim>\<open>runtime/fiber/Fiber.cpp\<close>, \<^verbatim>\<open>sce/fiber/SceFiber.cpp\<close>). A context is where \<^verbatim>\<open>swapcontext\<close>
  continues: at the start of the function given to \<^verbatim>\<open>makecontext\<close>, or after the swap that saved it,
  where an export stores its argument through its out pointer.
  One host thread is modelled, with the place it executes at.
\<close>

section \<open>Fibers\<close>

datatype ucontext = CtxUnset | CtxFresh | CtxSaved u64 u64 | CtxReturns

record Fiber =
  fb_name :: string
  fb_entry :: u64
  fb_arg :: u64
  fb_stackBase :: u64
  fb_stackSize :: u64
  fb_ctx :: ucontext
  fb_initialized :: bool
  fb_finished :: bool

definition Fiber_new :: Fiber where
  "Fiber_new = \<lparr>fb_name = [], fb_entry = 0, fb_arg = 0, fb_stackBase = 0, fb_stackSize = 0,
     fb_ctx = CtxUnset, fb_initialized = False, fb_finished = False\<rparr>"

text \<open>\<open>got\<close> says whether \<^verbatim>\<open>getcontext\<close> succeeds.\<close>

definition Fiber_init :: "bool \<Rightarrow> string \<Rightarrow> u64 \<Rightarrow> u64 \<Rightarrow> u64 \<Rightarrow> u64 \<Rightarrow> Fiber \<Rightarrow> bool \<times> Fiber" where
  "Fiber_init got name entry entryArg stackBase stackSize f =
     (if fb_initialized f then (False, f)
      else if entry = 0 \<or> stackBase = 0 \<or> stackSize < 4096 then (False, f)
      else
        let f = f\<lparr>fb_name := name, fb_entry := entry, fb_arg := entryArg, fb_stackBase := stackBase,
                  fb_stackSize := stackSize\<rparr>
        in if \<not> got then (False, f)
           else (True, f\<lparr>fb_ctx := CtxFresh, fb_initialized := True, fb_finished := False\<rparr>))"

text \<open>
  Where the thread executes: in its own code, in a fiber, or nowhere, after the function of a
  context without a successor (\<^verbatim>\<open>uc_link\<close> null) has returned. Fibers are named by the guest's address.
\<close>

datatype place = AtThread | InFiber u64 | Ended

record fiber_state =
  g_fibers :: "(u64, Fiber) umap"
  g_pendingFiber :: "u64 option"
  ts_running :: "u64 option"
  ts_inFiber :: bool
  ts_threadCtx :: ucontext
  fs_place :: place
  fs_mem :: memory
  fs_entered :: "(u64 \<times> u64) list"

definition fiber_start :: "memory \<Rightarrow> fiber_state" where
  "fiber_start m = \<lparr>g_fibers = [], g_pendingFiber = None, ts_running = None, ts_inFiber = False,
     ts_threadCtx = CtxUnset, fs_place = AtThread, fs_mem = m, fs_entered = []\<rparr>"

definition fiber_lookup :: "u64 \<Rightarrow> fiber_state \<Rightarrow> Fiber option" where
  "fiber_lookup p s = um_find (g_fibers s) p"

text \<open>
  The start of a fresh context: \<^verbatim>\<open>fiberTrampoline\<close> takes the pending fiber and runs its entry, or
  returns when there is none.
\<close>

definition fiberTrampoline :: "fiber_state \<Rightarrow> fiber_state" where
  "fiberTrampoline s =
     (let s' = s\<lparr>g_pendingFiber := None\<rparr>
      in case g_pendingFiber s of
           None \<Rightarrow> s'\<lparr>fs_place := Ended\<rparr>
         | Some p \<Rightarrow>
             (case fiber_lookup p s of
                None \<Rightarrow> s'\<lparr>fs_place := Ended\<rparr>
              | Some f \<Rightarrow> s'\<lparr>fs_place := InFiber p, fs_entered := fs_entered s @ [(fb_entry f, fb_arg f)]\<rparr>))"

definition set_ctx :: "u64 \<Rightarrow> ucontext \<Rightarrow> fiber_state \<Rightarrow> fiber_state" where
  "set_ctx p c s =
     (case fiber_lookup p s of
        None \<Rightarrow> s
      | Some f \<Rightarrow> s\<lparr>g_fibers := um_assign p (f\<lparr>fb_ctx := c\<rparr>) (g_fibers s)\<rparr>)"

definition put_out :: "u64 \<Rightarrow> u64 \<Rightarrow> fiber_state \<Rightarrow> fiber_state cpp" where
  "put_out out arg s =
     (if out \<noteq> 0 then cpp_bind (store_u64 out arg (fs_mem s)) (\<lambda>m. Val (s\<lparr>fs_mem := m\<rparr>)) else Val s)"

text \<open>Continuing at a fiber's context, once the old context has been saved.\<close>

definition enter_fiber :: "u64 \<Rightarrow> fiber_state \<Rightarrow> fiber_state cpp" where
  "enter_fiber p s =
     (case fiber_lookup p s of
        None \<Rightarrow> UB
      | Some f \<Rightarrow>
          (case fb_ctx f of
             CtxUnset \<Rightarrow> UB
           | CtxFresh \<Rightarrow> Val (fiberTrampoline s)
           | CtxSaved out arg \<Rightarrow> put_out out arg (s\<lparr>fs_place := InFiber p\<rparr>)
           | CtxReturns \<Rightarrow> Val (s\<lparr>fs_place := Ended\<rparr>)))"

text \<open>Continuing in \<^verbatim>\<open>sceFiberRun\<close> after its swap.\<close>

definition resume_thread :: "fiber_state \<Rightarrow> fiber_state cpp" where
  "resume_thread s =
     (case ts_threadCtx s of
        CtxSaved out arg \<Rightarrow>
          put_out out arg (s\<lparr>fs_place := AtThread, ts_inFiber := False, ts_running := None\<rparr>)
      | _ \<Rightarrow> UB)"

text \<open>The end of \<^verbatim>\<open>Fiber::run\<close>: the guest's entry has returned.\<close>

definition Fiber_run_end :: "u64 \<Rightarrow> fiber_state \<Rightarrow> fiber_state cpp" where
  "Fiber_run_end p s =
     (case fiber_lookup p s of
        None \<Rightarrow> UB
      | Some f \<Rightarrow>
          let s = s\<lparr>g_fibers := um_assign p (f\<lparr>fb_finished := True\<rparr>) (g_fibers s)\<rparr>
          in if ts_inFiber s
             then resume_thread (set_ctx p CtxReturns (s\<lparr>ts_inFiber := False, ts_running := None\<rparr>))
             else Val (s\<lparr>fs_place := Ended\<rparr>))"

section \<open>libSceFiber\<close>

definition kFbErrInvalidArg :: u32 where "kFbErrInvalidArg = 0x80020005"
definition kFbErrNotFound :: u32 where "kFbErrNotFound = 0x80020004"
definition kFbErrBusy :: u32 where "kFbErrBusy = 0x8002000B"
definition kFbErrFault :: u32 where "kFbErrFault = 0x8002000D"

lemmas fiber_errors = kFbErrInvalidArg_def kFbErrNotFound_def kFbErrBusy_def kFbErrFault_def

definition sceFiberInitializeImpl ::
  "bool \<Rightarrow> u64 \<Rightarrow> string \<Rightarrow> u64 \<Rightarrow> u64 \<Rightarrow> u64 \<Rightarrow> u32 \<Rightarrow> fiber_state \<Rightarrow> u32 \<times> fiber_state" where
  "sceFiberInitializeImpl got fiber name entry arg addr sz s =
     (if fiber = 0 \<or> entry = 0 \<or> addr = 0 \<or> sz < 4096 then (kFbErrInvalidArg, s)
      else if fiber_lookup fiber s \<noteq> None then (kFbErrBusy, s)
      else case Fiber_init got name entry arg addr (ucast sz) Fiber_new of
             (False, f) \<Rightarrow> (kFbErrInvalidArg, s)
           | (True, f) \<Rightarrow> (0, s\<lparr>g_fibers := um_emplace fiber f (g_fibers s)\<rparr>))"

definition sceFiberFinalize :: "u64 \<Rightarrow> fiber_state \<Rightarrow> u32 \<times> fiber_state" where
  "sceFiberFinalize fiber s =
     (if fiber = 0 then (kFbErrInvalidArg, s)
      else if fiber_lookup fiber s = None then (kFbErrNotFound, s)
      else (0, s\<lparr>g_fibers := um_erase fiber (g_fibers s)\<rparr>))"

text \<open>
  The calls that switch. The result is the state in which execution continues, on whichever side;
  an error returns at once to the caller.
\<close>

definition sceFiberRun :: "u64 \<Rightarrow> u64 \<Rightarrow> u64 \<Rightarrow> fiber_state \<Rightarrow> (u32 \<times> fiber_state) cpp" where
  "sceFiberRun fiber arg out s =
     (case fiber_lookup fiber s of
        None \<Rightarrow> Val (kFbErrNotFound, s)
      | Some f \<Rightarrow>
          if ts_inFiber s then Val (kFbErrBusy, s)
          else cpp_bind (enter_fiber fiber (s\<lparr>ts_running := Some fiber, ts_inFiber := True, ts_threadCtx := CtxSaved out arg\<rparr>))
                 (\<lambda>s. Val (0, s)))"

definition sceFiberSwitch :: "u64 \<Rightarrow> u64 \<Rightarrow> u64 \<Rightarrow> fiber_state \<Rightarrow> (u32 \<times> fiber_state) cpp" where
  "sceFiberSwitch fiber arg out s =
     (case fiber_lookup fiber s of
        None \<Rightarrow> Val (kFbErrNotFound, s)
      | Some f \<Rightarrow>
          (case ts_running s of
             Some prev \<Rightarrow>
               if \<not> ts_inFiber s then sceFiberRun fiber arg out s
               else cpp_bind (enter_fiber fiber (set_ctx prev (CtxSaved out arg) (s\<lparr>ts_running := Some fiber\<rparr>))) (\<lambda>s. Val (0, s))
           | None \<Rightarrow> sceFiberRun fiber arg out s))"

definition sceFiberReturnToThread :: "u64 \<Rightarrow> u64 \<Rightarrow> fiber_state \<Rightarrow> (u32 \<times> fiber_state) cpp" where
  "sceFiberReturnToThread arg out s =
     (case ts_running s of
        Some cur \<Rightarrow>
          if \<not> ts_inFiber s then Val (kFbErrFault, s)
          else cpp_bind (resume_thread (set_ctx cur (CtxSaved out arg) (s\<lparr>ts_inFiber := False, ts_running := None\<rparr>)))
                 (\<lambda>s. Val (0, s))
      | None \<Rightarrow> Val (kFbErrFault, s))"

text \<open>The value stored is the address \<open>impl\<close> of the runtime's own object.\<close>

definition sceFiberGetSelf :: "(u64 \<Rightarrow> u64) \<Rightarrow> u64 \<Rightarrow> fiber_state \<Rightarrow> (u32 \<times> fiber_state) cpp" where
  "sceFiberGetSelf impl out s =
     (if out = 0 then Val (kFbErrInvalidArg, s)
      else let v = (if \<not> ts_inFiber s then 0 else case ts_running s of None \<Rightarrow> 0 | Some p \<Rightarrow> impl p)
           in cpp_bind (store_u64 out v (fs_mem s)) (\<lambda>m. Val (0, s\<lparr>fs_mem := m\<rparr>)))"

section \<open>Runs\<close>

datatype fiber_op =
    FInit bool u64 string u64 u64 u64 u32 | FFinalize u64 | FRun u64 u64 u64 | FSwitch u64 u64 u64 | FReturn u64 u64
  | FSelf "u64 \<Rightarrow> u64" u64 | FEntryReturns u64

fun fiber_step :: "fiber_op \<Rightarrow> fiber_state \<Rightarrow> fiber_state cpp" where
  "fiber_step (FInit g p n e a st sz) s = Val (snd (sceFiberInitializeImpl g p n e a st sz s))"
| "fiber_step (FFinalize p) s = Val (snd (sceFiberFinalize p s))"
| "fiber_step (FRun p a out) s = cpp_bind (sceFiberRun p a out s) (\<lambda>r. Val (snd r))"
| "fiber_step (FSwitch p a out) s = cpp_bind (sceFiberSwitch p a out s) (\<lambda>r. Val (snd r))"
| "fiber_step (FReturn a out) s = cpp_bind (sceFiberReturnToThread a out s) (\<lambda>r. Val (snd r))"
| "fiber_step (FSelf impl out) s = cpp_bind (sceFiberGetSelf impl out s) (\<lambda>r. Val (snd r))"
| "fiber_step (FEntryReturns p) s = (if fs_place s = InFiber p then Fiber_run_end p s else Val s)"

text \<open>A thread that has ended makes no further call.\<close>

fun fiber_run :: "fiber_op list \<Rightarrow> fiber_state \<Rightarrow> fiber_state cpp" where
  "fiber_run [] s = Val s"
| "fiber_run (c # cs) s = (if fs_place s = Ended then Val s else cpp_bind (fiber_step c s) (fiber_run cs))"

section \<open>Fibers never start\<close>

text \<open>
  No code stores a pending fiber, so the trampoline always returns. The reachable states of a
  thread: nothing has run and every context is fresh, or the thread has ended.
\<close>

definition never_started :: "fiber_state \<Rightarrow> bool" where
  "never_started s \<longleftrightarrow>
     g_pendingFiber s = None \<and> fs_entered s = []
     \<and> (fs_place s = Ended
        \<or> fs_place s = AtThread \<and> \<not> ts_inFiber s \<and> ts_running s = None
          \<and> (\<forall>p f. fiber_lookup p s = Some f \<longrightarrow> fb_ctx f = CtxFresh))"

lemma Fiber_init_fresh: "Fiber_init got n e a st sz Fiber_new = (True, f) \<Longrightarrow> fb_ctx f = CtxFresh"
  by (auto simp: Fiber_init_def Let_def Fiber_new_def split: if_splits)

lemma init_never_started:
  assumes "never_started s" and "fs_place s \<noteq> Ended"
  shows "never_started (snd (sceFiberInitializeImpl g p n e a st sz s))"
proof (cases "p = 0 \<or> e = 0 \<or> st = 0 \<or> sz < 4096 \<or> fiber_lookup p s \<noteq> None")
  case True
  with assms(1) show ?thesis by (auto simp: sceFiberInitializeImpl_def)
next
  case False
  obtain ok f where i: "Fiber_init g n e a st (ucast sz) Fiber_new = (ok, f)" by fastforce
  show ?thesis
  proof (cases ok)
    case True
    with i have "fb_ctx f = CtxFresh" by (simp add: Fiber_init_fresh)
    with True False i assms show ?thesis
      by (auto simp: sceFiberInitializeImpl_def never_started_def fiber_lookup_def um_simps)
  qed (use False i assms in \<open>simp add: sceFiberInitializeImpl_def\<close>)
qed

lemma run_never_started:
  assumes "never_started s" and "fs_place s \<noteq> Ended" and "sceFiberRun p a out s = Val (r, s')"
  shows "never_started s' \<and> (fiber_lookup p s \<noteq> None \<longrightarrow> fs_place s' = Ended)"
proof (cases "fiber_lookup p s")
  case (Some f)
  with assms(1,2) have "fb_ctx f = CtxFresh" by (auto simp: never_started_def)
  with Some assms show ?thesis
    by (auto simp: sceFiberRun_def enter_fiber_def fiberTrampoline_def never_started_def fiber_lookup_def)
qed (use assms in \<open>auto simp: sceFiberRun_def\<close>)

lemma step_never_started:
  assumes "never_started s" and "fs_place s \<noteq> Ended" and "fiber_step c s = Val s'"
  shows "never_started s'"
proof (cases c)
  case (FFinalize p)
  with assms show ?thesis
    by (auto simp: sceFiberFinalize_def never_started_def fiber_lookup_def um_simps split: if_splits)
next
  case (FSwitch p a out)
  have "ts_running s = None" using assms(1,2) by (simp add: never_started_def)
  then have "sceFiberSwitch p a out s = sceFiberRun p a out s"
    by (cases "fiber_lookup p s") (simp_all add: sceFiberSwitch_def sceFiberRun_def)
  with FSwitch assms(3) obtain r where "sceFiberRun p a out s = Val (r, s')" by (auto simp: cpp_bind_eq_Val_iff)
  from run_never_started [OF assms(1,2) this] show ?thesis by blast
next
  case (FReturn a out)
  have "ts_running s = None" using assms(1,2) by (simp add: never_started_def)
  with FReturn assms show ?thesis by (simp add: sceFiberReturnToThread_def)
next
  case (FRun p a out)
  with assms(3) obtain r where "sceFiberRun p a out s = Val (r, s')" by (auto simp: cpp_bind_eq_Val_iff)
  from run_never_started [OF assms(1,2) this] show ?thesis by blast
next
  case (FSelf impl out)
  with assms show ?thesis
    by (auto simp: sceFiberGetSelf_def Let_def never_started_def fiber_lookup_def cpp_bind_eq_Val_iff
        split: if_splits option.splits)
next
  case (FEntryReturns p)
  have "fs_place s = AtThread" using assms(1,2) by (simp add: never_started_def)
  with FEntryReturns assms show ?thesis by simp
qed (use assms init_never_started in auto)

theorem fibers_never_start:
  "fiber_run cs s = Val s' \<Longrightarrow> never_started s \<Longrightarrow> never_started s'"
  by (induction cs s rule: fiber_run.induct)
    (auto simp: cpp_bind_eq_Val_iff split: if_splits dest: step_never_started)

text \<open>
  From a fresh thread no guest entry is ever called, and the first run of a fiber that was
  initialised ends the thread.
\<close>

theorem first_fiber_run_ends_thread:
  assumes "fiber_run cs (fiber_start m) = Val s"
  shows "fs_entered s = []"
    and "fs_place s \<noteq> Ended \<Longrightarrow> fiber_lookup p s \<noteq> None \<Longrightarrow> sceFiberRun p a out s = Val (r, s') \<Longrightarrow> fs_place s' = Ended"
proof -
  have "never_started (fiber_start m)" by (simp add: never_started_def fiber_start_def fiber_lookup_def um_simps)
  from fibers_never_start [OF assms this] have n: "never_started s" .
  then show "fs_entered s = []" by (simp add: never_started_def)
  show "fs_place s \<noteq> Ended \<Longrightarrow> fiber_lookup p s \<noteq> None \<Longrightarrow> sceFiberRun p a out s = Val (r, s') \<Longrightarrow> fs_place s' = Ended"
    using run_never_started [OF n] by blast
qed

end
