(* ===== verification/Sce_Platform.thy ===== *)
theory Sce_Platform
  imports Virtual_File_System Sce_Stub_Table Guest_Words
begin

text \<open>
  Small platform libraries: libSceVideoOut (\<^verbatim>\<open>sce/videoout\<close>), libSceSysmodule (\<^verbatim>\<open>sce/sysmodule\<close>),
  libSceAppContent (\<^verbatim>\<open>sce/appcontent\<close>) and libScePlayGo (\<^verbatim>\<open>sce/playgo\<close>), each with its own table.
\<close>

definition kPfErrInvalidArg :: u32 where "kPfErrInvalidArg = 0x80020005"
definition kPfErrNotFound :: u32 where "kPfErrNotFound = 0x80020004"
definition kPfErrBusy :: u32 where "kPfErrBusy = 0x8002000B"

lemmas pf_errors = kPfErrInvalidArg_def kPfErrNotFound_def kPfErrBusy_def

section \<open>Video output\<close>

record RegisteredBuffer =
  rb_guestPtr :: u64
  rb_width :: u32
  rb_height :: u32
  rb_pitch :: u32
  rb_format :: u32

definition RegisteredBuffer_new :: RegisteredBuffer where
  "RegisteredBuffer_new = \<lparr>rb_guestPtr = 0, rb_width = 0, rb_height = 0, rb_pitch = 0, rb_format = 0\<rparr>"

record VideoOutState =
  vo_open :: bool
  vo_buffers :: "RegisteredBuffer list"
  vo_bufferCount :: int
  vo_currentIndex :: int
  vo_flipRate :: int

definition VideoOutState_new :: VideoOutState where
  "VideoOutState_new = \<lparr>vo_open = False, vo_buffers = replicate 4 RegisteredBuffer_new,
     vo_bufferCount = 0, vo_currentIndex = 0, vo_flipRate = 60\<rparr>"

definition flipRateToNs :: "int \<Rightarrow> int" where
  "flipRateToNs rate = 1000000000 div (if rate \<le> 0 then 60 else rate)"

definition sceVideoOutOpen :: "VideoOutState \<Rightarrow> u32 \<times> VideoOutState" where
  "sceVideoOutOpen s =
     (if vo_open s then (kPfErrBusy, s)
      else (0, s\<lparr>vo_open := True, vo_bufferCount := 0, vo_currentIndex := 0\<rparr>))"

definition sceVideoOutClose :: "int \<Rightarrow> VideoOutState \<Rightarrow> u32 \<times> VideoOutState" where
  "sceVideoOutClose handle s =
     (if handle \<noteq> 0 \<or> \<not> vo_open s then (kPfErrNotFound, s)
      else (0, s\<lparr>vo_open := False, vo_bufferCount := 0\<rparr>))"

text \<open>An access to the array of four buffers; undefined outside it.\<close>

definition put_buffer :: "int \<Rightarrow> RegisteredBuffer \<Rightarrow> VideoOutState \<Rightarrow> VideoOutState cpp" where
  "put_buffer i b s =
     (if 0 \<le> i \<and> i < 4 then Val (s\<lparr>vo_buffers := (vo_buffers s)[nat i := b]\<rparr>) else UB)"

text \<open>
  The loop over the buffers \<open>i\<close> to \<open>i + n - 1\<close>. In the attribute structure the format is at
  offset 0, the width at 12, the height at 16 and the pitch in pixels at 20.
\<close>

fun register_loop :: "memory \<Rightarrow> int \<Rightarrow> u64 \<Rightarrow> u64 \<Rightarrow> nat \<Rightarrow> nat \<Rightarrow> VideoOutState \<Rightarrow> (bool \<times> VideoOutState) cpp" where
  "register_loop m start addresses attr i 0 s = Val (True, s)"
| "register_loop m start addresses attr i (Suc n) s =
     cpp_bind (load_u64 m (addresses + 8 * of_nat i)) (\<lambda>a.
       if a = 0 then Val (False, s)
       else cpp_bind (load_u32 m (attr + 12)) (\<lambda>w.
            cpp_bind (load_u32 m (attr + 16)) (\<lambda>h.
            cpp_bind (load_u32 m (attr + 20)) (\<lambda>pitch.
            cpp_bind (load_u32 m attr) (\<lambda>fmt.
            cpp_bind (put_buffer (start + int i) \<lparr>rb_guestPtr = a, rb_width = w, rb_height = h,
                        rb_pitch = pitch * 4, rb_format = fmt\<rparr> s) (\<lambda>s.
              register_loop m start addresses attr (Suc i) n s))))))"

text \<open>The sum of the two \<^verbatim>\<open>int\<close>s is undefined when it overflows.\<close>

definition sceVideoOutRegisterBuffers ::
  "memory \<Rightarrow> int \<Rightarrow> int \<Rightarrow> u64 \<Rightarrow> int \<Rightarrow> u64 \<Rightarrow> VideoOutState \<Rightarrow> (u32 \<times> VideoOutState) cpp" where
  "sceVideoOutRegisterBuffers m handle startIndex addresses bufferNum attribute s =
     (if handle \<noteq> 0 \<or> \<not> vo_open s then Val (kPfErrNotFound, s)
      else if addresses = 0 \<or> attribute = 0 \<or> bufferNum \<le> 0 then Val (kPfErrInvalidArg, s)
      else if startIndex < 0 then Val (kPfErrInvalidArg, s)
      else if 2 ^ 31 - 1 < startIndex + bufferNum then UB
      else if startIndex + bufferNum > 4 then Val (kPfErrInvalidArg, s)
      else cpp_bind (register_loop m startIndex addresses attribute 0 (nat bufferNum) s) (\<lambda>(ok, s).
             if ok then Val (0, s\<lparr>vo_bufferCount := startIndex + bufferNum\<rparr>)
             else Val (kPfErrInvalidArg, s)))"

definition sceVideoOutUnregisterBuffers :: "int \<Rightarrow> int \<Rightarrow> VideoOutState \<Rightarrow> (u32 \<times> VideoOutState) cpp" where
  "sceVideoOutUnregisterBuffers handle attributeIndex s =
     (if handle \<noteq> 0 \<or> \<not> vo_open s then Val (kPfErrNotFound, s)
      else if attributeIndex < 0 \<or> attributeIndex \<ge> 4 then Val (kPfErrInvalidArg, s)
      else cpp_bind (put_buffer attributeIndex RegisteredBuffer_new s) (\<lambda>s. Val (0, s)))"

definition sceVideoOutSubmitFlip :: "int \<Rightarrow> int \<Rightarrow> VideoOutState \<Rightarrow> u32 \<times> VideoOutState" where
  "sceVideoOutSubmitFlip handle bufferIndex s =
     (if handle \<noteq> 0 \<or> \<not> vo_open s then (kPfErrNotFound, s)
      else if bufferIndex < 0 \<or> bufferIndex \<ge> vo_bufferCount s then (kPfErrInvalidArg, s)
      else (0, s\<lparr>vo_currentIndex := bufferIndex\<rparr>))"

definition sceVideoOutSetFlipRate :: "int \<Rightarrow> int \<Rightarrow> VideoOutState \<Rightarrow> u32 \<times> VideoOutState" where
  "sceVideoOutSetFlipRate handle rate s =
     (if handle \<noteq> 0 \<or> \<not> vo_open s then (kPfErrNotFound, s)
      else if rate \<le> 0 then (kPfErrInvalidArg, s)
      else (0, s\<lparr>vo_flipRate := rate\<rparr>))"

definition sceVideoOutGetFlipStatus :: "int \<Rightarrow> u64 \<Rightarrow> VideoOutState \<Rightarrow> memory \<Rightarrow> (u32 \<times> memory) cpp" where
  "sceVideoOutGetFlipStatus handle status s m =
     (if handle \<noteq> 0 \<or> \<not> vo_open s then Val (kPfErrNotFound, m)
      else if status = 0 then Val (kPfErrInvalidArg, m)
      else cpp_bind (store_bytes status (replicate 0x30 0) m) (\<lambda>m. Val (0, m)))"

datatype video_op =
    VOpen | VClose int | VRegister memory int int u64 int u64 | VUnregister int int
  | VFlip int int | VRate int int | VStatus memory int u64

fun video_step :: "video_op \<Rightarrow> VideoOutState \<Rightarrow> VideoOutState cpp" where
  "video_step VOpen s = Val (snd (sceVideoOutOpen s))"
| "video_step (VClose h) s = Val (snd (sceVideoOutClose h s))"
| "video_step (VRegister m h i a n t) s = cpp_bind (sceVideoOutRegisterBuffers m h i a n t s) (\<lambda>r. Val (snd r))"
| "video_step (VUnregister h i) s = cpp_bind (sceVideoOutUnregisterBuffers h i s) (\<lambda>r. Val (snd r))"
| "video_step (VFlip h i) s = Val (snd (sceVideoOutSubmitFlip h i s))"
| "video_step (VRate h r) s = Val (snd (sceVideoOutSetFlipRate h r s))"
| "video_step (VStatus m h a) s = cpp_bind (sceVideoOutGetFlipStatus h a s m) (\<lambda>r. Val s)"

fun video_run :: "video_op list \<Rightarrow> VideoOutState \<Rightarrow> VideoOutState cpp" where
  "video_run [] s = Val s"
| "video_run (c # cs) s = cpp_bind (video_step c s) (video_run cs)"

definition video_typed :: "VideoOutState \<Rightarrow> bool" where
  "video_typed s \<longleftrightarrow> length (vo_buffers s) = 4 \<and> 0 \<le> vo_bufferCount s \<and> vo_bufferCount s \<le> 4
     \<and> 0 \<le> vo_currentIndex s \<and> vo_currentIndex s < 4 \<and> 0 < vo_flipRate s"

text \<open>
  What a client owes: a sum of indices that is an \<^verbatim>\<open>int\<close>, and memory behind the pointers that are not null: the attribute
  and as many addresses as it names, up to four; the 48 bytes of the flip status.
\<close>

fun video_op_ok :: "video_op \<Rightarrow> bool" where
  "video_op_ok (VRegister m h i a n t) \<longleftrightarrow>
     i + n < 2 ^ 31 \<and> (a \<noteq> 0 \<and> t \<noteq> 0 \<longrightarrow> load_u32 m t \<noteq> UB \<and> load_u32 m (t + 12) \<noteq> UB \<and> load_u32 m (t + 16) \<noteq> UB
     \<and> load_u32 m (t + 20) \<noteq> UB
     \<and> list_all (\<lambda>k. load_u64 m (a + 8 * of_nat k) \<noteq> UB) [0..<nat (min 4 n)])"
| "video_op_ok (VStatus m h a) \<longleftrightarrow> (a \<noteq> 0 \<longrightarrow> list_all (\<lambda>k. m (a + of_nat k) \<noteq> None) [0..<0x30])"
| "video_op_ok _ \<longleftrightarrow> True"

lemma register_loop_defined:
  assumes "load_u32 m t \<noteq> UB" "load_u32 m (t + 12) \<noteq> UB" "load_u32 m (t + 16) \<noteq> UB" "load_u32 m (t + 20) \<noteq> UB"
    and "\<And>k. k < l \<Longrightarrow> load_u64 m (a + 8 * of_nat k) \<noteq> UB"
    and "0 \<le> start" "start + int (i + n) \<le> 4" "i + n \<le> l" "length (vo_buffers s) = 4"
  shows "\<exists>ok s'. register_loop m start a t i n s = Val (ok, s') \<and> length (vo_buffers s') = 4
    \<and> vo_bufferCount s' = vo_bufferCount s \<and> vo_currentIndex s' = vo_currentIndex s \<and> vo_flipRate s' = vo_flipRate s"
  using assms(6-9)
proof (induction n arbitrary: i s)
  case (Suc n)
  have i: "i < l" "0 \<le> start + int i" "start + int i < 4" using Suc.prems(1-3) by linarith+
  from assms(5) [OF i(1)] obtain adr where adr: "load_u64 m (a + 8 * of_nat i) = Val adr"
    by (cases "load_u64 m (a + 8 * of_nat i)") auto
  from assms(1-4) obtain f w h p where l: "load_u32 m t = Val f" "load_u32 m (t + 12) = Val w"
      "load_u32 m (t + 16) = Val h" "load_u32 m (t + 20) = Val p" by (metis cpp.exhaust)
  let ?s = "s\<lparr>vo_buffers := (vo_buffers s)[nat (start + int i) :=
      \<lparr>rb_guestPtr = adr, rb_width = w, rb_height = h, rb_pitch = p * 4, rb_format = f\<rparr>]\<rparr>"
  show ?case
  proof (cases "adr = 0")
    case False
    have "\<exists>ok s'. register_loop m start a t (Suc i) n ?s = Val (ok, s') \<and> length (vo_buffers s') = 4
      \<and> vo_bufferCount s' = vo_bufferCount ?s \<and> vo_currentIndex s' = vo_currentIndex ?s \<and> vo_flipRate s' = vo_flipRate ?s"
      using Suc.prems by (intro Suc.IH) simp_all
    with False adr l i show ?thesis by (simp add: put_buffer_def)
  qed (use Suc.prems adr in auto)
qed auto

lemma video_step_typed:
  assumes "video_op_ok c" and "video_typed s"
  shows "\<exists>s'. video_step c s = Val s' \<and> video_typed s'"
proof (cases c)
  case (VRegister m h i a n t)
  show ?thesis
  proof (cases "h = 0 \<and> vo_open s \<and> a \<noteq> 0 \<and> t \<noteq> 0 \<and> 0 < n \<and> 0 \<le> i \<and> i + n \<le> 4")
    case True
    have "\<exists>ok s'. register_loop m i a t 0 (nat n) s = Val (ok, s') \<and> length (vo_buffers s') = 4
        \<and> vo_bufferCount s' = vo_bufferCount s \<and> vo_currentIndex s' = vo_currentIndex s \<and> vo_flipRate s' = vo_flipRate s"
      using assms True VRegister
      by (intro register_loop_defined [where l = "nat (min 4 n)"]) (auto simp: list_all_iff video_typed_def)
    then obtain ok s' where r: "register_loop m i a t 0 (nat n) s = Val (ok, s')" "length (vo_buffers s') = 4"
      "vo_bufferCount s' = vo_bufferCount s" "vo_currentIndex s' = vo_currentIndex s" "vo_flipRate s' = vo_flipRate s"
      by blast
    with VRegister True assms show ?thesis
      by (cases ok) (simp_all add: sceVideoOutRegisterBuffers_def video_typed_def)
  qed (use VRegister assms in \<open>auto simp: sceVideoOutRegisterBuffers_def\<close>)
next
  case (VStatus m h a)
  show ?thesis
  proof (cases "h = 0 \<and> vo_open s \<and> a \<noteq> 0")
    case True
    then have "\<exists>m'. store_bytes a (replicate 0x30 0) m = Val m'"
      using assms VStatus by (intro store_bytes_total) (auto simp: list_all_iff)
    with VStatus True assms show ?thesis by (auto simp: sceVideoOutGetFlipStatus_def)
  qed (use VStatus assms in \<open>auto simp: sceVideoOutGetFlipStatus_def\<close>)
qed (use assms in \<open>auto simp: sceVideoOutOpen_def sceVideoOutClose_def sceVideoOutUnregisterBuffers_def
    sceVideoOutSubmitFlip_def sceVideoOutSetFlipRate_def put_buffer_def video_typed_def\<close>)

text \<open>
  C31. Video output stays well typed. Every sequence of the seven calls whose pointers are null or lead to memory, and
  whose registrations have a start index and a number of buffers with a sum below 2^31, is defined: the
  array of four buffers is only accessed inside its bounds. In every state it has four entries, the count
  is between 0 and 4, the current index is one of the four and the flip rate is positive. Without the bound on
  the sum the addition overflows (\<open>video_index_overflow\<close>).
\<close>

theorem video_out_typed:
  assumes "list_all video_op_ok cs"
  shows "\<exists>s. video_run cs VideoOutState_new = Val s \<and> video_typed s"
proof -
  have "\<exists>s'. video_run cs s = Val s' \<and> video_typed s'" if "video_typed s" for s
    using assms that
  proof (induction cs arbitrary: s)
    case (Cons c cs)
    from Cons.prems have "video_op_ok c" by simp
    from video_step_typed [OF this Cons.prems(2)] obtain s' where s': "video_step c s = Val s'" "video_typed s'"
      by blast
    from Cons.prems(1) have "list_all video_op_ok cs" by simp
    from Cons.IH [OF this s'(2)] s'(1) show ?case by simp
  qed simp
  moreover have "video_typed VideoOutState_new" by (simp add: video_typed_def VideoOutState_new_def)
  ultimately show ?thesis by blast
qed

definition video_memory :: memory where
  "video_memory a = (if a < 0x1000 \<or> 0x1100 \<le> a then None else Some 1)"

theorem video_out_typed_witness:
  "\<exists>s. video_run [VOpen, VRegister video_memory 0 2 0x1000 2 0x1040, VFlip 0 3, VStatus video_memory 0 0x1010]
      VideoOutState_new = Val s \<and> video_typed s"
  by (rule video_out_typed) code_simp

lemma video_index_overflow:
  "video_run [VOpen, VRegister video_memory 0 (2 ^ 31 - 1) 0x1000 1 0x1040] VideoOutState_new = UB"
  by code_simp

section \<open>System modules\<close>

definition kModuleMap :: "(u32 \<times> string) list" where
  "kModuleMap =
     [(0x00000001, ''libSceLibcInternal''), (0x00000002, ''libSceUlt''), (0x00000003, ''libSceKernel''),
      (0x0000000C, ''libScePad''), (0x00000018, ''libSceAudioOut''), (0x0000001C, ''libSceNet''),
      (0x00000021, ''libSceVideoOut''), (0x0000003C, ''libSceGnm''), (0x00000048, ''libSceSysmodule'')]"

definition libForId :: "u32 \<Rightarrow> string option" where
  "libForId i = map_of kModuleMap i"

text \<open>The loaded modules, all without an image of their own.\<close>

type_synonym loaded_modules = "(string, unit) umap"

definition sceSysmoduleLoadModule :: "SceStubTable \<Rightarrow> u32 \<Rightarrow> loaded_modules \<Rightarrow> u32 \<times> loaded_modules" where
  "sceSysmoduleLoadModule table i g =
     (case libForId i of
        None \<Rightarrow> (kPfErrNotFound, g)
      | Some lib \<Rightarrow>
          if um_find g lib \<noteq> None then (kPfErrBusy, g)
          else if \<not> list_ex (\<lambda>(key, addr). take (length lib + 2) key = lib @ ''::'') (stub_snapshot table)
          then (kPfErrNotFound, g)
          else (0, um_assign lib () g))"

definition sceSysmoduleUnloadModule :: "u32 \<Rightarrow> loaded_modules \<Rightarrow> u32 \<times> loaded_modules" where
  "sceSysmoduleUnloadModule i g =
     (case libForId i of
        None \<Rightarrow> (kPfErrNotFound, g)
      | Some lib \<Rightarrow> if um_find g lib = None then (kPfErrNotFound, g) else (0, um_erase lib g))"

definition sceSysmoduleIsLoaded :: "u32 \<Rightarrow> loaded_modules \<Rightarrow> u32" where
  "sceSysmoduleIsLoaded i g =
     (case libForId i of
        None \<Rightarrow> kPfErrNotFound
      | Some lib \<Rightarrow> if um_find g lib \<noteq> None then 0 else kPfErrNotFound)"

text \<open>
  A module whose library has a registered function loads once, is then reported as loaded and
  cannot be loaded again until it is unloaded; other modules are not affected.
\<close>

lemma sysmodule_load_cycle:
  assumes "libForId i = Some lib" and "stub_resolve table lib fn = Some a" and "um_find g lib = None"
    and "sceSysmoduleLoadModule table i g = (rc, g')"
  shows "rc = 0" and "sceSysmoduleIsLoaded i g' = 0"
    and "fst (sceSysmoduleLoadModule table i g') = kPfErrBusy"
    and "sceSysmoduleIsLoaded i (snd (sceSysmoduleUnloadModule i g')) = kPfErrNotFound"
    and "libForId j \<noteq> Some lib \<Longrightarrow> sceSysmoduleIsLoaded j g' = sceSysmoduleIsLoaded j g"
proof -
  from assms(2) have "(stub_key lib fn, a) \<in> set (m_stubs table)"
    by (auto simp: stub_resolve_def dest: um_find_mem)
  then have "list_ex (\<lambda>(key, addr). take (length lib + 2) key = lib @ ''::'') (stub_snapshot table)"
    by (force simp: list_ex_iff stub_snapshot_def stub_key_def)
  with assms(1,3,4) have g: "rc = 0" "g' = um_assign lib () g"
    by (simp_all add: sceSysmoduleLoadModule_def)
  then show "rc = 0" and "sceSysmoduleIsLoaded i g' = 0"
    and "fst (sceSysmoduleLoadModule table i g') = kPfErrBusy"
    and "sceSysmoduleIsLoaded i (snd (sceSysmoduleUnloadModule i g')) = kPfErrNotFound"
    and "libForId j \<noteq> Some lib \<Longrightarrow> sceSysmoduleIsLoaded j g' = sceSysmoduleIsLoaded j g"
    using assms(1)
    by (auto simp: sceSysmoduleIsLoaded_def sceSysmoduleLoadModule_def sceSysmoduleUnloadModule_def um_simps
        split: option.splits)
qed

section \<open>Additional content\<close>

record app_content =
  ac_mounted :: "(u32, string) umap"
  ac_nextHandle :: u32

definition content_path :: "u32 \<Rightarrow> string" where
  "content_path contentId = ''/data/dlc/'' @ dec_digits (unat contentId)"

text \<open>\<open>is_dir\<close> says which host paths are directories; no process is bound when the policy is absent.\<close>

definition hostDirExists :: "FsPolicy option \<Rightarrow> (string \<Rightarrow> bool) \<Rightarrow> string \<Rightarrow> bool cpp" where
  "hostDirExists policy is_dir guestPath =
     (case policy of
        None \<Rightarrow> Val False
      | Some pol \<Rightarrow>
          cpp_bind (resolve pol guestPath FsRead) (\<lambda>(tr, err).
            Val (tr_ok tr \<and> is_dir (tr_hostPath tr))))"

definition sceAppContentAddcontMount ::
  "FsPolicy option \<Rightarrow> (string \<Rightarrow> bool) \<Rightarrow> u32 \<Rightarrow> u64 \<Rightarrow> app_content \<times> memory \<Rightarrow> (u32 \<times> app_content \<times> memory) cpp" where
  "sceAppContentAddcontMount policy is_dir contentId outHandle = (\<lambda>(g, m).
     if outHandle = 0 then Val (kPfErrInvalidArg, g, m)
     else if um_find (ac_mounted g) contentId \<noteq> None then Val (kPfErrBusy, g, m)
     else cpp_bind (hostDirExists policy is_dir (content_path contentId)) (\<lambda>present.
       if \<not> present then Val (kPfErrNotFound, g, m)
       else let h = ac_nextHandle g;
                g = \<lparr>ac_mounted = um_assign contentId (content_path contentId) (ac_mounted g),
                     ac_nextHandle = h + 1\<rparr>
            in cpp_bind (store_u32 outHandle h m) (\<lambda>m. Val (0, g, m))))"

definition sceAppContentAddcontUnmount :: "u32 \<Rightarrow> app_content \<Rightarrow> u32 \<times> app_content" where
  "sceAppContentAddcontUnmount handle g = (0, g)"

definition sceAppContentAddcontDelete :: "u32 \<Rightarrow> app_content \<Rightarrow> u32 \<times> app_content" where
  "sceAppContentAddcontDelete contentId g = (kPfErrNotFound, g)"

definition sceAppContentAppParamGetInt :: "u64 \<Rightarrow> memory \<Rightarrow> (u32 \<times> memory) cpp" where
  "sceAppContentAppParamGetInt outValue m =
     (if outValue = 0 then Val (kPfErrInvalidArg, m)
      else cpp_bind (store_u32 outValue 0 m) (\<lambda>m. Val (0, m)))"

definition sceAppContentGetAddcontInfoList :: "u64 \<Rightarrow> memory \<Rightarrow> (u32 \<times> memory) cpp" where
  "sceAppContentGetAddcontInfoList outCount m =
     (if outCount \<noteq> 0 then cpp_bind (store_u64 outCount 0 m) (\<lambda>m. Val (0, m)) else Val (0, m))"

definition sceAppContentTemporaryDataMount :: "u64 \<Rightarrow> memory \<Rightarrow> (u32 \<times> memory) cpp" where
  "sceAppContentTemporaryDataMount outHandle m =
     (if outHandle \<noteq> 0 then cpp_bind (store_u32 outHandle 1 m) (\<lambda>m. Val (0, m)) else Val (0, m))"

text \<open>Unmounting reports success and does nothing: content that was mounted once stays busy.\<close>

theorem addcont_stays_mounted:
  assumes "sceAppContentAddcontMount policy is_dir c out (g, m) = Val (0, g1, m1)"
    and "sceAppContentAddcontUnmount h g1 = (0, g2)"
  shows "out' \<noteq> 0 \<Longrightarrow> sceAppContentAddcontMount policy is_dir c out' (g2, m1) = Val (kPfErrBusy, g2, m1)"
  using assms
  by (auto simp: sceAppContentAddcontMount_def sceAppContentAddcontUnmount_def pf_errors cpp_bind_eq_Val_iff
      Let_def um_simps split: if_splits)

section \<open>PlayGo\<close>

definition scePlayGoGetChunkId :: "u64 \<Rightarrow> memory \<Rightarrow> (u32 \<times> memory) cpp" where
  "scePlayGoGetChunkId outChunkId m =
     (if outChunkId = 0 then Val (kPfErrInvalidArg, m)
      else cpp_bind (store_u64 outChunkId 0x46503400000001 m) (\<lambda>m. Val (0, m)))"

definition scePlayGoGetProgress :: "u64 \<Rightarrow> memory \<Rightarrow> (u32 \<times> memory) cpp" where
  "scePlayGoGetProgress outProgress m =
     (if outProgress \<noteq> 0 then cpp_bind (store_u32 outProgress 100 m) (\<lambda>m. Val (0, m)) else Val (0, m))"

definition scePlayGoGetLocusInfo :: "u64 \<Rightarrow> memory \<Rightarrow> (u32 \<times> memory) cpp" where
  "scePlayGoGetLocusInfo outInfo m =
     (if outInfo = 0 then Val (kPfErrInvalidArg, m)
      else cpp_bind (store_u32 outInfo 3 m) (\<lambda>m.
           cpp_bind (store_u32 (outInfo + 4) 100 m) (\<lambda>m.
           cpp_bind (store_bytes (outInfo + 8) (replicate 24 0) m) (\<lambda>m. Val (0, m)))))"

end
