(* ===== verification/Binary32.thy ===== *)
theory Binary32
  imports Complex_Main Prelude
begin

text \<open>
  The \<^verbatim>\<open>float\<close> arithmetic the audio code uses: IEEE 754 binary32 with rounding to nearest, ties to
  even. A finite number is a sign, an integer significand and a power of two; the bit
  pattern is only decoded where the code reads a \<^verbatim>\<open>float\<close> from memory.
\<close>

datatype f32 = Fin bool int int | Inf bool | NaN

function bitlen :: "int \<Rightarrow> int" where
  "bitlen n = (if n \<le> 0 then 0 else 1 + bitlen (n div 2))"
  by pat_completeness auto

termination
  by (relation "measure nat") auto

declare bitlen.simps [simp del]

definition div_half_even :: "int \<Rightarrow> int \<Rightarrow> int" where
  "div_half_even m d =
     (let q = m div d; r = m mod d
      in if 2 * r < d \<or> 2 * r = d \<and> even q then q else q + 1)"

text \<open>The number nearest to \<open>m * 2 ^ e\<close>: a significand of at most 24 bits, an exponent of at least -149.\<close>

definition f32_round :: "bool \<Rightarrow> int \<Rightarrow> int \<Rightarrow> f32" where
  "f32_round neg m e =
     (if m = 0 then Fin neg 0 (- 149)
      else let e1 = max (e + bitlen m - 24) (- 149);
          m1 = (if e1 \<le> e then m * 2 ^ nat (e - e1) else div_half_even m (2 ^ nat (e1 - e)));
          (m2, e2) = (if m1 = 2 ^ 24 then (2 ^ 23, e1 + 1) else (m1, e1))
      in if e2 > 104 then Inf neg else Fin neg m2 e2)"

definition f32_of_bits :: "u32 \<Rightarrow> f32" where
  "f32_of_bits w =
     (let s = (uint w div 2 ^ 31 = 1); x = uint w div 2 ^ 23 mod 256; f = uint w mod 2 ^ 23
      in if x = 255 then (if f = 0 then Inf s else NaN)
         else if x = 0 then Fin s f (- 149)
         else Fin s (f + 2 ^ 23) (x - 150))"

definition f32_of_int :: "int \<Rightarrow> f32" where
  "f32_of_int v = f32_round (v < 0) \<bar>v\<bar> 0"

fun f32_mul :: "f32 \<Rightarrow> f32 \<Rightarrow> f32" where
  "f32_mul (Fin s m e) (Fin t n d) = f32_round (s \<noteq> t) (m * n) (e + d)"
| "f32_mul (Fin s m e) (Inf t) = (if m = 0 then NaN else Inf (s \<noteq> t))"
| "f32_mul (Inf s) (Fin t n d) = (if n = 0 then NaN else Inf (s \<noteq> t))"
| "f32_mul (Inf s) (Inf t) = Inf (s \<noteq> t)"
| "f32_mul _ _ = NaN"

text \<open>Two finite numbers at a common exponent.\<close>

definition f32_align :: "bool \<Rightarrow> int \<Rightarrow> int \<Rightarrow> int \<Rightarrow> int" where
  "f32_align s m e d = (if s then - m else m) * 2 ^ nat (e - min e d)"

fun f32_add :: "f32 \<Rightarrow> f32 \<Rightarrow> f32" where
  "f32_add (Fin s m e) (Fin t n d) =
     (let v = f32_align s m e d + f32_align t n d e
      in if v = 0 then Fin (s \<and> t) 0 (- 149) else f32_round (v < 0) \<bar>v\<bar> (min e d))"
| "f32_add (Fin s m e) (Inf t) = Inf t"
| "f32_add (Inf s) (Fin t n d) = Inf s"
| "f32_add (Inf s) (Inf t) = (if s = t then Inf s else NaN)"
| "f32_add _ _ = NaN"

fun f32_lt :: "f32 \<Rightarrow> f32 \<Rightarrow> bool" where
  "f32_lt (Fin s m e) (Fin t n d) \<longleftrightarrow> f32_align s m e d < f32_align t n d e"
| "f32_lt (Fin s m e) (Inf t) \<longleftrightarrow> \<not> t"
| "f32_lt (Inf s) (Fin t n d) \<longleftrightarrow> s"
| "f32_lt (Inf s) (Inf t) \<longleftrightarrow> s \<and> \<not> t"
| "f32_lt _ _ \<longleftrightarrow> False"

fun f32_eq :: "f32 \<Rightarrow> f32 \<Rightarrow> bool" where
  "f32_eq (Fin s m e) (Fin t n d) \<longleftrightarrow> f32_align s m e d = f32_align t n d e"
| "f32_eq (Inf s) (Inf t) \<longleftrightarrow> s = t"
| "f32_eq _ _ \<longleftrightarrow> False"

text \<open>\<^verbatim>\<open>static_cast<int>\<close> truncates; it is undefined when the result is not an \<^verbatim>\<open>int\<close>.\<close>

fun f32_to_int :: "f32 \<Rightarrow> int cpp" where
  "f32_to_int (Fin s m e) =
     (let t = (if 0 \<le> e then m * 2 ^ nat e else m div 2 ^ nat (- e)); v = (if s then - t else t)
      in if - (2 ^ 31) \<le> v \<and> v < 2 ^ 31 then Val v else UB)"
| "f32_to_int _ = UB"

text \<open>\<^verbatim>\<open>std::clamp\<close>; a NaN passes through it.\<close>

definition f32_clamp :: "f32 \<Rightarrow> f32 \<Rightarrow> f32 \<Rightarrow> f32" where
  "f32_clamp v lo hi = (if f32_lt v lo then lo else if f32_lt hi v then hi else v)"

section \<open>Magnitudes\<close>

lemma bitlen_bounds: "0 < m \<Longrightarrow> 2 ^ nat (bitlen m - 1) \<le> m \<and> m < 2 ^ nat (bitlen m) \<and> 0 < bitlen m"
proof (induction m rule: bitlen.induct)
  case (1 m)
  show ?case
  proof (cases "m = 1")
    case False
    with 1 have h: "2 ^ nat (bitlen (m div 2) - 1) \<le> m div 2" "m div 2 < 2 ^ nat (bitlen (m div 2))"
      "0 < bitlen (m div 2)" by auto
    have b: "bitlen m = 1 + bitlen (m div 2)" using 1(2) by (subst bitlen.simps) simp
    obtain k where k: "bitlen (m div 2) = int k + 1" using h(3)
      by (metis add.commute zle_iff_zadd int_one_le_iff_zero_less)
    from h k b show ?thesis by (simp add: nat_add_distrib) linarith
  qed (simp add: bitlen.simps)
qed

definition f32_abs :: "int \<Rightarrow> int \<Rightarrow> real" where
  "f32_abs m e = of_int m * 2 powi e"

text \<open>The magnitude of a finite number is at most \<open>r\<close>.\<close>

fun f32_le :: "f32 \<Rightarrow> real \<Rightarrow> bool" where
  "f32_le (Fin s m e) r \<longleftrightarrow> 0 \<le> m \<and> f32_abs m e \<le> r"
| "f32_le _ _ \<longleftrightarrow> False"

lemma f32_le_mono: "f32_le x r \<Longrightarrow> r \<le> r' \<Longrightarrow> f32_le x r'"
  by (cases x) auto

lemma f32_abs_mul: "f32_abs m e * f32_abs n d = f32_abs (m * n) (e + d)"
  by (simp add: f32_abs_def power_int_add)

lemma f32_abs_shift: "d \<le> e \<Longrightarrow> f32_abs (m * 2 ^ nat (e - d)) d = f32_abs m e"
proof -
  assume "d \<le> e"
  then have "(2 :: real) ^ nat (e - d) = 2 powi (e - d)" by (simp add: power_int_def)
  then show ?thesis by (simp add: f32_abs_def flip: power_int_add)
qed

lemma bitlen_abs: "0 < m \<Longrightarrow> 2 powi (e + bitlen m - 1) \<le> f32_abs m e"
proof -
  assume m: "0 < m"
  have "(2 :: int) ^ nat (bitlen m - 1) \<le> m" using bitlen_bounds [OF m] by blast
  then have "of_int (2 ^ nat (bitlen m - 1)) \<le> (of_int m :: real)" by (simp only: of_int_le_iff)
  moreover have "(2 :: real) ^ nat (bitlen m - 1) = 2 powi (bitlen m - 1)"
    using bitlen_bounds [OF m] by (simp add: power_int_def)
  ultimately have "2 powi (bitlen m - 1) * 2 powi e \<le> (of_int m :: real) * 2 powi e"
    by (intro mult_right_mono) simp_all
  then show ?thesis by (simp add: f32_abs_def add.commute add_diff_eq flip: power_int_add)
qed

lemma div_half_even_le: "0 < d \<Longrightarrow> 0 \<le> m \<Longrightarrow> 0 \<le> div_half_even m d \<and> div_half_even m d * d \<le> m + d"
proof -
  assume d: "0 < d" "0 \<le> m"
  have "div_half_even m d \<le> m div d + 1" "m div d \<le> div_half_even m d"
    by (simp_all add: div_half_even_def Let_def)
  moreover have "(m div d + 1) * d \<le> m + d"
    using div_mult_mod_eq [of m d] pos_mod_sign [OF d(1), of m] by (simp only: distrib_right mult_1)
  moreover have "div_half_even m d * d \<le> (m div d + 1) * d" using calculation(1) d by (intro mult_right_mono) simp_all
  moreover have "0 \<le> m div d" using d by (simp add: pos_imp_zdiv_nonneg_iff)
  ultimately show ?thesis by linarith
qed

text \<open>Rounding at most doubles a number, up to the least positive one.\<close>

lemma f32_round_le:
  assumes "0 \<le> m" and "f32_abs m e \<le> r" and "r \<le> 2 ^ 24"
  shows "f32_le (f32_round neg m e) (2 * r + 1)"
proof (cases "m = 0")
  case True
  with assms(2) show ?thesis by (simp add: f32_round_def f32_abs_def)
next
  case False
  with assms(1) have m: "0 < m" by simp
  define e1 where "e1 = max (e + bitlen m - 24) (- 149)"
  define m1 where "m1 = (if e1 \<le> e then m * 2 ^ nat (e - e1) else div_half_even m (2 ^ nat (e1 - e)))"
  have r0: "0 \<le> f32_abs m e" using m by (simp add: f32_abs_def)
  have top: "2 powi (e + bitlen m - 1) \<le> f32_abs m e" by (rule bitlen_abs [OF m])
  with assms have "(2 :: real) powi (e + bitlen m - 1) \<le> 2 powi 24" by (simp add: power_int_def)
  then have "e + bitlen m - 1 \<le> 24" by (rule power_int_le_imp_le_exp [rotated]) simp_all
  then have e1: "e1 \<le> 1" by (simp add: e1_def)
  have ulp: "2 powi e1 \<le> f32_abs m e + 1"
  proof (cases "e1 = - 149")
    case True
    then show ?thesis using r0 by (simp add: power_int_def field_simps)
  next
    case False
    then have "e1 \<le> e + bitlen m - 1" by (simp add: e1_def)
    then have "(2 :: real) powi e1 \<le> 2 powi (e + bitlen m - 1)" by (intro power_int_increasing) simp_all
    with top show ?thesis by simp
  qed
  have m1: "0 \<le> m1 \<and> f32_abs m1 e1 \<le> 2 * r + 1"
  proof (cases "e1 \<le> e")
    case True
    then show ?thesis using m assms(2) r0 f32_abs_shift [OF True, of m] by (simp add: m1_def)
  next
    case False
    let ?d = "2 ^ nat (e1 - e) :: int"
    have h: "0 \<le> m1" "m1 * ?d \<le> m + ?d" using False m div_half_even_le [of ?d m] by (simp_all add: m1_def)
    then have "(of_int (m1 * ?d) :: real) \<le> of_int (m + ?d)" by (simp only: of_int_le_iff)
    moreover have d: "(2 :: real) ^ nat (e1 - e) = 2 powi (e1 - e)" using False by (simp add: power_int_def)
    ultimately have "of_int m1 * 2 powi (e1 - e) * 2 powi e \<le> (of_int m + 2 powi (e1 - e)) * (2 :: real) powi e"
      by (intro mult_right_mono) simp_all
    then have "f32_abs m1 e1 \<le> f32_abs m e + 2 powi e1"
      by (simp add: f32_abs_def mult.assoc distrib_right flip: power_int_add)
    with h ulp assms(2) show ?thesis by simp
  qed
  have "f32_round neg m e = (if m1 = 2 ^ 24 then Fin neg (2 ^ 23) (e1 + 1) else Fin neg m1 e1)"
    using False e1 by (simp add: f32_round_def Let_def flip: e1_def m1_def)
  moreover have "m1 = 2 ^ 24 \<Longrightarrow> f32_abs (2 ^ 23) (e1 + 1) = f32_abs m1 e1"
    by (simp add: f32_abs_def power_int_add)
  ultimately show ?thesis using m1 by (cases "m1 = 2 ^ 24") simp_all
qed

lemma f32_mul_le:
  assumes "f32_le x a" and "f32_le y b" and "a * b \<le> 2 ^ 24"
  shows "f32_le (f32_mul x y) (2 * (a * b) + 1)"
proof -
  from assms(1,2) obtain s m e t n d where x: "x = Fin s m e" "0 \<le> m" "f32_abs m e \<le> a"
    and y: "y = Fin t n d" "0 \<le> n" "f32_abs n d \<le> b" by (cases x; cases y) auto
  have "0 \<le> f32_abs m e" "0 \<le> f32_abs n d" using x(2) y(2) by (simp_all add: f32_abs_def)
  with x y have "f32_abs (m * n) (e + d) \<le> a * b" by (auto simp: intro!: mult_mono simp flip: f32_abs_mul)
  then show ?thesis using x y assms(3) by (simp add: f32_round_le)
qed

lemma f32_of_int_le: "\<bar>v\<bar> \<le> 2 ^ 16 \<Longrightarrow> f32_le (f32_of_int v) (2 * of_int \<bar>v\<bar> + 1)"
  unfolding f32_of_int_def by (rule f32_round_le) (simp_all add: f32_abs_def)

lemma f32_to_int_le:
  assumes "f32_le x r" and "r < 2 ^ 31"
  shows "\<exists>v. f32_to_int x = Val v \<and> \<bar>of_int v\<bar> \<le> r"
proof -
  from assms(1) obtain s m e where x: "x = Fin s m e" "0 \<le> m" "f32_abs m e \<le> r" by (cases x) auto
  define t where "t = (if 0 \<le> e then m * 2 ^ nat e else m div 2 ^ nat (- e))"
  have "of_int t \<le> f32_abs m e"
  proof (cases "0 \<le> e")
    case False
    then have "of_int t \<le> (of_int m :: real) / of_int (2 ^ nat (- e))"
      using real_of_int_div4 [of m "2 ^ nat (- e)"] by (simp add: t_def)
    moreover have "(2 :: real) powi e = inverse (2 ^ nat (- e))" using False by (simp only: power_int_def if_False power_inverse)
    ultimately show ?thesis by (simp add: f32_abs_def divide_inverse)
  qed (simp add: t_def f32_abs_def power_int_def)
  moreover have "0 \<le> t" using x(2) by (simp add: t_def pos_imp_zdiv_nonneg_iff)
  ultimately have "of_int t < (2 ^ 31 :: real)" "0 \<le> t" and r: "of_int t \<le> r" using x(3) assms(2) by linarith+
  then have "t < 2 ^ 31" by (metis of_int_less_iff of_int_numeral of_int_power)
  with \<open>0 \<le> t\<close> r show ?thesis by (auto simp: x(1) Let_def simp flip: t_def)
qed

text \<open>Comparisons compare values, so a clamped number other than NaN lies between its bounds.\<close>

definition f32_real :: "bool \<Rightarrow> int \<Rightarrow> int \<Rightarrow> real" where
  "f32_real s m e = (if s then - f32_abs m e else f32_abs m e)"

lemma f32_align_real: "of_int (f32_align s m e d) * 2 powi (min e d) = f32_real s m e"
proof -
  have "f32_abs (m * 2 ^ nat (e - min e d)) (min e d) = f32_abs m e" by (rule f32_abs_shift) simp
  then show ?thesis by (simp add: f32_align_def f32_real_def f32_abs_def)
qed

lemma f32_lt_real: "f32_lt (Fin s m e) (Fin t n d) \<longleftrightarrow> f32_real s m e < f32_real t n d"
proof -
  have "f32_real s m e < f32_real t n d \<longleftrightarrow>
      (of_int (f32_align s m e d) :: real) * 2 powi (min e d) < of_int (f32_align t n d e) * 2 powi (min e d)"
    using f32_align_real [of s m e d] f32_align_real [of t n d e] by (simp add: min.commute)
  then show ?thesis by (simp add: zero_less_power_int)
qed

fun f32_number :: "f32 \<Rightarrow> bool" where
  "f32_number (Fin s m e) \<longleftrightarrow> 0 \<le> m"
| "f32_number (Inf s) \<longleftrightarrow> True"
| "f32_number NaN \<longleftrightarrow> False"

lemma f32_clamp_le:
  assumes "f32_number v" and "f32_le lo r" and "f32_le hi r"
  shows "f32_le (f32_clamp v lo hi) r"
proof -
  from assms(2,3) obtain s m e t n d where lo: "lo = Fin s m e" "0 \<le> m" "f32_abs m e \<le> r"
    and hi: "hi = Fin t n d" "0 \<le> n" "f32_abs n d \<le> r" by (cases lo; cases hi) auto
  show ?thesis
  proof (cases v)
    case (Fin u k c)
    have "0 \<le> f32_abs m e" "0 \<le> f32_abs n d" using lo(2) hi(2) by (simp_all add: f32_abs_def)
    then have "- r \<le> f32_real s m e" "f32_real t n d \<le> r" using lo(3) hi(3) by (simp_all add: f32_real_def)
    then have "\<not> f32_lt v lo \<Longrightarrow> \<not> f32_lt hi v \<Longrightarrow> \<bar>f32_real u k c\<bar> \<le> r"
      unfolding lo(1) hi(1) Fin f32_lt_real by linarith
    moreover have "\<bar>f32_real u k c\<bar> = f32_abs k c" using assms(1) by (simp add: Fin f32_real_def f32_abs_def)
    ultimately show ?thesis using assms by (simp add: f32_clamp_def Fin)
  qed (use assms lo hi in \<open>auto simp: f32_clamp_def\<close>)
qed

lemma f32_of_bits_number: "f32_of_bits w \<noteq> NaN \<Longrightarrow> f32_number (f32_of_bits w)"
  by (auto simp: f32_of_bits_def Let_def)

lemma f32_add_le:
  assumes "f32_le x a" and "f32_le y b" and "a + b \<le> 2 ^ 24"
  shows "f32_le (f32_add x y) (2 * (a + b) + 1)"
proof -
  from assms(1,2) obtain s m e t n d where x: "x = Fin s m e" "0 \<le> m" "f32_abs m e \<le> a"
    and y: "y = Fin t n d" "0 \<le> n" "f32_abs n d \<le> b" by (cases x; cases y) auto
  define v where "v = f32_align s m e d + f32_align t n d e"
  have nn: "0 \<le> f32_abs m e" "0 \<le> f32_abs n d" using x(2) y(2) by (simp_all add: f32_abs_def)
  have "of_int v * 2 powi (min e d) = f32_real s m e + f32_real t n d"
    using f32_align_real [of s m e d] f32_align_real [of t n d e]
    by (simp add: v_def distrib_right min.commute)
  moreover have "f32_abs \<bar>v\<bar> (min e d) = \<bar>of_int v * 2 powi (min e d)\<bar>" by (simp add: f32_abs_def abs_mult)
  ultimately have "f32_abs \<bar>v\<bar> (min e d) \<le> a + b" using x(3) y(3) nn
    by (auto simp: f32_real_def abs_le_iff)
  moreover have "0 \<le> a + b" using x(3) y(3) nn by linarith
  ultimately show ?thesis using assms(3) f32_round_le [of "\<bar>v\<bar>" "min e d" "a + b"]
    by (simp add: x y Let_def f32_abs_def flip: v_def)
qed

end
