(* ===== verification/Audio.thy ===== *)
theory Audio
  imports Binary32 Handles Guest_Words
begin

text \<open>
  Audio: the port table and the output of \<^verbatim>\<open>audio/AudioManager.cpp\<close>, the mixer of
  \<^verbatim>\<open>audio/Ngs2Grapth.cpp\<close>, and the libraries libSceAudioOut and libSceNgs2 in front of them. What is queued
  on the SDL device is a list of blocks of bytes.
\<close>

definition kAuErrInvalidArg :: u32 where "kAuErrInvalidArg = 0x80020005"
definition kAuErrNotFound :: u32 where "kAuErrNotFound = 0x80020004"
definition kAuErrNoMemory :: u32 where "kAuErrNoMemory = 0x80020002"
definition kAuErrNotSupport :: u32 where "kAuErrNotSupport = 0x80020003"

lemmas audio_errors = kAuErrInvalidArg_def kAuErrNotFound_def kAuErrNoMemory_def kAuErrNotSupport_def

definition clampi :: "int \<Rightarrow> int \<Rightarrow> int \<Rightarrow> int" where
  "clampi v lo hi = (if v < lo then lo else if hi < v then hi else v)"

section \<open>Ports\<close>

record Port =
  po_id :: int
  po_channels :: int
  po_sampleRate :: int
  po_granularity :: int
  po_open :: bool

text \<open>\<open>am_device\<close> is the rate of the opened device, absent when there is none.\<close>

record AudioManager =
  am_ports :: "Port list"
  am_nextPortId :: int
  am_leftVolume :: int
  am_rightVolume :: int
  am_device :: "int option"
  am_queue :: "u8 list list"

definition AudioManager_new :: AudioManager where
  "AudioManager_new = \<lparr>am_ports = [], am_nextPortId = 1, am_leftVolume = 128, am_rightVolume = 128,
     am_device = None, am_queue = []\<rparr>"

text \<open>\<open>have\<close> is the frequency of the device that SDL opened, if it opened one.\<close>

definition AudioManager_init :: "int option \<Rightarrow> AudioManager \<Rightarrow> bool \<times> AudioManager" where
  "AudioManager_init have s = (have \<noteq> None, s\<lparr>am_device := have\<rparr>)"

definition AudioManager_shutdown :: "AudioManager \<Rightarrow> AudioManager" where
  "AudioManager_shutdown s = s\<lparr>am_ports := [], am_device := None\<rparr>"

definition openPort :: "int \<Rightarrow> int \<Rightarrow> int \<Rightarrow> AudioManager \<Rightarrow> int \<times> AudioManager" where
  "openPort channels sampleRate granularity s =
     (if channels \<noteq> 1 \<and> channels \<noteq> 2 then (-1, s)
      else let sampleRate = (if sampleRate \<le> 0 then case am_device s of Some r \<Rightarrow> r | None \<Rightarrow> 48000
                             else sampleRate)
      in if granularity \<le> 0 then (-1, s)
      else if list_ex po_open (am_ports s) then (-1, s)
      else (am_nextPortId s,
            s\<lparr>am_nextPortId := am_nextPortId s + 1,
              am_ports := am_ports s @ [\<lparr>po_id = am_nextPortId s, po_channels = channels,
                po_sampleRate = sampleRate, po_granularity = granularity, po_open = True\<rparr>]\<rparr>))"

fun close_port :: "int \<Rightarrow> Port list \<Rightarrow> bool \<times> Port list" where
  "close_port i [] = (False, [])"
| "close_port i (p # ps) =
     (if po_id p = i then (True, p\<lparr>po_open := False\<rparr> # ps)
      else let (ok, ps) = close_port i ps in (ok, p # ps))"

definition closePort :: "int \<Rightarrow> AudioManager \<Rightarrow> bool \<times> AudioManager" where
  "closePort portId s = (let (ok, ps) = close_port portId (am_ports s) in (ok, s\<lparr>am_ports := ps\<rparr>))"

text \<open>
  The data of an output is a reader of so many bytes, absent for a null pointer. The size in
  bytes is cut to 32 bits for SDL.
\<close>

definition mono_to_stereo :: "u8 list \<Rightarrow> nat \<Rightarrow> u8 list" where
  "mono_to_stereo src n = concat (map (\<lambda>i. let x = take 2 (drop (2 * i) src) in x @ x) [0..<n])"

definition AudioManager_output ::
  "int \<Rightarrow> (nat \<Rightarrow> u8 list cpp) option \<Rightarrow> nat \<Rightarrow> AudioManager \<Rightarrow> (bool \<times> AudioManager) cpp" where
  "AudioManager_output portId data numSamples s =
     (case data of
        None \<Rightarrow> Val (False, s)
      | Some rd \<Rightarrow>
          if numSamples = 0 \<or> am_device s = None then Val (False, s)
          else case find (\<lambda>p. po_id p = portId \<and> po_open p) (am_ports s) of
            None \<Rightarrow> Val (False, s)
          | Some p \<Rightarrow>
              let bytes = (numSamples * 4) mod 2 ^ 32
              in if po_channels p = 2 then
                   cpp_bind (rd bytes) (\<lambda>bs. Val (True, s\<lparr>am_queue := am_queue s @ [bs]\<rparr>))
                 else
                   cpp_bind (rd (2 * numSamples)) (\<lambda>src.
                     Val (True, s\<lparr>am_queue := am_queue s @ [take bytes (mono_to_stereo src numSamples)]\<rparr>)))"

definition setMasterVolume :: "int \<Rightarrow> int \<Rightarrow> AudioManager \<Rightarrow> AudioManager" where
  "setMasterVolume left right s =
     s\<lparr>am_leftVolume := clampi left 0 255, am_rightVolume := clampi right 0 255\<rparr>"

text \<open>At most one port is open at a time, and port numbers are not used again.\<close>

definition ports_inv :: "AudioManager \<Rightarrow> bool" where
  "ports_inv s \<longleftrightarrow> distinct (map po_id (am_ports s)) \<and> list_all (\<lambda>i. 0 < i \<and> i < am_nextPortId s) (map po_id (am_ports s))
     \<and> length (filter po_open (am_ports s)) \<le> 1 \<and> 0 < am_nextPortId s"

lemma close_port_frame:
  "map po_id (snd (close_port i ps)) = map po_id ps"
  "length (filter po_open (snd (close_port i ps))) \<le> length (filter po_open ps)"
  by (induction ps) (auto split: prod.splits)

lemma ports_inv_preserved:
  assumes "ports_inv s"
  shows "ports_inv (snd (openPort c r g s))" and "ports_inv (snd (closePort i s))"
    and "ports_inv (setMasterVolume l v s)" and "ports_inv (AudioManager_shutdown s)"
proof -
  show "ports_inv (snd (openPort c r g s))"
    using assms by (auto simp: ports_inv_def openPort_def Let_def list_all_iff list_ex_iff filter_empty_conv)
  show "ports_inv (snd (closePort i s))"
    using assms close_port_frame [of i "am_ports s"]
    by (auto simp: ports_inv_def closePort_def split: prod.splits)
  show "ports_inv (setMasterVolume l v s)" "ports_inv (AudioManager_shutdown s)"
    using assms by (simp_all add: ports_inv_def setMasterVolume_def AudioManager_shutdown_def)
qed

text \<open>A block reaches the device byte for byte when its port is stereo and open; nothing else changes.\<close>

lemma stereo_output_queued:
  assumes "ports_inv s" and "p \<in> set (am_ports s)" and "po_open p" and "po_channels p = 2"
    and "am_device s \<noteq> None" and "0 < n" and "n < 2 ^ 30" and "rd (n * 4) = Val bs"
  shows "AudioManager_output (po_id p) (Some rd) n s = Val (True, s\<lparr>am_queue := am_queue s @ [bs]\<rparr>)"
proof -
  have "find (\<lambda>q. po_id q = po_id p \<and> po_open q) (am_ports s) = Some p"
  proof (cases "find (\<lambda>q. po_id q = po_id p \<and> po_open q) (am_ports s)")
    case None
    with assms(2,3) show ?thesis by (auto simp: find_None_iff)
  next
    case (Some q)
    then have "q \<in> set (am_ports s)" "po_id q = po_id p" by (auto simp: find_Some_iff)
    with assms(1,2) have "q = p" by (auto simp: ports_inv_def distinct_map inj_on_def)
    with Some show ?thesis by simp
  qed
  moreover have "(n * 4) mod 2 ^ 32 = n * 4" using assms(7) by simp
  ultimately show ?thesis using assms(4-8) by (simp add: AudioManager_output_def)
qed

section \<open>Audio output\<close>

datatype audio_object = PortHandleObj int | OtherObject

record audio_out =
  ao_manager :: AudioManager
  ao_table :: "audio_object HandleTable"

definition lookupPortId :: "Handle \<Rightarrow> audio_out \<Rightarrow> int" where
  "lookupPortId h s =
     (case HandleTable_get (ao_table s) h of
        Some (PortHandleObj p) \<Rightarrow> p
      | _ \<Rightarrow> -1)"

definition sceAudioOutOpen :: "u32 \<Rightarrow> u32 \<Rightarrow> audio_out \<Rightarrow> u32 \<times> audio_out" where
  "sceAudioOutOpen len freq s =
     (if len = 0 \<or> freq = 0 then (kAuErrInvalidArg, s)
      else let (portId, am) = openPort 2 (sint freq) (sint len) (ao_manager s);
               s = s\<lparr>ao_manager := am\<rparr>
           in if portId < 0 then (kAuErrNoMemory, s)
              else let (h, t) = registerObject (Some (PortHandleObj portId)) (ao_table s)
                   in (h, s\<lparr>ao_table := t\<rparr>))"

definition sceAudioOutClose :: "Handle \<Rightarrow> audio_out \<Rightarrow> u32 \<times> audio_out" where
  "sceAudioOutClose handle s =
     (let portId = lookupPortId handle s
      in if portId < 0 then (kAuErrNotFound, s)
         else (0, s\<lparr>ao_manager := snd (closePort portId (ao_manager s)),
                    ao_table := snd (HandleTable_close handle (ao_table s))\<rparr>))"

definition sceAudioOutOutput :: "memory \<Rightarrow> Handle \<Rightarrow> u64 \<Rightarrow> audio_out \<Rightarrow> (u32 \<times> audio_out) cpp" where
  "sceAudioOutOutput m handle ptr s =
     (if ptr = 0 then Val (kAuErrInvalidArg, s)
      else let portId = lookupPortId handle s
           in if portId < 0 then Val (kAuErrNotFound, s)
              else cpp_bind (AudioManager_output portId (Some (load_bytes m ptr)) 512 (ao_manager s)) (\<lambda>(ok, am).
                     Val (if ok then 0 else kAuErrInvalidArg, s\<lparr>ao_manager := am\<rparr>)))"

definition sceAudioOutSetVolume :: "memory \<Rightarrow> Handle \<Rightarrow> u64 \<Rightarrow> audio_out \<Rightarrow> (u32 \<times> audio_out) cpp" where
  "sceAudioOutSetVolume m handle vol s =
     (if vol = 0 then Val (kAuErrInvalidArg, s)
      else if lookupPortId handle s < 0 then Val (kAuErrNotFound, s)
      else cpp_bind (load_u32 m vol) (\<lambda>l. cpp_bind (load_u32 m (vol + 4)) (\<lambda>r.
             Val (0, s\<lparr>ao_manager := setMasterVolume (sint l) (sint r) (ao_manager s)\<rparr>))))"

text \<open>
  Whatever block length the port was opened with, an output reads 512 frames: a buffer of a shorter
  block is read past its end.
\<close>

theorem output_ignores_granularity:
  assumes "sceAudioOutOutput m handle ptr s = Val (0, s')"
    and "\<forall>p \<in> set (am_ports (ao_manager s)). po_channels p = 2"
  shows "\<exists>bs. load_bytes m ptr 2048 = Val bs \<and> am_queue (ao_manager s') = am_queue (ao_manager s) @ [bs]"
  using assms
  by (auto simp: sceAudioOutOutput_def AudioManager_output_def audio_errors Let_def cpp_bind_eq_Val_iff
      find_Some_iff split: if_splits option.splits)

end
