(* ===== verification/Audio_Mixer.thy ===== *)
theory Audio_Mixer
  imports Audio
begin

text \<open>
  The mixer of \<^verbatim>\<open>audio/Ngs2Grapth.cpp\<close> and libSceNgs2 (\<^verbatim>\<open>sce/ngs2/SceNgs2.cpp\<close>) in front of it. A round of
  the mixer thread is the function \<open>mixer_block\<close>; it is shown to be a saturating sum of the voices'
  streams, and defined for every sequence of calls whose gains are numbers.
\<close>

section \<open>Voices\<close>

abbreviation f32_one :: f32 where "f32_one \<equiv> Fin False 1 0"

record Ngs2Voice =
  nv_id :: u32
  nv_pcm :: "int list"
  nv_cursor :: nat
  nv_gain :: f32
  nv_panLeft :: f32
  nv_panRight :: f32
  nv_playing :: bool
  nv_loop :: bool

record Ngs2Graph =
  ng_voices :: "Ngs2Voice list"
  ng_nextVoiceId :: u32
  ng_sampleRate :: int
  ng_channels :: int
  ng_portId :: int
  ng_masterGain :: f32
  ng_running :: bool

definition Ngs2Voice_new :: "u32 \<Rightarrow> Ngs2Voice" where
  "Ngs2Voice_new i = \<lparr>nv_id = i, nv_pcm = [], nv_cursor = 0, nv_gain = f32_one, nv_panLeft = f32_one,
     nv_panRight = f32_one, nv_playing = False, nv_loop = False\<rparr>"

definition Ngs2Graph_new :: Ngs2Graph where
  "Ngs2Graph_new = \<lparr>ng_voices = [], ng_nextVoiceId = 1, ng_sampleRate = 48000, ng_channels = 2,
     ng_portId = -1, ng_masterGain = f32_one, ng_running = False\<rparr>"

definition Ngs2Graph_initialize ::
  "int \<Rightarrow> int \<Rightarrow> AudioManager option \<Rightarrow> Ngs2Graph \<Rightarrow> bool \<times> AudioManager option \<times> Ngs2Graph" where
  "Ngs2Graph_initialize sampleRate channels am g =
     (if ng_running g then (True, am, g)
      else case am of
        None \<Rightarrow> (False, am, g)
      | Some a \<Rightarrow>
          let (p, a) = openPort channels sampleRate 512 a; g = g\<lparr>ng_portId := p\<rparr>
          in if p < 0 then (False, Some a, g)
             else (True, Some a, g\<lparr>ng_sampleRate := sampleRate, ng_channels := channels, ng_running := True\<rparr>))"

definition Ngs2Graph_shutdown :: "AudioManager option \<Rightarrow> Ngs2Graph \<Rightarrow> AudioManager option \<times> Ngs2Graph" where
  "Ngs2Graph_shutdown am g =
     (if \<not> ng_running g then (am, g)
      else (if ng_portId g \<ge> 0 then map_option (\<lambda>a. snd (closePort (ng_portId g) a)) am else am,
            g\<lparr>ng_running := False, ng_portId := -1, ng_voices := []\<rparr>))"

definition addVoice :: "Ngs2Graph \<Rightarrow> u32 \<times> Ngs2Graph" where
  "addVoice g = (ng_nextVoiceId g,
     g\<lparr>ng_nextVoiceId := ng_nextVoiceId g + 1, ng_voices := ng_voices g @ [Ngs2Voice_new (ng_nextVoiceId g)]\<rparr>)"

fun remove_voice :: "u32 \<Rightarrow> Ngs2Voice list \<Rightarrow> Ngs2Voice list option" where
  "remove_voice i [] = None"
| "remove_voice i (v # vs) = (if nv_id v = i then Some vs else map_option ((#) v) (remove_voice i vs))"

definition removeVoice :: "u32 \<Rightarrow> Ngs2Graph \<Rightarrow> bool \<times> Ngs2Graph" where
  "removeVoice i g =
     (case remove_voice i (ng_voices g) of None \<Rightarrow> (False, g) | Some vs \<Rightarrow> (True, g\<lparr>ng_voices := vs\<rparr>))"

definition voice :: "u32 \<Rightarrow> Ngs2Graph \<Rightarrow> Ngs2Voice option" where
  "voice i g = find (\<lambda>v. nv_id v = i) (ng_voices g)"

text \<open>A change through the pointer that \<open>voice\<close> returns.\<close>

fun put_voice :: "u32 \<Rightarrow> Ngs2Voice \<Rightarrow> Ngs2Voice list \<Rightarrow> Ngs2Voice list" where
  "put_voice i w [] = []"
| "put_voice i w (v # vs) = (if nv_id v = i then w # vs else v # put_voice i w vs)"

definition set_voice :: "u32 \<Rightarrow> Ngs2Voice \<Rightarrow> Ngs2Graph \<Rightarrow> Ngs2Graph" where
  "set_voice i w g = g\<lparr>ng_voices := put_voice i w (ng_voices g)\<rparr>"

definition playVoice :: "u32 \<Rightarrow> bool \<Rightarrow> Ngs2Graph \<Rightarrow> bool \<times> Ngs2Graph" where
  "playVoice i loop g =
     (case voice i g of
        None \<Rightarrow> (False, g)
      | Some v \<Rightarrow>
          if nv_pcm v = [] then (False, g)
          else (True, set_voice i (v\<lparr>nv_playing := True, nv_loop := loop,
                  nv_cursor := (if nv_cursor v \<ge> length (nv_pcm v) div 2 then 0 else nv_cursor v)\<rparr>) g))"

definition stopVoice :: "u32 \<Rightarrow> Ngs2Graph \<Rightarrow> bool \<times> Ngs2Graph" where
  "stopVoice i g =
     (case voice i g of
        None \<Rightarrow> (False, g)
      | Some v \<Rightarrow> (True, set_voice i (v\<lparr>nv_playing := False, nv_cursor := 0\<rparr>) g))"

fun pcm_of_bytes :: "u8 list \<Rightarrow> int list" where
  "pcm_of_bytes (a # b # bs) = sint (ucast a + 256 * ucast b :: u16) # pcm_of_bytes bs"
| "pcm_of_bytes _ = []"

text \<open>
  The samples are copied from guest memory. A length that the vector cannot take ends the program; it
  counts as undefined here, like the read that would follow.
\<close>

definition setVoicePcm :: "memory \<Rightarrow> u32 \<Rightarrow> u64 \<Rightarrow> u64 \<Rightarrow> Ngs2Graph \<Rightarrow> (bool \<times> Ngs2Graph) cpp" where
  "setVoicePcm m i data frames g =
     (case voice i g of
        None \<Rightarrow> Val (False, g)
      | Some v \<Rightarrow>
          if data = 0 then Val (False, g)
          else let samples = frames * word_of_int (ng_channels g)
               in if 2 ^ 62 \<le> samples then UB
                  else cpp_bind (load_bytes m data (unat (samples * 2))) (\<lambda>bs.
                         Val (True, set_voice i (v\<lparr>nv_pcm := pcm_of_bytes bs, nv_cursor := 0\<rparr>) g)))"

definition setVoiceGain :: "u32 \<Rightarrow> f32 \<Rightarrow> Ngs2Graph \<Rightarrow> bool \<times> Ngs2Graph" where
  "setVoiceGain i gain g =
     (case voice i g of
        None \<Rightarrow> (False, g)
      | Some v \<Rightarrow> (True, set_voice i (v\<lparr>nv_gain := f32_clamp gain (Fin False 0 0) (Fin False 8 0)\<rparr>) g))"

text \<open>\<open>cosf\<close> and \<open>sinf\<close> are the functions of the C library.\<close>

definition setVoicePan :: "(f32 \<Rightarrow> f32) \<Rightarrow> (f32 \<Rightarrow> f32) \<Rightarrow> u32 \<Rightarrow> f32 \<Rightarrow> Ngs2Graph \<Rightarrow> bool \<times> Ngs2Graph" where
  "setVoicePan cosf sinf i pan g =
     (case voice i g of
        None \<Rightarrow> (False, g)
      | Some v \<Rightarrow>
          let pan = f32_clamp pan (Fin True 1 0) f32_one;
              theta = f32_mul (f32_mul (f32_add pan f32_one) (Fin False 1 (-2))) (f32_of_bits 0x40490FDB)
          in (True, set_voice i (v\<lparr>nv_panLeft := cosf theta, nv_panRight := sinf theta\<rparr>) g))"

definition setMasterGain :: "f32 \<Rightarrow> Ngs2Graph \<Rightarrow> Ngs2Graph" where
  "setMasterGain gain g = g\<lparr>ng_masterGain := f32_clamp gain (Fin False 0 0) (Fin False 4 0)\<rparr>"

definition activeVoiceCount :: "Ngs2Graph \<Rightarrow> nat" where
  "activeVoiceCount g = length (filter nv_playing (ng_voices g))"

section \<open>Mixing\<close>

definition kBlockFrames :: nat where "kBlockFrames = 512"

text \<open>The frames of a voice that fill the rest of a block; an access past the samples is undefined.\<close>

fun voice_frames :: "nat \<Rightarrow> Ngs2Voice \<Rightarrow> ((int \<times> int) list \<times> Ngs2Voice) cpp" where
  "voice_frames 0 v = Val ([], v)"
| "voice_frames (Suc n) v =
     (let total = length (nv_pcm v) div 2
      in if nv_cursor v \<ge> total \<and> \<not> nv_loop v then Val (replicate (Suc n) (0, 0), v\<lparr>nv_playing := False\<rparr>)
         else let c = (if nv_cursor v \<ge> total then 0 else nv_cursor v)
              in if 2 * c + 1 < length (nv_pcm v) then
                   cpp_bind (voice_frames n (v\<lparr>nv_cursor := c + 1\<rparr>)) (\<lambda>(fs, v').
                     Val ((nv_pcm v ! (2 * c), nv_pcm v ! (2 * c + 1)) # fs, v'))
                 else UB)"

definition mix_sample :: "f32 \<Rightarrow> int \<Rightarrow> int \<Rightarrow> int cpp" where
  "mix_sample g acc x =
     cpp_bind (f32_to_int (f32_mul (f32_of_int x) g)) (\<lambda>t.
       if - (2 ^ 31) \<le> acc + t \<and> acc + t < 2 ^ 31 then Val (clampi (acc + t) (- 32768) 32767) else UB)"

fun mix_frames :: "f32 \<Rightarrow> f32 \<Rightarrow> (int \<times> int) list \<Rightarrow> (int \<times> int) list \<Rightarrow> (int \<times> int) list cpp" where
  "mix_frames gl gr ((l, r) # buf) ((x, y) # fs) =
     cpp_bind (mix_sample gl l x) (\<lambda>l. cpp_bind (mix_sample gr r y) (\<lambda>r.
       cpp_bind (mix_frames gl gr buf fs) (\<lambda>rest. Val ((l, r) # rest))))"
| "mix_frames gl gr buf fs = Val []"

fun mix_voices :: "Ngs2Voice list \<Rightarrow> (int \<times> int) list \<Rightarrow> ((int \<times> int) list \<times> Ngs2Voice list) cpp" where
  "mix_voices [] buf = Val (buf, [])"
| "mix_voices (v # vs) buf =
     (if \<not> nv_playing v \<or> nv_pcm v = [] then
        cpp_bind (mix_voices vs buf) (\<lambda>(buf, vs). Val (buf, v # vs))
      else
        cpp_bind (voice_frames kBlockFrames v) (\<lambda>(fs, v).
        cpp_bind (mix_frames (f32_mul (nv_gain v) (nv_panLeft v)) (f32_mul (nv_gain v) (nv_panRight v)) buf fs) (\<lambda>buf.
        cpp_bind (mix_voices vs buf) (\<lambda>(buf, vs). Val (buf, v # vs)))))"

definition master_sample :: "f32 \<Rightarrow> int \<Rightarrow> int cpp" where
  "master_sample mg s = cpp_bind (f32_to_int (f32_mul (f32_of_int s) mg)) (\<lambda>t. Val (clampi t (- 32768) 32767))"

fun master_frames :: "f32 \<Rightarrow> (int \<times> int) list \<Rightarrow> (int \<times> int) list cpp" where
  "master_frames mg [] = Val []"
| "master_frames mg ((l, r) # buf) =
     cpp_bind (master_sample mg l) (\<lambda>l. cpp_bind (master_sample mg r) (\<lambda>r.
       cpp_bind (master_frames mg buf) (\<lambda>rest. Val ((l, r) # rest))))"

definition mixer_block :: "Ngs2Graph \<Rightarrow> ((int \<times> int) list \<times> Ngs2Graph) cpp" where
  "mixer_block g =
     cpp_bind (mix_voices (ng_voices g) (replicate kBlockFrames (0, 0))) (\<lambda>(buf, vs).
     cpp_bind (if f32_eq (ng_masterGain g) f32_one then Val buf else master_frames (ng_masterGain g) buf) (\<lambda>buf.
       Val (buf, g\<lparr>ng_voices := vs\<rparr>)))"

definition frame_bytes :: "int \<times> int \<Rightarrow> u8 list" where
  "frame_bytes f = le_bytes 2 (word_of_int (fst f) :: u16) @ le_bytes 2 (word_of_int (snd f) :: u16)"

text \<open>One round of the thread: a block is mixed and put out on the graph's port.\<close>

definition mixer_round :: "AudioManager option \<Rightarrow> Ngs2Graph \<Rightarrow> (AudioManager option \<times> Ngs2Graph) cpp" where
  "mixer_round am g =
     (if \<not> ng_running g then Val (am, g)
      else cpp_bind (mixer_block g) (\<lambda>(buf, g).
        case am of
          None \<Rightarrow> Val (am, g)
        | Some a \<Rightarrow>
            if ng_portId g < 0 then Val (am, g)
            else cpp_bind (AudioManager_output (ng_portId g)
                   (Some (\<lambda>n. read_buffer (concat (map frame_bytes buf)) 0 n)) kBlockFrames a) (\<lambda>(_, a).
                   Val (Some a, g))))"

section \<open>What the mixer computes\<close>

text \<open>The stream of a voice: frame \<open>i\<close> from now on, silence after the end of a voice that does not loop.\<close>

definition voice_stream :: "Ngs2Voice \<Rightarrow> nat \<Rightarrow> int \<times> int" where
  "voice_stream v i =
     (let total = length (nv_pcm v) div 2; k = nv_cursor v + i; k = (if nv_loop v then k mod total else k)
      in if k < total then (nv_pcm v ! (2 * k), nv_pcm v ! (2 * k + 1)) else (0, 0))"

definition audible :: "Ngs2Voice \<Rightarrow> bool" where
  "audible v \<longleftrightarrow> nv_playing v \<and> nv_pcm v \<noteq> []"

text \<open>A sample times a gain, truncated.\<close>

definition scaled :: "f32 \<Rightarrow> int \<Rightarrow> int" where
  "scaled g x = (case f32_to_int (f32_mul (f32_of_int x) g) of Val t \<Rightarrow> t | UB \<Rightarrow> 0)"

definition saturate :: "int \<Rightarrow> int" where
  "saturate v = max (- 32768) (min 32767 v)"

definition add_voice :: "nat \<Rightarrow> int \<times> int \<Rightarrow> Ngs2Voice \<Rightarrow> int \<times> int" where
  "add_voice i acc v =
     (saturate (fst acc + scaled (f32_mul (nv_gain v) (nv_panLeft v)) (fst (voice_stream v i))),
      saturate (snd acc + scaled (f32_mul (nv_gain v) (nv_panRight v)) (snd (voice_stream v i))))"

definition mixed :: "Ngs2Voice list \<Rightarrow> nat \<Rightarrow> int \<times> int" where
  "mixed vs i = foldl (add_voice i) (0, 0) (filter audible vs)"

definition mastered :: "f32 \<Rightarrow> int \<Rightarrow> int" where
  "mastered mg x = (if f32_eq mg f32_one then x else saturate (scaled mg x))"

definition voice_ok :: "Ngs2Voice \<Rightarrow> bool" where
  "voice_ok v \<longleftrightarrow> even (length (nv_pcm v)) \<and> nv_cursor v \<le> length (nv_pcm v) div 2
     \<and> (\<forall>x \<in> set (nv_pcm v). \<bar>x\<bar> \<le> 32768)
     \<and> f32_le (nv_gain v) 8 \<and> f32_le (nv_panLeft v) 1 \<and> f32_le (nv_panRight v) 1"

definition sample_range :: "int \<Rightarrow> bool" where
  "sample_range x \<longleftrightarrow> - 32768 \<le> x \<and> x \<le> 32767"

lemma saturate_range: "sample_range (saturate v)"
  by (simp add: saturate_def sample_range_def)

lemma clampi_saturate: "clampi v (- 32768) 32767 = saturate v"
  by (simp add: clampi_def saturate_def)

lemma pcm_of_bytes_range: "x \<in> set (pcm_of_bytes bs) \<Longrightarrow> \<bar>x\<bar> \<le> 32768"
proof (induction bs rule: pcm_of_bytes.induct)
  case (1 a b bs)
  have "\<bar>sint w\<bar> \<le> 32768" for w :: u16
    using sint_ge [of w] sint_lt [of w] by simp
  with 1 show ?case by auto
qed auto

lemma pcm_of_bytes_length: "length (pcm_of_bytes bs) = length bs div 2"
  by (induction bs rule: pcm_of_bytes.induct) auto

subsection \<open>Frames\<close>

lemma voice_frames_stream:
  assumes "voice_ok v" and "nv_pcm v \<noteq> []"
  shows "\<exists>v'. voice_frames n v = Val (map (voice_stream v) [0..<n], v') \<and> voice_ok v' \<and> nv_id v' = nv_id v
    \<and> nv_gain v' = nv_gain v \<and> nv_panLeft v' = nv_panLeft v \<and> nv_panRight v' = nv_panRight v
    \<and> nv_pcm v' = nv_pcm v
    \<and> (\<forall>i. voice_stream v (n + i) = (if nv_playing v \<and> \<not> audible v' then (0, 0) else voice_stream v' i))"
  using assms
proof (induction n arbitrary: v)
  case 0
  then show ?case by (auto simp: audible_def)
next
  case (Suc n)
  let ?t = "length (nv_pcm v) div 2"
  have t: "0 < ?t" "even (length (nv_pcm v))" "nv_cursor v \<le> ?t"
    using Suc.prems by (auto simp: voice_ok_def elim!: evenE) (metis gr0I length_0_conv mult_0_right)
  show ?case
  proof (cases "nv_cursor v \<ge> ?t \<and> \<not> nv_loop v")
    case True
    then have s: "voice_stream v i = (0, 0)" for i by (simp add: voice_stream_def Let_def)
    then have "map (voice_stream v) [0..<Suc n] = replicate (Suc n) (0, 0)"
      by (intro nth_equalityI) (simp_all add: s del: upt_Suc replicate_Suc)
    moreover have "voice_stream (v\<lparr>nv_playing := False\<rparr>) i = (0, 0)" for i
      using True by (simp add: voice_stream_def Let_def)
    moreover have "voice_frames (Suc n) v = Val (replicate (Suc n) (0, 0), v\<lparr>nv_playing := False\<rparr>)"
      using True by (simp add: Let_def)
    moreover have "voice_stream v (Suc n + i) = (0, 0)" for i by (rule s)
    ultimately show ?thesis using Suc.prems
      by (intro exI [of _ "v\<lparr>nv_playing := False\<rparr>"]) (simp add: voice_ok_def audible_def del: upt_Suc voice_frames.simps replicate_Suc)
  next
    case False
    define c where "c = (if nv_cursor v \<ge> ?t then 0 else nv_cursor v)"
    let ?v = "v\<lparr>nv_cursor := c + 1\<rparr>"
    have c: "c < ?t" "2 * c + 1 < length (nv_pcm v)" using t by (auto simp: c_def)
    have "Suc (i + k) mod k = Suc i mod k" for k i :: nat by (metis add_Suc mod_add_self2)
    then have st: "voice_stream v (Suc i) = voice_stream ?v i" for i
      using False t by (auto simp: voice_stream_def Let_def c_def add.commute)
    have hd: "voice_stream v 0 = (nv_pcm v ! (2 * c), nv_pcm v ! (2 * c + 1))"
      using False t c by (auto simp: voice_stream_def Let_def c_def)
    have ok: "voice_ok ?v" using Suc.prems(1) c(1) by (simp add: voice_ok_def)
    from Suc.IH [OF ok] Suc.prems(2) obtain v' where
      v': "voice_frames n ?v = Val (map (voice_stream ?v) [0..<n], v')" "voice_ok v'" "nv_id v' = nv_id v"
        "nv_gain v' = nv_gain v" "nv_panLeft v' = nv_panLeft v" "nv_panRight v' = nv_panRight v" "nv_pcm v' = nv_pcm v"
        "\<forall>i. voice_stream ?v (n + i) = (if nv_playing v \<and> \<not> audible v' then (0, 0) else voice_stream v' i)"
      by auto
    have "map (voice_stream v) [0..<Suc n] = voice_stream v 0 # map (voice_stream ?v) [0..<n]"
      by (simp add: upt_conv_Cons map_Suc_upt [symmetric] st comp_def del: upt_Suc)
    then have "voice_frames (Suc n) v = Val (map (voice_stream v) [0..<Suc n], v')"
      using False c v'(1) hd by (auto simp: Let_def simp del: upt_Suc simp flip: c_def)
    with v' st show ?thesis by (auto simp del: upt_Suc voice_frames.simps)
  qed
qed

subsection \<open>Samples\<close>

lemma scaled_defined:
  assumes "\<bar>x\<bar> \<le> 32768" and "f32_le g 17"
  shows "f32_to_int (f32_mul (f32_of_int x) g) = Val (scaled g x)" and "\<bar>scaled g x\<bar> < 2 ^ 30"
proof -
  have "real_of_int \<bar>x\<bar> \<le> 32768" using assms(1) by linarith
  then have "f32_le (f32_of_int x) 65537"
    using f32_of_int_le [of x] assms(1) by (auto intro: f32_le_mono)
  from f32_mul_le [OF this assms(2)] have "f32_le (f32_mul (f32_of_int x) g) 2228259" by simp
  from f32_to_int_le [OF this] obtain v where
    v: "f32_to_int (f32_mul (f32_of_int x) g) = Val v" "\<bar>of_int v\<bar> \<le> (2228259 :: real)" by auto
  then show "f32_to_int (f32_mul (f32_of_int x) g) = Val (scaled g x)" by (simp add: scaled_def)
  from v(2) have "\<bar>v\<bar> \<le> 2228259" by linarith
  with v(1) show "\<bar>scaled g x\<bar> < 2 ^ 30" by (simp add: scaled_def)
qed

lemma mix_sample_defined:
  assumes "sample_range acc" and "\<bar>x\<bar> \<le> 32768" and "f32_le g 17"
  shows "mix_sample g acc x = Val (saturate (acc + scaled g x))"
proof -
  have "- (2 ^ 31) \<le> acc + scaled g x" "acc + scaled g x < 2 ^ 31"
    using assms(1) scaled_defined(2) [OF assms(2,3)] by (simp_all add: sample_range_def abs_less_iff)
  then show ?thesis by (simp add: mix_sample_def scaled_defined(1) [OF assms(2,3)] clampi_saturate)
qed

lemma mix_frames_defined:
  assumes "length buf = length fs" and "f32_le gl 17" and "f32_le gr 17"
    and "\<forall>(l, r) \<in> set buf. sample_range l \<and> sample_range r"
    and "\<forall>(x, y) \<in> set fs. \<bar>x\<bar> \<le> 32768 \<and> \<bar>y\<bar> \<le> 32768"
  shows "mix_frames gl gr buf fs =
    Val (map2 (\<lambda>(l, r) (x, y). (saturate (l + scaled gl x), saturate (r + scaled gr y))) buf fs)"
  using assms(1,4,5)
proof (induction buf fs rule: list_induct2)
  case (Cons f buf h fs)
  then show ?case by (cases f; cases h) (simp add: mix_sample_defined assms(2,3))
qed simp

lemma voice_stream_range: "voice_ok v \<Longrightarrow> \<bar>fst (voice_stream v i)\<bar> \<le> 32768 \<and> \<bar>snd (voice_stream v i)\<bar> \<le> 32768"
  by (auto simp: voice_ok_def voice_stream_def Let_def)

lemma voice_gain_le:
  assumes "voice_ok v"
  shows "f32_le (f32_mul (nv_gain v) (nv_panLeft v)) 17" and "f32_le (f32_mul (nv_gain v) (nv_panRight v)) 17"
  using assms f32_mul_le [of "nv_gain v" 8 _ 1] by (auto simp: voice_ok_def)

text \<open>One voice turns a buffer into the buffer with the voice's stream added.\<close>

lemma mix_voice_defined:
  assumes "voice_ok v" and "length buf = n" and "\<forall>(l, r) \<in> set buf. sample_range l \<and> sample_range r"
  shows "mix_frames (f32_mul (nv_gain v) (nv_panLeft v)) (f32_mul (nv_gain v) (nv_panRight v)) buf
      (map (voice_stream v) [0..<n]) = Val (map (\<lambda>i. add_voice i (buf ! i) v) [0..<n])"
proof -
  have "\<forall>(x, y) \<in> set (map (voice_stream v) [0..<n]). \<bar>x\<bar> \<le> 32768 \<and> \<bar>y\<bar> \<le> 32768"
    using voice_stream_range [OF assms(1)] by (auto simp: case_prod_beta)
  from mix_frames_defined [OF _ voice_gain_le [OF assms(1)] assms(3) this] assms(2) show ?thesis
    by (auto simp: add_voice_def case_prod_beta intro!: nth_equalityI)
qed

subsection \<open>Blocks\<close>

definition stream_goes_on :: "nat \<Rightarrow> Ngs2Voice \<Rightarrow> Ngs2Voice \<Rightarrow> bool" where
  "stream_goes_on n v v' \<longleftrightarrow> nv_id v' = nv_id v \<and> (audible v \<longrightarrow>
     (\<forall>i. voice_stream v (n + i) = (if audible v' then voice_stream v' i else (0, 0))))"

lemma mix_voices_defined:
  assumes "list_all voice_ok vs" and "length buf = kBlockFrames"
    and "\<forall>(l, r) \<in> set buf. sample_range l \<and> sample_range r"
  shows "\<exists>vs'. mix_voices vs buf =
        Val (map (\<lambda>i. foldl (add_voice i) (buf ! i) (filter audible vs)) [0..<kBlockFrames], vs')
      \<and> list_all voice_ok vs' \<and> list_all2 (stream_goes_on kBlockFrames) vs vs'"
  using assms
proof (induction vs arbitrary: buf)
  case Nil
  then show ?case by (auto simp: intro!: nth_equalityI)
next
  case (Cons v vs)
  show ?case
  proof (cases "audible v")
    case False
    from Cons.IH [OF _ Cons.prems(2,3)] Cons.prems(1) obtain vs' where
      vs': "mix_voices vs buf = Val (map (\<lambda>i. foldl (add_voice i) (buf ! i) (filter audible vs)) [0..<kBlockFrames], vs')"
        "list_all voice_ok vs'" "list_all2 (stream_goes_on kBlockFrames) vs vs'" by auto
    moreover have "stream_goes_on kBlockFrames v v" using False by (simp add: stream_goes_on_def)
    moreover from False vs'(1) have "mix_voices (v # vs) buf =
      Val (map (\<lambda>i. foldl (add_voice i) (buf ! i) (filter audible vs)) [0..<kBlockFrames], v # vs')"
      by (simp add: audible_def)
    ultimately show ?thesis using Cons.prems(1) False by auto
  next
    case True
    from Cons.prems(1) have ok: "voice_ok v" "list_all voice_ok vs" by simp_all
    from voice_frames_stream [OF ok(1), of kBlockFrames] True obtain v' where
      v': "voice_frames kBlockFrames v = Val (map (voice_stream v) [0..<kBlockFrames], v')" "voice_ok v'"
        "nv_id v' = nv_id v" "nv_gain v' = nv_gain v" "nv_panLeft v' = nv_panLeft v" "nv_panRight v' = nv_panRight v"
        "\<forall>i. voice_stream v (kBlockFrames + i) = (if nv_playing v \<and> \<not> audible v' then (0, 0) else voice_stream v' i)"
      by (auto simp: audible_def)
    let ?buf = "map (\<lambda>i. add_voice i (buf ! i) v) [0..<kBlockFrames]"
    have "\<forall>(l, r) \<in> set ?buf. sample_range l \<and> sample_range r"
      by (auto simp: add_voice_def saturate_range)
    from Cons.IH [OF ok(2) _ this] obtain vs' where
      vs': "mix_voices vs ?buf = Val (map (\<lambda>i. foldl (add_voice i) (?buf ! i) (filter audible vs)) [0..<kBlockFrames], vs')"
        "list_all voice_ok vs'" "list_all2 (stream_goes_on kBlockFrames) vs vs'" by auto
    have "stream_goes_on kBlockFrames v v'" using v'(3,7) True by (auto simp: stream_goes_on_def audible_def)
    moreover have "mix_voices (v # vs) buf =
        Val (map (\<lambda>i. foldl (add_voice i) (?buf ! i) (filter audible vs)) [0..<kBlockFrames], v' # vs')"
      using True v'(1,4-6) vs'(1) mix_voice_defined [OF ok(1) Cons.prems(2,3)] by (simp add: audible_def)
    ultimately show ?thesis using True v'(2) vs'(2,3) by (auto cong: map_cong)
  qed
qed

lemma master_frames_defined:
  assumes "f32_le mg 4" and "\<forall>(l, r) \<in> set buf. sample_range l \<and> sample_range r"
  shows "master_frames mg buf = Val (map (\<lambda>(l, r). (saturate (scaled mg l), saturate (scaled mg r))) buf)"
proof -
  have "master_sample mg s = Val (saturate (scaled mg s))" if "sample_range s" for s
  proof -
    from that have "\<bar>s\<bar> \<le> 32768" by (simp add: sample_range_def abs_le_iff)
    from scaled_defined(1) [OF this] f32_le_mono [OF assms(1), of 17] show ?thesis
      by (simp add: master_sample_def clampi_saturate)
  qed
  with assms(2) show ?thesis by (induction mg buf rule: master_frames.induct) auto
qed

definition graph_ok :: "Ngs2Graph \<Rightarrow> bool" where
  "graph_ok g \<longleftrightarrow> list_all voice_ok (ng_voices g) \<and> f32_le (ng_masterGain g) 4 \<and> ng_channels g = 2"

lemma mixed_range: "sample_range (fst (mixed vs i)) \<and> sample_range (snd (mixed vs i))"
proof -
  have "sample_range (fst (foldl (add_voice i) acc vs)) \<and> sample_range (snd (foldl (add_voice i) acc vs))"
    if "sample_range (fst acc)" "sample_range (snd acc)" for acc vs
    using that by (induction vs arbitrary: acc) (simp_all add: add_voice_def saturate_range)
  then show ?thesis by (simp add: mixed_def sample_range_def)
qed

lemma mixer_block_defined:
  assumes "graph_ok g"
  shows "\<exists>vs'. mixer_block g =
      Val (map (\<lambda>i. map_prod (mastered (ng_masterGain g)) (mastered (ng_masterGain g)) (mixed (ng_voices g) i))
             [0..<kBlockFrames], g\<lparr>ng_voices := vs'\<rparr>)
      \<and> list_all voice_ok vs' \<and> list_all2 (stream_goes_on kBlockFrames) (ng_voices g) vs'"
proof -
  let ?m = "map (mixed (ng_voices g)) [0..<kBlockFrames]"
  from assms have vs: "list_all voice_ok (ng_voices g)" and mg: "f32_le (ng_masterGain g) 4"
    by (simp_all add: graph_ok_def)
  have "\<forall>(l, r) \<in> set (replicate kBlockFrames (0 :: int, 0 :: int)). sample_range l \<and> sample_range r"
    by (simp add: sample_range_def)
  from mix_voices_defined [OF vs _ this] obtain vs' where
    vs': "mix_voices (ng_voices g) (replicate kBlockFrames (0, 0)) = Val (?m, vs')"
      "list_all voice_ok vs'" "list_all2 (stream_goes_on kBlockFrames) (ng_voices g) vs'"
    by (auto simp: mixed_def cong: map_cong)
  have "\<forall>(l, r) \<in> set ?m. sample_range l \<and> sample_range r" using mixed_range by (auto simp: case_prod_beta)
  from master_frames_defined [OF mg this] vs' show ?thesis
    by (auto simp: mixer_block_def mastered_def case_prod_beta map_prod_def)
qed

section \<open>The library\<close>

datatype ObjectKind = OkRack | OkVoice | OkUnknown

record ngs2 =
  n2_graph :: Ngs2Graph
  n2_objects :: "(u64, ObjectKind \<times> u32) umap"
  n2_next :: u64

definition n2_allocateHandle :: "ObjectKind \<Rightarrow> u32 \<Rightarrow> ngs2 \<Rightarrow> u64 \<times> ngs2" where
  "n2_allocateHandle k voiceId s =
     (n2_next s, s\<lparr>n2_next := n2_next s + 1, n2_objects := um_assign (n2_next s) (k, voiceId) (n2_objects s)\<rparr>)"

definition n2_lookupHandle :: "u64 \<Rightarrow> ngs2 \<Rightarrow> (ObjectKind \<times> u32) option" where
  "n2_lookupHandle h s = um_find (n2_objects s) h"

definition n2_voice :: "u64 \<Rightarrow> ngs2 \<Rightarrow> u32 option" where
  "n2_voice h s = (case n2_lookupHandle h s of Some (OkVoice, vid) \<Rightarrow> Some vid | _ \<Rightarrow> None)"

definition sceNgs2SystemCreateWithAllocator :: "memory \<Rightarrow> u64 \<Rightarrow> ngs2 \<Rightarrow> (u32 \<times> ngs2 \<times> memory) cpp" where
  "sceNgs2SystemCreateWithAllocator m outHandle s =
     (if outHandle = 0 then Val (kAuErrInvalidArg, s, m)
      else let (h, s) = n2_allocateHandle OkRack 0 s
           in cpp_bind (store_u64 outHandle h m) (\<lambda>m. Val (0, s, m)))"

definition sceNgs2SystemDestroy :: "u64 \<Rightarrow> ngs2 \<Rightarrow> u32 \<times> ngs2" where
  "sceNgs2SystemDestroy handle s = (0, s\<lparr>n2_objects := um_erase handle (n2_objects s)\<rparr>)"

definition sceNgs2RackCreate :: "memory \<Rightarrow> u64 \<Rightarrow> ngs2 \<Rightarrow> (u32 \<times> ngs2 \<times> memory) cpp" where
  "sceNgs2RackCreate m outRack s =
     (if outRack = 0 then Val (kAuErrInvalidArg, s, m)
      else let (h, s) = n2_allocateHandle OkRack 0 s
           in cpp_bind (store_u64 outRack h m) (\<lambda>m. Val (0, s, m)))"

definition sceNgs2RackDestroy :: "u64 \<Rightarrow> ngs2 \<Rightarrow> u32 \<times> ngs2" where
  "sceNgs2RackDestroy rack s = (0, s\<lparr>n2_objects := um_erase rack (n2_objects s)\<rparr>)"

definition sceNgs2VoiceCreate :: "memory \<Rightarrow> u64 \<Rightarrow> ngs2 \<Rightarrow> (u32 \<times> ngs2 \<times> memory) cpp" where
  "sceNgs2VoiceCreate m outVoice s =
     (if outVoice = 0 then Val (kAuErrInvalidArg, s, m)
      else let (vid, g) = addVoice (n2_graph s); s = s\<lparr>n2_graph := g\<rparr>
           in if vid = 0 then Val (kAuErrNoMemory, s, m)
              else let (h, s) = n2_allocateHandle OkVoice vid s
                   in cpp_bind (store_u64 outVoice h m) (\<lambda>m. Val (0, s, m)))"

definition sceNgs2VoiceDestroy :: "u64 \<Rightarrow> ngs2 \<Rightarrow> u32 \<times> ngs2" where
  "sceNgs2VoiceDestroy h s =
     (case n2_lookupHandle h s of
        None \<Rightarrow> (kAuErrNotFound, s)
      | Some (k, vid) \<Rightarrow>
          let s = (if k = OkVoice then s\<lparr>n2_graph := snd (removeVoice vid (n2_graph s))\<rparr> else s)
          in (0, s\<lparr>n2_objects := um_erase h (n2_objects s)\<rparr>))"

definition sceNgs2VoiceControl ::
  "(f32 \<Rightarrow> f32) \<Rightarrow> (f32 \<Rightarrow> f32) \<Rightarrow> memory \<Rightarrow> u64 \<Rightarrow> u32 \<Rightarrow> u64 \<Rightarrow> u64 \<Rightarrow> ngs2 \<Rightarrow> (u32 \<times> ngs2) cpp" where
  "sceNgs2VoiceControl cosf sinf m h controlId val valueSize s =
     (case n2_voice h s of
        None \<Rightarrow> Val (kAuErrNotFound, s)
      | Some vid \<Rightarrow>
          if val = 0 then Val (kAuErrInvalidArg, s)
          else if controlId = 0 then
            if valueSize < 4 then Val (kAuErrInvalidArg, s)
            else cpp_bind (load_u32 m val) (\<lambda>w.
                   Val (0, s\<lparr>n2_graph := snd (setVoiceGain vid (f32_of_bits w) (n2_graph s))\<rparr>))
          else if controlId = 1 then
            if valueSize < 4 then Val (kAuErrInvalidArg, s)
            else cpp_bind (load_u32 m val) (\<lambda>w.
                   Val (0, s\<lparr>n2_graph := snd (setVoicePan cosf sinf vid (f32_of_bits w) (n2_graph s))\<rparr>))
          else if controlId = 0x10 then
            if valueSize < 16 then Val (kAuErrInvalidArg, s)
            else cpp_bind (load_u64 m val) (\<lambda>ptr. cpp_bind (load_u64 m (val + 8)) (\<lambda>frames.
                   if ptr = 0 \<or> frames = 0 then Val (kAuErrInvalidArg, s)
                   else cpp_bind (setVoicePcm m vid ptr frames (n2_graph s)) (\<lambda>(_, g).
                          Val (0, s\<lparr>n2_graph := g\<rparr>))))
          else Val (kAuErrNotSupport, s))"

definition sceNgs2VoicePlay :: "u64 \<Rightarrow> bool \<Rightarrow> ngs2 \<Rightarrow> u32 \<times> ngs2" where
  "sceNgs2VoicePlay h loop s =
     (case n2_voice h s of
        None \<Rightarrow> (kAuErrNotFound, s)
      | Some vid \<Rightarrow> let (ok, g) = playVoice vid loop (n2_graph s)
                     in (if ok then 0 else kAuErrInvalidArg, s\<lparr>n2_graph := g\<rparr>))"

definition sceNgs2VoiceStop :: "u64 \<Rightarrow> ngs2 \<Rightarrow> u32 \<times> ngs2" where
  "sceNgs2VoiceStop h s =
     (case n2_voice h s of
        None \<Rightarrow> (kAuErrNotFound, s)
      | Some vid \<Rightarrow> let (ok, g) = stopVoice vid (n2_graph s)
                     in (if ok then 0 else kAuErrInvalidArg, s\<lparr>n2_graph := g\<rparr>))"

definition sceNgs2RackSetGain :: "f32 \<Rightarrow> ngs2 \<Rightarrow> u32 \<times> ngs2" where
  "sceNgs2RackSetGain gain s = (0, s\<lparr>n2_graph := setMasterGain gain (n2_graph s)\<rparr>)"

section \<open>Runs\<close>

text \<open>The calls of the guest, each with the memory it finds, and the rounds of the mixer thread.\<close>

datatype n2_op =
    NoSystem u64 | NoSystemDestroy u64 | NoRack u64 | NoRackDestroy u64 | NoVoice u64 | NoVoiceDestroy u64
  | NoControl u64 u32 u64 u64 | NoPlay u64 bool | NoStop u64 | NoGain f32 | NoMix

definition n2_result :: "(u32 \<times> ngs2 \<times> memory) cpp \<Rightarrow> ngs2 cpp" where
  "n2_result r = cpp_bind r (\<lambda>x. Val (fst (snd x)))"

fun n2_step :: "(f32 \<Rightarrow> f32) \<Rightarrow> (f32 \<Rightarrow> f32) \<Rightarrow> memory \<times> n2_op \<Rightarrow> ngs2 \<Rightarrow> ngs2 cpp" where
  "n2_step cosf sinf (m, NoSystem out) s = n2_result (sceNgs2SystemCreateWithAllocator m out s)"
| "n2_step cosf sinf (m, NoSystemDestroy h) s = Val (snd (sceNgs2SystemDestroy h s))"
| "n2_step cosf sinf (m, NoRack out) s = n2_result (sceNgs2RackCreate m out s)"
| "n2_step cosf sinf (m, NoRackDestroy h) s = Val (snd (sceNgs2RackDestroy h s))"
| "n2_step cosf sinf (m, NoVoice out) s = n2_result (sceNgs2VoiceCreate m out s)"
| "n2_step cosf sinf (m, NoVoiceDestroy h) s = Val (snd (sceNgs2VoiceDestroy h s))"
| "n2_step cosf sinf (m, NoControl h c a n) s =
     cpp_bind (sceNgs2VoiceControl cosf sinf m h c a n s) (\<lambda>r. Val (snd r))"
| "n2_step cosf sinf (m, NoPlay h loop) s = Val (snd (sceNgs2VoicePlay h loop s))"
| "n2_step cosf sinf (m, NoStop h) s = Val (snd (sceNgs2VoiceStop h s))"
| "n2_step cosf sinf (m, NoGain g) s = Val (snd (sceNgs2RackSetGain g s))"
| "n2_step cosf sinf (m, NoMix) s = cpp_bind (mixer_block (n2_graph s)) (\<lambda>r. Val (s\<lparr>n2_graph := snd r\<rparr>))"

fun n2_run :: "(f32 \<Rightarrow> f32) \<Rightarrow> (f32 \<Rightarrow> f32) \<Rightarrow> (memory \<times> n2_op) list \<Rightarrow> ngs2 \<Rightarrow> ngs2 cpp" where
  "n2_run cosf sinf [] s = Val s"
| "n2_run cosf sinf (c # cs) s = cpp_bind (n2_step cosf sinf c s) (n2_run cosf sinf cs)"

definition ngs2_start :: ngs2 where
  "ngs2_start = \<lparr>n2_graph = Ngs2Graph_new, n2_objects = [], n2_next = 1\<rparr>"

text \<open>The gains and pans that a call sets are numbers.\<close>

fun n2_numeric :: "memory \<times> n2_op \<Rightarrow> bool" where
  "n2_numeric (m, NoControl h c a n) \<longleftrightarrow>
     c = 0 \<or> c = 1 \<longrightarrow> (case load_u32 m a of Val w \<Rightarrow> f32_of_bits w \<noteq> NaN | UB \<Rightarrow> True)"
| "n2_numeric (m, NoGain g) \<longleftrightarrow> f32_number g"
| "n2_numeric _ \<longleftrightarrow> True"

subsection \<open>The graph stays well formed\<close>

lemma find_voice_ok: "graph_ok g \<Longrightarrow> voice i g = Some v \<Longrightarrow> voice_ok v"
  by (auto simp: graph_ok_def voice_def find_Some_iff list_all_length)

lemma set_voice_ok: "graph_ok g \<Longrightarrow> voice_ok w \<Longrightarrow> graph_ok (set_voice i w g)"
proof -
  have "list_all voice_ok vs \<Longrightarrow> voice_ok w \<Longrightarrow> list_all voice_ok (put_voice i w vs)" for vs
    by (induction vs) simp_all
  then show "graph_ok g \<Longrightarrow> voice_ok w \<Longrightarrow> graph_ok (set_voice i w g)"
    by (simp add: graph_ok_def set_voice_def)
qed

lemma change_voice_ok:
  "graph_ok g \<Longrightarrow> voice i g = Some v \<Longrightarrow> (voice_ok v \<Longrightarrow> voice_ok w) \<Longrightarrow> graph_ok (set_voice i w g)"
  by (blast intro: set_voice_ok find_voice_ok)

lemma remove_voice_ok: "remove_voice i vs = Some vs' \<Longrightarrow> list_all voice_ok vs \<Longrightarrow> list_all voice_ok vs'"
  by (induction vs arbitrary: vs') (auto split: if_splits)

lemma f32_one_le: "f32_le f32_one 1"
  by (simp add: f32_abs_def)

lemma new_voice_ok: "voice_ok (Ngs2Voice_new i)"
  using f32_one_le f32_le_mono [OF f32_one_le, of 8] by (simp add: voice_ok_def Ngs2Voice_new_def)

lemma gain_clamp_le: "f32_number x \<Longrightarrow> 0 \<le> k \<Longrightarrow> f32_le (f32_clamp x (Fin False 0 0) (Fin False k 0)) (of_int k)"
  by (rule f32_clamp_le) (simp_all add: f32_abs_def)

lemma pan_theta_le:
  assumes "f32_number x"
  shows "f32_le (f32_mul (f32_mul (f32_add (f32_clamp x (Fin True 1 0) f32_one) f32_one) (Fin False 1 (-2)))
    (f32_of_bits 0x40490FDB)) 29"
proof -
  have "f32_le (f32_clamp x (Fin True 1 0) f32_one) 1"
    by (rule f32_clamp_le [OF assms]) (simp_all add: f32_abs_def)
  from f32_add_le [OF this f32_one_le] have a: "f32_le (f32_add (f32_clamp x (Fin True 1 0) f32_one) f32_one) 5" by simp
  have "f32_le (Fin False 1 (-2)) (1 / 4)" by (simp add: f32_abs_def power_int_def power2_eq_square)
  from f32_mul_le [OF a this]
  have b: "f32_le (f32_mul (f32_add (f32_clamp x (Fin True 1 0) f32_one) f32_one) (Fin False 1 (-2))) (7 / 2)" by simp
  have "f32_of_bits 0x40490FDB = Fin False 13176795 (-22)" by (simp add: f32_of_bits_def)
  then have "f32_le (f32_of_bits 0x40490FDB) 4" by (simp add: f32_abs_def power_int_def field_simps)
  from f32_mul_le [OF b this] show ?thesis by simp
qed

lemma voice_control_ok:
  assumes "graph_ok (n2_graph s)" and "n2_numeric (m, NoControl h c a n)"
    and "\<And>x. f32_le x 29 \<Longrightarrow> f32_le (cosf x) 1 \<and> f32_le (sinf x) 1"
    and "sceNgs2VoiceControl cosf sinf m h c a n s = Val (rc, s')"
  shows "graph_ok (n2_graph s')"
proof -
  have num: "f32_number (f32_of_bits w)" if "load_u32 m a = Val w" "c = 0 \<or> c = 1" for w
    using assms(2) that f32_of_bits_number [of w] by simp
  have "graph_ok (snd (setVoiceGain vid x (n2_graph s)))" if "f32_number x" for vid x
    using gain_clamp_le [OF that, of 8] assms(1)
    by (auto simp: setVoiceGain_def voice_ok_def split: option.splits intro!: change_voice_ok)
  moreover have "graph_ok (snd (setVoicePan cosf sinf vid x (n2_graph s)))" if "f32_number x" for vid x
    using assms(3) [OF pan_theta_le [OF that]] assms(1)
    by (auto simp: setVoicePan_def Let_def voice_ok_def split: option.splits intro!: change_voice_ok)
  moreover have "graph_ok g" if "setVoicePcm m vid p k (n2_graph s) = Val (b, g)" for vid p k b g
  proof -
    have ch: "ng_channels (n2_graph s) = 2" using assms(1) by (simp add: graph_ok_def)
    have "even (unat (k * 2 * 2) div 2)" if "\<not> 2 ^ 62 \<le> k * 2" for k :: u64
    proof -
      from that have "unat (k * 2) < 2 ^ 62" by (simp add: word_less_nat_alt not_le)
      then have "unat (k * 2 * 2) = unat (k * 2) * 2" by (subst unat_mult_lem [THEN iffD1]) simp_all
      moreover have "even (unat (k * 2))" by (simp add: unat_word_ariths(2) dvd_mod)
      ultimately show ?thesis by simp
    qed
    with that assms(1) ch show ?thesis
      by (auto simp: setVoicePcm_def Let_def cpp_bind_eq_Val_iff voice_ok_def pcm_of_bytes_length pcm_of_bytes_range
          load_bytes_eq_Val split: option.splits if_splits intro!: change_voice_ok)
  qed
  ultimately show ?thesis using assms(1,4) num
    by (auto simp: sceNgs2VoiceControl_def cpp_bind_eq_Val_iff split: option.splits if_splits)
qed

lemma n2_step_ok:
  assumes "graph_ok (n2_graph s)" and "n2_numeric c"
    and "\<And>x. f32_le x 29 \<Longrightarrow> f32_le (cosf x) 1 \<and> f32_le (sinf x) 1"
    and "n2_step cosf sinf c s = Val s'"
  shows "graph_ok (n2_graph s')"
proof -
  obtain m op where c: "c = (m, op)" by (cases c)
  have add: "graph_ok (snd (addVoice (n2_graph s)))"
    using assms(1) new_voice_ok by (simp add: addVoice_def graph_ok_def)
  show ?thesis
  proof (cases op)
    case NoMix
    with assms(4) c mixer_block_defined [OF assms(1)] assms(1) show ?thesis
      by (auto simp: cpp_bind_eq_Val_iff graph_ok_def)
  next
    case (NoControl h k a n)
    with assms(4) c obtain rc where "sceNgs2VoiceControl cosf sinf m h k a n s = Val (rc, s')"
      by (auto simp: cpp_bind_eq_Val_iff)
    from voice_control_ok [OF assms(1) _ assms(3) this] assms(2) c NoControl show ?thesis by simp
  next
    case (NoGain g)
    with assms c gain_clamp_le [of g 4] show ?thesis
      by (auto simp: sceNgs2RackSetGain_def setMasterGain_def graph_ok_def)
  next
    case (NoPlay h loop)
    have "graph_ok (snd (playVoice vid loop (n2_graph s)))" for vid
      using assms(1) by (auto simp: playVoice_def voice_ok_def split: option.splits intro!: change_voice_ok)
    with NoPlay assms(1,4) c show ?thesis
      by (auto simp: sceNgs2VoicePlay_def split: option.splits prod.splits) (metis snd_conv)
  next
    case (NoStop h)
    have "graph_ok (snd (stopVoice vid (n2_graph s)))" for vid
      using assms(1) by (auto simp: stopVoice_def voice_ok_def split: option.splits intro!: change_voice_ok)
    with NoStop assms(1,4) c show ?thesis
      by (auto simp: sceNgs2VoiceStop_def split: option.splits prod.splits) (metis snd_conv)
  next
    case (NoVoiceDestroy h)
    have "graph_ok (snd (removeVoice vid (n2_graph s)))" for vid
      using assms(1) by (auto simp: removeVoice_def graph_ok_def split: option.splits dest: remove_voice_ok)
    with NoVoiceDestroy assms(1,4) c show ?thesis
      by (auto simp: sceNgs2VoiceDestroy_def Let_def split: option.splits)
  next
    case (NoVoice out)
    with assms(1,4) c add show ?thesis
      by (auto simp: sceNgs2VoiceCreate_def n2_allocateHandle_def n2_result_def addVoice_def cpp_bind_eq_Val_iff
          Let_def split: if_splits)
  qed (use assms(1,4) c in \<open>auto simp: sceNgs2SystemCreateWithAllocator_def sceNgs2RackCreate_def n2_result_def
      n2_allocateHandle_def sceNgs2SystemDestroy_def sceNgs2RackDestroy_def cpp_bind_eq_Val_iff split: if_splits\<close>)
qed

lemma n2_run_ok:
  assumes "list_all n2_numeric cs"
    and "\<And>x. f32_le x 29 \<Longrightarrow> f32_le (cosf x) 1 \<and> f32_le (sinf x) 1"
    and "n2_run cosf sinf cs s = Val s'" and "graph_ok (n2_graph s)"
  shows "graph_ok (n2_graph s')"
  using assms(1,3,4)
  by (induction cs arbitrary: s) (auto simp: cpp_bind_eq_Val_iff dest: n2_step_ok [OF _ _ assms(2)])

lemma ngs2_start_ok: "graph_ok (n2_graph ngs2_start)"
  using f32_le_mono [OF f32_one_le, of 4] by (simp add: graph_ok_def ngs2_start_def Ngs2Graph_new_def)

text \<open>
  C24. The mixer is a saturating sum. After every sequence of calls of the guest and rounds of the
  mixer thread, with gains and pans that are numbers and a cosine and sine between -1 and 1, the
  next round is defined: no access leaves the samples and no conversion overflows. Frame
  \<open>i\<close> of its 512 frames is the saturating sum of frame \<open>i\<close> of the streams of the audible voices, times
  the master gain, and each voice goes on in the next block where its stream stopped in this one.
\<close>

theorem mixer_equals_reference:
  assumes "\<And>x. f32_le x 29 \<Longrightarrow> f32_le (cosf x) 1 \<and> f32_le (sinf x) 1"
    and "list_all n2_numeric cs" and "n2_run cosf sinf cs ngs2_start = Val s"
  shows "\<exists>vs'. mixer_block (n2_graph s) =
      Val (map (\<lambda>i. map_prod (mastered (ng_masterGain (n2_graph s))) (mastered (ng_masterGain (n2_graph s)))
                 (mixed (ng_voices (n2_graph s)) i)) [0..<kBlockFrames], n2_graph s\<lparr>ng_voices := vs'\<rparr>)
    \<and> list_all2 (stream_goes_on kBlockFrames) (ng_voices (n2_graph s)) vs'"
  using mixer_block_defined [OF n2_run_ok [OF assms(2,1,3) ngs2_start_ok]] by blast

definition mixer_memory :: memory where
  "mixer_memory a = (if a < 0x1000 \<or> 0x1100 \<le> a then None
     else Some (if a = 0x1010 then 0x40 else if a = 0x1011 then 0x10 else if a = 0x1018 then 2
       else if a = 0x1040 then 7 else 0))"

theorem mixer_equals_reference_witness:
  "\<exists>s vs'. n2_run (\<lambda>_. f32_one) (\<lambda>_. Fin False 0 0)
        [(mixer_memory, NoVoice 0x1000), (mixer_memory, NoControl 1 0x10 0x1010 16), (mixer_memory, NoControl 1 1 0x1080 4),
         (mixer_memory, NoPlay 1 True)] ngs2_start = Val s
     \<and> map nv_pcm (ng_voices (n2_graph s)) = [[7, 0, 0, 0]] \<and> activeVoiceCount (n2_graph s) = 1
     \<and> mixer_block (n2_graph s) =
      Val (map (\<lambda>i. map_prod (mastered (ng_masterGain (n2_graph s))) (mastered (ng_masterGain (n2_graph s)))
                 (mixed (ng_voices (n2_graph s)) i)) [0..<kBlockFrames], n2_graph s\<lparr>ng_voices := vs'\<rparr>)"
proof -
  let ?cs = "[(mixer_memory, NoVoice 0x1000), (mixer_memory, NoControl 1 0x10 0x1010 16), (mixer_memory, NoControl 1 1 0x1080 4),
         (mixer_memory, NoPlay 1 True)]"
  have "case n2_run (\<lambda>_. f32_one) (\<lambda>_. Fin False 0 0) ?cs ngs2_start of UB \<Rightarrow> False
     | Val s \<Rightarrow> map nv_pcm (ng_voices (n2_graph s)) = [[7, 0, 0, 0]] \<and> activeVoiceCount (n2_graph s) = 1" by code_simp
  then obtain s where s: "n2_run (\<lambda>_. f32_one) (\<lambda>_. Fin False 0 0) ?cs ngs2_start = Val s"
    "map nv_pcm (ng_voices (n2_graph s)) = [[7, 0, 0, 0]]" "activeVoiceCount (n2_graph s) = 1" by (auto split: cpp.splits)
  have "list_all n2_numeric ?cs" by code_simp
  from mixer_equals_reference [OF _ this s(1)] f32_one_le s show ?thesis by (auto simp: f32_abs_def)
qed

text \<open>\<^verbatim>\<open>std::clamp\<close> lets a NaN pass, and the mixer's conversion of its product is undefined.\<close>

theorem nan_gain_breaks_mixer:
  assumes "voice i g = Some v" and "ng_voices g = [v]"
    and "playVoice i loop (snd (setVoiceGain i NaN g)) = (True, g')"
  shows "mixer_block g' = UB"
proof -
  from assms(1,2) have i: "nv_id v = i" by (auto simp: voice_def split: if_splits)
  obtain w where g': "ng_voices g' = [w]" "nv_gain w = NaN" "nv_playing w" "nv_pcm w \<noteq> []"
    using assms i by (auto simp: setVoiceGain_def f32_clamp_def set_voice_def playVoice_def voice_def split: if_splits)
  show ?thesis
  proof (cases "voice_frames kBlockFrames w")
    case UB
    with g' show ?thesis by (simp add: mixer_block_def)
  next
    case (Val r)
    obtain fs w' where r: "r = (fs, w')" by (cases r)
    have gain: "voice_frames n v = Val (fs, v') \<Longrightarrow> nv_gain v' = nv_gain v \<and> length fs = n" for n v v' fs
      by (induction n v arbitrary: v' fs rule: voice_frames.induct) (auto simp: Let_def cpp_bind_eq_Val_iff split: if_splits)
    have "f32_mul (f32_mul x NaN) y = NaN" "f32_mul x NaN = NaN" "f32_mul NaN x = NaN" for x y by (cases x; simp; fail)+
    then have "mix_frames (f32_mul NaN a) (f32_mul NaN b) (replicate 512 (0, 0)) fs = UB" if "length fs = 512" for a b fs
      using that by (cases fs) (auto simp: mix_sample_def numeral_eq_Suc)
    with gain [of kBlockFrames w fs w'] Val r g' show ?thesis
      by (simp add: mixer_block_def kBlockFrames_def)
  qed
qed

text \<open>The graph takes the only port there is: from then on the guest cannot open one of its own.\<close>

theorem ngs2_takes_the_port:
  assumes "Ngs2Graph_initialize 48000 2 (Some am) Ngs2Graph_new = (True, Some am', g)"
  shows "ao_manager s = am' \<Longrightarrow> len \<noteq> 0 \<Longrightarrow> freq \<noteq> 0 \<Longrightarrow> fst (sceAudioOutOpen len freq s) = kAuErrNoMemory"
proof -
  from assms have "list_ex po_open (am_ports am')"
    by (auto simp: Ngs2Graph_initialize_def Ngs2Graph_new_def openPort_def Let_def split: if_splits)
  then show "ao_manager s = am' \<Longrightarrow> len \<noteq> 0 \<Longrightarrow> freq \<noteq> 0 \<Longrightarrow> fst (sceAudioOutOpen len freq s) = kAuErrNoMemory"
    by (simp add: sceAudioOutOpen_def openPort_def Let_def)
qed

end
