(* ===== verification/Input.thy ===== *)
theory Input
  imports Handles Guest_Words "HOL-Library.Multiset"
begin

unbundle bit_operations_syntax

text \<open>
  Game controllers (\<^verbatim>\<open>input/InputManager.cpp\<close>) and libScePad (\<^verbatim>\<open>sce/pad/ScePad.cpp\<close>). What SDL reports
  (attached devices, hot-plug events, buttons, axes and keys) is an argument; the controllers
  that are opened and closed are logged as acquired and released resources.
\<close>

section \<open>Pad data\<close>

record PadData =
  pd_buttons :: u32
  pd_leftStickX :: u8
  pd_leftStickY :: u8
  pd_rightStickX :: u8
  pd_rightStickY :: u8
  pd_l2 :: u8
  pd_r2 :: u8
  pd_connected :: u8
  pd_timestamp :: u64

definition PadData_new :: PadData where
  "PadData_new = \<lparr>pd_buttons = 0, pd_leftStickX = 128, pd_leftStickY = 128, pd_rightStickX = 128,
     pd_rightStickY = 128, pd_l2 = 0, pd_r2 = 0, pd_connected = 0, pd_timestamp = 0\<rparr>"

text \<open>The structure in memory, with its padding and touch data, which stay zero.\<close>

definition pad_bytes :: "PadData \<Rightarrow> u8 list" where
  "pad_bytes d = le_bytes 4 (pd_buttons d)
     @ [pd_leftStickX d, pd_leftStickY d, pd_rightStickX d, pd_rightStickY d, pd_l2 d, pd_r2 d, 0, 0,
        pd_connected d, 0, 0, 0]
     @ le_bytes 8 (pd_timestamp d) @ replicate 0x30 0 @ replicate 0x10 0"

text \<open>The structure has 0x58 bytes; the assertion in the header says 0x78.\<close>

lemma pad_bytes_length: "length (pad_bytes d) = 0x58"
  by (simp add: pad_bytes_def le_bytes_def)

datatype sdl_button =
    LEFTSHOULDER | RIGHTSHOULDER | BUTTON_A | BUTTON_B | BUTTON_X | BUTTON_Y | DPAD_UP | DPAD_DOWN | DPAD_LEFT
  | DPAD_RIGHT | BUTTON_START | LEFTSTICK | RIGHTSTICK | BUTTON_BACK

datatype sdl_axis = LEFTX | LEFTY | RIGHTX | RIGHTY | TRIGGERLEFT | TRIGGERRIGHT

datatype sdl_key =
    KUp | KDown | KLeft | KRight | KReturn | KEscape | KX | KZ | KQ | KE | KW | KR | KTab | KSpace | KA | KD | KS

definition kPadL3 :: u32 where "kPadL3 = 0x2"
definition kPadR3 :: u32 where "kPadR3 = 0x4"
definition kPadOptions :: u32 where "kPadOptions = 0x8"
definition kPadUp :: u32 where "kPadUp = 0x10"
definition kPadRight :: u32 where "kPadRight = 0x20"
definition kPadDown :: u32 where "kPadDown = 0x40"
definition kPadLeft :: u32 where "kPadLeft = 0x80"
definition kPadL2 :: u32 where "kPadL2 = 0x100"
definition kPadR2 :: u32 where "kPadR2 = 0x200"
definition kPadL1 :: u32 where "kPadL1 = 0x400"
definition kPadR1 :: u32 where "kPadR1 = 0x800"
definition kPadTriangle :: u32 where "kPadTriangle = 0x1000"
definition kPadCircle :: u32 where "kPadCircle = 0x2000"
definition kPadCross :: u32 where "kPadCross = 0x4000"
definition kPadSquare :: u32 where "kPadSquare = 0x8000"
definition kPadTouchPad :: u32 where "kPadTouchPad = 0x100000"

lemmas pad_masks = kPadL3_def kPadR3_def kPadOptions_def kPadUp_def kPadRight_def kPadDown_def kPadLeft_def
  kPadL2_def kPadR2_def kPadL1_def kPadR1_def kPadTriangle_def kPadCircle_def kPadCross_def kPadSquare_def
  kPadTouchPad_def

text \<open>A chain of \<^verbatim>\<open>if (pressed) buttons |= mask\<close>.\<close>

definition or_buttons :: "(bool \<times> u32) list \<Rightarrow> u32 \<Rightarrow> u32" where
  "or_buttons ps b = fold (\<lambda>(p, m) b. if p then b OR m else b) ps b"

definition axisToByte :: "int \<Rightarrow> u8" where
  "axisToByte v = word_of_int ((v + 32768) div 256)"

definition triggerToByte :: "int \<Rightarrow> u8" where
  "triggerToByte v = word_of_int ((v + 32768) div 256)"

record sdl =
  sdl_btn :: "u64 \<Rightarrow> sdl_button \<Rightarrow> bool"
  sdl_axis_of :: "u64 \<Rightarrow> sdl_axis \<Rightarrow> int"
  sdl_keys :: "(sdl_key \<Rightarrow> bool) option"
  sdl_instance :: "u64 \<Rightarrow> int"
  sdl_now :: u64

definition controller_buttons :: "(sdl_button \<Rightarrow> bool) \<Rightarrow> (bool \<times> u32) list" where
  "controller_buttons btn =
     [(btn LEFTSHOULDER, kPadL1), (btn RIGHTSHOULDER, kPadR1), (btn BUTTON_A, kPadCross), (btn BUTTON_B, kPadCircle),
      (btn BUTTON_X, kPadSquare), (btn BUTTON_Y, kPadTriangle), (btn DPAD_UP, kPadUp), (btn DPAD_DOWN, kPadDown),
      (btn DPAD_LEFT, kPadLeft), (btn DPAD_RIGHT, kPadRight), (btn BUTTON_START, kPadOptions),
      (btn LEFTSTICK, kPadL3), (btn RIGHTSTICK, kPadR3), (btn BUTTON_BACK, kPadTouchPad)]"

definition key_buttons :: "(sdl_key \<Rightarrow> bool) \<Rightarrow> (bool \<times> u32) list" where
  "key_buttons ks =
     [(ks KUp, kPadUp), (ks KDown, kPadDown), (ks KLeft, kPadLeft), (ks KRight, kPadRight), (ks KReturn, kPadCross),
      (ks KEscape, kPadCircle), (ks KX, kPadSquare), (ks KZ, kPadTriangle), (ks KQ, kPadL1), (ks KE, kPadR1),
      (ks KW, kPadL2), (ks KR, kPadR2), (ks KTab, kPadOptions), (ks KSpace, kPadTouchPad)]"

section \<open>The input manager\<close>

definition kMaxPads :: nat where "kMaxPads = 4"

text \<open>
  The address 0 is the null controller. \<open>im_lost\<close> is not a field of the class: it records the
  controllers that were opened while no slot was free.
\<close>

record InputManager =
  im_pads :: "PadData list"
  im_controllers :: "u64 list"
  im_ready :: bool
  im_opened :: "u64 list"
  im_closed :: "u64 list"
  im_lost :: "u64 list"

definition InputManager_new :: InputManager where
  "InputManager_new = \<lparr>im_pads = replicate 4 PadData_new, im_controllers = replicate 4 0, im_ready = False,
     im_opened = [], im_closed = [], im_lost = []\<rparr>"

text \<open>The first free slot takes an opened controller.\<close>

fun fill_slot :: "u64 \<Rightarrow> u64 list \<Rightarrow> u64 list option" where
  "fill_slot gc [] = None"
| "fill_slot gc (c # cs) = (if c = 0 then Some (gc # cs) else map_option ((#) c) (fill_slot gc cs))"

definition attach :: "u64 \<Rightarrow> InputManager \<Rightarrow> InputManager" where
  "attach gc s =
     (if gc = 0 then s
      else let s = s\<lparr>im_opened := im_opened s @ [gc]\<rparr>
           in case fill_slot gc (im_controllers s) of
                Some cs \<Rightarrow> s\<lparr>im_controllers := cs\<rparr>
              | None \<Rightarrow> s\<lparr>im_lost := im_lost s @ [gc]\<rparr>)"

text \<open>
  \<open>devs\<close> has for each joystick nothing when it is no game controller, else what opening it returns
  (0 when that fails).
\<close>

definition InputManager_init :: "bool \<Rightarrow> u64 option list \<Rightarrow> InputManager \<Rightarrow> InputManager" where
  "InputManager_init subsystem devs s =
     (if \<not> subsystem then s\<lparr>im_ready := False\<rparr>
      else fold (\<lambda>d s. case d of None \<Rightarrow> s | Some gc \<Rightarrow> attach gc s) devs (s\<lparr>im_ready := True\<rparr>))"

definition InputManager_shutdown :: "InputManager \<Rightarrow> InputManager" where
  "InputManager_shutdown s =
     s\<lparr>im_closed := im_closed s @ filter (\<lambda>c. c \<noteq> 0) (im_controllers s),
       im_controllers := map (\<lambda>_. 0) (im_controllers s), im_ready := False\<rparr>"

definition controller_pad :: "sdl \<Rightarrow> u64 \<Rightarrow> PadData" where
  "controller_pad e gc =
     (let buttons = or_buttons (controller_buttons (sdl_btn e gc)) 0;
          lt = triggerToByte (sdl_axis_of e gc TRIGGERLEFT);
          rt = triggerToByte (sdl_axis_of e gc TRIGGERRIGHT);
          buttons = or_buttons [(lt > 32, kPadL2), (rt > 32, kPadR2)] buttons
      in PadData_new\<lparr>pd_connected := 1, pd_buttons := buttons,
           pd_leftStickX := axisToByte (sdl_axis_of e gc LEFTX), pd_leftStickY := axisToByte (sdl_axis_of e gc LEFTY),
           pd_rightStickX := axisToByte (sdl_axis_of e gc RIGHTX), pd_rightStickY := axisToByte (sdl_axis_of e gc RIGHTY),
           pd_l2 := lt, pd_r2 := rt, pd_timestamp := sdl_now e\<rparr>)"

definition updatePadFromController :: "sdl \<Rightarrow> nat \<Rightarrow> InputManager \<Rightarrow> InputManager" where
  "updatePadFromController e i s =
     (let gc = im_controllers s ! i
      in if gc = 0 then s else s\<lparr>im_pads := (im_pads s)[i := controller_pad e gc]\<rparr>)"

definition key_pad :: "sdl \<Rightarrow> (sdl_key \<Rightarrow> bool) \<Rightarrow> PadData" where
  "key_pad e ks =
     (let lx = (if ks KA then 0 else 128); lx = (if ks KD then 255 else lx);
          ly = (if ks KW then 0 else 128); ly = (if ks KS then 255 else ly)
      in PadData_new\<lparr>pd_connected := 1, pd_buttons := or_buttons (key_buttons ks) 0,
           pd_leftStickX := lx, pd_leftStickY := ly, pd_timestamp := sdl_now e\<rparr>)"

definition updatePadFromKeyboard :: "sdl \<Rightarrow> nat \<Rightarrow> InputManager \<Rightarrow> InputManager" where
  "updatePadFromKeyboard e i s =
     (if i \<noteq> 0 \<or> im_controllers s ! 0 \<noteq> 0 then s
      else case sdl_keys e of
        None \<Rightarrow> s
      | Some ks \<Rightarrow> s\<lparr>im_pads := (im_pads s)[i := key_pad e ks]\<rparr>)"

text \<open>\<open>Added\<close> carries what opening the device returns, if it is a game controller.\<close>

datatype pad_event = Added "u64 option" | Removed int

fun first_slot :: "(u64 \<Rightarrow> bool) \<Rightarrow> nat \<Rightarrow> u64 list \<Rightarrow> nat option" where
  "first_slot P i [] = None"
| "first_slot P i (c # cs) = (if c \<noteq> 0 \<and> P c then Some i else first_slot P (Suc i) cs)"

fun pad_event_step :: "sdl \<Rightarrow> pad_event \<Rightarrow> InputManager \<Rightarrow> InputManager" where
  "pad_event_step e (Added d) s = (case d of None \<Rightarrow> s | Some gc \<Rightarrow> attach gc s)"
| "pad_event_step e (Removed which) s =
     (case first_slot (\<lambda>c. sdl_instance e c = which) 0 (im_controllers s) of
        None \<Rightarrow> s
      | Some i \<Rightarrow> s\<lparr>im_closed := im_closed s @ [im_controllers s ! i],
                    im_controllers := (im_controllers s)[i := 0], im_pads := (im_pads s)[i := PadData_new]\<rparr>)"

definition update_pads :: "sdl \<Rightarrow> InputManager \<Rightarrow> InputManager" where
  "update_pads e s = fold (\<lambda>i s. if im_controllers s ! i \<noteq> 0 then updatePadFromController e i s
     else updatePadFromKeyboard e i s) [0..<kMaxPads] s"

definition InputManager_poll :: "sdl \<Rightarrow> pad_event list \<Rightarrow> InputManager \<Rightarrow> InputManager" where
  "InputManager_poll e evs s = update_pads e (fold (pad_event_step e) evs s)"

definition padState :: "int \<Rightarrow> InputManager \<Rightarrow> PadData" where
  "padState index s = (if index < 0 \<or> index \<ge> 4 then PadData_new else im_pads s ! nat index)"

definition isConnected :: "int \<Rightarrow> InputManager \<Rightarrow> bool" where
  "isConnected index s \<longleftrightarrow> \<not> (index < 0 \<or> index \<ge> 4) \<and> pd_connected (im_pads s ! nat index) \<noteq> 0"

text \<open>The rumble that is requested from SDL: the controller and the two strengths.\<close>

definition setVibration :: "int \<Rightarrow> int \<Rightarrow> int \<Rightarrow> InputManager \<Rightarrow> (u64 \<times> u16 \<times> u16) option" where
  "setVibration index left right s =
     (if index < 0 \<or> index \<ge> 4 then None
      else let gc = im_controllers s ! nat index
           in if gc = 0 then None
              else Some (gc, word_of_int (left mod 256 * 257), word_of_int (right mod 256 * 257)))"

section \<open>What the pads report\<close>

lemma or_buttons_bit:
  "bit (or_buttons ps b) n \<longleftrightarrow> bit b n \<or> (\<exists>(p, m) \<in> set ps. p \<and> bit m n)"
proof (induction ps arbitrary: b)
  case (Cons x ps)
  obtain p m where x: "x = (p, m)" by (cases x)
  have "or_buttons (x # ps) b = or_buttons ps (if p then b OR m else b)" by (simp add: or_buttons_def x)
  then show ?case by (simp add: Cons.IH x bit_or_iff)
qed (simp add: or_buttons_def)

lemma or_buttons_mask:
  assumes "b AND k = 0" and "\<forall>(q, m) \<in> set ps. (q \<and> m AND k \<noteq> 0) = (q \<and> m = k)" and "k \<noteq> 0"
  shows "or_buttons ps b AND k \<noteq> 0 \<longleftrightarrow> (True, k) \<in> set ps"
  using assms(1,2)
proof (induction ps arbitrary: b)
  case (Cons x ps)
  obtain q m where x: "x = (q, m)" by (cases x)
  have dist: "(b OR m) AND k = (b AND k) OR (m AND k)" by (simp add: bit.conj_disj_distrib2)
  show ?case
  proof (cases "q \<and> m = k")
    case True
    have "or_buttons ps (b OR k) AND k = k"
      by (rule bit_word_eqI) (auto simp: bit_and_iff or_buttons_bit bit_or_iff)
    with True x assms(3) show ?thesis by (simp add: or_buttons_def)
  next
    case False
    with Cons.prems x have "(if q then b OR m else b) AND k = 0" by (auto simp: dist)
    from Cons.IH [OF this] Cons.prems(2) False x show ?thesis by (auto simp: or_buttons_def)
  qed
qed (simp add: or_buttons_def)

text \<open>
  A controller's buttons are reported one to one: each mask of the pad is set exactly when its
  button is pressed.
\<close>

definition button_masks :: "u32 list" where
  "button_masks = map snd (controller_buttons (\<lambda>_. False)) @ [kPadL2, kPadR2]"

lemma button_masks_apart: "list_all (\<lambda>k. k \<noteq> 0 \<and> list_all (\<lambda>m. (k AND m \<noteq> 0) = (k = m)) button_masks) button_masks"
  by code_simp

lemma button_masks_distinct: "distinct button_masks"
  by code_simp

lemma controller_button_reported:
  assumes "(p, m) \<in> set (controller_buttons (sdl_btn e gc))"
  shows "pd_buttons (controller_pad e gc) AND m \<noteq> 0 \<longleftrightarrow> p"
proof -
  define ps where "ps = controller_buttons (sdl_btn e gc)
    @ [(triggerToByte (sdl_axis_of e gc TRIGGERLEFT) > 32, kPadL2), (triggerToByte (sdl_axis_of e gc TRIGGERRIGHT) > 32, kPadR2)]"
  have masks: "map snd ps = button_masks" by (simp add: ps_def button_masks_def controller_buttons_def)
  then have mem: "k \<in> set button_masks" if "(q, k) \<in> set ps" for q k
    using that by (metis image_eqI set_map snd_conv)
  have pm: "(p, m) \<in> set ps" using assms by (simp add: ps_def)
  then have "m \<noteq> 0" "\<forall>(q, k) \<in> set ps. (q \<and> k AND m \<noteq> 0) = (q \<and> k = m)"
    using mem button_masks_apart by (auto simp: list_all_iff)
  moreover have "pd_buttons (controller_pad e gc) = or_buttons ps 0"
    by (simp add: controller_pad_def Let_def or_buttons_def ps_def)
  ultimately have "pd_buttons (controller_pad e gc) AND m \<noteq> 0 \<longleftrightarrow> (True, m) \<in> set ps"
    using or_buttons_mask [of 0 m ps] by (simp only: zero_and_eq simp_thms)
  also have "inj_on snd (set ps)" using masks button_masks_distinct by (metis distinct_map)
  then have "(True, m) \<in> set ps \<longleftrightarrow> p" using pm by (cases p) (auto dest: inj_onD [of snd _ "(True, m)" "(False, m)"])
  finally show ?thesis .
qed

text \<open>
  SDL reports a trigger between 0 and 32767, 0 when it is released. The conversion is the one of a stick,
  so a released trigger reads 128 and L2 and R2 are always reported as pressed.
\<close>

theorem triggers_always_pressed:
  assumes "0 \<le> sdl_axis_of e gc TRIGGERLEFT" and "sdl_axis_of e gc TRIGGERLEFT \<le> 32767"
  shows "pd_l2 (controller_pad e gc) \<ge> 128" and "pd_buttons (controller_pad e gc) AND kPadL2 \<noteq> 0"
proof -
  let ?v = "(sdl_axis_of e gc TRIGGERLEFT + 32768) div 256"
  have v: "128 \<le> ?v" "?v < 256" using assms by linarith+
  have "uint (triggerToByte (sdl_axis_of e gc TRIGGERLEFT)) = ?v"
    using v by (simp add: triggerToByte_def uint_word_of_int)
  with v have t: "128 \<le> triggerToByte (sdl_axis_of e gc TRIGGERLEFT)" "32 < triggerToByte (sdl_axis_of e gc TRIGGERLEFT)"
    by (simp_all add: word_le_def word_less_def)
  then show "pd_l2 (controller_pad e gc) \<ge> 128" by (simp add: controller_pad_def Let_def)
  have "bit (pd_buttons (controller_pad e gc)) 8"
    using t(2) by (simp add: controller_pad_def Let_def or_buttons_bit kPadL2_def bit_numeral_rec)
  then have "bit (pd_buttons (controller_pad e gc) AND kPadL2) 8" by (simp add: bit_and_iff kPadL2_def bit_numeral_rec)
  then show "pd_buttons (controller_pad e gc) AND kPadL2 \<noteq> 0" by auto
qed

section \<open>Controllers are closed\<close>

definition held :: "InputManager \<Rightarrow> u64 list" where
  "held s = filter (\<lambda>c. c \<noteq> 0) (im_controllers s)"

definition input_inv :: "InputManager \<Rightarrow> bool" where
  "input_inv s \<longleftrightarrow> length (im_controllers s) = 4 \<and> length (im_pads s) = 4
     \<and> mset (im_opened s) = mset (held s) + mset (im_closed s) + mset (im_lost s)
     \<and> (im_lost s \<noteq> [] \<longrightarrow> 4 < length (im_opened s))"

lemma fill_slot_held:
  "fill_slot gc cs = Some cs' \<Longrightarrow> gc \<noteq> 0 \<Longrightarrow>
     mset (filter (\<lambda>c. c \<noteq> 0) cs') = add_mset gc (mset (filter (\<lambda>c. c \<noteq> 0) cs)) \<and> length cs' = length cs"
  by (induction cs arbitrary: cs') (auto split: if_splits)

lemma fill_slot_full: "fill_slot gc cs = None \<Longrightarrow> filter (\<lambda>c. c \<noteq> 0) cs = cs"
  by (induction cs) (auto split: if_splits)

lemma attach_inv: "input_inv s \<Longrightarrow> input_inv (attach gc s)"
proof -
  assume i: "input_inv s"
  show "input_inv (attach gc s)"
  proof (cases "fill_slot gc (im_controllers s)")
    case None
    have "length (im_opened s) = length (held s) + length (im_closed s) + length (im_lost s)"
      using i by (metis input_inv_def size_mset size_union)
    moreover have "length (held s) = 4" using i fill_slot_full [OF None] by (simp add: held_def input_inv_def)
    ultimately show ?thesis using i None by (auto simp: attach_def input_inv_def held_def)
  qed (use i fill_slot_held [of gc "im_controllers s"] in \<open>auto simp: attach_def input_inv_def held_def\<close>)
qed

lemma clear_slot_held:
  "first_slot P k cs = Some i \<Longrightarrow> k \<le> i \<and> i - k < length cs \<and>
     mset (filter (\<lambda>c. c \<noteq> 0) cs) = add_mset (cs ! (i - k)) (mset (filter (\<lambda>c. c \<noteq> 0) (cs[i - k := 0])))"
proof (induction cs arbitrary: k)
  case (Cons c cs)
  show ?case
  proof (cases "c \<noteq> 0 \<and> P c")
    case False
    with Cons.prems have "first_slot P (Suc k) cs = Some i" by (auto split: if_splits)
    note h = Cons.IH [OF this]
    then have "i - k = Suc (i - Suc k)" by linarith
    with h show ?thesis by (simp add: ac_simps)
  qed (use Cons.prems in auto)
qed simp

lemma pad_event_inv: "input_inv s \<Longrightarrow> input_inv (pad_event_step e ev s)"
proof (cases ev)
  case (Removed w)
  then show "input_inv s \<Longrightarrow> ?thesis" using clear_slot_held [of _ 0 "im_controllers s"]
    by (auto simp: input_inv_def held_def split: option.splits)
qed (auto simp: attach_inv split: option.splits)

lemma update_pads_frame:
  "im_controllers (update_pads e s) = im_controllers s" "im_opened (update_pads e s) = im_opened s"
  "im_closed (update_pads e s) = im_closed s" "im_lost (update_pads e s) = im_lost s"
  "length (im_pads (update_pads e s)) = length (im_pads s)"
proof -
  let ?f = "\<lambda>i s. if im_controllers s ! i \<noteq> 0 then updatePadFromController e i s else updatePadFromKeyboard e i s"
  have "im_controllers (fold ?f is s) = im_controllers s \<and> im_opened (fold ?f is s) = im_opened s
    \<and> im_closed (fold ?f is s) = im_closed s \<and> im_lost (fold ?f is s) = im_lost s
    \<and> length (im_pads (fold ?f is s)) = length (im_pads s)" for "is"
    by (induction "is" arbitrary: s)
      (auto simp: updatePadFromController_def updatePadFromKeyboard_def Let_def split: option.splits)
  then show "im_controllers (update_pads e s) = im_controllers s" "im_opened (update_pads e s) = im_opened s"
    "im_closed (update_pads e s) = im_closed s" "im_lost (update_pads e s) = im_lost s"
    "length (im_pads (update_pads e s)) = length (im_pads s)" by (auto simp: update_pads_def)
qed

lemma poll_inv: "input_inv s \<Longrightarrow> input_inv (InputManager_poll e evs s)"
proof -
  assume "input_inv s"
  then have "input_inv (fold (pad_event_step e) evs s)" by (induction evs arbitrary: s) (auto simp: pad_event_inv)
  then show ?thesis by (simp add: InputManager_poll_def input_inv_def held_def update_pads_frame)
qed

lemma input_init_inv: "input_inv s \<Longrightarrow> input_inv (InputManager_init ok devs s)"
proof -
  have "input_inv (fold (\<lambda>d s. case d of None \<Rightarrow> s | Some gc \<Rightarrow> attach gc s) devs s)" if "input_inv s" for s
    using that by (induction devs arbitrary: s) (auto simp: attach_inv split: option.splits)
  then show "input_inv s \<Longrightarrow> input_inv (InputManager_init ok devs s)"
    by (simp add: InputManager_init_def input_inv_def held_def)
qed

text \<open>
  Controllers are closed. Over the start, any number of polls with any hot-plug events and the
  shutdown, every controller that was opened is closed once, provided at most four were opened.
\<close>

theorem controllers_closed:
  assumes "s = InputManager_shutdown (fold (\<lambda>(e, evs). InputManager_poll e evs) polls (InputManager_init ok devs InputManager_new))"
    and "length (im_opened s) \<le> 4"
  shows "mset (im_closed s) = mset (im_opened s)"
proof -
  have "input_inv InputManager_new" by (simp add: input_inv_def InputManager_new_def held_def)
  then have i: "input_inv (fold (\<lambda>(e, evs). InputManager_poll e evs) polls (InputManager_init ok devs InputManager_new))"
    (is "input_inv ?t")
  proof (induction polls rule: rev_induct)
    case (snoc p polls)
    then show ?case by (cases p) (simp add: poll_inv)
  qed (simp add: input_init_inv)
  then have "im_lost ?t = []" using assms by (auto simp: input_inv_def InputManager_shutdown_def)
  with i show ?thesis by (simp add: assms(1) input_inv_def InputManager_shutdown_def held_def)
qed

text \<open>A fifth controller is opened and never closed.\<close>

theorem fifth_controller_leaks:
  "let s = InputManager_shutdown (InputManager_init True [Some 1, Some 2, Some 3, Some 4, Some 5] InputManager_new)
   in im_opened s = [1, 2, 3, 4, 5] \<and> im_closed s = [1, 2, 3, 4]"
  by code_simp


section \<open>libScePad\<close>

definition kPadErrInvalidArg :: u32 where "kPadErrInvalidArg = 0x80020005"
definition kPadErrNotFound :: u32 where "kPadErrNotFound = 0x80020004"

text \<open>The objects of the handle table: pads, and all others with their description.\<close>

datatype pad_object = PadHandleObj int | OtherDescribed string

definition int_digits :: "int \<Rightarrow> string" where
  "int_digits v = (if v < 0 then CHR ''-'' # dec_digits (nat (- v)) else dec_digits (nat v))"

fun describe :: "pad_object \<Rightarrow> string" where
  "describe (PadHandleObj i) = ''Pad{index='' @ int_digits i @ ''}''"
| "describe (OtherDescribed d) = d"

text \<open>What follows the first \<^verbatim>\<open>index=\<close>.\<close>

fun after_index :: "string \<Rightarrow> string option" where
  "after_index [] = None"
| "after_index (c # cs) = (if take 6 (c # cs) = ''index='' then Some (drop 5 cs) else after_index cs)"

definition pad_digit :: "char \<Rightarrow> bool" where
  "pad_digit c \<longleftrightarrow> 48 \<le> (of_char c :: nat) \<and> (of_char c :: nat) \<le> 57"

text \<open>\<^verbatim>\<open>atoi\<close>: white space, a sign and digits; undefined when the value is not an \<^verbatim>\<open>int\<close>.\<close>

definition atoi :: "string \<Rightarrow> int cpp" where
  "atoi s =
     (let s = dropWhile (\<lambda>c. c = CHR '' '' \<or> 9 \<le> (of_char c :: nat) \<and> (of_char c :: nat) \<le> 13) s;
          neg = (s \<noteq> [] \<and> hd s = CHR ''-'');
          s = (if s \<noteq> [] \<and> (hd s = CHR ''-'' \<or> hd s = CHR ''+'') then tl s else s);
          v = foldl (\<lambda>n c. 10 * n + (of_char c - 48)) 0 (takeWhile pad_digit s);
          v = (if neg then - v else v)
      in if - (2 ^ 31) \<le> v \<and> v < 2 ^ 31 then Val v else UB)"

definition scePadOpen :: "int \<Rightarrow> pad_object HandleTable \<Rightarrow> u32 \<times> pad_object HandleTable" where
  "scePadOpen userId t =
     (if userId < 0 \<or> userId \<ge> 4 then (kPadErrInvalidArg, t) else registerObject (Some (PadHandleObj userId)) t)"

definition scePadClose :: "Handle \<Rightarrow> pad_object HandleTable \<Rightarrow> u32 \<times> pad_object HandleTable" where
  "scePadClose handle t =
     (if HandleTable_get t handle = None then (kPadErrNotFound, t) else (0, snd (HandleTable_close handle t)))"

definition scePadReadState ::
  "pad_object HandleTable \<Rightarrow> InputManager \<Rightarrow> Handle \<Rightarrow> u64 \<Rightarrow> memory \<Rightarrow> (u32 \<times> memory) cpp" where
  "scePadReadState t im handle out m =
     (if out = 0 then Val (kPadErrInvalidArg, m)
      else case HandleTable_get t handle of
        None \<Rightarrow> Val (kPadErrNotFound, m)
      | Some base \<Rightarrow>
          (case after_index (describe base) of
             None \<Rightarrow> Val (kPadErrInvalidArg, m)
           | Some d \<Rightarrow> cpp_bind (atoi d) (\<lambda>idx.
               if idx < 0 \<or> idx \<ge> 4 then Val (kPadErrInvalidArg, m)
               else cpp_bind (store_bytes out (pad_bytes (padState idx im)) m) (\<lambda>m. Val (0, m)))))"

definition scePadRead ::
  "pad_object HandleTable \<Rightarrow> InputManager \<Rightarrow> Handle \<Rightarrow> u64 \<Rightarrow> int \<Rightarrow> memory \<Rightarrow> (u32 \<times> memory) cpp" where
  "scePadRead t im handle out num m =
     (if num < 1 then Val (kPadErrInvalidArg, m)
      else cpp_bind (scePadReadState t im handle out m) (\<lambda>(rc, m).
             Val (if rc \<noteq> 0 then rc else word_of_int num, m)))"

definition scePadSetVibration ::
  "pad_object HandleTable \<Rightarrow> InputManager \<Rightarrow> Handle \<Rightarrow> u64 \<Rightarrow> memory \<Rightarrow> (u32 \<times> (u64 \<times> u16 \<times> u16) option) cpp" where
  "scePadSetVibration t im handle param m =
     (if param = 0 then Val (kPadErrInvalidArg, None)
      else case HandleTable_get t handle of
        None \<Rightarrow> Val (kPadErrNotFound, None)
      | Some base \<Rightarrow>
          (case after_index (describe base) of
             None \<Rightarrow> Val (kPadErrInvalidArg, None)
           | Some d \<Rightarrow> cpp_bind (atoi d) (\<lambda>idx. cpp_bind (load_bytes m param 2) (\<lambda>bs.
               Val (0, setVibration idx (uint (bs ! 0)) (uint (bs ! 1)) im)))))"

lemma pad_index_parsed:
  assumes "0 \<le> i" and "i < 4"
  shows "\<exists>d. after_index (describe (PadHandleObj i)) = Some d \<and> atoi d = Val i"
proof -
  have "list_all (\<lambda>i. case after_index (describe (PadHandleObj i)) of None \<Rightarrow> False | Some d \<Rightarrow> atoi d = Val i) [0, 1, 2, 3]"
    by code_simp
  moreover from assms have "i \<in> set [0, 1, 2, 3]" by auto
  ultimately have "case after_index (describe (PadHandleObj i)) of None \<Rightarrow> False | Some d \<Rightarrow> atoi d = Val i"
    unfolding list_all_iff by (rule bspec)
  then show ?thesis by (auto split: option.splits)
qed

text \<open>
  What an opened pad reads is the state of its user's controller: after \<^verbatim>\<open>scePadOpen\<close>,
  \<^verbatim>\<open>scePadReadState\<close> on the new handle writes the snapshot that the last poll left for that user.
\<close>

lemma pad_open_read:
  assumes "scePadOpen u t = (h, t')" and "0 \<le> u" and "u < 4" and "handle_inv t" and "handle_room t"
    and "out \<noteq> 0" and "store_bytes out (pad_bytes (padState u im)) m = Val m'"
  shows "scePadReadState t' im h out m = Val (0, m')" and "load_bytes m' out 0x58 = Val (pad_bytes (padState u im))"
proof -
  from assms(1-3) have r: "registerObject (Some (PadHandleObj u)) t = (h, t')" by (simp add: scePadOpen_def)
  have "HandleTable_get t' h = Some (PadHandleObj u)"
    using handles.lookup_register [OF assms(4,5) r] by simp
  moreover from pad_index_parsed [OF assms(2,3)] obtain d where
    "after_index (describe (PadHandleObj u)) = Some d" "atoi d = Val u" by blast
  ultimately show "scePadReadState t' im h out m = Val (0, m')"
    using assms(2,3,6,7) by (simp add: scePadReadState_def del: describe.simps)
  show "load_bytes m' out 0x58 = Val (pad_bytes (padState u im))"
    using load_store_bytes [OF assms(7)] by (simp add: pad_bytes_length)
qed

text \<open>
  The index is searched in the description of whatever object the handle names, so a file whose path contains
  \<^verbatim>\<open>index=\<close> reads as a pad; and \<^verbatim>\<open>scePadClose\<close> closes handles of any type.
\<close>

theorem file_reads_as_pad:
  assumes "HandleTable_get t h = Some (OtherDescribed (''File{fd=5, guest='' @ CHR 0x22 # ''/data/index=2'' @ CHR 0x22 # ''}''))" and "out \<noteq> 0"
  shows "scePadReadState t im h out m = cpp_bind (store_bytes out (pad_bytes (padState 2 im)) m) (\<lambda>m. Val (0, m))"
  using assms by (simp add: scePadReadState_def atoi_def pad_digit_def)

end
