(* ===== verification/Gnm_Commands.thy ===== *)
theory Gnm_Commands
  imports Guest_Words
begin

text \<open>
  The command stream of GNM: the pipeline state (\<^verbatim>\<open>sce/gnm/GnmState.cpp\<close>), the recorder between the guest's
  thread and the runtime's (\<^verbatim>\<open>sce/gnm/GnmCommandRecorder.cpp\<close>), the inspection of shaders
  (\<^verbatim>\<open>sce/gnm/GnmShader.cpp\<close>), the texture formats and the exports of libSceGnm. Floats are kept as bit patterns; the types of a
  recorded draw and of an index, which the sources name but do not declare, are parameters.
\<close>

section \<open>Formats\<close>

datatype Format =
    FmtUnknown | R8G8B8A8_Unorm | B8G8R8A8_Unorm | R8G8B8A8_Srgb | B8G8R8A8_Srgb | R16G16B16A16_Sfloat
  | R32G32B32A32_Sfloat | D32_Sfloat | D24_Unorm_S8_Uint

definition gnmTextureFormatToGal :: "u32 \<Rightarrow> Format" where
  "gnmTextureFormatToGal f =
     (if f = 0x01 then B8G8R8A8_Unorm
      else if f = 0x03 then B8G8R8A8_Srgb
      else if f = 0x0A then R8G8B8A8_Unorm
      else if f = 0x0C then R8G8B8A8_Srgb
      else if f = 0x12 then R16G16B16A16_Sfloat
      else if f = 0x18 then R32G32B32A32_Sfloat
      else if f = 0x30 then D32_Sfloat
      else FmtUnknown)"

text \<open>No two supported formats are confused.\<close>

lemma gnm_format_injective:
  "gnmTextureFormatToGal f = gnmTextureFormatToGal g \<Longrightarrow> gnmTextureFormatToGal f \<noteq> FmtUnknown \<Longrightarrow> f = g"
  by (simp add: gnmTextureFormatToGal_def split: if_splits)

section \<open>Pipeline state\<close>

record Viewport =
  vp_x :: u32
  vp_y :: u32
  vp_w :: u32
  vp_h :: u32
  vp_minDepth :: u32
  vp_maxDepth :: u32

record Scissor =
  sc_x :: u32
  sc_y :: u32
  sc_w :: u32
  sc_h :: u32

record ClearColor =
  cc_r :: u32
  cc_g :: u32
  cc_b :: u32
  cc_a :: u32

definition Viewport_new :: Viewport where
  "Viewport_new = \<lparr>vp_x = 0, vp_y = 0, vp_w = 0, vp_h = 0, vp_minDepth = 0, vp_maxDepth = 0x3F800000\<rparr>"

definition Scissor_new :: Scissor where
  "Scissor_new = \<lparr>sc_x = 0, sc_y = 0, sc_w = 0, sc_h = 0\<rparr>"

definition ClearColor_new :: ClearColor where
  "ClearColor_new = \<lparr>cc_r = 0, cc_g = 0, cc_b = 0, cc_a = 0x3F800000\<rparr>"

record 'i GnmState =
  gs_pipeline :: u32
  gs_rt :: u32
  gs_vbuf :: u32
  gs_vbufOff :: u64
  gs_ibuf :: u32
  gs_ibufOff :: u64
  gs_indexType :: 'i
  gs_viewport :: Viewport
  gs_scissor :: Scissor
  gs_clear :: ClearColor

definition GnmState_new :: "'i \<Rightarrow> 'i GnmState" where
  "GnmState_new uint16 = \<lparr>gs_pipeline = 0, gs_rt = 0, gs_vbuf = 0, gs_vbufOff = 0, gs_ibuf = 0, gs_ibufOff = 0,
     gs_indexType = uint16, gs_viewport = Viewport_new, gs_scissor = Scissor_new, gs_clear = ClearColor_new\<rparr>"

datatype 'i gnm_set =
    SetPipeline u32 | SetRenderTarget u32 | SetVertexBuffer u32 u64 | SetIndexBuffer u32 u64 'i
  | SetViewport Viewport | SetScissor Scissor | SetClearColor ClearColor | ResetState

definition setPipeline :: "u32 \<Rightarrow> 'i GnmState \<Rightarrow> 'i GnmState" where
  "setPipeline i s = s\<lparr>gs_pipeline := i\<rparr>"

definition setRenderTarget :: "u32 \<Rightarrow> 'i GnmState \<Rightarrow> 'i GnmState" where
  "setRenderTarget i s = s\<lparr>gs_rt := i\<rparr>"

definition setVertexBuffer :: "u32 \<Rightarrow> u64 \<Rightarrow> 'i GnmState \<Rightarrow> 'i GnmState" where
  "setVertexBuffer i off s = s\<lparr>gs_vbuf := i, gs_vbufOff := off\<rparr>"

definition setIndexBuffer :: "u32 \<Rightarrow> u64 \<Rightarrow> 'i \<Rightarrow> 'i GnmState \<Rightarrow> 'i GnmState" where
  "setIndexBuffer i off t s = s\<lparr>gs_ibuf := i, gs_ibufOff := off, gs_indexType := t\<rparr>"

definition setViewport :: "Viewport \<Rightarrow> 'i GnmState \<Rightarrow> 'i GnmState" where
  "setViewport v s = s\<lparr>gs_viewport := v\<rparr>"

definition setScissor :: "Scissor \<Rightarrow> 'i GnmState \<Rightarrow> 'i GnmState" where
  "setScissor c s = s\<lparr>gs_scissor := c\<rparr>"

definition setClearColor :: "ClearColor \<Rightarrow> 'i GnmState \<Rightarrow> 'i GnmState" where
  "setClearColor c s = s\<lparr>gs_clear := c\<rparr>"

definition gnm_reset :: "'i \<Rightarrow> 'i GnmState \<Rightarrow> 'i GnmState" where
  "gnm_reset uint16 s = s\<lparr>gs_pipeline := 0, gs_rt := 0, gs_vbuf := 0, gs_vbufOff := 0, gs_ibuf := 0, gs_ibufOff := 0,
     gs_indexType := uint16, gs_viewport := Viewport_new, gs_scissor := Scissor_new,
     gs_clear := \<lparr>cc_r = 0, cc_g = 0, cc_b = 0, cc_a = 0x3F800000\<rparr>\<rparr>"

fun gnm_apply :: "'i \<Rightarrow> 'i gnm_set \<Rightarrow> 'i GnmState \<Rightarrow> 'i GnmState" where
  "gnm_apply uint16 (SetPipeline i) s = setPipeline i s"
| "gnm_apply uint16 (SetRenderTarget i) s = setRenderTarget i s"
| "gnm_apply uint16 (SetVertexBuffer i off) s = setVertexBuffer i off s"
| "gnm_apply uint16 (SetIndexBuffer i off t) s = setIndexBuffer i off t s"
| "gnm_apply uint16 (SetViewport v) s = setViewport v s"
| "gnm_apply uint16 (SetScissor c) s = setScissor c s"
| "gnm_apply uint16 (SetClearColor c) s = setClearColor c s"
| "gnm_apply uint16 ResetState s = gnm_reset uint16 s"

lemmas gnm_setters = setPipeline_def setRenderTarget_def setVertexBuffer_def setIndexBuffer_def setViewport_def
  setScissor_def setClearColor_def gnm_reset_def

text \<open>The state a draw finds does not depend on anything before the last reset.\<close>

lemma gnm_state_after_reset:
  "fold (gnm_apply uint16) (before @ [ResetState] @ after) s = fold (gnm_apply uint16) after (GnmState_new uint16)"
proof -
  have "gnm_reset uint16 t = GnmState_new uint16" for t
    by (cases t) (simp add: gnm_reset_def GnmState_new_def ClearColor_new_def)
  then show ?thesis by simp
qed

text \<open>Setters of different parts of the state commute.\<close>

fun gnm_part :: "'i gnm_set \<Rightarrow> nat option" where
  "gnm_part (SetPipeline _) = Some 0"
| "gnm_part (SetRenderTarget _) = Some 1"
| "gnm_part (SetVertexBuffer _ _) = Some 2"
| "gnm_part (SetIndexBuffer _ _ _) = Some 3"
| "gnm_part (SetViewport _) = Some 4"
| "gnm_part (SetScissor _) = Some 5"
| "gnm_part (SetClearColor _) = Some 6"
| "gnm_part ResetState = None"

lemma gnm_setters_commute:
  "gnm_part a = Some i \<Longrightarrow> gnm_part b = Some j \<Longrightarrow> i \<noteq> j \<Longrightarrow> gnm_apply u a (gnm_apply u b s) = gnm_apply u b (gnm_apply u a s)"
  by (cases a; cases b; simp add: gnm_setters)

section \<open>The recorder\<close>

record 'c GnmCommandRecorder =
  cr_commands :: "'c list"
  cr_frameRequested :: bool

definition GnmCommandRecorder_new :: "'c GnmCommandRecorder" where
  "GnmCommandRecorder_new = \<lparr>cr_commands = [], cr_frameRequested = False\<rparr>"

definition cr_record :: "'c \<Rightarrow> 'c GnmCommandRecorder \<Rightarrow> 'c GnmCommandRecorder" where
  "cr_record c s = s\<lparr>cr_commands := cr_commands s @ [c]\<rparr>"

definition cr_drain :: "'c GnmCommandRecorder \<Rightarrow> 'c list \<times> 'c GnmCommandRecorder" where
  "cr_drain s = (cr_commands s, s\<lparr>cr_commands := []\<rparr>)"

definition cr_pending :: "'c GnmCommandRecorder \<Rightarrow> nat" where
  "cr_pending s = length (cr_commands s)"

definition requestFrame :: "'c GnmCommandRecorder \<Rightarrow> 'c GnmCommandRecorder" where
  "requestFrame s = s\<lparr>cr_frameRequested := True\<rparr>"

definition takeFrameRequest :: "'c GnmCommandRecorder \<Rightarrow> bool \<times> 'c GnmCommandRecorder" where
  "takeFrameRequest s = (cr_frameRequested s, s\<lparr>cr_frameRequested := False\<rparr>)"

text \<open>
  The two threads take the mutex in turns. The history has what the guest recorded, what the
  runtime extracted, and how many frames were requested and taken.
\<close>

record 'c recorder_run =
  rr_rec :: "'c GnmCommandRecorder"
  rr_recorded :: "'c list"
  rr_drained :: "'c list"
  rr_requests :: nat
  rr_frames :: nat

definition recorder_start :: "'c recorder_run" where
  "recorder_start = \<lparr>rr_rec = GnmCommandRecorder_new, rr_recorded = [], rr_drained = [], rr_requests = 0, rr_frames = 0\<rparr>"

inductive recorder_step :: "'c recorder_run \<Rightarrow> 'c recorder_run \<Rightarrow> bool" where
  guest_records: "recorder_step r (r\<lparr>rr_rec := cr_record c (rr_rec r), rr_recorded := rr_recorded r @ [c]\<rparr>)"
| guest_flips: "recorder_step r (r\<lparr>rr_rec := requestFrame (rr_rec r), rr_requests := Suc (rr_requests r)\<rparr>)"
| runtime_drains: "cr_drain (rr_rec r) = (cs, q) \<Longrightarrow>
    recorder_step r (r\<lparr>rr_rec := q, rr_drained := rr_drained r @ cs\<rparr>)"
| runtime_takes: "takeFrameRequest (rr_rec r) = (b, q) \<Longrightarrow>
    recorder_step r (r\<lparr>rr_rec := q, rr_frames := (if b then Suc (rr_frames r) else rr_frames r)\<rparr>)"

definition recorder_inv :: "'c recorder_run \<Rightarrow> bool" where
  "recorder_inv r \<longleftrightarrow> rr_recorded r = rr_drained r @ cr_commands (rr_rec r)
     \<and> rr_frames r + (if cr_frameRequested (rr_rec r) then 1 else 0) \<le> rr_requests r
     \<and> (0 < rr_requests r \<longrightarrow> 0 < rr_frames r \<or> cr_frameRequested (rr_rec r))"

lemma recorder_step_inv: "recorder_step r r' \<Longrightarrow> recorder_inv r \<Longrightarrow> recorder_inv r'"
  by (induction rule: recorder_step.induct)
    (auto simp: recorder_inv_def cr_record_def cr_drain_def requestFrame_def takeFrameRequest_def split: if_splits)

text \<open>
  Commands reach the runtime in the order the guest recorded them, none lost or repeated,
  however the two threads interleave; there are no more frames than requests, and a request
  is never forgotten before a frame has been taken.
\<close>

theorem recorder_is_fifo:
  assumes "recorder_step\<^sup>*\<^sup>* recorder_start r"
  shows "rr_recorded r = rr_drained r @ cr_commands (rr_rec r)" and "rr_frames r \<le> rr_requests r"
    and "rr_requests r = 0 \<or> 0 < rr_frames r \<or> cr_frameRequested (rr_rec r)"
proof -
  from assms have "recorder_inv r"
    by (induction rule: rtranclp_induct)
      (auto simp: recorder_inv_def recorder_start_def GnmCommandRecorder_new_def dest: recorder_step_inv)
  then show "rr_recorded r = rr_drained r @ cr_commands (rr_rec r)" and "rr_frames r \<le> rr_requests r"
    and "rr_requests r = 0 \<or> 0 < rr_frames r \<or> cr_frameRequested (rr_rec r)"
    by (auto simp: recorder_inv_def)
qed

section \<open>Shaders\<close>

definition kSpirvMagic :: u32 where "kSpirvMagic = 0x07230203"

definition looksLikeSpirv :: "memory \<Rightarrow> u64 \<Rightarrow> u64 \<Rightarrow> bool cpp" where
  "looksLikeSpirv m p n = (if n < 4 then Val False else cpp_bind (load_u32 m p) (\<lambda>v. Val (v = kSpirvMagic)))"

datatype ShaderSource = SrcUnknown | SrcOrbis | SrcSpirv

text \<open>The payload is a span of the guest's buffer: its address and size.\<close>

record Parsed =
  sp_source :: ShaderSource
  sp_stage :: nat
  sp_payload :: "(u64 \<times> u64) option"
  sp_reason :: string

definition GnmShader_parse :: "memory \<Rightarrow> u64 \<Rightarrow> u64 \<Rightarrow> nat \<Rightarrow> (bool \<times> Parsed) cpp" where
  "GnmShader_parse m blob sz expectedStage =
     (let out = \<lparr>sp_source = SrcUnknown, sp_stage = expectedStage, sp_payload = None, sp_reason = []\<rparr>
      in if blob = 0 \<or> sz < 8 then Val (False, out\<lparr>sp_reason := ''shader blob null or too small''\<rparr>)
         else cpp_bind (looksLikeSpirv m blob sz) (\<lambda>spirv.
           if spirv then Val (True, out\<lparr>sp_source := SrcSpirv, sp_payload := Some (blob, sz)\<rparr>)
           else cpp_bind (load_u32 m blob) (\<lambda>w0. cpp_bind (load_u32 m (blob + 4)) (\<lambda>w1.
                  Val (False, out\<lparr>sp_source := SrcOrbis, sp_reason :=
                    ''ORBIS shader binary detected but GCN-to-SPIR-V translation is not implemented; header words 0x''
                    @ dec_digits (unat w0) @ '' / 0x'' @ dec_digits (unat w1)\<rparr>)))))"

text \<open>A shader is accepted exactly when it is long enough and starts with the SPIR-V magic; its payload is the whole blob.\<close>

lemma shader_accepted_iff:
  assumes "GnmShader_parse m blob sz stage = Val (ok, out)"
  shows "ok \<longleftrightarrow> blob \<noteq> 0 \<and> 8 \<le> sz \<and> load_u32 m blob = Val kSpirvMagic"
    and "ok \<Longrightarrow> sp_payload out = Some (blob, sz) \<and> sp_source out = SrcSpirv \<and> sp_stage out = stage"
    and "\<not> ok \<Longrightarrow> sp_payload out = None \<and> sp_reason out \<noteq> []"
proof -
  have "\<not> sz < 8 \<Longrightarrow> \<not> sz < 4" by (simp add: word_less_nat_alt)
  then show "ok \<longleftrightarrow> blob \<noteq> 0 \<and> 8 \<le> sz \<and> load_u32 m blob = Val kSpirvMagic"
    and "ok \<Longrightarrow> sp_payload out = Some (blob, sz) \<and> sp_source out = SrcSpirv \<and> sp_stage out = stage"
    and "\<not> ok \<Longrightarrow> sp_payload out = None \<and> sp_reason out \<noteq> []"
    using assms
    by (auto simp: GnmShader_parse_def looksLikeSpirv_def Let_def cpp_bind_eq_Val_iff not_less split: if_splits)
qed

section \<open>libSceGnm\<close>

record sce_gnm =
  sg_initialized :: bool
  sg_currentClear :: ClearColor

definition kGnmErrInvalidArg :: u32 where "kGnmErrInvalidArg = 0x80020005"

definition sceGnmInit :: "sce_gnm \<Rightarrow> u32 \<times> sce_gnm" where
  "sceGnmInit s = (0, if sg_initialized s then s else s\<lparr>sg_initialized := True\<rparr>)"

definition sceGnmTerminate :: "sce_gnm \<Rightarrow> u32 \<times> sce_gnm" where
  "sceGnmTerminate s = (0, s\<lparr>sg_initialized := False\<rparr>)"

definition sceGnmSubmitDone :: "sce_gnm \<Rightarrow> u32 \<times> sce_gnm" where
  "sceGnmSubmitDone s = (0, s)"

definition sceGnmDrawIndex :: "sce_gnm \<Rightarrow> u32 \<times> sce_gnm" where
  "sceGnmDrawIndex s = (kGnmErrInvalidArg, s)"

definition sceGnmDrawIndexAuto :: "sce_gnm \<Rightarrow> u32 \<times> sce_gnm" where
  "sceGnmDrawIndexAuto s = (kGnmErrInvalidArg, s)"

definition sceGnmDrawInitDefaultHardwareState :: "sce_gnm \<Rightarrow> u32 \<times> sce_gnm" where
  "sceGnmDrawInitDefaultHardwareState s =
     (0, s\<lparr>sg_currentClear := \<lparr>cc_r = 0, cc_g = 0, cc_b = 0, cc_a = 0x3F800000\<rparr>\<rparr>)"

end
