(* ===== verification/Sce_Media.thy ===== *)
theory Sce_Media
  imports Bgft_Transfer Guest_Words
begin

text \<open>
  Libraries that work on media files and buffers: the decode queue of libSceAjm (\<^verbatim>\<open>sce/ajm/SceAjm.cpp\<close>, with the
  decoder factory of \<^verbatim>\<open>audio/AjmDecoder.cpp\<close>), screenshots (\<^verbatim>\<open>sce/screenshot/SceScreenShot.cpp\<close>) and
  the exports of libSceBgft (\<^verbatim>\<open>sce/bgft/SceBgft.cpp\<close>). The codecs are third-party code: what a decoder or encoder
  produces is an argument.
\<close>

definition kMdErrInvalidArg :: u32 where "kMdErrInvalidArg = 0x80020005"
definition kMdErrNotFound :: u32 where "kMdErrNotFound = 0x80020004"
definition kMdErrNotSupport :: u32 where "kMdErrNotSupport = 0x80020003"

lemmas media_errors = kMdErrInvalidArg_def kMdErrNotFound_def kMdErrNotSupport_def

section \<open>Decode jobs\<close>

datatype AjmCodec = AcUnknown | AcMp3 | AcAt9

record DecodeJob =
  dj_codec :: AjmCodec
  dj_input :: u64
  dj_inputSize :: u64
  dj_output :: u64
  dj_outputCapacity :: u64
  dj_produced :: nat
  dj_status :: u32
  dj_done :: bool

text \<open>The decoder of a codec: absent, or a function that fails or yields samples.\<close>

type_synonym decoder = "u8 list \<Rightarrow> u16 list option"

definition AjmDecoder_create :: "decoder option \<Rightarrow> AjmCodec \<Rightarrow> decoder option" where
  "AjmDecoder_create mp3 codec = (case codec of AcMp3 \<Rightarrow> mp3 | AcAt9 \<Rightarrow> None | AcUnknown \<Rightarrow> None)"

record ajm =
  aj_jobs :: "(u64, DecodeJob) umap"
  aj_pending :: "u64 list"
  aj_running :: bool
  aj_next :: u64
  aj_mem :: memory

text \<open>The job of a turn of the worker. A null or empty input is refused before it is read.\<close>

definition ajm_decode :: "decoder option \<Rightarrow> DecodeJob \<Rightarrow> memory \<Rightarrow> (DecodeJob \<times> memory) cpp" where
  "ajm_decode mp3 job m =
     (case AjmDecoder_create mp3 (dj_codec job) of
        None \<Rightarrow> Val (job\<lparr>dj_status := kMdErrNotSupport, dj_done := True\<rparr>, m)
      | Some dec \<Rightarrow>
          if dj_input job = 0 \<or> dj_inputSize job = 0 then
            Val (job\<lparr>dj_status := kMdErrInvalidArg, dj_done := True\<rparr>, m)
          else cpp_bind (load_bytes m (dj_input job) (unat (dj_inputSize job))) (\<lambda>bs.
            case dec bs of
              None \<Rightarrow> Val (job\<lparr>dj_status := kMdErrInvalidArg, dj_done := True\<rparr>, m)
            | Some pcm \<Rightarrow>
                (let n = min (length pcm) (unat (dj_outputCapacity job));
                     data = concat (map (le_bytes 2) (take n pcm));
                     job = job\<lparr>dj_produced := n, dj_status := 0, dj_done := True\<rparr>
                 in if n > 0 \<and> dj_output job \<noteq> 0 then
                      cpp_bind (store_bytes (dj_output job) data m) (\<lambda>m. Val (job, m))
                    else Val (job, m))))"

definition ajm_turn :: "decoder option \<Rightarrow> ajm \<Rightarrow> ajm cpp" where
  "ajm_turn mp3 s =
     (if \<not> aj_running s then Val s
      else case aj_pending s of
        [] \<Rightarrow> Val s
      | i # rest \<Rightarrow>
          let s = s\<lparr>aj_pending := rest\<rparr>
          in case um_find (aj_jobs s) i of
               None \<Rightarrow> Val s
             | Some job \<Rightarrow> cpp_bind (ajm_decode mp3 job (aj_mem s)) (\<lambda>(job, m).
                 Val (s\<lparr>aj_jobs := um_assign i job (aj_jobs s), aj_mem := m\<rparr>)))"

definition sceAjmInitialize :: "u64 \<Rightarrow> ajm \<Rightarrow> (u32 \<times> ajm) cpp" where
  "sceAjmInitialize outContext s =
     (if outContext = 0 then Val (kMdErrInvalidArg, s)
      else let s = s\<lparr>aj_running := True\<rparr>
           in cpp_bind (store_u64 outContext 1 (aj_mem s)) (\<lambda>m. Val (0, s\<lparr>aj_mem := m\<rparr>)))"

definition sceAjmFinalize :: "ajm \<Rightarrow> u32 \<times> ajm" where
  "sceAjmFinalize s = (0, s\<lparr>aj_running := False\<rparr>)"

definition sceAjmModuleRegister :: "decoder option \<Rightarrow> u32 \<Rightarrow> u32" where
  "sceAjmModuleRegister mp3 codecType =
     (if codecType = 1 then if AjmDecoder_create mp3 AcMp3 = None then kMdErrNotSupport else 0
      else kMdErrNotSupport)"

definition sceAjmBatchStartBuffer :: "u64 \<Rightarrow> u64 \<Rightarrow> u64 \<Rightarrow> ajm \<Rightarrow> (u32 \<times> ajm) cpp" where
  "sceAjmBatchStartBuffer batch batchSize outJobId s =
     (if batch = 0 \<or> batchSize < 32 \<or> outJobId = 0 then Val (kMdErrInvalidArg, s)
      else if batchSize < 40 then Val (kMdErrInvalidArg, s)
      else cpp_bind (load_bytes (aj_mem s) batch 40) (\<lambda>h.
        let c = le_field 0 4 h :: u32; codec = (if c = 1 then AcMp3 else if c = 3 then AcAt9 else AcUnknown)
        in if codec = AcUnknown then Val (kMdErrNotSupport, s)
           else let i = aj_next s;
                    job = \<lparr>dj_codec = codec, dj_input = le_field 8 8 h, dj_inputSize = le_field 16 8 h,
                           dj_output = le_field 24 8 h, dj_outputCapacity = le_field 32 8 h,
                           dj_produced = 0, dj_status = 0, dj_done = False\<rparr>;
                    s = s\<lparr>aj_next := i + 1, aj_jobs := um_assign i job (aj_jobs s), aj_pending := aj_pending s @ [i]\<rparr>
                in cpp_bind (store_u64 outJobId i (aj_mem s)) (\<lambda>m. Val (0, s\<lparr>aj_mem := m\<rparr>))))"

text \<open>The wait, once it has found the job done; \<open>None\<close> while the caller still sleeps.\<close>

definition sceAjmBatchWait :: "u64 \<Rightarrow> u64 \<Rightarrow> ajm \<Rightarrow> (u32 \<times> ajm) cpp option" where
  "sceAjmBatchWait jobId outStatus s =
     (case um_find (aj_jobs s) jobId of
        None \<Rightarrow> Some (Val (kMdErrNotFound, s))
      | Some job \<Rightarrow>
          if \<not> dj_done job then None
          else Some (cpp_bind (if outStatus \<noteq> 0 then store_u32 outStatus (dj_status job) (aj_mem s) else Val (aj_mem s)) (\<lambda>m.
                 Val (0, s\<lparr>aj_mem := m, aj_jobs := um_erase jobId (aj_jobs s)\<rparr>))))"

fun ajm_turns :: "decoder option \<Rightarrow> nat \<Rightarrow> ajm \<Rightarrow> ajm cpp" where
  "ajm_turns mp3 0 s = Val s"
| "ajm_turns mp3 (Suc n) s = cpp_bind (ajm_turn mp3 s) (ajm_turns mp3 n)"

lemma ajm_decode_done: "ajm_decode mp3 job m = Val (job', m') \<Longrightarrow> dj_done job'"
  by (auto simp: ajm_decode_def Let_def cpp_bind_eq_Val_iff split: option.splits if_splits)

text \<open>
  Jobs are served in order: while the worker runs, a job that is \<open>k\<close>-th in the queue is done after
  \<open>k\<close> turns, so a wait for it returns.
\<close>

lemma ajm_turn_jobs:
  assumes "ajm_turn mp3 s = Val s'" and "um_find (aj_jobs s) i = Some job" and "aj_running s"
  shows "\<exists>job'. um_find (aj_jobs s') i = Some job' \<and> (dj_done job \<longrightarrow> hd (aj_pending s) \<noteq> i \<longrightarrow> job' = job)
    \<and> (aj_pending s \<noteq> [] \<longrightarrow> hd (aj_pending s) = i \<longrightarrow> dj_done job') \<and> (dj_done job \<longrightarrow> dj_done job')"
  using assms
  by (auto simp: ajm_turn_def Let_def cpp_bind_eq_Val_iff um_simps split: list.splits option.splits dest: ajm_decode_done)

lemma ajm_turn_frame:
  assumes "ajm_turn mp3 s = Val s'" and "aj_running s"
  shows "aj_running s'" and "aj_pending s' = tl (aj_pending s)"
  using assms
  by (auto simp: ajm_turn_def Let_def cpp_bind_eq_Val_iff split: list.splits option.splits)

theorem ajm_job_gets_done:
  assumes "ajm_turns mp3 (Suc k) s = Val s'" and "aj_running s" and "k < length (aj_pending s)"
    and "aj_pending s ! k = i" and "um_find (aj_jobs s) i = Some job"
  shows "\<exists>r. sceAjmBatchWait i 0 s' = Some (Val r) \<and> fst r = 0"
proof -
  have keep: "\<exists>job'. um_find (aj_jobs t') i = Some job' \<and> dj_done job'"
    if "ajm_turns mp3 n t = Val t'" "aj_running t" "um_find (aj_jobs t) i = Some j" "dj_done j" for n t t' j
    using that
  proof (induction n arbitrary: t j)
    case (Suc n)
    from Suc.prems(1) obtain t1 where t1: "ajm_turn mp3 t = Val t1" "ajm_turns mp3 n t1 = Val t'"
      by (auto simp: cpp_bind_eq_Val_iff)
    from ajm_turn_jobs [OF t1(1) Suc.prems(3,2)] Suc.prems(4) obtain j1 where
      "um_find (aj_jobs t1) i = Some j1" "dj_done j1" by blast
    with Suc.IH [OF t1(2) ajm_turn_frame(1) [OF t1(1) Suc.prems(2)]] show ?case by blast
  qed auto
  have "\<exists>job'. um_find (aj_jobs s') i = Some job' \<and> dj_done job'"
    using assms
  proof (induction k arbitrary: s job)
    case (0 s)
    from "0.prems"(1) have t: "ajm_turn mp3 s = Val s'" by (auto simp: cpp_bind_eq_Val_iff)
    from "0.prems"(3,4) have "aj_pending s \<noteq> []" "hd (aj_pending s) = i" by (auto simp: hd_conv_nth)
    with ajm_turn_jobs [OF t "0.prems"(5,2)] show ?case by blast
  next
    case (Suc k s)
    from Suc.prems(1) obtain s1 where s1: "ajm_turn mp3 s = Val s1" "ajm_turns mp3 (Suc k) s1 = Val s'"
      by (auto simp: cpp_bind_eq_Val_iff)
    from ajm_turn_jobs [OF s1(1) Suc.prems(5,2)] obtain j1 where "um_find (aj_jobs s1) i = Some j1" by blast
    moreover have "k < length (aj_pending s1)" "aj_pending s1 ! k = i" "aj_running s1"
      using ajm_turn_frame [OF s1(1) Suc.prems(2)] Suc.prems(3,4) by (cases "aj_pending s"; simp)+
    ultimately show ?case using Suc.IH [OF s1(2)] by blast
  qed
  then show ?thesis by (auto simp: sceAjmBatchWait_def)
qed

text \<open>
  After \<^verbatim>\<open>sceAjmFinalize\<close> nobody serves the queue: a wait for a job that is still pending does not
  return, whatever its timeout says.
\<close>

theorem ajm_wait_after_finalize_hangs:
  assumes "um_find (aj_jobs s) i = Some job" and "\<not> dj_done job"
    and "ajm_turns mp3 n (snd (sceAjmFinalize s)) = Val s'"
  shows "sceAjmBatchWait i out s' = None"
proof -
  have "ajm_turns mp3 n t = Val t' \<Longrightarrow> \<not> aj_running t \<Longrightarrow> t' = t" for t t'
    by (induction n arbitrary: t) (auto simp: ajm_turn_def)
  then have "s' = snd (sceAjmFinalize s)" using assms(3) by (simp add: sceAjmFinalize_def)
  then show ?thesis using assms(1,2) by (simp add: sceAjmBatchWait_def sceAjmFinalize_def)
qed

section \<open>Screenshots\<close>

definition isAlbumPath :: "string \<Rightarrow> bool" where
  "isAlbumPath p \<longleftrightarrow> take 6 p = ''/user/''"

definition hostPathFromGuest :: "FsPolicy option \<Rightarrow> string \<Rightarrow> string cpp" where
  "hostPathFromGuest policy guestPath =
     (case policy of
        None \<Rightarrow> Val []
      | Some pol \<Rightarrow> cpp_bind (resolve pol guestPath FsCreate) (\<lambda>(tr, _). Val (if tr_ok tr then tr_hostPath tr else [])))"

text \<open>An encoder writes bytes and may fail after writing some; the file has to be writable to begin with.\<close>

definition write_image :: "(u8 list \<times> bool) \<Rightarrow> string \<Rightarrow> host_world \<Rightarrow> bool \<times> host_world" where
  "write_image enc p w =
     (if \<not> hw_writable w p then (False, w)
      else (snd enc, w\<lparr>hw_files := (hw_files w)(p \<mapsto> fst enc)\<rparr>))"

text \<open>
  \<open>frame\<close> is what the graphics device captured, absent without a device or frame; \<open>jpeg\<close> and \<open>png\<close> are
  the encoders of the build, applied to it.
\<close>

definition sceScreenShotCapture ::
  "FsPolicy option \<Rightarrow> 'f option \<Rightarrow> ('f \<Rightarrow> u8 list \<times> bool) option \<Rightarrow> ('f \<Rightarrow> u8 list \<times> bool) option
     \<Rightarrow> string option \<Rightarrow> string option \<Rightarrow> host_world \<Rightarrow> (u32 \<times> host_world) cpp" where
  "sceScreenShotCapture policy frame jpeg png guestDir guestFile w =
     (case (guestDir, guestFile) of
        (Some dir, Some name) \<Rightarrow>
          let path = dir @ ''/'' @ name
          in if \<not> isAlbumPath path then Val (kMdErrNotSupport, w)
             else (case frame of
               None \<Rightarrow> Val (kMdErrNotSupport, w)
             | Some fr \<Rightarrow> cpp_bind (hostPathFromGuest policy path) (\<lambda>hostPath.
                 if hostPath = [] then Val (kMdErrNotFound, w)
                 else let w = w\<lparr>hw_mkdirs := hw_mkdirs w @ parent_dirs hostPath\<rparr>;
                          (ok, w) = (case jpeg of None \<Rightarrow> (False, w) | Some e \<Rightarrow> write_image (e fr) hostPath w)
                      in if ok then Val (0, w)
                         else let (ok, w) = (case png of None \<Rightarrow> (False, w) | Some e \<Rightarrow> write_image (e fr) hostPath w)
                              in Val (if ok then 0 else kMdErrNotSupport, w)))
      | _ \<Rightarrow> Val (kMdErrInvalidArg, w))"

text \<open>A screenshot only changes a file that the policy lets the guest create.\<close>

theorem screenshot_confined:
  assumes "sceScreenShotCapture (Some pol) frame jpeg png dir name w = Val (rc, w')"
    and "hw_files w' p \<noteq> hw_files w p"
  shows "creatable pol p"
proof -
  obtain q where q: "hostPathFromGuest (Some pol) q = Val p" "p \<noteq> []"
    using assms by (auto simp: sceScreenShotCapture_def Let_def cpp_bind_eq_Val_iff write_image_def
        split: option.splits if_splits prod.splits)
  then obtain tr e where "resolve pol q FsCreate = Val (tr, e)" "tr_ok tr" "p = tr_hostPath tr"
    by (auto simp: hostPathFromGuest_def cpp_bind_eq_Val_iff split: if_splits)
  then show ?thesis using resolve_create_creatable by blast
qed

text \<open>
  The test of the album root looks at the path before it is normalised: \<^verbatim>\<open>/user/../data\<close> passes it and the
  picture is written outside the album.
\<close>

theorem screenshot_leaves_album:
  "\<exists>w'. sceScreenShotCapture (Some FsPolicy_default) (Some ()) (Some (\<lambda>_. ([1], True))) None
      (Some ''/user/../data'') (Some ''a'')
      \<lparr>hw_files = Map.empty, hw_writable = (\<lambda>_. True), hw_mkdirs = []\<rparr> = Val (0, w')
    \<and> hw_files w' ''virtual_fs/data/a'' = Some [1]"
proof -
  have "resolve FsPolicy_default ''/user/../data/a'' FsCreate = Val (\<lparr>tr_ok = True, tr_guestPath = ''/user/../data/a'',
      tr_hostPath = ''virtual_fs/data/a'', tr_mount = Some (mount_point ''/data'' ''data'' False True True)\<rparr>, 0)"
    by code_simp
  then show ?thesis
    by (simp add: sceScreenShotCapture_def isAlbumPath_def hostPathFromGuest_def write_image_def)
qed

section \<open>libSceBgft\<close>

text \<open>The strings of the parameter block are at the offsets 16 (source), 528 (name) and 592 (directory).\<close>

definition guest_string :: "memory \<Rightarrow> u64 \<Rightarrow> string cpp" where
  "guest_string m a = cpp_bind (c_bytes m a) (\<lambda>bs. Val (map byte_char bs))"

definition sceBgftServiceDownloadRegisterTask ::
  "u64 \<Rightarrow> u64 \<Rightarrow> BgftTransfer \<times> memory \<Rightarrow> (u32 \<times> BgftTransfer \<times> memory) cpp" where
  "sceBgftServiceDownloadRegisterTask p outTaskId = (\<lambda>(b, m).
     if p = 0 \<or> outTaskId = 0 then Val (kMdErrInvalidArg, b, m)
     else cpp_bind (guest_string m (p + 16)) (\<lambda>src. cpp_bind (guest_string m (p + 592)) (\<lambda>dst.
          cpp_bind (guest_string m (p + 528)) (\<lambda>name.
            let dst = (if dst \<noteq> [] \<and> last dst \<noteq> CHR ''/'' then dst @ ''/'' else dst) @ name;
                (i, b) = BgftTransfer_submit src dst b
            in cpp_bind (store_u32 outTaskId i m) (\<lambda>m. Val (0, b, m))))))"

definition sceBgftServiceDownloadGetTaskInfo :: "u32 \<Rightarrow> u64 \<Rightarrow> BgftTransfer \<Rightarrow> memory \<Rightarrow> (u32 \<times> memory) cpp" where
  "sceBgftServiceDownloadGetTaskInfo taskId outInfo b m =
     (if outInfo = 0 then Val (kMdErrInvalidArg, m)
      else case BgftTransfer_query taskId b of
        None \<Rightarrow> Val (kMdErrNotFound, m)
      | Some (tot, copied, state, err) \<Rightarrow>
          cpp_bind (store_bytes outInfo (le_bytes 4 taskId @ le_bytes 4 state @ le_bytes 8 tot @ le_bytes 8 copied
              @ le_bytes 4 err @ replicate 36 0) m) (\<lambda>m. Val (0, m)))"

definition sceBgftServiceIntDownloadRegisterTaskByStorageEx :: "u64 \<Rightarrow> memory \<Rightarrow> (u32 \<times> memory) cpp" where
  "sceBgftServiceIntDownloadRegisterTaskByStorageEx outTaskId m =
     (if outTaskId \<noteq> 0 then cpp_bind (store_u32 outTaskId (-1) m) (\<lambda>m. Val (0, m)) else Val (0, m))"

text \<open>A registered task can be queried by the number it was given, and starts out pending.\<close>

lemma bgft_register_query:
  assumes "sceBgftServiceDownloadRegisterTask p out (b, m) = Val (0, b', m')"
  shows "\<exists>i. load_u32 m' out = Val i \<and> BgftTransfer_query i b' = Some (0, 0, 0, 0) \<and> last (bt_pending b') = i"
proof -
  from assms obtain src dst where b': "BgftTransfer_submit src dst b = (bt_nextId b, b')"
    and st: "store_u32 out (bt_nextId b) m = Val m'"
    by (auto simp: sceBgftServiceDownloadRegisterTask_def BgftTransfer_submit_def media_errors Let_def
        cpp_bind_eq_Val_iff split: if_splits)
  have "load_u32 m' out = Val (bt_nextId b)"
    using load_store_bytes [OF st [unfolded store_u32_def]] by (simp add: load_u32_def le_bytes_def [symmetric] le_field_le_bytes)
  with b' show ?thesis by (auto simp: BgftTransfer_submit_def BgftTransfer_query_def Transfer_new_def Let_def um_simps)
qed


section \<open>libSceAudiodec\<close>

text \<open>The decoders by handle. A decoder may be there in the build or not, as for libSceAjm.\<close>

record audiodec =
  ad_decoders :: "(u64, AjmCodec) umap"
  ad_next :: u64

definition sceAudiodecCreateDecoder ::
  "decoder option \<Rightarrow> u64 \<Rightarrow> u64 \<Rightarrow> audiodec \<times> memory \<Rightarrow> (u32 \<times> audiodec \<times> memory) cpp" where
  "sceAudiodecCreateDecoder mp3 param outHandle = (\<lambda>(s, m).
     if param = 0 \<or> outHandle = 0 then Val (kMdErrInvalidArg, s, m)
     else cpp_bind (load_bytes m param 8) (\<lambda>p.
       let c = le_field 0 4 p :: u32; codec = (if c = 0x02 then AcMp3 else if c = 0x0F then AcAt9 else AcUnknown)
       in if codec = AcUnknown \<or> AjmDecoder_create mp3 codec = None then Val (kMdErrNotSupport, s, m)
          else let h = ad_next s; s = \<lparr>ad_decoders = um_assign h codec (ad_decoders s), ad_next = h + 1\<rparr>
               in cpp_bind (store_u64 outHandle h m) (\<lambda>m. Val (0, s, m))))"

definition sceAudiodecDeleteDecoder :: "u64 \<Rightarrow> audiodec \<Rightarrow> u32 \<times> audiodec" where
  "sceAudiodecDeleteDecoder handle s =
     (if um_find (ad_decoders s) handle = None then (kMdErrNotFound, s)
      else (0, s\<lparr>ad_decoders := um_erase handle (ad_decoders s)\<rparr>))"

definition sceAudiodecDecode ::
  "decoder option \<Rightarrow> u64 \<Rightarrow> u64 \<Rightarrow> u64 \<Rightarrow> u64 \<Rightarrow> u64 \<Rightarrow> u64 \<Rightarrow> audiodec \<Rightarrow> memory \<Rightarrow> (u32 \<times> memory) cpp" where
  "sceAudiodecDecode mp3 handle input inputSize out outputCapacity outProduced s m =
     (case um_find (ad_decoders s) handle of
        None \<Rightarrow> Val (kMdErrNotFound, m)
      | Some codec \<Rightarrow>
          if input = 0 \<or> out = 0 \<or> inputSize = 0 then Val (kMdErrInvalidArg, m)
          else (case AjmDecoder_create mp3 codec of
            None \<Rightarrow> UB
          | Some dec \<Rightarrow> cpp_bind (load_bytes m input (unat inputSize)) (\<lambda>bs.
              case dec bs of
                None \<Rightarrow> Val (kMdErrInvalidArg, m)
              | Some pcm \<Rightarrow>
                  let n = min (length pcm) (unat outputCapacity div 2)
                  in cpp_bind (store_bytes out (concat (map (le_bytes 2) (take n pcm))) m) (\<lambda>m.
                     cpp_bind (if outProduced \<noteq> 0 then store_u64 outProduced (of_nat (2 * n)) m else Val m) (\<lambda>m.
                       Val (0, m))))))"

text \<open>
  A handle only ever names a codec with a decoder, so the decoder a call finds is there; and what it
  writes fits the capacity the guest gave, whatever the codec produced.
\<close>

definition audiodec_inv :: "decoder option \<Rightarrow> audiodec \<Rightarrow> bool" where
  "audiodec_inv mp3 s \<longleftrightarrow> (\<forall>h codec. um_find (ad_decoders s) h = Some codec \<longrightarrow> AjmDecoder_create mp3 codec \<noteq> None)"

lemma audiodec_create_inv:
  "sceAudiodecCreateDecoder mp3 p out (s, m) = Val (rc, s', m') \<Longrightarrow> audiodec_inv mp3 s \<Longrightarrow> audiodec_inv mp3 s'"
  by (auto simp: sceAudiodecCreateDecoder_def audiodec_inv_def Let_def cpp_bind_eq_Val_iff um_simps split: if_splits)

lemma audiodec_delete_inv: "audiodec_inv mp3 s \<Longrightarrow> audiodec_inv mp3 (snd (sceAudiodecDeleteDecoder h s))"
  by (auto simp: sceAudiodecDeleteDecoder_def audiodec_inv_def um_simps split: if_splits)

lemma samples_bytes_length: "length (concat (map (le_bytes 2) (pcm :: u16 list))) = 2 * length pcm"
  by (induction pcm) (simp_all add: le_bytes_def)

theorem audiodec_output_fits:
  assumes "sceAudiodecDecode mp3 h input n out cap 0 s m = Val (rc, m')"
    and "m' a \<noteq> m a"
  shows "unat (a - out) < unat cap"
proof -
  from assms obtain pcm where "store_bytes out (concat (map (le_bytes 2) (take (min (length pcm) (unat cap div 2)) (pcm :: u16 list)))) m = Val m'"
    by (auto simp: sceAudiodecDecode_def Let_def cpp_bind_eq_Val_iff split: option.splits if_splits)
  moreover have "unat cap div 2 < 2 ^ 63"
    by (rule less_mult_imp_div_less) (use unat_lt_64 [of cap] in simp)
  then have "min (length pcm) (unat cap div 2) < 2 ^ 63" by (simp add: min_less_iff_disj)
  ultimately have "unat (a - out) < 2 * min (length pcm) (unat cap div 2)"
    using store_bytes_keeps [of out _ m m' a] assms(2) by (fastforce simp: samples_bytes_length not_less)
  then show ?thesis by linarith
qed

section \<open>libSceFont\<close>

text \<open>
  Faces by handle. FreeType's answers are arguments: whether it accepts the font data, and the bitmap it renders, a
  list of rows of pixels all of the same width.
\<close>

record sce_font =
  sf_fonts :: "u64 list"
  sf_next :: u64

definition sceFontCreateLibraryFromMemory ::
  "bool \<Rightarrow> bool \<Rightarrow> u64 \<Rightarrow> u64 \<Rightarrow> u64 \<Rightarrow> sce_font \<times> memory \<Rightarrow> (u32 \<times> sce_font \<times> memory) cpp" where
  "sceFontCreateLibraryFromMemory freetype accepted outLibrary fontData fontDataSize = (\<lambda>(s, m).
     if outLibrary = 0 \<or> fontData = 0 \<or> fontDataSize = 0 then Val (kMdErrInvalidArg, s, m)
     else if \<not> freetype then Val (kMdErrNotSupport, s, m)
     else if \<not> accepted then Val (kMdErrInvalidArg, s, m)
     else let h = sf_next s; s = \<lparr>sf_fonts = h # removeAll h (sf_fonts s), sf_next = h + 1\<rparr>
          in cpp_bind (store_u64 outLibrary h m) (\<lambda>m. Val (0, s, m)))"

definition sceFontDestroyLibrary :: "u64 \<Rightarrow> sce_font \<Rightarrow> u32 \<times> sce_font" where
  "sceFontDestroyLibrary library s =
     (if library = 0 then (kMdErrInvalidArg, s)
      else if library \<notin> set (sf_fonts s) then (kMdErrNotFound, s)
      else (0, s\<lparr>sf_fonts := removeAll library (sf_fonts s)\<rparr>))"

fun copy_rows :: "u64 \<Rightarrow> u32 \<Rightarrow> u8 list list \<Rightarrow> nat \<Rightarrow> memory \<Rightarrow> memory cpp" where
  "copy_rows dst stride [] y m = Val m"
| "copy_rows dst stride (row # rows) y m =
     (let a = dst + ucast (of_nat y * stride :: u32)
      in cpp_bind (store_bytes a row m) (\<lambda>m.
         cpp_bind (if unat stride > length row
                   then store_bytes (a + of_nat (length row)) (replicate (unat stride - length row) 0) m else Val m) (\<lambda>m.
           copy_rows dst stride rows (Suc y) m)))"

definition sceFontGetCharGlyphImage ::
  "u8 list list option \<Rightarrow> u64 \<Rightarrow> u64 \<Rightarrow> u32 \<Rightarrow> u32 \<Rightarrow> sce_font \<Rightarrow> memory \<Rightarrow> (u32 \<times> memory) cpp" where
  "sceFontGetCharGlyphImage bitmap library outBitmap outStride outHeight s m =
     (if library = 0 \<or> outBitmap = 0 then Val (kMdErrInvalidArg, m)
      else if library \<notin> set (sf_fonts s) then Val (kMdErrNotFound, m)
      else case bitmap of
        None \<Rightarrow> Val (kMdErrInvalidArg, m)
      | Some rows \<Rightarrow> cpp_bind (copy_rows outBitmap outStride (take (unat outHeight) rows) 0 m) (\<lambda>m. Val (0, m)))"

text \<open>
  The width of the bitmap is not compared with the stride: a glyph wider than the guest's rows is written past the
  end of its buffer of \<open>outStride * outHeight\<close> bytes.
\<close>

theorem glyph_overruns_buffer:
  "\<exists>m'. sceFontGetCharGlyphImage (Some [[1, 2, 3, 4]]) 1 0x1000 2 1 \<lparr>sf_fonts = [1], sf_next = 2\<rparr>
      (\<lambda>a. if 0x1000 \<le> a \<and> a < 0x1010 then Some 0 else None) = Val (0, m')
    \<and> m' (0x1000 + 3) = Some 4"
  by (simp add: sceFontGetCharGlyphImage_def)

end
