(* ===== verification/Trace_Config.thy ===== *)
theory Trace_Config
  imports Prelude
begin

text \<open>
  Logging: which messages are written (\<^verbatim>\<open>debug/Log.cpp\<close>) and how the trace specification selects categories
  (\<^verbatim>\<open>debug/TraceConfig.cpp\<close>). Time stamps and files are the host's; a line is its text without the stamp.
\<close>

section \<open>The log\<close>

definition kCategoryNames :: "string list" where
  "kCategoryNames = [''HOST'', ''LOADER'', ''SYSCALL'', ''SCE'', ''FS'', ''INPUT'', ''AUDIO'', ''NETWORK'', ''MEMORY'',
     ''GRAPHICS'', ''VULKAN'', ''OPENGL'', ''THREAD'', ''PROCESS'', ''HANDLE'', ''ERROR'']"

definition kLevelNames :: "string list" where
  "kLevelNames = [''TRACE'', ''DEBUG'', ''INFO'', ''WARN'', ''ERROR'', ''FATAL'']"

definition logCategoryName :: "nat \<Rightarrow> string" where
  "logCategoryName c = (if c < length kCategoryNames then kCategoryNames ! c else ''?'')"

definition logLevelName :: "nat \<Rightarrow> string" where
  "logLevelName l = (if l < length kLevelNames then kLevelNames ! l else ''?'')"

text \<open>\<open>lg_lines\<close> has what went to standard error and to the file.\<close>

record Log =
  lg_minLevel :: nat
  lg_catEnabled :: "bool list"
  lg_file :: "string option"
  lg_toStderr :: bool
  lg_stderr :: "string list"
  lg_lines :: "(string \<times> string) list"

definition upper_char :: "char \<Rightarrow> char" where
  "upper_char c = (if 97 \<le> (of_char c :: int) \<and> (of_char c :: int) \<le> 122 then char_of (of_char c - 32 :: int) else c)"

definition lower_char :: "char \<Rightarrow> char" where
  "lower_char c = (if 65 \<le> (of_char c :: int) \<and> (of_char c :: int) \<le> 90 then char_of (of_char c + 32 :: int) else c)"

definition Log_init :: "string option \<Rightarrow> Log \<Rightarrow> Log" where
  "Log_init env s =
     (let s = s\<lparr>lg_catEnabled := replicate 16 True, lg_file := None, lg_toStderr := True, lg_minLevel := 1\<rparr>
      in case env of
           None \<Rightarrow> s
         | Some e \<Rightarrow>
             let e = map upper_char e
             in if e = ''TRACE'' then s\<lparr>lg_minLevel := 0\<rparr>
                else if e = ''DEBUG'' then s\<lparr>lg_minLevel := 1\<rparr>
                else if e = ''INFO'' then s\<lparr>lg_minLevel := 2\<rparr>
                else if e = ''WARN'' then s\<lparr>lg_minLevel := 3\<rparr>
                else if e = ''ERROR'' then s\<lparr>lg_minLevel := 4\<rparr>
                else s)"

definition Log_shutdown :: "Log \<Rightarrow> Log" where
  "Log_shutdown s = s\<lparr>lg_file := None\<rparr>"

definition setMinLevel :: "nat \<Rightarrow> Log \<Rightarrow> Log" where
  "setMinLevel l s = s\<lparr>lg_minLevel := l\<rparr>"

text \<open>\<open>opens\<close> says whether the file can be opened.\<close>

definition setOutputFile :: "bool \<Rightarrow> string \<Rightarrow> Log \<Rightarrow> Log" where
  "setOutputFile opens p s = s\<lparr>lg_file := (if opens then Some p else None)\<rparr>"

definition setToStderr :: "bool \<Rightarrow> Log \<Rightarrow> Log" where
  "setToStderr b s = s\<lparr>lg_toStderr := b\<rparr>"

definition setCategoryEnabled :: "nat \<Rightarrow> bool \<Rightarrow> Log \<Rightarrow> Log" where
  "setCategoryEnabled c b s = s\<lparr>lg_catEnabled := (lg_catEnabled s)[c := b]\<rparr>"

definition Log_isEnabled :: "nat \<Rightarrow> nat \<Rightarrow> Log \<Rightarrow> bool" where
  "Log_isEnabled l c s = (if l < lg_minLevel s then False else lg_catEnabled s ! c)"

definition Log_write :: "nat \<Rightarrow> nat \<Rightarrow> string \<Rightarrow> Log \<Rightarrow> Log" where
  "Log_write l c msg s =
     (if l < lg_minLevel s then s
      else if \<not> lg_catEnabled s ! c then s
      else let line = ''['' @ logLevelName l @ ''][''  @ logCategoryName c @ ''] '' @ msg @ [CHR 0x0A];
               s = (if lg_toStderr s then s\<lparr>lg_stderr := lg_stderr s @ [line]\<rparr> else s)
           in case lg_file s of None \<Rightarrow> s | Some f \<Rightarrow> s\<lparr>lg_lines := lg_lines s @ [(f, line)]\<rparr>)"

section \<open>Trace specifications\<close>

definition trace_space :: "char \<Rightarrow> bool" where
  "trace_space c \<longleftrightarrow> c = CHR '' '' \<or> 9 \<le> (of_char c :: int) \<and> (of_char c :: int) \<le> 13"

definition trim :: "string \<Rightarrow> string" where
  "trim s = rev (dropWhile trace_space (rev (dropWhile trace_space s)))"

definition lower :: "string \<Rightarrow> string" where
  "lower s = map lower_char s"

text \<open>\<^verbatim>\<open>std::getline\<close> in a loop: an empty last piece is not delivered.\<close>

fun split_on :: "char \<Rightarrow> string \<Rightarrow> string \<Rightarrow> string list" where
  "split_on d acc [] = (if acc = [] then [] else [acc])"
| "split_on d acc (c # cs) = (if c = d then acc # split_on d [] cs else split_on d (acc @ [c]) cs)"

definition trace_split :: "string \<Rightarrow> char \<Rightarrow> string list" where
  "trace_split s d = split_on d [] s"

definition categoryNames :: "string list" where
  "categoryNames = map (\<lambda>i. lower (logCategoryName i)) [0..<16]"

fun name_index :: "string \<Rightarrow> nat \<Rightarrow> string list \<Rightarrow> nat option" where
  "name_index n i [] = None"
| "name_index n i (x # xs) = (if x = n then Some i else name_index n (Suc i) xs)"

definition categoryFromName :: "string \<Rightarrow> nat option" where
  "categoryFromName n = name_index n 0 categoryNames"

definition setAll :: "bool \<Rightarrow> Log \<Rightarrow> Log" where
  "setAll b s = fold (\<lambda>i. setCategoryEnabled i b) [0..<16] s"

text \<open>A token after trimming: what it names and whether it enables it.\<close>

datatype trace_target = TAll | TNone | TCategory nat | TUnknown string

definition token_target :: "string \<Rightarrow> trace_target \<times> bool" where
  "token_target t =
     (let enable = (hd t \<noteq> CHR ''-''); t = (if enable then t else trim (tl t))
      in (if t = ''all'' then TAll
          else if t = ''none'' then TNone
          else case categoryFromName t of Some c \<Rightarrow> TCategory c | None \<Rightarrow> TUnknown t, enable))"

definition apply_token :: "string \<Rightarrow> bool \<times> Log \<Rightarrow> bool \<times> Log" where
  "apply_token t0 = (\<lambda>(ok, s).
     let t = trim t0
     in if t = [] then (ok, s)
        else case token_target t of
          (TAll, enable) \<Rightarrow> (ok, setAll enable s)
        | (TNone, enable) \<Rightarrow> (ok, setAll (\<not> enable) s)
        | (TCategory c, enable) \<Rightarrow> (ok, setCategoryEnabled c enable s)
        | (TUnknown n, enable) \<Rightarrow>
            (False, Log_write 3 15 (''FUSIONPS4_TRACE: unknown category '' @ CHR 0x22 # n @ [CHR 0x22]) s))"

definition TraceConfig_apply :: "string \<Rightarrow> Log \<Rightarrow> bool \<times> Log" where
  "TraceConfig_apply specRaw s =
     (let spec = trim (lower specRaw)
      in if spec = [] then (True, s)
         else let tokens = trace_split spec CHR '','';
                  blacklistMode = list_ex (\<lambda>t. t \<noteq> [] \<and> hd t = CHR ''-'') tokens
              in if spec = ''all'' then (True, setAll True s)
                 else if spec = ''none'' then (True, setAll False s)
                 else fold apply_token tokens (True, setAll blacklistMode s))"

definition applyFromEnvironment :: "string option \<Rightarrow> Log \<Rightarrow> Log" where
  "applyFromEnvironment env s =
     (case env of None \<Rightarrow> s | Some e \<Rightarrow> if e = [] then s else snd (TraceConfig_apply e s))"

section \<open>What a specification selects\<close>

text \<open>What a token says about a category, if anything.\<close>

definition token_says :: "nat \<Rightarrow> string \<Rightarrow> bool option" where
  "token_says c t0 =
     (let t = trim t0
      in if t = [] then None
         else case token_target t of
           (TAll, enable) \<Rightarrow> Some enable
         | (TNone, enable) \<Rightarrow> Some (\<not> enable)
         | (TCategory d, enable) \<Rightarrow> if d = c then Some enable else None
         | (TUnknown n, enable) \<Rightarrow> None)"

text \<open>The last token that says something decides.\<close>

definition last_word :: "nat \<Rightarrow> string list \<Rightarrow> bool \<Rightarrow> bool" where
  "last_word c tokens base = fold (\<lambda>t b. case token_says c t of None \<Rightarrow> b | Some b' \<Rightarrow> b') tokens base"

lemma setAll_enabled:
  assumes "length (lg_catEnabled s) = 16"
  shows "lg_catEnabled (setAll b s) = replicate 16 b"
proof -
  have "lg_catEnabled (fold (\<lambda>i. setCategoryEnabled i b) is s) = fold (\<lambda>i xs. xs[i := b]) is (lg_catEnabled s)" for "is"
    by (induction "is" arbitrary: s) (simp_all add: setCategoryEnabled_def)
  moreover have "length (fold (\<lambda>i xs. xs[i := b]) is xs) = length xs" for "is" and xs :: "bool list"
    by (induction "is" arbitrary: xs) simp_all
  moreover have "j < length xs \<Longrightarrow> fold (\<lambda>i xs. xs[i := b]) is xs ! j = (if j \<in> set is then b else xs ! j)"
    for "is" j and xs :: "bool list"
    by (induction "is" arbitrary: xs) (auto simp: nth_list_update)
  ultimately show ?thesis using assms by (intro nth_equalityI) (simp_all add: setAll_def)
qed

lemma Log_write_enabled: "lg_catEnabled (Log_write l c m s) = lg_catEnabled s"
  by (simp add: Log_write_def Let_def split: option.splits)

lemma apply_token_enabled:
  assumes "length (lg_catEnabled s) = 16" and "c < 16" and "apply_token t (ok, s) = (ok', s')"
  shows "length (lg_catEnabled s') = 16"
    and "lg_catEnabled s' ! c = (case token_says c t of None \<Rightarrow> lg_catEnabled s ! c | Some b \<Rightarrow> b)"
  using assms
  by (auto simp: apply_token_def token_says_def Let_def setAll_enabled Log_write_enabled setCategoryEnabled_def
      nth_list_update split: if_splits prod.splits trace_target.splits option.splits)

text \<open>
  The last word wins: after a specification has been applied, a category is enabled exactly when the
  last token that names it (or all, or none) enables it, and when there is none, exactly when some token starts with a dash.
\<close>

theorem trace_last_word_wins:
  assumes "length (lg_catEnabled s) = 16" and "c < 16"
    and "trim (lower spec) \<notin> {[], ''all'', ''none''}"
  shows "lg_catEnabled (snd (TraceConfig_apply spec s)) ! c
    = last_word c (trace_split (trim (lower spec)) CHR '','')
        (list_ex (\<lambda>t. t \<noteq> [] \<and> hd t = CHR ''-'') (trace_split (trim (lower spec)) CHR '',''))"
proof -
  have "lg_catEnabled (snd (fold apply_token ts (ok, t))) ! c = last_word c ts (lg_catEnabled t ! c)"
    if "length (lg_catEnabled t) = 16" for ts ok t
    using that
  proof (induction ts arbitrary: ok t)
    case (Cons x ts)
    obtain ok' t' where s: "apply_token x (ok, t) = (ok', t')" by fastforce
    note h = apply_token_enabled [OF Cons.prems assms(2) s]
    show ?case using Cons.IH [OF h(1)] h(2) s by (simp add: last_word_def)
  qed (simp add: last_word_def)
  moreover have "lg_catEnabled (setAll b s) ! c = b" "length (lg_catEnabled (setAll b s)) = 16" for b
    using assms(1,2) by (simp_all add: setAll_enabled)
  ultimately show ?thesis using assms(3) by (simp add: TraceConfig_apply_def Let_def)
qed

text \<open>
  Two departures from the comments: a dash after a blank does not switch to the mode where everything else
  is enabled, and the warning about an unknown category is lost with the category it is written to.
\<close>

definition log_demo :: Log where
  "log_demo = \<lparr>lg_minLevel = 1, lg_catEnabled = replicate 16 True, lg_file = None, lg_toStderr = True,
     lg_stderr = [], lg_lines = []\<rparr>"

theorem dash_after_blank_ignored:
  "lg_catEnabled (snd (TraceConfig_apply ''host,-sce'' log_demo)) ! 4
   \<and> \<not> lg_catEnabled (snd (TraceConfig_apply ''host, -sce'' log_demo)) ! 4"
  by code_simp

theorem unknown_category_warning_lost:
  "TraceConfig_apply ''host,nosuch'' log_demo = (False, log_demo\<lparr>lg_catEnabled := True # replicate 15 False\<rparr>)"
  by code_simp

end
