(* ===== verification/Overlay.thy ===== *)
theory Overlay
  imports Binary32 Resource_Ledger
begin

unbundle bit_operations_syntax

text \<open>
  The overlay that draws dialogs (\<^verbatim>\<open>graphics/overlay/OverlayRenderer.cpp\<close>): the font atlas, the vertices
  of rectangles and text, and the device objects the renderer owns. What FreeType renders and what the graphics
  device answers are arguments.
\<close>

section \<open>The font atlas\<close>

definition kGlyphSize :: nat where "kGlyphSize = 32"
definition kAtlasCols :: nat where "kAtlasCols = 16"
definition kAtlasRows :: nat where "kAtlasRows = 16"
definition kAtlasW :: nat where "kAtlasW = kGlyphSize * kAtlasCols"
definition kAtlasH :: nat where "kAtlasH = kGlyphSize * kAtlasRows"

lemmas atlas_sizes = kGlyphSize_def kAtlasCols_def kAtlasRows_def kAtlasW_def kAtlasH_def

text \<open>A rendered glyph: its size, its pixels by row and column, and its advance in pixels.\<close>

record glyph_bitmap =
  gb_rows :: nat
  gb_width :: nat
  gb_pixel :: "nat \<Rightarrow> nat \<Rightarrow> u8"
  gb_advance :: int

record Glyph =
  gl_u0 :: f32
  gl_v0 :: f32
  gl_u1 :: f32
  gl_v1 :: f32
  gl_advance :: f32

definition Glyph_zero :: Glyph where
  "Glyph_zero = \<lparr>gl_u0 = Fin False 0 0, gl_v0 = Fin False 0 0, gl_u1 = Fin False 0 0, gl_v1 = Fin False 0 0,
     gl_advance = Fin False 0 0\<rparr>"

definition cell_x :: "nat \<Rightarrow> nat" where "cell_x cp = (cp - 32) mod kAtlasCols * kGlyphSize"
definition cell_y :: "nat \<Rightarrow> nat" where "cell_y cp = (cp - 32) div kAtlasCols * kGlyphSize"

text \<open>The writes of the two nested loops for a code point, in their order.\<close>

definition glyph_writes :: "nat \<Rightarrow> glyph_bitmap \<Rightarrow> (nat \<times> u8) list" where
  "glyph_writes cp b =
     concat (map (\<lambda>y. map (\<lambda>x. ((cell_y cp + 2 + y) * kAtlasW + (cell_x cp + x), gb_pixel b y x))
       [0..<min (gb_width b) kGlyphSize]) [0..<min (gb_rows b) (kGlyphSize - 4)])"

type_synonym atlas = "nat \<Rightarrow> u8"

text \<open>An element of the atlas is stored; outside it that is undefined.\<close>

fun put_atlas :: "(nat \<times> u8) list \<Rightarrow> atlas \<Rightarrow> atlas cpp" where
  "put_atlas [] a = Val a"
| "put_atlas ((i, v) # ws) a = (if i < kAtlasW * kAtlasH then put_atlas ws (a(i := v)) else UB)"

text \<open>A texel coordinate divided by 512 is exact in binary32.\<close>

definition make_glyph :: "nat \<Rightarrow> glyph_bitmap \<Rightarrow> Glyph" where
  "make_glyph cp b =
     \<lparr>gl_u0 = Fin False (int (cell_x cp)) (-9), gl_v0 = Fin False (int (cell_y cp)) (-9),
      gl_u1 = Fin False (int (cell_x cp + kGlyphSize)) (-9), gl_v1 = Fin False (int (cell_y cp + kGlyphSize)) (-9),
      gl_advance = f32_of_int (gb_advance b)\<rparr>"

fun load_glyphs :: "(nat \<Rightarrow> glyph_bitmap option) \<Rightarrow> nat list \<Rightarrow> atlas \<times> Glyph list \<Rightarrow> (atlas \<times> Glyph list) cpp" where
  "load_glyphs font [] s = Val s"
| "load_glyphs font (cp # cps) (a, gs) =
     (case font cp of
        None \<Rightarrow> load_glyphs font cps (a, gs)
      | Some b \<Rightarrow> cpp_bind (put_atlas (glyph_writes cp b) a) (\<lambda>a.
          load_glyphs font cps (a, gs[cp - 32 := make_glyph cp b])))"

definition font_atlas :: "(nat \<Rightarrow> glyph_bitmap option) \<Rightarrow> (atlas \<times> Glyph list) cpp" where
  "font_atlas font = load_glyphs font [32..<127] (\<lambda>_. 0, replicate 95 Glyph_zero)"

definition atlas_rgba :: "atlas \<Rightarrow> u8 list" where
  "atlas_rgba a = concat (map (\<lambda>i. [255, 255, 255, a i]) [0..<kAtlasW * kAtlasH])"

text \<open>A glyph is written inside its own cell.\<close>

definition in_cell :: "nat \<Rightarrow> nat \<Rightarrow> bool" where
  "in_cell cp i \<longleftrightarrow> i div kAtlasW div kGlyphSize = (cp - 32) div kAtlasCols
     \<and> i mod kAtlasW div kGlyphSize = (cp - 32) mod kAtlasCols"

lemma glyph_writes_in_cell:
  assumes "32 \<le> cp" and "cp < 127" and "(i, v) \<in> set (glyph_writes cp b)"
  shows "in_cell cp i" and "i < kAtlasW * kAtlasH"
proof -
  from assms(3) obtain y x where yx: "y < 28" "x < 32"
    and i: "i = (cell_y cp + 2 + y) * 512 + (cell_x cp + x)"
    by (auto simp: glyph_writes_def atlas_sizes)
  define r c where "r = (cp - 32) div 16" and "c = (cp - 32) mod 16"
  have rc: "r < 6" "c < 16" using assms(1,2) by (simp_all add: r_def c_def less_mult_imp_div_less)
  have i': "i = (r * 32 + (2 + y)) * 512 + (c * 32 + x)" using i by (simp add: cell_x_def cell_y_def atlas_sizes r_def c_def)
  have x: "c * 32 + x < 512" using rc yx by linarith
  then have "i div 512 = r * 32 + (2 + y)" "i mod 512 = c * 32 + x" by (simp_all only: i' div_mult_self3 mod_mult_self3) simp_all
  moreover have "(r * 32 + (2 + y)) div 32 = r" "(c * 32 + x) div 32 = c" using yx by simp_all
  ultimately show "in_cell cp i" by (simp add: in_cell_def atlas_sizes r_def c_def)
  have "r * 32 + (2 + y) \<le> 189" using rc yx by linarith
  then have "(r * 32 + (2 + y)) * 512 \<le> 189 * 512" by (rule mult_le_mono1)
  then have "(r * 32 + (2 + y)) * 512 + (c * 32 + x) < 190 * 512" using x by linarith
  then show "i < kAtlasW * kAtlasH" by (simp add: i' atlas_sizes)
qed

lemma put_atlas_defined:
  assumes "\<forall>(i, v) \<in> set ws. i < kAtlasW * kAtlasH"
  shows "\<exists>a'. put_atlas ws a = Val a' \<and> (\<forall>j. j \<notin> fst ` set ws \<longrightarrow> a' j = a j)"
  using assms by (induction ws arbitrary: a) (auto, metis fun_upd_other)

text \<open>
  The atlas is built without leaving it, whatever FreeType renders, and every glyph keeps to its
  cell: a texel of a cell whose glyph is empty stays transparent.
\<close>

lemma atlas_built:
  "\<exists>a gs. font_atlas font = Val (a, gs) \<and> length gs = 95
     \<and> (\<forall>i. (\<forall>cp b. 32 \<le> cp \<and> cp < 127 \<and> font cp = Some b \<longrightarrow> i \<notin> fst ` set (glyph_writes cp b)) \<longrightarrow> a i = 0)"
proof -
  have "\<exists>a' gs'. load_glyphs font cps (a, gs) = Val (a', gs') \<and> length gs' = length gs
     \<and> (\<forall>i. (\<forall>cp b. 32 \<le> cp \<and> cp < 127 \<and> font cp = Some b \<longrightarrow> i \<notin> fst ` set (glyph_writes cp b)) \<longrightarrow> a' i = a i)"
    if "\<forall>cp \<in> set cps. 32 \<le> cp \<and> cp < 127" for cps a gs
    using that
  proof (induction cps arbitrary: a gs)
    case (Cons cp cps)
    show ?case
    proof (cases "font cp")
      case (Some b)
      have "\<forall>(i, v) \<in> set (glyph_writes cp b). i < kAtlasW * kAtlasH"
        using glyph_writes_in_cell(2) [of cp _ _ b] Cons.prems by auto
      from put_atlas_defined [OF this] obtain a1 where
        a1: "put_atlas (glyph_writes cp b) a = Val a1" "\<forall>j. j \<notin> fst ` set (glyph_writes cp b) \<longrightarrow> a1 j = a j" by blast
      from Cons.IH [of a1 "gs[cp - 32 := make_glyph cp b]"] Cons.prems obtain a2 gs2 where
        a2: "load_glyphs font cps (a1, gs[cp - 32 := make_glyph cp b]) = Val (a2, gs2)" "length gs2 = length gs"
          "\<forall>i. (\<forall>cp b. 32 \<le> cp \<and> cp < 127 \<and> font cp = Some b \<longrightarrow> i \<notin> fst ` set (glyph_writes cp b)) \<longrightarrow> a2 i = a1 i" by auto
      have "a2 i = a i" if "\<forall>cp b. 32 \<le> cp \<and> cp < 127 \<and> font cp = Some b \<longrightarrow> i \<notin> fst ` set (glyph_writes cp b)" for i
        using a1(2) a2(3) Some that Cons.prems by simp
      with a1(1) a2(1,2) Some show ?thesis by auto
    qed (use Cons in auto)
  qed auto
  from this [of "[32..<127]" "\<lambda>_. 0" "replicate 95 Glyph_zero"] show ?thesis by (simp add: font_atlas_def)
qed

text \<open>
  \<^verbatim>\<open>drawRect\<close> samples the texel (8, 8), in the cell of the space character. A space has no pixels, so that texel is
  transparent, and the fragment shader multiplies the colour with it: rectangles are invisible.
\<close>

theorem rectangle_texel_transparent:
  assumes "font 32 = Some sp" and "gb_rows sp = 0"
  shows "\<exists>a gs. font_atlas font = Val (a, gs) \<and> a (8 * kAtlasW + 8) = 0"
proof -
  have "8 * kAtlasW + 8 \<notin> fst ` set (glyph_writes cp b)" if "32 \<le> cp" "cp < 127" "font cp = Some b" for cp b
  proof (cases "cp = 32")
    case True
    with assms that show ?thesis by (simp add: glyph_writes_def)
  next
    case False
    have "\<not> in_cell cp (8 * kAtlasW + 8)"
    proof
      assume "in_cell cp (8 * kAtlasW + 8)"
      then have "(cp - 32) div 16 = 0" "(cp - 32) mod 16 = 0" by (simp_all add: in_cell_def atlas_sizes)
      then have "cp - 32 = 0" by (metis div_mult_mod_eq mult_0 add_0)
      with False that show False by simp
    qed
    with glyph_writes_in_cell(1) [OF that(1,2)] show ?thesis by fastforce
  qed
  with atlas_built [of font] show ?thesis by blast
qed

section \<open>Vertices\<close>

record Vertex =
  vx_x :: f32
  vx_y :: f32
  vx_u :: f32
  vx_v :: f32
  vx_r :: f32
  vx_g :: f32
  vx_b :: f32
  vx_a :: f32

text \<open>
  A channel divided by 255.0f: the quotient to 64 binary places, with a last bit that is set when it is
  not exact, rounded to the nearest.
\<close>

definition channel :: "u32 \<Rightarrow> nat \<Rightarrow> f32" where
  "channel rgba shift =
     (let n = uint (drop_bit shift rgba AND 0xFF); q = n * 2 ^ 64 div 255; sticky = (if n * 2 ^ 64 mod 255 = 0 then 0 else 1)
      in f32_round False (2 * q + sticky) (-65))"

definition quad :: "f32 \<Rightarrow> f32 \<Rightarrow> f32 \<Rightarrow> f32 \<Rightarrow> Glyph \<Rightarrow> u32 \<Rightarrow> Vertex list" where
  "quad x0 y0 x1 y1 g rgba =
     (let v = (\<lambda>x y u w. \<lparr>vx_x = x, vx_y = y, vx_u = u, vx_v = w, vx_r = channel rgba 0, vx_g = channel rgba 8,
               vx_b = channel rgba 16, vx_a = channel rgba 24\<rparr>);
          v0 = v x0 y0 (gl_u0 g) (gl_v0 g); v1 = v x1 y0 (gl_u1 g) (gl_v0 g);
          v2 = v x1 y1 (gl_u1 g) (gl_v1 g); v3 = v x0 y1 (gl_u0 g) (gl_v1 g)
      in [v0, v1, v2, v0, v2, v3])"

text \<open>A rectangle has the texture coordinate 0.5 / 32 at all its corners.\<close>

definition drawRect :: "bool \<Rightarrow> f32 \<Rightarrow> f32 \<Rightarrow> f32 \<Rightarrow> f32 \<Rightarrow> u32 \<Rightarrow> Vertex list \<Rightarrow> Vertex list" where
  "drawRect available x y w h rgba vs =
     (if \<not> available then vs
      else vs @ quad x y (f32_add x w) (f32_add y h)
             (Glyph_zero\<lparr>gl_u0 := Fin False 1 (-6), gl_v0 := Fin False 1 (-6),
                gl_u1 := Fin False 1 (-6), gl_v1 := Fin False 1 (-6)\<rparr>) rgba)"

definition glyph_index :: "u8 \<Rightarrow> nat" where
  "glyph_index c = unat (if c < 32 \<or> c > 126 then 63 else c) - 32"

fun text_vertices :: "Glyph list \<Rightarrow> f32 \<Rightarrow> f32 \<Rightarrow> f32 \<Rightarrow> u32 \<Rightarrow> f32 \<Rightarrow> u8 list \<Rightarrow> Vertex list" where
  "text_vertices gs cell scale y rgba cursorX [] = []"
| "text_vertices gs cell scale y rgba cursorX (c # cs) =
     (if c = 10 then text_vertices gs cell scale y rgba cursorX cs
      else let g = gs ! glyph_index c
           in quad cursorX y (f32_add cursorX cell) (f32_add y cell) g rgba
              @ text_vertices gs cell scale y rgba (f32_add cursorX (f32_mul (gl_advance g) scale)) cs)"

definition drawText :: "bool \<Rightarrow> Glyph list \<Rightarrow> f32 \<Rightarrow> f32 \<Rightarrow> u8 list \<Rightarrow> u32 \<Rightarrow> f32 \<Rightarrow> Vertex list \<Rightarrow> Vertex list" where
  "drawText available gs x y text rgba scale vs =
     (if \<not> available \<or> gs = [] then vs
      else vs @ text_vertices gs (f32_mul (Fin False 32 0) scale) scale y rgba x text)"

definition textWidth :: "Glyph list \<Rightarrow> u8 list \<Rightarrow> f32 \<Rightarrow> f32" where
  "textWidth gs text scale =
     (if gs = [] then Fin False 0 0
      else fold (\<lambda>c w. f32_add w (f32_mul (gl_advance (gs ! glyph_index c)) scale)) text (Fin False 0 0))"

text \<open>Every character finds its glyph, and each one but the line feed becomes two triangles.\<close>

lemma glyph_index_bound: "glyph_index c < 95"
proof (cases "c < 32 \<or> c > 126")
  case False
  then have "unat c \<le> 126" by (simp add: word_less_nat_alt)
  with False show ?thesis by (simp add: glyph_index_def)
qed (simp add: glyph_index_def)

lemma text_vertices_length:
  "length (text_vertices gs cell scale y rgba x cs) = 6 * length (filter (\<lambda>c. c \<noteq> 10) cs)"
  by (induction cs arbitrary: x) (simp_all add: quad_def Let_def)

section \<open>Device objects\<close>

datatype ov_object =
    OvShader u64 | OvPipeline u64 | OvImage u64 | OvView u64 | OvSampler u64 | OvBuffer u64

text \<open>The fields that name device objects; 0 is none. \<open>ov_glyphs\<close> says that the font is loaded.\<close>

record OverlayRenderer =
  ov_device :: bool
  ov_vertexBuffer :: u64
  ov_pipeline :: u64
  ov_vs :: u64
  ov_fs :: u64
  ov_fontImage :: u64
  ov_fontView :: u64
  ov_fontSampler :: u64
  ov_capacity :: nat
  ov_vertices :: nat
  ov_glyphs :: bool
  ov_available :: bool

definition OverlayRenderer_new :: OverlayRenderer where
  "OverlayRenderer_new = \<lparr>ov_device = False, ov_vertexBuffer = 0, ov_pipeline = 0, ov_vs = 0, ov_fs = 0,
     ov_fontImage = 0, ov_fontView = 0, ov_fontSampler = 0, ov_capacity = 0, ov_vertices = 0, ov_glyphs = False,
     ov_available = False\<rparr>"

text \<open>What the device returns when the renderer is initialised.\<close>

record ov_answers =
  oa_vs :: u64
  oa_fs :: u64
  oa_pipeline :: u64
  oa_font :: bool
  oa_image :: u64
  oa_view :: u64
  oa_sampler :: u64

definition made :: "(u64 \<Rightarrow> ov_object) \<Rightarrow> u64 \<Rightarrow> ov_object ledger_event list" where
  "made k h = (if h = 0 then [] else [Acquired (k h)])"

definition gone :: "(u64 \<Rightarrow> ov_object) \<Rightarrow> u64 \<Rightarrow> ov_object ledger_event list" where
  "gone k h = (if h = 0 then [] else [Released (k h)])"

definition ensureFontLoaded :: "ov_answers \<Rightarrow> OverlayRenderer \<Rightarrow> OverlayRenderer \<times> ov_object ledger_event list" where
  "ensureFontLoaded d s =
     (if ov_glyphs s \<or> \<not> oa_font d then (s, [])
      else let s = s\<lparr>ov_glyphs := True, ov_fontImage := oa_image d\<rparr>
           in if oa_image d = 0 then (s, [])
              else (s\<lparr>ov_fontView := oa_view d, ov_fontSampler := oa_sampler d\<rparr>,
                    made OvImage (oa_image d) @ made OvView (oa_view d) @ made OvSampler (oa_sampler d)))"

text \<open>\<open>device\<close> is whether a device was passed, \<open>built\<close> whether shaders and FreeType are in the build.\<close>

definition Overlay_initialize ::
  "bool \<Rightarrow> bool \<Rightarrow> ov_answers \<Rightarrow> OverlayRenderer \<Rightarrow> OverlayRenderer \<times> ov_object ledger_event list" where
  "Overlay_initialize device built d s =
     (let s = s\<lparr>ov_device := device\<rparr>
      in if \<not> device \<or> \<not> built then (s, [])
         else let s = s\<lparr>ov_vs := oa_vs d, ov_fs := oa_fs d\<rparr>; es = made OvShader (oa_vs d) @ made OvShader (oa_fs d)
              in if oa_vs d = 0 \<or> oa_fs d = 0 then (s, es)
                 else let s = s\<lparr>ov_pipeline := oa_pipeline d\<rparr>; es = es @ made OvPipeline (oa_pipeline d)
                      in if oa_pipeline d = 0 then (s, es)
                         else let (s, fs) = ensureFontLoaded d s
                              in if \<not> ov_glyphs s then (s, es @ fs)
                                 else (s\<lparr>ov_available := True\<rparr>, es @ fs))"

definition Overlay_shutdown :: "OverlayRenderer \<Rightarrow> OverlayRenderer \<times> ov_object ledger_event list" where
  "Overlay_shutdown s =
     (s\<lparr>ov_pipeline := 0, ov_vs := 0, ov_fs := 0, ov_fontView := 0, ov_fontImage := 0, ov_fontSampler := 0,
        ov_vertexBuffer := 0, ov_vertices := 0, ov_glyphs := False, ov_available := False, ov_device := False\<rparr>,
      if \<not> ov_device s then []
      else gone OvPipeline (ov_pipeline s) @ gone OvShader (ov_vs s) @ gone OvShader (ov_fs s)
        @ gone OvView (ov_fontView s) @ gone OvImage (ov_fontImage s) @ gone OvSampler (ov_fontSampler s)
        @ gone OvBuffer (ov_vertexBuffer s))"

text \<open>\<open>buf\<close> is what creating a buffer returns.\<close>

definition ensureBufferCapacity :: "u64 \<Rightarrow> nat \<Rightarrow> OverlayRenderer \<Rightarrow> OverlayRenderer \<times> ov_object ledger_event list" where
  "ensureBufferCapacity buf n s =
     (if ov_capacity s \<ge> n then (s, [])
      else (s\<lparr>ov_vertexBuffer := buf, ov_capacity := n\<rparr>, gone OvBuffer (ov_vertexBuffer s) @ made OvBuffer buf))"

text \<open>The result says whether the vertices were uploaded and drawn.\<close>

definition Overlay_endFrame :: "u64 \<Rightarrow> OverlayRenderer \<Rightarrow> bool \<times> OverlayRenderer \<times> ov_object ledger_event list" where
  "Overlay_endFrame buf s =
     (if \<not> ov_available s \<or> ov_vertices s = 0 then (False, s, [])
      else let (s, es) = ensureBufferCapacity buf (ov_vertices s) s
           in if ov_vertexBuffer s = 0 then (False, s, es) else (True, s\<lparr>ov_vertices := 0\<rparr>, es))"

text \<open>A frame: it begins, so many vertices are drawn, it ends.\<close>

definition frame_step :: "OverlayRenderer \<Rightarrow> nat \<times> u64 \<Rightarrow> OverlayRenderer \<times> ov_object ledger_event list" where
  "frame_step s q = snd (Overlay_endFrame (snd q) (s\<lparr>ov_vertices := (if ov_available s then fst q else 0)\<rparr>))"

definition own :: "(u64 \<Rightarrow> ov_object) \<Rightarrow> u64 \<Rightarrow> ov_object multiset" where
  "own k h = (if h = 0 then {#} else {#k h#})"

lemma own_simps [simp]:
  "own k 0 = {#}" "acquired (made k h) = own k h" "released (made k h) = {#}"
  "released (gone k h) = own k h" "acquired (gone k h) = {#}"
  by (simp_all add: own_def made_def gone_def)

definition ov_live :: "OverlayRenderer \<Rightarrow> ov_object multiset" where
  "ov_live s = own OvPipeline (ov_pipeline s) + own OvShader (ov_vs s) + own OvShader (ov_fs s) + own OvView (ov_fontView s)
     + own OvImage (ov_fontImage s) + own OvSampler (ov_fontSampler s) + own OvBuffer (ov_vertexBuffer s)"

lemma frame_step_account:
  assumes "frame_step s q = (s', es)"
  shows "ov_device s' = ov_device s" and "ov_live s' + released es = ov_live s + acquired es"
proof -
  let ?s = "s\<lparr>ov_vertices := (if ov_available s then fst q else 0)\<rparr>"
  obtain t fs where t: "ensureBufferCapacity (snd q) (ov_vertices ?s) ?s = (t, fs)" by fastforce
  then have a: "ov_device t = ov_device s" "ov_live t + released fs = ov_live s + acquired fs"
    by (auto simp: ensureBufferCapacity_def ov_live_def ac_simps split: if_splits)
  have "ov_live (t\<lparr>ov_vertices := n\<rparr>) = ov_live t" "ov_live (s\<lparr>ov_vertices := n\<rparr>) = ov_live s" for n
    by (simp_all add: ov_live_def)
  with assms t a show "ov_device s' = ov_device s" and "ov_live s' + released es = ov_live s + acquired es"
    unfolding frame_step_def Overlay_endFrame_def Let_def by (auto split: if_splits)
qed

interpretation ov_frames: resource_ledger "\<lambda>_ s. ov_device s" frame_step ov_live
  by unfold_locales (simp_all add: frame_step_account)

text \<open>
  The renderer gives back what it took: initialised once, whichever step fails, and after any number of
  frames, its shutdown destroys every object the device made for it, once.
\<close>

theorem overlay_releases_all:
  assumes "Overlay_initialize True built d OverlayRenderer_new = (s1, es1)"
    and "run_ops frame_step s1 frames = (s2, es2)" and "Overlay_shutdown s2 = (s3, es3)"
  shows "released (es1 @ es2 @ es3) = acquired (es1 @ es2 @ es3)"
proof -
  have i: "ov_device s1" "ov_live s1 = acquired es1" "released es1 = {#}"
    using assms(1)
    by (auto simp: Overlay_initialize_def OverlayRenderer_new_def ensureFontLoaded_def ov_live_def Let_def ac_simps
        split: if_splits prod.splits)
  from ov_frames.run_account [OF i(1) assms(2)]
  have f: "ov_device s2" "ov_live s2 + released es2 = ov_live s1 + acquired es2" by auto
  from assms(3) f(1) have "released es3 = ov_live s2" "acquired es3 = {#}"
    by (auto simp: Overlay_shutdown_def ov_live_def)
  with f(2) i show ?thesis by (simp add: ac_simps)
qed

text \<open>
  The capacity outlives the buffer: when a buffer could not be made, or after a shutdown, a
  frame that fits the recorded capacity is not drawn and no new buffer is requested.
\<close>

theorem overlay_stays_blank:
  assumes "ov_vertexBuffer s = 0" and "0 < ov_vertices s" and "ov_vertices s \<le> ov_capacity s"
  shows "Overlay_endFrame buf s = (False, s, [])"
  using assms by (simp add: Overlay_endFrame_def ensureBufferCapacity_def)

theorem overlay_capacity_survives_shutdown:
  "ov_capacity (fst (Overlay_shutdown s)) = ov_capacity s \<and> ov_vertexBuffer (fst (Overlay_shutdown s)) = 0"
  by (simp add: Overlay_shutdown_def)

end
