(* ===== verification/Gl_Device.thy ===== *)
theory Gl_Device
  imports Resource_Ledger
begin

text \<open>
  The OpenGL device (\<^verbatim>\<open>graphics/opengl/OpenGLDevice.cpp\<close>): the tables from handles to OpenGL objects behind the
  device interface. The driver's names for new objects are arguments; the objects made and deleted are a log
  of acquired and released resources, and textures and buffers receive their data through it.
\<close>

section \<open>State\<close>

datatype gl_object = GlBuffer u32 | GlTexture u32 | GlSampler u32

record GlBufferEntry =
  gb_id :: u32
  gb_size :: u64

record GlImageEntry =
  gi_id :: u32
  gi_w :: u32
  gi_h :: u32

record gl_device =
  gd_window :: bool
  gd_context :: bool
  gd_width :: u32
  gd_height :: u32
  gd_next :: u64
  gd_buffers :: "(u64, GlBufferEntry) umap"
  gd_images :: "(u64, GlImageEntry) umap"
  gd_views :: "(u64, u64) umap"
  gd_samplers :: "(u64, u32) umap"
  gd_fences :: "(u64, bool) umap"
  gd_semaphores :: "(u64, bool) umap"
  gd_hasPendingClear :: bool

definition gl_device_new :: gl_device where
  "gl_device_new = \<lparr>gd_window = False, gd_context = False, gd_width = 0, gd_height = 0, gd_next = 1,
     gd_buffers = [], gd_images = [], gd_views = [], gd_samplers = [], gd_fences = [], gd_semaphores = [],
     gd_hasPendingClear = False\<rparr>"

section \<open>Operations\<close>

text \<open>\<open>window\<close> and \<open>made\<close> say whether there is a native window and whether a context could be created.\<close>

definition gl_initialize :: "bool \<Rightarrow> bool \<Rightarrow> gl_device \<Rightarrow> bool \<times> gl_device" where
  "gl_initialize window made d =
     (let d = d\<lparr>gd_window := window\<rparr>
      in if \<not> window then (False, d)
         else (made, d\<lparr>gd_context := made\<rparr>))"

definition gl_shutdown :: "gl_device \<Rightarrow> gl_device" where
  "gl_shutdown d = d\<lparr>gd_context := False, gd_window := False\<rparr>"

definition gl_createSwapchain :: "u32 \<Rightarrow> u32 \<Rightarrow> gl_device \<Rightarrow> bool \<times> gl_device" where
  "gl_createSwapchain w h d = (True, d\<lparr>gd_width := w, gd_height := h\<rparr>)"

definition gl_recreateSwapchain :: "u32 \<Rightarrow> u32 \<Rightarrow> gl_device \<Rightarrow> gl_device" where
  "gl_recreateSwapchain w h d = d\<lparr>gd_width := w, gd_height := h\<rparr>"

text \<open>The frame has the size of the drawable; the format is R8G8B8A8_Unorm.\<close>

definition gl_beginFrame :: "int \<Rightarrow> int \<Rightarrow> gl_device \<Rightarrow> (u32 \<times> u32) option \<times> gl_device" where
  "gl_beginFrame w h d =
     (if \<not> gd_context d then (None, d)
      else (Some (word_of_int w, word_of_int h), d\<lparr>gd_hasPendingClear := False\<rparr>))"

definition gl_presentFrame :: "gl_device \<Rightarrow> bool" where
  "gl_presentFrame d = gd_context d"

definition gl_clearCurrentFrame :: "gl_device \<Rightarrow> gl_device" where
  "gl_clearCurrentFrame d = (if \<not> gd_context d then d else d\<lparr>gd_hasPendingClear := True\<rparr>)"

definition gl_createBuffer :: "u32 \<Rightarrow> u64 \<Rightarrow> gl_device \<Rightarrow> u64 \<times> gl_device \<times> gl_object ledger_event list" where
  "gl_createBuffer name sz d =
     (if \<not> gd_context d then (0, d, [])
      else (gd_next d, d\<lparr>gd_next := gd_next d + 1,
              gd_buffers := um_assign (gd_next d) \<lparr>gb_id = name, gb_size = sz\<rparr> (gd_buffers d)\<rparr>,
            [Acquired (GlBuffer name)]))"

definition gl_destroyBuffer :: "u64 \<Rightarrow> gl_device \<Rightarrow> gl_device \<times> gl_object ledger_event list" where
  "gl_destroyBuffer h d =
     (case um_find (gd_buffers d) h of
        None \<Rightarrow> (d, [])
      | Some e \<Rightarrow> (d\<lparr>gd_buffers := um_erase h (gd_buffers d)\<rparr>,
                    if gd_context d then [Released (GlBuffer (gb_id e))] else []))"

definition gl_createImage :: "u32 \<Rightarrow> u32 \<Rightarrow> u32 \<Rightarrow> gl_device \<Rightarrow> u64 \<times> gl_device \<times> gl_object ledger_event list" where
  "gl_createImage name w h d =
     (if \<not> gd_context d then (0, d, [])
      else (gd_next d, d\<lparr>gd_next := gd_next d + 1,
              gd_images := um_assign (gd_next d) \<lparr>gi_id = name, gi_w = w, gi_h = h\<rparr> (gd_images d)\<rparr>,
            [Acquired (GlTexture name)]))"

definition gl_destroyImage :: "u64 \<Rightarrow> gl_device \<Rightarrow> gl_device \<times> gl_object ledger_event list" where
  "gl_destroyImage h d =
     (case um_find (gd_images d) h of
        None \<Rightarrow> (d, [])
      | Some e \<Rightarrow> (d\<lparr>gd_images := um_erase h (gd_images d)\<rparr>,
                    if gd_context d then [Released (GlTexture (gi_id e))] else []))"

definition gl_createImageView :: "u64 \<Rightarrow> gl_device \<Rightarrow> u64 \<times> gl_device" where
  "gl_createImageView img d =
     (if um_find (gd_images d) img = None then (0, d)
      else (gd_next d, d\<lparr>gd_next := gd_next d + 1, gd_views := um_assign (gd_next d) img (gd_views d)\<rparr>))"

definition gl_destroyImageView :: "u64 \<Rightarrow> gl_device \<Rightarrow> gl_device" where
  "gl_destroyImageView h d = d\<lparr>gd_views := um_erase h (gd_views d)\<rparr>"

definition gl_createSampler :: "u32 \<Rightarrow> gl_device \<Rightarrow> u64 \<times> gl_device \<times> gl_object ledger_event list" where
  "gl_createSampler name d =
     (if \<not> gd_context d then (0, d, [])
      else (gd_next d, d\<lparr>gd_next := gd_next d + 1, gd_samplers := um_assign (gd_next d) name (gd_samplers d)\<rparr>,
            [Acquired (GlSampler name)]))"

definition gl_destroySampler :: "u64 \<Rightarrow> gl_device \<Rightarrow> gl_device \<times> gl_object ledger_event list" where
  "gl_destroySampler h d =
     (case um_find (gd_samplers d) h of
        None \<Rightarrow> (d, [])
      | Some name \<Rightarrow> (d\<lparr>gd_samplers := um_erase h (gd_samplers d)\<rparr>,
                       if gd_context d then [Released (GlSampler name)] else []))"

text \<open>An upload: whether it is accepted, and the object, offset and bytes that OpenGL receives.\<close>

definition gl_uploadBuffer :: "u64 \<Rightarrow> u64 \<Rightarrow> u8 list \<Rightarrow> gl_device \<Rightarrow> (u32 \<times> u64 \<times> u8 list) option" where
  "gl_uploadBuffer h offset data d =
     (case um_find (gd_buffers d) h of
        None \<Rightarrow> None
      | Some e \<Rightarrow> if offset + of_nat (length data) > gb_size e then None else Some (gb_id e, offset, data))"

text \<open>
  OpenGL reads four bytes for every pixel of the texture, whatever the length of the data; it reads nothing when
  a side is negative as its signed size, an error the code does not ask for.
\<close>

definition gl_uploadImage :: "u64 \<Rightarrow> u8 list \<Rightarrow> gl_device \<Rightarrow> (u32 \<times> u8 list) option cpp" where
  "gl_uploadImage img data d =
     (case um_find (gd_images d) img of
        None \<Rightarrow> Val None
      | Some e \<Rightarrow>
          if sint (gi_w e) < 0 \<or> sint (gi_h e) < 0 then Val (Some (gi_id e, []))
          else cpp_bind (read_buffer data 0 (unat (gi_w e) * unat (gi_h e) * 4)) (\<lambda>px. Val (Some (gi_id e, px))))"

definition gl_createShader :: u64 where "gl_createShader = 0"

definition gl_createGraphicsPipeline :: u64 where "gl_createGraphicsPipeline = 0"

definition gl_createFence :: "bool \<Rightarrow> gl_device \<Rightarrow> u64 \<times> gl_device" where
  "gl_createFence signaled d =
     (gd_next d, d\<lparr>gd_next := gd_next d + 1, gd_fences := um_assign (gd_next d) signaled (gd_fences d)\<rparr>)"

definition gl_destroyFence :: "u64 \<Rightarrow> gl_device \<Rightarrow> gl_device" where
  "gl_destroyFence h d = d\<lparr>gd_fences := um_erase h (gd_fences d)\<rparr>"

definition gl_waitFence :: "u64 \<Rightarrow> gl_device \<Rightarrow> bool \<times> gl_device" where
  "gl_waitFence h d =
     (if um_find (gd_fences d) h = None then (False, d)
      else (True, d\<lparr>gd_fences := um_assign h True (gd_fences d)\<rparr>))"

definition gl_resetFence :: "u64 \<Rightarrow> gl_device \<Rightarrow> gl_device" where
  "gl_resetFence h d =
     (if um_find (gd_fences d) h = None then d else d\<lparr>gd_fences := um_assign h False (gd_fences d)\<rparr>)"

definition gl_createSemaphore :: "gl_device \<Rightarrow> u64 \<times> gl_device" where
  "gl_createSemaphore d =
     (gd_next d, d\<lparr>gd_next := gd_next d + 1, gd_semaphores := um_assign (gd_next d) False (gd_semaphores d)\<rparr>)"

definition gl_destroySemaphore :: "u64 \<Rightarrow> gl_device \<Rightarrow> gl_device" where
  "gl_destroySemaphore h d = d\<lparr>gd_semaphores := um_erase h (gd_semaphores d)\<rparr>"

section \<open>The objects of a running device\<close>

datatype gl_op =
    GoBuffer u32 u64 | GoBufferFree u64 | GoImage u32 u32 u32 | GoImageFree u64 | GoView u64 | GoViewFree u64
  | GoSampler u32 | GoSamplerFree u64 | GoFence bool | GoFenceFree u64 | GoFrame int int | GoSwapchain u32 u32

fun gl_step :: "gl_device \<Rightarrow> gl_op \<Rightarrow> gl_device \<times> gl_object ledger_event list" where
  "gl_step d (GoBuffer name sz) = snd (gl_createBuffer name sz d)"
| "gl_step d (GoBufferFree h) = gl_destroyBuffer h d"
| "gl_step d (GoImage name w h) = snd (gl_createImage name w h d)"
| "gl_step d (GoImageFree h) = gl_destroyImage h d"
| "gl_step d (GoView img) = (snd (gl_createImageView img d), [])"
| "gl_step d (GoViewFree h) = (gl_destroyImageView h d, [])"
| "gl_step d (GoSampler name) = snd (gl_createSampler name d)"
| "gl_step d (GoSamplerFree h) = gl_destroySampler h d"
| "gl_step d (GoFence b) = (snd (gl_createFence b d), [])"
| "gl_step d (GoFenceFree h) = (gl_destroyFence h d, [])"
| "gl_step d (GoFrame w h) = (snd (gl_beginFrame w h d), [])"
| "gl_step d (GoSwapchain w h) = (gl_recreateSwapchain w h d, [])"

definition gl_live :: "gl_device \<Rightarrow> gl_object multiset" where
  "gl_live d = image_mset (\<lambda>e. GlBuffer (gb_id e)) (um_values (gd_buffers d))
     + image_mset (\<lambda>e. GlTexture (gi_id e)) (um_values (gd_images d)) + image_mset GlSampler (um_values (gd_samplers d))"

text \<open>Handles are below the counter, which has room for \<open>n\<close> more, and the context is there.\<close>

definition fresh_above :: "u64 \<Rightarrow> (u64, 'v) umap \<Rightarrow> bool" where
  "fresh_above k m \<longleftrightarrow> um_ok m \<and> (\<forall>h v. um_find m h = Some v \<longrightarrow> h < k)"

definition gl_inv :: "nat \<Rightarrow> gl_device \<Rightarrow> bool" where
  "gl_inv n d \<longleftrightarrow> gd_context d \<and> unat (gd_next d) + n < 2 ^ 64 \<and> 0 < gd_next d
     \<and> fresh_above (gd_next d) (gd_buffers d) \<and> fresh_above (gd_next d) (gd_images d) \<and> fresh_above (gd_next d) (gd_samplers d)"

lemma gl_next_room: "unat k + Suc n < 2 ^ 64 \<Longrightarrow> unat (k + 1) = Suc (unat k) \<and> k < k + 1 \<and> 0 < k + 1" for k :: u64
proof -
  assume r: "unat k + Suc n < 2 ^ 64"
  have "unat (k + 1) = Suc (unat k)" using r by (intro trans [OF unat_word_ariths(1)]) simp
  then show ?thesis by (simp add: word_less_nat_alt)
qed

lemma fresh_above_mono: "fresh_above k m \<Longrightarrow> k \<le> k' \<Longrightarrow> fresh_above k' m"
  unfolding fresh_above_def by (meson order.strict_trans2)

lemma fresh_above_assign: "fresh_above k m \<Longrightarrow> k < k' \<Longrightarrow> fresh_above k' (um_assign k v m)"
  unfolding fresh_above_def um.find_assign by (auto intro: um.ok_assign dest: order.strict_trans)

lemma fresh_above_erase: "fresh_above k m \<Longrightarrow> fresh_above k (um_erase h m)"
  unfolding fresh_above_def um.find_erase by (auto intro: um.ok_erase)

lemma fresh_above_find: "fresh_above k m \<Longrightarrow> um_find m k = None"
  by (cases "um_find m k") (auto simp: fresh_above_def)

lemma fresh_above_values:
  "fresh_above k m \<Longrightarrow> um_values (um_assign k v m) = add_mset v (um_values m)"
  "fresh_above k m \<Longrightarrow> um_find m h = Some v \<Longrightarrow> um_values m = add_mset v (um_values (um_erase h m))"
  by (simp add: um_values_assign fresh_above_find) (rule um_values_erase, simp_all add: fresh_above_def)

lemma gl_step_account:
  assumes "gl_inv (Suc n) d" and "gl_step d q = (d', es)"
  shows "gl_inv n d' \<and> gl_live d' + released es = gl_live d + acquired es"
proof -
  note i = assms(1) [unfolded gl_inv_def]
  note r = gl_next_room [of "gd_next d" n]
  have k: "unat (gd_next d + 1) = Suc (unat (gd_next d))" "gd_next d < gd_next d + 1" "0 < gd_next d + 1"
    using i r by auto
  note f = fresh_above_assign [OF _ k(2)] fresh_above_mono [OF _ less_imp_le [OF k(2)]] fresh_above_erase
  show ?thesis
    using assms(2) i k
    by (cases q)
      (auto simp: gl_inv_def gl_live_def f fresh_above_values(1) gl_createBuffer_def gl_destroyBuffer_def
        gl_createImage_def gl_destroyImage_def gl_createImageView_def gl_destroyImageView_def gl_createSampler_def
        gl_destroySampler_def gl_createFence_def gl_destroyFence_def gl_beginFrame_def gl_recreateSwapchain_def
        dest: fresh_above_values(2) split: option.splits if_splits)
qed

interpretation gl: resource_ledger gl_inv gl_step gl_live
  by unfold_locales (use gl_step_account in blast)+

text \<open>
  The objects of a device: from its creation, after any sequence of operations that the handle counter has room
  for, what OpenGL still holds is what the tables name, each object once: everything made and not deleted.
\<close>

theorem gl_objects_accounted:
  assumes "gl_initialize True True gl_device_new = (ok, d)" and "length qs < 2 ^ 64 - 1"
    and "run_ops gl_step d qs = (d', es)"
  shows "acquired es = gl_live d' + released es"
proof -
  have i: "gl_inv (length qs + 0) d" "gl_live d = {#}"
    using assms(1,2)
    by (auto simp: gl_initialize_def gl_device_new_def gl_inv_def gl_live_def fresh_above_def um_ok_def um_find_def)
  from gl.run_account [OF i(1) assms(3)] i(2) show ?thesis by simp
qed

text \<open>
  The objects of a device that has been shut down are gone with its context, but the tables still name them:
  an upload to an old buffer is still accepted, and after a second initialisation destroying it deletes
  whatever object of the new context has that name.
\<close>

theorem gl_shutdown_keeps_names:
  assumes "um_find (gd_buffers d) h = Some e" and "offset + of_nat (length data) \<le> gb_size e"
  shows "gl_uploadBuffer h offset data (gl_shutdown d) = Some (gb_id e, offset, data)"
    and "snd (gl_destroyBuffer h (snd (gl_initialize True True (gl_shutdown d)))) = [Released (GlBuffer (gb_id e))]"
  using assms by (simp_all add: gl_uploadBuffer_def gl_shutdown_def gl_destroyBuffer_def gl_initialize_def)

text \<open>An upload is checked with a sum that wraps: at an offset near 2^64 it passes.\<close>

theorem gl_upload_wraps:
  assumes "um_find (gd_buffers d) h = Some e" and "0 < gb_size e"
  shows "gl_uploadBuffer h (2 ^ 64 - 1) [a, b] d = Some (gb_id e, 2 ^ 64 - 1, [a, b])"
proof -
  have "(2 ^ 64 - 1 :: u64) + of_nat (length [a, b]) = 1" by simp
  then show ?thesis using assms by (simp only: gl_uploadBuffer_def option.case) (simp add: word_neq_0_conv)
qed

text \<open>An image upload that is too short is not refused: OpenGL reads past its end.\<close>

theorem gl_upload_short:
  assumes "um_find (gd_images d) img = Some e" and "0 \<le> sint (gi_w e)" and "0 \<le> sint (gi_h e)"
    and "length data < unat (gi_w e) * unat (gi_h e) * 4"
  shows "gl_uploadImage img data d = UB"
  using assms by (auto simp: gl_uploadImage_def read_buffer_def)

text \<open>No pipeline can be made: the device presents cleared frames only, and only while it has its context.\<close>

theorem gl_presents_clears:
  "gl_presentFrame (gl_clearCurrentFrame d) = gd_context d"
  "gd_hasPendingClear (gl_clearCurrentFrame d) \<longleftrightarrow> gd_context d \<or> gd_hasPendingClear d"
  "fst (gl_waitFence (fst (gl_createFence s d)) (snd (gl_createFence s d)))"
  by (simp_all add: gl_presentFrame_def gl_clearCurrentFrame_def gl_waitFence_def gl_createFence_def um_simps)

end
