(* ===== verification/Spec2Isabelle.thy ===== *)
theory Spec2Isabelle
  imports
    Prelude
    Resource_Ledger
    Guest_Memory
    Virtual_Path
    Virtual_File_System
    Address_Space
    Free_Bsd
    Handles
    Threads
    Dispatcher
    Handlers
    Handler_Safety
    Trap_Ring
    Sce_Stub_Table
    Trap_Gate
    Isolation
    Process
    Elf_Reader
    Tls_Block
    Module_Registry
    Relocations
    Elf_Loader
    Sce_Imports
    Trampolines
    Sce_Nid
    Nid_Database
    Kernel_Objects
    Sce_Kernel
    Save_Container
    Gnm_Registry
    Bgft_Transfer
    Guest_Words
    Libc_Heap
    Libc_Heap_Safety
    Libc_Strings
    Sce_Exports
    Psn_Backend
    Psn_Safety
    Sce_Np
    Save_Data
    Sce_Random
    Sce_Rtc
    Network
    Dialogs
    Sce_Ult
    Fibers
    Sce_Platform
    Binary32
    Audio
    Audio_Mixer
    Input
    Gnm_Commands
    Sce_Media
    Trace_Config
    Overlay
    Gl_Device
begin

text \<open>
  A verification library for FusionPS4, a runtime that executes PS4 programs on a Linux host.

  \<^bold>\<open>The program.\<close> A PS4 executable is loaded into an arena of memory that the runtime and an isolated
  child process share at the same addresses. The child drops its privileges, installs a seccomp filter
  and jumps to the guest's entry point. A system call of the guest, or a call of an imported SCE
  function through a trampoline, raises SIGSYS; the signal handler puts a request into a ring, a
  server thread of the runtime takes it out, runs a FreeBSD system call handler or an SCE stub on the process
  state, and writes the answer back. File paths of the guest pass through a virtual filesystem with a
  policy per mount; files, sockets, events, semaphores and threads are named by handles.

  \<^bold>\<open>How it is modelled.\<close> Machine integers are words of their width, host \<^verbatim>\<open>int\<close>s and results are
  integers. An outcome outside the C++ abstract machine (a wild access, a signed overflow) is the value
  \<open>UB\<close> of the type \<open>cpp\<close>, so a theorem whose conclusion is \<open>Val\<close> also says that the execution is
  defined. State is passed explicitly in records that have the fields of the classes. Hash maps are
  association lists with distinct keys behind the locale \<open>hash_map\<close>. What the kernel, the clock, the
  graphics device or the host's files answer, and the order in which a hash map is iterated where it shows, is an argument. Threads that interleave are inductive
  step relations whose steps are the atomic accesses or the critical sections of the code.

  \<^bold>\<open>Theories\<close>, in the order of the code's layers:
  \<^item> \<open>Prelude\<close>: words, \<open>cpp\<close>, hash maps (locale \<open>hash_map\<close>), little-endian fields, bytes of characters.
    \<open>Resource_Ledger\<close>: multisets of live resources (locale \<open>resource_ledger\<close>). \<open>Guest_Memory\<close>: byte
    stores and loads that are undefined outside mapped memory.
  \<^item> \<open>Virtual_Path\<close>, \<open>Virtual_File_System\<close> (\<^verbatim>\<open>filesystem/\<close>): normalisation, translation, the policy. What
    resolves lies under a mount's directory and the mount allows the operation.
  \<^item> \<open>Address_Space\<close> (\<^verbatim>\<open>runtime/memory\<close>, \<^verbatim>\<open>isolation/SharedArena\<close>): regions stay disjoint and in the
    arena; a mapping is fresh and succeeds when there is a gap.
  \<^item> \<open>Free_Bsd\<close> (\<^verbatim>\<open>syscall/freebsd\<close>): numbers, error numbers, flags. \<open>Handles\<close> (\<^verbatim>\<open>runtime/handles\<close>, locale
    \<open>handle_registry\<close>): the life of handles; events refine a set of signalled bits. \<open>Threads\<close>
    (\<^verbatim>\<open>runtime/thread\<close>): thread objects as a state machine of the manager and the native thread.
  \<^item> \<open>Dispatcher\<close>, \<open>Handlers\<close>, \<open>Handler_Safety\<close> (\<^verbatim>\<open>syscall/\<close>): the dispatch table, every handler of
    \<^verbatim>\<open>Handlers.cpp\<close> over a host interface with a log of host calls, and the theorems about all runs: host
    paths stay in the sandbox, host descriptors are accounted for, unserved calls fail cleanly.
  \<^item> \<open>Trap_Ring\<close>, \<open>Sce_Stub_Table\<close>, \<open>Trap_Gate\<close> (\<^verbatim>\<open>syscall/trap\<close>, \<^verbatim>\<open>sce/SceStubTable.cpp\<close>): the ring with its
    slots and futexes under interleaving (slots are exclusive, each thread gets the answer to its own request; a sleeper in the server's process is woken, one in another is not),
    the two ends of a trap on the guest's registers, and the server's loop.
  \<^item> \<open>Isolation\<close>, \<open>Process\<close> (\<^verbatim>\<open>isolation/\<close>, \<^verbatim>\<open>runtime/GuestProcess.cpp\<close>, \<^verbatim>\<open>runtime/process\<close>): the child's start
    with every failing step, the filter program with an interpreter of its instructions, process start and shutdown.
  \<^item> \<open>Elf_Reader\<close>, \<open>Tls_Block\<close>, \<open>Module_Registry\<close>, \<open>Relocations\<close>, \<open>Elf_Loader\<close> (\<^verbatim>\<open>loader/\<close>): from the bytes of a file
    to a relocated module in memory; headers are read as written, writes stay inside the module's
    segments, symbols resolve as the export tables say.
  \<^item> \<open>Sce_Imports\<close>, \<open>Trampolines\<close>, \<open>Sce_Nid\<close>, \<open>Nid_Database\<close> (\<^verbatim>\<open>loader/sce\<close>, \<^verbatim>\<open>loader/trampolines\<close>): import
    tables, the code emitted for an import and what the processor does with it, SHA-256 against FIPS 180-4, the
    text form of the database.
  \<^item> \<open>Kernel_Objects\<close>, \<open>Sce_Kernel\<close> (\<^verbatim>\<open>sce/kernel\<close>): semaphores with threads at their condition variable,
    whose signals notify after they have left the lock, and the exports of libSceKernel refined to counters named by handles.
  \<^item> \<open>Sce_Exports\<close>, \<open>Guest_Words\<close> (\<^verbatim>\<open>registerExports\<close> of every library): the export tables, what an import of an
    exported name resolves to, and typed reads and writes of guest memory for the libraries below.
  \<^item> \<open>Libc_Heap\<close>, \<open>Libc_Heap_Safety\<close>, \<open>Libc_Strings\<close> (\<^verbatim>\<open>sce/libc\<close>): the allocator with its free list in guest
    memory (live blocks are disjoint after any run), the memory, string and number functions.
  \<^item> \<open>Save_Container\<close>, \<open>Save_Data\<close> (\<^verbatim>\<open>sce/savedata\<close>): the save format and its round trip, the exports over host
    files: what they change lies below a writable mount, and a commit can be loaded again.
  \<^item> \<open>Psn_Backend\<close>, \<open>Psn_Safety\<close>, \<open>Sce_Np\<close> (\<^verbatim>\<open>psn/\<close>, \<^verbatim>\<open>sce/np\<close>): accounts, trophies and scoreboards with their
    files; a trophy is unlocked once and stays so, boards are sorted with the code's comparison, rankings stay in the guest's buffer.
  \<^item> \<open>Network\<close> (\<^verbatim>\<open>network/\<close>, \<^verbatim>\<open>sce/net\<close>, \<^verbatim>\<open>sce/netctl\<close>, \<^verbatim>\<open>sce/http\<close>): the policy, sockets and HTTP requests;
    under the default policy nothing leaves the machine but by a redirect or a rewritten address, which the code does not stop.
  \<^item> \<open>Sce_Random\<close>, \<open>Sce_Rtc\<close>, \<open>Sce_Ult\<close>, \<open>Fibers\<close>, \<open>Dialogs\<close>, \<open>Sce_Platform\<close> (\<^verbatim>\<open>sce/random\<close>, \<^verbatim>\<open>sce/rtc\<close>, \<^verbatim>\<open>sce/ult\<close>,
    \<^verbatim>\<open>runtime/fiber\<close>, \<^verbatim>\<open>dialogs/\<close>, \<^verbatim>\<open>sce/videoout\<close> and others): the generator against ChaCha20, dates in BCD, lock-free
    pools refined to stacks (and their failure under interference), context switches, the queue of dialogs with completions
    that run outside its lock, video output.
  \<^item> \<open>Binary32\<close>, \<open>Audio\<close>, \<open>Audio_Mixer\<close>, \<open>Input\<close> (\<^verbatim>\<open>audio/\<close>, \<^verbatim>\<open>sce/ngs2\<close>, \<^verbatim>\<open>input/\<close>, \<^verbatim>\<open>sce/pad\<close>): floating point of
    single precision, audio ports, the mixer against a saturating sum of streams, controllers.
  \<^item> \<open>Gnm_Registry\<close>, \<open>Gnm_Commands\<close>, \<open>Overlay\<close>, \<open>Gl_Device\<close> (\<^verbatim>\<open>sce/gnm\<close>, \<^verbatim>\<open>graphics/\<close>): graphics resources and the
    device objects behind them as ledgers (what is made is released), the command recorder as a queue, the
    overlay's atlas and vertices, the tables of the OpenGL device.
  \<^item> \<open>Bgft_Transfer\<close>, \<open>Sce_Media\<close>, \<open>Trace_Config\<close> (\<^verbatim>\<open>sce/bgft\<close>, \<^verbatim>\<open>sce/ajm\<close>, \<^verbatim>\<open>sce/audiodec\<close>, \<^verbatim>\<open>sce/screenshot\<close>,
    \<^verbatim>\<open>sce/font\<close>, \<^verbatim>\<open>debug/\<close>): background copies, decoder batches, screenshots, fonts, the trace configuration.

  \<^bold>\<open>Bounds and fuel.\<close> \<open>server_drain\<close> takes as many rounds as the ring has slots and guests submit requests during
  the pass, which is enough since every round completes one request (proved). The scans of the code keep its own limits: 4096 bytes for a guest
  string, \<open>2 ^ 20\<close> symbols, \<open>2 ^ 64 - 1\<close> bytes for a C string. \<open>run_to_syscall\<close> needs three steps for a trampoline.
  The retry loops of \<open>Sce_Ult\<close> take the writes of other threads as a list: with no more interference they end. The
  calendar functions count years up to the one of the tick. The mixer works in blocks of 512 frames, as the code does.
  Hypotheses on the number of handles, stubs and graphics ids exclude the wrap-around of their
  counters.

  \<^bold>\<open>Properties\<close> are marked C1 to C40 in the theories. Several theorems without a mark
  show where the code departs from its comments, for example \<open>ring_early_consume\<close>, \<open>ring_private_futex_hangs\<close>,
  \<open>connect_reads_twice\<close>, \<open>redirect_leaves_host\<close>,
  \<open>open_truncates_read_only_mount\<close>, \<open>isolated_start_fails\<close> and \<open>save_entry_range_wraps\<close>.

  \<^bold>\<open>Not modelled.\<close> The Vulkan device, the window and the program entry, the codecs (PNG, JPEG, mpg123), the crash
  handler and the profiler only call host or third-party libraries. Of the C library the stdio functions are left
  out, and of the remaining SCE libraries (camera, voice, move, video decoding, SSL and others) only the
  export tables are modelled: the functions behind them return constants.
\<close>

end
